(* ===== verification/Pulzz_Prelude.thy ===== *)
theory Pulzz_Prelude
  imports Main "HOL-Library.Word"
begin

text \<open>
  Shared vocabulary of the development: the machine types of the Rust sources, \<open>Result\<close> as a sum
  type with the \<open>?\<close> operator as \<open>and_then\<close>, slices, little-endian integers, and the ordered maps
  (\<open>BTreeMap\<close>, \<open>HashMap\<close>) as association lists sorted by key.  Two locales state what a wire format
  promises: \<open>wire_codec\<close> (decoding inverts encoding) and \<open>canonical_codec\<close> (in addition every
  accepted byte string is the encoding of the decoded value), and \<open>stream_codec\<close> states the same for
  decoders that consume a prefix of the input and hand back the rest.
\<close>

unbundle bit_operations_syntax

type_synonym u8 = "8 word"
type_synonym u16 = "16 word"
type_synonym u32 = "32 word"
type_synonym u64 = "64 word"
type_synonym bytes = "8 word list"

named_theorems wire_simps \<open>lengths and round trips of encoded fields\<close>

section \<open>Result values\<close>

abbreviation Ok :: "'a \<Rightarrow> 'e + 'a" where "Ok \<equiv> Inr"
abbreviation Err :: "'e \<Rightarrow> 'e + 'a" where "Err \<equiv> Inl"

fun and_then :: "'e + 'a \<Rightarrow> ('a \<Rightarrow> 'e + 'b) \<Rightarrow> 'e + 'b" where
  "and_then (Inl e) f = Inl e"
| "and_then (Inr x) f = f x"

fun map_err :: "('e \<Rightarrow> 'f) \<Rightarrow> 'e + 'a \<Rightarrow> 'f + 'a" where
  "map_err g (Inl e) = Inl (g e)"
| "map_err g (Inr x) = Inr x"

fun ok_or :: "'e \<Rightarrow> 'a option \<Rightarrow> 'e + 'a" where
  "ok_or e None = Inl e"
| "ok_or e (Some x) = Inr x"

definition ensure :: "bool \<Rightarrow> 'e \<Rightarrow> 'e + unit" where
  "ensure b e = (if b then Inr () else Inl e)"

lemma and_then_Inr_iff [simp]: "and_then m f = Inr y \<longleftrightarrow> (\<exists>x. m = Inr x \<and> f x = Inr y)"
  by (cases m) auto

lemma and_then_Inl_iff: "and_then m f = Inl e \<longleftrightarrow> m = Inl e \<or> (\<exists>x. m = Inr x \<and> f x = Inl e)"
  by (cases m) auto

lemma map_err_Inr_iff [simp]: "map_err g m = Inr x \<longleftrightarrow> m = Inr x"
  by (cases m) auto

lemma map_err_Inl_iff: "map_err g m = Inl e \<longleftrightarrow> (\<exists>d. m = Inl d \<and> e = g d)"
  by (cases m) auto

lemma ok_or_Inr_iff [simp]: "ok_or e m = Inr x \<longleftrightarrow> m = Some x"
  by (cases m) auto

lemma ensure_Inr_iff [simp]: "ensure b e = Inr u \<longleftrightarrow> b"
  by (simp add: ensure_def)

lemma ensure_Inl_iff [simp]: "ensure b e = Inl d \<longleftrightarrow> \<not> b \<and> d = e"
  by (auto simp: ensure_def)

lemma ensure_True [simp]: "ensure True e = Inr ()"
  and ensure_False [simp]: "ensure False e = Inl e"
  by (simp_all add: ensure_def)

text \<open>
  Loops whose body ends in \<open>?\<close>: a check of every element, a map over the elements and a fold over
  them, each of which stops at the first error.
\<close>

fun try_each :: "('a \<Rightarrow> 'e + unit) \<Rightarrow> 'a list \<Rightarrow> 'e + unit" where
  "try_each f [] = Inr ()"
| "try_each f (x # xs) = and_then (f x) (\<lambda>_. try_each f xs)"

fun try_map :: "('a \<Rightarrow> 'e + 'b) \<Rightarrow> 'a list \<Rightarrow> 'e + 'b list" where
  "try_map f [] = Inr []"
| "try_map f (x # xs) = and_then (f x) (\<lambda>y. and_then (try_map f xs) (\<lambda>ys. Inr (y # ys)))"

fun try_fold :: "('s \<Rightarrow> 'a \<Rightarrow> 'e + 's) \<Rightarrow> 's \<Rightarrow> 'a list \<Rightarrow> 'e + 's" where
  "try_fold f s [] = Inr s"
| "try_fold f s (x # xs) = and_then (f s x) (\<lambda>s'. try_fold f s' xs)"

lemma try_each_iff [simp]: "try_each f xs = Inr u \<longleftrightarrow> (\<forall>x \<in> set xs. f x = Inr ())"
  by (induction xs) auto

lemma try_map_iff: "try_map f xs = Inr ys \<longleftrightarrow> list_all2 (\<lambda>x y. f x = Inr y) xs ys"
proof (induction xs arbitrary: ys)
  case Nil
  then show ?case by auto
next
  case (Cons x xs)
  then show ?case by (cases ys) auto
qed

lemma try_map_cong: "(\<And>x. x \<in> set xs \<Longrightarrow> f x = g x) \<Longrightarrow> try_map f xs = try_map g xs"
  by (induction xs) auto

lemma try_map_Inr: "(\<And>x. x \<in> set xs \<Longrightarrow> f x = Inr (g x)) \<Longrightarrow> try_map f xs = Inr (map g xs)"
  by (induction xs) auto

lemma try_fold_append: "try_fold f s (xs @ ys) = and_then (try_fold f s xs) (\<lambda>s'. try_fold f s' ys)"
proof (induction xs arbitrary: s)
  case (Cons x xs)
  then show ?case by (cases "f s x") simp_all
qed simp

lemma try_fold_invariant:
  assumes "try_fold f s xs = Inr s'" and "P s"
    and "\<And>s x s'. x \<in> set xs \<Longrightarrow> P s \<Longrightarrow> f s x = Inr s' \<Longrightarrow> P s'"
  shows "P s'"
  using assms
proof (induction xs arbitrary: s)
  case (Cons x xs)
  then obtain t where t: "f s x = Inr t" and rest: "try_fold f t xs = Inr s'" by auto
  from t Cons.prems(2,3) have "P t" by auto
  then show ?case using Cons.IH [OF rest] Cons.prems(3) by auto
qed simp

section \<open>Slices\<close>

text \<open>\<open>slice a b xs\<close> is Rust's \<open>xs[a..b]\<close>; every use is guarded by a length check as in the code.\<close>

definition slice :: "nat \<Rightarrow> nat \<Rightarrow> 'a list \<Rightarrow> 'a list" where
  "slice a b xs = take (b - a) (drop a xs)"

lemma length_slice: "length (slice a b xs) = min (b - a) (length xs - a)"
  by (simp add: slice_def min.commute)

lemma length_slice_le [simp]: "a \<le> b \<Longrightarrow> b \<le> length xs \<Longrightarrow> length (slice a b xs) = b - a"
  by (simp add: length_slice)

lemma slice_append_slice:
  assumes "a \<le> b" and "b \<le> c"
  shows "slice a b xs @ slice b c xs = slice a c xs"
proof -
  have "drop b xs = drop (b - a) (drop a xs)" and "c - a = (b - a) + (c - b)"
    using assms by simp_all
  then show ?thesis by (simp add: slice_def take_add)
qed

lemma slice_append_drop:
  assumes "a \<le> b"
  shows "slice a b xs @ drop b xs = drop a xs"
proof -
  have "drop b xs = drop (b - a) (drop a xs)" using assms by simp
  then show ?thesis unfolding slice_def by (simp only: append_take_drop_id)
qed

lemma slice_0: "slice 0 b xs = take b xs"
  by (simp add: slice_def)

lemma slice_full: "length xs \<le> b \<Longrightarrow> slice a b xs = drop a xs"
  by (simp add: slice_def)

lemma slice_single: "i < length xs \<Longrightarrow> slice i (Suc i) xs = [xs ! i]"
  by (simp add: slice_def take_Suc_conv_app_nth hd_drop_conv_nth
      take_Suc Cons_nth_drop_Suc [symmetric])

text \<open>Cutting a list at field boundaries and putting it together again.\<close>

named_theorems slice_join \<open>adjacent slices and fields merge\<close>

lemma slice_join_slice [slice_join]:
  "a \<le> b \<Longrightarrow> b \<le> c \<Longrightarrow> slice a b xs @ slice b c xs @ r = slice a c xs @ r"
  "a \<le> b \<Longrightarrow> slice a b xs @ drop b xs = drop a xs"
  "a \<le> b \<Longrightarrow> b \<le> c \<Longrightarrow> slice a b xs @ slice b c xs = slice a c xs"
  by (simp_all add: slice_append_slice slice_append_drop flip: append_assoc)

lemma slice_join_nth [slice_join]:
  "i < length xs \<Longrightarrow> j = Suc i \<Longrightarrow> j \<le> c \<Longrightarrow> xs ! i # slice j c xs @ r = slice i c xs @ r"
  "i < length xs \<Longrightarrow> j = Suc i \<Longrightarrow> j \<le> c \<Longrightarrow> xs ! i # slice j c xs = slice i c xs"
  "i < length xs \<Longrightarrow> j = Suc i \<Longrightarrow> xs ! i # drop j xs = drop i xs"
  by (simp_all add: slice_def take_Cons' Cons_nth_drop_Suc [symmetric] flip: append_Cons)

lemma slice_shift: "length p = n \<Longrightarrow> slice (n + a) (n + b) (p @ xs) = slice a b xs"
  by (simp add: slice_def)

lemma set_slice_subset: "set (slice a b xs) \<subseteq> set xs"
  unfolding slice_def by (meson order_trans set_drop_subset set_take_subset)

section \<open>Little-endian integers\<close>

fun le_bytes :: "nat \<Rightarrow> 'a::len word \<Rightarrow> bytes" where
  "le_bytes 0 w = []"
| "le_bytes (Suc n) w = ucast w # le_bytes n (drop_bit 8 w)"

fun from_le :: "bytes \<Rightarrow> 'a::len word" where
  "from_le [] = 0"
| "from_le (b # bs) = ucast b OR push_bit 8 (from_le bs)"

lemma length_le_bytes [simp]: "length (le_bytes n w) = n"
  by (induction n arbitrary: w) auto

lemma bit_from_le:
  "bit (from_le bs :: 'a::len word) i \<longleftrightarrow>
    i < LENGTH('a) \<and> i div 8 < length bs \<and> bit (bs ! (i div 8)) (i mod 8)"
proof (induction bs arbitrary: i)
  case Nil
  then show ?case by simp
next
  case (Cons b bs)
  show ?case
  proof (cases "i < 8")
    case True
    then show ?thesis
      by (auto simp: bit_or_iff bit_ucast_iff bit_push_bit_iff)
  next
    case False
    then have d: "i div 8 = Suc ((i - 8) div 8)" and m: "(i - 8) mod 8 = i mod 8"
      by (simp_all add: le_div_geq le_mod_geq)
    have nb: "\<not> bit b i"
      using False bit_imp_le_length [of b i] by auto
    show ?thesis
      using False Cons.IH [of "i - 8"] d m nb
      by (auto simp: bit_or_iff bit_ucast_iff bit_push_bit_iff)
  qed
qed

lemma nth_le_bytes: "i < n \<Longrightarrow> le_bytes n w ! i = ucast (drop_bit (8 * i) w)"
proof (induction n arbitrary: w i)
  case 0
  then show ?case by simp
next
  case (Suc n)
  then show ?case
    by (cases i) (auto simp: add.commute)
qed

lemma from_le_le_bytes:
  assumes "LENGTH('a) = 8 * n"
  shows "from_le (le_bytes n (w :: 'a::len word)) = w"
proof (rule bit_word_eqI)
  fix i
  assume i: "i < LENGTH('a)"
  then have "i div 8 < n" using assms by auto
  moreover have "8 * (i div 8) + i mod 8 = i" by simp
  moreover have "i mod 8 < 8" by simp
  ultimately show "bit (from_le (le_bytes n w) :: 'a word) i = bit w i"
    using i by (simp add: bit_from_le nth_le_bytes bit_ucast_iff bit_drop_bit_eq)
qed

lemma le_bytes_from_le:
  assumes "length bs = n" and "LENGTH('a) = 8 * n"
  shows "le_bytes n (from_le bs :: 'a::len word) = bs"
proof (rule nth_equalityI)
  show "length (le_bytes n (from_le bs :: 'a word)) = length bs"
    using assms(1) by simp
next
  fix i
  assume "i < length (le_bytes n (from_le bs :: 'a word))"
  then have i: "i < n" by simp
  show "le_bytes n (from_le bs :: 'a word) ! i = bs ! i"
  proof (rule bit_word_eqI)
    fix j
    assume "j < LENGTH(8)"
    then have j: "j < 8" by simp
    then have "(8 * i + j) div 8 = i" and "(8 * i + j) mod 8 = j" by simp_all
    then show "bit (le_bytes n (from_le bs :: 'a word) ! i) j = bit (bs ! i) j"
      using i j assms by (simp add: nth_le_bytes bit_ucast_iff bit_drop_bit_eq bit_from_le)
  qed
qed

definition le16 :: "u16 \<Rightarrow> bytes" where "le16 w = le_bytes 2 w"
definition le32 :: "u32 \<Rightarrow> bytes" where "le32 w = le_bytes 4 w"
definition le64 :: "u64 \<Rightarrow> bytes" where "le64 w = le_bytes 8 w"

definition of_le16 :: "bytes \<Rightarrow> u16" where "of_le16 bs = from_le bs"
definition of_le32 :: "bytes \<Rightarrow> u32" where "of_le32 bs = from_le bs"
definition of_le64 :: "bytes \<Rightarrow> u64" where "of_le64 bs = from_le bs"

lemma length_le [simp]:
  "length (le16 a) = 2" "length (le32 b) = 4" "length (le64 c) = 8"
  by (simp_all add: le16_def le32_def le64_def)

lemma of_le_le [simp, wire_simps]:
  "of_le16 (le16 a) = a" "of_le32 (le32 b) = b" "of_le64 (le64 c) = c"
  by (simp_all add: le16_def le32_def le64_def of_le16_def of_le32_def of_le64_def from_le_le_bytes)

lemma le_of_le [wire_simps]:
  "length p = 2 \<Longrightarrow> le16 (of_le16 p) = p"
  "length q = 4 \<Longrightarrow> le32 (of_le32 q) = q"
  "length r = 8 \<Longrightarrow> le64 (of_le64 r) = r"
  by (simp_all add: le16_def le32_def le64_def of_le16_def of_le32_def of_le64_def le_bytes_from_le)

lemma le_inject [simp]:
  "le16 a = le16 a' \<longleftrightarrow> a = a'" "le32 b = le32 b' \<longleftrightarrow> b = b'" "le64 c = le64 c' \<longleftrightarrow> c = c'"
  by (metis of_le_le)+

lemmas le_eval =
  le16_def le32_def le64_def of_le16_def of_le32_def of_le64_def numeral_eq_Suc

section \<open>Chunks\<close>

text \<open>\<open>slice.chunks(n)\<close>, where callers make sure that \<open>n\<close> is not 0, and \<open>usize::div_ceil\<close>.\<close>

function chunks :: "nat \<Rightarrow> 'a list \<Rightarrow> 'a list list" where
  "chunks n xs = (if xs = [] \<or> n = 0 then [] else take n xs # chunks n (drop n xs))"
  by pat_completeness auto
termination
  by (relation "measure (\<lambda>(_, xs). length xs)") auto

declare chunks.simps [simp del]

definition div_ceil :: "nat \<Rightarrow> nat \<Rightarrow> nat" where
  "div_ceil a b = (if a mod b = 0 then a div b else a div b + 1)"

lemma concat_chunks: "0 < n \<Longrightarrow> concat (chunks n xs) = xs"
  by (induction n xs rule: chunks.induct) (subst chunks.simps, simp)

lemma chunk_bounds: "c \<in> set (chunks n xs) \<Longrightarrow> 0 < length c \<and> length c \<le> n"
proof (induction n xs rule: chunks.induct)
  case (1 n xs)
  then show ?case by (subst (asm) (2) chunks.simps) (auto split: if_splits)
qed

lemma div_ceil_step: "0 < n \<Longrightarrow> 0 < a \<Longrightarrow> div_ceil a n = Suc (div_ceil (a - n) n)"
  by (cases "a < n") (auto simp: div_ceil_def le_div_geq le_mod_geq)

lemma length_chunks: "0 < n \<Longrightarrow> length (chunks n xs) = div_ceil (length xs) n"
proof (induction n xs rule: chunks.induct)
  case (1 n xs)
  then show ?case
    by (subst chunks.simps) (auto simp: div_ceil_step div_ceil_def [of 0])
qed

lemma chunks_concat: "0 < n \<Longrightarrow> \<forall>c \<in> set cs. length c = n \<Longrightarrow> chunks n (concat cs) = cs"
  by (induction cs) (subst chunks.simps; force)+

lemma div_ceil_le: "0 < n \<Longrightarrow> a \<le> k * n \<Longrightarrow> div_ceil a n \<le> k"
proof (cases "a mod n = 0")
  case True
  assume "0 < n" and "a \<le> k * n"
  then have "a div n \<le> k * n div n" by (intro div_le_mono)
  with True \<open>0 < n\<close> show ?thesis by (simp add: div_ceil_def)
next
  case False
  assume "0 < n" and "a \<le> k * n"
  with False have "a < k * n" by (cases "a = k * n") auto
  then have "a div n < k" by (rule less_mult_imp_div_less)
  with False show ?thesis by (simp add: div_ceil_def)
qed

lemma le_div_ceil: "0 < n \<Longrightarrow> a \<le> div_ceil a n * n"
  using dividend_less_div_times [of n a] by (auto simp: div_ceil_def mod_eq_0_iff_dvd)

section \<open>Text\<close>

text \<open>The bytes of a literal, and the hash function of the sha2 crate, a parameter of the definitions that use it.\<close>

definition ascii_bytes :: "string \<Rightarrow> bytes" where "ascii_bytes s = map of_char s"

type_synonym sha = "bytes \<Rightarrow> bytes"

text \<open>\<open>std::str::from_utf8\<close> accepts the well-formed byte sequences of the Unicode standard.\<close>

definition continuation :: "u8 \<Rightarrow> bool" where "continuation b \<longleftrightarrow> 0x80 \<le> b \<and> b \<le> 0xBF"

fun utf8_valid :: "bytes \<Rightarrow> bool" where
  "utf8_valid [] \<longleftrightarrow> True"
| "utf8_valid (a # bs) \<longleftrightarrow>
     (if a < 0x80 then utf8_valid bs
      else if 0xC2 \<le> a \<and> a \<le> 0xDF then
        (case bs of b # bs \<Rightarrow> continuation b \<and> utf8_valid bs | [] \<Rightarrow> False)
      else if 0xE0 \<le> a \<and> a \<le> 0xEF then
        (case bs of b # c # bs \<Rightarrow>
             (if a = 0xE0 then 0xA0 \<le> b \<and> b \<le> 0xBF else if a = 0xED then 0x80 \<le> b \<and> b \<le> 0x9F else continuation b)
             \<and> continuation c \<and> utf8_valid bs
         | _ \<Rightarrow> False)
      else if 0xF0 \<le> a \<and> a \<le> 0xF4 then
        (case bs of b # c # d # bs \<Rightarrow>
             (if a = 0xF0 then 0x90 \<le> b \<and> b \<le> 0xBF else if a = 0xF4 then 0x80 \<le> b \<and> b \<le> 0x8F else continuation b)
             \<and> continuation c \<and> continuation d \<and> utf8_valid bs
         | _ \<Rightarrow> False)
      else False)"

text \<open>\<open>len as u16\<close>, \<open>len as u32\<close>: the cast keeps the low bits.\<close>

lemma unat_of_nat_u32: "n < 2 ^ 32 \<Longrightarrow> unat (of_nat n :: u32) = n"
  by (simp add: unat_of_nat)

lemma unat_of_nat_u16: "n < 2 ^ 16 \<Longrightarrow> unat (of_nat n :: u16) = n"
  by (simp add: unat_of_nat)

lemma unat_of_nat_u8: "n < 2 ^ 8 \<Longrightarrow> unat (of_nat n :: u8) = n"
  by (simp add: unat_of_nat)

text \<open>Decimal rendering, as \<open>format!\<close> does it.\<close>

fun show_nat :: "nat \<Rightarrow> string" where
  "show_nat n =
     (if n < 10 then [char_of (48 + n)] else show_nat (n div 10) @ [char_of (48 + n mod 10)])"

declare show_nat.simps [simp del]

text \<open>\<open>str::parse::<u64>\<close>: an optional plus sign and at least one digit; a value that does not fit is an error.\<close>

definition is_digit :: "char \<Rightarrow> bool" where
  "is_digit c \<longleftrightarrow> 48 \<le> (of_char c :: nat) \<and> (of_char c :: nat) \<le> 57"

definition parse_digits :: "string \<Rightarrow> nat" where
  "parse_digits s = foldl (\<lambda>n c. 10 * n + (of_char c - 48)) 0 s"

definition parse_u64 :: "string \<Rightarrow> u64 option" where
  "parse_u64 s =
     (let digits = (case s of c # cs \<Rightarrow> if c = CHR ''+'' then cs else s | [] \<Rightarrow> s) in
      if digits = [] \<or> \<not> list_all is_digit digits \<or> 2 ^ 64 \<le> parse_digits digits then None
      else Some (of_nat (parse_digits digits)))"

section \<open>Saturating arithmetic\<close>

definition saturating_add :: "'a::len word \<Rightarrow> 'a word \<Rightarrow> 'a word" where
  "saturating_add a b = (if unat a + unat b < 2 ^ LENGTH('a) then a + b else - 1)"

definition saturating_sub :: "'a::len word \<Rightarrow> 'a word \<Rightarrow> 'a word" where
  "saturating_sub a b = (if b \<le> a then a - b else 0)"

definition saturating_mul :: "'a::len word \<Rightarrow> 'a word \<Rightarrow> 'a word" where
  "saturating_mul a b = (if unat a * unat b < 2 ^ LENGTH('a) then a * b else - 1)"

lemma unat_minus_1: "unat (- 1 :: 'a::len word) = 2 ^ LENGTH('a) - 1"
  by (simp add: unsigned_minus_1_eq_mask mask_eq_exp_minus_1)

lemma unat_saturating_add: "unat (saturating_add a b) = min (unat a + unat b) (2 ^ LENGTH('a) - 1)"
  for a b :: "'a::len word"
  by (auto simp: saturating_add_def unat_word_ariths unat_minus_1)

lemma unat_saturating_sub: "unat (saturating_sub a b) = unat a - unat b"
  by (auto simp: saturating_sub_def unat_sub_if' word_le_nat_alt)

lemma unat_saturating_mul: "unat (saturating_mul a b) = min (unat a * unat b) (2 ^ LENGTH('a) - 1)"
  for a b :: "'a::len word"
  by (auto simp: saturating_mul_def unat_word_ariths unat_minus_1)

section \<open>Ordered maps\<close>

text \<open>
  A \<open>BTreeMap\<close> is a list of pairs whose keys increase strictly; iteration is the list's order.  A
  \<open>HashMap\<close> has the same lookups; where the code iterates over one, the model takes the order in
  which the keys are yielded as an argument.
\<close>

type_synonym ('k, 'v) ord_map = "('k \<times> 'v) list"

definition om_ok :: "('k::linorder, 'v) ord_map \<Rightarrow> bool" where
  "om_ok m \<longleftrightarrow> sorted_wrt (<) (map fst m)"

fun om_insert :: "'k::linorder \<Rightarrow> 'v \<Rightarrow> ('k, 'v) ord_map \<Rightarrow> ('k, 'v) ord_map" where
  "om_insert k v [] = [(k, v)]"
| "om_insert k v ((k', v') # m) =
     (if k < k' then (k, v) # (k', v') # m
      else if k = k' then (k, v) # m
      else (k', v') # om_insert k v m)"

definition om_remove :: "'k::linorder \<Rightarrow> ('k, 'v) ord_map \<Rightarrow> ('k, 'v) ord_map" where
  "om_remove k m = filter (\<lambda>e. fst e \<noteq> k) m"

definition om_get :: "('k::linorder, 'v) ord_map \<Rightarrow> 'k \<Rightarrow> 'v option" where
  "om_get m k = map_of m k"

definition om_keys :: "('k::linorder, 'v) ord_map \<Rightarrow> 'k list" where
  "om_keys m = map fst m"

text \<open>\<open>entry(k).or_insert(default)\<close> followed by a change in place.\<close>

definition om_update :: "'k::linorder \<Rightarrow> ('v \<Rightarrow> 'v) \<Rightarrow> 'v \<Rightarrow> ('k, 'v) ord_map \<Rightarrow> ('k, 'v) ord_map" where
  "om_update k f initial m = om_insert k (f (case om_get m k of Some v \<Rightarrow> v | None \<Rightarrow> initial)) m"

lemma om_get_Nil [simp]: "om_get [] k = None"
  by (simp add: om_get_def)

lemma om_get_insert [simp]: "om_get (om_insert k v m) = (om_get m)(k \<mapsto> v)"
  by (rule ext, induction m rule: om_insert.induct) (auto simp: om_get_def)

lemma om_get_update:
  "om_get (om_update k f initial m) = (om_get m)(k \<mapsto> f (case om_get m k of Some v \<Rightarrow> v | None \<Rightarrow> initial))"
  by (simp add: om_update_def)

lemma om_get_remove [simp]: "om_get (om_remove k m) = (om_get m)(k := None)"
  by (rule ext, induction m) (auto simp: om_get_def om_remove_def)

lemma om_keys_insert: "set (om_keys (om_insert k v m)) = insert k (set (om_keys m))"
  by (induction k v m rule: om_insert.induct) (auto simp: om_keys_def)

lemma om_keys_remove: "set (om_keys (om_remove k m)) = set (om_keys m) - {k}"
  by (auto simp: om_keys_def om_remove_def image_iff)

lemma om_ok_Nil [simp]: "om_ok []"
  by (simp add: om_ok_def)

lemma om_ok_insert: "om_ok m \<Longrightarrow> om_ok (om_insert k v m)"
proof (induction k v m rule: om_insert.induct)
  case (1 k v)
  then show ?case by (simp add: om_ok_def)
next
  case (2 k v k' v' m)
  then have m: "om_ok m" and lt: "\<forall>x \<in> set (om_keys m). k' < x"
    by (auto simp: om_ok_def om_keys_def)
  show ?case
  proof (cases "k < k'")
    case True
    with 2(2) lt show ?thesis by (auto simp: om_ok_def om_keys_def)
  next
    case False
    show ?thesis
    proof (cases "k = k'")
      case True
      with 2(2) show ?thesis by (simp add: om_ok_def)
    next
      case neq: False
      with False have "k' < k" by auto
      with lt have "\<forall>x \<in> set (om_keys (om_insert k v m)). k' < x"
        by (simp add: om_keys_insert)
      moreover have "om_ok (om_insert k v m)" using False neq m by (rule 2(1))
      ultimately show ?thesis using False neq by (auto simp: om_ok_def om_keys_def)
    qed
  qed
qed

lemma om_ok_update: "om_ok m \<Longrightarrow> om_ok (om_update k f initial m)"
  by (simp add: om_update_def om_ok_insert)

lemma om_ok_remove: "om_ok m \<Longrightarrow> om_ok (om_remove k m)"
  by (induction m) (auto simp: om_ok_def om_remove_def)

lemma om_get_None_iff: "om_get m k = None \<longleftrightarrow> k \<notin> set (om_keys m)"
  by (simp add: om_get_def om_keys_def map_of_eq_None_iff)

lemma om_get_dom: "dom (om_get m) = set (om_keys m)"
  using om_get_None_iff by (force simp: dom_def)

lemma om_distinct: "om_ok m \<Longrightarrow> distinct (om_keys m)"
  by (simp add: om_ok_def om_keys_def strict_sorted_iff)

lemma length_om_keys [simp]: "length (om_keys m) = length m"
  by (simp add: om_keys_def)

lemma length_om: "om_ok m \<Longrightarrow> length m = card (set (om_keys m))"
  using distinct_card [OF om_distinct, of m] by simp

section \<open>What a wire format promises\<close>

text \<open>
  A codec: \<open>enc\<close> writes the values that satisfy \<open>valid\<close>, \<open>dec\<close> reads bytes or fails.  The clients of
  a codec need two consequences: different values have different encodings, and a decoder that accepts
  the encoding returns the value that was sent.
\<close>

locale wire_codec =
  fixes enc :: "'a \<Rightarrow> bytes"
    and dec :: "bytes \<Rightarrow> 'e + 'a"
    and valid :: "'a \<Rightarrow> bool"
  assumes dec_enc: "valid x \<Longrightarrow> dec (enc x) = Inr x"
begin

lemma enc_inject: "valid x \<Longrightarrow> valid y \<Longrightarrow> enc x = enc y \<Longrightarrow> x = y"
  using dec_enc by (metis sum.inject(2))

lemma dec_enc_unique: "valid x \<Longrightarrow> dec (enc x) = Inr y \<Longrightarrow> y = x"
  by (simp add: dec_enc)

lemma enc_distinct: "valid x \<Longrightarrow> valid y \<Longrightarrow> x \<noteq> y \<Longrightarrow> enc x \<noteq> enc y"
  using enc_inject by blast

end

text \<open>A canonical codec accepts nothing but encodings of valid values, so bytes are not malleable.\<close>

locale canonical_codec = wire_codec +
  assumes dec_valid: "dec bs = Inr x \<Longrightarrow> valid x"
    and enc_dec: "dec bs = Inr x \<Longrightarrow> enc x = bs"
begin

lemma dec_inject: "dec bs = Inr x \<Longrightarrow> dec cs = Inr x \<Longrightarrow> bs = cs"
  using enc_dec by blast

lemma dec_iff: "dec bs = Inr x \<longleftrightarrow> valid x \<and> bs = enc x"
  using dec_enc dec_valid enc_dec by blast

lemma accepts_iff: "(\<exists>x. dec bs = Inr x) \<longleftrightarrow> bs \<in> enc ` {x. valid x}"
  using dec_iff by blast

end

text \<open>
  Decoders that read from a cursor: they consume a prefix of the input and return the rest.  A
  sequence of such values, written one after the other, is read back by \<open>dec_many\<close>.
\<close>

fun dec_many :: "(bytes \<Rightarrow> 'e + 'a \<times> bytes) \<Rightarrow> nat \<Rightarrow> bytes \<Rightarrow> 'e + 'a list \<times> bytes" where
  "dec_many d 0 bs = Inr ([], bs)"
| "dec_many d (Suc n) bs =
     and_then (d bs) (\<lambda>(x, rest). and_then (dec_many d n rest) (\<lambda>(xs, rest'). Inr (x # xs, rest')))"

lemma dec_many_Suc_iff:
  "dec_many d (Suc n) bs = Inr (xs, rest) \<longleftrightarrow>
    (\<exists>x r ys. d bs = Inr (x, r) \<and> dec_many d n r = Inr (ys, rest) \<and> xs = x # ys)"
  by (simp add: split_def) (metis prod.collapse)

lemma dec_many_length: "dec_many d n bs = Inr (xs, rest) \<Longrightarrow> length xs = n"
proof (induction n arbitrary: bs xs rest)
  case 0
  then show ?case by simp
next
  case (Suc n)
  from Suc.prems obtain x r ys where "dec_many d n r = Inr (ys, rest)" and "xs = x # ys"
    unfolding dec_many_Suc_iff by blast
  with Suc.IH [of r ys rest] show ?case by simp
qed

locale stream_codec =
  fixes enc :: "'a \<Rightarrow> bytes"
    and dec :: "bytes \<Rightarrow> 'e + 'a \<times> bytes"
    and valid :: "'a \<Rightarrow> bool"
  assumes dec_enc_append: "valid x \<Longrightarrow> dec (enc x @ rest) = Inr (x, rest)"
begin

lemma dec_many_enc:
  "\<forall>x \<in> set xs. valid x \<Longrightarrow> dec_many dec (length xs) (concat (map enc xs) @ rest) = Inr (xs, rest)"
  by (induction xs) (simp_all add: dec_enc_append)

lemma concat_enc_inject:
  assumes "\<forall>x \<in> set xs. valid x" and "\<forall>y \<in> set ys. valid y"
    and "length xs = length ys" and "concat (map enc xs) @ r = concat (map enc ys) @ s"
  shows "xs = ys \<and> r = s"
proof -
  have "Inr (xs, r) = dec_many dec (length xs) (concat (map enc xs) @ r)"
    by (rule dec_many_enc [OF assms(1), symmetric])
  also have "\<dots> = Inr (ys, s)"
    unfolding assms(3,4) by (rule dec_many_enc [OF assms(2)])
  finally show ?thesis by simp
qed

end

locale canonical_stream_codec = stream_codec +
  assumes enc_dec_append: "dec bs = Inr (x, rest) \<Longrightarrow> valid x \<and> bs = enc x @ rest"
begin

lemma enc_dec_many:
  "dec_many dec n bs = Inr (xs, rest) \<Longrightarrow> (\<forall>x \<in> set xs. valid x) \<and> bs = concat (map enc xs) @ rest"
proof (induction n arbitrary: bs xs rest)
  case 0
  then show ?case by simp
next
  case (Suc n)
  then obtain x r ys where x: "dec bs = Inr (x, r)" and ys: "dec_many dec n r = Inr (ys, rest)"
    and xs: "xs = x # ys"
    unfolding dec_many_Suc_iff by blast
  from enc_dec_append [OF x] Suc.IH [OF ys] xs show ?case by simp
qed

lemma dec_many_iff:
  "dec_many dec n bs = Inr (xs, rest) \<longleftrightarrow>
    length xs = n \<and> (\<forall>x \<in> set xs. valid x) \<and> bs = concat (map enc xs) @ rest"
  using enc_dec_many dec_many_enc dec_many_length by blast

end

end
