(* ===== verification/Pulzz_Chpmt.thy ===== *)
theory Pulzz_Chpmt
  imports Pulzz_Prelude
begin

text \<open>
  The vocabulary of the predictive memory that the wire protocol refers to
  (\<open>shared_protocol/src/chpmt.rs\<close>, first part, and the enums of \<open>source.rs\<close>): memory planes, route
  families, object kinds, substrate capabilities and sparse cues, each enum with the discriminant of
  its \<open>repr(u8)\<close>.
\<close>

section \<open>Source kinds (source.rs)\<close>

datatype SourceKind = Text | Json | Binary | Image

fun SourceKind_tag :: "SourceKind \<Rightarrow> u8" where
  "SourceKind_tag Text = 1"
| "SourceKind_tag Json = 2"
| "SourceKind_tag Binary = 3"
| "SourceKind_tag Image = 4"

text \<open>\<open>from_tag\<close> fails with \<open>SourceError::UnknownSourceKind\<close>, which carries the byte.\<close>

definition SourceKind_from_tag :: "u8 \<Rightarrow> u8 + SourceKind" where
  "SourceKind_from_tag tag =
     (if tag = 1 then Ok Text
      else if tag = 2 then Ok Json
      else if tag = 3 then Ok Binary
      else if tag = 4 then Ok Image
      else Err tag)"

fun compact_asset_kind :: "SourceKind \<Rightarrow> SourceKind" where
  "compact_asset_kind Text = Text"
| "compact_asset_kind Json = Json"
| "compact_asset_kind Binary = Binary"
| "compact_asset_kind Image = Binary"

fun family_bits :: "SourceKind \<Rightarrow> u64" where
  "family_bits Text = push_bit 0 1"
| "family_bits Json = push_bit 1 1"
| "family_bits Binary = push_bit 2 1"
| "family_bits Image = push_bit 3 1"

fun role_bits :: "SourceKind \<Rightarrow> u64" where
  "role_bits Text = push_bit 0 1 OR push_bit 8 1"
| "role_bits Json = push_bit 1 1 OR push_bit 9 1"
| "role_bits Binary = push_bit 2 1 OR push_bit 10 1"
| "role_bits Image = push_bit 3 1 OR push_bit 11 1"

lemma SourceKind_from_tag_iff: "SourceKind_from_tag b = Inr k \<longleftrightarrow> b = SourceKind_tag k"
  by (cases k) (auto simp: SourceKind_from_tag_def)

lemma SourceKind_from_tag_tag [simp]: "SourceKind_from_tag (SourceKind_tag k) = Inr k"
  by (simp add: SourceKind_from_tag_iff)

lemma SourceKind_tag_inject [simp]: "SourceKind_tag k = SourceKind_tag l \<longleftrightarrow> k = l"
  by (metis SourceKind_from_tag_tag sum.inject(2))

lemma compact_asset_kind_idem: "compact_asset_kind (compact_asset_kind k) = compact_asset_kind k"
  by (cases k) auto

record ExactStateMaterial =
  esm_source_kind :: SourceKind
  esm_exact_bytes :: bytes

section \<open>Planes, routes and object kinds (chpmt.rs)\<close>

datatype MemoryPlane = AtomSubstrate | AssemblyPlane | TransformPlane | Episode | SchemaPlane | Controller

datatype RouteFamily =
  RF_DirectState | RF_PredictiveConfirm | RF_PredictiveCorrect | RF_Replay | RF_ExactAtom

datatype ControllerRouteFamily = CRF_DirectState | CRF_ExactAtom | CRF_Hybrid

fun route_family_of_controller :: "ControllerRouteFamily \<Rightarrow> RouteFamily" where
  "route_family_of_controller CRF_DirectState = RF_DirectState"
| "route_family_of_controller CRF_ExactAtom = RF_ExactAtom"
| "route_family_of_controller CRF_Hybrid = RF_PredictiveCorrect"

datatype ObjectKind =
    OK_AtomFragment | OK_ExactBlock | OK_ExactBundle | OK_ExactRange | OK_ResidualBuffer
  | OK_ExactState | OK_SourceDescriptor | OK_SparseCue | OK_Assembly | OK_Transform
  | OK_Schema | OK_EpisodeHint | OK_ReplayHint | OK_Dictionary | OK_PredictiveObject

fun storage_slug :: "ObjectKind \<Rightarrow> string" where
  "storage_slug OK_AtomFragment = ''atom_fragment''"
| "storage_slug OK_ExactBlock = ''exact_block''"
| "storage_slug OK_ExactBundle = ''exact_bundle''"
| "storage_slug OK_ExactRange = ''exact_range''"
| "storage_slug OK_ResidualBuffer = ''residual_buffer''"
| "storage_slug OK_ExactState = ''exact_state''"
| "storage_slug OK_SourceDescriptor = ''source_descriptor''"
| "storage_slug OK_SparseCue = ''sparse_cue''"
| "storage_slug OK_Assembly = ''assembly''"
| "storage_slug OK_Transform = ''transform''"
| "storage_slug OK_Schema = ''schema''"
| "storage_slug OK_EpisodeHint = ''episode_hint''"
| "storage_slug OK_ReplayHint = ''replay_hint''"
| "storage_slug OK_Dictionary = ''dictionary''"
| "storage_slug OK_PredictiveObject = ''predictive_object''"

fun ObjectKind_disc :: "ObjectKind \<Rightarrow> nat" where
  "ObjectKind_disc OK_AtomFragment = 1"
| "ObjectKind_disc OK_ExactBlock = 2"
| "ObjectKind_disc OK_ExactBundle = 3"
| "ObjectKind_disc OK_ExactRange = 4"
| "ObjectKind_disc OK_ResidualBuffer = 5"
| "ObjectKind_disc OK_ExactState = 6"
| "ObjectKind_disc OK_SourceDescriptor = 7"
| "ObjectKind_disc OK_SparseCue = 8"
| "ObjectKind_disc OK_Assembly = 9"
| "ObjectKind_disc OK_Transform = 10"
| "ObjectKind_disc OK_Schema = 11"
| "ObjectKind_disc OK_EpisodeHint = 12"
| "ObjectKind_disc OK_ReplayHint = 13"
| "ObjectKind_disc OK_Dictionary = 14"
| "ObjectKind_disc OK_PredictiveObject = 15"

lemma ObjectKind_disc_inject [simp]: "ObjectKind_disc k = ObjectKind_disc l \<longleftrightarrow> k = l"
  by (cases k; cases l) simp_all

lemma ObjectKind_disc_less: "ObjectKind_disc k < 256"
  by (cases k) simp_all

datatype SubstrateCapability =
  SC_AtomFragment | SC_ExactBlock | SC_ExactBundle | SC_ExactRange | SC_ResidualBuffer
  | SC_CompositeGraph

fun is_substrate :: "ObjectKind \<Rightarrow> bool" where
  "is_substrate OK_AtomFragment = True"
| "is_substrate OK_ExactBlock = True"
| "is_substrate OK_ExactBundle = True"
| "is_substrate OK_ExactRange = True"
| "is_substrate OK_ResidualBuffer = True"
| "is_substrate _ = False"

fun substrate_capability :: "ObjectKind \<Rightarrow> SubstrateCapability option" where
  "substrate_capability OK_AtomFragment = Some SC_AtomFragment"
| "substrate_capability OK_ExactBlock = Some SC_ExactBlock"
| "substrate_capability OK_ExactBundle = Some SC_ExactBundle"
| "substrate_capability OK_ExactRange = Some SC_ExactRange"
| "substrate_capability OK_ResidualBuffer = Some SC_ResidualBuffer"
| "substrate_capability _ = None"

fun SubstrateCapability_disc :: "SubstrateCapability \<Rightarrow> nat" where
  "SubstrateCapability_disc SC_AtomFragment = 1"
| "SubstrateCapability_disc SC_ExactBlock = 2"
| "SubstrateCapability_disc SC_ExactBundle = 3"
| "SubstrateCapability_disc SC_ExactRange = 4"
| "SubstrateCapability_disc SC_ResidualBuffer = 5"
| "SubstrateCapability_disc SC_CompositeGraph = 6"

definition capability_bit :: "SubstrateCapability \<Rightarrow> u16" where
  "capability_bit c = push_bit (SubstrateCapability_disc c - 1) 1"

definition supports_kind :: "SubstrateCapability \<Rightarrow> ObjectKind \<Rightarrow> bool" where
  "supports_kind c kind =
     (case c of
        SC_CompositeGraph \<Rightarrow> is_substrate kind
      | _ \<Rightarrow> (case substrate_capability kind of
                Some d \<Rightarrow> SubstrateCapability_disc d = SubstrateCapability_disc c
              | None \<Rightarrow> False))"

type_synonym SubstrateCapabilityMask = u16

definition mask_insert :: "SubstrateCapability \<Rightarrow> SubstrateCapabilityMask \<Rightarrow> SubstrateCapabilityMask" where
  "mask_insert c m = m OR capability_bit c"

definition mask_contains :: "SubstrateCapabilityMask \<Rightarrow> SubstrateCapability \<Rightarrow> bool" where
  "mask_contains m c \<longleftrightarrow> m AND capability_bit c \<noteq> 0"

definition mask_supports :: "SubstrateCapabilityMask \<Rightarrow> ObjectKind \<Rightarrow> bool" where
  "mask_supports m kind =
     (case substrate_capability kind of
        Some c \<Rightarrow> mask_contains m c \<or> mask_contains m SC_CompositeGraph
      | None \<Rightarrow> False)"

lemma SubstrateCapability_disc_inject [simp]:
  "SubstrateCapability_disc c = SubstrateCapability_disc d \<longleftrightarrow> c = d"
  by (cases c; cases d) auto

lemma SubstrateCapability_disc_bounds:
  "1 \<le> SubstrateCapability_disc c" "SubstrateCapability_disc c \<le> 6"
  by (cases c; simp)+

lemma bit_capability_bit: "bit (capability_bit c) i \<longleftrightarrow> i = SubstrateCapability_disc c - 1"
  using SubstrateCapability_disc_bounds [of c]
  by (auto simp: capability_bit_def bit_simps)

lemma mask_contains_bit: "mask_contains m c \<longleftrightarrow> bit m (SubstrateCapability_disc c - 1)"
proof -
  have "m AND capability_bit c \<noteq> 0 \<longleftrightarrow> (\<exists>i. bit (m AND capability_bit c) i)"
    using bit_eqI [of "m AND capability_bit c" 0] by auto
  then show ?thesis by (simp add: mask_contains_def bit_and_iff bit_capability_bit)
qed

lemma mask_contains_insert [simp]: "mask_contains (mask_insert c m) d \<longleftrightarrow> c = d \<or> mask_contains m d"
  using SubstrateCapability_disc_bounds [of c] SubstrateCapability_disc_bounds [of d]
  by (auto simp: mask_contains_bit mask_insert_def bit_or_iff bit_capability_bit
      dest: eq_diff_iff [THEN iffD1, rotated -1])

lemma mask_empty [simp]: "\<not> mask_contains 0 c"
  by (simp add: mask_contains_def)

text \<open>
  A mask built by inserting capabilities supports a kind exactly when one of them supports it: the
  bit set is a faithful representation of the set of capabilities.
\<close>

lemma supports_kind_iff:
  "supports_kind c kind \<longleftrightarrow>
    (\<exists>d. substrate_capability kind = Some d \<and> (c = d \<or> c = SC_CompositeGraph))"
  by (cases c; cases kind) (simp_all add: supports_kind_def)

lemma mask_contains_fold:
  "mask_contains (fold mask_insert cs m) d \<longleftrightarrow> d \<in> set cs \<or> mask_contains m d"
  by (induction cs arbitrary: m) auto

lemma mask_supports_fold:
  "mask_supports (fold mask_insert cs 0) kind \<longleftrightarrow> (\<exists>c \<in> set cs. supports_kind c kind)"
  by (cases "substrate_capability kind")
    (auto simp: mask_supports_def mask_contains_fold supports_kind_iff)

section \<open>Sparse cues\<close>

record SparseCue =
  cue_family_bits :: u64
  cue_role_bits :: u64
  cue_delimiter_bits :: u64
  cue_length_bucket_bits :: u64
  cue_temporal_bits :: u64

definition count_ones :: "'a::len word \<Rightarrow> nat" where
  "count_ones w = length (filter (bit w) [0..<LENGTH('a)])"

definition cue_is_empty :: "SparseCue \<Rightarrow> bool" where
  "cue_is_empty c \<longleftrightarrow>
     cue_family_bits c = 0 \<and> cue_role_bits c = 0 \<and> cue_delimiter_bits c = 0
     \<and> cue_length_bucket_bits c = 0 \<and> cue_temporal_bits c = 0"

text \<open>The sum of five counts of at most 64 never leaves the range of a \<open>u32\<close>.\<close>

definition overlap_score :: "SparseCue \<Rightarrow> SparseCue \<Rightarrow> u32" where
  "overlap_score a b =
     of_nat (count_ones (cue_family_bits a AND cue_family_bits b))
     + of_nat (count_ones (cue_role_bits a AND cue_role_bits b))
     + of_nat (count_ones (cue_delimiter_bits a AND cue_delimiter_bits b))
     + of_nat (count_ones (cue_length_bucket_bits a AND cue_length_bucket_bits b))
     + of_nat (count_ones (cue_temporal_bits a AND cue_temporal_bits b))"

lemma count_ones_le: "count_ones (w :: 'a::len word) \<le> LENGTH('a)"
  unfolding count_ones_def by (metis length_filter_le length_upt diff_zero)

lemma count_ones_0_iff [simp]: "count_ones (w :: 'a::len word) = 0 \<longleftrightarrow> w = 0"
proof
  assume "count_ones w = 0"
  then have "\<forall>i < LENGTH('a). \<not> bit w i" by (simp add: count_ones_def filter_empty_conv)
  then show "w = 0" by (intro bit_word_eqI) simp
next
  assume "w = 0"
  then show "count_ones w = 0" by (simp add: count_ones_def)
qed

lemma overlap_score_sym: "overlap_score a b = overlap_score b a"
  by (simp add: overlap_score_def and.commute)

lemma unat_overlap_score:
  "unat (overlap_score a b) =
     count_ones (cue_family_bits a AND cue_family_bits b)
     + count_ones (cue_role_bits a AND cue_role_bits b)
     + count_ones (cue_delimiter_bits a AND cue_delimiter_bits b)
     + count_ones (cue_length_bucket_bits a AND cue_length_bucket_bits b)
     + count_ones (cue_temporal_bits a AND cue_temporal_bits b)"
proof -
  have le: "count_ones (x :: u64) \<le> 64" for x using count_ones_le [of x] by simp
  show ?thesis
    unfolding overlap_score_def of_nat_add [symmetric]
    by (rule unat_of_nat_u32)
      (use le [of "cue_family_bits a AND cue_family_bits b"]
        le [of "cue_role_bits a AND cue_role_bits b"]
        le [of "cue_delimiter_bits a AND cue_delimiter_bits b"]
        le [of "cue_length_bucket_bits a AND cue_length_bucket_bits b"]
        le [of "cue_temporal_bits a AND cue_temporal_bits b"] in simp)
qed

lemma overlap_score_bound: "unat (overlap_score a b) \<le> 320"
proof -
  have le: "count_ones (x :: u64) \<le> 64" for x using count_ones_le [of x] by simp
  show ?thesis
    using le [of "cue_family_bits a AND cue_family_bits b"]
      le [of "cue_role_bits a AND cue_role_bits b"]
      le [of "cue_delimiter_bits a AND cue_delimiter_bits b"]
      le [of "cue_length_bucket_bits a AND cue_length_bucket_bits b"]
      le [of "cue_temporal_bits a AND cue_temporal_bits b"]
    by (simp add: unat_overlap_score)
qed

section \<open>Versions and dependencies\<close>

record ObjectVersion =
  ov_schema_version :: u16
  ov_object_revision :: u32

definition version_default :: ObjectVersion where
  "version_default = \<lparr>ov_schema_version = 0, ov_object_revision = 0\<rparr>"

record ObjectDependency =
  od_object_kind :: ObjectKind
  od_object_id :: string
  od_required_revision :: u32

section \<open>Transform kinds\<close>

datatype TransformKind =
    TK_PrefixInsert | TK_SuffixInsert | TK_Wrap | TK_BoundedInteriorInsert | TK_BoundedDelete
  | TK_BoundedSubstitution | TK_RepeatedMotifExpansion | TK_CopyWithGap | TK_SlotSubstitution
  | TK_RolePermutation | TK_DelimiterPreservingRewrite | TK_LocalMirror | TK_BoundedDuplication
  | TK_StridedSelection | TK_SpliceFromTwoBases | TK_SchemaSlotFill | TK_BoundedReorder
  | TK_MotifDuplicateCompress | TK_MirrorSymmetry | TK_SchemaConditionedExpansion
  | TK_RecursiveMacroExpansion | TK_TokenDictionarySubstitution

end
