(* ===== verification/Pulzz_Zstd.thy ===== *)
theory Pulzz_Zstd
  imports Pulzz_Chpmt
begin

text \<open>
  Dictionary compression (\<open>shared_protocol/src/compress.rs\<close>, P0) and the error type of that file.  The
  zstd library is a record of functions: what the code relies on is \<open>zstd_ok\<close>, that decoding inverts
  encoding.  Training a dictionary is a parameter as well.
\<close>

datatype CompressError =
    ZstdEncode string
  | ZstdDecode string
  | DecompressedTooLarge nat nat
  | DeltaBaseLengthMismatch nat nat
  | DeltaCopyOutOfBounds u32 u32 nat
  | DeltaTargetLengthMismatch nat nat
  | DeltaTruncated nat nat
  | DeltaInvalidVersion u8
  | DeltaInvalidTag u8
  | TemplateSlotCountMismatch nat nat
  | SlotValueTruncated
  | ColumnarDecode string
  | ColumnarInvalidVersion u8
  | ColumnarPayloadTruncated
  | DictionaryNotFound SourceKind u64
  | InvalidCompressionTag u8
  | CompressedPayloadTruncated nat nat
  | DeltaBaseNotFound u64
  | TemplateNotFound u64
  | TemplateSyncDecode string

text \<open>
  The calls into the zstd crate.  \<open>zstd_dict_decode\<close> distinguishes a failure to build the decoder
  (\<open>Inl\<close>) from a failure to read from it (\<open>Inr\<close>); errors are the rendered \<open>io::Error\<close>.
\<close>

record zstd_lib =
  zstd_encode :: "int \<Rightarrow> bytes \<Rightarrow> string + bytes"
  zstd_decode :: "bytes \<Rightarrow> string + bytes"
  zstd_dict_encode :: "int \<Rightarrow> bytes \<Rightarrow> bytes \<Rightarrow> string + bytes"
  zstd_dict_decode :: "bytes \<Rightarrow> bytes \<Rightarrow> (string + string) + bytes"
  zstd_train :: "bytes list \<Rightarrow> nat \<Rightarrow> bytes option"

definition zstd_ok :: "zstd_lib \<Rightarrow> bool" where
  "zstd_ok z \<longleftrightarrow>
     (\<forall>level data c. zstd_encode z level data = Ok c \<longrightarrow> zstd_decode z c = Ok data) \<and>
     (\<forall>level dict data c. zstd_dict_encode z level dict data = Ok c \<longrightarrow>
        zstd_dict_decode z dict c = Ok data)"

lemma zstd_okD:
  "zstd_ok z \<Longrightarrow> zstd_encode z level data = Ok c \<Longrightarrow> zstd_decode z c = Ok data"
  "zstd_ok z \<Longrightarrow> zstd_dict_encode z level dict data = Ok c \<Longrightarrow> zstd_dict_decode z dict c = Ok data"
  unfolding zstd_ok_def by blast+

text \<open>
  A concrete library for the witnesses: it drops a run of fifty zero bytes at the front and restores
  it, so that some inputs shrink.
\<close>

definition toy_encode :: "bytes \<Rightarrow> bytes" where
  "toy_encode data = (if take 50 data = replicate 50 0 then 1 # drop 50 data else 0 # data)"

definition toy_decode :: "bytes \<Rightarrow> string + bytes" where
  "toy_decode c =
     (case c of [] \<Rightarrow> Err ''empty''
      | t # r \<Rightarrow> if t = 1 then Ok (replicate 50 0 @ r) else Ok r)"

definition toy_zstd :: zstd_lib where
  "toy_zstd =
     \<lparr>zstd_encode = (\<lambda>_ data. Ok (toy_encode data)),
      zstd_decode = toy_decode,
      zstd_dict_encode = (\<lambda>_ _ data. Ok (toy_encode data)),
      zstd_dict_decode = (\<lambda>_ c. map_err Inr (toy_decode c)),
      zstd_train = (\<lambda>_ _. Some [1])\<rparr>"

lemma toy_decode_encode: "toy_decode (toy_encode data) = Ok data"
  by (simp add: toy_decode_def toy_encode_def) (metis append_take_drop_id)

lemma toy_zstd_ok: "zstd_ok toy_zstd"
  by (auto simp: zstd_ok_def toy_zstd_def toy_decode_encode)

section \<open>Dictionaries\<close>

definition ZSTD_COMPRESSION_LEVEL :: int where "ZSTD_COMPRESSION_LEVEL = 3"
definition MAX_DICT_SIZE :: nat where "MAX_DICT_SIZE = 102400"
definition MIN_SAMPLES_FOR_TRAINING :: nat where "MIN_SAMPLES_FOR_TRAINING = 8"
definition MIN_SAMPLE_BYTES_FOR_TRAINING :: nat where "MIN_SAMPLE_BYTES_FOR_TRAINING = 512"
definition MAX_TRAINING_SAMPLES :: nat where "MAX_TRAINING_SAMPLES = 256"
definition MAX_INDIVIDUAL_SAMPLE_SIZE :: nat where "MAX_INDIVIDUAL_SAMPLE_SIZE = 32768"

type_synonym DictionaryId = u64

record ZstdDictionary =
  zd_dict_id :: DictionaryId
  zd_dict_bytes :: bytes
  zd_sample_count :: nat
  zd_total_sample_bytes :: nat
  zd_source_kind :: SourceKind
  zd_version :: u64

definition dict_train ::
  "zstd_lib \<Rightarrow> DictionaryId \<Rightarrow> SourceKind \<Rightarrow> bytes list \<Rightarrow> u64 \<Rightarrow> ZstdDictionary option" where
  "dict_train z dict_id source_kind samples version =
     (if length samples < MIN_SAMPLES_FOR_TRAINING then None
      else let total_bytes = sum_list (map length samples) in
        if total_bytes < MIN_SAMPLE_BYTES_FOR_TRAINING then None
        else let training_samples =
               take MAX_TRAINING_SAMPLES
                 (filter (\<lambda>s. length s \<le> MAX_INDIVIDUAL_SAMPLE_SIZE) samples) in
          if length training_samples < MIN_SAMPLES_FOR_TRAINING then None
          else case zstd_train z training_samples MAX_DICT_SIZE of
                 None \<Rightarrow> None
               | Some dict_bytes \<Rightarrow>
                   if dict_bytes = [] then None
                   else Some \<lparr>zd_dict_id = dict_id, zd_dict_bytes = dict_bytes,
                              zd_sample_count = length training_samples,
                              zd_total_sample_bytes = total_bytes,
                              zd_source_kind = source_kind, zd_version = version\<rparr>)"

definition dict_compress :: "zstd_lib \<Rightarrow> ZstdDictionary \<Rightarrow> bytes \<Rightarrow> CompressError + bytes" where
  "dict_compress z d data =
     map_err ZstdEncode (zstd_dict_encode z ZSTD_COMPRESSION_LEVEL (zd_dict_bytes d) data)"

definition dict_decompress :: "zstd_lib \<Rightarrow> ZstdDictionary \<Rightarrow> bytes \<Rightarrow> CompressError + bytes" where
  "dict_decompress z d data =
     map_err (\<lambda>e. ZstdDecode (case e of Inl init \<Rightarrow> init | Inr read \<Rightarrow> read))
       (zstd_dict_decode z (zd_dict_bytes d) data)"

definition zstd_compress_raw :: "zstd_lib \<Rightarrow> bytes \<Rightarrow> CompressError + bytes" where
  "zstd_compress_raw z data = map_err ZstdEncode (zstd_encode z ZSTD_COMPRESSION_LEVEL data)"

definition zstd_decompress_raw :: "zstd_lib \<Rightarrow> bytes \<Rightarrow> nat \<Rightarrow> CompressError + bytes" where
  "zstd_decompress_raw z data max_size =
     and_then (map_err ZstdDecode (zstd_decode z data)) (\<lambda>decompressed.
       if length decompressed > max_size
       then Err (DecompressedTooLarge (length decompressed) max_size)
       else Ok decompressed)"

lemma dict_roundtrip:
  "zstd_ok z \<Longrightarrow> dict_compress z d data = Ok c \<Longrightarrow> dict_decompress z d c = Ok data"
  by (auto simp: dict_compress_def dict_decompress_def zstd_okD)

lemma raw_roundtrip:
  "zstd_ok z \<Longrightarrow> zstd_compress_raw z data = Ok c \<Longrightarrow> length data \<le> max_size \<Longrightarrow>
    zstd_decompress_raw z c max_size = Ok data"
  using zstd_okD(1) [of z ZSTD_COMPRESSION_LEVEL data c]
  by (simp add: zstd_compress_raw_def zstd_decompress_raw_def)

lemma zstd_decompress_raw_bound:
  "zstd_decompress_raw z c max_size = Ok data \<Longrightarrow> length data \<le> max_size"
  by (auto simp: zstd_decompress_raw_def split: if_splits)

lemma dict_train_Some:
  assumes "dict_train z i k samples v = Some d"
  shows "zd_dict_bytes d \<noteq> [] \<and> zd_sample_count d \<in> {8..256}
    \<and> zd_total_sample_bytes d = sum_list (map length samples) \<and> 512 \<le> zd_total_sample_bytes d"
  using assms
  by (auto simp: dict_train_def Let_def MIN_SAMPLES_FOR_TRAINING_def MAX_TRAINING_SAMPLES_def
      MIN_SAMPLE_BYTES_FOR_TRAINING_def split: if_splits option.splits)

end
