(* ===== verification/Pulzz_Protocol.thy ===== *)
theory Pulzz_Protocol
  imports Pulzz_Zstd
begin

text \<open>
  The record protocol (\<open>shared_protocol/src/protocol.rs\<close>): record headers and records with their
  validation, the byte formats that are authenticated, and the optional zstd stage.  The zstd library
  is a parameter of the functions that call it.
\<close>

section \<open>Types\<close>

definition PROTOCOL_VERSION :: u8 where "PROTOCOL_VERSION = 2"
definition AUTH_TAG_LEN :: nat where "AUTH_TAG_LEN = 16"
definition HEADER_LEN :: nat where "HEADER_LEN = 37"
definition REKEY_SEED_LEN :: nat where "REKEY_SEED_LEN = 32"
definition REKEY_PAYLOAD_LEN :: nat where "REKEY_PAYLOAD_LEN = 4 + REKEY_SEED_LEN"
definition CLOSE_CODE_LEN :: nat where "CLOSE_CODE_LEN = 2"

lemmas protocol_lens [simp] =
  PROTOCOL_VERSION_def AUTH_TAG_LEN_def HEADER_LEN_def REKEY_SEED_LEN_def REKEY_PAYLOAD_LEN_def
  CLOSE_CODE_LEN_def

type_synonym StreamId = u64
type_synonym EpochId = u32
type_synonym SeqNo = u64
type_synonym ItemId = u64

datatype RecordType =
    ExactState | Rekey | Resync | Close | SourceMeta | Repair
  | PredictiveConfirm | PredictiveCorrect | AssemblyDef | TransformDef | SchemaDef
  | EpisodeHint | ReplayHint | MemoryRetire | TransformCorrect | MemoryAck | BatchEnvelope

fun RecordType_disc :: "RecordType \<Rightarrow> u8" where
  "RecordType_disc ExactState = 17"
| "RecordType_disc Rekey = 2"
| "RecordType_disc Resync = 3"
| "RecordType_disc Close = 4"
| "RecordType_disc SourceMeta = 5"
| "RecordType_disc Repair = 9"
| "RecordType_disc PredictiveConfirm = 10"
| "RecordType_disc PredictiveCorrect = 11"
| "RecordType_disc AssemblyDef = 12"
| "RecordType_disc TransformDef = 13"
| "RecordType_disc SchemaDef = 14"
| "RecordType_disc EpisodeHint = 15"
| "RecordType_disc ReplayHint = 16"
| "RecordType_disc MemoryRetire = 18"
| "RecordType_disc TransformCorrect = 19"
| "RecordType_disc MemoryAck = 20"
| "RecordType_disc BatchEnvelope = 21"

text \<open>The variants \<open>None\<close>, \<open>PackedExact\<close>, ... carry a prefix, as \<open>None\<close> is taken.\<close>

datatype CodecMode = CM_None | CM_PackedExact | CM_PredictedExact | CM_DirectExact

fun CodecMode_disc :: "CodecMode \<Rightarrow> u8" where
  "CodecMode_disc CM_None = 0"
| "CodecMode_disc CM_PackedExact = 1"
| "CodecMode_disc CM_PredictedExact = 2"
| "CodecMode_disc CM_DirectExact = 3"

datatype CacheOp = CO_Insert | CO_UpsertObject | CO_Evict | CO_Invalidate

fun CacheOp_disc :: "CacheOp \<Rightarrow> u8" where
  "CacheOp_disc CO_Insert = 1"
| "CacheOp_disc CO_UpsertObject = 2"
| "CacheOp_disc CO_Evict = 3"
| "CacheOp_disc CO_Invalidate = 4"

section \<open>Record flags\<close>

type_synonym RecordFlags = u16

definition IS_EVICT :: u16 where "IS_EVICT = push_bit 0 1"
definition IS_INVALIDATE :: u16 where "IS_INVALIDATE = push_bit 1 1"
definition POST_REKEY_CONFIRM :: u16 where "POST_REKEY_CONFIRM = push_bit 2 1"
definition DIRECT_STATE_FALLBACK :: u16 where "DIRECT_STATE_FALLBACK = push_bit 3 1"
definition SUBSTRATE_FALLBACK :: u16 where "SUBSTRATE_FALLBACK = push_bit 4 1"
definition TRANSFORM_DEMOTED_FALLBACK :: u16 where "TRANSFORM_DEMOTED_FALLBACK = push_bit 9 1"
definition DEPENDENCY_UNAVAILABLE_FALLBACK :: u16 where
  "DEPENDENCY_UNAVAILABLE_FALLBACK = push_bit 6 1"
definition ASSEMBLY_STRUCTURALIZATION_FALLBACK :: u16 where
  "ASSEMBLY_STRUCTURALIZATION_FALLBACK = push_bit 7 1"
definition SCHEMA_DEPENDENCY_INADMISSIBLE_FALLBACK :: u16 where
  "SCHEMA_DEPENDENCY_INADMISSIBLE_FALLBACK = push_bit 8 1"
definition PAYLOAD_ZSTD :: u16 where "PAYLOAD_ZSTD = push_bit 10 1"
definition PAYLOAD_ZSTD_DICT :: u16 where "PAYLOAD_ZSTD_DICT = push_bit 11 1"

definition KNOWN_MASK :: u16 where
  "KNOWN_MASK = IS_EVICT OR IS_INVALIDATE OR POST_REKEY_CONFIRM OR DIRECT_STATE_FALLBACK
     OR SUBSTRATE_FALLBACK OR TRANSFORM_DEMOTED_FALLBACK OR DEPENDENCY_UNAVAILABLE_FALLBACK
     OR ASSEMBLY_STRUCTURALIZATION_FALLBACK OR SCHEMA_DEPENDENCY_INADMISSIBLE_FALLBACK
     OR PAYLOAD_ZSTD OR PAYLOAD_ZSTD_DICT"

lemmas flag_defs =
  IS_EVICT_def IS_INVALIDATE_def POST_REKEY_CONFIRM_def DIRECT_STATE_FALLBACK_def
  SUBSTRATE_FALLBACK_def TRANSFORM_DEMOTED_FALLBACK_def DEPENDENCY_UNAVAILABLE_FALLBACK_def
  ASSEMBLY_STRUCTURALIZATION_FALLBACK_def SCHEMA_DEPENDENCY_INADMISSIBLE_FALLBACK_def
  PAYLOAD_ZSTD_def PAYLOAD_ZSTD_DICT_def KNOWN_MASK_def

definition flags_contains :: "RecordFlags \<Rightarrow> u16 \<Rightarrow> bool" where
  "flags_contains flags flag \<longleftrightarrow> flags AND flag = flag"

definition flags_insert :: "RecordFlags \<Rightarrow> u16 \<Rightarrow> RecordFlags" where
  "flags_insert flags flag = flags OR flag"

definition flags_remove :: "RecordFlags \<Rightarrow> u16 \<Rightarrow> RecordFlags" where
  "flags_remove flags flag = flags AND NOT flag"

section \<open>Records\<close>

record RecordHeader =
  rh_version :: u8
  rh_stream_id :: StreamId
  rh_epoch_id :: EpochId
  rh_seq_no :: SeqNo
  rh_record_type :: RecordType
  rh_codec_mode :: CodecMode
  rh_flags :: RecordFlags
  rh_item_id :: ItemId
  rh_payload_len :: u32

record Record =
  rec_header :: RecordHeader
  rec_payload :: bytes
  rec_auth_tag :: bytes

datatype StreamState =
  Opening | Established | RekeyPending EpochId | Closed

datatype ValidationError =
    UnsupportedVersion u8
  | UnknownReservedFlagBits u16
  | InvalidDataFlags
  | InvalidDataPayloadContract
  | InvalidControlHeader
  | InvalidControlPayloadContract
  | InvalidSourceMetaHeader
  | InvalidCatalogOrRepairHeader
  | InvalidPredictiveHeader
  | PayloadLenMismatch u32 nat

datatype WireError =
    InvalidPayload string
  | UnknownRecordType u8
  | UnknownCodecMode u8
  | InvalidTransportFrameMagic
  | UnsupportedTransportFrameVersion u8
  | InvalidTransportFrameHeaderLen nat nat
  | TruncatedTransportFrame nat nat
  | TransportFramePayloadLenMismatch nat nat
  | TruncatedCompactTransportRecord nat nat
  | CompactTransportRecordLenMismatch nat nat
  | InvalidHeaderLen nat nat
  | TruncatedRecord nat nat
  | RecordLenMismatch nat nat
  | RetiredDiscriminant u8
  | Validation ValidationError

definition RecordType_try_from_u8 :: "u8 \<Rightarrow> WireError + RecordType" where
  "RecordType_try_from_u8 v =
     (if v = 2 then Ok Rekey
      else if v = 3 then Ok Resync
      else if v = 4 then Ok Close
      else if v = 5 then Ok SourceMeta
      else if v = 6 \<or> v = 7 \<or> v = 8 then Err (RetiredDiscriminant v)
      else if v = 9 then Ok Repair
      else if v = 10 then Ok PredictiveConfirm
      else if v = 11 then Ok PredictiveCorrect
      else if v = 12 then Ok AssemblyDef
      else if v = 13 then Ok TransformDef
      else if v = 14 then Ok SchemaDef
      else if v = 15 then Ok EpisodeHint
      else if v = 16 then Ok ReplayHint
      else if v = 17 then Ok ExactState
      else if v = 18 then Ok MemoryRetire
      else if v = 19 then Ok TransformCorrect
      else if v = 20 then Ok MemoryAck
      else if v = 21 then Ok BatchEnvelope
      else Err (UnknownRecordType v))"

definition CodecMode_try_from_u8 :: "u8 \<Rightarrow> WireError + CodecMode" where
  "CodecMode_try_from_u8 v =
     (if v = 0 then Ok CM_None
      else if v = 1 then Ok CM_PackedExact
      else if v = 2 then Ok CM_PredictedExact
      else if v = 3 then Ok CM_DirectExact
      else Err (UnknownCodecMode v))"

lemma RecordType_try_from_u8_disc [simp]: "RecordType_try_from_u8 (RecordType_disc t) = Inr t"
  by (cases t) (simp_all add: RecordType_try_from_u8_def)

lemma RecordType_try_from_u8_iff [simp]:
  "RecordType_try_from_u8 v = Inr t \<longleftrightarrow> v = RecordType_disc t"
proof
  assume "RecordType_try_from_u8 v = Inr t"
  then show "v = RecordType_disc t"
    unfolding RecordType_try_from_u8_def by (simp split: if_splits)
qed simp

lemma CodecMode_try_from_u8_iff [simp]:
  "CodecMode_try_from_u8 v = Inr m \<longleftrightarrow> v = CodecMode_disc m"
  by (cases m) (auto simp: CodecMode_try_from_u8_def)

lemma CodecMode_try_from_u8_disc [simp]: "CodecMode_try_from_u8 (CodecMode_disc m) = Inr m"
  by simp

fun RecordType_route_family :: "RecordType \<Rightarrow> RouteFamily" where
  "RecordType_route_family PredictiveConfirm = RF_PredictiveConfirm"
| "RecordType_route_family PredictiveCorrect = RF_PredictiveCorrect"
| "RecordType_route_family ReplayHint = RF_Replay"
| "RecordType_route_family _ = RF_DirectState"

fun RecordType_object_kind :: "RecordType \<Rightarrow> ObjectKind" where
  "RecordType_object_kind ExactState = OK_ExactState"
| "RecordType_object_kind BatchEnvelope = OK_ExactState"
| "RecordType_object_kind MemoryRetire = OK_PredictiveObject"
| "RecordType_object_kind MemoryAck = OK_PredictiveObject"
| "RecordType_object_kind PredictiveConfirm = OK_SparseCue"
| "RecordType_object_kind PredictiveCorrect = OK_SparseCue"
| "RecordType_object_kind TransformCorrect = OK_Transform"
| "RecordType_object_kind AssemblyDef = OK_Assembly"
| "RecordType_object_kind TransformDef = OK_Transform"
| "RecordType_object_kind SchemaDef = OK_Schema"
| "RecordType_object_kind EpisodeHint = OK_EpisodeHint"
| "RecordType_object_kind ReplayHint = OK_ReplayHint"
| "RecordType_object_kind Rekey = OK_SourceDescriptor"
| "RecordType_object_kind Resync = OK_SourceDescriptor"
| "RecordType_object_kind Close = OK_SourceDescriptor"
| "RecordType_object_kind SourceMeta = OK_SourceDescriptor"
| "RecordType_object_kind Repair = OK_SourceDescriptor"

section \<open>Header bytes\<close>

definition aad_bytes :: "RecordHeader \<Rightarrow> bytes" where
  "aad_bytes h =
     [rh_version h] @ le64 (rh_stream_id h) @ le32 (rh_epoch_id h) @ le64 (rh_seq_no h)
     @ [RecordType_disc (rh_record_type h)] @ [CodecMode_disc (rh_codec_mode h)]
     @ le16 (rh_flags h) @ le64 (rh_item_id h) @ le32 (rh_payload_len h)"

definition from_aad_bytes :: "bytes \<Rightarrow> WireError + RecordHeader" where
  "from_aad_bytes bs =
     (if length bs \<noteq> HEADER_LEN then Err (InvalidHeaderLen HEADER_LEN (length bs))
      else and_then (RecordType_try_from_u8 (bs ! 21)) (\<lambda>record_type.
           and_then (CodecMode_try_from_u8 (bs ! 22)) (\<lambda>codec_mode.
             Ok \<lparr>rh_version = bs ! 0,
                 rh_stream_id = of_le64 (slice 1 9 bs),
                 rh_epoch_id = of_le32 (slice 9 13 bs),
                 rh_seq_no = of_le64 (slice 13 21 bs),
                 rh_record_type = record_type,
                 rh_codec_mode = codec_mode,
                 rh_flags = of_le16 (slice 23 25 bs),
                 rh_item_id = of_le64 (slice 25 33 bs),
                 rh_payload_len = of_le32 (slice 33 37 bs)\<rparr>)))"

lemma length_aad_bytes [simp]: "length (aad_bytes h) = 37"
  by (simp add: aad_bytes_def)

lemma from_aad_aad [simp]: "from_aad_bytes (aad_bytes h) = Inr h"
  by (simp add: from_aad_bytes_def aad_bytes_def slice_def nth_append)

lemma aad_from_aad:
  assumes "from_aad_bytes bs = Inr h"
  shows "aad_bytes h = bs"
proof -
  have len: "length bs = 37" and "RecordType_disc (rh_record_type h) = bs ! 21"
    and "CodecMode_disc (rh_codec_mode h) = bs ! 22" and "rh_version h = bs ! 0"
    and "rh_stream_id h = of_le64 (slice 1 9 bs)" and "rh_epoch_id h = of_le32 (slice 9 13 bs)"
    and "rh_seq_no h = of_le64 (slice 13 21 bs)" and "rh_flags h = of_le16 (slice 23 25 bs)"
    and "rh_item_id h = of_le64 (slice 25 33 bs)" and "rh_payload_len h = of_le32 (slice 33 37 bs)"
    using assms by (auto simp: from_aad_bytes_def split: if_splits)
  then show ?thesis by (simp add: aad_bytes_def le_of_le slice_join slice_full slice_0)
qed

interpretation header_codec: canonical_codec aad_bytes from_aad_bytes "\<lambda>_. True"
  by unfold_locales (simp_all add: aad_from_aad)

section \<open>Validation\<close>

definition validate_data_header :: "RecordHeader \<Rightarrow> ValidationError + unit" where
  "validate_data_header h =
     (let is_evict = flags_contains (rh_flags h) IS_EVICT;
          is_invalidate = flags_contains (rh_flags h) IS_INVALIDATE in
      if is_evict \<and> is_invalidate then Err InvalidDataFlags
      else if is_evict \<or> is_invalidate then
        (if rh_payload_len h \<noteq> 0 \<or> rh_codec_mode h \<noteq> CM_None \<or> rh_item_id h = 0
         then Err InvalidDataFlags
         else Ok ())
      else if rh_record_type h = BatchEnvelope then Ok ()
      else if rh_item_id h = 0 \<or> rh_payload_len h = 0
              \<or> rh_codec_mode h \<notin> {CM_PackedExact, CM_PredictedExact, CM_DirectExact}
      then Err InvalidDataPayloadContract
      else Ok ())"

text \<open>The \<open>unreachable!\<close> arm panics: the outer \<open>None\<close>.\<close>

definition validate_control_header :: "RecordHeader \<Rightarrow> (ValidationError + unit) option" where
  "validate_control_header h =
     (if rh_codec_mode h \<noteq> CM_None \<or> rh_item_id h \<noteq> 0
         \<or> rh_flags h AND NOT POST_REKEY_CONFIRM \<noteq> 0
      then Some (Err InvalidControlHeader)
      else case rh_record_type h of
        Rekey \<Rightarrow> Some (if rh_payload_len h \<noteq> of_nat REKEY_PAYLOAD_LEN
                      then Err InvalidControlPayloadContract else Ok ())
      | Resync \<Rightarrow> Some (if rh_payload_len h \<noteq> 0 \<and> rh_payload_len h < 4
                       then Err InvalidControlPayloadContract else Ok ())
      | Close \<Rightarrow> Some (if rh_payload_len h \<noteq> 0 \<and> rh_payload_len h \<noteq> of_nat CLOSE_CODE_LEN
                      then Err InvalidControlPayloadContract else Ok ())
      | _ \<Rightarrow> None)"

definition validate_catalog_or_repair_header :: "RecordHeader \<Rightarrow> ValidationError + unit" where
  "validate_catalog_or_repair_header h =
     (if rh_codec_mode h \<noteq> CM_None \<or> rh_flags h \<noteq> 0 \<or> rh_item_id h \<noteq> 0 \<or> rh_payload_len h = 0
      then Err InvalidCatalogOrRepairHeader
      else Ok ())"

text \<open>The flags the \<open>ExactState\<close> arm of \<open>validate_predictive_header\<close> collects.\<close>

definition exact_state_allowed_flags :: "RecordFlags \<Rightarrow> u16" where
  "exact_state_allowed_flags flags =
     (let base = POST_REKEY_CONFIRM OR PAYLOAD_ZSTD OR PAYLOAD_ZSTD_DICT;
          add = (\<lambda>flag allowed. if flags_contains flags flag then allowed OR flag else allowed) in
      if flags_contains flags DIRECT_STATE_FALLBACK then
        add SCHEMA_DEPENDENCY_INADMISSIBLE_FALLBACK (add ASSEMBLY_STRUCTURALIZATION_FALLBACK
          (add DEPENDENCY_UNAVAILABLE_FALLBACK (add TRANSFORM_DEMOTED_FALLBACK
            (add SUBSTRATE_FALLBACK (base OR DIRECT_STATE_FALLBACK)))))
      else base)"

definition validate_predictive_header :: "RecordHeader \<Rightarrow> ValidationError + unit" where
  "validate_predictive_header h =
     (if rh_record_type h = ExactState then
        (if rh_flags h AND NOT (exact_state_allowed_flags (rh_flags h)) \<noteq> 0 \<or> rh_item_id h = 0
            \<or> rh_payload_len h = 0
            \<or> rh_codec_mode h \<notin> {CM_PackedExact, CM_PredictedExact, CM_DirectExact}
         then Err InvalidPredictiveHeader
         else Ok ())
      else if rh_record_type h \<in> {PredictiveConfirm, PredictiveCorrect, AssemblyDef, TransformDef,
                SchemaDef, EpisodeHint, ReplayHint, MemoryRetire, TransformCorrect, MemoryAck} then
        (if rh_flags h AND NOT (POST_REKEY_CONFIRM OR PAYLOAD_ZSTD OR PAYLOAD_ZSTD_DICT) \<noteq> 0
            \<or> rh_item_id h = 0 \<or> rh_codec_mode h \<noteq> CM_None
         then Err InvalidPredictiveHeader
         else let requires_payload = rh_record_type h \<notin> {EpisodeHint, ReplayHint} in
           if requires_payload \<and> rh_payload_len h = 0 then Err InvalidPredictiveHeader
           else Ok ())
      else Err InvalidPredictiveHeader)"

definition validate_source_meta_header :: "RecordHeader \<Rightarrow> ValidationError + unit" where
  "validate_source_meta_header h =
     (if rh_codec_mode h \<noteq> CM_None \<or> rh_flags h \<noteq> 0 \<or> rh_item_id h = 0 \<or> rh_payload_len h = 0
      then Err InvalidSourceMetaHeader
      else Ok ())"

text \<open>
  \<open>RecordHeader::validate\<close>.  The dispatch calls \<open>validate_control_header\<close> only for control records, so
  its panic arm is not reached (\<open>control_arm_total\<close>) and the last case of the inner match is dead.
\<close>

definition header_validate :: "RecordHeader \<Rightarrow> ValidationError + RecordHeader" where
  "header_validate h =
     (if rh_version h \<noteq> PROTOCOL_VERSION then Err (UnsupportedVersion (rh_version h))
      else if rh_flags h AND NOT KNOWN_MASK \<noteq> 0 then Err (UnknownReservedFlagBits (rh_flags h))
      else and_then
        (case rh_record_type h of
           ExactState \<Rightarrow> validate_data_header h
         | BatchEnvelope \<Rightarrow> validate_data_header h
         | Rekey \<Rightarrow> the (validate_control_header h)
         | Resync \<Rightarrow> the (validate_control_header h)
         | Close \<Rightarrow> the (validate_control_header h)
         | SourceMeta \<Rightarrow> validate_source_meta_header h
         | Repair \<Rightarrow> validate_catalog_or_repair_header h
         | _ \<Rightarrow> validate_predictive_header h)
        (\<lambda>_. Ok h))"

lemma control_arm_total:
  "rh_record_type h \<in> {Rekey, Resync, Close} \<Longrightarrow> \<exists>r. validate_control_header h = Some r"
  by (auto simp: validate_control_header_def)

lemma header_validate_same: "header_validate h = Inr h' \<Longrightarrow> h' = h"
  by (auto simp: header_validate_def split: if_splits)

definition record_validate :: "Record \<Rightarrow> ValidationError + Record" where
  "record_validate r =
     and_then (header_validate (rec_header r)) (\<lambda>_.
       if length (rec_payload r) \<noteq> unat (rh_payload_len (rec_header r))
       then Err (PayloadLenMismatch (rh_payload_len (rec_header r)) (length (rec_payload r)))
       else Ok r)"

lemma record_validate_Inr_iff:
  "record_validate r = Inr r' \<longleftrightarrow>
    header_validate (rec_header r) = Inr (rec_header r)
    \<and> length (rec_payload r) = unat (rh_payload_len (rec_header r)) \<and> r' = r"
  by (auto simp: record_validate_def dest: header_validate_same)

section \<open>Record bytes\<close>

definition record_to_bytes :: "Record \<Rightarrow> bytes" where
  "record_to_bytes r = aad_bytes (rec_header r) @ rec_payload r @ rec_auth_tag r"

definition record_from_bytes :: "bytes \<Rightarrow> WireError + Record" where
  "record_from_bytes bs =
     (if length bs < HEADER_LEN + AUTH_TAG_LEN
      then Err (TruncatedRecord (length bs) (HEADER_LEN + AUTH_TAG_LEN))
      else and_then (from_aad_bytes (take HEADER_LEN bs)) (\<lambda>header.
        let payload_len = unat (rh_payload_len header);
            expected_len = HEADER_LEN + payload_len + AUTH_TAG_LEN in
        if length bs \<noteq> expected_len then Err (RecordLenMismatch expected_len (length bs))
        else map_err Validation (record_validate
          \<lparr>rec_header = header,
           rec_payload = slice HEADER_LEN (HEADER_LEN + payload_len) bs,
           rec_auth_tag = slice (HEADER_LEN + payload_len) expected_len bs\<rparr>)))"

text \<open>A record the code may hold: its tag is a 16-byte array and it passes \<open>validate\<close>.\<close>

definition record_ok :: "Record \<Rightarrow> bool" where
  "record_ok r \<longleftrightarrow> record_validate r = Ok r \<and> length (rec_auth_tag r) = 16"

lemma record_eta [simp]:
  "\<lparr>rec_header = rec_header r, rec_payload = rec_payload r, rec_auth_tag = rec_auth_tag r\<rparr> = r"
  by (cases r) simp

lemma length_record_to_bytes:
  "record_ok r \<Longrightarrow> length (record_to_bytes r) = 53 + unat (rh_payload_len (rec_header r))"
  by (simp add: record_ok_def record_to_bytes_def record_validate_Inr_iff)

lemma record_from_to:
  assumes "record_ok r"
  shows "record_from_bytes (record_to_bytes r) = Inr r"
proof -
  have "take 37 (record_to_bytes r) = aad_bytes (rec_header r)"
    by (simp add: record_to_bytes_def)
  moreover have "slice 37 (37 + unat (rh_payload_len (rec_header r))) (record_to_bytes r) = rec_payload r"
    and "drop (37 + unat (rh_payload_len (rec_header r))) (record_to_bytes r) = rec_auth_tag r"
    using assms by (auto simp: slice_def record_to_bytes_def record_ok_def record_validate_Inr_iff)
  ultimately show ?thesis
    using assms by (simp add: record_from_bytes_def Let_def length_record_to_bytes slice_full record_ok_def)
qed

lemma record_from_bytesD:
  assumes "record_from_bytes bs = Inr r"
  shows "record_ok r \<and> record_to_bytes r = bs"
proof -
  obtain h where h: "from_aad_bytes (take 37 bs) = Inr h"
    and len: "length bs = 37 + unat (rh_payload_len h) + 16"
    and val: "record_validate \<lparr>rec_header = h, rec_payload = slice 37 (37 + unat (rh_payload_len h)) bs,
        rec_auth_tag = slice (37 + unat (rh_payload_len h)) (length bs) bs\<rparr> = Inr r"
    using assms by (auto simp: record_from_bytes_def Let_def split: if_splits)
  from val have r: "r = \<lparr>rec_header = h, rec_payload = slice 37 (37 + unat (rh_payload_len h)) bs,
        rec_auth_tag = drop (37 + unat (rh_payload_len h)) bs\<rparr>"
    by (simp add: record_validate_Inr_iff slice_full)
  then have "record_ok r" using val len by (simp add: record_ok_def slice_full)
  moreover have "record_to_bytes r = take 37 bs @ drop 37 bs"
    using r aad_from_aad [OF h] by (simp add: record_to_bytes_def slice_append_drop)
  ultimately show ?thesis by simp
qed

interpretation record_codec: canonical_codec record_to_bytes record_from_bytes record_ok
  by unfold_locales (simp_all add: record_from_to record_from_bytesD)

section \<open>What a valid header promises\<close>

text \<open>
  The contract of every record type over the set of flag bits, with lengths as numbers; \<open>header_validate\<close>
  implements it (\<open>header_validate_contract\<close>).
\<close>

definition flag_set :: "RecordFlags \<Rightarrow> nat set" where
  "flag_set f = {i. bit f i}"

definition exact_codec :: "CodecMode \<Rightarrow> bool" where
  "exact_codec m \<longleftrightarrow> m \<noteq> CM_None"

definition cache_op_contract :: "RecordHeader \<Rightarrow> bool" where
  "cache_op_contract h \<longleftrightarrow>
     card (flag_set (rh_flags h) \<inter> {0, 1}) = 1 \<and> unat (rh_payload_len h) = 0
     \<and> rh_codec_mode h = CM_None \<and> rh_item_id h \<noteq> 0"

definition type_contract :: "RecordHeader \<Rightarrow> bool" where
  "type_contract h =
     (let flags = flag_set (rh_flags h); len = unat (rh_payload_len h);
          item = (rh_item_id h \<noteq> 0); coded = exact_codec (rh_codec_mode h) in
      case rh_record_type h of
        ExactState \<Rightarrow> cache_op_contract h \<or> (flags \<inter> {0, 1} = {} \<and> item \<and> 0 < len \<and> coded)
      | BatchEnvelope \<Rightarrow> cache_op_contract h \<or> flags \<inter> {0, 1} = {}
      | Rekey \<Rightarrow> flags \<subseteq> {2} \<and> \<not> item \<and> \<not> coded \<and> len = 36
      | Resync \<Rightarrow> flags \<subseteq> {2} \<and> \<not> item \<and> \<not> coded \<and> (len = 0 \<or> 4 \<le> len)
      | Close \<Rightarrow> flags \<subseteq> {2} \<and> \<not> item \<and> \<not> coded \<and> (len = 0 \<or> len = 2)
      | SourceMeta \<Rightarrow> flags = {} \<and> item \<and> \<not> coded \<and> 0 < len
      | Repair \<Rightarrow> flags = {} \<and> \<not> item \<and> \<not> coded \<and> 0 < len
      | EpisodeHint \<Rightarrow> flags \<subseteq> {2, 10, 11} \<and> item \<and> \<not> coded
      | ReplayHint \<Rightarrow> flags \<subseteq> {2, 10, 11} \<and> item \<and> \<not> coded
      | _ \<Rightarrow> flags \<subseteq> {2, 10, 11} \<and> item \<and> \<not> coded \<and> 0 < len)"

definition header_contract :: "RecordHeader \<Rightarrow> bool" where
  "header_contract h \<longleftrightarrow>
     rh_version h = 2 \<and> flag_set (rh_flags h) \<subseteq> {0, 1, 2, 3, 4, 6, 7, 8, 9, 10, 11} \<and> type_contract h"

lemma bit_u16: "bit (f :: u16) i \<Longrightarrow> i < 16"
  using bit_imp_le_length [of f i] by simp

lemma and_not_eq_0_iff: "f AND NOT m = 0 \<longleftrightarrow> flag_set f \<subseteq> flag_set (m :: u16)"
  using bit_u16 [of f] by (auto simp: flag_set_def bit_eq_iff bit_and_iff bit_not_iff)

lemma flag_set_or [simp]: "flag_set (a OR b) = flag_set a \<union> flag_set b"
  by (auto simp: flag_set_def bit_or_iff)

lemma flag_set_bit: "n < 16 \<Longrightarrow> flag_set (push_bit n 1) = {n}"
  by (auto simp: flag_set_def bit_push_bit_iff bit_1_iff simp del: push_bit_of_1)

lemma flag_set_empty_iff: "flag_set f = {} \<longleftrightarrow> f = 0"
  using bit_u16 [of f] by (auto simp: flag_set_def bit_eq_iff)

lemma flag_set_inject: "flag_set f = flag_set g \<Longrightarrow> f = g"
  by (simp add: flag_set_def bit_eq_iff set_eq_iff)

lemma flag_set_and [simp]: "flag_set (a AND b) = flag_set a \<inter> flag_set b"
  by (auto simp: flag_set_def bit_and_iff)

lemma flags_contains_iff: "flags_contains f g \<longleftrightarrow> flag_set g \<subseteq> flag_set f"
  unfolding flags_contains_def by (metis flag_set_and flag_set_inject inf.absorb_iff2)

lemma flag_set_flags [simp]:
  "flag_set IS_EVICT = {0}" "flag_set IS_INVALIDATE = {1}" "flag_set POST_REKEY_CONFIRM = {2}"
  "flag_set DIRECT_STATE_FALLBACK = {3}" "flag_set SUBSTRATE_FALLBACK = {4}"
  "flag_set DEPENDENCY_UNAVAILABLE_FALLBACK = {6}"
  "flag_set ASSEMBLY_STRUCTURALIZATION_FALLBACK = {7}"
  "flag_set SCHEMA_DEPENDENCY_INADMISSIBLE_FALLBACK = {8}"
  "flag_set TRANSFORM_DEMOTED_FALLBACK = {9}"
  "flag_set PAYLOAD_ZSTD = {10}" "flag_set PAYLOAD_ZSTD_DICT = {11}"
  unfolding flag_defs by (rule flag_set_bit; simp)+

lemma flag_set_KNOWN_MASK [simp]: "flag_set KNOWN_MASK = {0, 1, 2, 3, 4, 6, 7, 8, 9, 10, 11}"
  unfolding KNOWN_MASK_def by auto

lemma flag_set_insert [simp]: "flag_set (flags_insert f g) = flag_set f \<union> flag_set g"
  by (simp add: flags_insert_def)

lemma flag_set_remove [simp]: "flag_set (flags_remove f g) = flag_set f - flag_set g"
  using bit_u16 [of f] by (auto simp: flags_remove_def flag_set_def bit_and_iff bit_not_iff)

lemma card_01: "card (F \<inter> {0, 1 :: nat}) = 1 \<longleftrightarrow> (0 \<in> F) \<noteq> (1 \<in> F)"
  by (cases "0 \<in> F"; cases "1 \<in> F") (simp_all add: Int_insert_right)

lemma of_nat_len_eq: "n < 2 ^ 32 \<Longrightarrow> l = (of_nat n :: u32) \<longleftrightarrow> unat l = n"
  using unat_of_nat_u32 [of n] by (simp add: word_unat_eq_iff)

lemma validate_data_iff:
  "validate_data_header h = Ok () \<longleftrightarrow>
    cache_op_contract h \<or>
    (flag_set (rh_flags h) \<inter> {0, 1} = {} \<and>
      (rh_record_type h = BatchEnvelope \<or>
        rh_item_id h \<noteq> 0 \<and> 0 < unat (rh_payload_len h) \<and> exact_codec (rh_codec_mode h)))"
  unfolding validate_data_header_def cache_op_contract_def card_01 Let_def
  by (cases "rh_codec_mode h")
    (auto simp: flags_contains_iff exact_codec_def unat_eq_0 unat_gt_0)

lemma validate_control_iff:
  assumes "rh_record_type h \<in> {Rekey, Resync, Close}"
  shows "the (validate_control_header h) = Ok () \<longleftrightarrow> type_contract h"
proof -
  have "rh_payload_len h < 4 \<longleftrightarrow> unat (rh_payload_len h) < 4"
    by (simp add: word_less_nat_alt)
  moreover have "rh_payload_len h = 36 \<longleftrightarrow> unat (rh_payload_len h) = 36"
    "rh_payload_len h = 2 \<longleftrightarrow> unat (rh_payload_len h) = 2"
    "rh_payload_len h = 0 \<longleftrightarrow> unat (rh_payload_len h) = 0"
    using of_nat_len_eq [of 36 "rh_payload_len h"] of_nat_len_eq [of 2 "rh_payload_len h"]
    by (simp_all add: unat_eq_0)
  ultimately show ?thesis
    using assms
    by (cases "rh_record_type h")
      (simp_all add: validate_control_header_def type_contract_def exact_codec_def and_not_eq_0_iff,
        blast+)
qed

lemma validate_predictive_iff:
  assumes "rh_record_type h \<notin> {ExactState, BatchEnvelope, Rekey, Resync, Close, SourceMeta, Repair}"
  shows "validate_predictive_header h = Ok () \<longleftrightarrow> type_contract h"
  using assms unfolding validate_predictive_header_def type_contract_def Let_def and_not_eq_0_iff
  by (cases "rh_record_type h") (simp_all add: exact_codec_def unat_gt_0 insert_commute, blast+)

lemma header_validate_iff: "header_validate h = Ok h' \<longleftrightarrow> h' = h \<and> header_contract h"
proof -
  let ?arm = "case rh_record_type h of
      ExactState \<Rightarrow> validate_data_header h | BatchEnvelope \<Rightarrow> validate_data_header h
    | Rekey \<Rightarrow> the (validate_control_header h) | Resync \<Rightarrow> the (validate_control_header h)
    | Close \<Rightarrow> the (validate_control_header h) | SourceMeta \<Rightarrow> validate_source_meta_header h
    | Repair \<Rightarrow> validate_catalog_or_repair_header h | _ \<Rightarrow> validate_predictive_header h"
  have "?arm = Ok () \<longleftrightarrow> type_contract h"
    using validate_data_iff [of h] validate_control_iff [of h] validate_predictive_iff [of h]
    by (cases "rh_record_type h")
      (simp_all, auto simp: type_contract_def validate_source_meta_header_def
        validate_catalog_or_repair_header_def exact_codec_def flag_set_empty_iff unat_gt_0)
  then show ?thesis
    by (auto simp: header_validate_def header_contract_def and_not_eq_0_iff)
qed

section \<open>The zstd stage\<close>

definition with_payload :: "Record \<Rightarrow> bytes \<Rightarrow> RecordFlags \<Rightarrow> Record" where
  "with_payload r payload flags =
     \<lparr>rec_header = rec_header r \<lparr>rh_flags := flags, rh_payload_len := of_nat (length payload)\<rparr>,
      rec_payload = payload, rec_auth_tag = rec_auth_tag r\<rparr>"

definition maybe_compress_zstd :: "zstd_lib \<Rightarrow> Record \<Rightarrow> Record" where
  "maybe_compress_zstd z r =
     (if length (rec_payload r) < 50 then r
      else case zstd_encode z 3 (rec_payload r) of
        Ok compressed \<Rightarrow>
          if length compressed < length (rec_payload r)
          then with_payload r compressed (flags_insert (rh_flags (rec_header r)) PAYLOAD_ZSTD)
          else r
      | Err _ \<Rightarrow> r)"

definition maybe_compress_zstd_with_dict :: "zstd_lib \<Rightarrow> ZstdDictionary \<Rightarrow> Record \<Rightarrow> Record" where
  "maybe_compress_zstd_with_dict z dict r =
     (if length (rec_payload r) < 50 then r
      else case dict_compress z dict (rec_payload r) of
        Ok dict_compressed \<Rightarrow>
          if length dict_compressed < length (rec_payload r) then
            (let raw_compressed = (case zstd_encode z 3 (rec_payload r) of
                     Ok c \<Rightarrow> c | Err _ \<Rightarrow> rec_payload r);
                 dict_total = 8 + length dict_compressed;
                 raw_total = length raw_compressed in
             if dict_total < raw_total \<and> dict_total < length (rec_payload r)
             then with_payload r (le64 (zd_dict_id dict) @ dict_compressed)
                    (flags_insert (rh_flags (rec_header r)) PAYLOAD_ZSTD_DICT)
             else if raw_total < length (rec_payload r) then maybe_compress_zstd z r
             else r)
          else maybe_compress_zstd z r
      | Err _ \<Rightarrow> maybe_compress_zstd z r)"

type_synonym dict_provider = "SourceKind \<Rightarrow> u64 \<Rightarrow> bytes option"

definition or_else :: "'a option \<Rightarrow> 'a option \<Rightarrow> 'a option" where
  "or_else a b = (case a of None \<Rightarrow> b | Some x \<Rightarrow> Some x)"

definition lookup_dict :: "dict_provider \<Rightarrow> u64 \<Rightarrow> bytes option" where
  "lookup_dict provider dict_id =
     or_else (or_else (provider Json dict_id) (provider Text dict_id)) (provider Binary dict_id)"

definition decompress_dict_payload ::
  "zstd_lib \<Rightarrow> dict_provider \<Rightarrow> bytes \<Rightarrow> WireError + bytes" where
  "decompress_dict_payload z provider payload =
     (if length payload < 8
      then Err (InvalidPayload ''PAYLOAD_ZSTD_DICT payload too short for dict_id'')
      else let dict_id = of_le64 (take 8 payload); compressed_data = drop 8 payload in
        case lookup_dict provider dict_id of
          Some dict \<Rightarrow> map_err
            (\<lambda>e. InvalidPayload (case e of
                Inl init \<Rightarrow> ''zstd dict decompression init failed: '' @ init
              | Inr read \<Rightarrow> ''zstd dict decompression failed: '' @ read))
            (zstd_dict_decode z dict compressed_data)
        | None \<Rightarrow> map_err (\<lambda>e. InvalidPayload (''zstd raw fallback decompression failed: '' @ e))
            (zstd_decode z compressed_data))"

definition maybe_decompress_zstd_with_dict_provider ::
  "zstd_lib \<Rightarrow> dict_provider \<Rightarrow> Record \<Rightarrow> WireError + Record" where
  "maybe_decompress_zstd_with_dict_provider z provider r =
     (let flags = rh_flags (rec_header r) in
      if flags_contains flags PAYLOAD_ZSTD then
        and_then (map_err (\<lambda>e. InvalidPayload (''zstd decompression failed: '' @ e))
            (zstd_decode z (rec_payload r)))
          (\<lambda>decompressed. Ok (with_payload r decompressed (flags_remove flags PAYLOAD_ZSTD)))
      else if flags_contains flags PAYLOAD_ZSTD_DICT then
        and_then (decompress_dict_payload z provider (rec_payload r))
          (\<lambda>decompressed. Ok (with_payload r decompressed (flags_remove flags PAYLOAD_ZSTD_DICT)))
      else Ok r)"

definition maybe_decompress_zstd :: "zstd_lib \<Rightarrow> Record \<Rightarrow> WireError + Record" where
  "maybe_decompress_zstd z = maybe_decompress_zstd_with_dict_provider z (\<lambda>_ _. None)"

text \<open>A record that is not compressed yet and whose header tells its length.\<close>

definition plain_record :: "Record \<Rightarrow> bool" where
  "plain_record r \<longleftrightarrow>
     flag_set (rh_flags (rec_header r)) \<inter> {10, 11} = {}
     \<and> rh_payload_len (rec_header r) = of_nat (length (rec_payload r))"

lemma header_eta: "rh_flags h = f \<Longrightarrow> rh_payload_len h = l \<Longrightarrow> h \<lparr>rh_flags := f, rh_payload_len := l\<rparr> = h"
  by (cases h) simp

lemma remove_insert_flag:
  "flag_set f \<inter> flag_set g = {} \<Longrightarrow> flags_remove (flags_insert f g) g = f"
  by (rule flag_set_inject) auto

lemma with_payload_restore:
  assumes "rh_payload_len (rec_header r) = of_nat (length (rec_payload r))"
    and "flag_set (rh_flags (rec_header r)) \<inter> flag_set g = {}"
    and "s = with_payload r c (flags_insert (rh_flags (rec_header r)) g)"
  shows "with_payload s (rec_payload r) (flags_remove (rh_flags (rec_header s)) g) = r"
  using assms by (simp add: with_payload_def remove_insert_flag header_eta)

lemma compress_raw_cases:
  obtains (same) "maybe_compress_zstd z r = r"
  | (raw) c where "zstd_encode z 3 (rec_payload r) = Ok c"
      "maybe_compress_zstd z r = with_payload r c (flags_insert (rh_flags (rec_header r)) PAYLOAD_ZSTD)"
      "length c < length (rec_payload r)"
proof (cases "maybe_compress_zstd z r = r")
  case False
  then obtain c where "zstd_encode z 3 (rec_payload r) = Ok c" "length c < length (rec_payload r)"
    "maybe_compress_zstd z r = with_payload r c (flags_insert (rh_flags (rec_header r)) PAYLOAD_ZSTD)"
    by (auto simp: maybe_compress_zstd_def split: if_splits sum.splits)
  then show ?thesis using raw by blast
qed (rule same)

lemma decompress_plain:
  "plain_record r \<Longrightarrow> maybe_decompress_zstd_with_dict_provider z p r = Ok r"
  by (auto simp: maybe_decompress_zstd_with_dict_provider_def plain_record_def flags_contains_iff)

lemma decompress_raw:
  assumes "zstd_ok z" and "plain_record r" and "zstd_encode z 3 (rec_payload r) = Ok c"
    and "s = with_payload r c (flags_insert (rh_flags (rec_header r)) PAYLOAD_ZSTD)"
  shows "maybe_decompress_zstd_with_dict_provider z p s = Ok r"
proof -
  have "with_payload s (rec_payload r) (flags_remove (rh_flags (rec_header s)) PAYLOAD_ZSTD) = r"
    using assms by (intro with_payload_restore) (auto simp: plain_record_def)
  moreover have "zstd_decode z (rec_payload s) = Ok (rec_payload r)"
    and "flags_contains (rh_flags (rec_header s)) PAYLOAD_ZSTD"
    using assms zstd_okD(1) by (simp_all add: with_payload_def flags_contains_iff)
  ultimately show ?thesis by (simp add: maybe_decompress_zstd_with_dict_provider_def)
qed

lemma decompress_compress:
  assumes "zstd_ok z" and "plain_record r"
  shows "maybe_decompress_zstd_with_dict_provider z p (maybe_compress_zstd z r) = Ok r"
  by (cases z r rule: compress_raw_cases) (use assms decompress_raw decompress_plain in auto)

lemma decompress_dict:
  assumes "zstd_ok z" and "plain_record r" and "dict_compress z d (rec_payload r) = Ok c"
    and "lookup_dict p (zd_dict_id d) = Some (zd_dict_bytes d)"
    and "s = with_payload r (le64 (zd_dict_id d) @ c)
               (flags_insert (rh_flags (rec_header r)) PAYLOAD_ZSTD_DICT)"
  shows "maybe_decompress_zstd_with_dict_provider z p s = Ok r"
proof -
  have "with_payload s (rec_payload r) (flags_remove (rh_flags (rec_header s)) PAYLOAD_ZSTD_DICT) = r"
    using assms by (intro with_payload_restore) (auto simp: plain_record_def)
  moreover have "zstd_dict_decode z (zd_dict_bytes d) c = Ok (rec_payload r)"
    using assms(1,3) zstd_okD(2) by (auto simp: dict_compress_def)
  then have "decompress_dict_payload z p (rec_payload s) = Ok (rec_payload r)"
    using assms by (simp add: decompress_dict_payload_def with_payload_def)
  moreover have "\<not> flags_contains (rh_flags (rec_header s)) PAYLOAD_ZSTD"
    and "flags_contains (rh_flags (rec_header s)) PAYLOAD_ZSTD_DICT"
    using assms by (auto simp: with_payload_def flags_contains_iff plain_record_def)
  ultimately show ?thesis by (simp add: maybe_decompress_zstd_with_dict_provider_def)
qed

lemma decompress_compress_dict:
  assumes "zstd_ok z" and "plain_record r"
    and "lookup_dict p (zd_dict_id d) = Some (zd_dict_bytes d)"
  shows "maybe_decompress_zstd_with_dict_provider z p (maybe_compress_zstd_with_dict z d r) = Ok r"
  using assms decompress_plain decompress_compress decompress_dict
  by (auto simp: maybe_compress_zstd_with_dict_def Let_def split: sum.splits)

lemma compress_dict_shrinks:
  "length (rec_payload (maybe_compress_zstd_with_dict z d r)) \<le> length (rec_payload r)"
proof -
  have "length (rec_payload (maybe_compress_zstd z r)) \<le> length (rec_payload r)"
    by (auto simp: maybe_compress_zstd_def with_payload_def split: sum.splits)
  then show ?thesis
    by (auto simp: maybe_compress_zstd_with_dict_def with_payload_def Let_def split: sum.splits)
qed

section \<open>Control payloads\<close>

text \<open>
  The bincode crate is a parameter: \<open>enc\<close> and \<open>dec\<close> are \<open>encode_to_vec\<close> and \<open>decode_from_slice\<close> at the
  payload's type; \<open>dec\<close> also returns the number of bytes it read, which the code drops.
\<close>

type_synonym 'a bincode_enc = "'a \<Rightarrow> string + bytes"
type_synonym 'a bincode_dec = "bytes \<Rightarrow> string + 'a \<times> nat"

definition bincode_ok :: "'a bincode_enc \<Rightarrow> 'a bincode_dec \<Rightarrow> bool" where
  "bincode_ok enc dec \<longleftrightarrow> (\<forall>x bs. enc x = Ok bs \<longrightarrow> dec bs = Ok (x, length bs))"

definition invalid_payload_error :: "string \<Rightarrow> string \<Rightarrow> WireError" where
  "invalid_payload_error kind detail = InvalidPayload (kind @ '': '' @ detail)"

definition invalid_payload_version :: "string \<Rightarrow> u8 \<Rightarrow> u8 \<Rightarrow> WireError" where
  "invalid_payload_version kind version expected =
     invalid_payload_error kind
       (''unsupported version '' @ show_nat (unat version) @ ''; expected '' @ show_nat (unat expected))"

record MemoryRetirePayload =
  mrp_version :: u8
  mrp_plane :: MemoryPlane
  mrp_object_kind :: ObjectKind
  mrp_object_id :: string

record MemoryAckPayload =
  map_version :: u8
  map_plane :: MemoryPlane
  map_object_kind :: ObjectKind
  map_object_id :: string
  map_acked_record_type :: RecordType
  map_acked_seq_no :: SeqNo

record PlaneResyncPayload =
  prp_version :: u8
  prp_plane :: MemoryPlane
  prp_object_kinds :: "ObjectKind list"
  prp_reset_predictors :: bool

definition encode_with :: "string \<Rightarrow> 'a bincode_enc \<Rightarrow> 'a \<Rightarrow> WireError + bytes" where
  "encode_with kind enc p =
     map_err (\<lambda>e. invalid_payload_error kind (''serialization failed: '' @ e)) (enc p)"

definition decode_with :: "string \<Rightarrow> ('a \<Rightarrow> u8) \<Rightarrow> 'a bincode_dec \<Rightarrow> bytes \<Rightarrow> WireError + 'a" where
  "decode_with kind version_of dec bs =
     and_then (map_err (\<lambda>e. invalid_payload_error kind (''decode failed: '' @ e)) (dec bs))
       (\<lambda>(payload, _).
          if version_of payload \<noteq> 1
          then Err (invalid_payload_version kind (version_of payload) 1)
          else Ok payload)"

definition MemoryRetire_encode where
  "MemoryRetire_encode enc (p :: MemoryRetirePayload) = encode_with ''memory retire payload'' enc p"
definition MemoryRetire_decode where
  "MemoryRetire_decode dec bs = decode_with ''memory retire payload'' mrp_version dec bs"
definition MemoryAck_encode where
  "MemoryAck_encode enc (p :: MemoryAckPayload) = encode_with ''memory ack payload'' enc p"
definition MemoryAck_decode where
  "MemoryAck_decode dec bs = decode_with ''memory ack payload'' map_version dec bs"
definition PlaneResync_encode where
  "PlaneResync_encode enc (p :: PlaneResyncPayload) = encode_with ''plane resync payload'' enc p"
definition PlaneResync_decode where
  "PlaneResync_decode dec bs = decode_with ''plane resync payload'' prp_version dec bs"

lemma decode_encode_with:
  assumes "bincode_ok enc dec" and "encode_with kind enc p = Ok bs"
  shows "decode_with kind ver dec bs =
    (if ver p = 1 then Ok p else Err (invalid_payload_version kind (ver p) 1))"
  using assms by (simp add: bincode_ok_def encode_with_def decode_with_def)

section \<open>Predictor state\<close>

record PredictorEntryMeta =
  pem_item_id :: ItemId
  pem_source_kind :: SourceKind
  pem_object_kind :: ObjectKind
  pem_cue :: SparseCue

datatype PredictorState = PS_Empty | PS_Ready PredictorEntryMeta

fun requires_raw :: "PredictorState \<Rightarrow> bool" where
  "requires_raw PS_Empty = True"
| "requires_raw (PS_Ready _) = False"

section \<open>Properties\<close>

text \<open>C1: \<open>RecordHeader::validate\<close> accepts exactly the headers that meet the contract of their record
  type (allowed flag bits, codec mode, item id, payload length), and returns them unchanged.\<close>

theorem header_validation_exact:
  "header_validate h = Ok h' \<longleftrightarrow> h' = h \<and> header_contract h"
  by (rule header_validate_iff)

text \<open>The header bytes that are authenticated determine the header: \<open>from_aad_bytes\<close> accepts a byte
  string if and only if it is \<open>aad_bytes\<close> of the header it returns.\<close>

theorem header_bytes_canonical: "from_aad_bytes bs = Ok h \<longleftrightarrow> bs = aad_bytes h"
  using header_codec.dec_iff [of bs h] by simp

text \<open>C2: records round trip: \<open>from_bytes\<close> returns a record if and only if the record is valid and the
  bytes are its \<open>to_bytes\<close>.\<close>

theorem record_bytes_canonical:
  "record_from_bytes bs = Ok r \<longleftrightarrow> record_ok r \<and> bs = record_to_bytes r"
  by (rule record_codec.dec_iff)

text \<open>Compressing a plain record, with a dictionary or without, and decompressing it with a provider
  that finds the dictionary gives the record back, header included; compression never makes the
  payload longer.\<close>

theorem zstd_stage_roundtrip:
  assumes "zstd_ok z" and "plain_record r"
    and "lookup_dict p (zd_dict_id d) = Some (zd_dict_bytes d)"
  shows "maybe_decompress_zstd_with_dict_provider z p (maybe_compress_zstd_with_dict z d r) = Ok r
    \<and> maybe_decompress_zstd z (maybe_compress_zstd z r) = Ok r
    \<and> length (rec_payload (maybe_compress_zstd_with_dict z d r)) \<le> length (rec_payload r)"
  using decompress_compress_dict [OF assms] decompress_compress [OF assms(1,2)] compress_dict_shrinks
  by (simp add: maybe_decompress_zstd_def)

definition sample_record :: Record where
  "sample_record =
     \<lparr>rec_header = \<lparr>rh_version = 2, rh_stream_id = 7, rh_epoch_id = 0, rh_seq_no = 3,
        rh_record_type = MemoryRetire, rh_codec_mode = CM_None, rh_flags = 4, rh_item_id = 9,
        rh_payload_len = 60\<rparr>,
      rec_payload = replicate 60 0, rec_auth_tag = replicate 16 0\<rparr>"

definition sample_dict :: ZstdDictionary where
  "sample_dict = \<lparr>zd_dict_id = 5, zd_dict_bytes = [1, 2], zd_sample_count = 8,
     zd_total_sample_bytes = 600, zd_source_kind = Text, zd_version = 1\<rparr>"

lemma sample_plain: "plain_record sample_record"
proof -
  have "flag_set (push_bit 2 1) = {2}" by (rule flag_set_bit) simp
  then show ?thesis by (simp add: plain_record_def sample_record_def)
qed

lemma zstd_stage_roundtrip_witness:
  "maybe_decompress_zstd_with_dict_provider toy_zstd (\<lambda>k i. if k = Text \<and> i = 5 then Some [1, 2] else None)
     (maybe_compress_zstd_with_dict toy_zstd sample_dict sample_record) = Ok sample_record
   \<and> length (rec_payload (maybe_compress_zstd toy_zstd sample_record)) = 11"
proof -
  have "maybe_decompress_zstd_with_dict_provider toy_zstd
      (\<lambda>k i. if k = Text \<and> i = 5 then Some [1, 2] else None)
      (maybe_compress_zstd_with_dict toy_zstd sample_dict sample_record) = Ok sample_record"
    using zstd_stage_roundtrip [OF toy_zstd_ok sample_plain,
        of "\<lambda>k i. if k = Text \<and> i = 5 then Some [1, 2] else None" sample_dict]
    by (simp add: lookup_dict_def or_else_def sample_dict_def)
  moreover have "take 50 (replicate 60 (0 :: u8)) = replicate 50 0" by simp
  then have "length (rec_payload (maybe_compress_zstd toy_zstd sample_record)) = 11"
    by (simp add: maybe_compress_zstd_def toy_zstd_def toy_encode_def sample_record_def with_payload_def)
  ultimately show ?thesis by blast
qed

end
