(* ===== verification/Pulzz_Transport.thy ===== *)
theory Pulzz_Transport
  imports Pulzz_Protocol
begin

text \<open>
  The reliable transport (\<open>shared_protocol/src/transport.rs\<close>): packing records into bursts, the group
  format (length-prefixed records), the compact format that leaves out what the frame implies, and the
  header of a protected frame.
\<close>

section \<open>Modes and packing\<close>

definition TRANSPORT_BURST_SMALL_CAP :: nat where "TRANSPORT_BURST_SMALL_CAP = 4096"
definition TRANSPORT_BURST_MEDIUM_CAP :: nat where "TRANSPORT_BURST_MEDIUM_CAP = 65536"
definition TRANSPORT_BURST_BIG_CAP :: nat where "TRANSPORT_BURST_BIG_CAP = 1048576"

datatype TransportMode = Bulk | BurstSmall | BurstMedium | BurstBig

fun TransportMode_slug :: "TransportMode \<Rightarrow> string" where
  "TransportMode_slug Bulk = ''bulk''"
| "TransportMode_slug BurstSmall = ''burst_small''"
| "TransportMode_slug BurstMedium = ''burst_medium''"
| "TransportMode_slug BurstBig = ''burst_big''"

fun payload_cap_bytes :: "TransportMode \<Rightarrow> nat option" where
  "payload_cap_bytes Bulk = None"
| "payload_cap_bytes BurstSmall = Some TRANSPORT_BURST_SMALL_CAP"
| "payload_cap_bytes BurstMedium = Some TRANSPORT_BURST_MEDIUM_CAP"
| "payload_cap_bytes BurstBig = Some TRANSPORT_BURST_BIG_CAP"

definition transport_payload_len :: "Record \<Rightarrow> nat" where
  "transport_payload_len r =
     (if rh_record_type (rec_header r) \<in>
           {ExactState, Repair, PredictiveConfirm, PredictiveCorrect, AssemblyDef, TransformDef,
            SchemaDef, EpisodeHint, ReplayHint, MemoryRetire, TransformCorrect, MemoryAck}
      then length (rec_payload r) else 0)"

text \<open>The loop of \<open>pack_record_groups\<close>: groups emitted so far, the open group and its payload.\<close>

type_synonym pack_state = "Record list list \<times> Record list \<times> nat"

fun pack_step :: "nat option \<Rightarrow> pack_state \<Rightarrow> Record \<Rightarrow> pack_state" where
  "pack_step cap (groups, current, current_payload) record =
     (let record_payload = transport_payload_len record;
          (groups, current, current_payload) =
            (case cap of
               Some c \<Rightarrow> if current \<noteq> [] \<and> current_payload + record_payload > c
                         then (groups @ [current], [], 0)
                         else (groups, current, current_payload)
             | None \<Rightarrow> (groups, current, current_payload));
          current = current @ [record];
          current_payload = current_payload + record_payload in
      case cap of
        Some c \<Rightarrow> if current_payload \<ge> c then (groups @ [current], [], 0)
                  else (groups, current, current_payload)
      | None \<Rightarrow> (groups, current, current_payload))"

definition pack_record_groups :: "Record list \<Rightarrow> TransportMode \<Rightarrow> Record list list" where
  "pack_record_groups records mode =
     (case foldl (pack_step (payload_cap_bytes mode)) ([], [], 0) records of
        (groups, current, _) \<Rightarrow> if current \<noteq> [] then groups @ [current] else groups)"

section \<open>Length-prefixed groups\<close>

fun encode_transport_group :: "bytes list \<Rightarrow> bytes" where
  "encode_transport_group [] = []"
| "encode_transport_group (frame # frames) =
     le32 (of_nat (length frame)) @ frame @ encode_transport_group frames"

definition pack_records :: "Record list \<Rightarrow> TransportMode \<Rightarrow> bytes list" where
  "pack_records records mode =
     map (\<lambda>group. encode_transport_group (map record_to_bytes group)) (pack_record_groups records mode)"

text \<open>One turn of the chunk loop on the bytes after the cursor; \<open>Err ()\<close> is \<open>chunk_ok = false\<close>.\<close>

definition parse_chunk :: "bytes \<Rightarrow> unit + Record \<times> bytes" where
  "parse_chunk bs =
     (if length bs < 4 then Err ()
      else let record_len = unat (of_le32 (take 4 bs)); rest = drop 4 bs in
        if record_len = 0 \<or> length rest < record_len then Err ()
        else case record_from_bytes (take record_len rest) of
          Ok record \<Rightarrow> Ok (record, drop record_len rest)
        | Err _ \<Rightarrow> Err ())"

lemma parse_chunk_shrinks: "parse_chunk bs = Ok (r, rest) \<Longrightarrow> length rest < length bs"
  by (auto simp: parse_chunk_def Let_def split: if_splits sum.splits)

function transport_chunks :: "bytes \<Rightarrow> unit + Record list" where
  "transport_chunks bs =
     (if bs = [] then Ok []
      else case parse_chunk bs of
        Err u \<Rightarrow> Err u
      | Ok (record, rest) \<Rightarrow> and_then (transport_chunks rest) (\<lambda>records. Ok (record # records)))"
  by pat_completeness auto
termination
  by (relation "measure length") (auto dest: parse_chunk_shrinks)

declare transport_chunks.simps [simp del]

definition decode_transport_records :: "bytes \<Rightarrow> WireError + Record list" where
  "decode_transport_records frame =
     (let single = and_then (record_from_bytes frame) (\<lambda>record. Ok [record]) in
      if length frame \<ge> 4 then
        (case transport_chunks frame of
           Ok records \<Rightarrow> if records \<noteq> [] then Ok records else single
         | Err _ \<Rightarrow> single)
      else single)"

section \<open>Compact records\<close>

definition COMPACT_TRANSPORT_RECORD_HEADER_LEN :: nat where
  "COMPACT_TRANSPORT_RECORD_HEADER_LEN = 16"

definition compact_record_bytes :: "Record \<Rightarrow> bytes" where
  "compact_record_bytes r =
     [RecordType_disc (rh_record_type (rec_header r))] @ [CodecMode_disc (rh_codec_mode (rec_header r))]
     @ le16 (rh_flags (rec_header r)) @ le64 (rh_item_id (rec_header r))
     @ le32 (rh_payload_len (rec_header r)) @ rec_payload r"

definition encode_compact_transport_records :: "Record list \<Rightarrow> bytes" where
  "encode_compact_transport_records records = concat (map compact_record_bytes records)"

text \<open>One turn of the loop of \<open>decode_compact_transport_records\<close>.\<close>

definition parse_compact ::
  "StreamId \<Rightarrow> EpochId \<Rightarrow> SeqNo \<Rightarrow> bytes \<Rightarrow> WireError + Record \<times> bytes" where
  "parse_compact stream_id epoch_id seq_no bs =
     (if length bs < COMPACT_TRANSPORT_RECORD_HEADER_LEN
      then Err (TruncatedCompactTransportRecord (length bs) COMPACT_TRANSPORT_RECORD_HEADER_LEN)
      else and_then (RecordType_try_from_u8 (bs ! 0)) (\<lambda>record_type.
        and_then (CodecMode_try_from_u8 (bs ! 1)) (\<lambda>codec_mode.
          let flags = of_le16 (slice 2 4 bs);
              item_id = of_le64 (slice 4 12 bs);
              payload_len = unat (of_le32 (slice 12 16 bs));
              rest = drop COMPACT_TRANSPORT_RECORD_HEADER_LEN bs in
          if length rest < payload_len
          then Err (CompactTransportRecordLenMismatch payload_len (length rest))
          else and_then (map_err Validation (record_validate
              \<lparr>rec_header = \<lparr>rh_version = PROTOCOL_VERSION, rh_stream_id = stream_id,
                 rh_epoch_id = epoch_id, rh_seq_no = seq_no, rh_record_type = record_type,
                 rh_codec_mode = codec_mode, rh_flags = flags, rh_item_id = item_id,
                 rh_payload_len = of_nat payload_len\<rparr>,
               rec_payload = take payload_len rest,
               rec_auth_tag = replicate AUTH_TAG_LEN 0\<rparr>))
            (\<lambda>record. Ok (record, drop payload_len rest)))))"

lemma parse_compact_shrinks: "parse_compact sid e s bs = Ok (r, rest) \<Longrightarrow> length rest < length bs"
  by (auto simp: parse_compact_def Let_def COMPACT_TRANSPORT_RECORD_HEADER_LEN_def split: if_splits)

text \<open>After a \<open>Rekey\<close> the numbering moves to the next epoch; the additions wrap.\<close>

definition next_position :: "RecordType \<Rightarrow> EpochId \<Rightarrow> SeqNo \<Rightarrow> EpochId \<times> SeqNo" where
  "next_position t e s = (if t = Rekey then (e + 1, 0) else (e, s + 1))"

function decode_compact_transport_records ::
  "bytes \<Rightarrow> StreamId \<Rightarrow> EpochId \<Rightarrow> SeqNo \<Rightarrow> WireError + Record list" where
  "decode_compact_transport_records payload stream_id epoch_id seq_no =
     (if payload = [] then Ok []
      else case parse_compact stream_id epoch_id seq_no payload of
        Err e \<Rightarrow> Err e
      | Ok (record, rest) \<Rightarrow>
          (case next_position (rh_record_type (rec_header record)) epoch_id seq_no of
             (epoch_id', seq_no') \<Rightarrow>
               and_then (decode_compact_transport_records rest stream_id epoch_id' seq_no')
                 (\<lambda>records. Ok (record # records))))"
  by pat_completeness auto
termination
  by (relation "measure (\<lambda>(p, _, _, _). length p)") (auto dest: parse_compact_shrinks)

declare decode_compact_transport_records.simps [simp del]

section \<open>Protected frames\<close>

definition PROTECTED_TRANSPORT_FRAME_MAGIC :: bytes where
  "PROTECTED_TRANSPORT_FRAME_MAGIC = [0x57, 0x53, 0x54, 0x46]"
definition PROTECTED_TRANSPORT_FRAME_VERSION :: u8 where "PROTECTED_TRANSPORT_FRAME_VERSION = 1"
definition PROTECTED_TRANSPORT_FRAME_HEADER_LEN :: nat where
  "PROTECTED_TRANSPORT_FRAME_HEADER_LEN = 4 + 1 + 4 + 8 + 4 + 4"

lemmas transport_lens [simp] =
  PROTECTED_TRANSPORT_FRAME_MAGIC_def PROTECTED_TRANSPORT_FRAME_VERSION_def
  PROTECTED_TRANSPORT_FRAME_HEADER_LEN_def COMPACT_TRANSPORT_RECORD_HEADER_LEN_def

record ProtectedTransportFrameHeader =
  fh_epoch_id :: EpochId
  fh_seq_no :: SeqNo
  fh_record_count :: u32
  fh_payload_len :: u32

definition frame_aad_bytes :: "ProtectedTransportFrameHeader \<Rightarrow> bytes" where
  "frame_aad_bytes h =
     PROTECTED_TRANSPORT_FRAME_MAGIC @ [PROTECTED_TRANSPORT_FRAME_VERSION]
     @ le32 (fh_epoch_id h) @ le64 (fh_seq_no h) @ le32 (fh_record_count h) @ le32 (fh_payload_len h)"

definition frame_from_aad_bytes :: "bytes \<Rightarrow> WireError + ProtectedTransportFrameHeader" where
  "frame_from_aad_bytes bs =
     (if length bs \<noteq> PROTECTED_TRANSPORT_FRAME_HEADER_LEN
      then Err (InvalidTransportFrameHeaderLen PROTECTED_TRANSPORT_FRAME_HEADER_LEN (length bs))
      else if take 4 bs \<noteq> PROTECTED_TRANSPORT_FRAME_MAGIC then Err InvalidTransportFrameMagic
      else if bs ! 4 \<noteq> PROTECTED_TRANSPORT_FRAME_VERSION
      then Err (UnsupportedTransportFrameVersion (bs ! 4))
      else Ok \<lparr>fh_epoch_id = of_le32 (slice 5 9 bs),
               fh_seq_no = of_le64 (slice 9 17 bs),
               fh_record_count = of_le32 (slice 17 21 bs),
               fh_payload_len = of_le32 (slice 21 25 bs)\<rparr>)"

definition encode_protected_transport_frame ::
  "ProtectedTransportFrameHeader \<Rightarrow> bytes \<Rightarrow> bytes \<Rightarrow> bytes" where
  "encode_protected_transport_frame h ciphertext auth_tag = frame_aad_bytes h @ ciphertext @ auth_tag"

definition decode_protected_transport_frame ::
  "bytes \<Rightarrow> WireError + ProtectedTransportFrameHeader \<times> bytes \<times> bytes" where
  "decode_protected_transport_frame frame =
     (if length frame < PROTECTED_TRANSPORT_FRAME_HEADER_LEN + AUTH_TAG_LEN
      then Err (TruncatedTransportFrame (length frame)
             (PROTECTED_TRANSPORT_FRAME_HEADER_LEN + AUTH_TAG_LEN))
      else and_then (frame_from_aad_bytes (take PROTECTED_TRANSPORT_FRAME_HEADER_LEN frame)) (\<lambda>header.
        let ciphertext_len = length frame - PROTECTED_TRANSPORT_FRAME_HEADER_LEN - AUTH_TAG_LEN in
        if ciphertext_len \<noteq> unat (fh_payload_len header)
        then Err (TransportFramePayloadLenMismatch (unat (fh_payload_len header)) ciphertext_len)
        else let payload_start = PROTECTED_TRANSPORT_FRAME_HEADER_LEN;
                 payload_end = payload_start + ciphertext_len in
          Ok (header, slice payload_start payload_end frame, drop payload_end frame)))"

section \<open>Packing keeps the records\<close>

definition group_payload :: "Record list \<Rightarrow> nat" where
  "group_payload g = sum_list (map transport_payload_len g)"

definition group_fits :: "nat option \<Rightarrow> Record list \<Rightarrow> bool" where
  "group_fits cap g \<longleftrightarrow> (case cap of Some c \<Rightarrow> group_payload g \<le> c \<or> length g = 1 | None \<Rightarrow> True)"

definition pack_inv :: "nat option \<Rightarrow> Record list \<Rightarrow> pack_state \<Rightarrow> bool" where
  "pack_inv cap packed = (\<lambda>(groups, current, n).
     concat groups @ current = packed \<and> n = group_payload current
     \<and> (\<forall>g \<in> set groups. g \<noteq> [] \<and> group_fits cap g) \<and> group_fits cap current)"

lemma group_payload_snoc [simp]: "group_payload (g @ [r]) = group_payload g + transport_payload_len r"
  by (simp add: group_payload_def)

lemma group_payload_Nil [simp]: "group_payload [] = 0"
  by (simp add: group_payload_def)

lemma pack_step_inv:
  assumes "pack_inv cap packed st"
  shows "pack_inv cap (packed @ [r]) (pack_step cap st r)"
proof -
  obtain groups current n where st: "st = (groups, current, n)" by (cases st)
  show ?thesis
  proof (cases cap)
    case None
    then show ?thesis using assms by (simp add: st pack_inv_def group_fits_def)
  next
    case (Some c)
    have "group_payload [r] = transport_payload_len r" by (simp add: group_payload_def)
    then show ?thesis
      using assms Some by (auto simp: st pack_inv_def group_fits_def Let_def)
  qed
qed

lemma pack_foldl_inv:
  "pack_inv cap packed st \<Longrightarrow> pack_inv cap (packed @ rs) (foldl (pack_step cap) st rs)"
proof (induction rs arbitrary: packed st)
  case (Cons r rs)
  then show ?case using pack_step_inv [OF Cons.prems, of r] Cons.IH [of "packed @ [r]"] by simp
qed simp

lemma pack_inv_initial: "pack_inv cap [] ([], [], 0)"
  by (simp add: pack_inv_def group_fits_def split: option.splits)

lemma pack_record_groups_spec:
  "concat (pack_record_groups rs mode) = rs"
  "g \<in> set (pack_record_groups rs mode) \<Longrightarrow> g \<noteq> [] \<and> group_fits (payload_cap_bytes mode) g"
  using pack_foldl_inv [OF pack_inv_initial, of "payload_cap_bytes mode" rs]
  by (auto simp: pack_record_groups_def pack_inv_def split: prod.splits if_splits)

section \<open>Group format\<close>

text \<open>A record whose frame length fits the 32-bit prefix.\<close>

definition chunk_ok :: "Record \<Rightarrow> bool" where
  "chunk_ok r \<longleftrightarrow> record_ok r \<and> length (record_to_bytes r) < 2 ^ 32"

definition chunk_bytes :: "Record \<Rightarrow> bytes" where
  "chunk_bytes r = le32 (of_nat (length (record_to_bytes r))) @ record_to_bytes r"

lemma parse_chunk_bytes:
  assumes "chunk_ok r"
  shows "parse_chunk (chunk_bytes r @ rest) = Ok (r, rest)"
proof -
  let ?b = "record_to_bytes r"
  have "unat (of_nat (length ?b) :: u32) = length ?b" and "length ?b \<noteq> 0"
    using assms unat_of_nat_u32 [of "length ?b"] length_record_to_bytes [of r]
    by (simp_all add: chunk_ok_def)
  then show ?thesis
    using assms by (simp add: parse_chunk_def chunk_bytes_def chunk_ok_def record_from_to)
qed

interpretation chunk_codec: stream_codec chunk_bytes parse_chunk chunk_ok
  by unfold_locales (rule parse_chunk_bytes)

lemma encode_group_chunks:
  "encode_transport_group (map record_to_bytes rs) = concat (map chunk_bytes rs)"
  by (induction rs) (simp_all add: chunk_bytes_def)

lemma transport_chunks_encode:
  "\<forall>r \<in> set rs. chunk_ok r \<Longrightarrow> transport_chunks (concat (map chunk_bytes rs)) = Ok rs"
proof (induction rs)
  case Nil
  then show ?case by (subst transport_chunks.simps) simp
next
  case (Cons r rs)
  then have "parse_chunk (concat (map chunk_bytes (r # rs))) = Ok (r, concat (map chunk_bytes rs))"
    by (simp add: parse_chunk_bytes)
  moreover have "concat (map chunk_bytes (r # rs)) \<noteq> []"
    by (simp add: chunk_bytes_def flip: length_0_conv)
  ultimately show ?case
    using Cons by (subst transport_chunks.simps) simp
qed

lemma decode_group:
  assumes "rs \<noteq> []" and "\<forall>r \<in> set rs. chunk_ok r"
  shows "decode_transport_records (encode_transport_group (map record_to_bytes rs)) = Ok rs"
proof -
  have "4 \<le> length (concat (map chunk_bytes rs))"
    using assms(1) by (cases rs) (simp_all add: chunk_bytes_def)
  then show ?thesis
    using assms by (simp add: decode_transport_records_def encode_group_chunks transport_chunks_encode)
qed

lemma decode_pack_records:
  assumes "\<forall>r \<in> set rs. chunk_ok r"
  shows "map decode_transport_records (pack_records rs mode) = map Ok (pack_record_groups rs mode)"
proof -
  have "decode_transport_records (encode_transport_group (map record_to_bytes g)) = Ok g"
    if "g \<in> set (pack_record_groups rs mode)" for g
    using that assms pack_record_groups_spec(2) [of g rs mode]
      arg_cong [OF pack_record_groups_spec(1) [of rs mode], of set]
    by (intro decode_group) auto
  then show ?thesis by (simp add: pack_records_def)
qed

section \<open>Compact format\<close>

text \<open>
  What the receiver reconstructs: the records with the version, stream, epoch and sequence number the
  position in the frame gives them, and a zero tag.
\<close>

definition place_record :: "StreamId \<Rightarrow> EpochId \<Rightarrow> SeqNo \<Rightarrow> Record \<Rightarrow> Record" where
  "place_record sid e s r =
     r \<lparr>rec_header := rec_header r \<lparr>rh_version := 2, rh_stream_id := sid, rh_epoch_id := e, rh_seq_no := s\<rparr>,
        rec_auth_tag := replicate 16 0\<rparr>"

fun renumber :: "StreamId \<Rightarrow> EpochId \<Rightarrow> SeqNo \<Rightarrow> Record list \<Rightarrow> Record list" where
  "renumber sid e s [] = []"
| "renumber sid e s (r # rs) =
     place_record sid e s r #
     (case next_position (rh_record_type (rec_header r)) e s of (e', s') \<Rightarrow> renumber sid e' s' rs)"

definition compact_ok :: "StreamId \<Rightarrow> EpochId \<Rightarrow> SeqNo \<Rightarrow> Record \<Rightarrow> bool" where
  "compact_ok sid e s r \<longleftrightarrow> record_validate r = Ok r \<and> place_record sid e s r = r"

lemma place_record_sel [simp]:
  "rh_record_type (rec_header (place_record sid e s r)) = rh_record_type (rec_header r)"
  "rec_payload (place_record sid e s r) = rec_payload r"
  "rh_payload_len (rec_header (place_record sid e s r)) = rh_payload_len (rec_header r)"
  by (simp_all add: place_record_def)

lemma contract_place:
  "header_contract (rec_header r) \<Longrightarrow> header_contract (rec_header (place_record sid e s r))"
  unfolding header_contract_def type_contract_def cache_op_contract_def
  by (cases "rh_record_type (rec_header r)") (simp_all add: place_record_def)

lemma record_validate_place:
  "record_validate r = Ok r \<Longrightarrow> record_validate (place_record sid e s r) = Ok (place_record sid e s r)"
  by (simp add: record_validate_Inr_iff header_validate_iff contract_place)

lemma parse_compact_place:
  assumes "record_validate r = Ok r"
  shows "parse_compact sid e s (compact_record_bytes r @ rest) = Ok (place_record sid e s r, rest)"
proof -
  let ?n = "unat (rh_payload_len (rec_header r))"
  have "length (rec_payload r) = ?n" using assms by (simp add: record_validate_Inr_iff)
  moreover have "\<lparr>rec_header = \<lparr>rh_version = 2, rh_stream_id = sid, rh_epoch_id = e, rh_seq_no = s,
      rh_record_type = rh_record_type (rec_header r), rh_codec_mode = rh_codec_mode (rec_header r),
      rh_flags = rh_flags (rec_header r), rh_item_id = rh_item_id (rec_header r),
      rh_payload_len = rh_payload_len (rec_header r)\<rparr>, rec_payload = rec_payload r,
      rec_auth_tag = replicate 16 0\<rparr> = place_record sid e s r"
    by (simp add: place_record_def)
  ultimately show ?thesis
    using record_validate_place [OF assms]
    by (simp add: parse_compact_def compact_record_bytes_def nth_append slice_def)
qed

lemma parse_compactD:
  assumes "parse_compact sid e s bs = Ok (r, rest)"
  shows "compact_ok sid e s r \<and> bs = compact_record_bytes r @ rest"
proof -
  obtain t m where "RecordType_disc t = bs ! 0" and "CodecMode_disc m = bs ! 1"
    and len: "16 \<le> length bs"
    and n: "unat (of_le32 (slice 12 16 bs)) \<le> length (drop 16 bs)"
    and rest: "rest = drop (unat (of_le32 (slice 12 16 bs))) (drop 16 bs)"
    and val: "record_validate
        \<lparr>rec_header = \<lparr>rh_version = 2, rh_stream_id = sid, rh_epoch_id = e, rh_seq_no = s,
           rh_record_type = t, rh_codec_mode = m, rh_flags = of_le16 (slice 2 4 bs),
           rh_item_id = of_le64 (slice 4 12 bs), rh_payload_len = of_le32 (slice 12 16 bs)\<rparr>,
         rec_payload = take (unat (of_le32 (slice 12 16 bs))) (drop 16 bs),
         rec_auth_tag = replicate 16 0\<rparr> = Ok r"
    using assms by (auto simp: parse_compact_def Let_def split: if_splits)
  have "take n (drop 16 bs) @ drop n (drop 16 bs) = drop 16 bs" for n
    by (rule append_take_drop_id)
  moreover have "bs \<noteq> []" using len by auto
  ultimately have bs: "bs ! 0 # bs ! 1 # slice 2 4 bs @ slice 4 12 bs @ slice 12 16 bs
      @ take n (drop 16 bs) @ drop n (drop 16 bs) = bs" for n
    using len by (simp add: slice_join slice_append_drop del: drop_drop)
  then show ?thesis
    using val \<open>RecordType_disc t = bs ! 0\<close> \<open>CodecMode_disc m = bs ! 1\<close> len
    by (auto simp: compact_ok_def place_record_def record_validate_Inr_iff compact_record_bytes_def
        le_of_le rest simp del: drop_drop One_nat_def)
qed

interpretation compact_codec:
  canonical_stream_codec compact_record_bytes "parse_compact sid e s" "compact_ok sid e s" for sid e s
proof unfold_locales
  fix r rest
  assume "compact_ok sid e s r"
  then show "parse_compact sid e s (compact_record_bytes r @ rest) = Ok (r, rest)"
    using parse_compact_place [of r sid e s rest] by (simp add: compact_ok_def)
qed (rule parse_compactD)

lemma decode_encode_compact:
  "\<forall>r \<in> set rs. record_validate r = Ok r \<Longrightarrow>
    decode_compact_transport_records (encode_compact_transport_records rs) sid e s = Ok (renumber sid e s rs)"
proof (induction rs arbitrary: e s)
  case Nil
  then show ?case
    by (subst decode_compact_transport_records.simps) (simp add: encode_compact_transport_records_def)
next
  case (Cons r rs)
  have "encode_compact_transport_records (r # rs) \<noteq> []"
    by (simp add: encode_compact_transport_records_def compact_record_bytes_def)
  moreover have "parse_compact sid e s (encode_compact_transport_records (r # rs)) =
      Ok (place_record sid e s r, encode_compact_transport_records rs)"
    using Cons.prems by (simp add: encode_compact_transport_records_def parse_compact_place)
  ultimately show ?case
    using Cons by (subst decode_compact_transport_records.simps) (simp split: prod.splits)
qed

lemma length_renumber [simp]: "length (renumber sid e s rs) = length rs"
  by (induction rs arbitrary: e s) (auto split: prod.splits)

section \<open>Frame format\<close>

lemma length_frame_aad [simp]: "length (frame_aad_bytes h) = 25"
  by (simp add: frame_aad_bytes_def)

lemma frame_from_aad_aad [simp]: "frame_from_aad_bytes (frame_aad_bytes h) = Ok h"
  by (simp add: frame_from_aad_bytes_def frame_aad_bytes_def slice_def nth_append)

lemma frame_aad_from_aad:
  assumes "frame_from_aad_bytes bs = Ok h"
  shows "frame_aad_bytes h = bs"
proof -
  have len: "length bs = 25" and magic: "[0x57, 0x53, 0x54, 0x46] = take 4 bs" and "1 = bs ! 4"
    and "fh_epoch_id h = of_le32 (slice 5 9 bs)" and "fh_seq_no h = of_le64 (slice 9 17 bs)"
    and "fh_record_count h = of_le32 (slice 17 21 bs)" and "fh_payload_len h = of_le32 (slice 21 25 bs)"
    using assms by (auto simp: frame_from_aad_bytes_def split: if_splits)
  then have "frame_aad_bytes h = [0x57, 0x53, 0x54, 0x46] @ bs ! 4 # slice 5 25 bs"
    by (simp add: frame_aad_bytes_def le_of_le slice_join)
  also have "\<dots> = take 4 bs @ bs ! 4 # slice 5 25 bs" by (simp only: magic)
  also have "\<dots> = bs" using len by (simp add: slice_join slice_full)
  finally show ?thesis .
qed

interpretation frame_header_codec: canonical_codec frame_aad_bytes frame_from_aad_bytes "\<lambda>_. True"
  by unfold_locales (simp_all add: frame_aad_from_aad)

definition frame_ok :: "ProtectedTransportFrameHeader \<times> bytes \<times> bytes \<Rightarrow> bool" where
  "frame_ok = (\<lambda>(h, c, t). length c = unat (fh_payload_len h) \<and> length t = 16)"

definition frame_encode :: "ProtectedTransportFrameHeader \<times> bytes \<times> bytes \<Rightarrow> bytes" where
  "frame_encode = (\<lambda>(h, c, t). encode_protected_transport_frame h c t)"

lemma frame_decode_encode: "frame_ok f \<Longrightarrow> decode_protected_transport_frame (frame_encode f) = Ok f"
  by (cases f) (auto simp: frame_ok_def frame_encode_def decode_protected_transport_frame_def
      encode_protected_transport_frame_def slice_def)

lemma frame_decodeD:
  assumes "decode_protected_transport_frame bs = Ok f"
  shows "frame_ok f \<and> frame_encode f = bs"
proof -
  obtain h where h: "frame_from_aad_bytes (take 25 bs) = Ok h"
    and len: "41 \<le> length bs" and n: "length bs - 41 = unat (fh_payload_len h)"
    and f: "f = (h, slice 25 (length bs - 16) bs, drop (length bs - 16) bs)"
    using assms by (auto simp: decode_protected_transport_frame_def Let_def split: if_splits)
  have "frame_encode f = take 25 bs @ slice 25 (length bs - 16) bs @ drop (length bs - 16) bs"
    using frame_aad_from_aad [OF h] by (simp add: f frame_encode_def encode_protected_transport_frame_def)
  also have "\<dots> = bs" using len by (simp add: slice_append_drop)
  finally show ?thesis using len n by (simp add: f frame_ok_def)
qed

interpretation frame_codec: canonical_codec frame_encode decode_protected_transport_frame frame_ok
  by unfold_locales (simp_all add: frame_decode_encode frame_decodeD)

section \<open>Properties\<close>

text \<open>C3: packing loses, reorders and splits nothing: the groups of \<open>pack_record_groups\<close> concatenate to
  the records, none is empty and each fits the mode's cap unless it is a single record; and every
  frame of \<open>pack_records\<close> decodes to its group.\<close>

theorem packing_delivers_records:
  assumes "\<forall>r \<in> set rs. chunk_ok r"
  shows "concat (pack_record_groups rs mode) = rs
    \<and> (\<forall>g \<in> set (pack_record_groups rs mode). g \<noteq> [] \<and> group_fits (payload_cap_bytes mode) g)
    \<and> map decode_transport_records (pack_records rs mode) = map Ok (pack_record_groups rs mode)"
  using pack_record_groups_spec(1) [of rs mode] pack_record_groups_spec(2) [of _ rs mode]
    decode_pack_records [OF assms] by blast

lemma sample_record_validates: "record_validate sample_record = Ok sample_record"
proof -
  have "flag_set 4 = {2}" using flag_set_flags(3) by (simp add: POST_REKEY_CONFIRM_def)
  then show ?thesis
    by (simp add: record_validate_Inr_iff header_validate_iff header_contract_def type_contract_def
        sample_record_def exact_codec_def)
qed

lemma sample_record_ok: "record_ok sample_record"
  using sample_record_validates by (simp add: record_ok_def) (simp add: sample_record_def)

lemma sample_chunk_ok: "chunk_ok sample_record"
  using length_record_to_bytes [OF sample_record_ok] sample_record_ok
  by (simp add: chunk_ok_def) (simp add: sample_record_def)

lemma packing_delivers_records_witness:
  "map decode_transport_records (pack_records [sample_record, sample_record] BurstSmall)
     = [Ok [sample_record, sample_record]]"
proof -
  have "transport_payload_len sample_record = 60"
    by (simp add: transport_payload_len_def sample_record_def)
  then have "pack_record_groups [sample_record, sample_record] BurstSmall = [[sample_record, sample_record]]"
    by (simp add: pack_record_groups_def TRANSPORT_BURST_SMALL_CAP_def)
  then show ?thesis
    using packing_delivers_records [of "[sample_record, sample_record]" BurstSmall] sample_chunk_ok
    by simp
qed

text \<open>The compact format is lossless up to what the frame implies: decoding the encoding of valid
  records returns all of them, in order, each with the stream, epoch and sequence number of its
  position (a new epoch starts after a \<open>Rekey\<close>) and a zero tag.\<close>

theorem compact_roundtrip:
  assumes "\<forall>r \<in> set rs. record_validate r = Ok r"
  shows "decode_compact_transport_records (encode_compact_transport_records rs) sid e s
    = Ok (renumber sid e s rs)"
  using assms by (rule decode_encode_compact)

lemma compact_roundtrip_witness:
  "decode_compact_transport_records (encode_compact_transport_records [sample_record, sample_record]) 7 0 3
     = Ok [sample_record \<lparr>rec_auth_tag := replicate 16 0\<rparr>,
           place_record 7 0 4 sample_record]"
  using compact_roundtrip [of "[sample_record, sample_record]" 7 0 3] sample_record_validates
  by (simp add: next_position_def) (simp add: place_record_def sample_record_def)

text \<open>A protected frame is canonical: \<open>decode_protected_transport_frame\<close> returns header, ciphertext and
  tag if and only if the bytes are their encoding, the header's length is the ciphertext's and the
  tag has 16 bytes; no other byte string is accepted.\<close>

theorem frame_bytes_canonical:
  "decode_protected_transport_frame bs = Ok (h, c, t) \<longleftrightarrow>
    bs = encode_protected_transport_frame h c t
    \<and> length c = unat (fh_payload_len h) \<and> length t = 16"
  using frame_codec.dec_iff [of bs "(h, c, t)"] by (auto simp: frame_ok_def frame_encode_def)

end
