(* ===== verification/Pulzz_Channel.thy ===== *)
theory Pulzz_Channel
  imports Pulzz_Prelude
begin

text \<open>
  What the protocol expects of a protected channel, as locales over an arbitrary sender and receiver
  that share their state in lock step: what was sent arrives (\<open>lockstep_channel\<close>), a receiver that
  fails closes for good (\<open>fail_stop_channel\<close>), and a message of a kind that is sent but never accepted
  closes the receiver (\<open>guarded_channel\<close>).  Runs over message lists are defined here once.
\<close>

fun run_ops :: "('s \<Rightarrow> 'a \<Rightarrow> 's \<times> ('e + 'b)) \<Rightarrow> 's \<Rightarrow> 'a list \<Rightarrow> 's \<times> ('e + 'b list)" where
  "run_ops f s [] = (s, Ok [])"
| "run_ops f s (x # xs) =
     (case f s x of
        (s', Err e) \<Rightarrow> (s', Err e)
      | (s', Ok y) \<Rightarrow> (case run_ops f s' xs of
            (s'', Err e) \<Rightarrow> (s'', Err e)
          | (s'', Ok ys) \<Rightarrow> (s'', Ok (y # ys))))"

text \<open>A side condition that has to hold at every step of a successful run.\<close>

fun run_all :: "('s \<Rightarrow> 'a \<Rightarrow> 's \<times> ('e + 'b)) \<Rightarrow> ('s \<Rightarrow> 'a \<Rightarrow> bool) \<Rightarrow> 's \<Rightarrow> 'a list \<Rightarrow> bool" where
  "run_all f P s [] \<longleftrightarrow> True"
| "run_all f P s (x # xs) \<longleftrightarrow> P s x \<and> run_all f P (fst (f s x)) xs"

lemma run_ops_Cons_Ok:
  "run_ops f s (x # xs) = (s', Ok ys) \<longleftrightarrow>
    (\<exists>s1 y zs. f s x = (s1, Ok y) \<and> run_ops f s1 xs = (s', Ok zs) \<and> ys = y # zs)"
  by (auto split: prod.splits sum.splits)

lemma run_ops_append_Ok:
  "run_ops f s xs = (s1, Ok ys) \<Longrightarrow> run_ops f s1 zs = (s2, Ok ws) \<Longrightarrow>
    run_ops f s (xs @ zs) = (s2, Ok (ys @ ws))"
proof (induction xs arbitrary: s ys)
  case (Cons x xs)
  then obtain t y vs where "f s x = (t, Ok y)" "run_ops f t xs = (s1, Ok vs)" "ys = y # vs"
    unfolding run_ops_Cons_Ok by blast
  with Cons show ?case by simp
qed simp

lemma run_ops_length: "run_ops f s xs = (s', Ok ys) \<Longrightarrow> length ys = length xs"
proof (induction xs arbitrary: s ys)
  case Nil
  then show ?case by simp
next
  case (Cons x xs)
  then obtain s1 zs where "run_ops f s1 xs = (s', Ok zs)" and "length ys = Suc (length zs)"
    unfolding run_ops_Cons_Ok by fastforce
  with Cons.IH show ?case by simp
qed

locale lockstep_channel =
  fixes send :: "'s \<Rightarrow> 'm \<Rightarrow> 's \<times> ('e + 'w)"
    and recv :: "'s \<Rightarrow> 'w \<Rightarrow> 's \<times> ('e + 'n)"
    and carries :: "'s \<Rightarrow> 'm \<Rightarrow> bool"
    and arrives :: "'m \<Rightarrow> 'n \<Rightarrow> bool"
  assumes recv_send:
    "carries s m \<Longrightarrow> send s m = (s', Ok w) \<Longrightarrow> \<exists>n. recv s w = (s', Ok n) \<and> arrives m n"
begin

lemma recv_send_run:
  "run_all send carries s ms \<Longrightarrow> run_ops send s ms = (s', Ok ws) \<Longrightarrow>
    \<exists>ns. run_ops recv s ws = (s', Ok ns) \<and> list_all2 arrives ms ns"
proof (induction ms arbitrary: s ws)
  case Nil
  then show ?case by simp
next
  case (Cons m ms)
  from Cons.prems(2) obtain s1 w vs where w: "send s m = (s1, Ok w)"
    and vs: "run_ops send s1 ms = (s', Ok vs)" and ws: "ws = w # vs"
    unfolding run_ops_Cons_Ok by blast
  from Cons.prems(1) w have "carries s m" and rest: "run_all send carries s1 ms" by simp_all
  from recv_send [OF this(1) w] obtain n where n: "recv s w = (s1, Ok n)" "arrives m n" by blast
  from Cons.IH [OF rest vs] obtain ns where "run_ops recv s1 vs = (s', Ok ns)" "list_all2 arrives ms ns"
    by blast
  with n ws show ?case by (intro exI [of _ "n # ns"]) simp
qed

end

locale fail_stop_channel = lockstep_channel send recv carries arrives
  for send :: "'s \<Rightarrow> 'm \<Rightarrow> 's \<times> ('e + 'w)"
    and recv :: "'s \<Rightarrow> 'w \<Rightarrow> 's \<times> ('e + 'n)"
    and carries :: "'s \<Rightarrow> 'm \<Rightarrow> bool"
    and arrives :: "'m \<Rightarrow> 'n \<Rightarrow> bool" +
  fixes closed :: "'s \<Rightarrow> bool"
    and closed_error :: 'e
  assumes recv_error_closes: "recv s w = (s', Err e) \<Longrightarrow> closed s'"
    and closed_recv: "closed s \<Longrightarrow> recv s w = (s, Err closed_error)"
    and closed_send: "closed s \<Longrightarrow> send s m = (s, Err closed_error)"
begin

lemma run_error_closes: "run_ops recv s ws = (s', Err e) \<Longrightarrow> closed s'"
  by (induction ws arbitrary: s)
    (auto dest: recv_error_closes split: prod.splits sum.splits)

lemma closed_run: "closed s \<Longrightarrow> run_ops recv s (w # ws) = (s, Err closed_error)"
  by (simp add: closed_recv)

lemma closed_send_run: "closed s \<Longrightarrow> run_ops send s (m # ms) = (s, Err closed_error)"
  by (simp add: closed_send)

lemma error_is_final:
  "run_ops recv s ws = (s', Err e) \<Longrightarrow>
    recv s' w = (s', Err closed_error) \<and> send s' m = (s', Err closed_error)"
  using run_error_closes closed_recv closed_send by blast

end

locale guarded_channel = fail_stop_channel send recv carries arrives closed closed_error
  for send :: "'s \<Rightarrow> 'm \<Rightarrow> 's \<times> ('e + 'w)"
    and recv :: "'s \<Rightarrow> 'w \<Rightarrow> 's \<times> ('e + 'n)"
    and carries :: "'s \<Rightarrow> 'm \<Rightarrow> bool"
    and arrives :: "'m \<Rightarrow> 'n \<Rightarrow> bool"
    and closed :: "'s \<Rightarrow> bool"
    and closed_error :: 'e +
  fixes excluded :: "'s \<Rightarrow> 'm \<Rightarrow> bool"
    and refusal :: "'e \<Rightarrow> bool"
  assumes recv_excluded:
    "excluded s m \<Longrightarrow> send s m = (s', Ok w) \<Longrightarrow> \<exists>t e. recv s w = (t, Err e) \<and> refusal e"
begin

text \<open>A run either arrives as a whole, or up to its first excluded message, which closes the receiver.\<close>

lemma guarded_run:
  "run_all send (\<lambda>s m. carries s m \<or> excluded s m) s ms \<Longrightarrow> run_ops send s ms = (s', Ok ws) \<Longrightarrow>
    run_all send carries s ms \<and> (\<exists>ns. run_ops recv s ws = (s', Ok ns) \<and> list_all2 arrives ms ns)
    \<or> (\<exists>k<length ms. run_all send carries s (take k ms)
        \<and> (\<exists>t ns. run_ops send s (take k ms) = (t, Ok (take k ws)) \<and> excluded t (ms ! k)
            \<and> run_ops recv s (take k ws) = (t, Ok ns) \<and> list_all2 arrives (take k ms) ns)
        \<and> (\<exists>q e. run_ops recv s ws = (q, Err e) \<and> closed q \<and> refusal e))"
proof (induction ms arbitrary: s ws)
  case Nil
  then show ?case by simp
next
  case (Cons m ms)
  from Cons.prems(2) obtain s1 w vs where w: "send s m = (s1, Ok w)"
    and vs: "run_ops send s1 ms = (s', Ok vs)" and ws: "ws = w # vs"
    unfolding run_ops_Cons_Ok by blast
  from Cons.prems(1) w have here: "carries s m \<or> excluded s m"
    and rest: "run_all send (\<lambda>s m. carries s m \<or> excluded s m) s1 ms" by simp_all
  show ?case
  proof (cases "carries s m")
    case True
    from recv_send [OF this w] obtain n where n: "recv s w = (s1, Ok n)" "arrives m n" by blast
    from Cons.IH [OF rest vs] show ?thesis
    proof (elim disjE exE conjE)
      fix ns
      assume "run_all send carries s1 ms" "run_ops recv s1 vs = (s', Ok ns)" "list_all2 arrives ms ns"
      with n ws w True show ?thesis by (intro disjI1) auto
    next
      fix k t ns q e
      assume "k < length ms" "run_all send carries s1 (take k ms)" "run_ops send s1 (take k ms) = (t, Ok (take k vs))"
        "excluded t (ms ! k)" "run_ops recv s1 (take k vs) = (t, Ok ns)" "list_all2 arrives (take k ms) ns"
        "run_ops recv s1 vs = (q, Err e)" "closed q" "refusal e"
      with n ws w True show ?thesis by (intro disjI2 exI [of _ "Suc k"]) simp
    qed
  next
    case False
    with here have ex: "excluded s m" by blast
    from recv_excluded [OF this w] obtain t e where "recv s w = (t, Err e)" "refusal e" by blast
    with ex ws recv_error_closes show ?thesis by (intro disjI2 exI [of _ 0]) auto
  qed
qed

end

end
