(* ===== verification/Pulzz_Protection.thy ===== *)
theory Pulzz_Protection
  imports Pulzz_Transport Pulzz_Channel
begin

text \<open>
  Stream protection (\<open>shared_protocol/src/protection.rs\<close>): the per-stream ratchet that seals and opens
  records and transport frames, rekeying, and the bootstrap of a pair of protectors.  HKDF, the AEAD
  cipher, X25519 and ML-KEM are parameters (\<open>crypto\<close>, \<open>kex\<close>); random bytes are arguments.  A method that
  takes \<open>&mut self\<close> returns the new state next to its result.
\<close>

section \<open>Profiles and directions\<close>

definition ROOT_LEN :: nat where "ROOT_LEN = 32"
definition NONCE_LEN :: nat where "NONCE_LEN = 12"

datatype ProtectionProfileKind =
  ClassicRef1 | PqSimpleV1 | PqSimpleDgramV1 | PqMutualV1 | PqMutualDgramV1

fun profile_slug :: "ProtectionProfileKind \<Rightarrow> string" where
  "profile_slug ClassicRef1 = ''classic_ref1''"
| "profile_slug PqSimpleV1 = ''pq_simple_v1''"
| "profile_slug PqSimpleDgramV1 = ''pq_simple_dgram_v1''"
| "profile_slug PqMutualV1 = ''pq_mutual_v1''"
| "profile_slug PqMutualDgramV1 = ''pq_mutual_dgram_v1''"

definition is_simple_family :: "ProtectionProfileKind \<Rightarrow> bool" where
  "is_simple_family k \<longleftrightarrow> k \<in> {PqSimpleV1, PqSimpleDgramV1}"

definition is_mutual_family :: "ProtectionProfileKind \<Rightarrow> bool" where
  "is_mutual_family k \<longleftrightarrow> k \<in> {PqMutualV1, PqMutualDgramV1}"

definition is_datagram_family :: "ProtectionProfileKind \<Rightarrow> bool" where
  "is_datagram_family k \<longleftrightarrow> k \<in> {PqSimpleDgramV1, PqMutualDgramV1}"

fun canonical_stream_profile :: "ProtectionProfileKind \<Rightarrow> ProtectionProfileKind" where
  "canonical_stream_profile PqSimpleDgramV1 = PqSimpleV1"
| "canonical_stream_profile PqMutualDgramV1 = PqMutualV1"
| "canonical_stream_profile k = k"

fun datagram_variant :: "ProtectionProfileKind \<Rightarrow> ProtectionProfileKind" where
  "datagram_variant PqSimpleV1 = PqSimpleDgramV1"
| "datagram_variant PqSimpleDgramV1 = PqSimpleDgramV1"
| "datagram_variant PqMutualV1 = PqMutualDgramV1"
| "datagram_variant PqMutualDgramV1 = PqMutualDgramV1"
| "datagram_variant ClassicRef1 = ClassicRef1"

lemma canonical_datagram_variant:
  "canonical_stream_profile (datagram_variant k) = canonical_stream_profile k"
  by (cases k) simp_all

datatype StreamDirection = ClientToServer | ServerToClient

text \<open>Byte string literals.\<close>

fun root_label :: "StreamDirection \<Rightarrow> bytes" where
  "root_label ClientToServer = ascii_bytes ''root/c2s/''"
| "root_label ServerToClient = ascii_bytes ''root/s2c/''"

fun epoch0_label :: "StreamDirection \<Rightarrow> bytes" where
  "epoch0_label ClientToServer = ascii_bytes ''root/c2s/epoch0''"
| "epoch0_label ServerToClient = ascii_bytes ''root/s2c/epoch0''"

section \<open>Errors and the rekey payload\<close>

datatype ProtectionError =
    PE_Validation ValidationError
  | PE_Wire WireError
  | UnexpectedStreamId StreamId StreamId
  | UnexpectedSeqNo SeqNo SeqNo
  | UnexpectedEpoch EpochId EpochId
  | AuthenticationFailure
  | MissingProfile
  | StreamClosed
  | InvalidRekeyPayload nat
  | InvalidClosePayload nat
  | InvalidNextEpoch EpochId EpochId
  | RekeyAlreadyPending
  | MissingPostRekeyConfirm
  | UnexpectedPostRekeyConfirm
  | EmptyTransportFrame
  | TransportFrameRecordCountMismatch u32 nat

record RekeyPayload =
  rk_next_epoch_id :: EpochId
  rk_seed :: bytes

definition rekey_encode :: "RekeyPayload \<Rightarrow> bytes" where
  "rekey_encode p = le32 (rk_next_epoch_id p) @ rk_seed p"

definition rekey_decode :: "bytes \<Rightarrow> ProtectionError + RekeyPayload" where
  "rekey_decode bs =
     (if length bs \<noteq> REKEY_PAYLOAD_LEN then Err (InvalidRekeyPayload (length bs))
      else Ok \<lparr>rk_next_epoch_id = of_le32 (take 4 bs), rk_seed = drop 4 bs\<rparr>)"

interpretation rekey_codec: canonical_codec rekey_encode rekey_decode "\<lambda>p. length (rk_seed p) = 32"
proof unfold_locales
  fix p :: RekeyPayload
  assume "length (rk_seed p) = 32"
  then show "rekey_decode (rekey_encode p) = Ok p"
    by (simp add: rekey_decode_def rekey_encode_def)
next
  fix bs p
  assume "rekey_decode bs = Ok p"
  then show "length (rk_seed p) = 32" and "rekey_encode p = bs"
    by (auto simp: rekey_decode_def rekey_encode_def le_of_le split: if_splits)
qed

section \<open>Key schedule\<close>

text \<open>
  The cryptographic libraries.  \<open>hkdf_expand prk info n\<close> and \<open>hkdf_extract salt ikm\<close> are RFC 5869 with
  SHA-256; \<open>aead_seal\<close> and \<open>aead_open\<close> are ChaCha20-Poly1305 with a detached tag, in the argument order
  key, nonce, associated data.  The code relies on \<open>crypto_ok\<close>: opening inverts sealing, the ciphertext
  is as long as the plaintext, tags have 16 bytes.
\<close>

record crypto =
  hkdf_extract :: "bytes \<Rightarrow> bytes \<Rightarrow> bytes"
  hkdf_expand :: "bytes \<Rightarrow> bytes \<Rightarrow> nat \<Rightarrow> bytes"
  aead_seal :: "bytes \<Rightarrow> bytes \<Rightarrow> bytes \<Rightarrow> bytes \<Rightarrow> (bytes \<times> bytes) option"
  aead_open :: "bytes \<Rightarrow> bytes \<Rightarrow> bytes \<Rightarrow> bytes \<Rightarrow> bytes \<Rightarrow> bytes option"

definition crypto_ok :: "crypto \<Rightarrow> bool" where
  "crypto_ok cr \<longleftrightarrow>
     (\<forall>key nonce aad p c t. aead_seal cr key nonce aad p = Some (c, t) \<longrightarrow>
        aead_open cr key nonce aad c t = Some p \<and> length c = length p \<and> length t = 16)"

lemma crypto_okD:
  assumes "crypto_ok cr" and "aead_seal cr key nonce aad p = Some (c, t)"
  shows "aead_open cr key nonce aad c t = Some p" "length c = length p" "length t = 16"
  using assms unfolding crypto_ok_def by blast+

record RecordMaterial =
  rm_key :: bytes
  rm_nonce :: bytes
  rm_next_root :: bytes

definition derive_record_material :: "crypto \<Rightarrow> bytes \<Rightarrow> EpochId \<Rightarrow> SeqNo \<Rightarrow> RecordMaterial" where
  "derive_record_material cr root epoch_id seq_no =
     \<lparr>rm_key = hkdf_expand cr root (concat [ascii_bytes ''key'', le32 epoch_id, le64 seq_no]) ROOT_LEN,
      rm_nonce = hkdf_expand cr root (concat [ascii_bytes ''nonce'', le32 epoch_id, le64 seq_no]) NONCE_LEN,
      rm_next_root = hkdf_expand cr root (concat [ascii_bytes ''next'', le32 epoch_id, le64 seq_no]) ROOT_LEN\<rparr>"

record FrameMaterial =
  fm_key :: bytes
  fm_nonce :: bytes

definition derive_frame_material :: "crypto \<Rightarrow> bytes \<Rightarrow> EpochId \<Rightarrow> SeqNo \<Rightarrow> u32 \<Rightarrow> FrameMaterial" where
  "derive_frame_material cr root epoch_id seq_no record_count =
     \<lparr>fm_key = hkdf_expand cr root
        (concat [ascii_bytes ''frame/key'', le32 epoch_id, le64 seq_no, le32 record_count]) ROOT_LEN,
      fm_nonce = hkdf_expand cr root
        (concat [ascii_bytes ''frame/nonce'', le32 epoch_id, le64 seq_no, le32 record_count]) NONCE_LEN\<rparr>"

definition derive_rekey_root ::
  "crypto \<Rightarrow> StreamDirection \<Rightarrow> bytes \<Rightarrow> EpochId \<Rightarrow> EpochId \<Rightarrow> bytes \<Rightarrow> bytes" where
  "derive_rekey_root cr direction current_root current_epoch_id next_epoch_id rekey_seed =
     (let salt = concat [ascii_bytes ''rekey'', le32 current_epoch_id];
          ikm = concat [current_root, rekey_seed];
          info = concat [root_label direction, le32 next_epoch_id] in
      hkdf_expand cr (hkdf_extract cr salt ikm) info ROOT_LEN)"

definition derive_epoch0_root :: "crypto \<Rightarrow> StreamDirection \<Rightarrow> StreamId \<Rightarrow> bytes \<Rightarrow> bytes" where
  "derive_epoch0_root cr direction stream_id shared_secret =
     hkdf_expand cr (hkdf_extract cr (concat [ascii_bytes ''pulzz-v1'', le64 stream_id]) shared_secret)
       (epoch0_label direction) ROOT_LEN"

definition seal_payload ::
  "crypto \<Rightarrow> bytes \<Rightarrow> bytes \<Rightarrow> bytes \<Rightarrow> bytes \<Rightarrow> unit + bytes \<times> bytes" where
  "seal_payload cr plaintext key nonce aad = ok_or () (aead_seal cr key nonce aad plaintext)"

definition open_payload ::
  "crypto \<Rightarrow> bytes \<Rightarrow> bytes \<Rightarrow> bytes \<Rightarrow> bytes \<Rightarrow> bytes \<Rightarrow> unit + bytes" where
  "open_payload cr ciphertext auth_tag key nonce aad = ok_or () (aead_open cr key nonce aad ciphertext auth_tag)"

section \<open>The protector\<close>

record PendingRekey =
  pr_next_epoch_id :: EpochId
  pr_next_root :: bytes

record StreamProtector =
  sp_kind :: ProtectionProfileKind
  sp_stream_id :: StreamId
  sp_direction :: StreamDirection
  sp_stream_state :: StreamState
  sp_current_epoch_id :: EpochId
  sp_next_seq_no :: SeqNo
  sp_current_root :: bytes
  sp_pending_rekey :: "PendingRekey option"

definition protector_new ::
  "ProtectionProfileKind \<Rightarrow> StreamId \<Rightarrow> StreamDirection \<Rightarrow> bytes \<Rightarrow> StreamProtector" where
  "protector_new kind stream_id direction current_root =
     \<lparr>sp_kind = kind, sp_stream_id = stream_id, sp_direction = direction, sp_stream_state = Opening,
      sp_current_epoch_id = 0, sp_next_seq_no = 0, sp_current_root = current_root,
      sp_pending_rekey = None\<rparr>"

definition expected_epoch_id :: "StreamProtector \<Rightarrow> EpochId" where
  "expected_epoch_id sp =
     (case sp_pending_rekey sp of Some pending \<Rightarrow> pr_next_epoch_id pending | None \<Rightarrow> sp_current_epoch_id sp)"

definition expected_seq_no :: "StreamProtector \<Rightarrow> SeqNo" where
  "expected_seq_no sp = (if sp_pending_rekey sp \<noteq> None then 0 else sp_next_seq_no sp)"

definition post_rekey_confirm_required :: "StreamProtector \<Rightarrow> bool" where
  "post_rekey_confirm_required sp \<longleftrightarrow> sp_pending_rekey sp \<noteq> None"

definition make_rekey_payload :: "StreamProtector \<Rightarrow> bytes \<Rightarrow> RekeyPayload" where
  "make_rekey_payload sp rng_bytes =
     \<lparr>rk_next_epoch_id = sp_current_epoch_id sp + 1, rk_seed = rng_bytes\<rparr>"

definition prepare_record_for_epoch :: "StreamProtector \<Rightarrow> Record \<Rightarrow> ProtectionError + Record" where
  "prepare_record_for_epoch sp r =
     (let h = rec_header r in
      if rh_stream_id h \<noteq> sp_stream_id sp
      then Err (UnexpectedStreamId (sp_stream_id sp) (rh_stream_id h))
      else and_then
        (if sp_pending_rekey sp \<noteq> None then
           (if \<not> flags_contains (rh_flags h) POST_REKEY_CONFIRM
            then Ok (r \<lparr>rec_header := h \<lparr>rh_flags := flags_insert (rh_flags h) POST_REKEY_CONFIRM\<rparr>\<rparr>)
            else Ok r)
         else if flags_contains (rh_flags h) POST_REKEY_CONFIRM then Err UnexpectedPostRekeyConfirm
         else Ok r)
        (\<lambda>r. let h = rec_header r in
          if rh_epoch_id h \<noteq> expected_epoch_id sp
          then Err (UnexpectedEpoch (expected_epoch_id sp) (rh_epoch_id h))
          else if rh_seq_no h \<noteq> expected_seq_no sp
          then Err (UnexpectedSeqNo (expected_seq_no sp) (rh_seq_no h))
          else Ok r))"

definition active_root_for :: "StreamProtector \<Rightarrow> RecordHeader \<Rightarrow> ProtectionError + bytes" where
  "active_root_for sp h =
     (if rh_stream_id h \<noteq> sp_stream_id sp
      then Err (UnexpectedStreamId (sp_stream_id sp) (rh_stream_id h))
      else case sp_pending_rekey sp of
        Some pending \<Rightarrow>
          if \<not> flags_contains (rh_flags h) POST_REKEY_CONFIRM then Err MissingPostRekeyConfirm
          else if rh_epoch_id h \<noteq> pr_next_epoch_id pending
          then Err (UnexpectedEpoch (pr_next_epoch_id pending) (rh_epoch_id h))
          else if rh_seq_no h \<noteq> 0 then Err (UnexpectedSeqNo 0 (rh_seq_no h))
          else Ok (pr_next_root pending)
      | None \<Rightarrow>
          if flags_contains (rh_flags h) POST_REKEY_CONFIRM then Err UnexpectedPostRekeyConfirm
          else if rh_epoch_id h \<noteq> sp_current_epoch_id sp
          then Err (UnexpectedEpoch (sp_current_epoch_id sp) (rh_epoch_id h))
          else if rh_seq_no h \<noteq> sp_next_seq_no sp
          then Err (UnexpectedSeqNo (sp_next_seq_no sp) (rh_seq_no h))
          else Ok (sp_current_root sp))"

definition active_root_for_transport_frame ::
  "StreamProtector \<Rightarrow> ProtectedTransportFrameHeader \<Rightarrow> ProtectionError + bytes" where
  "active_root_for_transport_frame sp h =
     (if fh_record_count h = 0 then Err EmptyTransportFrame
      else case sp_pending_rekey sp of
        Some pending \<Rightarrow>
          if fh_epoch_id h \<noteq> pr_next_epoch_id pending
          then Err (UnexpectedEpoch (pr_next_epoch_id pending) (fh_epoch_id h))
          else if fh_seq_no h \<noteq> 0 then Err (UnexpectedSeqNo 0 (fh_seq_no h))
          else Ok (pr_next_root pending)
      | None \<Rightarrow>
          if fh_epoch_id h \<noteq> sp_current_epoch_id sp
          then Err (UnexpectedEpoch (sp_current_epoch_id sp) (fh_epoch_id h))
          else if fh_seq_no h \<noteq> sp_next_seq_no sp
          then Err (UnexpectedSeqNo (sp_next_seq_no sp) (fh_seq_no h))
          else Ok (sp_current_root sp))"

definition install_rekey ::
  "crypto \<Rightarrow> StreamProtector \<Rightarrow> EpochId \<Rightarrow> bytes \<Rightarrow> StreamProtector \<times> (ProtectionError + unit)" where
  "install_rekey cr sp current_epoch_id plaintext =
     (if sp_pending_rekey sp \<noteq> None then (sp, Err RekeyAlreadyPending)
      else case rekey_decode plaintext of
        Err e \<Rightarrow> (sp, Err e)
      | Ok payload \<Rightarrow>
          if rk_next_epoch_id payload \<noteq> current_epoch_id + 1
          then (sp, Err (InvalidNextEpoch current_epoch_id (rk_next_epoch_id payload)))
          else let next_root = derive_rekey_root cr (sp_direction sp) (sp_current_root sp)
                     current_epoch_id (rk_next_epoch_id payload) (rk_seed payload) in
            (sp \<lparr>sp_pending_rekey := Some \<lparr>pr_next_epoch_id = rk_next_epoch_id payload,
                                           pr_next_root = next_root\<rparr>,
                 sp_stream_state := RekeyPending (rk_next_epoch_id payload)\<rparr>, Ok ()))"

text \<open>The first half of \<open>finish_success\<close>: the ratchet moves past the record.\<close>

definition advance :: "StreamProtector \<Rightarrow> RecordHeader \<Rightarrow> bytes \<Rightarrow> StreamProtector" where
  "advance sp h next_root =
     (case sp_pending_rekey sp of
        Some pending \<Rightarrow>
          sp \<lparr>sp_pending_rekey := None, sp_current_epoch_id := pr_next_epoch_id pending,
             sp_current_root := next_root, sp_next_seq_no := rh_seq_no h + 1,
             sp_stream_state := Established\<rparr>
      | None \<Rightarrow>
          sp \<lparr>sp_current_root := next_root, sp_next_seq_no := rh_seq_no h + 1,
             sp_stream_state :=
               (if sp_stream_state sp \<noteq> Closed then Established else sp_stream_state sp)\<rparr>)"

definition finish_success ::
  "crypto \<Rightarrow> StreamProtector \<Rightarrow> RecordHeader \<Rightarrow> bytes \<Rightarrow> bytes \<Rightarrow> StreamProtector \<times> (ProtectionError + unit)"
where
  "finish_success cr sp h plaintext next_root =
     (let sp1 = advance sp h next_root in
      case rh_record_type h of
        Rekey \<Rightarrow> install_rekey cr sp1 (sp_current_epoch_id sp1) plaintext
      | Close \<Rightarrow>
          if \<not> (plaintext = [] \<or> length plaintext = CLOSE_CODE_LEN)
          then (sp1, Err (InvalidClosePayload (length plaintext)))
          else (sp1 \<lparr>sp_stream_state := Closed\<rparr>, Ok ())
      | _ \<Rightarrow> (sp1, Ok ()))"

definition fail :: "StreamProtector \<Rightarrow> ProtectionError \<Rightarrow> StreamProtector \<times> (ProtectionError + 'a)" where
  "fail sp e = (sp \<lparr>sp_pending_rekey := None, sp_stream_state := Closed\<rparr>, Err e)"

section \<open>Records\<close>

text \<open>The part of \<open>protect_record\<close> before the state changes: prepared record, ciphertext, tag, next root.\<close>

definition seal_record ::
  "crypto \<Rightarrow> StreamProtector \<Rightarrow> Record \<Rightarrow> ProtectionError + Record \<times> bytes \<times> bytes \<times> bytes" where
  "seal_record cr sp r =
     and_then (map_err PE_Validation (record_validate r)) (\<lambda>r.
     and_then (prepare_record_for_epoch sp r) (\<lambda>r.
     and_then (active_root_for sp (rec_header r)) (\<lambda>active_root.
       let h = rec_header r;
           material = derive_record_material cr active_root (rh_epoch_id h) (rh_seq_no h) in
       and_then (map_err (\<lambda>_. AuthenticationFailure)
           (seal_payload cr (rec_payload r) (rm_key material) (rm_nonce material) (aad_bytes h)))
         (\<lambda>(ciphertext, auth_tag). Ok (r, ciphertext, auth_tag, rm_next_root material)))))"

definition protect_record ::
  "crypto \<Rightarrow> StreamProtector \<Rightarrow> Record \<Rightarrow> StreamProtector \<times> (ProtectionError + Record)" where
  "protect_record cr sp r =
     (if sp_stream_state sp = Closed then (sp, Err StreamClosed)
      else case seal_record cr sp r of
        Err e \<Rightarrow> (sp, Err e)
      | Ok (r, ciphertext, auth_tag, next_root) \<Rightarrow>
          let protected = \<lparr>rec_header = rec_header r, rec_payload = ciphertext, rec_auth_tag = auth_tag\<rparr> in
          (case finish_success cr sp (rec_header protected) (rec_payload r) next_root of
             (sp', Err e) \<Rightarrow> (sp', Err e)
           | (sp', Ok _) \<Rightarrow> (sp', Ok protected)))"

definition open_record ::
  "crypto \<Rightarrow> StreamProtector \<Rightarrow> Record \<Rightarrow> ProtectionError + Record \<times> bytes" where
  "open_record cr sp r =
     and_then (map_err PE_Validation (record_validate r)) (\<lambda>r.
     and_then (active_root_for sp (rec_header r)) (\<lambda>active_root.
       let h = rec_header r;
           material = derive_record_material cr active_root (rh_epoch_id h) (rh_seq_no h) in
       and_then (map_err (\<lambda>_. AuthenticationFailure)
           (open_payload cr (rec_payload r) (rec_auth_tag r) (rm_key material) (rm_nonce material)
              (aad_bytes h)))
         (\<lambda>plaintext.
            Ok (\<lparr>rec_header = h, rec_payload = plaintext, rec_auth_tag = rec_auth_tag r\<rparr>,
                rm_next_root material))))"

definition unprotect_record ::
  "crypto \<Rightarrow> StreamProtector \<Rightarrow> Record \<Rightarrow> StreamProtector \<times> (ProtectionError + Record)" where
  "unprotect_record cr sp r =
     (if sp_stream_state sp = Closed then (sp, Err StreamClosed)
      else case open_record cr sp r of
        Err e \<Rightarrow> fail sp e
      | Ok (unprotected, next_root) \<Rightarrow>
          (case finish_success cr sp (rec_header unprotected) (rec_payload unprotected) next_root of
             (sp', Err e) \<Rightarrow> fail sp' e
           | (sp', Ok _) \<Rightarrow> (sp', Ok unprotected)))"

section \<open>Transport frames\<close>

text \<open>
  The loop of \<open>protect_transport_records\<close> over the working copy: the prepared records and, once there
  is a first record, the frame's root and position.
\<close>

type_synonym protect_loop_state = "StreamProtector \<times> Record list \<times> (bytes \<times> EpochId \<times> SeqNo) option"

definition protect_loop_step ::
  "crypto \<Rightarrow> protect_loop_state \<Rightarrow> Record \<Rightarrow> ProtectionError + protect_loop_state" where
  "protect_loop_step cr = (\<lambda>(working, prepared, frame) r.
     and_then (map_err PE_Validation (record_validate r)) (\<lambda>r.
     and_then (prepare_record_for_epoch working r) (\<lambda>r.
     and_then (active_root_for working (rec_header r)) (\<lambda>active_root.
       let h = rec_header r;
           frame = (case frame of
               None \<Rightarrow> Some (active_root, rh_epoch_id h, rh_seq_no h)
             | Some f \<Rightarrow> Some f);
           material = derive_record_material cr active_root (rh_epoch_id h) (rh_seq_no h) in
       case finish_success cr working h (rec_payload r) (rm_next_root material) of
         (_, Err e) \<Rightarrow> Err e
       | (working, Ok _) \<Rightarrow> Ok (working, prepared @ [r], frame)))))"

fun protect_loop ::
  "crypto \<Rightarrow> protect_loop_state \<Rightarrow> Record list \<Rightarrow> ProtectionError + protect_loop_state" where
  "protect_loop cr st [] = Ok st"
| "protect_loop cr st (r # rs) = and_then (protect_loop_step cr st r) (\<lambda>st'. protect_loop cr st' rs)"

definition protect_transport_records ::
  "crypto \<Rightarrow> StreamProtector \<Rightarrow> Record list \<Rightarrow> StreamProtector \<times> (ProtectionError + bytes)" where
  "protect_transport_records cr sp records =
     (if sp_stream_state sp = Closed then (sp, Err StreamClosed)
      else case protect_loop cr (sp, [], None) records of
        Err e \<Rightarrow> (sp, Err e)
      | Ok (working, prepared, None) \<Rightarrow> (sp, Err EmptyTransportFrame)
      | Ok (working, prepared, Some (frame_root, epoch_id, seq_no)) \<Rightarrow>
          let payload = encode_compact_transport_records prepared;
              header = \<lparr>fh_epoch_id = epoch_id, fh_seq_no = seq_no,
                        fh_record_count = of_nat (length prepared),
                        fh_payload_len = of_nat (length payload)\<rparr>;
              material = derive_frame_material cr frame_root epoch_id seq_no (fh_record_count header) in
          case seal_payload cr payload (fm_key material) (fm_nonce material) (frame_aad_bytes header) of
            Err _ \<Rightarrow> (sp, Err AuthenticationFailure)
          | Ok (ciphertext, auth_tag) \<Rightarrow>
              (working, Ok (encode_protected_transport_frame header ciphertext auth_tag)))"

text \<open>What \<open>unprotect_transport_frame\<close> does before the records are replayed on the working copy.\<close>

definition open_frame ::
  "crypto \<Rightarrow> StreamProtector \<Rightarrow> bytes \<Rightarrow> ProtectionError + Record list" where
  "open_frame cr sp frame =
     and_then (map_err PE_Wire (decode_protected_transport_frame frame)) (\<lambda>(header, ciphertext, auth_tag).
     and_then (active_root_for_transport_frame sp header) (\<lambda>frame_root.
       let material = derive_frame_material cr frame_root (fh_epoch_id header) (fh_seq_no header)
             (fh_record_count header) in
       and_then (map_err (\<lambda>_. AuthenticationFailure)
           (open_payload cr ciphertext auth_tag (fm_key material) (fm_nonce material)
              (frame_aad_bytes header))) (\<lambda>plaintext.
       and_then (map_err PE_Wire (decode_compact_transport_records plaintext (sp_stream_id sp)
           (fh_epoch_id header) (fh_seq_no header))) (\<lambda>records.
         if length records \<noteq> unat (fh_record_count header)
         then Err (TransportFrameRecordCountMismatch (fh_record_count header) (length records))
         else Ok records))))"

definition unprotect_loop_step ::
  "crypto \<Rightarrow> StreamProtector \<Rightarrow> Record \<Rightarrow> ProtectionError + StreamProtector \<times> Record" where
  "unprotect_loop_step cr working r =
     and_then (map_err PE_Validation (record_validate r)) (\<lambda>r.
     and_then (active_root_for working (rec_header r)) (\<lambda>active_root.
       let h = rec_header r;
           material = derive_record_material cr active_root (rh_epoch_id h) (rh_seq_no h) in
       case finish_success cr working h (rec_payload r) (rm_next_root material) of
         (_, Err e) \<Rightarrow> Err e
       | (working, Ok _) \<Rightarrow> Ok (working, r)))"

fun unprotect_loop ::
  "crypto \<Rightarrow> StreamProtector \<Rightarrow> Record list \<Rightarrow> ProtectionError + StreamProtector \<times> Record list" where
  "unprotect_loop cr working [] = Ok (working, [])"
| "unprotect_loop cr working (r # rs) =
     and_then (unprotect_loop_step cr working r) (\<lambda>(working, r).
     and_then (unprotect_loop cr working rs) (\<lambda>(working, out). Ok (working, r # out)))"

definition unprotect_transport_frame ::
  "crypto \<Rightarrow> StreamProtector \<Rightarrow> bytes \<Rightarrow> StreamProtector \<times> (ProtectionError + Record list)" where
  "unprotect_transport_frame cr sp frame =
     (if sp_stream_state sp = Closed then (sp, Err StreamClosed)
      else case and_then (open_frame cr sp frame) (unprotect_loop cr sp) of
        Err e \<Rightarrow> fail sp e
      | Ok (working, output) \<Rightarrow> (working, Ok output))"

section \<open>Bootstrap of a pair\<close>

text \<open>
  X25519 and ML-KEM: \<open>dh secret public\<close>, \<open>dh_public secret\<close>; \<open>kem_keygen seed\<close> gives the decapsulation
  and the encapsulation key.  An \<open>assert_eq!\<close> that fails is \<open>None\<close>.
\<close>

record kex =
  dh_public :: "bytes \<Rightarrow> bytes"
  dh :: "bytes \<Rightarrow> bytes \<Rightarrow> bytes"
  kem_keygen :: "bytes \<Rightarrow> bytes \<times> bytes"
  kem_encapsulate :: "bytes \<Rightarrow> bytes \<Rightarrow> bytes \<times> bytes"
  kem_decapsulate :: "bytes \<Rightarrow> bytes \<Rightarrow> bytes"

definition classic_ref1_pair_from_static_secrets ::
  "crypto \<Rightarrow> kex \<Rightarrow> StreamId \<Rightarrow> StreamDirection \<Rightarrow> bytes \<Rightarrow> bytes
     \<Rightarrow> (StreamProtector \<times> StreamProtector) option" where
  "classic_ref1_pair_from_static_secrets cr kx stream_id direction client_secret server_secret =
     (let client_shared = dh kx client_secret (dh_public kx server_secret);
          server_shared = dh kx server_secret (dh_public kx client_secret) in
      if client_shared \<noteq> server_shared then None
      else let root = derive_epoch0_root cr direction stream_id client_shared in
        Some (protector_new ClassicRef1 stream_id direction root,
              protector_new ClassicRef1 stream_id direction root))"

definition pq_simple_v1_pair_from_rng ::
  "crypto \<Rightarrow> kex \<Rightarrow> StreamId \<Rightarrow> StreamDirection \<Rightarrow> bytes \<Rightarrow> bytes
     \<Rightarrow> (StreamProtector \<times> StreamProtector) option" where
  "pq_simple_v1_pair_from_rng cr kx stream_id direction seed sender_message =
     (let (decapsulation_key, encapsulation_key) = kem_keygen kx seed;
          (ciphertext, sender_shared) = kem_encapsulate kx encapsulation_key sender_message;
          receiver_shared = kem_decapsulate kx decapsulation_key ciphertext in
      if sender_shared \<noteq> receiver_shared then None
      else let root = derive_epoch0_root cr direction stream_id sender_shared in
        Some (protector_new PqSimpleV1 stream_id direction root,
              protector_new PqSimpleV1 stream_id direction root))"

section \<open>Positions\<close>

text \<open>Which header the protector accepts next, and the root it uses for it.\<close>

definition active_root :: "StreamProtector \<Rightarrow> bytes" where
  "active_root sp =
     (case sp_pending_rekey sp of Some pending \<Rightarrow> pr_next_root pending | None \<Rightarrow> sp_current_root sp)"

definition pending :: "StreamProtector \<Rightarrow> bool" where
  "pending sp \<longleftrightarrow> sp_pending_rekey sp \<noteq> None"

lemma active_root_for_iff:
  "active_root_for sp h = Ok root \<longleftrightarrow>
    rh_stream_id h = sp_stream_id sp \<and> (2 \<in> flag_set (rh_flags h) \<longleftrightarrow> pending sp)
    \<and> rh_epoch_id h = expected_epoch_id sp \<and> rh_seq_no h = expected_seq_no sp \<and> root = active_root sp"
  by (auto simp: active_root_for_def pending_def expected_epoch_id_def expected_seq_no_def
      active_root_def flags_contains_iff split: option.splits)

lemma active_root_for_frame_iff:
  "active_root_for_transport_frame sp h = Ok root \<longleftrightarrow>
    fh_record_count h \<noteq> 0 \<and> fh_epoch_id h = expected_epoch_id sp \<and> fh_seq_no h = expected_seq_no sp
    \<and> root = active_root sp"
  by (auto simp: active_root_for_transport_frame_def expected_epoch_id_def expected_seq_no_def
      active_root_def split: option.splits)

text \<open>What \<open>prepare_record_for_epoch\<close> does to a record: it marks the first one of a new epoch.\<close>

definition confirm :: "bool \<Rightarrow> Record \<Rightarrow> Record" where
  "confirm p r =
     (if p then r \<lparr>rec_header := rec_header r
            \<lparr>rh_flags := flags_insert (rh_flags (rec_header r)) POST_REKEY_CONFIRM\<rparr>\<rparr>
      else r)"

lemma confirm_sel [simp]:
  "rec_payload (confirm p r) = rec_payload r" "rec_auth_tag (confirm p r) = rec_auth_tag r"
  "rh_record_type (rec_header (confirm p r)) = rh_record_type (rec_header r)"
  "rh_epoch_id (rec_header (confirm p r)) = rh_epoch_id (rec_header r)"
  "rh_seq_no (rec_header (confirm p r)) = rh_seq_no (rec_header r)"
  "rh_stream_id (rec_header (confirm p r)) = rh_stream_id (rec_header r)"
  "rh_payload_len (rec_header (confirm p r)) = rh_payload_len (rec_header r)"
  "rh_version (rec_header (confirm p r)) = rh_version (rec_header r)"
  "rh_item_id (rec_header (confirm p r)) = rh_item_id (rec_header r)"
  "rh_codec_mode (rec_header (confirm p r)) = rh_codec_mode (rec_header r)"
  by (simp_all add: confirm_def)

lemma confirm_flags:
  "flag_set (rh_flags (rec_header (confirm p r))) =
    flag_set (rh_flags (rec_header r)) \<union> (if p then {2} else {})"
  by (simp add: confirm_def)

lemma confirm_idem: "2 \<in> flag_set (rh_flags (rec_header r)) \<Longrightarrow> confirm p r = r"
proof (cases p)
  case True
  assume "2 \<in> flag_set (rh_flags (rec_header r))"
  then have "flags_insert (rh_flags (rec_header r)) POST_REKEY_CONFIRM = rh_flags (rec_header r)"
    by (intro flag_set_inject) auto
  with True show ?thesis by (cases r) (simp add: confirm_def)
qed (simp add: confirm_def)

lemma prepare_iff:
  "prepare_record_for_epoch sp r = Ok r' \<longleftrightarrow>
    r' = confirm (pending sp) r \<and> rh_stream_id (rec_header r) = sp_stream_id sp
    \<and> (2 \<in> flag_set (rh_flags (rec_header r)) \<longrightarrow> pending sp)
    \<and> rh_epoch_id (rec_header r) = expected_epoch_id sp \<and> rh_seq_no (rec_header r) = expected_seq_no sp"
proof (cases "2 \<in> flag_set (rh_flags (rec_header r))")
  case True
  then show ?thesis
    by (auto simp: prepare_record_for_epoch_def Let_def flags_contains_iff pending_def confirm_idem)
next
  case False
  then show ?thesis
    by (auto simp: prepare_record_for_epoch_def Let_def flags_contains_iff pending_def confirm_def)
qed

lemma prepare_active:
  "prepare_record_for_epoch sp r = Ok r' \<Longrightarrow> active_root_for sp (rec_header r') = Ok (active_root sp)"
  unfolding prepare_iff active_root_for_iff by (auto simp: confirm_flags)

text \<open>
  A marked record stays valid unless its type admits no flags: \<open>SourceMeta\<close> and \<open>Repair\<close>.
\<close>

definition confirmable :: "bool \<Rightarrow> Record \<Rightarrow> bool" where
  "confirmable p r \<longleftrightarrow> \<not> p \<or> rh_record_type (rec_header r) \<notin> {SourceMeta, Repair}"

lemma header_contract_confirm:
  assumes "header_contract (rec_header r)" and "confirmable p r"
  shows "header_contract (rec_header (confirm p r))"
proof (cases p)
  case True
  have "({2} \<union> flag_set f) \<inter> {0, 1} = flag_set f \<inter> {0, 1}" for f by auto
  with True assms show ?thesis
    unfolding header_contract_def type_contract_def cache_op_contract_def confirmable_def Let_def
    by (cases "rh_record_type (rec_header r)") (simp_all add: confirm_flags)
qed (use assms in \<open>simp add: confirm_def\<close>)

lemma record_validate_confirm:
  "record_validate r = Ok r \<Longrightarrow> confirmable p r \<Longrightarrow> record_validate (confirm p r) = Ok (confirm p r)"
  by (simp add: record_validate_Inr_iff header_validate_iff header_contract_confirm)

section \<open>Records arrive\<close>

definition arrives :: "Record \<Rightarrow> Record \<Rightarrow> bool" where
  "arrives m n \<longleftrightarrow> rec_payload n = rec_payload m \<and> (\<exists>p. rec_header n = rec_header (confirm p m))"

lemma advance_sel [simp]:
  "sp_pending_rekey (advance sp h nr) = None"
  "sp_current_epoch_id (advance sp h nr) = expected_epoch_id sp"
  "sp_next_seq_no (advance sp h nr) = rh_seq_no h + 1"
  "sp_current_root (advance sp h nr) = nr"
  "sp_stream_id (advance sp h nr) = sp_stream_id sp"
  "sp_direction (advance sp h nr) = sp_direction sp"
  "sp_kind (advance sp h nr) = sp_kind sp"
  by (simp_all add: advance_def expected_epoch_id_def split: option.split)

lemma install_rekey_Ok:
  assumes "install_rekey cr sp cur pt = (sp', Ok u)"
  obtains root where "sp' = sp \<lparr>sp_pending_rekey := Some \<lparr>pr_next_epoch_id = cur + 1, pr_next_root = root\<rparr>,
      sp_stream_state := RekeyPending (cur + 1)\<rparr>"
  using assms by (auto simp: install_rekey_def Let_def split: sum.splits if_splits)

lemma finish_success_cases:
  assumes "finish_success cr sp h pt nr = (sp', Ok u)"
  obtains (rekey) root where "rh_record_type h = Rekey"
      "sp' = (advance sp h nr) \<lparr>sp_pending_rekey := Some \<lparr>pr_next_epoch_id = expected_epoch_id sp + 1,
         pr_next_root = root\<rparr>, sp_stream_state := RekeyPending (expected_epoch_id sp + 1)\<rparr>"
  | (close) "rh_record_type h = Close" "sp' = (advance sp h nr) \<lparr>sp_stream_state := Closed\<rparr>"
  | (other) "rh_record_type h \<noteq> Rekey" "rh_record_type h \<noteq> Close" "sp' = advance sp h nr"
  using assms
  by (cases "rh_record_type h")
    (auto simp: finish_success_def Let_def split: if_splits elim!: install_rekey_Ok)

lemma finish_success_Ok:
  assumes "finish_success cr sp h pt nr = (sp', Ok u)"
  shows "pending sp' \<longleftrightarrow> rh_record_type h = Rekey"
    and "(expected_epoch_id sp', expected_seq_no sp') =
      next_position (rh_record_type h) (expected_epoch_id sp) (rh_seq_no h)"
    and "sp_stream_id sp' = sp_stream_id sp" and "sp_direction sp' = sp_direction sp"
    and "sp_kind sp' = sp_kind sp"
  using assms
  by (cases rule: finish_success_cases;
      simp add: pending_def expected_epoch_id_def expected_seq_no_def next_position_def)+

lemma seal_record_iff:
  "seal_record cr sp r = Ok (r1, c, t, nr) \<longleftrightarrow>
    record_validate r = Ok r \<and> prepare_record_for_epoch sp r = Ok r1
    \<and> (\<exists>m. m = derive_record_material cr (active_root sp) (rh_epoch_id (rec_header r1))
                (rh_seq_no (rec_header r1))
        \<and> aead_seal cr (rm_key m) (rm_nonce m) (aad_bytes (rec_header r1)) (rec_payload r1) = Some (c, t)
        \<and> nr = rm_next_root m)"
  by (auto simp: seal_record_def Let_def seal_payload_def record_validate_Inr_iff dest: prepare_active)

lemma protect_record_Ok:
  assumes "protect_record cr sp r = (sp', Ok p)"
  obtains c t nr where "sp_stream_state sp \<noteq> Closed"
    and "seal_record cr sp r = Ok (confirm (pending sp) r, c, t, nr)"
    and "finish_success cr sp (rec_header p) (rec_payload r) nr = (sp', Ok ())"
    and "p = \<lparr>rec_header = rec_header (confirm (pending sp) r), rec_payload = c, rec_auth_tag = t\<rparr>"
proof -
  from assms obtain r1 c t nr where open_state: "sp_stream_state sp \<noteq> Closed"
    and seal: "seal_record cr sp r = Ok (r1, c, t, nr)"
    and fin: "finish_success cr sp (rec_header r1) (rec_payload r1) nr = (sp', Ok ())"
    and p: "p = \<lparr>rec_header = rec_header r1, rec_payload = c, rec_auth_tag = t\<rparr>"
    by (auto simp: protect_record_def Let_def split: if_splits sum.splits prod.splits)
  from seal have "r1 = confirm (pending sp) r" by (auto simp: seal_record_iff prepare_iff)
  with that [OF open_state] seal fin p show thesis by simp
qed

lemma unprotect_protect:
  assumes cr: "crypto_ok cr" and ok: "confirmable (pending sp) r"
    and send: "protect_record cr sp r = (sp', Ok p)"
  shows "unprotect_record cr sp p =
    (sp', Ok ((confirm (pending sp) r) \<lparr>rec_auth_tag := rec_auth_tag p\<rparr>))"
proof -
  let ?r = "confirm (pending sp) r"
  let ?m = "derive_record_material cr (active_root sp) (rh_epoch_id (rec_header ?r))
      (rh_seq_no (rec_header ?r))"
  from send obtain c t nr where st: "sp_stream_state sp \<noteq> Closed"
    and seal: "seal_record cr sp r = Ok (?r, c, t, nr)"
    and fin: "finish_success cr sp (rec_header p) (rec_payload r) nr = (sp', Ok ())"
    and p: "p = \<lparr>rec_header = rec_header ?r, rec_payload = c, rec_auth_tag = t\<rparr>"
    by (rule protect_record_Ok)
  from seal have valid: "record_validate r = Ok r" and prep: "prepare_record_for_epoch sp r = Ok ?r"
    and aead: "aead_seal cr (rm_key ?m) (rm_nonce ?m) (aad_bytes (rec_header ?r)) (rec_payload ?r) = Some (c, t)"
    and nr: "nr = rm_next_root ?m" by (auto simp: seal_record_iff)
  note opened = crypto_okD [OF cr aead]
  have "record_validate p = Ok p"
    using record_validate_confirm [OF valid ok] opened(2) by (simp add: record_validate_Inr_iff p)
  then have "open_record cr sp p = Ok (?r \<lparr>rec_auth_tag := t\<rparr>, nr)"
    using prepare_active [OF prep] opened(1)
    by (simp add: open_record_def Let_def open_payload_def p nr)
  then show ?thesis using st fin by (simp add: unprotect_record_def p)
qed

lemma unprotect_error_closes:
  assumes "unprotect_record cr sp p = (sp', Err e)"
  shows "sp_stream_state sp' = Closed"
  using assms by (auto simp: unprotect_record_def fail_def split: if_splits sum.splits prod.splits)

lemma closed_protect: "sp_stream_state sp = Closed \<Longrightarrow> protect_record cr sp r = (sp, Err StreamClosed)"
  and closed_unprotect: "sp_stream_state sp = Closed \<Longrightarrow> unprotect_record cr sp r = (sp, Err StreamClosed)"
  by (simp_all add: protect_record_def unprotect_record_def)

lemma validate_confirmed_plain:
  assumes "record_validate r = Ok r" and "rh_record_type (rec_header r) \<in> {SourceMeta, Repair}"
  shows "\<exists>e. header_validate (rec_header (confirm True r)) = Err e"
proof -
  have "\<not> header_contract (rec_header (confirm True r))"
    using assms(2) by (auto simp: header_contract_def type_contract_def confirm_flags)
  then have "header_validate (rec_header (confirm True r)) \<noteq> Ok h" for h
    by (simp add: header_validate_iff)
  then show ?thesis by (cases "header_validate (rec_header (confirm True r))") auto
qed

lemma unprotect_invalid:
  assumes "sp_stream_state sp \<noteq> Closed" and "header_validate (rec_header p) = Err e"
  shows "unprotect_record cr sp p = fail sp (PE_Validation e)"
  using assms by (simp add: unprotect_record_def open_record_def record_validate_def)

text \<open>A corner of the code: \<open>prepare_record_for_epoch\<close> sets POST_REKEY_CONFIRM on the first record of
  an epoch without validating it again, so a \<open>SourceMeta\<close> or \<open>Repair\<close> record that comes first after a
  rekey is sent with success, and the receiver rejects it and closes.\<close>

theorem plain_record_after_rekey_closes:
  assumes "pending sp" and "rh_record_type (rec_header r) \<in> {SourceMeta, Repair}"
    and "protect_record cr sp r = (sp', Ok p)"
  shows "\<exists>e. unprotect_record cr sp p =
    (sp \<lparr>sp_pending_rekey := None, sp_stream_state := Closed\<rparr>, Err (PE_Validation e))"
proof -
  from assms(3) obtain c t nr where st: "sp_stream_state sp \<noteq> Closed"
    and "seal_record cr sp r = Ok (confirm (pending sp) r, c, t, nr)"
    and p: "p = \<lparr>rec_header = rec_header (confirm (pending sp) r), rec_payload = c, rec_auth_tag = t\<rparr>"
    by (rule protect_record_Ok)
  then have "record_validate r = Ok r" by (auto simp: seal_record_iff)
  from validate_confirmed_plain [OF this assms(2)] obtain e where
    "header_validate (rec_header p) = Err e" using assms(1) by (auto simp: p)
  from unprotect_invalid [OF st this] show ?thesis by (auto simp: fail_def)
qed

interpretation record_channel: guarded_channel "protect_record cr" "unprotect_record cr"
    "\<lambda>sp r. crypto_ok cr \<and> confirmable (pending sp) r" arrives
    "\<lambda>sp. sp_stream_state sp = Closed" StreamClosed
    "\<lambda>sp r. \<not> confirmable (pending sp) r" "\<lambda>e. \<exists>v. e = PE_Validation v" for cr
proof unfold_locales
  fix sp r sp' p
  assume "crypto_ok cr \<and> confirmable (pending sp) r" and "protect_record cr sp r = (sp', Ok p)"
  then show "\<exists>n. unprotect_record cr sp p = (sp', Ok n) \<and> arrives r n"
    using unprotect_protect [of cr sp r sp' p] by (auto simp: arrives_def intro!: exI [of _ "pending sp"])
next
  fix sp r sp' p
  assume "\<not> confirmable (pending sp) r" and "protect_record cr sp r = (sp', Ok p)"
  then show "\<exists>t e. unprotect_record cr sp p = (t, Err e) \<and> (\<exists>v. e = PE_Validation v)"
    using plain_record_after_rekey_closes [of sp r cr sp' p] by (auto simp: confirmable_def)
qed (auto intro: unprotect_error_closes closed_protect closed_unprotect)

text \<open>No \<open>SourceMeta\<close> or \<open>Repair\<close> is the first record of an epoch (\<open>p\<close>: a rekey is pending).\<close>

fun confirmables :: "bool \<Rightarrow> Record list \<Rightarrow> bool" where
  "confirmables p [] \<longleftrightarrow> True"
| "confirmables p (r # rs) \<longleftrightarrow>
     confirmable p r \<and> confirmables (rh_record_type (rec_header r) = Rekey) rs"

definition pending_after :: "bool \<Rightarrow> Record list \<Rightarrow> bool" where
  "pending_after p rs \<longleftrightarrow> (if rs = [] then p else rh_record_type (rec_header (last rs)) = Rekey)"

lemma confirmables_append:
  "confirmables p (rs @ qs) \<longleftrightarrow> confirmables p rs \<and> confirmables (pending_after p rs) qs"
  by (induction rs arbitrary: p) (simp_all add: pending_after_def)

lemma protect_record_pending:
  "protect_record cr sp r = (sp', Ok p) \<Longrightarrow> pending sp' \<longleftrightarrow> rh_record_type (rec_header r) = Rekey"
  by (erule protect_record_Ok) (simp add: finish_success_Ok(1))

lemma record_run_confirmables:
  "run_ops (protect_record cr) sp rs = (sp', Ok ps) \<Longrightarrow>
    run_all (protect_record cr) (\<lambda>sp r. crypto_ok cr \<and> confirmable (pending sp) r) sp rs
    \<longleftrightarrow> rs = [] \<or> crypto_ok cr \<and> confirmables (pending sp) rs"
proof (induction rs arbitrary: sp ps)
  case (Cons r rs)
  then obtain sp1 q qs where step: "protect_record cr sp r = (sp1, Ok q)" "run_ops (protect_record cr) sp1 rs = (sp', Ok qs)"
    unfolding run_ops_Cons_Ok by blast
  then show ?case using Cons.IH [OF step(2)] protect_record_pending [OF step(1)] by auto
qed simp

lemma record_run_pending:
  "run_ops (protect_record cr) sp rs = (sp', Ok ps) \<Longrightarrow> pending sp' \<longleftrightarrow> pending_after (pending sp) rs"
proof (induction rs arbitrary: sp ps)
  case (Cons r rs)
  then obtain sp1 q qs where step: "protect_record cr sp r = (sp1, Ok q)" "run_ops (protect_record cr) sp1 rs = (sp', Ok qs)"
    unfolding run_ops_Cons_Ok by blast
  then show ?case using Cons.IH [OF step(2)] protect_record_pending [OF step(1)] by (simp add: pending_after_def)
qed (simp add: pending_after_def)

lemma run_all_True: "(\<And>s x. P s x) \<Longrightarrow> run_all f P s xs"
  by (induction xs arbitrary: s) simp_all

lemma record_run_cases:
  assumes "crypto_ok cr" and "run_ops (protect_record cr) sp rs = (sp', Ok ps)"
  shows "(if confirmables (pending sp) rs
    then \<exists>out. run_ops (unprotect_record cr) sp ps = (sp', Ok out) \<and> list_all2 arrives rs out
    else \<exists>k<length rs. confirmables (pending sp) (take k rs) \<and> \<not> confirmables (pending sp) (take (Suc k) rs)
      \<and> (\<exists>q out. run_ops (unprotect_record cr) sp (take k ps) = (q, Ok out) \<and> list_all2 arrives (take k rs) out)
      \<and> (\<exists>q v. run_ops (unprotect_record cr) sp ps = (q, Err (PE_Validation v)) \<and> sp_stream_state q = Closed))"
proof -
  have "run_all (protect_record cr) (\<lambda>sp r. (crypto_ok cr \<and> confirmable (pending sp) r) \<or> \<not> confirmable (pending sp) r) sp rs"
    using assms(1) by (simp add: run_all_True)
  from record_channel.guarded_run [OF this assms(2)] show ?thesis
  proof (elim disjE exE conjE)
    fix k t ns q e v
    assume k: "k < length rs" and pre: "run_all (protect_record cr) (\<lambda>sp r. crypto_ok cr \<and> confirmable (pending sp) r) sp (take k rs)"
      and sent: "run_ops (protect_record cr) sp (take k rs) = (t, Ok (take k ps))" and ex: "\<not> confirmable (pending t) (rs ! k)"
      and got: "run_ops (unprotect_record cr) sp (take k ps) = (t, Ok ns)" "list_all2 arrives (take k rs) ns"
        "run_ops (unprotect_record cr) sp ps = (q, Err e)" "sp_stream_state q = Closed" "e = PE_Validation v"
    have "confirmables (pending sp) (take k rs)" using pre record_run_confirmables [OF sent] by auto
    moreover have "\<not> confirmables (pending sp) (take (Suc k) rs)"
      using ex record_run_pending [OF sent] k by (simp add: take_Suc_conv_app_nth confirmables_append)
    moreover from this have "\<not> confirmables (pending sp) rs"
      by (metis append_take_drop_id confirmables_append)
    ultimately show ?thesis using k got by auto
  qed (use record_run_confirmables [OF assms(2)] in auto)
qed

section \<open>Frames arrive\<close>

fun prepared :: "bool \<Rightarrow> Record list \<Rightarrow> Record list" where
  "prepared p [] = []"
| "prepared p (r # rs) = confirm p r # prepared (rh_record_type (rec_header r) = Rekey) rs"

abbreviation zero_tag :: "Record \<Rightarrow> Record" where
  "zero_tag r \<equiv> r \<lparr>rec_auth_tag := replicate 16 0\<rparr>"

text \<open>The records a frame delivers.\<close>

definition delivered :: "bool \<Rightarrow> Record list \<Rightarrow> Record list" where
  "delivered p rs = map zero_tag (prepared p rs)"

lemma length_prepared [simp]: "length (prepared p rs) = length rs"
  by (induction rs arbitrary: p) simp_all

lemma arrives_delivered: "list_all2 arrives rs (delivered p rs)"
  unfolding delivered_def
  by (induction rs arbitrary: p) (auto simp: arrives_def)

lemma zero_tag_place:
  assumes "record_validate r = Ok r" and "rh_stream_id (rec_header r) = sid"
    and "rh_epoch_id (rec_header r) = e" and "rh_seq_no (rec_header r) = s"
  shows "place_record sid e s r = zero_tag r"
  using assms by (simp add: place_record_def record_validate_Inr_iff header_validate_iff header_contract_def)

lemma record_validate_zero_tag:
  "record_validate r = Ok r \<Longrightarrow> record_validate (zero_tag r) = Ok (zero_tag r)"
  by (simp add: record_validate_Inr_iff)

lemma protect_loop_step_Ok:
  assumes "protect_loop_step cr (w, prep, fr) r = Ok st"
  obtains w' where "record_validate r = Ok r" and "prepare_record_for_epoch w r = Ok (confirm (pending w) r)"
    and "finish_success cr w (rec_header (confirm (pending w) r)) (rec_payload r)
        (rm_next_root (derive_record_material cr (active_root w) (expected_epoch_id w) (expected_seq_no w))) = (w', Ok ())"
    and "st = (w', prep @ [confirm (pending w) r],
        Some (case fr of None \<Rightarrow> (active_root w, expected_epoch_id w, expected_seq_no w) | Some f \<Rightarrow> f))"
    and "(expected_epoch_id w', expected_seq_no w') =
      next_position (rh_record_type (rec_header r)) (expected_epoch_id w) (expected_seq_no w)"
    and "pending w' \<longleftrightarrow> rh_record_type (rec_header r) = Rekey" and "sp_stream_id w' = sp_stream_id w"
proof -
  let ?r = "confirm (pending w) r"
  let ?m = "derive_record_material cr (active_root w) (rh_epoch_id (rec_header ?r)) (rh_seq_no (rec_header ?r))"
  from assms(1) obtain w' where valid: "record_validate r = Ok r"
    and prep: "prepare_record_for_epoch w r = Ok ?r"
    and fin: "finish_success cr w (rec_header ?r) (rec_payload ?r) (rm_next_root ?m) = (w', Ok ())"
    and st: "st = (w', prep @ [?r],
        Some (case fr of None \<Rightarrow> (active_root w, rh_epoch_id (rec_header ?r), rh_seq_no (rec_header ?r)) | Some f \<Rightarrow> f))"
    by (auto simp: protect_loop_step_def Let_def record_validate_Inr_iff prepare_iff
        active_root_for_iff split: sum.splits prod.splits option.splits)
  have pos: "rh_epoch_id (rec_header r) = expected_epoch_id w" "rh_seq_no (rec_header r) = expected_seq_no w"
    using prep by (simp_all add: prepare_iff)
  show thesis
    by (rule that [of w', OF valid prep]) (use fin st finish_success_Ok [OF fin] pos in \<open>simp_all split: option.split\<close>)
qed

text \<open>What the loop of the sender computes, whether or not the marked records stay valid.\<close>

lemma protect_loop_prepared:
  assumes "protect_loop cr (w, prep, fr) rs = Ok (w', prep', fr')"
  shows "prep' = prep @ prepared (pending w) rs \<and> (\<forall>r \<in> set rs. record_validate r = Ok r)
    \<and> (pending w' \<longleftrightarrow> pending_after (pending w) rs)
    \<and> fr' = (case fr of Some f \<Rightarrow> Some f
        | None \<Rightarrow> if rs = [] then None else Some (active_root w, expected_epoch_id w, expected_seq_no w))"
  using assms
proof (induction rs arbitrary: w prep fr)
  case Nil
  then show ?case by (auto simp: pending_after_def split: option.splits)
next
  case (Cons r rs)
  from Cons.prems(1) obtain st where step: "protect_loop_step cr (w, prep, fr) r = Ok st"
    and rest: "protect_loop cr st rs = Ok (w', prep', fr')" by auto
  from step obtain w1 where valid: "record_validate r = Ok r"
    and st: "st = (w1, prep @ [confirm (pending w) r],
        Some (case fr of None \<Rightarrow> (active_root w, expected_epoch_id w, expected_seq_no w) | Some f \<Rightarrow> f))"
    and "pending w1 \<longleftrightarrow> rh_record_type (rec_header r) = Rekey"
    by (rule protect_loop_step_Ok)
  with Cons.IH [OF rest [unfolded st]] show ?case by (auto simp: pending_after_def split: option.split)
qed

lemma protect_loop_stepD:
  assumes "protect_loop_step cr (w, prep, fr) r = Ok st" and "confirmable (pending w) r"
  obtains w' where
    "st = (w', prep @ [confirm (pending w) r],
        Some (case fr of None \<Rightarrow> (active_root w, expected_epoch_id w, expected_seq_no w) | Some f \<Rightarrow> f))"
    and "unprotect_loop_step cr w (zero_tag (confirm (pending w) r)) = Ok (w', zero_tag (confirm (pending w) r))"
    and "record_validate (confirm (pending w) r) = Ok (confirm (pending w) r)"
    and "place_record (sp_stream_id w) (expected_epoch_id w) (expected_seq_no w) (confirm (pending w) r)
      = zero_tag (confirm (pending w) r)"
    and "(expected_epoch_id w', expected_seq_no w') =
      next_position (rh_record_type (rec_header r)) (expected_epoch_id w) (expected_seq_no w)"
    and "pending w' \<longleftrightarrow> rh_record_type (rec_header r) = Rekey" and "sp_stream_id w' = sp_stream_id w"
proof -
  let ?r = "confirm (pending w) r"
  from assms(1) obtain w' where valid: "record_validate r = Ok r"
    and prep: "prepare_record_for_epoch w r = Ok ?r"
    and fin: "finish_success cr w (rec_header ?r) (rec_payload r)
        (rm_next_root (derive_record_material cr (active_root w) (expected_epoch_id w) (expected_seq_no w))) = (w', Ok ())"
    and st: "st = (w', prep @ [?r],
        Some (case fr of None \<Rightarrow> (active_root w, expected_epoch_id w, expected_seq_no w) | Some f \<Rightarrow> f))"
    and w': "(expected_epoch_id w', expected_seq_no w') =
        next_position (rh_record_type (rec_header r)) (expected_epoch_id w) (expected_seq_no w)"
      "pending w' \<longleftrightarrow> rh_record_type (rec_header r) = Rekey" "sp_stream_id w' = sp_stream_id w"
    by (rule protect_loop_step_Ok)
  note valid' = record_validate_confirm [OF valid assms(2)]
  have pos: "rh_stream_id (rec_header ?r) = sp_stream_id w" "rh_epoch_id (rec_header ?r) = expected_epoch_id w"
      "rh_seq_no (rec_header ?r) = expected_seq_no w"
    using prep by (simp_all add: prepare_iff)
  have "unprotect_loop_step cr w (zero_tag ?r) = Ok (w', zero_tag ?r)"
    using record_validate_zero_tag [OF valid'] prepare_active [OF prep] fin pos
    by (simp add: unprotect_loop_step_def Let_def)
  moreover have "place_record (sp_stream_id w) (expected_epoch_id w) (expected_seq_no w) ?r = zero_tag ?r"
    using valid' pos by (rule zero_tag_place)
  ultimately show thesis using that st valid' w' by blast
qed

lemma protect_loop_replayed:
  assumes "protect_loop cr (w, prep, fr) rs = Ok (w', prep', fr')" and "confirmables (pending w) rs"
  shows "prep' = prep @ prepared (pending w) rs
    \<and> unprotect_loop cr w (delivered (pending w) rs) = Ok (w', delivered (pending w) rs)
    \<and> renumber (sp_stream_id w) (expected_epoch_id w) (expected_seq_no w) (prepared (pending w) rs)
        = delivered (pending w) rs
    \<and> (\<forall>r \<in> set (prepared (pending w) rs). record_validate r = Ok r)
    \<and> fr' = (case fr of Some f \<Rightarrow> Some f
        | None \<Rightarrow> if rs = [] then None else Some (active_root w, expected_epoch_id w, expected_seq_no w))"
  using assms
proof (induction rs arbitrary: w prep fr)
  case Nil
  then show ?case by (auto simp: delivered_def split: option.splits)
next
  case (Cons r rs)
  let ?r = "confirm (pending w) r"
  from Cons.prems(1) obtain st where step: "protect_loop_step cr (w, prep, fr) r = Ok st"
    and rest: "protect_loop cr st rs = Ok (w', prep', fr')" by auto
  from Cons.prems(2) have conf0: "confirmable (pending w) r"
    and conf: "confirmables (rh_record_type (rec_header r) = Rekey) rs" by simp_all
  from step conf0 obtain w1 where st: "st = (w1, prep @ [?r],
        Some (case fr of None \<Rightarrow> (active_root w, expected_epoch_id w, expected_seq_no w) | Some f \<Rightarrow> f))"
    and u: "unprotect_loop_step cr w (zero_tag ?r) = Ok (w1, zero_tag ?r)"
    and v: "record_validate ?r = Ok ?r"
    and place: "place_record (sp_stream_id w) (expected_epoch_id w) (expected_seq_no w) ?r = zero_tag ?r"
    and pos: "(expected_epoch_id w1, expected_seq_no w1) =
      next_position (rh_record_type (rec_header r)) (expected_epoch_id w) (expected_seq_no w)"
    and pend: "pending w1 \<longleftrightarrow> rh_record_type (rec_header r) = Rekey"
    and sid: "sp_stream_id w1 = sp_stream_id w"
    by (rule protect_loop_stepD)
  from Cons.IH [OF rest [unfolded st]] conf pend have IH:
    "prep' = (prep @ [?r]) @ prepared (pending w1) rs"
    "unprotect_loop cr w1 (delivered (pending w1) rs) = Ok (w', delivered (pending w1) rs)"
    "renumber (sp_stream_id w) (expected_epoch_id w1) (expected_seq_no w1) (prepared (pending w1) rs)
      = delivered (pending w1) rs"
    "\<forall>r \<in> set (prepared (pending w1) rs). record_validate r = Ok r"
    "fr' = Some (case fr of None \<Rightarrow> (active_root w, expected_epoch_id w, expected_seq_no w) | Some f \<Rightarrow> f)"
    by (simp_all add: sid)
  have split: "prepared (pending w) (r # rs) = ?r # prepared (pending w1) rs"
    "delivered (pending w) (r # rs) = zero_tag ?r # delivered (pending w1) rs"
    by (simp_all add: delivered_def pend)
  show ?case
    unfolding split using IH u v place
    by (auto simp: pos [symmetric] split: option.splits)
qed

lemma length_encode_compact: "16 * length rs \<le> length (encode_compact_transport_records rs)"
  by (induction rs) (simp_all add: encode_compact_transport_records_def compact_record_bytes_def)

lemma length_encode_prepared:
  "length (encode_compact_transport_records (prepared p rs)) = length (encode_compact_transport_records rs)"
  by (induction rs arbitrary: p) (simp_all add: encode_compact_transport_records_def compact_record_bytes_def)

text \<open>The frames the receiver can read: the marked records stay valid and the lengths fit their fields.\<close>

definition frame_carries :: "crypto \<Rightarrow> StreamProtector \<Rightarrow> Record list \<Rightarrow> bool" where
  "frame_carries cr sp rs \<longleftrightarrow>
     crypto_ok cr \<and> confirmables (pending sp) rs \<and> length (encode_compact_transport_records rs) < 2 ^ 32"

lemma protect_transport_Ok:
  assumes "protect_transport_records cr sp rs = (sp', Ok frame)"
  obtains payload header material c t where "sp_stream_state sp \<noteq> Closed" and "rs \<noteq> []"
    and "protect_loop cr (sp, [], None) rs = Ok (sp', prepared (pending sp) rs,
        Some (active_root sp, expected_epoch_id sp, expected_seq_no sp))"
    and "payload = encode_compact_transport_records (prepared (pending sp) rs)"
    and "header = \<lparr>fh_epoch_id = expected_epoch_id sp, fh_seq_no = expected_seq_no sp,
        fh_record_count = of_nat (length rs), fh_payload_len = of_nat (length payload)\<rparr>"
    and "material = derive_frame_material cr (active_root sp) (expected_epoch_id sp) (expected_seq_no sp)
        (of_nat (length rs))"
    and "aead_seal cr (fm_key material) (fm_nonce material) (frame_aad_bytes header) payload = Some (c, t)"
    and "frame = encode_protected_transport_frame header c t"
proof -
  have "protect_transport_records cr sp rs \<noteq> (sp, Err StreamClosed)" using assms(1) by simp
  then have open_state: "sp_stream_state sp \<noteq> Closed" by (auto simp: protect_transport_records_def)
  obtain w prep fr where loop: "protect_loop cr (sp, [], None) rs = Ok (w, prep, fr)"
    using assms(1) open_state
    by (cases "protect_loop cr (sp, [], None) rs") (auto simp: protect_transport_records_def)
  from protect_loop_prepared [OF loop] have prep: "prep = prepared (pending sp) rs"
    and fr: "fr = (if rs = [] then None else Some (active_root sp, expected_epoch_id sp, expected_seq_no sp))"
    by simp_all
  from assms(1) open_state loop fr have "rs \<noteq> []" by (auto simp: protect_transport_records_def)
  with that [OF open_state] assms(1) open_state loop prep fr show thesis
    by (auto simp: protect_transport_records_def Let_def seal_payload_def split: sum.splits prod.splits)
qed

text \<open>The receiver of a frame gets to the decoding of the very payload that was sealed.\<close>

lemma open_protected_frame:
  assumes cr: "crypto_ok cr" and len: "length (encode_compact_transport_records rs) < 2 ^ 32"
    and send: "protect_transport_records cr sp rs = (sp', Ok frame)"
  shows "open_frame cr sp frame =
    and_then (map_err PE_Wire (decode_compact_transport_records
        (encode_compact_transport_records (prepared (pending sp) rs)) (sp_stream_id sp)
        (expected_epoch_id sp) (expected_seq_no sp)))
      (\<lambda>records. if length records \<noteq> length rs
         then Err (TransportFrameRecordCountMismatch (of_nat (length rs)) (length records)) else Ok records)"
proof -
  from send obtain payload header material c t where ne: "rs \<noteq> []"
    and payload: "payload = encode_compact_transport_records (prepared (pending sp) rs)"
    and header: "header = \<lparr>fh_epoch_id = expected_epoch_id sp, fh_seq_no = expected_seq_no sp,
        fh_record_count = of_nat (length rs), fh_payload_len = of_nat (length payload)\<rparr>"
    and material: "material = derive_frame_material cr (active_root sp) (expected_epoch_id sp)
        (expected_seq_no sp) (of_nat (length rs))"
    and aead: "aead_seal cr (fm_key material) (fm_nonce material) (frame_aad_bytes header) payload = Some (c, t)"
    and frame: "frame = encode_protected_transport_frame header c t"
    by (rule protect_transport_Ok)
  note opened = crypto_okD [OF cr aead]
  have "length rs < 2 ^ 32" using length_encode_compact [of rs] len by simp
  then have count: "unat (fh_record_count header) = length rs" "fh_record_count header \<noteq> 0"
    using ne unat_of_nat_u32 [of "length rs"] by (auto simp: header simp flip: unat_eq_0)
  have "unat (fh_payload_len header) = length c"
    using len payload opened(2) unat_of_nat_u32 [of "length payload"] by (simp add: header length_encode_prepared)
  then have decode: "decode_protected_transport_frame frame = Ok (header, c, t)"
    using frame_codec.dec_enc [of "(header, c, t)"] opened(3)
    by (simp add: frame frame_ok_def frame_encode_def)
  have root: "active_root_for_transport_frame sp header = Ok (active_root sp)"
    using count(2) by (simp add: active_root_for_frame_iff header)
  show ?thesis
    using decode root opened(1) count(1) material
    by (simp add: open_frame_def Let_def open_payload_def header cong: if_cong flip: payload)
qed

lemma unprotect_protect_frame:
  assumes "frame_carries cr sp rs" and send: "protect_transport_records cr sp rs = (sp', Ok frame)"
  shows "unprotect_transport_frame cr sp frame = (sp', Ok (delivered (pending sp) rs))"
proof -
  from assms(1) have cr: "crypto_ok cr" and conf: "confirmables (pending sp) rs"
    and len: "length (encode_compact_transport_records rs) < 2 ^ 32"
    by (simp_all add: frame_carries_def)
  from send obtain payload where st: "sp_stream_state sp \<noteq> Closed"
    and loop: "protect_loop cr (sp, [], None) rs = Ok (sp', prepared (pending sp) rs,
        Some (active_root sp, expected_epoch_id sp, expected_seq_no sp))"
    by (rule protect_transport_Ok)
  note replay = protect_loop_replayed [OF loop conf]
  then have "open_frame cr sp frame = Ok (delivered (pending sp) rs)"
    unfolding open_protected_frame [OF cr len send] by (simp add: decode_encode_compact delivered_def)
  then show ?thesis using st replay by (simp add: unprotect_transport_frame_def)
qed

lemma unprotect_frame_error_closes:
  assumes "unprotect_transport_frame cr sp f = (sp', Err e)"
  shows "sp_stream_state sp' = Closed"
  using assms by (auto simp: unprotect_transport_frame_def fail_def split: if_splits sum.splits prod.splits)

lemma closed_frame:
  "sp_stream_state sp = Closed \<Longrightarrow> protect_transport_records cr sp rs = (sp, Err StreamClosed)"
  "sp_stream_state sp = Closed \<Longrightarrow> unprotect_transport_frame cr sp f = (sp, Err StreamClosed)"
  by (simp_all add: protect_transport_records_def unprotect_transport_frame_def)

text \<open>A marked \<open>SourceMeta\<close> or \<open>Repair\<close> inside a frame stops the decoding of its payload.\<close>

lemma parse_confirmed_plain:
  assumes "record_validate r = Ok r" and "rh_record_type (rec_header r) \<in> {SourceMeta, Repair}"
  shows "\<exists>v. parse_compact sid e s (compact_record_bytes (confirm True r) @ rest) = Err (Validation v)"
proof -
  let ?r = "confirm True r"
  have len: "length (rec_payload r) = unat (rh_payload_len (rec_header r))"
    using assms(1) by (simp add: record_validate_Inr_iff)
  have "\<not> header_contract (rec_header (place_record sid e s ?r))"
    using assms(2) by (auto simp: header_contract_def type_contract_def confirm_flags place_record_def)
  then have "record_validate (place_record sid e s ?r) \<noteq> Ok x" for x
    by (simp add: record_validate_Inr_iff header_validate_iff)
  then obtain v where v: "record_validate (place_record sid e s ?r) = Err v"
    by (cases "record_validate (place_record sid e s ?r)") auto
  have "\<lparr>rec_header = \<lparr>rh_version = 2, rh_stream_id = sid, rh_epoch_id = e, rh_seq_no = s,
      rh_record_type = rh_record_type (rec_header r), rh_codec_mode = rh_codec_mode (rec_header r),
      rh_flags = rh_flags (rec_header ?r), rh_item_id = rh_item_id (rec_header r),
      rh_payload_len = rh_payload_len (rec_header r)\<rparr>, rec_payload = rec_payload r,
      rec_auth_tag = replicate 16 0\<rparr> = place_record sid e s ?r"
    by (simp add: place_record_def)
  then show ?thesis
    using len v by (simp add: parse_compact_def compact_record_bytes_def nth_append slice_def)
qed

lemma decode_confirmed_plain:
  assumes "record_validate q = Ok q" and "rh_record_type (rec_header q) \<in> {SourceMeta, Repair}"
  shows "\<forall>r \<in> set rs. record_validate r = Ok r \<Longrightarrow>
    \<exists>v. decode_compact_transport_records (encode_compact_transport_records (rs @ confirm True q # qs)) sid e s
      = Err (Validation v)"
proof (induction rs arbitrary: e s)
  case Nil
  have "encode_compact_transport_records (confirm True q # qs) \<noteq> []"
    by (simp add: encode_compact_transport_records_def compact_record_bytes_def)
  with parse_confirmed_plain [OF assms, of sid e s "encode_compact_transport_records qs"] show ?case
    by (subst decode_compact_transport_records.simps) (auto simp: encode_compact_transport_records_def)
next
  case (Cons r rs)
  let ?rest = "rs @ confirm True q # qs"
  have "encode_compact_transport_records (r # ?rest) \<noteq> []"
    by (simp add: encode_compact_transport_records_def compact_record_bytes_def)
  moreover have "parse_compact sid e s (encode_compact_transport_records (r # ?rest)) =
      Ok (place_record sid e s r, encode_compact_transport_records ?rest)"
    using Cons.prems by (simp add: encode_compact_transport_records_def parse_compact_place)
  moreover obtain e' s' where "next_position (rh_record_type (rec_header (place_record sid e s r))) e s = (e', s')"
    by (cases "next_position (rh_record_type (rec_header (place_record sid e s r))) e s")
  moreover obtain v where "decode_compact_transport_records (encode_compact_transport_records ?rest) sid e' s'
      = Err (Validation v)" using Cons by force
  ultimately show ?case by (subst decode_compact_transport_records.simps) simp
qed

lemma not_confirmables_split:
  assumes "\<not> confirmables p rs" and "\<forall>r \<in> set rs. record_validate r = Ok r"
  shows "\<exists>rs1 q qs. prepared p rs = rs1 @ confirm True q # qs \<and> (\<forall>r \<in> set rs1. record_validate r = Ok r)
    \<and> record_validate q = Ok q \<and> rh_record_type (rec_header q) \<in> {SourceMeta, Repair}"
  using assms
proof (induction rs arbitrary: p)
  case (Cons r rs)
  let ?p = "rh_record_type (rec_header r) = Rekey"
  show ?case
  proof (cases "confirmable p r")
    case True
    with Cons.prems have "\<not> confirmables ?p rs" by simp
    with Cons.IH [OF this] Cons.prems(2) obtain rs1 q qs where ih: "prepared ?p rs = rs1 @ confirm True q # qs"
      "\<forall>r \<in> set rs1. record_validate r = Ok r" "record_validate q = Ok q"
      "rh_record_type (rec_header q) \<in> {SourceMeta, Repair}" by auto
    moreover have "record_validate (confirm p r) = Ok (confirm p r)"
      using record_validate_confirm True Cons.prems(2) by simp
    ultimately show ?thesis by (intro exI [of _ "confirm p r # rs1"] exI [of _ q] exI [of _ qs]) simp
  next
    case False
    then have "p" "rh_record_type (rec_header r) \<in> {SourceMeta, Repair}" by (auto simp: confirmable_def)
    with Cons.prems(2) show ?thesis
      by (intro exI [of _ "[]"] exI [of _ r] exI [of _ "prepared ?p rs"]) simp
  qed
qed simp

definition frame_excluded :: "crypto \<Rightarrow> StreamProtector \<Rightarrow> Record list \<Rightarrow> bool" where
  "frame_excluded cr sp rs \<longleftrightarrow>
     crypto_ok cr \<and> \<not> confirmables (pending sp) rs \<and> length (encode_compact_transport_records rs) < 2 ^ 32"

lemma unprotect_excluded_frame:
  assumes "frame_excluded cr sp rs" and send: "protect_transport_records cr sp rs = (sp', Ok frame)"
  shows "\<exists>v. unprotect_transport_frame cr sp frame =
    (sp \<lparr>sp_pending_rekey := None, sp_stream_state := Closed\<rparr>, Err (PE_Wire (Validation v)))"
proof -
  from send obtain payload where st: "sp_stream_state sp \<noteq> Closed"
    and loop: "protect_loop cr (sp, [], None) rs = Ok (sp', prepared (pending sp) rs,
        Some (active_root sp, expected_epoch_id sp, expected_seq_no sp))"
    by (rule protect_transport_Ok)
  have "\<forall>r \<in> set rs. record_validate r = Ok r" using protect_loop_prepared [OF loop] by simp
  with assms(1) not_confirmables_split [of "pending sp" rs] obtain v where
    "decode_compact_transport_records (encode_compact_transport_records (prepared (pending sp) rs)) (sp_stream_id sp)
      (expected_epoch_id sp) (expected_seq_no sp) = Err (Validation v)"
    using decode_confirmed_plain by (metis frame_excluded_def)
  then have "open_frame cr sp frame = Err (PE_Wire (Validation v))"
    using open_protected_frame [OF _ _ send] assms(1) by (simp add: frame_excluded_def)
  then show ?thesis using st by (simp add: unprotect_transport_frame_def fail_def)
qed

interpretation frame_channel: guarded_channel "protect_transport_records cr" "unprotect_transport_frame cr"
    "frame_carries cr" "list_all2 arrives" "\<lambda>sp. sp_stream_state sp = Closed" StreamClosed
    "frame_excluded cr" "\<lambda>e. \<exists>v. e = PE_Wire (Validation v)" for cr
proof unfold_locales
  fix sp rs sp' f
  assume "frame_carries cr sp rs" and "protect_transport_records cr sp rs = (sp', Ok f)"
  then show "\<exists>out. unprotect_transport_frame cr sp f = (sp', Ok out) \<and> list_all2 arrives rs out"
    using unprotect_protect_frame arrives_delivered by blast
next
  fix sp rs sp' f
  assume "frame_excluded cr sp rs" and "protect_transport_records cr sp rs = (sp', Ok f)"
  then show "\<exists>t e. unprotect_transport_frame cr sp f = (t, Err e) \<and> (\<exists>v. e = PE_Wire (Validation v))"
    using unprotect_excluded_frame by blast
qed (auto intro: unprotect_frame_error_closes closed_frame)

text \<open>A frame is not empty, and what is pending after it is what is pending after its records.\<close>

lemma protect_transport_pending:
  assumes "protect_transport_records cr sp rs = (sp', Ok f)"
  shows "rs \<noteq> [] \<and> (pending sp' \<longleftrightarrow> pending_after (pending sp) rs)"
proof -
  from assms obtain payload where ne: "rs \<noteq> []"
    and loop: "protect_loop cr (sp, [], None) rs = Ok (sp', prepared (pending sp) rs,
        Some (active_root sp, expected_epoch_id sp, expected_seq_no sp))"
    by (rule protect_transport_Ok)
  with protect_loop_prepared [OF loop] show ?thesis by simp
qed

lemma pending_after_append: "pending_after p (xs @ ys) = pending_after (pending_after p xs) ys"
  by (simp add: pending_after_def)

lemma frame_run_pending:
  "run_ops (protect_transport_records cr) sp gs = (sp', Ok fs) \<Longrightarrow> pending sp' \<longleftrightarrow> pending_after (pending sp) (concat gs)"
proof (induction gs arbitrary: sp fs)
  case (Cons g gs)
  then obtain sp1 f fs' where step: "protect_transport_records cr sp g = (sp1, Ok f)"
    "run_ops (protect_transport_records cr) sp1 gs = (sp', Ok fs')" unfolding run_ops_Cons_Ok by blast
  then show ?case
    using Cons.IH [OF step(2)] protect_transport_pending [OF step(1)] by (simp add: pending_after_append)
qed (simp add: pending_after_def)

lemma frame_run_confirmables:
  assumes "crypto_ok cr"
  shows "\<forall>g \<in> set gs. length (encode_compact_transport_records g) < 2 ^ 32 \<Longrightarrow>
    run_ops (protect_transport_records cr) sp gs = (sp', Ok fs) \<Longrightarrow>
    (run_all (protect_transport_records cr) (frame_carries cr) sp gs \<longleftrightarrow> confirmables (pending sp) (concat gs))
    \<and> run_all (protect_transport_records cr) (\<lambda>sp g. frame_carries cr sp g \<or> frame_excluded cr sp g) sp gs"
proof (induction gs arbitrary: sp fs)
  case (Cons g gs)
  then obtain sp1 f fs' where step: "protect_transport_records cr sp g = (sp1, Ok f)"
    "run_ops (protect_transport_records cr) sp1 gs = (sp', Ok fs')" unfolding run_ops_Cons_Ok by blast
  have "\<forall>g \<in> set gs. length (encode_compact_transport_records g) < 2 ^ 32" using Cons.prems(1) by simp
  from Cons.IH [OF this step(2)] show ?case
    using protect_transport_pending [OF step(1)] step(1) assms Cons.prems(1)
    by (auto simp: confirmables_append frame_carries_def frame_excluded_def)
qed simp

lemma frame_run_cases:
  assumes cr: "crypto_ok cr" and len: "\<forall>g \<in> set groups. length (encode_compact_transport_records g) < 2 ^ 32"
    and run: "run_ops (protect_transport_records cr) sp groups = (sp', Ok frames)"
  shows "(if confirmables (pending sp) (concat groups)
    then \<exists>out. run_ops (unprotect_transport_frame cr) sp frames = (sp', Ok out)
      \<and> list_all2 (list_all2 arrives) groups out
    else \<exists>k<length groups. confirmables (pending sp) (concat (take k groups))
      \<and> \<not> confirmables (pending sp) (concat (take (Suc k) groups))
      \<and> (\<exists>q out. run_ops (unprotect_transport_frame cr) sp (take k frames) = (q, Ok out)
          \<and> list_all2 (list_all2 arrives) (take k groups) out)
      \<and> (\<exists>q v. run_ops (unprotect_transport_frame cr) sp frames = (q, Err (PE_Wire (Validation v)))
          \<and> sp_stream_state q = Closed))"
proof -
  note all = frame_run_confirmables [OF cr len run]
  from frame_channel.guarded_run [OF conjunct2 [OF all] run] show ?thesis
  proof (elim disjE exE conjE)
    fix k t ns q e v
    assume k: "k < length groups" and pre: "run_all (protect_transport_records cr) (frame_carries cr) sp (take k groups)"
      and sent: "run_ops (protect_transport_records cr) sp (take k groups) = (t, Ok (take k frames))"
      and ex: "frame_excluded cr t (groups ! k)"
      and got: "run_ops (unprotect_transport_frame cr) sp (take k frames) = (t, Ok ns)"
        "list_all2 (list_all2 arrives) (take k groups) ns"
        "run_ops (unprotect_transport_frame cr) sp frames = (q, Err e)" "sp_stream_state q = Closed"
        "e = PE_Wire (Validation v)"
    have "\<forall>g \<in> set (take k groups). length (encode_compact_transport_records g) < 2 ^ 32"
      using len by (meson in_set_takeD)
    from frame_run_confirmables [OF cr this sent] pre have "confirmables (pending sp) (concat (take k groups))" by simp
    moreover have bad: "\<not> confirmables (pending sp) (concat (take (Suc k) groups))"
      using ex frame_run_pending [OF sent] k
      by (simp add: take_Suc_conv_app_nth confirmables_append frame_excluded_def)
    moreover have "\<not> confirmables (pending sp) (concat groups)"
      using bad by (metis append_take_drop_id concat_append confirmables_append)
    ultimately show ?thesis using k got by auto
  qed (use all in auto)
qed

section \<open>Order\<close>

definition position :: "Record \<Rightarrow> EpochId \<times> SeqNo" where
  "position r = (rh_epoch_id (rec_header r), rh_seq_no (rec_header r))"

definition expected_position :: "StreamProtector \<Rightarrow> EpochId \<times> SeqNo" where
  "expected_position sp = (expected_epoch_id sp, expected_seq_no sp)"

definition pos_less :: "EpochId \<times> SeqNo \<Rightarrow> EpochId \<times> SeqNo \<Rightarrow> bool" where
  "pos_less = (\<lambda>(e, s) (e', s'). e < e' \<or> e = e' \<and> s < s')"

lemma pos_less_trans: "pos_less p q \<Longrightarrow> pos_less q r \<Longrightarrow> pos_less p r"
  by (auto simp: pos_less_def split: prod.splits)

lemma unprotect_record_Ok:
  assumes "unprotect_record cr sp p = (sp', Ok r)"
  shows "position p = expected_position sp"
    and "expected_position sp' = next_position (rh_record_type (rec_header p)) (expected_epoch_id sp) (expected_seq_no sp)"
    and "rec_header r = rec_header p" and "sp_stream_state sp \<noteq> Closed"
proof -
  from assms obtain nr where st: "sp_stream_state sp \<noteq> Closed"
    and op: "open_record cr sp p = Ok (r, nr)"
    and fin: "finish_success cr sp (rec_header r) (rec_payload r) nr = (sp', Ok ())"
    by (auto simp: unprotect_record_def fail_def split: if_splits sum.splits prod.splits)
  from op have h: "rec_header r = rec_header p" and act: "active_root_for sp (rec_header p) = Ok (active_root sp)"
    by (auto simp: open_record_def Let_def record_validate_Inr_iff active_root_for_iff)
  from act show "position p = expected_position sp"
    by (simp add: active_root_for_iff position_def expected_position_def)
  from act finish_success_Ok(2) [OF fin] show "expected_position sp' =
      next_position (rh_record_type (rec_header p)) (expected_epoch_id sp) (expected_seq_no sp)"
    by (simp add: h expected_position_def active_root_for_iff)
  show "rec_header r = rec_header p" and "sp_stream_state sp \<noteq> Closed" by (fact h st)+
qed

lemma word_Suc_less: "unat (w :: 'a::len word) + 1 < 2 ^ LENGTH('a) \<Longrightarrow> unat (w + 1) = unat w + 1 \<and> w < w + 1"
  by (simp add: unat_word_ariths word_less_nat_alt)

lemma next_position_later:
  assumes "unat e + 1 < 2 ^ 32" and "unat s + 1 < 2 ^ 64" and "(e', s') = next_position t e s"
  shows "pos_less (e, s) (e', s') \<and> unat e' \<le> unat e + 1 \<and> unat s' \<le> unat s + 1"
  using assms word_Suc_less [of e] word_Suc_less [of s]
  by (auto simp: next_position_def pos_less_def split: if_splits)

lemma accepted_positions:
  assumes "run_ops (unprotect_record cr) sp ps = (sp', Ok rs)"
    and "unat (expected_epoch_id sp) + length ps < 2 ^ 32"
    and "unat (expected_seq_no sp) + length ps < 2 ^ 64"
  shows "sorted_wrt pos_less (map position ps)
    \<and> (\<forall>p \<in> set ps. position p = expected_position sp \<or> pos_less (expected_position sp) (position p))"
  using assms
proof (induction ps arbitrary: sp rs)
  case Nil
  then show ?case by simp
next
  case (Cons p ps)
  from Cons.prems(1) obtain sp1 r rs' where r: "unprotect_record cr sp p = (sp1, Ok r)"
    and rest: "run_ops (unprotect_record cr) sp1 ps = (sp', Ok rs')"
    unfolding run_ops_Cons_Ok by blast
  note head = unprotect_record_Ok [OF r]
  have later: "pos_less (expected_position sp) (expected_position sp1)
      \<and> unat (expected_epoch_id sp1) \<le> unat (expected_epoch_id sp) + 1
      \<and> unat (expected_seq_no sp1) \<le> unat (expected_seq_no sp) + 1"
    using next_position_later [OF _ _ head(2) [unfolded expected_position_def]] Cons.prems(2,3)
    by (simp add: expected_position_def)
  with Cons.IH [OF rest] Cons.prems(2,3) head(1) show ?case
    by (auto dest: pos_less_trans)
qed

section \<open>Three corners of rekeying\<close>

lemma finish_rekey_wrong_epoch:
  assumes "rh_record_type h = Rekey" and "length (rk_seed k) = 32"
    and "rk_next_epoch_id k \<noteq> expected_epoch_id sp + 1"
  shows "finish_success cr sp h (rekey_encode k) nr =
    (advance sp h nr, Err (InvalidNextEpoch (expected_epoch_id sp) (rk_next_epoch_id k)))"
  using assms rekey_codec.dec_enc [of k] by (simp add: finish_success_def install_rekey_def)

lemma protect_loop_step_finish:
  assumes "protect_loop_step cr (w, prep, fr) r = Ok st"
  obtains nr where
    "finish_success cr w (rec_header (confirm (pending w) r)) (rec_payload r) nr = (fst st, Ok ())"
  using assms
  by (auto simp: protect_loop_step_def Let_def record_validate_Inr_iff prepare_iff
      active_root_for_iff split: sum.splits prod.splits option.splits)

lemma protect_loop_rekey_last:
  assumes "protect_loop cr st (rs @ [k]) = Ok (w, prep, fr)" and "rh_record_type (rec_header k) = Rekey"
  shows "\<exists>e. sp_stream_state w = RekeyPending e"
  using assms(1)
proof (induction rs arbitrary: st)
  case Nil
  obtain w0 prep0 fr0 where st: "st = (w0, prep0, fr0)" by (cases st)
  from Nil have "protect_loop_step cr (w0, prep0, fr0) k = Ok (w, prep, fr)" by (auto simp: st)
  then obtain nr where
    "finish_success cr w0 (rec_header (confirm (pending w0) k)) (rec_payload k) nr = (w, Ok ())"
    by (rule protect_loop_step_finish) simp
  then show ?case using assms(2) by (cases rule: finish_success_cases) simp_all
qed auto

section \<open>Concrete instances\<close>

definition toy_crypto :: crypto where
  "toy_crypto =
     \<lparr>hkdf_extract = (\<lambda>_ _. replicate 32 0), hkdf_expand = (\<lambda>_ _ n. replicate n 0),
      aead_seal = (\<lambda>_ _ _ p. Some (p, replicate 16 7)),
      aead_open = (\<lambda>_ _ _ c t. if t = replicate 16 7 then Some c else None)\<rparr>"

lemma toy_crypto_ok: "crypto_ok toy_crypto"
  by (simp add: crypto_ok_def toy_crypto_def)

definition sample_protector :: StreamProtector where
  "sample_protector = protector_new ClassicRef1 7 ClientToServer (replicate 32 0)"

lemma toy_seal: "aead_seal toy_crypto key nonce aad p = Some (p, replicate 16 7)"
  by (simp add: toy_crypto_def)

lemma sample_open: "sp_stream_state sample_protector = Opening"
  by (simp add: sample_protector_def protector_new_def)

definition sample_pending :: StreamProtector where
  "sample_pending = sample_protector \<lparr>sp_stream_state := RekeyPending 1, sp_next_seq_no := 1,
     sp_pending_rekey := Some \<lparr>pr_next_epoch_id = 1, pr_next_root = replicate 32 0\<rparr>\<rparr>"

definition record_at :: "RecordType \<Rightarrow> ItemId \<Rightarrow> EpochId \<Rightarrow> SeqNo \<Rightarrow> bytes \<Rightarrow> Record" where
  "record_at t item e s payload =
     \<lparr>rec_header = \<lparr>rh_version = 2, rh_stream_id = 7, rh_epoch_id = e, rh_seq_no = s,
        rh_record_type = t, rh_codec_mode = CM_None, rh_flags = 0, rh_item_id = item,
        rh_payload_len = of_nat (length payload)\<rparr>,
      rec_payload = payload, rec_auth_tag = replicate 16 0\<rparr>"

lemma record_at_sel [simp]:
  "rh_record_type (rec_header (record_at t item e s payload)) = t"
  "rec_payload (record_at t item e s payload) = payload"
  by (simp_all add: record_at_def)

lemma flag_set_0 [simp]: "flag_set 0 = {}"
  by (simp add: flag_set_def)

lemma record_at_valid:
  assumes "length payload < 2 ^ 32"
    and "t \<in> {MemoryRetire, SourceMeta} \<and> item \<noteq> 0 \<and> payload \<noteq> []
      \<or> t = Rekey \<and> item = 0 \<and> length payload = 36 \<or> t = Close \<and> item = 0 \<and> payload = []"
  shows "record_validate (record_at t item e s payload) = Ok (record_at t item e s payload)"
  using assms unat_of_nat_u32 [of "length payload"]
  by (auto simp: record_validate_Inr_iff header_validate_iff header_contract_def type_contract_def
      exact_codec_def record_at_def)

lemmas sample_eval =
  sample_protector_def sample_pending_def protector_new_def pending_def expected_epoch_id_def
  expected_seq_no_def active_root_def confirm_def toy_crypto_def

lemmas protect_eval =
  protect_record_def seal_record_def prepare_record_for_epoch_def active_root_for_def
  flags_contains_iff Let_def seal_payload_def derive_record_material_def finish_success_def
  advance_def install_rekey_def ROOT_LEN_def

lemma sample_protected:
  "protect_record toy_crypto sample_protector (record_at MemoryRetire 9 0 0 [1, 2]) =
    (sample_protector \<lparr>sp_stream_state := Established, sp_next_seq_no := 1\<rparr>,
     Ok ((record_at MemoryRetire 9 0 0 [1, 2]) \<lparr>rec_auth_tag := replicate 16 7\<rparr>))"
  by (simp add: protect_record_def seal_record_def record_at_valid)
    (simp add: sample_eval protect_eval record_at_def)

lemma sample_protected_pending:
  "protect_record toy_crypto sample_pending (record_at SourceMeta 9 1 0 [1, 2]) =
    (sample_protector \<lparr>sp_stream_state := Established, sp_current_epoch_id := 1, sp_next_seq_no := 1\<rparr>,
     Ok ((confirm True (record_at SourceMeta 9 1 0 [1, 2])) \<lparr>rec_auth_tag := replicate 16 7\<rparr>))"
  by (simp add: protect_record_def seal_record_def record_at_valid)
    (simp add: sample_eval protect_eval record_at_def)

section \<open>Properties\<close>

text \<open>C4: records arrive: when a sender has protected a run of records, a receiver in the same state
  opens the protected records in order.  If no \<open>SourceMeta\<close> or \<open>Repair\<close> is the first record after a rekey, the
  receiver accepts all of them, gets the payloads and headers that were sent (the first of an epoch carries
  POST_REKEY_CONFIRM) and ends in the sender's state, across rekeys and a close.  Otherwise it accepts all up to
  the first such record, and the run ends there with a validation error and a closed receiver.\<close>

theorem records_arrive:
  assumes "crypto_ok cr" and "run_ops (protect_record cr) sp rs = (sp', Ok ps)"
  shows "if confirmables (pending sp) rs
    then \<exists>out. run_ops (unprotect_record cr) sp ps = (sp', Ok out) \<and> list_all2 arrives rs out
    else \<exists>k<length rs. confirmables (pending sp) (take k rs) \<and> \<not> confirmables (pending sp) (take (Suc k) rs)
      \<and> (\<exists>q out. run_ops (unprotect_record cr) sp (take k ps) = (q, Ok out) \<and> list_all2 arrives (take k rs) out)
      \<and> (\<exists>q v. run_ops (unprotect_record cr) sp ps = (q, Err (PE_Validation v)) \<and> sp_stream_state q = Closed)"
  using assms by (rule record_run_cases)

lemma records_arrive_witness:
  defines "rekey \<equiv> record_at Rekey 0 0 0 (rekey_encode \<lparr>rk_next_epoch_id = 1, rk_seed = replicate 32 3\<rparr>)"
  shows "(\<exists>sp' ps out. run_ops (protect_record toy_crypto) sample_protector
        [rekey, record_at MemoryRetire 9 1 0 [1, 2], record_at Close 0 1 1 []] = (sp', Ok ps)
      \<and> run_ops (unprotect_record toy_crypto) sample_protector ps = (sp', Ok out)
      \<and> list_all2 arrives [rekey, record_at MemoryRetire 9 1 0 [1, 2], record_at Close 0 1 1 []] out
      \<and> sp_stream_state sp' = Closed)
    \<and> (\<exists>sp' ps q v. run_ops (protect_record toy_crypto) sample_protector
        [rekey, record_at SourceMeta 9 1 0 [1, 2]] = (sp', Ok ps) \<and> sp_stream_state sp' = Established
      \<and> run_ops (unprotect_record toy_crypto) sample_protector ps = (q, Err (PE_Validation v)))"
  (is "?A \<and> ?B")
proof
  have rekey: "record_validate rekey = Ok rekey"
    unfolding rekey_def by (rule record_at_valid) (simp_all add: rekey_encode_def)
  have dec: "rekey_decode (rekey_encode \<lparr>rk_next_epoch_id = 1, rk_seed = replicate 32 3\<rparr>)
      = Ok \<lparr>rk_next_epoch_id = 1, rk_seed = replicate 32 3\<rparr>" by (rule rekey_codec.dec_enc) simp
  have pending: "\<not> pending sample_protector" by (simp add: sample_eval)
  have sent: "\<exists>p. protect_record toy_crypto sample_protector rekey = (sample_pending, Ok p)"
    by (simp add: protect_record_def seal_record_def rekey)
      (simp add: sample_eval protect_eval record_at_def rekey_def dec derive_rekey_root_def)
  let ?c = "record_at Close 0 1 1 []" and ?m = "record_at MemoryRetire 9 1 0 [1, 2]"
  let ?sp = "sample_protector \<lparr>sp_stream_state := Established, sp_current_epoch_id := 1, sp_next_seq_no := 1\<rparr>"
  have m: "\<exists>p. protect_record toy_crypto sample_pending ?m = (?sp, Ok p)"
    by (simp add: protect_record_def seal_record_def record_at_valid)
      (simp add: sample_eval protect_eval record_at_def)
  have c: "\<exists>sp' p. protect_record toy_crypto ?sp ?c = (sp', Ok p) \<and> sp_stream_state sp' = Closed"
    by (simp add: protect_record_def seal_record_def record_at_valid)
      (simp add: sample_eval protect_eval record_at_def)
  from sent m c obtain sp' ps where run: "run_ops (protect_record toy_crypto) sample_protector [rekey, ?m, ?c] = (sp', Ok ps)"
    and closed: "sp_stream_state sp' = Closed" by auto
  from records_arrive [OF toy_crypto_ok run] show ?A
    using run closed pending by (auto simp: confirmable_def)
  let ?s = "record_at SourceMeta 9 1 0 [1, 2]"
  obtain qs where run': "run_ops (protect_record toy_crypto) sample_protector [rekey, ?s] = (?sp, Ok qs)"
    using sent sample_protected_pending by auto
  from records_arrive [OF toy_crypto_ok run'] show ?B
    using run' by (fastforce simp: confirmable_def rekey_def)
qed

text \<open>C5: frames arrive: when a sender has protected a run of frames, each of them below 4 GiB, a receiver in
  the sender's state opens them in order.  If no \<open>SourceMeta\<close> or \<open>Repair\<close> of any frame is the first record after a
  rekey, the receiver accepts every frame, gets every record of every frame, in order and with its content, and
  ends in the sender's state.  Otherwise it accepts the frames before the first one with such a record, refuses
  that one as a whole with a validation error, and is closed.\<close>

theorem frames_arrive:
  assumes "crypto_ok cr" and "\<forall>g \<in> set groups. length (encode_compact_transport_records g) < 2 ^ 32"
    and "run_ops (protect_transport_records cr) sp groups = (sp', Ok frames)"
  shows "if confirmables (pending sp) (concat groups)
    then \<exists>out. run_ops (unprotect_transport_frame cr) sp frames = (sp', Ok out)
      \<and> list_all2 (list_all2 arrives) groups out
    else \<exists>k<length groups. confirmables (pending sp) (concat (take k groups))
      \<and> \<not> confirmables (pending sp) (concat (take (Suc k) groups))
      \<and> (\<exists>q out. run_ops (unprotect_transport_frame cr) sp (take k frames) = (q, Ok out)
          \<and> list_all2 (list_all2 arrives) (take k groups) out)
      \<and> (\<exists>q v. run_ops (unprotect_transport_frame cr) sp frames = (q, Err (PE_Wire (Validation v)))
          \<and> sp_stream_state q = Closed)"
  using assms by (rule frame_run_cases)

text \<open>A frame with a rekey and the first record of its epoch, then a frame that closes; and the same with a
  \<open>SourceMeta\<close> after the rekey.\<close>

lemma frames_arrive_witness:
  defines "rekey \<equiv> record_at Rekey 0 0 0 (rekey_encode \<lparr>rk_next_epoch_id = 1, rk_seed = replicate 32 3\<rparr>)"
  shows "(\<exists>sp' fs out. run_ops (protect_transport_records toy_crypto) sample_protector
        [[rekey, record_at MemoryRetire 9 1 0 [1, 2]], [record_at Close 0 1 1 []]] = (sp', Ok fs)
      \<and> run_ops (unprotect_transport_frame toy_crypto) sample_protector fs = (sp', Ok out)
      \<and> list_all2 (list_all2 arrives) [[rekey, record_at MemoryRetire 9 1 0 [1, 2]], [record_at Close 0 1 1 []]] out)
    \<and> (\<exists>sp' fs q v. run_ops (protect_transport_records toy_crypto) sample_protector
        [[rekey, record_at SourceMeta 9 1 0 [1, 2]]] = (sp', Ok fs)
      \<and> run_ops (unprotect_transport_frame toy_crypto) sample_protector fs = (q, Err (PE_Wire (Validation v))))"
  (is "?A \<and> ?B")
proof
  have rekey: "record_validate rekey = Ok rekey"
    unfolding rekey_def by (rule record_at_valid) (simp_all add: rekey_encode_def)
  have dec: "rekey_decode (rekey_encode \<lparr>rk_next_epoch_id = 1, rk_seed = replicate 32 3\<rparr>)
      = Ok \<lparr>rk_next_epoch_id = 1, rk_seed = replicate 32 3\<rparr>" by (rule rekey_codec.dec_enc) simp
  have pending: "\<not> pending sample_protector" by (simp add: sample_eval)
  let ?c = "record_at Close 0 1 1 []" and ?m = "record_at MemoryRetire 9 1 0 [1, 2]"
    and ?s = "record_at SourceMeta 9 1 0 [1, 2]"
  let ?sp = "sample_protector \<lparr>sp_stream_state := Established, sp_current_epoch_id := 1, sp_next_seq_no := 1\<rparr>"
  have small: "length (encode_compact_transport_records g) < 2 ^ 32" if "g \<in> {[rekey, ?m], [?c], [rekey, ?s]}" for g
    using that by (auto simp: encode_compact_transport_records_def compact_record_bytes_def rekey_def rekey_encode_def)
  have first: "\<exists>prep f. protect_loop_step toy_crypto (sample_protector, [], None) rekey = Ok (sample_pending, prep, Some f)"
    by (simp add: protect_loop_step_def rekey)
      (simp add: sample_eval protect_eval record_at_def rekey_def dec derive_rekey_root_def)
  have second: "\<exists>prep'. protect_loop_step toy_crypto (sample_pending, prep, Some f) (record_at t 9 1 0 [1, 2])
      = Ok (?sp, prep', Some f)" if "t = MemoryRetire \<or> t = SourceMeta" for t prep f
    using that by (auto simp: protect_loop_step_def record_at_valid)
      (simp_all add: sample_eval protect_eval record_at_def)
  have sent: "\<exists>f. protect_transport_records toy_crypto sample_protector [rekey, record_at t 9 1 0 [1, 2]] = (?sp, Ok f)"
    if t: "t = MemoryRetire \<or> t = SourceMeta" for t
  proof -
    from first second [OF t] obtain prep f where
      "protect_loop toy_crypto (sample_protector, [], None) [rekey, record_at t 9 1 0 [1, 2]] = Ok (?sp, prep, Some f)"
      by fastforce
    then show ?thesis
      by (cases f) (simp add: protect_transport_records_def Let_def seal_payload_def toy_seal sample_open
          del: protect_loop.simps)
  qed
  have closed: "\<exists>sp' f. protect_transport_records toy_crypto ?sp [?c] = (sp', Ok f)"
    by (simp add: protect_transport_records_def protect_loop_step_def record_at_valid)
      (simp add: sample_eval protect_eval record_at_def)
  from sent [of MemoryRetire] closed obtain sp' fs where
    run: "run_ops (protect_transport_records toy_crypto) sample_protector [[rekey, ?m], [?c]] = (sp', Ok fs)" by auto
  from frames_arrive [OF toy_crypto_ok _ run] show ?A
    using run pending small by (auto simp: confirmable_def)
  from sent [of SourceMeta] obtain gs where
    run': "run_ops (protect_transport_records toy_crypto) sample_protector [[rekey, ?s]] = (?sp, Ok gs)" by auto
  from frames_arrive [OF toy_crypto_ok _ run'] show ?B
    using run' small by (fastforce simp: confirmable_def rekey_def)
qed

text \<open>C6: the receiver fails closed: after any error of \<open>unprotect_record\<close> or \<open>unprotect_transport_frame\<close>
  the stream is closed, and from then on all four operations return \<open>StreamClosed\<close> and change nothing.\<close>

theorem receive_error_is_final:
  assumes "unprotect_record cr sp p = (sp', Err e) \<or> unprotect_transport_frame cr sp f = (sp', Err e)"
  shows "sp_stream_state sp' = Closed
    \<and> protect_record cr sp' r = (sp', Err StreamClosed)
    \<and> unprotect_record cr sp' q = (sp', Err StreamClosed)
    \<and> protect_transport_records cr sp' rs = (sp', Err StreamClosed)
    \<and> unprotect_transport_frame cr sp' g = (sp', Err StreamClosed)"
proof -
  have "sp_stream_state sp' = Closed"
    using assms record_channel.recv_error_closes [of cr sp p sp' e]
      frame_channel.recv_error_closes [of cr sp f sp' e] by blast
  then show ?thesis by (simp add: closed_protect closed_unprotect closed_frame)
qed

lemma receive_error_is_final_witness:
  "snd (unprotect_transport_frame toy_crypto
      (sample_protector \<lparr>sp_stream_state := Closed\<rparr>) []) = Err StreamClosed
   \<and> unprotect_transport_frame toy_crypto sample_protector [] =
      (sample_protector \<lparr>sp_stream_state := Closed\<rparr>, Err (PE_Wire (TruncatedTransportFrame 0 41)))"
proof -
  have e: "unprotect_transport_frame toy_crypto sample_protector [] =
      (sample_protector \<lparr>sp_stream_state := Closed\<rparr>, Err (PE_Wire (TruncatedTransportFrame 0 41)))"
    by (simp add: unprotect_transport_frame_def open_frame_def decode_protected_transport_frame_def
        fail_def sample_protector_def protector_new_def)
  from receive_error_is_final [OF disjI2 [OF this]]
  have "unprotect_transport_frame toy_crypto (sample_protector \<lparr>sp_stream_state := Closed\<rparr>) [] =
      (sample_protector \<lparr>sp_stream_state := Closed\<rparr>, Err StreamClosed)" by blast
  with e show ?thesis by simp
qed

text \<open>C7: no replay and no reordering: the (epoch, sequence number) pairs of the records one receiver
  accepts increase strictly, as long as neither counter wraps.\<close>

theorem accepted_records_increase:
  assumes "run_ops (unprotect_record cr) sp ps = (sp', Ok rs)"
    and "unat (expected_epoch_id sp) + length ps < 2 ^ 32"
    and "unat (expected_seq_no sp) + length ps < 2 ^ 64"
  shows "sorted_wrt pos_less (map position ps)"
  using accepted_positions [OF assms] by blast

lemma accepted_records_increase_witness:
  "sorted_wrt pos_less (map position [(record_at MemoryRetire 9 0 0 [1, 2]) \<lparr>rec_auth_tag := replicate 16 7\<rparr>])"
proof -
  let ?p = "(record_at MemoryRetire 9 0 0 [1, 2]) \<lparr>rec_auth_tag := replicate 16 7\<rparr>"
  have "unprotect_record toy_crypto sample_protector ?p =
      (sample_protector \<lparr>sp_stream_state := Established, sp_next_seq_no := 1\<rparr>, Ok ?p)"
    using unprotect_protect [OF toy_crypto_ok _ sample_protected]
    by (simp add: confirmable_def record_at_def sample_eval)
  then have "run_ops (unprotect_record toy_crypto) sample_protector [?p] =
      (sample_protector \<lparr>sp_stream_state := Established, sp_next_seq_no := 1\<rparr>, Ok [?p])" by simp
  from accepted_records_increase [OF this] show ?thesis by (simp add: sample_eval)
qed

lemma plain_record_after_rekey_closes_witness:
  "\<exists>p e. snd (protect_record toy_crypto sample_pending (record_at SourceMeta 9 1 0 [1, 2])) = Ok p
    \<and> snd (unprotect_record toy_crypto sample_pending p) = Err (PE_Validation e)"
  using plain_record_after_rekey_closes [OF _ _ sample_protected_pending] sample_protected_pending
  by (fastforce simp: sample_pending_def pending_def record_at_def)

text \<open>A corner of the code: \<open>make_rekey_payload\<close> counts from the current epoch even while a rekey is
  pending, so a second rekey sent as the first record of the new epoch is refused as
  \<open>InvalidNextEpoch\<close>; the sender has moved past the record all the same, and no record was emitted.\<close>

theorem back_to_back_rekey_desynchronises:
  assumes "sp_pending_rekey sp = Some pend" and "pr_next_epoch_id pend = sp_current_epoch_id sp + 1"
    and "seal_record cr sp r = Ok (r1, c, t, nr)" and "sp_stream_state sp \<noteq> Closed"
    and "rh_record_type (rec_header r) = Rekey" and "length seed = 32"
    and "rec_payload r = rekey_encode (make_rekey_payload sp seed)"
  shows "protect_record cr sp r =
      (advance sp (rec_header r1) nr, Err (InvalidNextEpoch (pr_next_epoch_id pend) (pr_next_epoch_id pend)))
    \<and> expected_position (advance sp (rec_header r1) nr) = (pr_next_epoch_id pend, 1)"
proof -
  have r1: "r1 = confirm (pending sp) r" and pos: "rh_seq_no (rec_header r) = 0"
    using assms(1,3) by (auto simp: seal_record_iff prepare_iff expected_seq_no_def)
  have e: "expected_epoch_id sp = pr_next_epoch_id pend" using assms(1) by (simp add: expected_epoch_id_def)
  have "finish_success cr sp (rec_header r1) (rec_payload r1) nr = (advance sp (rec_header r1) nr,
      Err (InvalidNextEpoch (pr_next_epoch_id pend) (pr_next_epoch_id pend)))"
    using finish_rekey_wrong_epoch [of "rec_header r1" "make_rekey_payload sp seed" sp cr nr] assms e
    by (simp add: r1 make_rekey_payload_def)
  then show ?thesis
    using assms(3,4) pos
    by (simp add: protect_record_def expected_position_def r1 e expected_seq_no_def)
      (simp add: expected_epoch_id_def flip: e)
qed

lemma back_to_back_rekey_desynchronises_witness:
  "snd (protect_record toy_crypto sample_pending
      (record_at Rekey 0 1 0 (rekey_encode (make_rekey_payload sample_pending (replicate 32 3)))))
    = Err (InvalidNextEpoch 1 1)"
proof -
  let ?r = "record_at Rekey 0 1 0 (rekey_encode (make_rekey_payload sample_pending (replicate 32 3)))"
  have "length (rekey_encode (make_rekey_payload sample_pending (replicate 32 3))) = 36"
    by (simp add: rekey_encode_def make_rekey_payload_def)
  then have "record_validate ?r = Ok ?r" by (simp add: record_at_valid)
  then have "\<exists>r1 c t nr. seal_record toy_crypto sample_pending ?r = Ok (r1, c, t, nr)"
    by (simp add: seal_record_def) (simp add: sample_eval protect_eval record_at_def)
  then obtain r1 c t nr where "seal_record toy_crypto sample_pending ?r = Ok (r1, c, t, nr)" by blast
  from back_to_back_rekey_desynchronises [OF _ _ this] show ?thesis
    by (simp add: sample_pending_def sample_protector_def protector_new_def record_at_def)
qed

text \<open>A corner of the code: inside one frame nothing stops a record after a \<open>Close\<close>; a frame that
  carries \<open>Close\<close> and then \<open>Rekey\<close> is sent and accepted, and leaves both ends in \<open>RekeyPending\<close> instead
  of \<open>Closed\<close>.\<close>

theorem close_then_rekey_reopens:
  assumes "frame_carries cr sp [c, k]"
    and "rh_record_type (rec_header c) = Close" and "rh_record_type (rec_header k) = Rekey"
    and "protect_transport_records cr sp [c, k] = (sp', Ok f)"
  shows "(\<exists>e. sp_stream_state sp' = RekeyPending e)
    \<and> unprotect_transport_frame cr sp f = (sp', Ok (delivered (pending sp) [c, k]))"
proof -
  from assms(4) obtain fr where "protect_loop cr (sp, [], None) ([c] @ [k]) = Ok (sp', fr)"
    by (rule protect_transport_Ok) auto
  then obtain prep frame where "protect_loop cr (sp, [], None) ([c] @ [k]) = Ok (sp', prep, frame)"
    by (cases fr) blast
  from protect_loop_rekey_last [OF this assms(3)] unprotect_protect_frame [OF assms(1,4)]
  show ?thesis by blast
qed

lemma close_then_rekey_reopens_witness:
  "\<exists>sp' f e. protect_transport_records toy_crypto sample_protector
      [record_at Close 0 0 0 [], record_at Rekey 0 0 1 (rekey_encode \<lparr>rk_next_epoch_id = 1, rk_seed = replicate 32 3\<rparr>)]
    = (sp', Ok f) \<and> sp_stream_state sp' = RekeyPending e"
proof -
  let ?c = "record_at Close 0 0 0 []"
  let ?pl = "rekey_encode \<lparr>rk_next_epoch_id = 1, rk_seed = replicate 32 3\<rparr>"
  let ?k = "record_at Rekey 0 0 1 ?pl"
  have len: "length ?pl = 36" by (simp add: rekey_encode_def)
  have dec: "rekey_decode ?pl = Ok \<lparr>rk_next_epoch_id = 1, rk_seed = replicate 32 3\<rparr>"
    by (rule rekey_codec.dec_enc) simp
  have valid: "record_validate ?c = Ok ?c" "record_validate ?k = Ok ?k"
    using len by (auto intro!: record_at_valid)
  have carries: "frame_carries toy_crypto sample_protector [?c, ?k]"
    using len by (simp add: frame_carries_def toy_crypto_ok confirmable_def pending_def
        sample_protector_def protector_new_def encode_compact_transport_records_def
        compact_record_bytes_def confirm_def)
  have "\<exists>w prep fr. protect_loop toy_crypto (sample_protector, [], None) [?c, ?k] = Ok (w, prep, Some fr)"
    by (simp add: protect_loop_step_def valid)
      (simp add: sample_eval protect_eval record_at_def dec)
  then obtain w prep fr where
    "protect_loop toy_crypto (sample_protector, [], None) [?c, ?k] = Ok (w, prep, Some fr)" by blast
  then have "\<exists>sp' f. protect_transport_records toy_crypto sample_protector [?c, ?k] = (sp', Ok f)"
    by (cases fr) (simp add: protect_transport_records_def Let_def seal_payload_def toy_seal sample_open
        del: protect_loop.simps)
  then obtain sp' f where f: "protect_transport_records toy_crypto sample_protector [?c, ?k] = (sp', Ok f)"
    by blast
  from close_then_rekey_reopens [OF carries _ _ f] f show ?thesis by auto
qed

end
