(* ===== verification/Pulzz_Datagram.thy ===== *)
theory Pulzz_Datagram
  imports Pulzz_Protocol
begin

text \<open>
  The datagram transport below the session (\<open>shared_protocol/src/datagram.rs\<close>): packets and their
  bytes, fragmenting a frame, the send window, reassembly with its missing ranges, and the packets that
  answer a repair request.  \<open>HashMap\<close>s are association lists here; the one iteration over a \<open>HashMap\<close>
  (in the session) takes its order as an argument.
\<close>

section \<open>Packets\<close>

definition DATAGRAM_PROTOCOL_VERSION :: u8 where "DATAGRAM_PROTOCOL_VERSION = 1"
definition DATAGRAM_HEADER_LEN :: nat where "DATAGRAM_HEADER_LEN = 1 + 1 + 8 + 8 + 2 + 2 + 2"
definition DATAGRAM_ACK_LEN :: nat where "DATAGRAM_ACK_LEN = 1 + 1 + 8 + 8"
definition DATAGRAM_KEEPALIVE_LEN :: nat where "DATAGRAM_KEEPALIVE_LEN = 1 + 1 + 8"
definition DATAGRAM_CLOSE_LEN :: nat where "DATAGRAM_CLOSE_LEN = 1 + 1 + 8 + 2"

lemmas datagram_lens [simp] =
  DATAGRAM_PROTOCOL_VERSION_def DATAGRAM_HEADER_LEN_def DATAGRAM_ACK_LEN_def
  DATAGRAM_KEEPALIVE_LEN_def DATAGRAM_CLOSE_LEN_def

datatype DatagramCarrierKind = Udp | QuicDatagram | WebTransportDatagram

definition DatagramCarrierKind_parse :: "string \<Rightarrow> DatagramCarrierKind option" where
  "DatagramCarrierKind_parse v =
     (if v = ''udp'' then Some Udp
      else if v = ''quic_datagram'' \<or> v = ''quic_dgram'' then Some QuicDatagram
      else if v = ''webtransport_datagram'' \<or> v = ''webtransport_dgram'' \<or> v = ''webtransport''
      then Some WebTransportDatagram
      else None)"

fun DatagramCarrierKind_slug :: "DatagramCarrierKind \<Rightarrow> string" where
  "DatagramCarrierKind_slug Udp = ''udp''"
| "DatagramCarrierKind_slug QuicDatagram = ''quic_datagram''"
| "DatagramCarrierKind_slug WebTransportDatagram = ''webtransport_datagram''"

lemma carrier_parse_slug: "DatagramCarrierKind_parse (DatagramCarrierKind_slug k) = Some k"
  by (cases k) (simp_all add: DatagramCarrierKind_parse_def)

record DatagramReliabilityConfig =
  target_datagram_payload_size_bytes :: nat
  repair_timeout_ms :: u64
  max_in_flight_messages :: nat
  max_chunks_per_message :: nat
  keepalive_interval_ms :: u64
  max_repair_attempts :: u32

definition default_reliability :: DatagramReliabilityConfig where
  "default_reliability =
     \<lparr>target_datagram_payload_size_bytes = 1200, repair_timeout_ms = 50,
      max_in_flight_messages = 256, max_chunks_per_message = 2048,
      keepalive_interval_ms = 5000, max_repair_attempts = 8\<rparr>"

datatype DatagramPacketKind = PK_Bootstrap | PK_Data | PK_Ack | PK_RepairRequest | PK_Keepalive | PK_Close

fun DatagramPacketKind_disc :: "DatagramPacketKind \<Rightarrow> u8" where
  "DatagramPacketKind_disc PK_Bootstrap = 1"
| "DatagramPacketKind_disc PK_Data = 2"
| "DatagramPacketKind_disc PK_Ack = 3"
| "DatagramPacketKind_disc PK_RepairRequest = 4"
| "DatagramPacketKind_disc PK_Keepalive = 5"
| "DatagramPacketKind_disc PK_Close = 6"

record DatagramDataHeader =
  dh_stream_id :: StreamId
  dh_message_id :: u64
  dh_chunk_index :: u16
  dh_chunk_count :: u16
  dh_payload_len :: u16

record DatagramAck =
  da_stream_id :: StreamId
  da_message_id :: u64

record DatagramChunkRange =
  cr_start :: u16
  cr_end :: u16

record DatagramRepairRequest =
  dr_stream_id :: StreamId
  dr_message_id :: u64
  dr_missing_ranges :: "DatagramChunkRange list"

record DatagramKeepalive =
  dk_stream_id :: StreamId

record DatagramClose =
  dc_stream_id :: StreamId
  dc_code :: u16

datatype DatagramPacket =
    DP_Bootstrap StreamId bytes
  | DP_Data DatagramDataHeader bytes
  | DP_Ack DatagramAck
  | DP_RepairRequest DatagramRepairRequest
  | DP_Keepalive DatagramKeepalive
  | DP_Close DatagramClose

datatype DatagramWireError =
    DW_UnsupportedVersion u8
  | UnknownPacketKind u8
  | TruncatedPacket nat nat
  | PayloadTooLarge nat
  | PayloadLengthMismatch nat nat
  | InvalidChunkIndex u16 u16
  | InvalidRepairRange u16 u16
  | TooManyRepairRanges nat
  | TooManyChunksForMessage nat nat

fun packet_kind :: "DatagramPacket \<Rightarrow> DatagramPacketKind" where
  "packet_kind (DP_Bootstrap _ _) = PK_Bootstrap"
| "packet_kind (DP_Data _ _) = PK_Data"
| "packet_kind (DP_Ack _) = PK_Ack"
| "packet_kind (DP_RepairRequest _) = PK_RepairRequest"
| "packet_kind (DP_Keepalive _) = PK_Keepalive"
| "packet_kind (DP_Close _) = PK_Close"

fun packet_stream_id :: "DatagramPacket \<Rightarrow> StreamId" where
  "packet_stream_id (DP_Bootstrap stream_id _) = stream_id"
| "packet_stream_id (DP_Data header _) = dh_stream_id header"
| "packet_stream_id (DP_Ack ack) = da_stream_id ack"
| "packet_stream_id (DP_RepairRequest repair) = dr_stream_id repair"
| "packet_stream_id (DP_Keepalive keepalive) = dk_stream_id keepalive"
| "packet_stream_id (DP_Close close) = dc_stream_id close"

definition packet_prefix :: "DatagramPacketKind \<Rightarrow> bytes" where
  "packet_prefix k = [DATAGRAM_PROTOCOL_VERSION, DatagramPacketKind_disc k]"

definition range_bytes :: "DatagramChunkRange \<Rightarrow> bytes" where
  "range_bytes r = le16 (cr_start r) @ le16 (cr_end r)"

fun packet_to_bytes :: "DatagramPacket \<Rightarrow> DatagramWireError + bytes" where
  "packet_to_bytes (DP_Bootstrap stream_id frame) =
     (if length frame \<ge> 2 ^ 16 then Err (PayloadTooLarge (length frame))
      else Ok (packet_prefix PK_Bootstrap @ le64 stream_id @ le64 0 @ le16 0 @ le16 1
                 @ le16 (of_nat (length frame)) @ frame))"
| "packet_to_bytes (DP_Data h payload) =
     (if length payload \<noteq> unat (dh_payload_len h)
      then Err (PayloadLengthMismatch (unat (dh_payload_len h)) (length payload))
      else Ok (packet_prefix PK_Data @ le64 (dh_stream_id h) @ le64 (dh_message_id h)
                 @ le16 (dh_chunk_index h) @ le16 (dh_chunk_count h) @ le16 (dh_payload_len h) @ payload))"
| "packet_to_bytes (DP_Ack ack) =
     Ok (packet_prefix PK_Ack @ le64 (da_stream_id ack) @ le64 (da_message_id ack))"
| "packet_to_bytes (DP_RepairRequest repair) =
     (if length (dr_missing_ranges repair) \<ge> 2 ^ 8
      then Err (TooManyRepairRanges (length (dr_missing_ranges repair)))
      else Ok (packet_prefix PK_RepairRequest @ le64 (dr_stream_id repair) @ le64 (dr_message_id repair)
                 @ [of_nat (length (dr_missing_ranges repair))]
                 @ concat (map range_bytes (dr_missing_ranges repair))))"
| "packet_to_bytes (DP_Keepalive k) = Ok (packet_prefix PK_Keepalive @ le64 (dk_stream_id k))"
| "packet_to_bytes (DP_Close c) = Ok (packet_prefix PK_Close @ le64 (dc_stream_id c) @ le16 (dc_code c))"

text \<open>One turn of the loop over the ranges of a repair request; the length was checked before.\<close>

definition parse_range :: "bytes \<Rightarrow> DatagramWireError + DatagramChunkRange \<times> bytes" where
  "parse_range bs =
     (let start = of_le16 (take 2 bs); end = of_le16 (slice 2 4 bs) in
      if end < start then Err (InvalidRepairRange start end)
      else Ok (\<lparr>cr_start = start, cr_end = end\<rparr>, drop 4 bs))"

definition packet_from_bytes :: "bytes \<Rightarrow> DatagramWireError + DatagramPacket" where
  "packet_from_bytes bs =
     (if length bs < 2 then Err (TruncatedPacket 2 (length bs))
      else if bs ! 0 \<noteq> DATAGRAM_PROTOCOL_VERSION then Err (DW_UnsupportedVersion (bs ! 0))
      else if bs ! 1 = DatagramPacketKind_disc PK_Bootstrap then
        (if length bs < DATAGRAM_HEADER_LEN then Err (TruncatedPacket DATAGRAM_HEADER_LEN (length bs))
         else let payload_len = unat (of_le16 (slice 22 24 bs)) in
           if length bs \<noteq> DATAGRAM_HEADER_LEN + payload_len
           then Err (PayloadLengthMismatch payload_len (length bs - DATAGRAM_HEADER_LEN))
           else Ok (DP_Bootstrap (of_le64 (slice 2 10 bs)) (drop DATAGRAM_HEADER_LEN bs)))
      else if bs ! 1 = DatagramPacketKind_disc PK_Data then
        (if length bs < DATAGRAM_HEADER_LEN then Err (TruncatedPacket DATAGRAM_HEADER_LEN (length bs))
         else let h = \<lparr>dh_stream_id = of_le64 (slice 2 10 bs), dh_message_id = of_le64 (slice 10 18 bs),
                       dh_chunk_index = of_le16 (slice 18 20 bs), dh_chunk_count = of_le16 (slice 20 22 bs),
                       dh_payload_len = of_le16 (slice 22 24 bs)\<rparr> in
           if dh_chunk_count h = 0 \<or> dh_chunk_index h \<ge> dh_chunk_count h
           then Err (InvalidChunkIndex (dh_chunk_index h) (dh_chunk_count h))
           else let payload_len = unat (dh_payload_len h) in
             if length bs \<noteq> DATAGRAM_HEADER_LEN + payload_len
             then Err (PayloadLengthMismatch payload_len (length bs - DATAGRAM_HEADER_LEN))
             else Ok (DP_Data h (drop DATAGRAM_HEADER_LEN bs)))
      else if bs ! 1 = DatagramPacketKind_disc PK_Ack then
        (if length bs \<noteq> DATAGRAM_ACK_LEN then Err (TruncatedPacket DATAGRAM_ACK_LEN (length bs))
         else Ok (DP_Ack \<lparr>da_stream_id = of_le64 (slice 2 10 bs), da_message_id = of_le64 (slice 10 18 bs)\<rparr>))
      else if bs ! 1 = DatagramPacketKind_disc PK_RepairRequest then
        (if length bs < 1 + 1 + 8 + 8 + 1 then Err (TruncatedPacket 19 (length bs))
         else let range_count = unat (bs ! 18); expected_len = 19 + range_count * 4 in
           if length bs \<noteq> expected_len then Err (TruncatedPacket expected_len (length bs))
           else and_then (dec_many parse_range range_count (drop 19 bs)) (\<lambda>(missing_ranges, _).
             Ok (DP_RepairRequest \<lparr>dr_stream_id = of_le64 (slice 2 10 bs),
                   dr_message_id = of_le64 (slice 10 18 bs), dr_missing_ranges = missing_ranges\<rparr>)))
      else if bs ! 1 = DatagramPacketKind_disc PK_Keepalive then
        (if length bs \<noteq> DATAGRAM_KEEPALIVE_LEN then Err (TruncatedPacket DATAGRAM_KEEPALIVE_LEN (length bs))
         else Ok (DP_Keepalive \<lparr>dk_stream_id = of_le64 (slice 2 10 bs)\<rparr>))
      else if bs ! 1 = DatagramPacketKind_disc PK_Close then
        (if length bs \<noteq> DATAGRAM_CLOSE_LEN then Err (TruncatedPacket DATAGRAM_CLOSE_LEN (length bs))
         else Ok (DP_Close \<lparr>dc_stream_id = of_le64 (slice 2 10 bs), dc_code = of_le16 (slice 10 12 bs)\<rparr>))
      else Err (UnknownPacketKind (bs ! 1)))"

section \<open>Fragments\<close>

fun fragment_loop ::
  "StreamId \<Rightarrow> u64 \<Rightarrow> u16 \<Rightarrow> nat \<Rightarrow> bytes list \<Rightarrow> DatagramWireError + DatagramPacket list" where
  "fragment_loop stream_id message_id chunk_count chunk_index [] = Ok []"
| "fragment_loop stream_id message_id chunk_count chunk_index (chunk # rest) =
     (if length chunk \<ge> 2 ^ 16 then Err (PayloadTooLarge (length chunk))
      else and_then (fragment_loop stream_id message_id chunk_count (Suc chunk_index) rest) (\<lambda>packets.
        Ok (DP_Data \<lparr>dh_stream_id = stream_id, dh_message_id = message_id,
                     dh_chunk_index = of_nat chunk_index, dh_chunk_count = chunk_count,
                     dh_payload_len = of_nat (length chunk)\<rparr> chunk # packets)))"

definition fragment_transport_frame ::
  "StreamId \<Rightarrow> u64 \<Rightarrow> bytes \<Rightarrow> DatagramReliabilityConfig \<Rightarrow> DatagramWireError + DatagramPacket list" where
  "fragment_transport_frame stream_id message_id frame config =
     (let chunk_payload_size = max (target_datagram_payload_size_bytes config) 1;
          chunk_count = div_ceil (length frame) chunk_payload_size in
      if chunk_count > max_chunks_per_message config
      then Err (TooManyChunksForMessage chunk_count (max_chunks_per_message config))
      else let chunk_count = max chunk_count 1 in
        if chunk_count \<ge> 2 ^ 16
        then Err (TooManyChunksForMessage chunk_count (max_chunks_per_message config))
        else fragment_loop stream_id message_id (of_nat chunk_count) 0 (chunks chunk_payload_size frame))"

section \<open>Send window\<close>

record PendingDatagramMessage =
  pm_stream_id :: StreamId
  pm_message_id :: u64
  pm_chunks :: "bytes list"
  pm_repair_attempts :: u32

type_synonym DatagramSendWindow = "(u64, PendingDatagramMessage) ord_map"

text \<open>The \<open>while\<close> loop removes the first key, which is the head of the list.\<close>

fun evict_oldest :: "nat \<Rightarrow> DatagramSendWindow \<Rightarrow> DatagramSendWindow" where
  "evict_oldest max_messages [] = []"
| "evict_oldest max_messages (e # w) =
     (if length (e # w) > max_messages then evict_oldest max_messages w else e # w)"

definition window_insert ::
  "PendingDatagramMessage \<Rightarrow> nat \<Rightarrow> DatagramSendWindow \<Rightarrow> DatagramSendWindow" where
  "window_insert m max_messages w = evict_oldest max_messages (om_insert (pm_message_id m) m w)"

definition window_acknowledge :: "u64 \<Rightarrow> DatagramSendWindow \<Rightarrow> DatagramSendWindow \<times> bool" where
  "window_acknowledge message_id w = (om_remove message_id w, om_get w message_id \<noteq> None)"

section \<open>Reassembly\<close>

record PartialMessage =
  pt_chunk_count :: u16
  pt_received :: "(u16, bytes) ord_map"

definition partial_new :: "u16 \<Rightarrow> PartialMessage" where
  "partial_new chunk_count = \<lparr>pt_chunk_count = chunk_count, pt_received = []\<rparr>"

definition partial_insert :: "u16 \<Rightarrow> bytes \<Rightarrow> PartialMessage \<Rightarrow> PartialMessage \<times> bool" where
  "partial_insert chunk_index payload pm =
     (let received = (case om_get (pt_received pm) chunk_index of
            Some _ \<Rightarrow> pt_received pm
          | None \<Rightarrow> om_insert chunk_index payload (pt_received pm)) in
      (pm \<lparr>pt_received := received\<rparr>, length received = unat (pt_chunk_count pm)))"

definition saturating_pred :: "u16 \<Rightarrow> u16" where
  "saturating_pred w = (if w = 0 then 0 else w - 1)"

fun missing_step ::
  "PartialMessage \<Rightarrow> DatagramChunkRange list \<times> u16 option \<Rightarrow> u16 \<Rightarrow> DatagramChunkRange list \<times> u16 option"
where
  "missing_step pm (missing, range_start) index =
     (case (om_get (pt_received pm) index \<noteq> None, range_start) of
        (False, None) \<Rightarrow> (missing, Some index)
      | (True, Some start) \<Rightarrow>
          (missing @ [\<lparr>cr_start = start, cr_end = saturating_pred index\<rparr>], None)
      | _ \<Rightarrow> (missing, range_start))"

definition missing_ranges :: "PartialMessage \<Rightarrow> DatagramChunkRange list" where
  "missing_ranges pm =
     (case foldl (missing_step pm) ([], None) (map of_nat [0..<unat (pt_chunk_count pm)]) of
        (missing, None) \<Rightarrow> missing
      | (missing, Some start) \<Rightarrow>
          missing @ [\<lparr>cr_start = start, cr_end = saturating_pred (pt_chunk_count pm)\<rparr>])"

definition into_payload :: "PartialMessage \<Rightarrow> bytes" where
  "into_payload pm = concat (map snd (pt_received pm))"

record DatagramReassemblyBuffer =
  rb_expected_message_id :: u64
  rb_partial :: "(u64, PartialMessage) ord_map"
  rb_completed :: "(u64, bytes) ord_map"
  rb_acknowledged :: "(u64, unit) ord_map"

definition buffer_new :: DatagramReassemblyBuffer where
  "buffer_new = \<lparr>rb_expected_message_id = 0, rb_partial = [], rb_completed = [], rb_acknowledged = []\<rparr>"

definition insert_data ::
  "DatagramDataHeader \<Rightarrow> bytes \<Rightarrow> DatagramReassemblyBuffer
     \<Rightarrow> DatagramReassemblyBuffer \<times> (DatagramWireError + bool)" where
  "insert_data h payload rb =
     (let entry = (case om_get (rb_partial rb) (dh_message_id h) of
            Some e \<Rightarrow> e
          | None \<Rightarrow> partial_new (dh_chunk_count h)) in
      if pt_chunk_count entry \<noteq> dh_chunk_count h
      then (rb, Err (InvalidChunkIndex (dh_chunk_index h) (dh_chunk_count h)))
      else let (message, complete) = partial_insert (dh_chunk_index h) payload entry in
        if complete then
          (rb \<lparr>rb_partial := om_remove (dh_message_id h) (rb_partial rb),
              rb_completed := om_insert (dh_message_id h) (into_payload message) (rb_completed rb),
              rb_acknowledged := om_insert (dh_message_id h) () (rb_acknowledged rb)\<rparr>, Ok True)
        else (rb \<lparr>rb_partial := om_insert (dh_message_id h) message (rb_partial rb)\<rparr>, Ok False))"

definition missing_ranges_for :: "u64 \<Rightarrow> DatagramReassemblyBuffer \<Rightarrow> DatagramChunkRange list option" where
  "missing_ranges_for message_id rb = map_option missing_ranges (om_get (rb_partial rb) message_id)"

definition saturating_succ :: "'a::len word \<Rightarrow> 'a word" where
  "saturating_succ w = (if w = - 1 then w else w + 1)"

definition pop_next_ready ::
  "DatagramReassemblyBuffer \<Rightarrow> DatagramReassemblyBuffer \<times> (u64 \<times> bytes) option" where
  "pop_next_ready rb =
     (case om_get (rb_completed rb) (rb_expected_message_id rb) of
        None \<Rightarrow> (rb, None)
      | Some payload \<Rightarrow>
          (rb \<lparr>rb_completed := om_remove (rb_expected_message_id rb) (rb_completed rb),
              rb_expected_message_id := saturating_succ (rb_expected_message_id rb)\<rparr>,
           Some (rb_expected_message_id rb, payload)))"

definition take_acknowledged :: "DatagramReassemblyBuffer \<Rightarrow> u64 list" where
  "take_acknowledged rb = om_keys (rb_acknowledged rb)"

definition clear_acknowledged :: "DatagramReassemblyBuffer \<Rightarrow> DatagramReassemblyBuffer" where
  "clear_acknowledged rb = rb \<lparr>rb_acknowledged := []\<rparr>"

section \<open>Repair\<close>

text \<open>\<open>chunk_index\<close> runs through the inclusive range; \<open>chunks.get\<close> skips what is out of range.\<close>

definition range_indices :: "DatagramChunkRange \<Rightarrow> nat list" where
  "range_indices r = [unat (cr_start r)..<Suc (unat (cr_end r))]"

definition repair_packet :: "PendingDatagramMessage \<Rightarrow> nat \<Rightarrow> DatagramPacket list" where
  "repair_packet pending chunk_index =
     (if chunk_index < length (pm_chunks pending) then
        [DP_Data \<lparr>dh_stream_id = pm_stream_id pending, dh_message_id = pm_message_id pending,
                  dh_chunk_index = of_nat chunk_index,
                  dh_chunk_count = of_nat (length (pm_chunks pending)),
                  dh_payload_len = of_nat (length (pm_chunks pending ! chunk_index))\<rparr>
           (pm_chunks pending ! chunk_index)]
      else [])"

definition repair_packets_for_message ::
  "PendingDatagramMessage \<Rightarrow> DatagramChunkRange list \<Rightarrow> DatagramPacket list" where
  "repair_packets_for_message pending ranges =
     concat (map (\<lambda>range. concat (map (repair_packet pending) (range_indices range))) ranges)"

fun encode_datagram_frames :: "DatagramPacket list \<Rightarrow> DatagramWireError + bytes list" where
  "encode_datagram_frames [] = Ok []"
| "encode_datagram_frames (p # ps) =
     and_then (packet_to_bytes p) (\<lambda>b. and_then (encode_datagram_frames ps) (\<lambda>bs. Ok (b # bs)))"

section \<open>The packet codec\<close>

fun packet_ok :: "DatagramPacket \<Rightarrow> bool" where
  "packet_ok (DP_Bootstrap _ frame) \<longleftrightarrow> length frame < 2 ^ 16"
| "packet_ok (DP_Data h payload) \<longleftrightarrow>
     length payload = unat (dh_payload_len h) \<and> dh_chunk_index h < dh_chunk_count h"
| "packet_ok (DP_RepairRequest repair) \<longleftrightarrow>
     length (dr_missing_ranges repair) < 2 ^ 8
     \<and> (\<forall>r \<in> set (dr_missing_ranges repair). cr_start r \<le> cr_end r)"
| "packet_ok _ \<longleftrightarrow> True"

interpretation range_codec: stream_codec range_bytes parse_range "\<lambda>r. cr_start r \<le> cr_end r"
  by unfold_locales (simp add: range_bytes_def parse_range_def slice_def not_less [symmetric])

lemma range_bytes_total: "length (concat (map range_bytes rs)) = length rs * 4"
  by (induction rs) (simp_all add: range_bytes_def)

lemma packet_to_bytes_ok: "packet_ok p \<Longrightarrow> \<exists>bs. packet_to_bytes p = Ok bs"
  by (cases p) auto

lemma word_not_0_of_less: "(i :: 'a::len word) < n \<Longrightarrow> n \<noteq> 0"
  by auto

lemma packet_roundtrip:
  assumes "packet_ok p" and "packet_to_bytes p = Ok bs"
  shows "packet_from_bytes bs = Ok p"
proof (cases p)
  case (DP_RepairRequest repair)
  define rs where "rs = dr_missing_ranges repair"
  define enc where "enc = concat (map range_bytes rs)"
  have len: "length rs < 2 ^ 8" and ordered: "\<forall>r \<in> set rs. cr_start r \<le> cr_end r"
    using assms(1) by (simp_all add: DP_RepairRequest rs_def)
  have n: "unat (of_nat (length rs) :: u8) = length rs"
    using len by (simp add: unat_of_nat_u8)
  have dec: "dec_many parse_range (length rs) enc = Ok (rs, [])"
    using range_codec.dec_many_enc [OF ordered, of "[]"] by (simp add: enc_def)
  have bs: "bs = packet_prefix PK_RepairRequest @ le64 (dr_stream_id repair) @ le64 (dr_message_id repair)
      @ [of_nat (length rs)] @ enc"
    using assms(2) len by (simp add: DP_RepairRequest rs_def enc_def not_le)
  have "bs ! 0 = 1" "bs ! 1 = 4" "bs ! 18 = of_nat (length rs)" "drop 19 bs = enc"
    "slice 2 10 bs = le64 (dr_stream_id repair)" "slice 10 18 bs = le64 (dr_message_id repair)"
    by (simp_all add: bs packet_prefix_def nth_append slice_def)
  moreover have "length bs = 19 + length rs * 4"
    by (simp add: bs packet_prefix_def enc_def range_bytes_total)
  ultimately show ?thesis
    by (simp add: packet_from_bytes_def Let_def n dec DP_RepairRequest)
      (cases repair, simp add: rs_def)
next
  case (DP_Bootstrap sid frame)
  then show ?thesis
    using assms unat_of_nat_u16 [of "length frame"]
    by (auto simp: packet_from_bytes_def packet_prefix_def slice_def split: if_splits)
next
  case (DP_Data h payload)
  then have len: "length payload = unat (dh_payload_len h)" and i: "dh_chunk_index h < dh_chunk_count h"
    and bs: "bs = packet_prefix PK_Data @ le64 (dh_stream_id h) @ le64 (dh_message_id h)
      @ le16 (dh_chunk_index h) @ le16 (dh_chunk_count h) @ le16 (dh_payload_len h) @ payload"
    using assms by (simp_all split: if_splits)
  have "bs ! 0 = 1" "bs ! 1 = 2" "slice 2 10 bs = le64 (dh_stream_id h)"
    "slice 10 18 bs = le64 (dh_message_id h)" "slice 18 20 bs = le16 (dh_chunk_index h)"
    "slice 20 22 bs = le16 (dh_chunk_count h)" "slice 22 24 bs = le16 (dh_payload_len h)"
    "drop 24 bs = payload"
    by (simp_all add: bs packet_prefix_def slice_def)
  moreover have "length bs = 24 + unat (dh_payload_len h)"
    using len by (simp add: bs packet_prefix_def)
  ultimately show ?thesis
    using i word_not_0_of_less [OF i] by (simp add: packet_from_bytes_def Let_def DP_Data not_le)
qed (use assms in \<open>auto simp: packet_from_bytes_def packet_prefix_def slice_def\<close>)

definition packet_enc :: "DatagramPacket \<Rightarrow> bytes" where
  "packet_enc p = (case packet_to_bytes p of Ok bs \<Rightarrow> bs | Err _ \<Rightarrow> [])"

interpretation packet_codec: wire_codec packet_enc packet_from_bytes packet_ok
proof unfold_locales
  fix p
  assume "packet_ok p"
  with packet_to_bytes_ok obtain bs where "packet_to_bytes p = Ok bs" by blast
  with packet_roundtrip [OF \<open>packet_ok p\<close>] show "packet_from_bytes (packet_enc p) = Ok p"
    by (simp add: packet_enc_def)
qed

lemma packet_enc_ok: "packet_ok p \<Longrightarrow> packet_to_bytes p = Ok (packet_enc p)"
  using packet_to_bytes_ok [of p] by (auto simp: packet_enc_def)

lemma parse_range_ok: "parse_range bs = Ok (r, rest) \<Longrightarrow> cr_start r \<le> cr_end r"
  by (auto simp: parse_range_def Let_def split: if_splits)

lemma dec_many_ranges_ok:
  "dec_many parse_range n bs = Ok (rs, rest) \<Longrightarrow> \<forall>r \<in> set rs. cr_start r \<le> cr_end r"
proof (induction n arbitrary: bs rs)
  case 0
  then show ?case by simp
next
  case (Suc n)
  then obtain r b qs where "parse_range bs = Ok (r, b)" "dec_many parse_range n b = Ok (qs, rest)"
    "rs = r # qs"
    unfolding dec_many_Suc_iff by blast
  with Suc.IH parse_range_ok show ?case by auto
qed

lemma dec_repair_ranges_ok:
  assumes "dec_many parse_range (unat (c :: u8)) bs = Ok (rs, rest)"
  shows "length rs < 256 \<and> (\<forall>r \<in> set rs. cr_start r \<le> cr_end r)"
  using dec_many_length [OF assms] dec_many_ranges_ok [OF assms] unsigned_less [of c, where 'a = nat]
  by simp

lemma packet_from_bytes_ok: "packet_from_bytes bs = Ok p \<Longrightarrow> packet_ok p"
  unfolding packet_from_bytes_def Let_def
  using unsigned_less [of "of_le16 (slice 22 24 bs)", where 'a = nat]
  by (auto simp: not_le dest!: dec_repair_ranges_ok split: if_splits)

section \<open>Fragmentation and reassembly\<close>

definition data_header :: "StreamId \<Rightarrow> u64 \<Rightarrow> bytes list \<Rightarrow> nat \<Rightarrow> DatagramDataHeader" where
  "data_header sid mid cs i =
     \<lparr>dh_stream_id = sid, dh_message_id = mid, dh_chunk_index = of_nat i,
      dh_chunk_count = of_nat (length cs), dh_payload_len = of_nat (length (cs ! i))\<rparr>"

definition data_packet :: "StreamId \<Rightarrow> u64 \<Rightarrow> bytes list \<Rightarrow> nat \<Rightarrow> DatagramPacket" where
  "data_packet sid mid cs i = DP_Data (data_header sid mid cs i) (cs ! i)"

lemma fragment_loop_eq:
  "fragment_loop sid mid (of_nat (length cs)) (length done) todo = Ok ps \<Longrightarrow> cs = done @ todo \<Longrightarrow>
    ps = map (data_packet sid mid cs) [length done..<length cs] \<and> (\<forall>c \<in> set todo. length c < 2 ^ 16)"
proof (induction todo arbitrary: "done" ps)
  case Nil
  then show ?case by simp
next
  case (Cons c todo)
  from Cons.prems(1) obtain qs where c: "length c < 2 ^ 16"
    and rest: "fragment_loop sid mid (of_nat (length cs)) (length (done @ [c])) todo = Ok qs"
    and ps: "ps = DP_Data \<lparr>dh_stream_id = sid, dh_message_id = mid, dh_chunk_index = of_nat (length done),
        dh_chunk_count = of_nat (length cs), dh_payload_len = of_nat (length c)\<rparr> c # qs"
    by (auto split: if_splits)
  from Cons.IH [OF rest] Cons.prems(2) have
    qs: "qs = map (data_packet sid mid cs) [Suc (length done)..<length cs]" and
    small: "\<forall>c \<in> set todo. length c < 2 ^ 16" by simp_all
  have "cs ! length done = c" and "[length done..<length cs] = length done # [Suc (length done)..<length cs]"
    using Cons.prems(2) by (simp_all add: upt_rec)
  then show ?case using ps qs small c by (simp add: data_packet_def data_header_def)
qed

section \<open>Missing ranges\<close>

definition absent :: "PartialMessage \<Rightarrow> nat \<Rightarrow> bool" where
  "absent pm i \<longleftrightarrow> om_get (pt_received pm) (of_nat i) = None"

definition open_range :: "nat \<Rightarrow> u16 option \<Rightarrow> nat list" where
  "open_range k s = (case s of None \<Rightarrow> [] | Some start \<Rightarrow> [unat start..<k])"

lemma pred_of_nat: "0 < k \<Longrightarrow> k < 2 ^ 16 \<Longrightarrow> unat (saturating_pred (of_nat k)) = k - 1"
  using unat_of_nat_u16 [of k] unat_of_nat_u16 [of "k - 1"]
  by (auto simp: saturating_pred_def of_nat_diff simp flip: unat_eq_0)

lemma missing_foldl:
  assumes "k < 2 ^ 16"
    and "foldl (missing_step pm) ([], None) (map of_nat [0..<k]) = (m, s)"
  shows "concat (map range_indices m) @ open_range k s = filter (absent pm) [0..<k]
    \<and> (\<forall>start. s = Some start \<longrightarrow> unat start < k) \<and> (\<forall>r \<in> set m. cr_start r \<le> cr_end r)"
  using assms
proof (induction k arbitrary: m s)
  case 0
  then show ?case by (simp add: open_range_def)
next
  case (Suc k)
  obtain m0 s0 where f: "foldl (missing_step pm) ([], None) (map of_nat [0..<k]) = (m0, s0)"
    by (cases "foldl (missing_step pm) ([], None) (map of_nat [0..<k])") blast
  with Suc.IH [of m0 s0] Suc.prems(1) have
    IH: "concat (map range_indices m0) @ open_range k s0 = filter (absent pm) [0..<k]"
    and lt: "\<And>start. s0 = Some start \<Longrightarrow> unat start < k"
    and ok: "\<forall>r \<in> set m0. cr_start r \<le> cr_end r" by simp_all
  have ms: "missing_step pm (m0, s0) (of_nat k) = (m, s)"
    using Suc.prems(2) f by simp
  have k: "unat (of_nat k :: u16) = k" using Suc.prems(1) by (simp add: unat_of_nat_u16)
  show ?case
  proof (cases "absent pm k"; cases s0)
    fix start
    assume a: "\<not> absent pm k" and s0: "s0 = Some start"
    have start: "unat start < k" by (rule lt [OF s0])
    have e: "unat (saturating_pred (of_nat k :: u16)) = k - 1"
      using start Suc.prems(1) by (intro pred_of_nat) simp_all
    have "range_indices \<lparr>cr_start = start, cr_end = saturating_pred (of_nat k)\<rparr> = open_range k s0"
      using start e by (simp add: range_indices_def open_range_def s0)
    moreover have "start \<le> saturating_pred (of_nat k)"
      using start e by (simp add: word_le_nat_alt)
    ultimately show ?thesis
      using a ms IH ok by (auto simp: absent_def [abs_def] s0 open_range_def)
  qed (use ms IH lt ok k in \<open>auto simp: absent_def [abs_def] open_range_def less_Suc_eq\<close>)
qed

lemma missing_ranges_exact:
  "concat (map range_indices (missing_ranges pm)) = filter (absent pm) [0..<unat (pt_chunk_count pm)]
    \<and> (\<forall>r \<in> set (missing_ranges pm). cr_start r \<le> cr_end r)"
proof -
  let ?n = "unat (pt_chunk_count pm)"
  have n: "?n < 2 ^ 16" using unsigned_less [of "pt_chunk_count pm", where 'a = nat] by simp
  obtain m s where f: "foldl (missing_step pm) ([], None) (map of_nat [0..<?n]) = (m, s)"
    by (cases "foldl (missing_step pm) ([], None) (map of_nat [0..<?n])") blast
  note inv = missing_foldl [OF n f]
  show ?thesis
  proof (cases s)
    case None
    then show ?thesis using inv by (simp add: missing_ranges_def f open_range_def)
  next
    case (Some start)
    then have start: "unat start < ?n" using inv by simp
    then have e: "unat (saturating_pred (pt_chunk_count pm)) = ?n - 1"
      using pred_of_nat [of ?n] n by simp
    have "range_indices \<lparr>cr_start = start, cr_end = saturating_pred (pt_chunk_count pm)\<rparr> = open_range ?n s"
      using start e by (simp add: range_indices_def open_range_def Some)
    moreover have "start \<le> saturating_pred (pt_chunk_count pm)"
      using start e by (simp add: word_le_nat_alt)
    ultimately show ?thesis using inv Some by (auto simp: missing_ranges_def f)
  qed
qed

section \<open>Reassembly\<close>

text \<open>\<open>collected pm cs S\<close>: of the message with chunks \<open>cs\<close>, exactly those with index in \<open>S\<close> are held.\<close>

definition collected :: "PartialMessage \<Rightarrow> bytes list \<Rightarrow> nat set \<Rightarrow> bool" where
  "collected pm cs S \<longleftrightarrow>
     om_ok (pt_received pm) \<and> pt_chunk_count pm = of_nat (length cs) \<and> S \<subseteq> {0..<length cs}
     \<and> (\<forall>j. om_get (pt_received pm) j = (if unat j \<in> S then Some (cs ! unat j) else None))"

lemma collected_new: "collected (partial_new (of_nat (length cs))) cs {}"
  by (simp add: collected_def partial_new_def)

lemma unat_index: "i < n \<Longrightarrow> n < 2 ^ 16 \<Longrightarrow> unat (of_nat i :: u16) = i"
  by (rule unat_of_nat_u16) simp

lemma collected_keys:
  assumes "collected pm cs S" and "length cs < 2 ^ 16"
  shows "set (om_keys (pt_received pm)) = of_nat ` S"
proof -
  have "set (om_keys (pt_received pm)) = {j. unat j \<in> S}"
    using assms(1) by (auto simp: collected_def om_get_dom [symmetric] dom_def)
  also have "\<dots> = of_nat ` S"
  proof
    show "{j :: u16. unat j \<in> S} \<subseteq> of_nat ` S"
      by (auto intro!: rev_image_eqI)
    show "of_nat ` S \<subseteq> {j :: u16. unat j \<in> S}"
      using assms unat_index [of _ "length cs"] by (auto simp: collected_def)
  qed
  finally show ?thesis .
qed

lemma inj_of_nat_u16: "S \<subseteq> {0..<n} \<Longrightarrow> n < 2 ^ 16 \<Longrightarrow> inj_on (of_nat :: nat \<Rightarrow> u16) S"
  by (rule inj_on_inverseI [of _ unat]) (use unat_index [of _ n] in auto)

lemma collected_length:
  assumes "collected pm cs S" and "length cs < 2 ^ 16"
  shows "length (pt_received pm) = card S"
proof -
  have "S \<subseteq> {0..<length cs}" and "om_ok (pt_received pm)" using assms(1) by (auto simp: collected_def)
  then show ?thesis
    using collected_keys [OF assms] inj_of_nat_u16 [of S "length cs"] assms(2)
    by (simp add: length_om card_image)
qed

lemma full_iff: "S \<subseteq> {0..<n} \<Longrightarrow> card S = n \<longleftrightarrow> S = {0..<(n :: nat)}"
  using card_subset_eq [of "{0..<n}" S] by auto

lemma partial_insert_collected:
  assumes "collected pm cs S" and "length cs < 2 ^ 16" and "i < length cs"
  shows "\<exists>pm'. partial_insert (of_nat i) (cs ! i) pm = (pm', insert i S = {0..<length cs})
    \<and> collected pm' cs (insert i S)"
proof -
  have i: "unat (of_nat i :: u16) = i" using unat_index assms by blast
  have cc: "unat (pt_chunk_count pm) = length cs"
    using assms(1,2) unat_of_nat_u16 [of "length cs"] by (simp add: collected_def)
  obtain pm' c where p: "partial_insert (of_nat i) (cs ! i) pm = (pm', c)" by fastforce
  have eq: "(j = of_nat i) = (unat j = i)" for j :: u16
    using i by auto
  have col: "collected pm' cs (insert i S)"
    using p assms i
    by (auto simp: partial_insert_def collected_def Let_def om_ok_insert eq split: option.splits if_splits)
  have "c \<longleftrightarrow> length (pt_received pm') = length cs"
    using p cc by (auto simp: partial_insert_def Let_def)
  then have "c \<longleftrightarrow> insert i S = {0..<length cs}"
    using collected_length [OF col assms(2)] full_iff [of "insert i S" "length cs"] col
    by (simp add: collected_def)
  with p col show ?thesis by auto
qed

lemma map_of_sorted_unique:
  assumes "om_ok m" and "om_ok m'" and "om_get m = om_get m'"
  shows "m = m'"
proof -
  have "set (om_keys m) = set (om_keys m')"
    using assms(3) by (simp add: om_get_dom [symmetric])
  then have k: "map fst m = map fst m'"
    using assms(1,2) unfolding om_ok_def om_keys_def
    by (intro sorted_distinct_set_unique) (auto simp: strict_sorted_iff)
  have "map snd m = map snd m'"
  proof (rule nth_equalityI)
    show "length (map snd m) = length (map snd m')" using arg_cong [OF k, of length] by simp
    fix i
    assume i: "i < length (map snd m)"
    have "om_get m (map fst m ! i) = Some (map snd m ! i)"
      using om_distinct [OF assms(1)] i by (simp add: om_get_def om_keys_def)
    moreover have "om_get m' (map fst m' ! i) = Some (map snd m' ! i)"
      using om_distinct [OF assms(2)] i arg_cong [OF k, of length] by (simp add: om_get_def om_keys_def)
    ultimately show "map snd m ! i = map snd m' ! i" using assms(3) k by simp
  qed
  with k show ?thesis by (metis zip_map_fst_snd)
qed

lemma collected_payload:
  assumes "collected pm cs {0..<length cs}" and "length cs < 2 ^ 16"
  shows "into_payload pm = concat cs"
proof -
  let ?m = "map (\<lambda>i. (of_nat i :: u16, cs ! i)) [0..<length cs]"
  have lt: "(of_nat i :: u16) < of_nat j" if "i < j" "j < length cs" for i j
    using that assms(2) unat_index [of i "length cs"] unat_index [of j "length cs"]
    by (simp add: word_less_nat_alt)
  then have ok: "om_ok ?m"
    by (auto simp: om_ok_def sorted_wrt_iff_nth_less)
  have "om_get ?m j = (if unat j < length cs then Some (cs ! unat j) else None)" for j
  proof (cases "unat j < length cs")
    case True
    then have "?m ! unat j = (j, cs ! unat j)" and "unat j < length ?m" by simp_all
    then have "(j, cs ! unat j) \<in> set ?m" using nth_mem [of "unat j" ?m] by metis
    then have "map_of ?m j = Some (cs ! unat j)"
      using om_distinct [OF ok] unfolding om_keys_def by (intro map_of_is_SomeI)
    then show ?thesis using True unfolding om_get_def by simp
  next
    case False
    have "j \<notin> fst ` set ?m"
    proof
      assume "j \<in> fst ` set ?m"
      then obtain i where "i < length cs" and "j = of_nat i" by auto
      with False assms(2) show False by (simp add: unat_index)
    qed
    then have "map_of ?m j = None" unfolding map_of_eq_None_iff .
    then show ?thesis using False unfolding om_get_def by simp
  qed
  then have "om_get (pt_received pm) = om_get ?m"
    using assms(1) by (auto simp: collected_def)
  with ok assms(1) have "pt_received pm = ?m"
    by (intro map_of_sorted_unique) (simp_all add: collected_def)
  then show ?thesis by (simp add: into_payload_def comp_def map_nth)
qed

fun feed_data :: "DatagramReassemblyBuffer \<Rightarrow> DatagramPacket list \<Rightarrow> DatagramReassemblyBuffer" where
  "feed_data rb [] = rb"
| "feed_data rb (DP_Data h payload # ps) = feed_data (fst (insert_data h payload rb)) ps"
| "feed_data rb (_ # ps) = feed_data rb ps"

definition collecting :: "DatagramReassemblyBuffer \<Rightarrow> u64 \<Rightarrow> bytes list \<Rightarrow> nat set \<Rightarrow> bool" where
  "collecting rb mid cs S \<longleftrightarrow>
     length cs < 2 ^ 16 \<and>
     (case om_get (rb_partial rb) mid of None \<Rightarrow> S = {} | Some pm \<Rightarrow> collected pm cs S)"

definition delivered_as :: "DatagramReassemblyBuffer \<Rightarrow> u64 \<Rightarrow> bytes \<Rightarrow> bool" where
  "delivered_as rb mid frame \<longleftrightarrow>
     om_get (rb_completed rb) mid = Some frame \<and> mid \<in> set (take_acknowledged rb)
     \<and> om_get (rb_partial rb) mid = None"

lemma data_header_sel [simp]:
  "dh_stream_id (data_header sid mid cs i) = sid" "dh_message_id (data_header sid mid cs i) = mid"
  "dh_chunk_index (data_header sid mid cs i) = of_nat i"
  "dh_chunk_count (data_header sid mid cs i) = of_nat (length cs)"
  "dh_payload_len (data_header sid mid cs i) = of_nat (length (cs ! i))"
  by (simp_all add: data_header_def)

lemma insert_chunk:
  assumes "collecting rb mid cs S" and "i < length cs"
  shows "insert i S \<noteq> {0..<length cs} \<Longrightarrow>
      \<exists>pm. insert_data (data_header sid mid cs i) (cs ! i) rb =
        (rb \<lparr>rb_partial := om_insert mid pm (rb_partial rb)\<rparr>, Ok False) \<and> collected pm cs (insert i S)"
    and "insert i S = {0..<length cs} \<Longrightarrow>
      insert_data (data_header sid mid cs i) (cs ! i) rb =
        (rb \<lparr>rb_partial := om_remove mid (rb_partial rb),
            rb_completed := om_insert mid (concat cs) (rb_completed rb),
            rb_acknowledged := om_insert mid () (rb_acknowledged rb)\<rparr>, Ok True)"
proof -
  have len: "length cs < 2 ^ 16" using assms(1) by (simp add: collecting_def)
  define entry where "entry = (case om_get (rb_partial rb) mid of
      Some e \<Rightarrow> e | None \<Rightarrow> partial_new (of_nat (length cs)))"
  have "collected entry cs S"
    using assms(1) collected_new [of cs]
    by (auto simp: entry_def collecting_def split: option.splits)
  from partial_insert_collected [OF this len assms(2)] obtain pm' where
    ins: "partial_insert (of_nat i) (cs ! i) entry = (pm', insert i S = {0..<length cs})"
    and col: "collected pm' cs (insert i S)" by blast
  have cc: "pt_chunk_count entry = of_nat (length cs)"
    using \<open>collected entry cs S\<close> by (simp add: collected_def)
  show "\<exists>pm. insert_data (data_header sid mid cs i) (cs ! i) rb =
        (rb \<lparr>rb_partial := om_insert mid pm (rb_partial rb)\<rparr>, Ok False) \<and> collected pm cs (insert i S)"
    if "insert i S \<noteq> {0..<length cs}"
    using that ins col cc
    by (intro exI [of _ pm'], cases "om_get (rb_partial rb) mid")
      (simp_all add: insert_data_def Let_def entry_def)
  show "insert_data (data_header sid mid cs i) (cs ! i) rb =
        (rb \<lparr>rb_partial := om_remove mid (rb_partial rb),
            rb_completed := om_insert mid (concat cs) (rb_completed rb),
            rb_acknowledged := om_insert mid () (rb_acknowledged rb)\<rparr>, Ok True)"
    if full: "insert i S = {0..<length cs}"
    using ins cc collected_payload [OF col [unfolded full] len] full
    by (cases "om_get (rb_partial rb) mid")
      (simp_all add: insert_data_def Let_def entry_def)
qed

lemma insert_data_step:
  assumes "collecting rb mid cs S" and "i < length cs"
  shows "insert i S \<noteq> {0..<length cs} \<Longrightarrow>
      collecting (feed_data rb [data_packet sid mid cs i]) mid cs (insert i S)"
    and "insert i S = {0..<length cs} \<Longrightarrow>
      delivered_as (feed_data rb [data_packet sid mid cs i]) mid (concat cs)"
  using insert_chunk [OF assms, of sid] assms(1)
  by (auto simp: data_packet_def collecting_def delivered_as_def take_acknowledged_def om_keys_insert)

lemma feed_data_Cons: "feed_data rb (p # ps) = feed_data (feed_data rb [p]) ps"
  by (cases p) simp_all

lemma feed_data_append: "feed_data rb (ps @ qs) = feed_data (feed_data rb ps) qs"
proof (induction ps arbitrary: rb)
  case (Cons p ps)
  have "feed_data rb ((p # ps) @ qs) = feed_data (feed_data rb [p]) (ps @ qs)"
    unfolding append_Cons by (rule feed_data_Cons)
  also have "\<dots> = feed_data (feed_data (feed_data rb [p]) ps) qs" by (rule Cons.IH)
  also have "feed_data (feed_data rb [p]) ps = feed_data rb (p # ps)" by (rule feed_data_Cons [symmetric])
  finally show ?case .
qed simp

lemma feed_collecting:
  assumes "collecting rb mid cs S" and "set is \<subseteq> {0..<length cs}" and "\<not> {0..<length cs} \<subseteq> S \<union> set is"
  shows "collecting (feed_data rb (map (data_packet sid mid cs) is)) mid cs (S \<union> set is)"
  using assms
proof (induction "is" arbitrary: rb S)
  case Nil
  then show ?case by simp
next
  case (Cons i js)
  have "insert i S \<noteq> {0..<length cs}" and "i < length cs" using Cons.prems by auto
  then have "collecting (feed_data rb [data_packet sid mid cs i]) mid cs (insert i S)"
    using insert_data_step(1) Cons.prems(1) by blast
  moreover have "\<not> {0..<length cs} \<subseteq> insert i S \<union> set js" and "set js \<subseteq> {0..<length cs}"
    using Cons.prems by auto
  ultimately have "collecting (feed_data (feed_data rb [data_packet sid mid cs i])
      (map (data_packet sid mid cs) js)) mid cs (insert i S \<union> set js)"
    using Cons.IH by blast
  then show ?case
    using feed_data_Cons [of rb "data_packet sid mid cs i" "map (data_packet sid mid cs) js"] by simp
qed

lemma feed_complete:
  assumes "collecting rb mid cs S" and "S \<union> set is \<union> {l} = {0..<length cs}" and "l \<notin> S \<union> set is"
  shows "delivered_as (feed_data rb (map (data_packet sid mid cs) (is @ [l]))) mid (concat cs)"
proof -
  have "collecting (feed_data rb (map (data_packet sid mid cs) is)) mid cs (S \<union> set is)"
    using assms by (intro feed_collecting) auto
  moreover have "insert l (S \<union> set is) = {0..<length cs}" and "l < length cs" using assms(2) by auto
  ultimately have "delivered_as (feed_data (feed_data rb (map (data_packet sid mid cs) is))
      [data_packet sid mid cs l]) mid (concat cs)"
    using insert_data_step(2) by blast
  then show ?thesis by (simp add: feed_data_append)
qed

section \<open>A fragmented frame\<close>

fun packet_payload :: "DatagramPacket \<Rightarrow> bytes" where
  "packet_payload (DP_Data _ payload) = payload"
| "packet_payload _ = []"

lemma fragment_frame:
  assumes "fragment_transport_frame sid mid frame config = Ok packets"
  obtains cs where "packets = map (data_packet sid mid cs) [0..<length cs]"
    and "length cs < 2 ^ 16" and "concat cs = frame" and "\<forall>c \<in> set cs. length c < 2 ^ 16"
proof -
  define n where "n = max (target_datagram_payload_size_bytes config) 1"
  let ?cs = "chunks n frame"
  have n: "0 < n" by (simp add: n_def)
  have len: "div_ceil (length frame) n = length ?cs" using n by (simp add: length_chunks)
  have small: "max (length ?cs) 1 < 2 ^ 16"
    and loop: "fragment_loop sid mid (of_nat (max (length ?cs) 1)) 0 ?cs = Ok packets"
    using assms unfolding fragment_transport_frame_def Let_def n_def [symmetric] len
    by (simp_all split: if_splits)
  show thesis
  proof (cases "?cs = []")
    case True
    then show thesis using that [of "[]"] loop concat_chunks [OF n, of frame] by simp
  next
    case False
    then have "max (length ?cs) 1 = length ?cs" by (cases ?cs) auto
    with loop fragment_loop_eq [of sid mid ?cs "[]" ?cs packets]
    have "packets = map (data_packet sid mid ?cs) [0..<length ?cs]" "\<forall>c \<in> set ?cs. length c < 2 ^ 16"
      by simp_all
    with that [of ?cs] small concat_chunks [OF n, of frame] show thesis by simp
  qed
qed

lemma data_packet_inj:
  assumes "length cs < 2 ^ 16"
  shows "inj_on (data_packet sid mid cs) {0..<length cs}"
proof (rule inj_onI)
  fix i j
  assume "i \<in> {0..<length cs}" and "j \<in> {0..<length cs}" and "data_packet sid mid cs i = data_packet sid mid cs j"
  then have "(of_nat i :: u16) = of_nat j" and "i < length cs" "j < length cs"
    by (simp_all add: data_packet_def data_header_def)
  then show "i = j" using assms by (metis unat_index)
qed

lemma packets_as_indices:
  assumes "set ps \<subseteq> data_packet sid mid cs ` {0..<length cs}"
  obtains "is" where "ps = map (data_packet sid mid cs) is" and "set is \<subseteq> {0..<length cs}"
proof -
  have "\<exists>is. ps = map (data_packet sid mid cs) is \<and> set is \<subseteq> {0..<length cs}"
    using assms
  proof (induction ps)
    case Nil
    show ?case by (rule exI [of _ "[]"]) simp
  next
    case (Cons p ps)
    then obtain "is" i where "ps = map (data_packet sid mid cs) is" "set is \<subseteq> {0..<length cs}"
      "p = data_packet sid mid cs i" "i \<in> {0..<length cs}" by auto
    then show ?case by (intro exI [of _ "i # is"]) simp
  qed
  then show thesis using that by blast
qed

lemma reassemble_any_order:
  assumes "fragment_transport_frame sid mid frame config = Ok packets"
    and "om_get (rb_partial rb) mid = None"
    and "set ps \<union> {p} = set packets" and "p \<notin> set ps"
  shows "delivered_as (feed_data rb (ps @ [p])) mid frame"
proof -
  from assms(1) obtain cs where packets: "packets = map (data_packet sid mid cs) [0..<length cs]"
    and len: "length cs < 2 ^ 16" and frame: "concat cs = frame" by (rule fragment_frame)
  have "set ps \<subseteq> data_packet sid mid cs ` {0..<length cs}" using assms(3) packets by auto
  then obtain "is" where "is": "ps = map (data_packet sid mid cs) is" "set is \<subseteq> {0..<length cs}"
    by (rule packets_as_indices)
  have "p \<in> data_packet sid mid cs ` {0..<length cs}" using assms(3) packets by auto
  then obtain l where l: "p = data_packet sid mid cs l" "l < length cs" by auto
  have "l \<notin> set is" using assms(4) "is"(1) l(1) by auto
  have "data_packet sid mid cs ` (set is \<union> {l}) = data_packet sid mid cs ` {0..<length cs}"
    using assms(3) by (simp add: packets "is"(1) l(1))
  then have "set is \<union> {l} = {0..<length cs}"
    using inj_on_image_eq_iff [OF data_packet_inj [OF len], of "set is \<union> {l}" "{0..<length cs}"]
      "is"(2) l(2) by simp
  moreover have "collecting rb mid cs {}" using assms(2) len by (simp add: collecting_def)
  ultimately have "delivered_as (feed_data rb (map (data_packet sid mid cs) (is @ [l]))) mid (concat cs)"
    using \<open>l \<notin> set is\<close> by (intro feed_complete [of rb mid cs "{}"]) simp_all
  then show ?thesis by (simp add: "is"(1) l(1) frame)
qed

section \<open>Repair completes a message\<close>

lemma repair_packet_eq:
  assumes "pm_stream_id pend = sid" and "pm_message_id pend = mid" and "pm_chunks pend = cs" and "i < length cs"
  shows "repair_packet pend i = [data_packet sid mid cs i]"
  using assms by (simp add: repair_packet_def data_packet_def data_header_def)

lemma concat_map_concat:
  "concat (map (\<lambda>r. concat (map f (g r))) rs) = concat (map f (concat (map g rs)))"
  by (induction rs) simp_all

lemma repair_packets_eq:
  assumes "pm_stream_id pend = sid" and "pm_message_id pend = mid" and "pm_chunks pend = cs"
    and "collected pm cs S" and "length cs < 2 ^ 16"
  shows "repair_packets_for_message pend (missing_ranges pm) =
    map (data_packet sid mid cs) (filter (\<lambda>i. i \<notin> S) [0..<length cs])"
proof -
  have "unat (pt_chunk_count pm) = length cs"
    using assms(4,5) unat_of_nat_u16 [of "length cs"] by (simp add: collected_def)
  moreover have "filter (absent pm) [0..<length cs] = filter (\<lambda>i. i \<notin> S) [0..<length cs]"
    by (rule filter_cong) (use assms(4,5) in \<open>auto simp: absent_def collected_def unat_index\<close>)
  ultimately have ranges: "concat (map range_indices (missing_ranges pm)) = filter (\<lambda>i. i \<notin> S) [0..<length cs]"
    using missing_ranges_exact [of pm] by simp
  have "repair_packets_for_message pend (missing_ranges pm) =
      concat (map (repair_packet pend) (concat (map range_indices (missing_ranges pm))))"
    unfolding repair_packets_for_message_def by (rule concat_map_concat)
  also have "\<dots> = concat (map (\<lambda>i. [data_packet sid mid cs i]) (filter (\<lambda>i. i \<notin> S) [0..<length cs]))"
    unfolding ranges by (rule arg_cong [of _ _ concat], rule map_cong [OF refl])
      (use assms(1-3) in \<open>simp add: repair_packet_eq\<close>)
  also have "\<dots> = map (data_packet sid mid cs) (filter (\<lambda>i. i \<notin> S) [0..<length cs])"
    by (induction "filter (\<lambda>i. i \<notin> S) [0..<length cs]") simp_all
  finally show ?thesis .
qed

lemma repair_completes:
  assumes "fragment_transport_frame sid mid frame config = Ok packets"
    and "om_get (rb_partial rb) mid = None" and "ps \<noteq> []" and "set ps \<subset> set packets"
    and "pm_stream_id pend = sid" and "pm_message_id pend = mid"
    and "pm_chunks pend = map packet_payload packets"
  shows "\<exists>ranges. missing_ranges_for mid (feed_data rb ps) = Some ranges
    \<and> delivered_as (feed_data (feed_data rb ps) (repair_packets_for_message pend ranges)) mid frame"
proof -
  from assms(1) obtain cs where packets: "packets = map (data_packet sid mid cs) [0..<length cs]"
    and len: "length cs < 2 ^ 16" and frame: "concat cs = frame" by (rule fragment_frame)
  have chunks: "pm_chunks pend = cs"
    using assms(7) by (simp add: packets comp_def data_packet_def map_nth)
  have "set ps \<subseteq> data_packet sid mid cs ` {0..<length cs}" using assms(4) packets by auto
  then obtain "is" where "is": "ps = map (data_packet sid mid cs) is" "set is \<subseteq> {0..<length cs}"
    by (rule packets_as_indices)
  have missing: "\<not> {0..<length cs} \<subseteq> set is" using assms(4) by (auto simp: packets "is"(1))
  then have coll: "collecting (feed_data rb ps) mid cs (set is)"
    using feed_collecting [of rb mid cs "{}" "is" sid] assms(2) len "is" by (simp add: collecting_def)
  from this assms(3) "is"(1) obtain pm where pm: "om_get (rb_partial (feed_data rb ps)) mid = Some pm"
    and col: "collected pm cs (set is)"
    by (cases "om_get (rb_partial (feed_data rb ps)) mid") (auto simp: collecting_def)
  define ks where "ks = filter (\<lambda>i. i \<notin> set is) [0..<length cs]"
  have ks: "distinct ks" "set ks = {0..<length cs} - set is" "ks \<noteq> []"
    using missing by (auto simp: ks_def filter_empty_conv)
  obtain js l where jl: "ks = js @ [l]" using ks(3) by (meson rev_exhaust)
  have "set is \<union> set js \<union> {l} = {0..<length cs}" and "l \<notin> set is \<union> set js"
    using ks(1,2) "is"(2) by (auto simp: jl)
  from feed_complete [OF coll this, of sid]
  have "delivered_as (feed_data (feed_data rb ps) (map (data_packet sid mid cs) ks)) mid frame"
    by (simp add: jl frame)
  then have "delivered_as (feed_data (feed_data rb ps) (repair_packets_for_message pend (missing_ranges pm))) mid frame"
    using repair_packets_eq [OF assms(5,6) chunks col len] by (simp add: ks_def)
  then show ?thesis using pm by (auto simp: missing_ranges_for_def)
qed

section \<open>The send window\<close>

lemma evict_oldest_drop: "evict_oldest n w = drop (length w - n) w"
  by (induction n w rule: evict_oldest.induct) (auto simp: Suc_diff_le)

lemma window_insert_bounded: "length (window_insert m n w) \<le> n"
  by (simp add: window_insert_def evict_oldest_drop)

lemma window_insert_ok: "om_ok w \<Longrightarrow> om_ok (window_insert m n w)"
  unfolding window_insert_def evict_oldest_drop
  by (metis drop_map om_ok_def om_ok_insert sorted_wrt_drop)

lemma window_insert_get:
  assumes "om_ok w"
  shows "om_get (window_insert m n w) k =
    (if k \<in> set (om_keys (window_insert m n w)) then ((om_get w)(pm_message_id m \<mapsto> m)) k else None)"
proof (cases "k \<in> set (om_keys (window_insert m n w))")
  case True
  let ?w = "om_insert (pm_message_id m) m w"
  have "distinct (om_keys ?w)" using om_distinct [OF om_ok_insert [OF assms]] .
  obtain v where v: "(k, v) \<in> set (window_insert m n w)" using True by (auto simp: om_keys_def)
  then have "(k, v) \<in> set ?w"
    unfolding window_insert_def evict_oldest_drop by (meson in_set_dropD)
  then have "om_get ?w k = Some v"
    using \<open>distinct (om_keys ?w)\<close> unfolding om_get_def om_keys_def by (intro map_of_is_SomeI)
  moreover have "om_get (window_insert m n w) k = Some v"
    using v om_distinct [OF window_insert_ok [OF assms]] unfolding om_get_def om_keys_def
    by (intro map_of_is_SomeI)
  ultimately show ?thesis using True by simp
next
  case False
  then show ?thesis by (simp add: om_get_None_iff)
qed

lemma window_evicts_oldest:
  assumes "om_ok w" and "old \<in> set (om_keys (om_insert (pm_message_id m) m w))"
    and "old \<notin> set (om_keys (window_insert m n w))" and "kept \<in> set (om_keys (window_insert m n w))"
  shows "old < kept"
proof -
  let ?w = "om_insert (pm_message_id m) m w" and ?d = "length (om_insert (pm_message_id m) m w) - n"
  have split: "om_keys ?w = take ?d (om_keys ?w) @ om_keys (window_insert m n w)"
    by (simp add: om_keys_def window_insert_def evict_oldest_drop flip: drop_map)
  have "sorted_wrt (<) (om_keys ?w)" using om_ok_insert [OF assms(1)] by (simp add: om_ok_def om_keys_def)
  then have "\<forall>x \<in> set (take ?d (om_keys ?w)). \<forall>y \<in> set (om_keys (window_insert m n w)). x < y"
    by (subst (asm) split) (unfold sorted_wrt_append, blast)
  moreover have "old \<in> set (take ?d (om_keys ?w))" using assms(2,3) split by (metis Un_iff set_append)
  ultimately show ?thesis using assms(4) by blast
qed

section \<open>Properties\<close>

text \<open>Packets round trip: a well-formed packet is encoded without error and decoding its bytes gives
  it back; and whatever \<open>from_bytes\<close> accepts is well-formed (chunk index below the count, ordered repair
  ranges, matching length).\<close>

theorem packet_codec_correct:
  "(packet_ok p \<longrightarrow> packet_to_bytes p = Ok (packet_enc p) \<and> packet_from_bytes (packet_enc p) = Ok p)
    \<and> (packet_from_bytes bs = Ok q \<longrightarrow> packet_ok q)"
  using packet_codec.dec_enc [of p] packet_enc_ok [of p] packet_from_bytes_ok [of bs q] by blast

lemma packet_codec_correct_witness:
  "packet_from_bytes (packet_enc (DP_RepairRequest \<lparr>dr_stream_id = 7, dr_message_id = 3,
      dr_missing_ranges = [\<lparr>cr_start = 1, cr_end = 4\<rparr>]\<rparr>)) =
    Ok (DP_RepairRequest \<lparr>dr_stream_id = 7, dr_message_id = 3,
      dr_missing_ranges = [\<lparr>cr_start = 1, cr_end = 4\<rparr>]\<rparr>)"
  using packet_codec_correct [of "DP_RepairRequest \<lparr>dr_stream_id = 7, dr_message_id = 3,
      dr_missing_ranges = [\<lparr>cr_start = 1, cr_end = 4\<rparr>]\<rparr>"] by simp

text \<open>C8: reassembly does not depend on the order of arrival: whatever the order in which the chunks of a
  fragmented frame come in, and however often a chunk is repeated before the last one is there, the
  message completes with the original bytes and is acknowledged.\<close>

theorem fragments_reassemble_in_any_order:
  assumes "fragment_transport_frame sid mid frame config = Ok packets"
    and "om_get (rb_partial rb) mid = None"
    and "set ps \<union> {p} = set packets" and "p \<notin> set ps"
  shows "delivered_as (feed_data rb (ps @ [p])) mid frame"
  using assms by (rule reassemble_any_order)

definition sample_config :: DatagramReliabilityConfig where
  "sample_config = default_reliability \<lparr>target_datagram_payload_size_bytes := 2\<rparr>"

definition sample_fragments :: "DatagramPacket list" where
  "sample_fragments = map (data_packet 7 0 [[1, 2], [3, 4], [5]]) [0, 1, 2]"

lemma sample_fragments_eq:
  "fragment_transport_frame 7 0 [1, 2, 3, 4, 5] sample_config = Ok sample_fragments"
proof -
  have c: "chunks 2 [1, 2, 3, 4, 5 :: u8] = [[1, 2], [3, 4], [5]]" by (simp add: chunks.simps)
  have d: "div_ceil (length [1, 2, 3, 4, 5 :: u8]) 2 = 3" by code_simp
  have t: "target_datagram_payload_size_bytes sample_config = 2"
    and m: "max_chunks_per_message sample_config = 2048"
    by (simp_all add: sample_config_def default_reliability_def)
  have x: "max 2 1 = (2 :: nat)" by simp
  show ?thesis
    unfolding fragment_transport_frame_def Let_def t x d m c
    by (simp add: sample_fragments_def data_packet_def data_header_def)
qed

lemma fragments_reassemble_in_any_order_witness:
  "delivered_as (feed_data buffer_new [sample_fragments ! 2, sample_fragments ! 0, sample_fragments ! 2,
      sample_fragments ! 1]) 0 [1, 2, 3, 4, 5]"
proof -
  have "om_get (rb_partial buffer_new) 0 = None" by (simp add: buffer_new_def)
  moreover have "set [sample_fragments ! 2, sample_fragments ! 0, sample_fragments ! 2]
      \<union> {sample_fragments ! 1} = set sample_fragments"
    by (auto simp: sample_fragments_def)
  moreover have "sample_fragments ! 1 \<notin> set [sample_fragments ! 2, sample_fragments ! 0, sample_fragments ! 2]"
    by (simp add: sample_fragments_def data_packet_def)
  ultimately show ?thesis
    using fragments_reassemble_in_any_order [OF sample_fragments_eq,
        of buffer_new "[sample_fragments ! 2, sample_fragments ! 0, sample_fragments ! 2]"
          "sample_fragments ! 1"] by simp
qed

text \<open>A repair request names exactly the chunks that are missing, in ascending order and in ordered
  ranges.\<close>

theorem missing_ranges_are_exact:
  "concat (map range_indices (missing_ranges pm)) =
      filter (\<lambda>i. om_get (pt_received pm) (of_nat i) = None) [0..<unat (pt_chunk_count pm)]
    \<and> list_all (\<lambda>r. cr_start r \<le> cr_end r) (missing_ranges pm)"
  using missing_ranges_exact [of pm] by (simp add: absent_def [abs_def] list_all_iff)

text \<open>C9: lost chunks are recovered: after any part of a frame's chunks arrived (in any order, repeated or
  not), the missing ranges the receiver asks for and the packets the sender answers with complete the
  message with the original bytes.\<close>

theorem repair_recovers_loss:
  assumes "fragment_transport_frame sid mid frame config = Ok packets"
    and "om_get (rb_partial rb) mid = None" and "ps \<noteq> []" and "set ps \<subset> set packets"
    and "pm_stream_id pend = sid" and "pm_message_id pend = mid"
    and "pm_chunks pend = map packet_payload packets"
  shows "\<exists>ranges. missing_ranges_for mid (feed_data rb ps) = Some ranges
    \<and> delivered_as (feed_data (feed_data rb ps) (repair_packets_for_message pend ranges)) mid frame"
  using assms by (rule repair_completes)

lemma repair_recovers_loss_witness:
  "\<exists>ranges. missing_ranges_for 0 (feed_data buffer_new [sample_fragments ! 1]) = Some ranges
    \<and> delivered_as (feed_data (feed_data buffer_new [sample_fragments ! 1])
        (repair_packets_for_message \<lparr>pm_stream_id = 7, pm_message_id = 0,
           pm_chunks = [[1, 2], [3, 4], [5]], pm_repair_attempts = 0\<rparr> ranges)) 0 [1, 2, 3, 4, 5]"
  by (rule repair_recovers_loss [OF sample_fragments_eq])
    (auto simp: buffer_new_def sample_fragments_def data_packet_def)

text \<open>The send window never holds more than the configured number of messages, keeps what it holds
  unchanged, and evicts oldest first: every evicted message id is smaller than every kept one.\<close>

theorem send_window_bounded:
  assumes "om_ok w"
  shows "length (window_insert m n w) \<le> n \<and> om_ok (window_insert m n w)
    \<and> (\<forall>kept \<in> set (om_keys (window_insert m n w)).
        om_get (window_insert m n w) kept = ((om_get w)(pm_message_id m \<mapsto> m)) kept
        \<and> (\<forall>old \<in> insert (pm_message_id m) (set (om_keys w)) - set (om_keys (window_insert m n w)). old < kept))"
proof (intro conjI ballI)
  fix kept old
  assume kept: "kept \<in> set (om_keys (window_insert m n w))"
  then show "om_get (window_insert m n w) kept = ((om_get w)(pm_message_id m \<mapsto> m)) kept"
    using window_insert_get [OF assms, of m n kept] by simp
  assume "old \<in> insert (pm_message_id m) (set (om_keys w)) - set (om_keys (window_insert m n w))"
  with kept show "old < kept"
    using window_evicts_oldest [OF assms, of old m n kept] by (simp add: om_keys_insert)
qed (simp_all add: window_insert_bounded window_insert_ok assms)

lemma send_window_bounded_witness:
  "length (window_insert \<lparr>pm_stream_id = 7, pm_message_id = 4, pm_chunks = [], pm_repair_attempts = 0\<rparr> 1
      [(3, \<lparr>pm_stream_id = 7, pm_message_id = 3, pm_chunks = [], pm_repair_attempts = 0\<rparr>)]) \<le> 1"
  using send_window_bounded [of "[(3, \<lparr>pm_stream_id = 7, pm_message_id = 3, pm_chunks = [],
      pm_repair_attempts = 0\<rparr>)]"] by (simp add: om_ok_def)

end
