(* ===== verification/Pulzz_Datagram_Session.thy ===== *)
theory Pulzz_Datagram_Session
  imports Pulzz_Datagram Pulzz_Channel
begin

text \<open>
  The datagram session (\<open>DatagramTransportState\<close> in \<open>shared_protocol/src/datagram.rs\<close>): sending a frame
  as packets, handling a packet that arrived, asking for repairs, closing.  Every operation returns the
  new state next to its result, also when it fails half way.
\<close>

section \<open>State\<close>

datatype DatagramSessionError =
    DS_Wire DatagramWireError
  | DS_RecordWire WireError
  | DS_UnexpectedStreamId StreamId StreamId
  | RepairBudgetExceeded u64
  | SessionClosed

record DatagramSessionMetrics =
  outbound_messages :: u64
  outbound_datagrams_count :: u64
  retransmitted_datagrams :: u64
  acknowledged_messages :: u64
  repair_requests_sent :: u64
  repair_requests_received :: u64
  duplicate_chunks_ignored :: u64

record DatagramIngressOutcome =
  oi_outbound_datagrams :: "bytes list"
  oi_ready_frames :: "bytes list"
  oi_close_code :: "u16 option"

record DatagramTransportState =
  dt_stream_id :: StreamId
  dt_reliability :: DatagramReliabilityConfig
  dt_next_outbound_message_id :: u64
  dt_send_window :: DatagramSendWindow
  dt_reassembly :: DatagramReassemblyBuffer
  dt_inbound_repair_attempts :: "(u64, u32) ord_map"
  dt_closed :: bool
  dt_metrics :: DatagramSessionMetrics

definition metrics_new :: DatagramSessionMetrics where
  "metrics_new =
     \<lparr>outbound_messages = 0, outbound_datagrams_count = 0, retransmitted_datagrams = 0,
      acknowledged_messages = 0, repair_requests_sent = 0, repair_requests_received = 0,
      duplicate_chunks_ignored = 0\<rparr>"

definition session_new :: "StreamId \<Rightarrow> DatagramReliabilityConfig \<Rightarrow> DatagramTransportState" where
  "session_new stream_id reliability =
     \<lparr>dt_stream_id = stream_id, dt_reliability = reliability, dt_next_outbound_message_id = 0,
      dt_send_window = [], dt_reassembly = buffer_new, dt_inbound_repair_attempts = [],
      dt_closed = False, dt_metrics = metrics_new\<rparr>"

section \<open>Sending\<close>

definition encode_transport_frame ::
  "DatagramTransportState \<Rightarrow> bytes \<Rightarrow> DatagramTransportState \<times> (DatagramSessionError + bytes list)" where
  "encode_transport_frame st frame =
     (if dt_closed st then (st, Err SessionClosed)
      else let message_id = dt_next_outbound_message_id st;
               st1 = st \<lparr>dt_next_outbound_message_id := saturating_succ message_id\<rparr> in
        case fragment_transport_frame (dt_stream_id st) message_id frame (dt_reliability st) of
          Err e \<Rightarrow> (st1, Err (DS_Wire e))
        | Ok packets \<Rightarrow>
            let st2 = st1 \<lparr>dt_send_window := window_insert
                    \<lparr>pm_stream_id = dt_stream_id st, pm_message_id = message_id,
                     pm_chunks = map packet_payload packets, pm_repair_attempts = 0\<rparr>
                    (max_in_flight_messages (dt_reliability st)) (dt_send_window st),
                  dt_metrics := (dt_metrics st)
                    \<lparr>outbound_messages := saturating_add (outbound_messages (dt_metrics st)) 1,
                     outbound_datagrams_count := saturating_add
                       (outbound_datagrams_count (dt_metrics st)) (of_nat (length packets))\<rparr>\<rparr> in
            (st2, map_err DS_Wire (encode_datagram_frames packets)))"

fun encode_transport_frames ::
  "DatagramTransportState \<Rightarrow> bytes list \<Rightarrow> DatagramTransportState \<times> (DatagramSessionError + bytes list)"
where
  "encode_transport_frames st [] = (st, Ok [])"
| "encode_transport_frames st (frame # frames) =
     (case encode_transport_frame st frame of
        (st', Err e) \<Rightarrow> (st', Err e)
      | (st', Ok out) \<Rightarrow> (case encode_transport_frames st' frames of
            (st'', Err e) \<Rightarrow> (st'', Err e)
          | (st'', Ok rest) \<Rightarrow> (st'', Ok (out @ rest))))"

section \<open>Receiving\<close>

text \<open>The loop \<open>while let Some(..) = pop_next_ready()\<close>; every turn removes a completed message.\<close>

lemma pop_next_ready_shrinks:
  "pop_next_ready rb = (rb', Some x) \<Longrightarrow> length (rb_completed rb') < length (rb_completed rb)"
proof -
  assume pop: "pop_next_ready rb = (rb', Some x)"
  then obtain payload where "om_get (rb_completed rb) (rb_expected_message_id rb) = Some payload"
    and rb': "rb_completed rb' = om_remove (rb_expected_message_id rb) (rb_completed rb)"
    by (auto simp: pop_next_ready_def split: option.splits)
  then have "(rb_expected_message_id rb, payload) \<in> set (rb_completed rb)"
    by (auto simp: om_get_def dest: map_of_SomeD)
  then show ?thesis
    unfolding rb' om_remove_def by (intro length_filter_less [where x = "(rb_expected_message_id rb, payload)"]) simp_all
qed

function drain_ready :: "DatagramReassemblyBuffer \<Rightarrow> DatagramReassemblyBuffer \<times> bytes list" where
  "drain_ready rb =
     (case pop_next_ready rb of
        (rb', None) \<Rightarrow> (rb', [])
      | (rb', Some (_, frame)) \<Rightarrow> (case drain_ready rb' of (rb'', frames) \<Rightarrow> (rb'', frame # frames)))"
  by pat_completeness auto
termination
  by (relation "measure (\<lambda>rb. length (rb_completed rb))") (auto dest: sym pop_next_ready_shrinks)

declare drain_ready.simps [simp del]

definition handle_data ::
  "DatagramTransportState \<Rightarrow> DatagramDataHeader \<Rightarrow> bytes
     \<Rightarrow> DatagramTransportState \<times> (DatagramSessionError + DatagramIngressOutcome)" where
  "handle_data st h payload =
     (let rb = dt_reassembly st;
          already_complete = (missing_ranges_for (dh_message_id h) rb = None
            \<and> dh_message_id h < rb_expected_message_id rb) in
      case insert_data h payload rb of
        (rb1, Err e) \<Rightarrow> (st \<lparr>dt_reassembly := rb1\<rparr>, Err (DS_Wire e))
      | (rb1, Ok complete) \<Rightarrow>
          let metrics = (if \<not> complete \<and> already_complete
                then (dt_metrics st) \<lparr>duplicate_chunks_ignored :=
                       saturating_add (duplicate_chunks_ignored (dt_metrics st)) 1\<rparr>
                else dt_metrics st) in
          (case encode_datagram_frames (map (\<lambda>acked. DP_Ack \<lparr>da_stream_id = dt_stream_id st,
                  da_message_id = acked\<rparr>) (take_acknowledged rb1)) of
             Err e \<Rightarrow> (st \<lparr>dt_reassembly := rb1, dt_metrics := metrics\<rparr>, Err (DS_Wire e))
           | Ok acks \<Rightarrow>
               (case drain_ready (clear_acknowledged rb1) of (rb2, frames) \<Rightarrow>
                  (st \<lparr>dt_reassembly := rb2, dt_metrics := metrics\<rparr>,
                   Ok \<lparr>oi_outbound_datagrams = acks, oi_ready_frames = frames, oi_close_code = None\<rparr>))))"

definition empty_outcome :: DatagramIngressOutcome where
  "empty_outcome = \<lparr>oi_outbound_datagrams = [], oi_ready_frames = [], oi_close_code = None\<rparr>"

definition handle_ack ::
  "DatagramTransportState \<Rightarrow> DatagramAck
     \<Rightarrow> DatagramTransportState \<times> (DatagramSessionError + DatagramIngressOutcome)" where
  "handle_ack st ack =
     (case window_acknowledge (da_message_id ack) (dt_send_window st) of (w, found) \<Rightarrow>
        (st \<lparr>dt_send_window := w,
            dt_metrics := (if found then (dt_metrics st) \<lparr>acknowledged_messages :=
                saturating_add (acknowledged_messages (dt_metrics st)) 1\<rparr> else dt_metrics st)\<rparr>,
         Ok empty_outcome))"

definition handle_repair_request ::
  "DatagramTransportState \<Rightarrow> DatagramRepairRequest
     \<Rightarrow> DatagramTransportState \<times> (DatagramSessionError + DatagramIngressOutcome)" where
  "handle_repair_request st repair =
     (let st1 = st \<lparr>dt_metrics := (dt_metrics st) \<lparr>repair_requests_received :=
            saturating_add (repair_requests_received (dt_metrics st)) 1\<rparr>\<rparr> in
      case om_get (dt_send_window st) (dr_message_id repair) of
        None \<Rightarrow> (st1, Ok empty_outcome)
      | Some m \<Rightarrow>
          let m1 = m \<lparr>pm_repair_attempts := saturating_add (pm_repair_attempts m) 1\<rparr>;
              st2 = st1 \<lparr>dt_send_window := om_insert (dr_message_id repair) m1 (dt_send_window st)\<rparr> in
          if pm_repair_attempts m1 > max_repair_attempts (dt_reliability st)
          then (st2, Err (RepairBudgetExceeded (dr_message_id repair)))
          else let repair_packets = repair_packets_for_message m1 (dr_missing_ranges repair);
                   st3 = st2 \<lparr>dt_metrics := (dt_metrics st1) \<lparr>retransmitted_datagrams :=
                     saturating_add (retransmitted_datagrams (dt_metrics st1))
                       (of_nat (length repair_packets))\<rparr>\<rparr> in
            (case encode_datagram_frames repair_packets of
               Err e \<Rightarrow> (st3, Err (DS_Wire e))
             | Ok out \<Rightarrow> (st3, Ok (empty_outcome \<lparr>oi_outbound_datagrams := out\<rparr>))))"

definition handle_datagram ::
  "DatagramTransportState \<Rightarrow> bytes
     \<Rightarrow> DatagramTransportState \<times> (DatagramSessionError + DatagramIngressOutcome)" where
  "handle_datagram st datagram =
     (if dt_closed st then (st, Err SessionClosed)
      else case packet_from_bytes datagram of
        Err e \<Rightarrow> (st, Err (DS_Wire e))
      | Ok packet \<Rightarrow>
          if packet_stream_id packet \<noteq> dt_stream_id st
          then (st, Err (DS_UnexpectedStreamId (dt_stream_id st) (packet_stream_id packet)))
          else case packet of
            DP_Bootstrap _ _ \<Rightarrow> (st, Ok empty_outcome)
          | DP_Data h payload \<Rightarrow> handle_data st h payload
          | DP_Ack ack \<Rightarrow> handle_ack st ack
          | DP_RepairRequest repair \<Rightarrow> handle_repair_request st repair
          | DP_Keepalive _ \<Rightarrow> (st, Ok empty_outcome)
          | DP_Close close \<Rightarrow>
              (st \<lparr>dt_closed := True\<rparr>, Ok (empty_outcome \<lparr>oi_close_code := Some (dc_code close)\<rparr>)))"

section \<open>Repair requests, keepalive, close\<close>

text \<open>
  \<open>message_ids\<close> is the order in which the \<open>HashMap\<close> of incomplete messages yields its keys.
\<close>

fun repair_requests_loop ::
  "DatagramTransportState \<Rightarrow> u64 list \<Rightarrow> DatagramTransportState \<times> (DatagramSessionError + bytes list)" where
  "repair_requests_loop st [] = (st, Ok [])"
| "repair_requests_loop st (message_id # ids) =
     (let attempts = saturating_add
            (case om_get (dt_inbound_repair_attempts st) message_id of Some a \<Rightarrow> a | None \<Rightarrow> 0) 1;
          st1 = st \<lparr>dt_inbound_repair_attempts :=
            om_insert message_id attempts (dt_inbound_repair_attempts st)\<rparr> in
      if attempts > max_repair_attempts (dt_reliability st)
      then (st1, Err (RepairBudgetExceeded message_id))
      else case missing_ranges_for message_id (dt_reassembly st) of
        None \<Rightarrow> repair_requests_loop st1 ids
      | Some ranges \<Rightarrow>
          if ranges = [] then repair_requests_loop st1 ids
          else case packet_to_bytes (DP_RepairRequest \<lparr>dr_stream_id = dt_stream_id st,
                  dr_message_id = message_id, dr_missing_ranges = ranges\<rparr>) of
            Err e \<Rightarrow> (st1, Err (DS_Wire e))
          | Ok packet \<Rightarrow>
              let st2 = st1 \<lparr>dt_metrics := (dt_metrics st1) \<lparr>repair_requests_sent :=
                    saturating_add (repair_requests_sent (dt_metrics st1)) 1\<rparr>\<rparr> in
              (case repair_requests_loop st2 ids of
                 (st', Err e) \<Rightarrow> (st', Err e)
               | (st', Ok out) \<Rightarrow> (st', Ok (packet # out))))"

definition build_repair_requests ::
  "DatagramTransportState \<Rightarrow> u64 list \<Rightarrow> DatagramTransportState \<times> (DatagramSessionError + bytes list)" where
  "build_repair_requests st message_ids =
     (if dt_closed st then (st, Err SessionClosed) else repair_requests_loop st message_ids)"

definition encode_keepalive :: "DatagramTransportState \<Rightarrow> DatagramSessionError + bytes" where
  "encode_keepalive st =
     (if dt_closed st then Err SessionClosed
      else map_err DS_Wire (packet_to_bytes (DP_Keepalive \<lparr>dk_stream_id = dt_stream_id st\<rparr>)))"

definition encode_close ::
  "DatagramTransportState \<Rightarrow> u16 \<Rightarrow> DatagramTransportState \<times> (DatagramSessionError + bytes)" where
  "encode_close st code =
     (if dt_closed st then (st, Err SessionClosed)
      else (st \<lparr>dt_closed := True\<rparr>,
            map_err DS_Wire (packet_to_bytes (DP_Close \<lparr>dc_stream_id = dt_stream_id st, dc_code = code\<rparr>))))"

section \<open>Draining completed messages\<close>

lemma drain_none: "om_get (rb_completed rb) (rb_expected_message_id rb) = None \<Longrightarrow> drain_ready rb = (rb, [])"
  by (subst drain_ready.simps) (simp add: pop_next_ready_def)

lemma drain_some:
  "om_get (rb_completed rb) (rb_expected_message_id rb) = Some frame \<Longrightarrow>
    drain_ready rb =
      (case drain_ready (rb \<lparr>rb_completed := om_remove (rb_expected_message_id rb) (rb_completed rb),
            rb_expected_message_id := saturating_succ (rb_expected_message_id rb)\<rparr>) of
         (rb', frames) \<Rightarrow> (rb', frame # frames))"
  by (subst drain_ready.simps) (simp add: pop_next_ready_def)

lemma saturating_succ_unat:
  assumes "unat (w :: 'a::len word) + 1 < 2 ^ LENGTH('a)"
  shows "saturating_succ w = w + 1 \<and> unat (w + 1) = unat w + 1"
proof -
  have u: "unat (w + 1) = unat w + 1" using assms by (simp add: unat_word_ariths)
  moreover have "w \<noteq> - 1"
  proof
    assume "w = - 1"
    with u show False by simp
  qed
  ultimately show ?thesis by (simp add: saturating_succ_def)
qed

text \<open>
  What a drain delivers: the completed messages from the expected id on, without a gap, and all of
  them up to the first id that is not complete.
\<close>

lemma drain_ready_spec:
  assumes "drain_ready rb = (rb', frames)"
    and "unat (rb_expected_message_id rb) + length (rb_completed rb) < 2 ^ 64"
  shows "(\<forall>i < length frames. om_get (rb_completed rb) (rb_expected_message_id rb + of_nat i) = Some (frames ! i))
    \<and> rb_expected_message_id rb' = rb_expected_message_id rb + of_nat (length frames)
    \<and> om_get (rb_completed rb') (rb_expected_message_id rb') = None
    \<and> length frames + length (rb_completed rb') \<le> length (rb_completed rb)
    \<and> rb_partial rb' = rb_partial rb \<and> rb_acknowledged rb' = rb_acknowledged rb"
  using assms
proof (induction "length (rb_completed rb)" arbitrary: rb frames rule: less_induct)
  case less
  let ?e = "rb_expected_message_id rb"
  show ?case
  proof (cases "om_get (rb_completed rb) ?e")
    case None
    then show ?thesis using less.prems(1) by (auto simp: drain_none)
  next
    case (Some frame)
    let ?rb = "rb \<lparr>rb_completed := om_remove ?e (rb_completed rb), rb_expected_message_id := saturating_succ ?e\<rparr>"
    obtain fs where d: "drain_ready ?rb = (rb', fs)" and frames: "frames = frame # fs"
      using less.prems(1) drain_some [OF Some] by (auto split: prod.splits)
    have pop: "pop_next_ready rb = (?rb, Some (?e, frame))" using Some by (simp add: pop_next_ready_def)
    have shorter: "length (rb_completed ?rb) < length (rb_completed rb)"
      using pop_next_ready_shrinks [OF pop] .
    have succ: "saturating_succ ?e = ?e + 1" "unat (?e + 1) = unat ?e + 1"
      using saturating_succ_unat [of ?e] less.prems(2) shorter by simp_all
    have "unat (rb_expected_message_id ?rb) + length (rb_completed ?rb) < 2 ^ 64"
      using less.prems(2) shorter succ by simp
    note IH = less.hyps [OF shorter d this]
    have bound: "length fs < 2 ^ 64 - 1" using IH shorter less.prems(2) by simp
    have "om_get (rb_completed rb) (?e + of_nat i) = Some (frames ! i)" if "i < length frames" for i
    proof (cases i)
      case 0
      then show ?thesis using Some frames by simp
    next
      case (Suc j)
      then have "j < length fs" using that frames by simp
      then have "om_get (om_remove ?e (rb_completed rb)) (?e + 1 + of_nat j) = Some (fs ! j)"
        using IH succ by simp
      then show ?thesis
        by (simp add: Suc frames add.assoc split: if_splits)
    qed
    moreover from IH have e: "rb_expected_message_id rb' = ?e + of_nat (length frames)"
      and "length fs + length (rb_completed rb') \<le> length (rb_completed ?rb)"
      and "rb_partial rb' = rb_partial rb" "rb_acknowledged rb' = rb_acknowledged rb"
      by (simp_all add: succ frames add.assoc)
    moreover from IH have "om_get (rb_completed rb') (rb_expected_message_id rb') = None" by blast
    ultimately show ?thesis using shorter frames by simp
  qed
qed

lemma drain_keeps_partial:
  "drain_ready rb = (rb', frames) \<Longrightarrow> rb_partial rb' = rb_partial rb"
proof (induction rb arbitrary: rb' frames rule: drain_ready.induct)
  case (1 rb)
  show ?case
  proof (cases "om_get (rb_completed rb) (rb_expected_message_id rb)")
    case None
    then show ?thesis using 1(2) by (simp add: drain_none)
  next
    case (Some frame)
    let ?rb = "rb \<lparr>rb_completed := om_remove (rb_expected_message_id rb) (rb_completed rb),
        rb_expected_message_id := saturating_succ (rb_expected_message_id rb)\<rparr>"
    have pop: "pop_next_ready rb = (?rb, Some (rb_expected_message_id rb, frame))"
      using Some by (simp add: pop_next_ready_def)
    obtain rb2 fs where d: "drain_ready ?rb = (rb2, fs)" by fastforce
    have "rb_partial rb2 = rb_partial ?rb" by (rule 1(1) [OF pop [symmetric] refl refl d])
    then show ?thesis using 1(2) drain_some [OF Some] d by simp
  qed
qed

lemma unat_lt_max: "(m :: u32) \<noteq> - 1 \<Longrightarrow> unat m + 1 < 2 ^ 32"
proof (rule ccontr)
  assume m: "m \<noteq> - 1" and "\<not> unat m + 1 < 2 ^ 32"
  moreover have "unat m < 2 ^ 32" using unsigned_less [of m, where 'a = nat] by simp
  ultimately have "unat m = unat (- 1 :: u32)"
    by (simp add: unsigned_minus_1_eq_mask mask_eq_exp_minus_1)
  with m show False by (simp only: word_unat_eq_iff)
qed

section \<open>One message from end to end\<close>

text \<open>The receiver waits for message \<open>mid\<close> and holds its chunks with index in \<open>S\<close>.\<close>

definition awaiting :: "DatagramTransportState \<Rightarrow> StreamId \<Rightarrow> u64 \<Rightarrow> bytes list \<Rightarrow> nat set \<Rightarrow> bool" where
  "awaiting st sid mid cs S \<longleftrightarrow>
     \<not> dt_closed st \<and> dt_stream_id st = sid
     \<and> (let rb = dt_reassembly st in
          rb_expected_message_id rb = mid \<and> collecting rb mid cs S \<and> rb_acknowledged rb = []
          \<and> om_get (rb_completed rb) mid = None \<and> om_get (rb_completed rb) (mid + 1) = None)"

lemma data_packet_ok:
  assumes "i < length cs" and "length cs < 2 ^ 16" and "length (cs ! i) < 2 ^ 16"
  shows "packet_ok (data_packet sid mid cs i)"
proof -
  have "(of_nat i :: u16) < of_nat (length cs)"
    using assms unat_of_nat_u16 [of "length cs"] unat_index [of i "length cs"]
    by (simp add: word_less_nat_alt)
  then show ?thesis
    using assms unat_of_nat_u16 [of "length (cs ! i)"] by (simp add: data_packet_def)
qed

lemma handle_data_packet:
  assumes "\<not> dt_closed st" and "dt_stream_id st = sid" and "length cs < 2 ^ 16"
    and "i < length cs" and "length (cs ! i) < 2 ^ 16"
  shows "handle_datagram st (packet_enc (data_packet sid mid cs i)) =
    handle_data st (data_header sid mid cs i) (cs ! i)"
proof -
  have "packet_from_bytes (packet_enc (data_packet sid mid cs i)) = Ok (data_packet sid mid cs i)"
    using assms data_packet_ok packet_codec.dec_enc by blast
  then show ?thesis
    using assms by (simp add: handle_datagram_def data_packet_def)
qed

lemma awaitingD:
  "awaiting st sid mid cs S \<Longrightarrow> \<not> dt_closed st \<and> dt_stream_id st = sid \<and> length cs < 2 ^ 16"
  by (simp add: awaiting_def collecting_def Let_def)

text \<open>The receiver has delivered message \<open>mid\<close>; repetitions may have opened it again.\<close>

definition settled :: "DatagramTransportState \<Rightarrow> StreamId \<Rightarrow> u64 \<Rightarrow> bytes list \<Rightarrow> bool" where
  "settled st sid mid cs \<longleftrightarrow>
     \<not> dt_closed st \<and> dt_stream_id st = sid
     \<and> (let rb = dt_reassembly st in
          rb_expected_message_id rb = mid + 1 \<and> (\<exists>S. collecting rb mid cs S) \<and> rb_acknowledged rb = []
          \<and> om_get (rb_completed rb) (mid + 1) = None)"

lemma handle_chunk_incomplete:
  assumes "awaiting st sid mid cs S" and "i < length cs" and "insert i S \<noteq> {0..<length cs}"
  shows "\<exists>st'. handle_data st (data_header sid mid cs i) (cs ! i) = (st', Ok empty_outcome)
    \<and> awaiting st' sid mid cs (insert i S)"
proof -
  let ?rb = "dt_reassembly st"
  have c: "collecting ?rb mid cs S" and rb: "rb_expected_message_id ?rb = mid" "rb_acknowledged ?rb = []"
    "om_get (rb_completed ?rb) mid = None" "om_get (rb_completed ?rb) (mid + 1) = None"
    and st: "\<not> dt_closed st" "dt_stream_id st = sid"
    using assms(1) by (simp_all add: awaiting_def Let_def)
  from insert_chunk(1) [OF c assms(2,3)] obtain pm where
    ins: "insert_data (data_header sid mid cs i) (cs ! i) ?rb =
      (?rb \<lparr>rb_partial := om_insert mid pm (rb_partial ?rb)\<rparr>, Ok False)"
    and col: "collected pm cs (insert i S)" by blast
  have drain: "drain_ready (?rb \<lparr>rb_partial := p, rb_acknowledged := []\<rparr>) =
      (?rb \<lparr>rb_partial := p, rb_acknowledged := []\<rparr>, [])" for p
    using rb by (intro drain_none) simp
  show ?thesis
    using ins rb col st c drain
    by (simp add: handle_data_def Let_def take_acknowledged_def om_keys_def clear_acknowledged_def
        awaiting_def collecting_def empty_outcome_def)
qed

lemma handle_chunk_complete:
  assumes "awaiting st sid mid cs S" and "i < length cs" and "insert i S = {0..<length cs}"
    and "unat mid + 1 < 2 ^ 64"
  shows "\<exists>st'. handle_data st (data_header sid mid cs i) (cs ! i) =
      (st', Ok \<lparr>oi_outbound_datagrams = [packet_enc (DP_Ack \<lparr>da_stream_id = sid, da_message_id = mid\<rparr>)],
                oi_ready_frames = [concat cs], oi_close_code = None\<rparr>)
    \<and> settled st' sid mid cs"
proof -
  let ?rb = "dt_reassembly st"
  have c: "collecting ?rb mid cs S" and rb: "rb_expected_message_id ?rb = mid" "rb_acknowledged ?rb = []"
    "om_get (rb_completed ?rb) mid = None" "om_get (rb_completed ?rb) (mid + 1) = None"
    and st: "\<not> dt_closed st" "dt_stream_id st = sid"
    using assms(1) by (simp_all add: awaiting_def Let_def)
  define rb1 where "rb1 = ?rb \<lparr>rb_partial := om_remove mid (rb_partial ?rb),
      rb_completed := om_insert mid (concat cs) (rb_completed ?rb), rb_acknowledged := []\<rparr>"
  have ins: "insert_data (data_header sid mid cs i) (cs ! i) ?rb =
      (rb1 \<lparr>rb_acknowledged := [(mid, ())]\<rparr>, Ok True)"
    using insert_chunk(2) [OF c assms(2,3)] rb(2) by (simp add: rb1_def)
  have succ: "saturating_succ mid = mid + 1" using saturating_succ_unat [of mid] assms(4) by simp
  have drain: "drain_ready rb1 = (rb1 \<lparr>rb_completed := om_remove mid (rb_completed rb1),
      rb_expected_message_id := mid + 1\<rparr>, [concat cs])"
    using rb succ by (subst drain_some) (simp_all add: rb1_def drain_none)
  have ack: "rb1 \<lparr>rb_acknowledged := []\<rparr> = rb1" by (simp add: rb1_def)
  have drain': "drain_ready (rb1 \<lparr>rb_acknowledged := []\<rparr>) = (rb1 \<lparr>rb_completed := om_remove mid (rb_completed rb1),
      rb_expected_message_id := mid + 1\<rparr>, [concat cs])" unfolding ack by (rule drain)
  have "collecting (rb1 \<lparr>rb_completed := om_remove mid (rb_completed rb1), rb_expected_message_id := mid + 1\<rparr>) mid cs {}"
    using c by (simp add: collecting_def rb1_def)
  moreover have "rb_acknowledged rb1 = []" "om_get (rb_completed rb1) (mid + 1) = None"
    using rb(4) by (simp_all add: rb1_def)
  ultimately show ?thesis
    using ins drain' st
    by (auto simp: handle_data_def Let_def take_acknowledged_def om_keys_def clear_acknowledged_def
        packet_enc_def settled_def)
qed

lemma handle_chunk_settled:
  assumes "settled st sid mid cs" and "i < length cs"
  shows "\<exists>st' out. handle_data st (data_header sid mid cs i) (cs ! i) = (st', Ok out)
    \<and> oi_ready_frames out = [] \<and> settled st' sid mid cs"
proof -
  let ?rb = "dt_reassembly st"
  obtain S where c: "collecting ?rb mid cs S" and rb: "rb_expected_message_id ?rb = mid + 1" "rb_acknowledged ?rb = []"
    "om_get (rb_completed ?rb) (mid + 1) = None" and st: "\<not> dt_closed st" "dt_stream_id st = sid"
    using assms(1) by (auto simp: settled_def Let_def)
  have drain: "drain_ready (?rb \<lparr>rb_partial := p, rb_completed := d, rb_acknowledged := []\<rparr>) =
      (?rb \<lparr>rb_partial := p, rb_completed := d, rb_acknowledged := []\<rparr>, [])" if "om_get d (mid + 1) = None" for p d
    using rb that by (intro drain_none) simp
  show ?thesis
  proof (cases "insert i S = {0..<length cs}")
    case False
    from insert_chunk(1) [OF c assms(2) False] obtain pm where
      ins: "insert_data (data_header sid mid cs i) (cs ! i) ?rb =
        (?rb \<lparr>rb_partial := om_insert mid pm (rb_partial ?rb)\<rparr>, Ok False)"
      and "collected pm cs (insert i S)" by blast
    then have "collecting (?rb \<lparr>rb_partial := om_insert mid pm (rb_partial ?rb), rb_acknowledged := []\<rparr>) mid cs (insert i S)"
      using c by (simp add: collecting_def)
    then show ?thesis
      using ins rb st drain [of "rb_completed ?rb" "om_insert mid pm (rb_partial ?rb)"]
      by (auto simp: handle_data_def Let_def take_acknowledged_def om_keys_def clear_acknowledged_def settled_def)
  next
    case True
    have "collecting (?rb \<lparr>rb_partial := om_remove mid (rb_partial ?rb), rb_completed := d, rb_acknowledged := []\<rparr>) mid cs {}" for d
      using c by (simp add: collecting_def)
    then show ?thesis
      using insert_chunk(2) [OF c assms(2) True] rb st drain [of "om_insert mid (concat cs) (rb_completed ?rb)"]
      by (auto simp: handle_data_def Let_def take_acknowledged_def om_keys_def clear_acknowledged_def settled_def)
  qed
qed

lemma run_settled:
  assumes "settled st sid mid cs" and "set is \<subseteq> {0..<length cs}" and "\<forall>c \<in> set cs. length c < 2 ^ 16"
  shows "\<exists>st' outs. run_ops handle_datagram st (map (\<lambda>i. packet_enc (data_packet sid mid cs i)) is) = (st', Ok outs)
    \<and> concat (map oi_ready_frames outs) = [] \<and> settled st' sid mid cs"
  using assms(1,2)
proof (induction "is" arbitrary: st)
  case (Cons i js)
  have i: "i < length cs" "set js \<subseteq> {0..<length cs}" and small: "length (cs ! i) < 2 ^ 16"
    using Cons.prems assms(3) by auto
  have st: "\<not> dt_closed st" "dt_stream_id st = sid" "length cs < 2 ^ 16"
    using Cons.prems(1) by (auto simp: settled_def collecting_def Let_def)
  from handle_chunk_settled [OF Cons.prems(1) i(1)] obtain st1 out where
    st1: "handle_data st (data_header sid mid cs i) (cs ! i) = (st1, Ok out)" "oi_ready_frames out = []"
    and "settled st1 sid mid cs" by blast
  from Cons.IH [OF this(3) i(2)] handle_data_packet [OF st i(1) small] st1 show ?case by auto
qed simp

text \<open>Where a run over all of a set first has all of it.\<close>

lemma first_full_prefix:
  assumes "set xs \<noteq> {}"
  shows "\<exists>ys y zs. xs = ys @ y # zs \<and> insert y (set ys) = set xs \<and> y \<notin> set ys"
  using assms
proof (induction xs rule: rev_induct)
  case (snoc x xs)
  show ?case
  proof (cases "x \<in> set xs")
    case True
    then have "set xs \<noteq> {}" by auto
    from snoc.IH [OF this] obtain ys y zs where "xs = ys @ y # zs" "insert y (set ys) = set xs" "y \<notin> set ys" by blast
    with True show ?thesis by (intro exI [of _ ys] exI [of _ y] exI [of _ "zs @ [x]"]) (simp, blast)
  next
    case False
    then show ?thesis by (intro exI [of _ xs] exI [of _ x] exI [of _ "[]"]) simp
  qed
qed simp

lemma encode_frames_ok:
  "\<forall>p \<in> set ps. packet_ok p \<Longrightarrow> encode_datagram_frames ps = Ok (map packet_enc ps)"
  by (induction ps) (simp_all add: packet_enc_ok)

lemma chunk_packets_ok:
  assumes "length cs < 2 ^ 16" and "\<forall>c \<in> set cs. length c < 2 ^ 16"
  shows "\<forall>p \<in> set (map (data_packet sid mid cs) [0..<length cs]). packet_ok p"
  using assms data_packet_ok by auto

lemma encode_transport_frame_Ok:
  assumes "encode_transport_frame st frame = (st', Ok ds)"
  obtains cs where "\<not> dt_closed st" and "length cs < 2 ^ 16" and "\<forall>c \<in> set cs. length c < 2 ^ 16"
    and "concat cs = frame"
    and "ds = map (\<lambda>i. packet_enc (data_packet (dt_stream_id st) (dt_next_outbound_message_id st) cs i)) [0..<length cs]"
    and "dt_next_outbound_message_id st' = saturating_succ (dt_next_outbound_message_id st)"
proof -
  from assms obtain packets where open_st: "\<not> dt_closed st"
    and frag: "fragment_transport_frame (dt_stream_id st) (dt_next_outbound_message_id st) frame (dt_reliability st) = Ok packets"
    and enc: "encode_datagram_frames packets = Ok ds"
    and nxt: "dt_next_outbound_message_id st' = saturating_succ (dt_next_outbound_message_id st)"
    by (auto simp: encode_transport_frame_def Let_def split: if_splits sum.splits)
  from frag obtain cs where packets: "packets = map (data_packet (dt_stream_id st) (dt_next_outbound_message_id st) cs) [0..<length cs]"
    and cs: "length cs < 2 ^ 16" "concat cs = frame" "\<forall>c \<in> set cs. length c < 2 ^ 16"
    by (rule fragment_frame)
  have "encode_datagram_frames packets = Ok (map packet_enc packets)"
    unfolding packets by (rule encode_frames_ok [OF chunk_packets_ok [OF cs(1,3)]])
  with enc have "ds = map packet_enc packets" by simp
  with that [OF open_st cs(1,3,2) _ nxt] show thesis by (simp add: packets comp_def)
qed

lemma run_chunks:
  assumes "awaiting st sid mid cs S" and "set is \<subseteq> {0..<length cs}" and "\<not> {0..<length cs} \<subseteq> S \<union> set is"
    and "\<forall>c \<in> set cs. length c < 2 ^ 16"
  shows "\<exists>st'. run_ops handle_datagram st (map (\<lambda>i. packet_enc (data_packet sid mid cs i)) is) =
      (st', Ok (replicate (length is) empty_outcome)) \<and> awaiting st' sid mid cs (S \<union> set is)"
  using assms(1-3)
proof (induction "is" arbitrary: st S)
  case Nil
  then show ?case by simp
next
  case (Cons i js)
  have i: "i < length cs" "insert i S \<noteq> {0..<length cs}" and small: "length (cs ! i) < 2 ^ 16"
    using Cons.prems assms(4) by auto
  from handle_chunk_incomplete [OF Cons.prems(1) i] obtain st1 where
    st1: "handle_data st (data_header sid mid cs i) (cs ! i) = (st1, Ok empty_outcome)"
    and aw: "awaiting st1 sid mid cs (insert i S)" by blast
  have "set js \<subseteq> {0..<length cs}" and "\<not> {0..<length cs} \<subseteq> insert i S \<union> set js"
    using Cons.prems by auto
  from Cons.IH [OF aw this] handle_data_packet [OF _ _ _ i(1) small] awaitingD [OF Cons.prems(1)] st1
  show ?case by auto
qed

definition receiver_ready :: "DatagramTransportState \<Rightarrow> DatagramTransportState \<Rightarrow> bool" where
  "receiver_ready R S \<longleftrightarrow>
     \<not> dt_closed R \<and> dt_stream_id R = dt_stream_id S
     \<and> (let rb = dt_reassembly R; mid = dt_next_outbound_message_id S in
          rb_expected_message_id rb = mid \<and> om_get (rb_partial rb) mid = None \<and> rb_acknowledged rb = []
          \<and> om_get (rb_completed rb) mid = None \<and> om_get (rb_completed rb) (mid + 1) = None)"

lemma run_all_chunks:
  assumes "awaiting R sid mid cs {}" and "cs \<noteq> []" and "set is = {0..<length cs}" and "unat mid + 1 < 2 ^ 64"
    and small: "\<forall>c \<in> set cs. length c < 2 ^ 16"
  shows "\<exists>R' outs. run_ops handle_datagram R (map (\<lambda>i. packet_enc (data_packet sid mid cs i)) is) = (R', Ok outs)
    \<and> concat (map oi_ready_frames outs) = [concat cs] \<and> settled R' sid mid cs"
proof -
  let ?p = "\<lambda>i. packet_enc (data_packet sid mid cs i)"
  from assms(2,3) have "set is \<noteq> {}" by simp
  then obtain js l ks where "is": "is = js @ l # ks" and full: "insert l (set js) = {0..<length cs}" and "l \<notin> set js"
    using first_full_prefix [of "is"] assms(3) by auto
  then have l: "l < length cs" and js: "set js \<subseteq> {0..<length cs}" "\<not> {0..<length cs} \<subseteq> {} \<union> set js" by auto
  from run_chunks [OF assms(1) js small] obtain R1 where
    R1: "run_ops handle_datagram R (map ?p js) = (R1, Ok (replicate (length js) empty_outcome))"
    and aw: "awaiting R1 sid mid cs (set js)" by auto
  from handle_chunk_complete [OF aw l full assms(4)] obtain R2 acks where
    R2: "handle_data R1 (data_header sid mid cs l) (cs ! l) =
      (R2, Ok \<lparr>oi_outbound_datagrams = acks, oi_ready_frames = [concat cs], oi_close_code = None\<rparr>)"
    and settled: "settled R2 sid mid cs" by blast
  have "length (cs ! l) < 2 ^ 16" using small l by auto
  then have step: "run_ops handle_datagram R1 [?p l] =
      (R2, Ok [\<lparr>oi_outbound_datagrams = acks, oi_ready_frames = [concat cs], oi_close_code = None\<rparr>])"
    using handle_data_packet [OF _ _ _ l] awaitingD [OF aw] R2 by simp
  have "set ks \<subseteq> {0..<length cs}" using assms(3) by (auto simp: "is")
  from run_settled [OF settled this small] obtain R3 outs where
    R3: "run_ops handle_datagram R2 (map ?p ks) = (R3, Ok outs)" "concat (map oi_ready_frames outs) = []"
      "settled R3 sid mid cs" by blast
  from run_ops_append_Ok [OF run_ops_append_Ok [OF R1 step] R3(1)] R3(2,3) show ?thesis
    by (auto simp: "is" empty_outcome_def)
qed

lemma delivered_end_to_end:
  assumes "encode_transport_frame S frame = (S', Ok ds)" and "frame \<noteq> []" and "receiver_ready R S"
    and "unat (dt_next_outbound_message_id S) + 1 < 2 ^ 64" and "set es = set ds"
  shows "\<exists>R' outs. run_ops handle_datagram R es = (R', Ok outs)
    \<and> concat (map oi_ready_frames outs) = [frame]
    \<and> rb_expected_message_id (dt_reassembly R') = dt_next_outbound_message_id S'"
proof -
  define sid where "sid = dt_stream_id S"
  define mid where "mid = dt_next_outbound_message_id S"
  from assms(1) obtain cs where len: "length cs < 2 ^ 16" and small: "\<forall>c \<in> set cs. length c < 2 ^ 16"
    and frame: "concat cs = frame" and ds: "ds = map (\<lambda>i. packet_enc (data_packet sid mid cs i)) [0..<length cs]"
    and nxt: "dt_next_outbound_message_id S' = saturating_succ mid"
    unfolding sid_def mid_def by (rule encode_transport_frame_Ok)
  let ?p = "\<lambda>i. packet_enc (data_packet sid mid cs i)"
  have inj: "inj_on ?p {0..<length cs}"
  proof (rule inj_onI)
    fix i j
    assume ij: "i \<in> {0..<length cs}" "j \<in> {0..<length cs}" and eq: "?p i = ?p j"
    then have "packet_ok (data_packet sid mid cs i)" "packet_ok (data_packet sid mid cs j)"
      using chunk_packets_ok [OF len small] by auto
    from packet_codec.enc_inject [OF this eq] ij data_packet_inj [OF len, of sid mid] show "i = j"
      by (auto dest: inj_onD)
  qed
  have image: "set es = ?p ` {0..<length cs}" using assms(5) by (simp add: ds)
  define "is" where "is = map (the_inv_into {0..<length cs} ?p) es"
  have "map ?p is = es"
    unfolding is_def map_map by (rule map_idI) (simp add: f_the_inv_into_f [OF inj] image [symmetric])
  moreover have "set is = {0..<length cs}"
    using the_inv_into_onto [OF inj] by (simp add: is_def image)
  moreover have "awaiting R sid mid cs {}"
    using assms(3) len by (simp add: awaiting_def receiver_ready_def collecting_def Let_def sid_def mid_def)
  moreover have "cs \<noteq> []" using assms(2) frame by auto
  moreover have mid1: "unat mid + 1 < 2 ^ 64" using assms(4) by (simp add: mid_def)
  ultimately obtain R' outs where "run_ops handle_datagram R es = (R', Ok outs)"
    "concat (map oi_ready_frames outs) = [frame]" "settled R' sid mid cs"
    using run_all_chunks [of R sid mid cs "is"] small frame by auto
  moreover have "mid + 1 = saturating_succ mid" using saturating_succ_unat [of mid] mid1 by simp
  ultimately show ?thesis using nxt by (auto simp: settled_def Let_def)
qed

section \<open>Properties\<close>

text \<open>C10: a non-empty frame that the sender encodes reaches a receiver that waits for it: in whatever order its
  datagrams arrive and however often each is repeated, before or after the frame is complete, the run delivers
  exactly that frame, once, and the receiver then waits for the sender's next message.\<close>

theorem frame_delivered_end_to_end:
  assumes "encode_transport_frame S frame = (S', Ok ds)" and "frame \<noteq> []" and "receiver_ready R S"
    and "unat (dt_next_outbound_message_id S) + 1 < 2 ^ 64" and "set es = set ds"
  shows "\<exists>R' outs. run_ops handle_datagram R es = (R', Ok outs)
    \<and> concat (map oi_ready_frames outs) = [frame]
    \<and> rb_expected_message_id (dt_reassembly R') = dt_next_outbound_message_id S'"
  using assms by (rule delivered_end_to_end)

definition sample_session :: DatagramTransportState where
  "sample_session = session_new 7 sample_config"

lemma sample_encode:
  "\<exists>S'. encode_transport_frame sample_session [1, 2, 3, 4, 5] = (S', Ok (map packet_enc sample_fragments))"
proof -
  have "\<forall>p \<in> set sample_fragments. packet_ok p"
    by (simp add: sample_fragments_def data_packet_def word_less_nat_alt)
  then have "encode_datagram_frames sample_fragments = Ok (map packet_enc sample_fragments)"
    by (rule encode_frames_ok)
  then show ?thesis
    using sample_fragments_eq
    by (simp add: encode_transport_frame_def Let_def sample_session_def session_new_def)
qed

lemma sample_fragments_ok: "\<forall>p \<in> set sample_fragments. packet_ok p"
  by (simp add: sample_fragments_def data_packet_def word_less_nat_alt)

lemma frame_delivered_end_to_end_witness:
  "\<exists>R' outs. run_ops handle_datagram sample_session (map packet_enc
      [sample_fragments ! 2, sample_fragments ! 0, sample_fragments ! 2, sample_fragments ! 1,
       sample_fragments ! 0, sample_fragments ! 1, sample_fragments ! 2]) = (R', Ok outs)
    \<and> concat (map oi_ready_frames outs) = [[1, 2, 3, 4, 5]]"
proof -
  let ?es = "map packet_enc [sample_fragments ! 2, sample_fragments ! 0, sample_fragments ! 2, sample_fragments ! 1,
       sample_fragments ! 0, sample_fragments ! 1, sample_fragments ! 2]"
  obtain S' where enc: "encode_transport_frame sample_session [1, 2, 3, 4, 5] = (S', Ok (map packet_enc sample_fragments))"
    using sample_encode by blast
  have ready: "receiver_ready sample_session sample_session"
    by (simp add: receiver_ready_def Let_def sample_session_def session_new_def buffer_new_def)
  have room: "unat (dt_next_outbound_message_id sample_session) + 1 < 2 ^ 64"
    by (simp add: sample_session_def session_new_def)
  have cover: "set ?es = set (map packet_enc sample_fragments)"
    by (auto simp: sample_fragments_def)
  from frame_delivered_end_to_end [OF enc _ ready room cover] show ?thesis by auto
qed

text \<open>Completed messages are handed out in order: a drain delivers the messages from the expected id on
  without a gap, moves the expected id past them and stops at the first id that is not complete.\<close>

theorem drain_delivers_in_order:
  assumes "drain_ready rb = (rb', frames)"
    and "unat (rb_expected_message_id rb) + length (rb_completed rb) < 2 ^ 64"
  shows "(\<forall>i < length frames. om_get (rb_completed rb) (rb_expected_message_id rb + of_nat i) = Some (frames ! i))
    \<and> rb_expected_message_id rb' = rb_expected_message_id rb + of_nat (length frames)
    \<and> om_get (rb_completed rb') (rb_expected_message_id rb') = None"
  using drain_ready_spec [OF assms] by blast

lemma drain_delivers_in_order_witness:
  "snd (drain_ready (buffer_new \<lparr>rb_completed := [(0, [1]), (1, [2]), (3, [4])]\<rparr>)) = [[1], [2]]
    \<and> om_get [(0 :: u64, [1 :: u8]), (1, [2]), (3, [4])] (0 + of_nat 1) = Some ([[1], [2]] ! 1)"
proof -
  let ?rb = "buffer_new \<lparr>rb_completed := [(0, [1]), (1, [2]), (3, [4])]\<rparr>"
  have drained: "drain_ready ?rb = (?rb \<lparr>rb_completed := [(3, [4])], rb_expected_message_id := 2\<rparr>, [[1], [2]])"
    by (simp add: drain_some drain_none buffer_new_def om_get_def om_remove_def saturating_succ_def)
  have "unat (rb_expected_message_id ?rb) + length (rb_completed ?rb) < 2 ^ 64" by (simp add: buffer_new_def)
  note drain_delivers_in_order [OF drained this, THEN conjunct1, rule_format, of 1]
  with drained show ?thesis by (simp add: buffer_new_def)
qed

text \<open>A closed session stays closed: closing, or receiving a close packet, closes; and every operation of
  a closed session returns \<open>SessionClosed\<close> and changes nothing.\<close>

theorem closed_session_is_final:
  shows "dt_closed (fst (encode_close st code))
    \<and> (dt_closed st \<longrightarrow>
        encode_transport_frame st frame = (st, Err SessionClosed)
        \<and> handle_datagram st datagram = (st, Err SessionClosed)
        \<and> build_repair_requests st ids = (st, Err SessionClosed)
        \<and> encode_keepalive st = Err SessionClosed
        \<and> encode_close st code' = (st, Err SessionClosed))
    \<and> (\<not> dt_closed st \<longrightarrow>
        handle_datagram st (packet_enc (DP_Close \<lparr>dc_stream_id = dt_stream_id st, dc_code = code\<rparr>)) =
          (st \<lparr>dt_closed := True\<rparr>, Ok (empty_outcome \<lparr>oi_close_code := Some code\<rparr>)))"
  using packet_codec.dec_enc [of "DP_Close \<lparr>dc_stream_id = dt_stream_id st, dc_code = code\<rparr>"]
  by (simp add: encode_close_def encode_transport_frame_def handle_datagram_def
      build_repair_requests_def encode_keepalive_def)

lemma closed_session_is_final_witness:
  "handle_datagram (fst (encode_close sample_session 3)) [] = (fst (encode_close sample_session 3), Err SessionClosed)"
proof -
  have "dt_closed (fst (encode_close sample_session 3))"
    by (simp add: encode_close_def sample_session_def session_new_def)
  with closed_session_is_final [of "fst (encode_close sample_session 3)" 3 "[]" "[]" "[]" 3]
  show ?thesis by blast
qed

text \<open>A corner of the code: an empty frame is sent with success as no datagram at all, but uses up a
  message id, so the receiver waits for a message that cannot arrive.\<close>

theorem empty_frame_is_lost:
  assumes "\<not> dt_closed st"
  shows "snd (encode_transport_frame st []) = Ok []
    \<and> dt_next_outbound_message_id (fst (encode_transport_frame st [])) =
        saturating_succ (dt_next_outbound_message_id st)"
proof -
  have "fragment_transport_frame sid mid [] config = Ok []" for sid mid config
    by (simp add: fragment_transport_frame_def Let_def div_ceil_def chunks.simps)
  then show ?thesis using assms by (simp add: encode_transport_frame_def Let_def)
qed

lemma empty_frame_is_lost_witness:
  "snd (encode_transport_frame sample_session []) = Ok []
    \<and> dt_next_outbound_message_id (fst (encode_transport_frame sample_session [])) = 1"
  using empty_frame_is_lost [of sample_session]
  by (simp add: sample_session_def session_new_def saturating_succ_def)

text \<open>A corner of the code: a chunk of a message that was already delivered opens the message again
  (\<open>insert_data\<close> does not look at the expected id); the partial message stays, and once its repair
  attempts are used up \<open>build_repair_requests\<close> fails, whatever other messages are waiting.\<close>

theorem late_duplicate_reopens_message:
  assumes "\<not> dt_closed st" and "dh_stream_id h = dt_stream_id st" and "packet_ok (DP_Data h c)"
    and "dh_chunk_count h \<noteq> 1" and "om_get (rb_partial (dt_reassembly st)) (dh_message_id h) = None"
    and "dh_message_id h < rb_expected_message_id (dt_reassembly st)"
    and "handle_datagram st (packet_enc (DP_Data h c)) = (st', Ok out)"
  shows "om_get (rb_partial (dt_reassembly st')) (dh_message_id h) \<noteq> None
    \<and> (om_get (dt_inbound_repair_attempts st') (dh_message_id h) = Some (max_repair_attempts (dt_reliability st'))
        \<longrightarrow> max_repair_attempts (dt_reliability st') \<noteq> - 1
        \<longrightarrow> snd (build_repair_requests st' (dh_message_id h # ids)) = Err (RepairBudgetExceeded (dh_message_id h)))"
proof -
  let ?rb = "dt_reassembly st"
  have "unat (dh_chunk_count h) \<noteq> 1" using assms(4) by (metis unat_1 word_unat_eq_iff)
  then have ins: "insert_data h c ?rb =
      (?rb \<lparr>rb_partial := om_insert (dh_message_id h)
          \<lparr>pt_chunk_count = dh_chunk_count h, pt_received = [(dh_chunk_index h, c)]\<rparr> (rb_partial ?rb)\<rparr>, Ok False)"
    using assms(5) by (simp add: insert_data_def Let_def partial_insert_def partial_new_def)
  have "handle_datagram st (packet_enc (DP_Data h c)) = handle_data st h c"
    using assms(1,2) packet_codec.dec_enc [OF assms(3)] by (simp add: handle_datagram_def)
  with assms(7) have hd: "handle_data st h c = (st', Ok out)" by simp
  obtain rb2 fs where dr: "drain_ready (clear_acknowledged (fst (insert_data h c ?rb))) = (rb2, fs)"
    by fastforce
  have "rb_partial rb2 = rb_partial (fst (insert_data h c ?rb))"
    using drain_keeps_partial [OF dr] by (simp add: clear_acknowledged_def)
  then have part: "om_get (rb_partial (dt_reassembly st')) (dh_message_id h) \<noteq> None"
    using hd ins dr by (auto simp: handle_data_def Let_def split: sum.splits)
  have "dt_closed st' = dt_closed st"
    using hd ins dr by (auto simp: handle_data_def Let_def split: sum.splits)
  moreover have "m \<noteq> - 1 \<Longrightarrow> m < saturating_add m 1" for m :: u32
    using word_order.extremum_unique [of m] unat_lt_max [of m]
    by (auto simp: saturating_add_def word_less_nat_alt unat_word_ariths)
  ultimately show ?thesis
    using part assms(1) by (auto simp: build_repair_requests_def Let_def)
qed

definition sample_delivered :: DatagramTransportState where
  "sample_delivered = sample_session \<lparr>dt_reassembly := buffer_new \<lparr>rb_expected_message_id := 1\<rparr>,
     dt_inbound_repair_attempts := [(0, 8)]\<rparr>"

lemma late_duplicate_reopens_message_witness:
  "\<exists>st' out. handle_datagram sample_delivered (packet_enc (DP_Data (data_header 7 0 [[1, 2], [3, 4], [5]] 0) [1, 2]))
      = (st', Ok out)
    \<and> om_get (rb_partial (dt_reassembly st')) 0 \<noteq> None
    \<and> snd (build_repair_requests st' [0, 1]) = Err (RepairBudgetExceeded 0)"
proof -
  let ?h = "data_header 7 0 [[1, 2], [3, 4], [5]] 0"
  let ?rb = "buffer_new \<lparr>rb_expected_message_id := 1\<rparr>"
  have ok: "packet_ok (DP_Data ?h [1, 2])"
    using sample_fragments_ok by (simp add: sample_fragments_def data_packet_def)
  have ins: "insert_data ?h [1, 2] ?rb =
      (?rb \<lparr>rb_partial := [(0, \<lparr>pt_chunk_count = 3, pt_received = [(0, [1, 2])]\<rparr>)]\<rparr>, Ok False)"
    by (simp add: insert_data_def Let_def partial_insert_def partial_new_def buffer_new_def)
  have "drain_ready \<lparr>rb_expected_message_id = 1, rb_partial = p, rb_completed = [], rb_acknowledged = []\<rparr> =
      (\<lparr>rb_expected_message_id = 1, rb_partial = p, rb_completed = [], rb_acknowledged = []\<rparr>, [])" for p
    by (rule drain_none) simp
  then have "\<exists>st' out. handle_data sample_delivered ?h [1, 2] = (st', Ok out)
      \<and> dt_inbound_repair_attempts st' = [(0, 8)] \<and> dt_reliability st' = sample_config"
    using ins by (simp add: handle_data_def Let_def sample_delivered_def sample_session_def session_new_def
        take_acknowledged_def om_keys_def clear_acknowledged_def buffer_new_def)
  then obtain st' out where hd: "handle_data sample_delivered ?h [1, 2] = (st', Ok out)"
    and att: "dt_inbound_repair_attempts st' = [(0, 8)]" "dt_reliability st' = sample_config" by blast
  have run: "handle_datagram sample_delivered (packet_enc (DP_Data ?h [1, 2])) = (st', Ok out)"
    using packet_codec.dec_enc [OF ok] hd
    by (simp add: handle_datagram_def sample_delivered_def sample_session_def session_new_def)
  have "om_get (rb_partial (dt_reassembly st')) 0 \<noteq> None
    \<and> snd (build_repair_requests st' (0 # [1])) = Err (RepairBudgetExceeded 0)"
    using late_duplicate_reopens_message [OF _ _ ok _ _ _ run, of "[1]"] att
    by (simp add: sample_delivered_def sample_session_def session_new_def buffer_new_def om_get_def
        sample_config_def default_reliability_def)
  with run show ?thesis by blast
qed

end
