(* ===== verification/Pulzz_Cursor.thy ===== *)
theory Pulzz_Cursor
  imports Pulzz_Prelude
begin

text \<open>
  Decoders of the kind \<open>read(bytes, &mut cursor)\<close>: they see the whole input and a position, and return a
  value with the next position.  \<open>spells bs c xs\<close> says that the bytes \<open>xs\<close> stand at position \<open>c\<close>; the
  locale \<open>cursor_codec\<close> states what a reader promises in these terms, and its lemmas give sequences of
  values and the uniqueness of the reading.
\<close>

definition spells :: "bytes \<Rightarrow> nat \<Rightarrow> bytes \<Rightarrow> bool" where
  "spells bs c xs \<longleftrightarrow> take (length xs) (drop c bs) = xs"

lemma spells_drop: "spells bs c xs \<longleftrightarrow> (\<exists>r. drop c bs = xs @ r)"
  unfolding spells_def by (metis append_eq_conv_conj append_take_drop_id)

lemma spells_Nil [simp]: "spells bs c []"
  by (simp add: spells_def)

lemma spells_append [simp]: "spells bs c (xs @ ys) \<longleftrightarrow> spells bs c xs \<and> spells bs (c + length xs) ys"
proof -
  have eq: "drop (c + length xs) bs = drop (length xs) (drop c bs)" by (simp add: add.commute)
  have "(\<exists>r. d = (xs @ ys) @ r) \<longleftrightarrow> (\<exists>r. d = xs @ r) \<and> (\<exists>r. drop (length xs) d = ys @ r)" for d
    by auto
  then show ?thesis unfolding spells_drop eq .
qed

lemma spells_Cons: "spells bs c (x # xs) \<longleftrightarrow> spells bs c [x] \<and> spells bs (Suc c) xs"
  using spells_append [of bs c "[x]" xs] by simp

lemma spells_length: "spells bs c xs \<Longrightarrow> xs \<noteq> [] \<Longrightarrow> c + length xs \<le> length bs"
  by (cases xs) (auto simp: spells_drop dest!: arg_cong [of _ _ length])

lemma spells_slice: "spells bs c xs \<longleftrightarrow> slice c (c + length xs) bs = xs"
  by (simp add: spells_def slice_def)

lemma spells_rest: "spells bs c xs \<Longrightarrow> drop c bs = xs @ drop (c + length xs) bs"
  unfolding spells_def by (metis append_take_drop_id drop_drop add.commute)

lemma spells_whole: "spells bs 0 xs \<and> length xs = length bs \<longleftrightarrow> bs = xs"
  by (auto simp: spells_def)

lemma spells_unique: "spells bs c xs \<Longrightarrow> spells bs c ys \<Longrightarrow> length xs = length ys \<Longrightarrow> xs = ys"
  by (simp add: spells_def)

lemma spells_here [simp]: "spells (pre @ xs @ post) (length pre) xs"
  by (simp add: spells_def)

lemma spells_self: "spells (xs @ post) 0 xs"
  by (simp add: spells_def)

text \<open>A fixed-width field: reading it is decoding the slice under the cursor.\<close>

lemma spells_field:
  assumes "length (enc w) = n" and "val (enc w) = w" and "0 < n"
    and "\<And>p. length p = n \<Longrightarrow> enc (val p) = p"
  shows "spells bs c (enc w) \<longleftrightarrow> c + n \<le> length bs \<and> w = val (slice c (c + n) bs)"
proof
  assume s: "spells bs c (enc w)"
  moreover have "enc w \<noteq> []" using assms(1,3) by auto
  ultimately have "c + n \<le> length bs" using spells_length assms(1) by metis
  moreover have "slice c (c + n) bs = enc w" using s assms(1) by (simp add: spells_slice)
  ultimately show "c + n \<le> length bs \<and> w = val (slice c (c + n) bs)" using assms(2) by simp
next
  assume w: "c + n \<le> length bs \<and> w = val (slice c (c + n) bs)"
  then have "enc w = slice c (c + n) bs" using assms(4) by simp
  then show "spells bs c (enc w)" using assms(1) by (simp add: spells_slice)
qed

lemma spells_u8: "spells bs c [w] \<longleftrightarrow> c + 1 \<le> length bs \<and> w = bs ! c"
proof
  assume s: "spells bs c [w]"
  then have "c < length bs" using spells_length [of bs c "[w]"] by simp
  with s show "c + 1 \<le> length bs \<and> w = bs ! c" by (simp add: spells_slice slice_single)
qed (simp add: spells_slice slice_single)

lemma spells_le16: "spells bs c (le16 w) \<longleftrightarrow> c + 2 \<le> length bs \<and> w = of_le16 (slice c (c + 2) bs)"
  by (rule spells_field) (simp_all add: wire_simps)

lemma spells_le32: "spells bs c (le32 v) \<longleftrightarrow> c + 4 \<le> length bs \<and> v = of_le32 (slice c (c + 4) bs)"
  by (rule spells_field) (simp_all add: wire_simps)

lemma spells_le64: "spells bs c (le64 u) \<longleftrightarrow> c + 8 \<le> length bs \<and> u = of_le64 (slice c (c + 8) bs)"
  by (rule spells_field) (simp_all add: wire_simps)

section \<open>Readers\<close>

type_synonym ('e, 'a) reader = "bytes \<Rightarrow> nat \<Rightarrow> 'e + 'a \<times> nat"

fun read_many :: "('e, 'a) reader \<Rightarrow> nat \<Rightarrow> ('e, 'a list) reader" where
  "read_many r 0 bs c = Ok ([], c)"
| "read_many r (Suc n) bs c =
     and_then (r bs c) (\<lambda>(x, c'). and_then (read_many r n bs c') (\<lambda>(xs, c''). Ok (x # xs, c'')))"

lemma read_many_Suc_iff:
  "read_many r (Suc n) bs c = Ok (xs, c'') \<longleftrightarrow>
    (\<exists>x c' ys. r bs c = Ok (x, c') \<and> read_many r n bs c' = Ok (ys, c'') \<and> xs = x # ys)"
  by (simp add: split_def) (metis prod.collapse)

text \<open>
  A reader promises to return the valid value whose encoding stands at the cursor, and to move the
  cursor behind it.
\<close>

locale cursor_codec =
  fixes enc :: "'a \<Rightarrow> bytes"
    and read :: "bytes \<Rightarrow> nat \<Rightarrow> 'e + 'a \<times> nat"
    and valid :: "'a \<Rightarrow> bool"
  assumes read_iff: "read bs c = Ok (x, c') \<longleftrightarrow> valid x \<and> spells bs c (enc x) \<and> c' = c + length (enc x)"
begin

lemma read_enc: "valid x \<Longrightarrow> read (pre @ enc x @ post) (length pre) = Ok (x, length pre + length (enc x))"
  by (simp add: read_iff)

lemma read_unique: "valid x \<Longrightarrow> valid y \<Longrightarrow> spells bs c (enc x) \<Longrightarrow> spells bs c (enc y) \<Longrightarrow> x = y"
  using read_iff [of bs c x "c + length (enc x)"] read_iff [of bs c y "c + length (enc y)"] by simp

lemma read_many_iff:
  "read_many read n bs c = Ok (xs, c') \<longleftrightarrow>
    length xs = n \<and> (\<forall>x \<in> set xs. valid x) \<and> spells bs c (concat (map enc xs))
      \<and> c' = c + length (concat (map enc xs))"
proof (induction n arbitrary: c xs)
  case 0
  then show ?case by auto
next
  case (Suc n)
  show ?case
  proof (cases xs)
    case Nil
    then show ?thesis unfolding read_many_Suc_iff by simp
  next
    case (Cons y ys)
    have "read_many read (Suc n) bs c = Ok (xs, c') \<longleftrightarrow>
        (\<exists>d. read bs c = Ok (y, d) \<and> read_many read n bs d = Ok (ys, c'))"
      unfolding read_many_Suc_iff Cons by simp
    then show ?thesis unfolding Cons Suc.IH read_iff by (auto simp: add.assoc)
  qed
qed

lemma concat_prefix_free:
  assumes "\<forall>x \<in> set xs. valid x" and "\<forall>y \<in> set ys. valid y"
    and "length xs = length ys" and "concat (map enc xs) @ r = concat (map enc ys) @ s"
  shows "xs = ys"
proof -
  let ?bs = "concat (map enc xs) @ r"
  have "read_many read (length xs) ?bs 0 = Ok (xs, length (concat (map enc xs)))"
    using assms(1) spells_self by (simp add: read_many_iff)
  moreover have "read_many read (length xs) ?bs 0 = Ok (ys, length (concat (map enc ys)))"
    using assms(2,3) spells_self unfolding assms(4) by (simp add: read_many_iff)
  ultimately show ?thesis by simp
qed

end

end
