(* ===== verification/Pulzz_State_Program.thy ===== *)
theory Pulzz_State_Program
  imports Pulzz_Cursor Pulzz_Protocol
begin

text \<open>
  State programs (\<open>shared_protocol/src/state.rs\<close>): a payload described as references into material the
  peer already has, edit operations and residual bytes.  The theory has the data, the binary format
  and the interpreter \<open>decode_exact_bytes\<close>; the lookup of a base is a parameter, as in the code.
\<close>

section \<open>Types\<close>

definition STATE_PROGRAM_VERSION :: u8 where "STATE_PROGRAM_VERSION = 1"
definition MAX_STATE_REFS :: nat where "MAX_STATE_REFS = 1024"
definition MAX_STATE_OPS :: nat where "MAX_STATE_OPS = 1024"
definition MAX_STATE_INDICES_PER_REF :: nat where "MAX_STATE_INDICES_PER_REF = 32 * 1024"
definition STATE_PROGRAM_HEADER_LEN :: nat where "STATE_PROGRAM_HEADER_LEN = 1 + 1 + 2 + 2 + 4"
definition STATE_PROGRAM_REF_FIXED_LEN :: nat where "STATE_PROGRAM_REF_FIXED_LEN = 1 + 8 + 4 + 4 + 2 + 4"

lemmas state_program_limits =
  STATE_PROGRAM_VERSION_def MAX_STATE_REFS_def MAX_STATE_OPS_def MAX_STATE_INDICES_PER_REF_def
  STATE_PROGRAM_HEADER_LEN_def STATE_PROGRAM_REF_FIXED_LEN_def

datatype RefKind = RK_Block | RK_Range | RK_StridedRange | RK_IndexSet | RK_Bundle | RK_PriorState

fun RefKind_tag :: "RefKind \<Rightarrow> u8" where
  "RefKind_tag RK_Block = 1"
| "RefKind_tag RK_Range = 2"
| "RefKind_tag RK_StridedRange = 3"
| "RefKind_tag RK_IndexSet = 4"
| "RefKind_tag RK_Bundle = 5"
| "RefKind_tag RK_PriorState = 6"

definition RefKind_from_tag :: "u8 \<Rightarrow> RefKind option" where
  "RefKind_from_tag tag =
     (if tag = 1 then Some RK_Block
      else if tag = 2 then Some RK_Range
      else if tag = 3 then Some RK_StridedRange
      else if tag = 4 then Some RK_IndexSet
      else if tag = 5 then Some RK_Bundle
      else if tag = 6 then Some RK_PriorState
      else None)"

lemma RefKind_from_tag_iff: "RefKind_from_tag b = Some k \<longleftrightarrow> b = RefKind_tag k"
  by (cases k) (auto simp: RefKind_from_tag_def)

record StateRef =
  sr_kind :: RefKind
  sr_base_id :: u64
  sr_start :: u32
  sr_len :: u32
  sr_step :: u16
  sr_indices :: "u32 list"

definition plain_ref :: "RefKind \<Rightarrow> u64 \<Rightarrow> u32 \<Rightarrow> u32 \<Rightarrow> StateRef" where
  "plain_ref kind base_id start len =
     \<lparr>sr_kind = kind, sr_base_id = base_id, sr_start = start, sr_len = len, sr_step = 1, sr_indices = []\<rparr>"

definition ref_block :: "ItemId \<Rightarrow> u32 \<Rightarrow> u32 \<Rightarrow> StateRef" where "ref_block = plain_ref RK_Block"
definition ref_catalog_block :: "u64 \<Rightarrow> u32 \<Rightarrow> u32 \<Rightarrow> StateRef" where "ref_catalog_block = plain_ref RK_Block"
definition ref_range :: "u64 \<Rightarrow> u32 \<Rightarrow> u32 \<Rightarrow> StateRef" where "ref_range = plain_ref RK_Range"
definition ref_bundle :: "u64 \<Rightarrow> u32 \<Rightarrow> u32 \<Rightarrow> StateRef" where "ref_bundle = plain_ref RK_Bundle"
definition ref_prior_state :: "ItemId \<Rightarrow> u32 \<Rightarrow> u32 \<Rightarrow> StateRef" where "ref_prior_state = plain_ref RK_PriorState"

definition ref_strided_range :: "u64 \<Rightarrow> u32 \<Rightarrow> u32 \<Rightarrow> u16 \<Rightarrow> StateRef" where
  "ref_strided_range block_id start len step =
     \<lparr>sr_kind = RK_StridedRange, sr_base_id = block_id, sr_start = start, sr_len = len, sr_step = step,
      sr_indices = []\<rparr>"

definition ref_index_set :: "ItemId \<Rightarrow> u32 \<Rightarrow> u32 list \<Rightarrow> StateRef" where
  "ref_index_set item_id start indices =
     \<lparr>sr_kind = RK_IndexSet, sr_base_id = item_id, sr_start = start, sr_len = of_nat (length indices),
      sr_step = 1, sr_indices = indices\<rparr>"

definition ref_encoded_len_estimate :: "StateRef \<Rightarrow> nat" where
  "ref_encoded_len_estimate r = STATE_PROGRAM_REF_FIXED_LEN + length (sr_indices r) * 4"

definition ref_is_catalog_backed :: "StateRef \<Rightarrow> bool" where
  "ref_is_catalog_backed r \<longleftrightarrow>
     sr_kind r \<in> {RK_Block, RK_Range, RK_StridedRange, RK_IndexSet, RK_Bundle}"

datatype StateOp =
    Op_Concat
  | Op_Patch (op_offset: u32) (op_remove_len: u32) (op_residual_offset: u32) (op_residual_len: u32)
  | Op_Take (op_start: u32) (op_len: u32)
  | Op_Drop (op_start: u32) (op_len: u32)

fun op_encoded_len_estimate :: "StateOp \<Rightarrow> nat" where
  "op_encoded_len_estimate Op_Concat = 1"
| "op_encoded_len_estimate (Op_Patch _ _ _ _) = 1 + 4 + 4 + 4 + 4"
| "op_encoded_len_estimate (Op_Take _ _) = 1 + 4 + 4"
| "op_encoded_len_estimate (Op_Drop _ _) = 1 + 4 + 4"

record StateProgram =
  pg_version :: u8
  pg_source_kind :: SourceKind
  pg_refs :: "StateRef list"
  pg_ops :: "StateOp list"
  pg_residual :: bytes

definition program_new :: "SourceKind \<Rightarrow> StateRef list \<Rightarrow> StateOp list \<Rightarrow> bytes \<Rightarrow> StateProgram" where
  "program_new kind refs ops residual =
     \<lparr>pg_version = STATE_PROGRAM_VERSION, pg_source_kind = kind, pg_refs = refs, pg_ops = ops,
      pg_residual = residual\<rparr>"

definition residual_only :: "SourceKind \<Rightarrow> bytes \<Rightarrow> StateProgram" where
  "residual_only kind bs = program_new kind [] [] bs"

definition concat_only :: "SourceKind \<Rightarrow> StateRef list \<Rightarrow> StateProgram" where
  "concat_only kind refs = program_new kind refs [Op_Concat] []"

definition concat_with_residual :: "SourceKind \<Rightarrow> StateRef list \<Rightarrow> bytes \<Rightarrow> StateProgram" where
  "concat_with_residual kind refs residual = program_new kind refs [] residual"

definition single_ref_patch :: "SourceKind \<Rightarrow> StateRef \<Rightarrow> StateOp list \<Rightarrow> bytes \<Rightarrow> StateProgram" where
  "single_ref_patch kind reference ops residual = program_new kind [reference] ops residual"

definition program_encoded_len_estimate :: "StateProgram \<Rightarrow> nat" where
  "program_encoded_len_estimate p =
     STATE_PROGRAM_HEADER_LEN + sum_list (map ref_encoded_len_estimate (pg_refs p))
       + sum_list (map op_encoded_len_estimate (pg_ops p)) + length (pg_residual p)"

text \<open>The ids a program needs, as \<open>BTreeSet\<close>s: without repetition and in increasing order.\<close>

definition referenced_ids :: "RefKind set \<Rightarrow> StateProgram \<Rightarrow> u64 list" where
  "referenced_ids kinds p =
     om_keys (fold (\<lambda>r ids. if sr_kind r \<in> kinds then om_insert (sr_base_id r) () ids else ids) (pg_refs p) [])"

definition referenced_catalog_blocks :: "StateProgram \<Rightarrow> u64 list" where
  "referenced_catalog_blocks = referenced_ids {RK_Block, RK_Range, RK_StridedRange, RK_IndexSet}"

definition referenced_bundles :: "StateProgram \<Rightarrow> u64 list" where
  "referenced_bundles = referenced_ids {RK_Bundle}"

definition referenced_prior_states :: "StateProgram \<Rightarrow> u64 list" where
  "referenced_prior_states = referenced_ids {RK_PriorState}"

definition has_catalog_dependencies :: "StateProgram \<Rightarrow> bool" where
  "has_catalog_dependencies p = list_ex ref_is_catalog_backed (pg_refs p)"

definition has_prior_state_dependencies :: "StateProgram \<Rightarrow> bool" where
  "has_prior_state_dependencies p = list_ex (\<lambda>r. sr_kind r = RK_PriorState) (pg_refs p)"

section \<open>Errors\<close>

datatype PrgNodeKind =
    PN_Literal | PN_AtomRef | PN_RangeRef | PN_BundleRef | PN_AssemblyRef | PN_TransformRef
  | PN_EpisodeRef | PN_SchemaRef | PN_Concat | PN_Patch | PN_Repeat | PN_Select | PN_Permute
  | PN_SlotFill | PN_Expand | PN_Guard | PN_Branch | PN_Commit | PN_Noop

text \<open>
  \<open>StateProgramError\<close> has fifty variants.  One constructor stands for each; the variants of the transform,
  graph and payload layers are grouped in datatypes of their own.
\<close>

datatype TransformStateError =
    TransformPayloadSerialization string
  | InvalidTransformPayloadVersion u8
  | TransformResidualContractMismatch nat nat
  | MissingTransformBasis ObjectKind string
  | TransformBasisKindMismatch TransformKind
  | InvalidTransformArity TransformKind
  | InvalidTransformParameter TransformKind
  | TransformOutputLenMismatch u32 u32
  | TransformOutputLenContract u32 u32 u32

datatype PrgStateError =
    InvalidPrgVersion u8
  | PrgSerialization string
  | PrgNodeCountMismatch nat nat
  | PrgMissingRoot u32
  | PrgMissingNode u32
  | PrgMissingChild u32
  | PrgMissingDependency string
  | PrgMissingReference u32 PrgNodeKind
  | PrgCycleDetected u32
  | PrgDepthExceeded u8 u8
  | PrgNodeOutputLenMismatch u32 u32 u32
  | PrgOutputLenMismatch u32 u32

datatype PayloadStateError =
    PredictiveRouteInflation nat nat
  | InvalidSchemaPayloadVersion u8
  | SchemaPayloadSerialization string
  | InvalidAssemblyPayloadVersion u8
  | AssemblyPayloadSerialization string
  | InvalidEpisodePayloadVersion u8
  | EpisodePayloadSerialization string
  | MissingAssemblyComponent ObjectKind string
  | InvalidPredictiveDispatchVersion u8
  | InvalidPredictiveRouteContract ControllerRouteFamily RouteFamily RouteFamily
  | InvalidPredictiveDispatchContract string
  | PredictiveDispatchSerialization string

datatype StateProgramError =
    SE_TruncatedPayload (se_minimum: nat) (se_actual: nat)
  | SE_TrailingBytes nat
  | SE_InvalidVersion u8
  | SE_UnknownSourceKind u8
  | SE_UnknownRefKind u8
  | SE_UnknownOp u8
  | SE_TooManyRefs nat
  | SE_TooManyOps nat
  | SE_TooManyIndices nat
  | SE_InvalidStep
  | SE_MissingBase u64
  | SE_UnsupportedRefKind RefKind
  | SE_InvalidRefRange u32 u32 nat
  | SE_InvalidRefIndex u32 nat
  | SE_InvalidPatchRange u32 u32
  | SE_InvalidResidualRange u32 u32
  | SE_InvalidTakeRange u32 u32
  | SE_InvalidDropRange u32 u32
  | SE_Transform TransformStateError
  | SE_Prg PrgStateError
  | SE_Payload PayloadStateError

section \<open>Reading fields\<close>

definition read_u8 :: "(StateProgramError, u8) reader" where
  "read_u8 bs c =
     (if length bs - c < 1 then Err (SE_TruncatedPayload (c + 1) (length bs)) else Ok (bs ! c, c + 1))"

definition read_u16 :: "(StateProgramError, u16) reader" where
  "read_u16 bs c =
     (if length bs - c < 2 then Err (SE_TruncatedPayload (c + 2) (length bs))
      else Ok (of_le16 (slice c (c + 2) bs), c + 2))"

definition read_u32 :: "(StateProgramError, u32) reader" where
  "read_u32 bs c =
     (if length bs - c < 4 then Err (SE_TruncatedPayload (c + 4) (length bs))
      else Ok (of_le32 (slice c (c + 4) bs), c + 4))"

definition read_u64 :: "(StateProgramError, u64) reader" where
  "read_u64 bs c =
     (if length bs - c < 8 then Err (SE_TruncatedPayload (c + 8) (length bs))
      else Ok (of_le64 (slice c (c + 8) bs), c + 8))"

lemma read_u8_iff: "read_u8 bs c = Ok (w, c') \<longleftrightarrow> spells bs c [w] \<and> c' = c + 1"
  by (auto simp: read_u8_def spells_u8)

lemma read_u16_iff: "read_u16 bs c = Ok (w, c') \<longleftrightarrow> spells bs c (le16 w) \<and> c' = c + 2"
  by (auto simp: read_u16_def spells_le16)

lemma read_u32_iff: "read_u32 bs c = Ok (w, c') \<longleftrightarrow> spells bs c (le32 w) \<and> c' = c + 4"
  by (auto simp: read_u32_def spells_le32)

lemma read_u64_iff: "read_u64 bs c = Ok (w, c') \<longleftrightarrow> spells bs c (le64 w) \<and> c' = c + 8"
  by (auto simp: read_u64_def spells_le64)

lemmas read_iffs = read_u8_iff read_u16_iff read_u32_iff read_u64_iff

interpretation u32_reader: cursor_codec le32 read_u32 "\<lambda>_. True"
  by unfold_locales (simp add: read_u32_iff)

section \<open>Encoding\<close>

definition ref_bytes :: "StateRef \<Rightarrow> bytes" where
  "ref_bytes r =
     [RefKind_tag (sr_kind r)] @ le64 (sr_base_id r) @ le32 (sr_start r) @ le32 (sr_len r)
     @ le16 (sr_step r) @ le32 (of_nat (length (sr_indices r))) @ concat (map le32 (sr_indices r))"

fun op_bytes :: "StateOp \<Rightarrow> bytes" where
  "op_bytes Op_Concat = [1]"
| "op_bytes (Op_Patch offset remove_len residual_offset residual_len) =
     [2] @ le32 offset @ le32 remove_len @ le32 residual_offset @ le32 residual_len"
| "op_bytes (Op_Take start len) = [3] @ le32 start @ le32 len"
| "op_bytes (Op_Drop start len) = [4] @ le32 start @ le32 len"

text \<open>\<open>checked_range\<close>: the half-open range, if it lies inside the material.\<close>

definition checked_range :: "nat \<Rightarrow> u32 \<Rightarrow> u32 \<Rightarrow> (nat \<times> nat) option" where
  "checked_range total_len start len =
     (let start = unat start; end = start + unat len in
      if start \<le> total_len \<and> end \<le> total_len then Some (start, end) else None)"

definition validate_ref :: "StateRef \<Rightarrow> StateProgramError + unit" where
  "validate_ref r =
     (if length (sr_indices r) > MAX_STATE_INDICES_PER_REF
      then Err (SE_TooManyIndices (length (sr_indices r)))
      else if sr_kind r = RK_StridedRange \<and> sr_step r = 0 then Err SE_InvalidStep
      else if sr_kind r = RK_IndexSet \<and> sr_len r \<noteq> 0 \<and> unat (sr_len r) > length (sr_indices r)
      then Err (SE_InvalidRefRange (sr_start r) (sr_len r) (length (sr_indices r)))
      else Ok ())"

fun validate_op :: "nat \<Rightarrow> StateOp \<Rightarrow> StateProgramError + unit" where
  "validate_op residual_total Op_Concat = Ok ()"
| "validate_op residual_total (Op_Patch offset remove_len residual_offset residual_len) =
     and_then (ok_or (SE_InvalidResidualRange residual_offset residual_len)
       (checked_range residual_total residual_offset residual_len)) (\<lambda>_. Ok ())"
| "validate_op residual_total (Op_Take start len) = Ok ()"
| "validate_op residual_total (Op_Drop start len) = Ok ()"

definition program_validate :: "StateProgram \<Rightarrow> StateProgramError + unit" where
  "program_validate p =
     (if pg_version p \<noteq> STATE_PROGRAM_VERSION then Err (SE_InvalidVersion (pg_version p))
      else if length (pg_refs p) > MAX_STATE_REFS then Err (SE_TooManyRefs (length (pg_refs p)))
      else if length (pg_ops p) > MAX_STATE_OPS then Err (SE_TooManyOps (length (pg_ops p)))
      else and_then (try_each validate_ref (pg_refs p)) (\<lambda>_.
        try_each (validate_op (length (pg_residual p))) (pg_ops p)))"

definition program_bytes :: "StateProgram \<Rightarrow> bytes" where
  "program_bytes p =
     [pg_version p] @ [SourceKind_tag (pg_source_kind p)] @ le16 (of_nat (length (pg_refs p)))
     @ le16 (of_nat (length (pg_ops p))) @ le32 (of_nat (length (pg_residual p)))
     @ concat (map ref_bytes (pg_refs p)) @ concat (map op_bytes (pg_ops p)) @ pg_residual p"

definition program_encode :: "StateProgram \<Rightarrow> StateProgramError + bytes" where
  "program_encode p = and_then (program_validate p) (\<lambda>_. Ok (program_bytes p))"

section \<open>Decoding\<close>

definition read_ref :: "(StateProgramError, StateRef) reader" where
  "read_ref bs c =
     and_then (read_u8 bs c) (\<lambda>(kind_tag, c).
     and_then (ok_or (SE_UnknownRefKind kind_tag) (RefKind_from_tag kind_tag)) (\<lambda>kind.
     and_then (read_u64 bs c) (\<lambda>(base_id, c).
     and_then (read_u32 bs c) (\<lambda>(start, c).
     and_then (read_u32 bs c) (\<lambda>(len, c).
     and_then (read_u16 bs c) (\<lambda>(step, c).
     and_then (read_u32 bs c) (\<lambda>(indices_len, c).
       if unat indices_len > MAX_STATE_INDICES_PER_REF then Err (SE_TooManyIndices (unat indices_len))
       else and_then (read_many read_u32 (unat indices_len) bs c) (\<lambda>(indices, c).
         Ok (\<lparr>sr_kind = kind, sr_base_id = base_id, sr_start = start, sr_len = len, sr_step = step,
              sr_indices = indices\<rparr>, c)))))))))"

definition read_op :: "(StateProgramError, StateOp) reader" where
  "read_op bs c =
     and_then (read_u8 bs c) (\<lambda>(tag, c).
       if tag = 1 then Ok (Op_Concat, c)
       else if tag = 2 then
         and_then (read_u32 bs c) (\<lambda>(offset, c).
         and_then (read_u32 bs c) (\<lambda>(remove_len, c).
         and_then (read_u32 bs c) (\<lambda>(residual_offset, c).
         and_then (read_u32 bs c) (\<lambda>(residual_len, c).
           Ok (Op_Patch offset remove_len residual_offset residual_len, c)))))
       else if tag = 3 then
         and_then (read_u32 bs c) (\<lambda>(start, c).
         and_then (read_u32 bs c) (\<lambda>(len, c). Ok (Op_Take start len, c)))
       else if tag = 4 then
         and_then (read_u32 bs c) (\<lambda>(start, c).
         and_then (read_u32 bs c) (\<lambda>(len, c). Ok (Op_Drop start len, c)))
       else Err (SE_UnknownOp tag))"

definition read_residual :: "nat \<Rightarrow> (StateProgramError, bytes) reader" where
  "read_residual residual_len bs c =
     (if length bs - c < residual_len
      then Err (SE_TruncatedPayload (c + residual_len) (length bs))
      else let residual = slice c (c + residual_len) bs; c = c + residual_len in
        if c \<noteq> length bs then Err (SE_TrailingBytes (length bs - c)) else Ok (residual, c))"

definition program_decode :: "bytes \<Rightarrow> StateProgramError + StateProgram" where
  "program_decode bs =
     (if length bs < STATE_PROGRAM_HEADER_LEN
      then Err (SE_TruncatedPayload STATE_PROGRAM_HEADER_LEN (length bs))
      else
       and_then (read_u8 bs 0) (\<lambda>(version, c).
       if version \<noteq> STATE_PROGRAM_VERSION then Err (SE_InvalidVersion version) else
       and_then (read_u8 bs c) (\<lambda>(source_kind_tag, c).
       and_then (map_err SE_UnknownSourceKind (SourceKind_from_tag source_kind_tag)) (\<lambda>source_kind.
       and_then (read_u16 bs c) (\<lambda>(refs_len, c).
       and_then (read_u16 bs c) (\<lambda>(ops_len, c).
       and_then (read_u32 bs c) (\<lambda>(residual_len, c).
       if unat refs_len > MAX_STATE_REFS then Err (SE_TooManyRefs (unat refs_len))
       else if unat ops_len > MAX_STATE_OPS then Err (SE_TooManyOps (unat ops_len))
       else
       and_then (read_many read_ref (unat refs_len) bs c) (\<lambda>(refs, c).
       and_then (read_many read_op (unat ops_len) bs c) (\<lambda>(ops, c).
       and_then (read_residual (unat residual_len) bs c) (\<lambda>(residual, c).
       let program = \<lparr>pg_version = version, pg_source_kind = source_kind, pg_refs = refs, pg_ops = ops,
                      pg_residual = residual\<rparr> in
       and_then (program_validate program) (\<lambda>_. Ok program)))))))))))"

section \<open>The format is canonical\<close>

definition ref_wire_ok :: "StateRef \<Rightarrow> bool" where
  "ref_wire_ok r \<longleftrightarrow> length (sr_indices r) \<le> MAX_STATE_INDICES_PER_REF"

lemma length_concat_le32 [simp]: "length (concat (map le32 ws)) = 4 * length ws"
  by (induction ws) simp_all

lemma unat_index_count:
  "n \<le> MAX_STATE_INDICES_PER_REF \<Longrightarrow> unat (of_nat n :: u32) = n"
  by (simp add: unat_of_nat_u32 MAX_STATE_INDICES_PER_REF_def)

lemma read_ref_iff:
  "read_ref bs c = Ok (r, c') \<longleftrightarrow> ref_wire_ok r \<and> spells bs c (ref_bytes r) \<and> c' = c + length (ref_bytes r)"
proof (cases r)
  case (fields kind base_id start len step indices)
  have "read_ref bs c = Ok (r, c') \<longleftrightarrow>
    (\<exists>n. unat n \<le> MAX_STATE_INDICES_PER_REF \<and> length indices = unat n \<and> spells bs (19 + c) (le32 n))
    \<and> spells bs c (RefKind_tag kind # le64 base_id @ le32 start @ le32 len @ le16 step)
    \<and> spells bs (23 + c) (concat (map le32 indices)) \<and> c' = 23 + c + 4 * length indices"
    unfolding fields
    by (simp add: read_ref_def read_iffs u32_reader.read_many_iff RefKind_from_tag_iff
      split_def not_less spells_Cons [of _ _ _ "_ @ _"]
      eq_commute [of _ c']) blast
  also have "(\<exists>n. unat n \<le> MAX_STATE_INDICES_PER_REF \<and> length indices = unat n \<and> spells bs (19 + c) (le32 n))
    \<longleftrightarrow> length indices \<le> MAX_STATE_INDICES_PER_REF \<and> spells bs (19 + c) (le32 (of_nat (length indices)))"
    using unat_index_count [of "length indices"] by (auto intro!: exI [of _ "of_nat (length indices) :: u32"])
  finally show ?thesis
    unfolding fields by (auto simp: ref_bytes_def ref_wire_ok_def spells_Cons [of _ _ _ "_ @ _"])
qed

interpretation ref_reader: cursor_codec ref_bytes read_ref ref_wire_ok
  by unfold_locales (rule read_ref_iff)

lemma spells_one: "spells bs c [a] \<Longrightarrow> spells bs c [b] \<longleftrightarrow> b = a"
  by (auto simp: spells_u8)

lemma read_op_iff: "read_op bs c = Ok (x, c') \<longleftrightarrow> spells bs c (op_bytes x) \<and> c' = c + length (op_bytes x)"
proof (cases "\<exists>tag. spells bs c [tag]")
  case False
  then show ?thesis
    by (cases x) (auto simp: read_op_def read_iffs spells_Cons [of _ _ _ "_ @ _"])
next
  case True
  then obtain tag where tag: "spells bs c [tag]" ..
  then have "read_u8 bs c = Ok (tag, c + 1)" by (simp add: read_u8_iff)
  then show ?thesis
    by (cases x) (auto simp: read_op_def read_iffs split_def spells_one [OF tag]
        spells_Cons [of _ _ _ "_ @ _"])
qed

interpretation op_reader: cursor_codec op_bytes read_op "\<lambda>_. True"
  by unfold_locales (simp add: read_op_iff)

lemma read_residual_iff:
  "c \<le> length bs \<Longrightarrow> read_residual n bs c = Ok (rs, c') \<longleftrightarrow>
    length rs = n \<and> spells bs c rs \<and> c' = length bs \<and> length bs = c + n"
  by (auto simp: read_residual_def spells_slice Let_def)

lemma program_validate_limits:
  assumes "program_validate p = Ok ()"
  shows "pg_version p = STATE_PROGRAM_VERSION" and "length (pg_refs p) \<le> MAX_STATE_REFS"
    and "length (pg_ops p) \<le> MAX_STATE_OPS" and "\<forall>r \<in> set (pg_refs p). validate_ref r = Ok ()"
    and "\<forall>x \<in> set (pg_ops p). validate_op (length (pg_residual p)) x = Ok ()"
  using assms by (auto simp: program_validate_def split: if_splits)

lemma validate_ref_wire_ok: "validate_ref r = Ok () \<Longrightarrow> ref_wire_ok r"
  by (auto simp: validate_ref_def ref_wire_ok_def split: if_splits)

lemma spells_end: "spells bs c xs \<Longrightarrow> c \<le> length bs \<Longrightarrow> c + length xs \<le> length bs"
  by (cases "xs = []") (auto dest: spells_length)

definition program_head :: "StateProgram \<Rightarrow> bytes" where
  "program_head p =
     [pg_version p] @ [SourceKind_tag (pg_source_kind p)] @ le16 (of_nat (length (pg_refs p)))
     @ le16 (of_nat (length (pg_ops p))) @ le32 (of_nat (length (pg_residual p)))"

lemma length_program_head [simp]: "length (program_head p) = STATE_PROGRAM_HEADER_LEN"
  by (simp add: program_head_def STATE_PROGRAM_HEADER_LEN_def)

lemma program_bytes_parts:
  "program_bytes p =
     program_head p @ concat (map ref_bytes (pg_refs p)) @ concat (map op_bytes (pg_ops p)) @ pg_residual p"
  by (simp add: program_bytes_def program_head_def)

text \<open>Both directions of the format, with the two counts and the residual length as the code casts them.\<close>

lemma program_decode_sound:
  assumes dec: "program_decode bs = Ok p"
  shows "program_validate p = Ok () \<and> length (pg_residual p) < 2 ^ 32 \<and> bs = program_bytes p"
proof -
  obtain version kind refs ops residual where p: "p = \<lparr>pg_version = version, pg_source_kind = kind,
      pg_refs = refs, pg_ops = ops, pg_residual = residual\<rparr>" by (cases p)
  from dec obtain refs_len ops_len residual_len c c' e where
    val: "program_validate p = Ok ()" and long: "10 \<le> length bs" and
    head: "spells bs 0 [version]" "spells bs (Suc 0) [SourceKind_tag kind]" "spells bs (Suc (Suc 0)) (le16 refs_len)"
      "spells bs (Suc (Suc (Suc (Suc 0)))) (le16 ops_len)"
      "spells bs (Suc (Suc (Suc (Suc (Suc (Suc 0)))))) (le32 residual_len)" and
    refs: "read_many read_ref (unat refs_len) bs 10 = Ok (refs, c)" and
    ops: "read_many read_op (unat ops_len) bs c = Ok (ops, c')" and
    res: "read_residual (unat residual_len) bs c' = Ok (residual, e)"
    unfolding program_decode_def p
    by (auto simp: read_iffs SourceKind_from_tag_iff not_less Let_def spells_Cons [of _ _ _ "_ @ _"]
        STATE_PROGRAM_HEADER_LEN_def split: if_splits)
  note refs = refs [unfolded ref_reader.read_many_iff] and ops = ops [unfolded op_reader.read_many_iff]
  have "c \<le> length bs" using refs spells_end long by blast
  then have "c' \<le> length bs" using ops spells_end by blast
  note res = res [unfolded read_residual_iff [OF this]]
  have counts: "refs_len = of_nat (length refs)" "ops_len = of_nat (length ops)"
    "residual_len = of_nat (length residual)" using refs ops res by simp_all
  have "spells bs 0 (program_bytes p)" and "length (program_bytes p) = length bs"
    using head refs ops res unfolding counts p
    by (simp_all add: program_bytes_def spells_Cons [of _ _ _ "_ @ _"] spells_Cons [of _ _ _ "_ # _"])
  then have "bs = program_bytes p" using spells_whole by blast
  moreover have "length residual < 2 ^ 32"
    using res unsigned_less [of residual_len, where 'a = nat] by simp
  ultimately show ?thesis using val p by simp
qed

lemma program_decode_complete:
  assumes val: "program_validate p = Ok ()" and small: "length (pg_residual p) < 2 ^ 32"
  shows "program_decode (program_bytes p) = Ok p"
proof -
  let ?bs = "program_bytes p"
  let ?refs = "concat (map ref_bytes (pg_refs p))" and ?ops = "concat (map op_bytes (pg_ops p))"
  note lim = program_validate_limits [OF val]
  have counts: "unat (of_nat (length (pg_refs p)) :: u16) = length (pg_refs p)"
    "unat (of_nat (length (pg_ops p)) :: u16) = length (pg_ops p)"
    "unat (of_nat (length (pg_residual p)) :: u32) = length (pg_residual p)"
    using lim(2,3) small unat_of_nat_u16 unat_of_nat_u32 by (simp_all add: state_program_limits)
  have sp: "spells ?bs 0 ?bs" and len: "length ?bs = 10 + length ?refs + length ?ops + length (pg_residual p)"
    by (simp_all add: spells_def program_bytes_def)
  from sp have head: "spells ?bs 0 (program_head p)" and refs: "spells ?bs 10 ?refs"
    and ops: "spells ?bs (10 + length ?refs) ?ops"
    and res: "spells ?bs (10 + length ?refs + length ?ops) (pg_residual p)"
    by (simp_all only: program_bytes_parts [of p] spells_append length_program_head STATE_PROGRAM_HEADER_LEN_def)
       (simp_all add: add.assoc)
  have r1: "read_many read_ref (length (pg_refs p)) ?bs 10 = Ok (pg_refs p, 10 + length ?refs)"
    unfolding ref_reader.read_many_iff using refs lim(4) validate_ref_wire_ok by blast
  have r2: "read_many read_op (length (pg_ops p)) ?bs (10 + length ?refs) =
      Ok (pg_ops p, 10 + length ?refs + length ?ops)"
    unfolding op_reader.read_many_iff using ops by blast
  have r3: "read_residual (length (pg_residual p)) ?bs (10 + length ?refs + length ?ops) =
      Ok (pg_residual p, length ?bs)"
    by (subst read_residual_iff) (use res len in auto)
  have f: "read_u8 ?bs 0 = Ok (pg_version p, 1)" "read_u8 ?bs (Suc 0) = Ok (SourceKind_tag (pg_source_kind p), 2)"
    "read_u16 ?bs 2 = Ok (of_nat (length (pg_refs p)), 4)" "read_u16 ?bs 4 = Ok (of_nat (length (pg_ops p)), 6)"
    "read_u32 ?bs 6 = Ok (of_nat (length (pg_residual p)), 10)"
    using head by (simp_all add: read_iffs program_head_def spells_Cons [of _ _ _ "_ @ _"] spells_Cons [of _ _ _ "_ # _"]
      eval_nat_numeral)
  have same: "\<lparr>pg_version = STATE_PROGRAM_VERSION, pg_source_kind = pg_source_kind p, pg_refs = pg_refs p,
      pg_ops = pg_ops p, pg_residual = pg_residual p\<rparr> = p" using lim(1) by (cases p) simp
  show ?thesis
    using len lim(1,2,3) val
    by (simp add: program_decode_def f r1 r2 r3 counts same STATE_PROGRAM_HEADER_LEN_def Let_def
        del: and_then_Inr_iff)
qed

lemma program_decode_iff:
  "program_decode bs = Ok p \<longleftrightarrow>
    program_validate p = Ok () \<and> length (pg_residual p) < 2 ^ 32 \<and> bs = program_bytes p"
  using program_decode_sound program_decode_complete by blast

interpretation program_codec: canonical_codec program_bytes program_decode
    "\<lambda>p. program_validate p = Ok () \<and> length (pg_residual p) < 2 ^ 32"
  by unfold_locales (auto simp: program_decode_iff)

text \<open>C11: the binary format of state programs is canonical: decoding accepts exactly the bytes that encoding
  the returned program produces; only a residual of 4 GiB or more, whose length does not fit the 32-bit
  field, cannot be read back.\<close>

theorem state_program_bytes_canonical:
  shows "program_decode bs = Ok p \<longleftrightarrow> program_encode p = Ok bs \<and> length (pg_residual p) < 2 ^ 32"
  using program_codec.dec_iff [of bs p] by (auto simp: program_encode_def)

section \<open>Interpretation\<close>

text \<open>
  The base of a reference is looked up by \<open>resolve\<close>.  A strided range multiplies with saturation and adds
  with an overflow check; an index set adds with an overflow check.
\<close>

definition checked_add :: "u32 \<Rightarrow> u32 \<Rightarrow> u32 option" where
  "checked_add a b = (if unat a + unat b < 2 ^ 32 then Some (a + b) else None)"

definition byte_at :: "bytes \<Rightarrow> u32 \<Rightarrow> StateProgramError + u8" where
  "byte_at base offset =
     (if unat offset < length base then Ok (base ! unat offset)
      else Err (SE_InvalidRefIndex offset (length base)))"

definition strided_byte :: "StateRef \<Rightarrow> bytes \<Rightarrow> nat \<Rightarrow> StateProgramError + u8" where
  "strided_byte r base index =
     and_then (ok_or (SE_InvalidRefRange (sr_start r) (sr_len r) (length base))
       (checked_add (sr_start r) (saturating_mul (of_nat index) (ucast (sr_step r)))))
     (byte_at base)"

definition indexed_byte :: "StateRef \<Rightarrow> bytes \<Rightarrow> u32 \<Rightarrow> StateProgramError + u8" where
  "indexed_byte r base index =
     and_then (ok_or (SE_InvalidRefIndex index (length base)) (checked_add (sr_start r) index))
     (byte_at base)"

definition materialize_ref :: "StateRef \<Rightarrow> bytes \<Rightarrow> StateProgramError + bytes" where
  "materialize_ref r base =
     (case sr_kind r of
        RK_StridedRange \<Rightarrow>
          if sr_step r = 0 then Err SE_InvalidStep
          else try_map (strided_byte r base) [0..<unat (sr_len r)]
      | RK_IndexSet \<Rightarrow>
          let count = (if sr_len r = 0 then length (sr_indices r) else unat (sr_len r)) in
          if count > length (sr_indices r)
          then Err (SE_InvalidRefRange (sr_start r) (sr_len r) (length base))
          else try_map (indexed_byte r base) (take count (sr_indices r))
      | _ \<Rightarrow>
          and_then (ok_or (SE_InvalidRefRange (sr_start r) (sr_len r) (length base))
            (checked_range (length base) (sr_start r) (sr_len r)))
          (\<lambda>(start, end). Ok (slice start end base)))"

definition concat_refs :: "bytes list \<Rightarrow> bytes" where
  "concat_refs refs = concat refs"

definition checked_patch_range :: "nat \<Rightarrow> u32 \<Rightarrow> u32 \<Rightarrow> StateProgramError + nat \<times> nat" where
  "checked_patch_range total_len offset remove_len =
     ok_or (SE_InvalidPatchRange offset remove_len) (checked_range total_len offset remove_len)"

definition kernel_apply_patch :: "bytes \<Rightarrow> nat \<times> nat \<Rightarrow> bytes \<Rightarrow> bytes" where
  "kernel_apply_patch output rng replacement =
     take (fst rng) output @ replacement @ drop (snd rng) output"

definition apply_patch_op :: "bytes \<Rightarrow> bytes \<Rightarrow> u32 \<Rightarrow> u32 \<Rightarrow> u32 \<Rightarrow> u32 \<Rightarrow> StateProgramError + bytes" where
  "apply_patch_op output residual offset remove_len residual_offset residual_len =
     and_then (checked_patch_range (length output) offset remove_len) (\<lambda>output_range.
     and_then (ok_or (SE_InvalidResidualRange residual_offset residual_len)
       (checked_range (length residual) residual_offset residual_len)) (\<lambda>(start, end).
       Ok (kernel_apply_patch output output_range (slice start end residual))))"

fun run_op :: "bytes list \<Rightarrow> bytes \<Rightarrow> bytes \<Rightarrow> StateOp \<Rightarrow> StateProgramError + bytes" where
  "run_op refs residual output Op_Concat = Ok (concat_refs refs)"
| "run_op refs residual output (Op_Patch offset remove_len residual_offset residual_len) =
     apply_patch_op output residual offset remove_len residual_offset residual_len"
| "run_op refs residual output (Op_Take start len) =
     and_then (ok_or (SE_InvalidTakeRange start len) (checked_range (length output) start len))
       (\<lambda>(start, end). Ok (slice start end output))"
| "run_op refs residual output (Op_Drop start len) =
     and_then (ok_or (SE_InvalidDropRange start len) (checked_range (length output) start len))
       (\<lambda>(start, end). Ok (take start output @ drop end output))"

definition resolve_ref :: "(RefKind \<Rightarrow> u64 \<Rightarrow> bytes option) \<Rightarrow> StateRef \<Rightarrow> StateProgramError + bytes" where
  "resolve_ref resolve r =
     and_then (ok_or (SE_MissingBase (sr_base_id r)) (resolve (sr_kind r) (sr_base_id r)))
       (materialize_ref r)"

definition decode_exact_bytes ::
  "StateProgram \<Rightarrow> (RefKind \<Rightarrow> u64 \<Rightarrow> bytes option) \<Rightarrow> StateProgramError + bytes"
where
  "decode_exact_bytes p resolve =
     and_then (program_validate p) (\<lambda>_.
     and_then (try_map (resolve_ref resolve) (pg_refs p)) (\<lambda>materialized_refs.
     let output = concat_refs materialized_refs in
     if pg_ops p = [] then Ok (output @ pg_residual p)
     else try_fold (run_op materialized_refs (pg_residual p)) output (pg_ops p)))"

definition decode_exact_state_material ::
  "StateProgram \<Rightarrow> (RefKind \<Rightarrow> u64 \<Rightarrow> bytes option) \<Rightarrow> StateProgramError + ExactStateMaterial"
where
  "decode_exact_state_material p resolve =
     and_then (decode_exact_bytes p resolve) (\<lambda>bs.
       Ok \<lparr>esm_source_kind = pg_source_kind p, esm_exact_bytes = bs\<rparr>)"

section \<open>What a reference selects\<close>

definition ref_count :: "StateRef \<Rightarrow> nat" where
  "ref_count r = (if sr_len r = 0 then length (sr_indices r) else unat (sr_len r))"

definition ref_offsets :: "StateRef \<Rightarrow> nat list" where
  "ref_offsets r =
     (case sr_kind r of
        RK_StridedRange \<Rightarrow> map (\<lambda>i. unat (sr_start r) + i * unat (sr_step r)) [0..<unat (sr_len r)]
      | RK_IndexSet \<Rightarrow> map (\<lambda>i. unat (sr_start r) + unat i) (take (ref_count r) (sr_indices r))
      | _ \<Rightarrow> [unat (sr_start r)..<unat (sr_start r) + unat (sr_len r)])"

definition ref_fits :: "StateRef \<Rightarrow> bytes \<Rightarrow> bool" where
  "ref_fits r base \<longleftrightarrow> (\<forall>i \<in> set (ref_offsets r). i < length base)
     \<and> (sr_kind r \<notin> {RK_StridedRange, RK_IndexSet} \<longrightarrow> unat (sr_start r) \<le> length base)"

lemma checked_range_iff:
  "checked_range n start len = Some (a, b) \<longleftrightarrow> a = unat start \<and> b = unat start + unat len \<and> unat start + unat len \<le> n"
  by (auto simp: checked_range_def Let_def)

lemma checked_add_iff: "checked_add a b = Some s \<longleftrightarrow> unat a + unat b < 2 ^ 32 \<and> unat s = unat a + unat b"
proof -
  have "unat (a + b) = unat a + unat b" if "unat a + unat b < 2 ^ 32"
    using that by (simp add: unat_word_ariths)
  then show ?thesis by (auto simp: checked_add_def word_unat_eq_iff)
qed

lemma slice_nth: "b \<le> length xs \<Longrightarrow> slice a b xs = map ((!) xs) [a..<b]"
  by (rule nth_equalityI) (auto simp: slice_def)

lemma try_map_partial:
  assumes "\<And>x y. x \<in> set xs \<Longrightarrow> f x = Ok y \<longleftrightarrow> P x \<and> y = g x"
  shows "try_map f xs = Ok ys \<longleftrightarrow> (\<forall>x \<in> set xs. P x) \<and> ys = map g xs"
  using assms by (induction xs arbitrary: ys) auto

lemma unat_u16_as_u32: "unat (ucast w :: u32) = unat (w :: u16)"
  by transfer (simp add: take_bit_take_bit)

lemma byte_at_iff: "byte_at base w = Ok y \<longleftrightarrow> unat w < length base \<and> y = base ! unat w"
  by (auto simp: byte_at_def)

lemma strided_byte_iff:
  assumes small: "length base < 2 ^ 32" and i: "i < 2 ^ 32"
  shows "strided_byte r base i = Ok y \<longleftrightarrow>
    unat (sr_start r) + i * unat (sr_step r) < length base
      \<and> y = base ! (unat (sr_start r) + i * unat (sr_step r))"
proof -
  let ?m = "min (i * unat (sr_step r)) (2 ^ 32 - 1)" and ?s = "unat (sr_start r)"
  have "strided_byte r base i = Ok y \<longleftrightarrow>
      (\<exists>w :: u32. unat w = ?s + ?m \<and> ?s + ?m < 2 ^ 32 \<and> unat w < length base \<and> y = base ! unat w)"
    unfolding strided_byte_def
    by (auto simp: checked_add_iff byte_at_iff unat_saturating_mul unat_of_nat_u32 [OF i] unat_u16_as_u32)
  also have "\<dots> \<longleftrightarrow> ?s + ?m < length base \<and> y = base ! (?s + ?m)"
  proof -
    have "unat (of_nat (?s + ?m) :: u32) = ?s + ?m" if "?s + ?m < 2 ^ 32"
      using that by (rule unat_of_nat_u32)
    moreover have "?s + ?m < 2 ^ 32" if "?s + ?m < length base" using that small by simp
    ultimately show ?thesis by metis
  qed
  also have "\<dots> \<longleftrightarrow> ?s + i * unat (sr_step r) < length base \<and> y = base ! (?s + i * unat (sr_step r))"
    using small by (cases "i * unat (sr_step r) \<le> 2 ^ 32 - 1") (auto simp: min_def)
  finally show ?thesis .
qed

lemma indexed_byte_iff:
  assumes small: "length base < 2 ^ 32"
  shows "indexed_byte r base i = Ok y \<longleftrightarrow>
    unat (sr_start r) + unat i < length base \<and> y = base ! (unat (sr_start r) + unat i)"
proof -
  let ?s = "unat (sr_start r)"
  have "unat (of_nat (?s + unat i) :: u32) = ?s + unat i" if "?s + unat i < 2 ^ 32"
    using that by (rule unat_of_nat_u32)
  moreover have "indexed_byte r base i = Ok y \<longleftrightarrow>
      (\<exists>w :: u32. unat w = ?s + unat i \<and> ?s + unat i < 2 ^ 32 \<and> unat w < length base \<and> y = base ! unat w)"
    unfolding indexed_byte_def by (auto simp: checked_add_iff byte_at_iff)
  moreover have "?s + unat i < 2 ^ 32" if "?s + unat i < length base" using that small by simp
  ultimately show ?thesis by metis
qed

lemma materialize_ref_iff:
  assumes small: "length base < 2 ^ 32" and val: "validate_ref r = Ok ()"
  shows "materialize_ref r base = Ok out \<longleftrightarrow> ref_fits r base \<and> out = map ((!) base) (ref_offsets r)"
proof -
  consider "sr_kind r = RK_StridedRange" | "sr_kind r = RK_IndexSet"
    | "sr_kind r \<notin> {RK_StridedRange, RK_IndexSet}" by blast
  then show ?thesis
  proof cases
    case 1
    with val have "sr_step r \<noteq> 0" by (auto simp: validate_ref_def split: if_splits)
    moreover have "i < 2 ^ 32" if "i \<in> set [0..<unat (sr_len r)]" for i
      using that unsigned_less [of "sr_len r", where 'a = nat] by simp
    note try_map_partial [where f = "strided_byte r base" and xs = "[0..<unat (sr_len r)]" and ys = out,
        OF strided_byte_iff [OF small this]]
    ultimately show ?thesis
      using 1 by (simp add: materialize_ref_def ref_fits_def ref_offsets_def o_def)
  next
    case 2
    with val have "ref_count r \<le> length (sr_indices r)"
      by (auto simp: validate_ref_def ref_count_def split: if_splits)
    with 2 show ?thesis
      using try_map_partial [where f = "indexed_byte r base" and xs = "take (ref_count r) (sr_indices r)" and ys = out,
          OF indexed_byte_iff [OF small]]
      by (simp add: materialize_ref_def ref_fits_def ref_offsets_def Let_def ref_count_def o_def)
  next
    case 3
    then show ?thesis
      by (cases "sr_kind r") (auto simp: materialize_ref_def checked_range_iff ref_fits_def ref_offsets_def slice_nth)
  qed
qed

definition ref_selects :: "(RefKind \<Rightarrow> u64 \<Rightarrow> bytes option) \<Rightarrow> StateRef \<Rightarrow> bytes \<Rightarrow> bool" where
  "ref_selects resolve r out \<longleftrightarrow>
     (\<exists>base. resolve (sr_kind r) (sr_base_id r) = Some base \<and> ref_fits r base
        \<and> out = map ((!) base) (ref_offsets r))"

lemma resolve_ref_iff:
  assumes "\<And>k i base. resolve k i = Some base \<Longrightarrow> length base < 2 ^ 32" and "validate_ref r = Ok ()"
  shows "resolve_ref resolve r = Ok out \<longleftrightarrow> ref_selects resolve r out"
  using assms materialize_ref_iff by (auto simp: resolve_ref_def ref_selects_def)

lemma resolve_refs_iff:
  assumes small: "\<And>k i base. resolve k i = Some base \<Longrightarrow> length base < 2 ^ 32"
    and val: "\<forall>r \<in> set rs. validate_ref r = Ok ()"
  shows "try_map (resolve_ref resolve) rs = Ok outs \<longleftrightarrow> list_all2 (ref_selects resolve) rs outs"
  unfolding try_map_iff by (rule list.rel_cong) (use resolve_ref_iff [of resolve] small val in auto)

text \<open>C12: what a program without edit operations denotes, over bases below 4 GiB: it succeeds exactly when it is
  valid, every base is known and every selected offset lies inside its base, and then it returns the selected
  bytes, reference by reference, followed by the residual.\<close>

theorem selection_program_denotation:
  assumes "\<And>k i base. resolve k i = Some base \<Longrightarrow> length base < 2 ^ 32" and "pg_ops p = []"
  shows "decode_exact_bytes p resolve = Ok out \<longleftrightarrow> program_validate p = Ok ()
    \<and> (\<exists>parts. list_all2 (ref_selects resolve) (pg_refs p) parts \<and> out = concat parts @ pg_residual p)"
proof (cases "program_validate p = Ok ()")
  case True
  from resolve_refs_iff [OF assms(1) program_validate_limits(4) [OF this]] True assms(2) show ?thesis
    by (auto simp: decode_exact_bytes_def concat_refs_def Let_def)
next
  case False
  then show ?thesis by (auto simp: decode_exact_bytes_def)
qed

definition sample_bases :: "RefKind \<Rightarrow> u64 \<Rightarrow> bytes option" where
  "sample_bases kind i = (if i = 7 then Some [10, 20, 30, 40] else None)"

definition sample_program :: StateProgram where
  "sample_program = concat_with_residual Json [ref_strided_range 7 0 2 2, ref_index_set 7 1 [0, 2]] [99]"

lemma selection_program_denotation_witness:
  "decode_exact_bytes sample_program sample_bases = Ok [10, 30, 20, 40, 99]"
proof -
  have "length base < 2 ^ 32" if "sample_bases k i = Some base" for k i base
    using that by (auto simp: sample_bases_def split: if_splits)
  moreover have "pg_ops sample_program = []"
    by (simp add: sample_program_def concat_with_residual_def program_new_def)
  moreover have "program_validate sample_program = Ok ()"
    by (simp add: sample_program_def concat_with_residual_def program_new_def program_validate_def
        validate_ref_def ref_strided_range_def ref_index_set_def state_program_limits)
  moreover have "list_all2 (ref_selects sample_bases) (pg_refs sample_program) [[10, 30], [20, 40]]"
    by (simp add: sample_program_def concat_with_residual_def program_new_def sample_bases_def
        ref_selects_def ref_fits_def ref_offsets_def ref_count_def ref_strided_range_def ref_index_set_def
        upt_rec)
  moreover have "[10, 30, 20, 40, 99] = concat [[10, 30], [20, 40]] @ pg_residual sample_program"
    by (simp add: sample_program_def concat_with_residual_def program_new_def)
  ultimately show ?thesis using selection_program_denotation by blast
qed

section \<open>Programs over a store of material\<close>

lemma decode_parts:
  assumes "program_validate p = Ok ()"
    and "list_all2 (\<lambda>r part. resolve_ref resolve r = Ok part) (pg_refs p) parts"
  shows "decode_exact_bytes p resolve =
    (if pg_ops p = [] then Ok (concat parts @ pg_residual p)
     else try_fold (run_op parts (pg_residual p)) (concat parts) (pg_ops p))"
proof -
  from assms(2) have "try_map (resolve_ref resolve) (pg_refs p) = Ok parts" by (simp add: try_map_iff)
  with assms(1) show ?thesis by (simp add: decode_exact_bytes_def concat_refs_def Let_def)
qed

text \<open>
  What the sender and the receiver of programs share: a store of material with a lookup, an invariant
  and an order by which it grows.  Sizes fit 32 bits and growing keeps what was there.
\<close>

locale material_store =
  fixes store_ok :: "'s \<Rightarrow> bool"
    and grows :: "'s \<Rightarrow> 's \<Rightarrow> bool"
    and lookup :: "'s \<Rightarrow> RefKind \<Rightarrow> u64 \<Rightarrow> bytes option"
  assumes lookup_small: "store_ok s \<Longrightarrow> lookup s k i = Some m \<Longrightarrow> length m < 2 ^ 32"
    and lookup_grows: "grows s s' \<Longrightarrow> lookup s k i = Some m \<Longrightarrow> lookup s' k i = Some m"
begin

definition selects :: "'s \<Rightarrow> StateRef list \<Rightarrow> bytes list \<Rightarrow> bool" where
  "selects s refs parts \<longleftrightarrow> list_all2 (\<lambda>r part. resolve_ref (lookup s) r = Ok part) refs parts"

lemma selects_Nil [simp]: "selects s [] []"
  by (simp add: selects_def)

lemma selects_snoc: "selects s refs parts \<Longrightarrow> resolve_ref (lookup s) r = Ok part \<Longrightarrow> selects s (refs @ [r]) (parts @ [part])"
  by (simp add: selects_def list_all2_appendI)

lemma resolve_window:
  assumes "store_ok s" and "lookup s k i = Some m" and "k \<notin> {RK_StridedRange, RK_IndexSet}" and "a + n \<le> length m"
  shows "resolve_ref (lookup s) (plain_ref k i (of_nat a) (of_nat n)) = Ok (slice a (a + n) m)"
proof -
  have "unat (of_nat a :: u32) = a" and "unat (of_nat n :: u32) = n"
    using assms(4) lookup_small [OF assms(1,2)] by (simp_all add: unat_of_nat_u32)
  with assms show ?thesis
    by (cases k) (simp_all add: resolve_ref_def plain_ref_def materialize_ref_def checked_range_def)
qed

lemma resolve_whole:
  assumes "store_ok s" and "lookup s k i = Some m" and "k \<notin> {RK_StridedRange, RK_IndexSet}" and "length m = unat w"
  shows "resolve_ref (lookup s) (plain_ref k i 0 w) = Ok m"
  using resolve_window [OF assms(1,2,3), of 0 "length m"] assms(4) by (simp add: slice_def)

lemma resolve_ref_grows:
  "grows s s' \<Longrightarrow> resolve_ref (lookup s) r = Ok part \<Longrightarrow> resolve_ref (lookup s') r = Ok part"
  by (auto simp: resolve_ref_def dest: lookup_grows)

lemma decode_grows:
  assumes "grows s s'" and dec: "decode_exact_bytes p (lookup s) = Ok out"
  shows "decode_exact_bytes p (lookup s') = Ok out"
proof -
  from dec obtain parts where val: "program_validate p = Ok ()"
    and parts: "try_map (resolve_ref (lookup s)) (pg_refs p) = Ok parts"
    by (auto simp: decode_exact_bytes_def)
  then have here: "list_all2 (\<lambda>r part. resolve_ref (lookup s) r = Ok part) (pg_refs p) parts"
    by (simp add: try_map_iff)
  then have "list_all2 (\<lambda>r part. resolve_ref (lookup s') r = Ok part) (pg_refs p) parts"
    by (elim list_all2_mono) (rule resolve_ref_grows [OF assms(1)])
  from decode_parts [OF val this] decode_parts [OF val here] dec show ?thesis by simp
qed

lemma decode_selected:
  assumes "program_validate p = Ok ()" and "selects s (pg_refs p) parts" and "pg_ops p = []"
  shows "decode_exact_bytes p (lookup s) = Ok (concat parts @ pg_residual p)"
  using decode_parts assms unfolding selects_def by simp

lemma decode_concat:
  assumes "program_validate p = Ok ()" and "selects s (pg_refs p) parts" and "pg_ops p = [Op_Concat]"
  shows "decode_exact_bytes p (lookup s) = Ok (concat parts)"
  using decode_parts assms unfolding selects_def by (simp add: concat_refs_def)

text \<open>A window of known material between a new prefix and a new suffix.\<close>

lemma decode_patched_window:
  assumes val: "program_validate p = Ok ()" and refs: "selects s (pg_refs p) [window]"
    and ops: "pg_ops p = (if pre \<noteq> [] then [Op_Patch 0 0 0 (of_nat (length pre))] else [])
       @ (if post \<noteq> [] then [Op_Patch (of_nat (length pre + length window)) 0 (of_nat (length pre)) (of_nat (length post))] else [])"
    and residual: "pg_residual p = pre @ post" and some: "pre @ post \<noteq> []"
    and small: "length (pre @ window @ post) < 2 ^ 32"
  shows "decode_exact_bytes p (lookup s) = Ok (pre @ window @ post)"
proof -
  have sizes: "unat (of_nat (length pre) :: u32) = length pre" "unat (of_nat (length post) :: u32) = length post"
    "unat (of_nat (length pre + length window) :: u32) = length pre + length window"
    using small by (simp_all add: unat_of_nat_u32 del: of_nat_add)
  have front: "run_op [window] (pre @ post) window (Op_Patch 0 0 0 (of_nat (length pre))) = Ok (pre @ window)"
    using sizes by (simp add: apply_patch_op_def checked_patch_range_def checked_range_def kernel_apply_patch_def slice_def Let_def)
  have rear: "run_op [window] (pre @ post) (pre @ window)
      (Op_Patch (of_nat (length pre + length window)) 0 (of_nat (length pre)) (of_nat (length post))) = Ok (pre @ window @ post)"
    using sizes by (simp add: apply_patch_op_def checked_patch_range_def checked_range_def kernel_apply_patch_def
        slice_def Let_def del: of_nat_add)
  show ?thesis
    using decode_parts [OF val refs [unfolded selects_def]] some front rear
    unfolding ops residual by (cases "pre = []"; cases "post = []") (simp_all del: run_op.simps of_nat_add)
qed

end
end
