(* ===== verification/Pulzz_Catalog.thy ===== *)
theory Pulzz_Catalog
  imports Pulzz_State_Program "HOL-Library.Product_Lexorder"
begin

text \<open>
  The shared block catalog (\<open>shared_protocol/src/catalog.rs\<close>): content-addressed blocks, bundles made of
  block ranges, the sync payload that installs them atomically, and repair requests and responses.
  SHA-256 (the sha2 crate) and bincode are parameters.
\<close>

section \<open>Types\<close>

definition CATALOG_SYNC_PAYLOAD_VERSION :: u8 where "CATALOG_SYNC_PAYLOAD_VERSION = 1"
definition REPAIR_PAYLOAD_VERSION :: u8 where "REPAIR_PAYLOAD_VERSION = 1"
definition MAX_CATALOG_SYNC_BLOCKS :: nat where "MAX_CATALOG_SYNC_BLOCKS = 4096"
definition MAX_CATALOG_SYNC_BUNDLES :: nat where "MAX_CATALOG_SYNC_BUNDLES = 1024"
definition MAX_BUNDLE_MEMBERS :: nat where "MAX_BUNDLE_MEMBERS = 1024"

type_synonym BlockId = u64
type_synonym BundleId = u64
type_synonym BlockCatalogVersion = u64

record BlockCatalogEntry =
  be_block_id :: BlockId
  be_source_kind :: SourceKind
  be_byte_len :: u32
  be_content_hash :: bytes
  be_material :: bytes

record BundleMember =
  bm_block_id :: BlockId
  bm_start :: u32
  bm_len :: u32

record BundleCatalogEntry =
  bu_bundle_id :: BundleId
  bu_members :: "BundleMember list"
  bu_byte_len :: u32
  bu_content_hash :: bytes

datatype CatalogPrefixCandidate =
    PrefixBlock (pc_id: u64) (pc_byte_len: u32)
  | PrefixBundle (pc_id: u64) (pc_byte_len: u32)

record CatalogSyncPayload =
  cs_payload_version :: u8
  cs_catalog_version :: BlockCatalogVersion
  cs_blocks :: "BlockCatalogEntry list"
  cs_bundles :: "BundleCatalogEntry list"

record CatalogSyncSummary =
  ss_catalog_version :: BlockCatalogVersion
  ss_block_count :: nat
  ss_bundle_count :: nat
  ss_exact_block_bytes :: nat

datatype RepairCause =
    MissingBasis
  | CatalogVersionMismatch BlockCatalogVersion BlockCatalogVersion
  | UnsupportedStateReference string

record RepairRequest =
  rq_catalog_version :: BlockCatalogVersion
  rq_missing_blocks :: "BlockId list"
  rq_missing_bundles :: "BundleId list"
  rq_cause :: RepairCause

datatype RepairPayload = RepairReq u8 RepairRequest | RepairResp u8 CatalogSyncPayload

record SharedBlockCatalog =
  cat_version :: BlockCatalogVersion
  cat_blocks :: "(BlockId, BlockCatalogEntry) ord_map"
  cat_bundles :: "(BundleId, BundleCatalogEntry) ord_map"

definition catalog_default :: SharedBlockCatalog where
  "catalog_default = \<lparr>cat_version = 0, cat_blocks = [], cat_bundles = []\<rparr>"

datatype CatalogError =
    CE_Serde string
  | CE_InvalidCatalogPayloadVersion u8
  | CE_InvalidRepairPayloadVersion u8
  | CE_PayloadTooLarge
  | CE_TooManySyncBlocks nat
  | CE_TooManySyncBundles nat
  | CE_TooManyBundleMembers nat
  | CE_InvalidBlockId BlockId
  | CE_InvalidBundleId BundleId
  | CE_EmptyBundle
  | CE_DuplicateBlock BlockId
  | CE_DuplicateBundle BundleId
  | CE_ConflictingBlock BlockId
  | CE_ConflictingBundle BundleId
  | CE_BlockLenMismatch BlockId nat nat
  | CE_BundleLenMismatch BundleId nat nat
  | CE_BlockHashMismatch BlockId
  | CE_BundleHashMismatch BundleId
  | CE_BlockIdMismatch BlockId BlockId
  | CE_BundleIdMismatch BundleId BundleId
  | CE_MissingBlock BlockId
  | CE_MissingBundle BundleId
  | CE_InvalidBlockRange BlockId u32 u32 nat
  | CE_StaleCatalogVersion BlockCatalogVersion BlockCatalogVersion
  | CE_EmptyRepairRequest

section \<open>Content addresses\<close>

definition content_hash :: "sha \<Rightarrow> bytes \<Rightarrow> bytes" where
  "content_hash sha material = sha material"

definition nonzero_u64_from_hash :: "bytes \<Rightarrow> u64" where
  "nonzero_u64_from_hash h = (let id = of_le64 (take 8 h) in if id = 0 then 1 else id)"

definition derive_block_id :: "sha \<Rightarrow> SourceKind \<Rightarrow> bytes \<Rightarrow> BlockId" where
  "derive_block_id sha kind h =
     nonzero_u64_from_hash (sha (ascii_bytes ''pulzz:block:v1'' @ [SourceKind_tag kind] @ h))"

definition derive_bundle_id :: "sha \<Rightarrow> BundleMember list \<Rightarrow> bytes \<Rightarrow> BundleId" where
  "derive_bundle_id sha members h =
     nonzero_u64_from_hash (sha (ascii_bytes ''pulzz:bundle:v1''
       @ concat (map (\<lambda>m. le64 (bm_block_id m) @ le32 (bm_start m) @ le32 (bm_len m)) members) @ h))"

definition derive_catalog_block_id :: "sha \<Rightarrow> SourceKind \<Rightarrow> bytes \<Rightarrow> BlockId" where
  "derive_catalog_block_id sha kind material = derive_block_id sha kind (content_hash sha material)"

definition checked_u32_len :: "nat \<Rightarrow> CatalogError + u32" where
  "checked_u32_len len = (if len < 2 ^ 32 then Ok (of_nat len) else Err CE_PayloadTooLarge)"

definition catalog_checked_range :: "nat \<Rightarrow> u32 \<Rightarrow> u32 \<Rightarrow> (nat \<times> nat) option" where
  "catalog_checked_range total_len start len =
     (let start = unat start; len = unat len; end = start + len in
      if start \<le> total_len \<and> end \<le> total_len then Some (start, end) else None)"

lemma catalog_checked_range_eq [simp]: "catalog_checked_range = checked_range"
  by (intro ext) (simp add: catalog_checked_range_def checked_range_def Let_def)

section \<open>Blocks\<close>

definition block_from_bytes :: "sha \<Rightarrow> SourceKind \<Rightarrow> bytes \<Rightarrow> CatalogError + BlockCatalogEntry" where
  "block_from_bytes sha kind material =
     and_then (checked_u32_len (length material)) (\<lambda>byte_len.
     let h = content_hash sha material in
     Ok \<lparr>be_block_id = derive_block_id sha kind h, be_source_kind = kind, be_byte_len = byte_len,
         be_content_hash = h, be_material = material\<rparr>)"

definition block_validate :: "sha \<Rightarrow> BlockCatalogEntry \<Rightarrow> CatalogError + unit" where
  "block_validate sha e =
     (if be_block_id e = 0 then Err (CE_InvalidBlockId (be_block_id e))
      else if unat (be_byte_len e) \<noteq> length (be_material e)
      then Err (CE_BlockLenMismatch (be_block_id e) (unat (be_byte_len e)) (length (be_material e)))
      else if content_hash sha (be_material e) \<noteq> be_content_hash e
      then Err (CE_BlockHashMismatch (be_block_id e))
      else let expected_id = derive_block_id sha (be_source_kind e) (be_content_hash e) in
        if expected_id \<noteq> be_block_id e then Err (CE_BlockIdMismatch expected_id (be_block_id e))
        else Ok ())"

section \<open>Materializing\<close>

definition materialize_block_range ::
  "SharedBlockCatalog \<Rightarrow> BlockId \<Rightarrow> u32 \<Rightarrow> u32 \<Rightarrow> CatalogError + bytes"
where
  "materialize_block_range cat block_id start len =
     and_then (ok_or (CE_MissingBlock block_id) (om_get (cat_blocks cat) block_id)) (\<lambda>block.
     and_then (ok_or (CE_InvalidBlockRange block_id start len (length (be_material block)))
       (catalog_checked_range (length (be_material block)) start len)) (\<lambda>(a, b).
       Ok (slice a b (be_material block))))"

definition materialize_members :: "SharedBlockCatalog \<Rightarrow> BundleMember list \<Rightarrow> CatalogError + bytes" where
  "materialize_members cat members =
     and_then (try_map (\<lambda>m. materialize_block_range cat (bm_block_id m) (bm_start m) (bm_len m)) members)
       (\<lambda>parts. Ok (concat parts))"

definition materialize_bundle :: "sha \<Rightarrow> SharedBlockCatalog \<Rightarrow> BundleId \<Rightarrow> CatalogError + bytes" where
  "materialize_bundle sha cat bundle_id =
     and_then (ok_or (CE_MissingBundle bundle_id) (om_get (cat_bundles cat) bundle_id)) (\<lambda>bundle.
     and_then (materialize_members cat (bu_members bundle)) (\<lambda>material.
       if length material \<noteq> unat (bu_byte_len bundle) \<or> content_hash sha material \<noteq> bu_content_hash bundle
       then Err (CE_BundleHashMismatch bundle_id)
       else Ok material))"

section \<open>Bundles\<close>

definition bundle_from_members ::
  "sha \<Rightarrow> BundleMember list \<Rightarrow> SharedBlockCatalog \<Rightarrow> CatalogError + BundleCatalogEntry"
where
  "bundle_from_members sha members cat =
     (if members = [] then Err CE_EmptyBundle
      else if length members > MAX_BUNDLE_MEMBERS then Err (CE_TooManyBundleMembers (length members))
      else and_then (materialize_members cat members) (\<lambda>material.
        and_then (checked_u32_len (length material)) (\<lambda>byte_len.
        let h = content_hash sha material in
        Ok \<lparr>bu_bundle_id = derive_bundle_id sha members h, bu_members = members, bu_byte_len = byte_len,
            bu_content_hash = h\<rparr>)))"

definition validate_with_catalog ::
  "sha \<Rightarrow> BundleCatalogEntry \<Rightarrow> SharedBlockCatalog \<Rightarrow> CatalogError + unit"
where
  "validate_with_catalog sha e cat =
     (if bu_bundle_id e = 0 then Err (CE_InvalidBundleId (bu_bundle_id e))
      else if bu_members e = [] then Err CE_EmptyBundle
      else if length (bu_members e) > MAX_BUNDLE_MEMBERS
      then Err (CE_TooManyBundleMembers (length (bu_members e)))
      else and_then (materialize_members cat (bu_members e)) (\<lambda>material.
        if unat (bu_byte_len e) \<noteq> length material
        then Err (CE_BundleLenMismatch (bu_bundle_id e) (unat (bu_byte_len e)) (length material))
        else if content_hash sha material \<noteq> bu_content_hash e
        then Err (CE_BundleHashMismatch (bu_bundle_id e))
        else let expected_id = derive_bundle_id sha (bu_members e) (bu_content_hash e) in
          if expected_id \<noteq> bu_bundle_id e then Err (CE_BundleIdMismatch expected_id (bu_bundle_id e))
          else Ok ()))"

section \<open>Installing entries\<close>

definition insert_block_entry ::
  "sha \<Rightarrow> BlockCatalogEntry \<Rightarrow> SharedBlockCatalog \<Rightarrow> CatalogError + SharedBlockCatalog \<times> BlockId"
where
  "insert_block_entry sha e cat =
     and_then (block_validate sha e) (\<lambda>_.
     case om_get (cat_blocks cat) (be_block_id e) of
       Some existing \<Rightarrow>
         if existing \<noteq> e then Err (CE_ConflictingBlock (be_block_id e))
         else Ok (cat \<lparr>cat_blocks := om_insert (be_block_id e) e (cat_blocks cat)\<rparr>, be_block_id e)
     | None \<Rightarrow> Ok (cat \<lparr>cat_blocks := om_insert (be_block_id e) e (cat_blocks cat)\<rparr>, be_block_id e))"

definition insert_block ::
  "sha \<Rightarrow> SourceKind \<Rightarrow> bytes \<Rightarrow> SharedBlockCatalog \<Rightarrow> CatalogError + SharedBlockCatalog \<times> BlockId"
where
  "insert_block sha kind material cat =
     and_then (block_from_bytes sha kind material) (\<lambda>e. insert_block_entry sha e cat)"

definition insert_exact_material ::
  "sha \<Rightarrow> ExactStateMaterial \<Rightarrow> SharedBlockCatalog \<Rightarrow> CatalogError + SharedBlockCatalog \<times> BlockId"
where
  "insert_exact_material sha m cat =
     and_then (block_from_bytes sha (esm_source_kind m) (esm_exact_bytes m))
       (\<lambda>e. insert_block_entry sha e cat)"

definition insert_bundle_entry ::
  "sha \<Rightarrow> BundleCatalogEntry \<Rightarrow> SharedBlockCatalog \<Rightarrow> CatalogError + SharedBlockCatalog \<times> BundleId"
where
  "insert_bundle_entry sha e cat =
     and_then (validate_with_catalog sha e cat) (\<lambda>_.
     case om_get (cat_bundles cat) (bu_bundle_id e) of
       Some existing \<Rightarrow>
         if existing \<noteq> e then Err (CE_ConflictingBundle (bu_bundle_id e))
         else Ok (cat \<lparr>cat_bundles := om_insert (bu_bundle_id e) e (cat_bundles cat)\<rparr>, bu_bundle_id e)
     | None \<Rightarrow> Ok (cat \<lparr>cat_bundles := om_insert (bu_bundle_id e) e (cat_bundles cat)\<rparr>, bu_bundle_id e))"

definition define_bundle ::
  "sha \<Rightarrow> BundleMember list \<Rightarrow> SharedBlockCatalog \<Rightarrow> CatalogError + SharedBlockCatalog \<times> BundleId"
where
  "define_bundle sha members cat =
     and_then (bundle_from_members sha members cat) (\<lambda>e. insert_bundle_entry sha e cat)"

section \<open>Sync and repair\<close>

definition sync_payload_new ::
  "BlockCatalogVersion \<Rightarrow> BlockCatalogEntry list \<Rightarrow> BundleCatalogEntry list \<Rightarrow> CatalogSyncPayload"
where
  "sync_payload_new version blocks bundles =
     \<lparr>cs_payload_version = CATALOG_SYNC_PAYLOAD_VERSION, cs_catalog_version = version,
      cs_blocks = blocks, cs_bundles = bundles\<rparr>"

text \<open>A loop that inserts every id into a \<open>BTreeSet\<close> and fails on the first one that was there.\<close>

fun ensure_unique :: "(u64 \<Rightarrow> CatalogError) \<Rightarrow> u64 set \<Rightarrow> u64 list \<Rightarrow> CatalogError + unit" where
  "ensure_unique duplicate seen [] = Ok ()"
| "ensure_unique duplicate seen (i # ids) =
     (if i \<in> seen then Err (duplicate i) else ensure_unique duplicate (insert i seen) ids)"

definition ensure_unique_blocks :: "BlockId list \<Rightarrow> CatalogError + unit" where
  "ensure_unique_blocks = ensure_unique CE_DuplicateBlock {}"

definition ensure_unique_bundles :: "BundleId list \<Rightarrow> CatalogError + unit" where
  "ensure_unique_bundles = ensure_unique CE_DuplicateBundle {}"

fun check_sync_blocks :: "sha \<Rightarrow> BlockId set \<Rightarrow> BlockCatalogEntry list \<Rightarrow> CatalogError + unit" where
  "check_sync_blocks sha seen [] = Ok ()"
| "check_sync_blocks sha seen (b # bs) =
     and_then (block_validate sha b) (\<lambda>_.
       if be_block_id b \<in> seen then Err (CE_DuplicateBlock (be_block_id b))
       else check_sync_blocks sha (insert (be_block_id b) seen) bs)"

definition validate_basic :: "sha \<Rightarrow> CatalogSyncPayload \<Rightarrow> CatalogError + unit" where
  "validate_basic sha p =
     (if cs_payload_version p \<noteq> CATALOG_SYNC_PAYLOAD_VERSION
      then Err (CE_InvalidCatalogPayloadVersion (cs_payload_version p))
      else if length (cs_blocks p) > MAX_CATALOG_SYNC_BLOCKS
      then Err (CE_TooManySyncBlocks (length (cs_blocks p)))
      else if length (cs_bundles p) > MAX_CATALOG_SYNC_BUNDLES
      then Err (CE_TooManySyncBundles (length (cs_bundles p)))
      else and_then (check_sync_blocks sha {} (cs_blocks p)) (\<lambda>_.
        ensure_unique_bundles (map bu_bundle_id (cs_bundles p))))"

definition request_missing_basis ::
  "BlockCatalogVersion \<Rightarrow> BlockId list \<Rightarrow> BundleId list \<Rightarrow> RepairRequest"
where
  "request_missing_basis version blocks bundles =
     \<lparr>rq_catalog_version = version, rq_missing_blocks = blocks, rq_missing_bundles = bundles,
      rq_cause = MissingBasis\<rparr>"

definition request_validate :: "RepairRequest \<Rightarrow> CatalogError + unit" where
  "request_validate r =
     and_then (ensure_unique_blocks (rq_missing_blocks r)) (\<lambda>_.
     and_then (ensure_unique_bundles (rq_missing_bundles r)) (\<lambda>_.
       if rq_missing_blocks r = [] \<and> rq_missing_bundles r = [] \<and> rq_cause r = MissingBasis
       then Err CE_EmptyRepairRequest else Ok ()))"

fun repair_validate :: "sha \<Rightarrow> RepairPayload \<Rightarrow> CatalogError + unit" where
  "repair_validate sha (RepairReq version request) =
     (if version \<noteq> REPAIR_PAYLOAD_VERSION then Err (CE_InvalidRepairPayloadVersion version)
      else request_validate request)"
| "repair_validate sha (RepairResp version sync) =
     (if version \<noteq> REPAIR_PAYLOAD_VERSION then Err (CE_InvalidRepairPayloadVersion version)
      else validate_basic sha sync)"

definition sync_encode :: "sha \<Rightarrow> CatalogSyncPayload bincode_enc \<Rightarrow> CatalogSyncPayload \<Rightarrow> CatalogError + bytes" where
  "sync_encode sha enc p = and_then (validate_basic sha p) (\<lambda>_. map_err CE_Serde (enc p))"

definition sync_decode :: "sha \<Rightarrow> CatalogSyncPayload bincode_dec \<Rightarrow> bytes \<Rightarrow> CatalogError + CatalogSyncPayload" where
  "sync_decode sha dec bs =
     and_then (map_err CE_Serde (dec bs)) (\<lambda>(p, _). and_then (validate_basic sha p) (\<lambda>_. Ok p))"

definition repair_encode :: "sha \<Rightarrow> RepairPayload bincode_enc \<Rightarrow> RepairPayload \<Rightarrow> CatalogError + bytes" where
  "repair_encode sha enc p = and_then (repair_validate sha p) (\<lambda>_. map_err CE_Serde (enc p))"

definition repair_decode :: "sha \<Rightarrow> RepairPayload bincode_dec \<Rightarrow> bytes \<Rightarrow> CatalogError + RepairPayload" where
  "repair_decode sha dec bs =
     and_then (map_err CE_Serde (dec bs)) (\<lambda>(p, _). and_then (repair_validate sha p) (\<lambda>_. Ok p))"

text \<open>\<open>next.insert_block_entry(b)?\<close> in a loop: the id that the insertion returns is dropped.\<close>

fun next_state :: "'e + 's \<times> 'i \<Rightarrow> 'e + 's" where
  "next_state (Inl e) = Inl e"
| "next_state (Inr (s, _)) = Inr s"

lemma next_state_iff [simp]: "next_state m = Ok s \<longleftrightarrow> (\<exists>i. m = Ok (s, i))"
  by (cases m rule: next_state.cases) auto

definition apply_sync ::
  "sha \<Rightarrow> CatalogSyncPayload \<Rightarrow> SharedBlockCatalog \<Rightarrow> SharedBlockCatalog \<times> (CatalogError + CatalogSyncSummary)"
where
  "apply_sync sha p cat =
     (case and_then (validate_basic sha p) (\<lambda>_.
        if cs_catalog_version p < cat_version cat
        then Err (CE_StaleCatalogVersion (cat_version cat) (cs_catalog_version p))
        else
          and_then (try_fold (\<lambda>next b. next_state (insert_block_entry sha b next)) cat (cs_blocks p)) (\<lambda>next.
          and_then (try_fold (\<lambda>next b. next_state (insert_bundle_entry sha b next)) next (cs_bundles p)) (\<lambda>next.
            Ok (next \<lparr>cat_version := cs_catalog_version p\<rparr>)))) of
        Inl e \<Rightarrow> (cat, Err e)
      | Inr next \<Rightarrow>
          (next, Ok \<lparr>ss_catalog_version = cat_version next, ss_block_count = length (cs_blocks p),
                     ss_bundle_count = length (cs_bundles p),
                     ss_exact_block_bytes = sum_list (map (\<lambda>b. length (be_material b)) (cs_blocks p))\<rparr>))"

definition collect_block ::
  "SharedBlockCatalog \<Rightarrow> (BlockId, BlockCatalogEntry) ord_map \<Rightarrow> BlockId
     \<Rightarrow> CatalogError + (BlockId, BlockCatalogEntry) ord_map"
where
  "collect_block cat blocks block_id =
     and_then (ok_or (CE_MissingBlock block_id) (om_get (cat_blocks cat) block_id)) (\<lambda>block.
       Ok (om_insert block_id block blocks))"

definition collect_bundle ::
  "SharedBlockCatalog \<Rightarrow> (BlockId, BlockCatalogEntry) ord_map \<times> BundleCatalogEntry list \<Rightarrow> BundleId
     \<Rightarrow> CatalogError + (BlockId, BlockCatalogEntry) ord_map \<times> BundleCatalogEntry list"
where
  "collect_bundle cat acc bundle_id =
     and_then (ok_or (CE_MissingBundle bundle_id) (om_get (cat_bundles cat) bundle_id)) (\<lambda>bundle.
     and_then (try_fold (collect_block cat) (fst acc) (map bm_block_id (bu_members bundle))) (\<lambda>blocks.
       Ok (blocks, snd acc @ [bundle])))"

definition sync_payload ::
  "SharedBlockCatalog \<Rightarrow> BlockCatalogVersion \<Rightarrow> BlockId list \<Rightarrow> BundleId list \<Rightarrow> CatalogError + CatalogSyncPayload"
where
  "sync_payload cat version block_ids bundle_ids =
     and_then (try_fold (collect_block cat) [] block_ids) (\<lambda>blocks.
     and_then (try_fold (collect_bundle cat) (blocks, []) bundle_ids) (\<lambda>(blocks, bundles).
       Ok (sync_payload_new version (map snd blocks) bundles)))"

definition repair_response ::
  "SharedBlockCatalog \<Rightarrow> RepairRequest \<Rightarrow> BlockCatalogVersion \<Rightarrow> CatalogError + RepairPayload"
where
  "repair_response cat request version =
     and_then (request_validate request) (\<lambda>_.
     and_then (sync_payload cat version (rq_missing_blocks request) (rq_missing_bundles request)) (\<lambda>sync.
       Ok (RepairResp REPAIR_PAYLOAD_VERSION sync)))"

section \<open>Search\<close>

definition exact_block_for_material :: "SharedBlockCatalog \<Rightarrow> bytes \<Rightarrow> BlockCatalogEntry option" where
  "exact_block_for_material cat material =
     find (\<lambda>e. be_material e = material) (map snd (cat_blocks cat))"

definition exact_bundle_for_material :: "sha \<Rightarrow> SharedBlockCatalog \<Rightarrow> bytes \<Rightarrow> BundleCatalogEntry option" where
  "exact_bundle_for_material sha cat material =
     find (\<lambda>b. unat (bu_byte_len b) = length material
              \<and> materialize_bundle sha cat (bu_bundle_id b) = Ok material) (map snd (cat_bundles cat))"

definition starts_with :: "bytes \<Rightarrow> bytes \<Rightarrow> bool" where
  "starts_with xs p \<longleftrightarrow> take (length p) xs = p"

text \<open>Longest candidate first, bundles before blocks of the same length; the sort is stable.\<close>

fun prefix_rank :: "CatalogPrefixCandidate \<Rightarrow> int \<times> nat" where
  "prefix_rank (PrefixBlock _ byte_len) = (- int (unat byte_len), 1)"
| "prefix_rank (PrefixBundle _ byte_len) = (- int (unat byte_len), 0)"

definition bundle_starts :: "sha \<Rightarrow> SharedBlockCatalog \<Rightarrow> bytes \<Rightarrow> BundleCatalogEntry \<Rightarrow> bool" where
  "bundle_starts sha cat payload b =
     (case materialize_bundle sha cat (bu_bundle_id b) of
        Inr material \<Rightarrow> starts_with payload material
      | Inl _ \<Rightarrow> False)"

definition prefix_candidates ::
  "sha \<Rightarrow> SharedBlockCatalog \<Rightarrow> bytes \<Rightarrow> nat \<Rightarrow> nat \<Rightarrow> CatalogPrefixCandidate list"
where
  "prefix_candidates sha cat payload min_len limit =
     take limit (sort_key prefix_rank
       (map (\<lambda>e. PrefixBlock (be_block_id e) (be_byte_len e))
          (filter (\<lambda>e. min_len \<le> length (be_material e) \<and> starts_with payload (be_material e))
            (map snd (cat_blocks cat)))
        @ map (\<lambda>b. PrefixBundle (bu_bundle_id b) (bu_byte_len b))
          (filter (\<lambda>b. min_len \<le> unat (bu_byte_len b) \<and> bundle_starts sha cat payload b)
            (map snd (cat_bundles cat)))))"

section \<open>The catalog invariant\<close>

text \<open>Every entry stands under its own id and is valid; a bundle is valid against the catalog it is in.\<close>

definition catalog_ok :: "sha \<Rightarrow> SharedBlockCatalog \<Rightarrow> bool" where
  "catalog_ok sha cat \<longleftrightarrow> om_ok (cat_blocks cat) \<and> om_ok (cat_bundles cat)
     \<and> (\<forall>k e. om_get (cat_blocks cat) k = Some e \<longrightarrow> be_block_id e = k \<and> block_validate sha e = Ok ())
     \<and> (\<forall>k b. om_get (cat_bundles cat) k = Some b \<longrightarrow>
           bu_bundle_id b = k \<and> validate_with_catalog sha b cat = Ok ())"

text \<open>A catalog only grows: an extension keeps every entry.\<close>

definition catalog_extends :: "SharedBlockCatalog \<Rightarrow> SharedBlockCatalog \<Rightarrow> bool" where
  "catalog_extends cat cat' \<longleftrightarrow>
     om_get (cat_blocks cat) \<subseteq>\<^sub>m om_get (cat_blocks cat') \<and> om_get (cat_bundles cat) \<subseteq>\<^sub>m om_get (cat_bundles cat')"

lemma catalog_extends_refl [simp]: "catalog_extends cat cat"
  by (simp add: catalog_extends_def)

lemma catalog_extends_trans: "catalog_extends a b \<Longrightarrow> catalog_extends b c \<Longrightarrow> catalog_extends a c"
  unfolding catalog_extends_def by (elim conjE) (intro conjI; rule map_le_trans; assumption)

lemma extends_block:
  "catalog_extends cat cat' \<Longrightarrow> om_get (cat_blocks cat) i = Some e \<Longrightarrow> om_get (cat_blocks cat') i = Some e"
  unfolding catalog_extends_def map_le_def using domI by metis

lemma extends_bundle:
  "catalog_extends cat cat' \<Longrightarrow> om_get (cat_bundles cat) i = Some b \<Longrightarrow> om_get (cat_bundles cat') i = Some b"
  unfolding catalog_extends_def map_le_def using domI by metis

lemma materialize_block_range_extends:
  "catalog_extends cat cat' \<Longrightarrow> materialize_block_range cat i a n = Ok m \<Longrightarrow> materialize_block_range cat' i a n = Ok m"
  by (auto simp: materialize_block_range_def dest: extends_block)

lemma materialize_members_extends:
  assumes "catalog_extends cat cat'" and "materialize_members cat ms = Ok m"
  shows "materialize_members cat' ms = Ok m"
proof -
  from assms(2) obtain parts where
    "list_all2 (\<lambda>b p. materialize_block_range cat (bm_block_id b) (bm_start b) (bm_len b) = Ok p) ms parts"
    and m: "m = concat parts"
    by (auto simp: materialize_members_def try_map_iff)
  then have "list_all2 (\<lambda>b p. materialize_block_range cat' (bm_block_id b) (bm_start b) (bm_len b) = Ok p) ms parts"
    by (elim list_all2_mono) (rule materialize_block_range_extends [OF assms(1)])
  then show ?thesis using m by (auto simp: materialize_members_def try_map_iff)
qed

lemma materialize_bundle_extends:
  assumes "catalog_extends cat cat'" and "materialize_bundle sha cat i = Ok m"
  shows "materialize_bundle sha cat' i = Ok m"
  using assms by (auto simp: materialize_bundle_def split: if_splits
      dest: extends_bundle materialize_members_extends)

lemma validate_with_catalog_iff:
  "validate_with_catalog sha b cat = Ok () \<longleftrightarrow>
    bu_bundle_id b \<noteq> 0 \<and> bu_members b \<noteq> [] \<and> length (bu_members b) \<le> MAX_BUNDLE_MEMBERS
    \<and> derive_bundle_id sha (bu_members b) (bu_content_hash b) = bu_bundle_id b
    \<and> (\<exists>m. materialize_members cat (bu_members b) = Ok m \<and> length m = unat (bu_byte_len b)
          \<and> content_hash sha m = bu_content_hash b)"
  by (auto simp: validate_with_catalog_def not_less Let_def split: if_splits)

lemma block_validate_iff:
  "block_validate sha e = Ok () \<longleftrightarrow> be_block_id e \<noteq> 0 \<and> length (be_material e) = unat (be_byte_len e)
    \<and> be_content_hash e = content_hash sha (be_material e)
    \<and> derive_block_id sha (be_source_kind e) (be_content_hash e) = be_block_id e"
  by (auto simp: block_validate_def Let_def)

lemma validate_with_catalog_extends:
  "catalog_extends cat cat' \<Longrightarrow> validate_with_catalog sha b cat = Ok () \<Longrightarrow> validate_with_catalog sha b cat' = Ok ()"
  unfolding validate_with_catalog_iff using materialize_members_extends by blast

lemma catalog_ok_block:
  assumes "catalog_ok sha cat" and "om_get (cat_blocks cat) i = Some e"
  shows "be_block_id e = i" and "block_validate sha e = Ok ()"
  using assms by (auto simp: catalog_ok_def)

lemma catalog_ok_bundle:
  assumes "catalog_ok sha cat" and "om_get (cat_bundles cat) i = Some b"
  shows "bu_bundle_id b = i" and "validate_with_catalog sha b cat = Ok ()"
    and "\<exists>m. materialize_bundle sha cat i = Ok m \<and> length m = unat (bu_byte_len b)"
proof -
  show "bu_bundle_id b = i" and val: "validate_with_catalog sha b cat = Ok ()"
    using assms by (auto simp: catalog_ok_def)
  then obtain m where "materialize_members cat (bu_members b) = Ok m" "length m = unat (bu_byte_len b)"
    "content_hash sha m = bu_content_hash b" unfolding validate_with_catalog_iff by blast
  then show "\<exists>m. materialize_bundle sha cat i = Ok m \<and> length m = unat (bu_byte_len b)"
    using assms(2) by (intro exI [of _ m]) (simp add: materialize_bundle_def)
qed

lemma catalog_default_ok: "catalog_ok sha catalog_default"
  by (simp add: catalog_ok_def catalog_default_def)

lemma insert_block_entry_spec:
  assumes ok: "catalog_ok sha cat" and ins: "insert_block_entry sha e cat = Ok (cat', i)"
  shows "catalog_ok sha cat'" and "catalog_extends cat cat'" and "i = be_block_id e"
    and "om_get (cat_blocks cat') i = Some e" and "cat_version cat' = cat_version cat"
proof -
  from ins have val: "block_validate sha e = Ok ()" and i: "i = be_block_id e"
    and cat': "cat' = cat \<lparr>cat_blocks := om_insert (be_block_id e) e (cat_blocks cat)\<rparr>"
    and free: "om_get (cat_blocks cat) i = None \<or> om_get (cat_blocks cat) i = Some e"
    by (auto simp: insert_block_entry_def split: option.splits if_splits)
  have ext: "catalog_extends cat cat'"
    using free i unfolding cat' by (auto simp: catalog_extends_def map_le_def)
  show "catalog_extends cat cat'" by (rule ext)
  show "i = be_block_id e" by (rule i)
  show "om_get (cat_blocks cat') i = Some e" and "cat_version cat' = cat_version cat"
    unfolding cat' i by simp_all
  show "catalog_ok sha cat'"
    using ok val validate_with_catalog_extends [OF ext]
    unfolding catalog_ok_def cat' by (auto simp: om_ok_insert)
qed

lemma insert_bundle_entry_spec:
  assumes ok: "catalog_ok sha cat" and ins: "insert_bundle_entry sha b cat = Ok (cat', i)"
  shows "catalog_ok sha cat'" and "catalog_extends cat cat'" and "i = bu_bundle_id b"
    and "om_get (cat_bundles cat') i = Some b" and "cat_version cat' = cat_version cat"
proof -
  from ins have val: "validate_with_catalog sha b cat = Ok ()" and i: "i = bu_bundle_id b"
    and cat': "cat' = cat \<lparr>cat_bundles := om_insert (bu_bundle_id b) b (cat_bundles cat)\<rparr>"
    and free: "om_get (cat_bundles cat) i = None \<or> om_get (cat_bundles cat) i = Some b"
    by (auto simp: insert_bundle_entry_def split: option.splits if_splits)
  have ext: "catalog_extends cat cat'"
    using free i unfolding cat' by (auto simp: catalog_extends_def map_le_def)
  show "catalog_extends cat cat'" by (rule ext)
  show "i = bu_bundle_id b" by (rule i)
  show "om_get (cat_bundles cat') i = Some b" and "cat_version cat' = cat_version cat"
    unfolding cat' i by simp_all
  show "catalog_ok sha cat'"
    using ok validate_with_catalog_extends [OF ext] val
    unfolding catalog_ok_def cat' by (auto simp: om_ok_insert)
qed

section \<open>Installing a sync payload\<close>

abbreviation install_blocks :: "sha \<Rightarrow> SharedBlockCatalog \<Rightarrow> BlockCatalogEntry list \<Rightarrow> CatalogError + SharedBlockCatalog" where
  "install_blocks sha \<equiv> try_fold (\<lambda>next b. next_state (insert_block_entry sha b next))"

abbreviation install_bundles :: "sha \<Rightarrow> SharedBlockCatalog \<Rightarrow> BundleCatalogEntry list \<Rightarrow> CatalogError + SharedBlockCatalog" where
  "install_bundles sha \<equiv> try_fold (\<lambda>next b. next_state (insert_bundle_entry sha b next))"

lemma install_blocks_spec:
  assumes "install_blocks sha cat bs = Ok cat'" and "catalog_ok sha cat"
  shows "catalog_ok sha cat' \<and> catalog_extends cat cat' \<and> cat_version cat' = cat_version cat
    \<and> (\<forall>b \<in> set bs. om_get (cat_blocks cat') (be_block_id b) = Some b)"
  using assms
proof (induction bs arbitrary: cat)
  case (Cons b bs)
  then obtain mid i where step: "insert_block_entry sha b cat = Ok (mid, i)"
    and rest: "install_blocks sha mid bs = Ok cat'" by auto
  note first = insert_block_entry_spec [OF Cons.prems(2) step]
  note IH = Cons.IH [OF rest first(1)]
  from IH first show ?case
    by (auto intro: catalog_extends_trans extends_block [of mid])
qed simp

lemma install_bundles_spec:
  assumes "install_bundles sha cat bs = Ok cat'" and "catalog_ok sha cat"
  shows "catalog_ok sha cat' \<and> catalog_extends cat cat' \<and> cat_version cat' = cat_version cat
    \<and> (\<forall>b \<in> set bs. om_get (cat_bundles cat') (bu_bundle_id b) = Some b)"
  using assms
proof (induction bs arbitrary: cat)
  case (Cons b bs)
  then obtain mid i where step: "insert_bundle_entry sha b cat = Ok (mid, i)"
    and rest: "install_bundles sha mid bs = Ok cat'" by auto
  note first = insert_bundle_entry_spec [OF Cons.prems(2) step]
  note IH = Cons.IH [OF rest first(1)]
  from IH first show ?case
    by (auto intro: catalog_extends_trans extends_bundle [of mid])
qed simp

lemma catalog_ok_version [simp]: "catalog_ok sha (cat \<lparr>cat_version := v\<rparr>) = catalog_ok sha cat"
  by (simp add: catalog_ok_def validate_with_catalog_def materialize_members_def materialize_block_range_def
      cong: try_map_cong)

lemma catalog_extends_version [simp]: "catalog_extends cat (cat' \<lparr>cat_version := v\<rparr>) = catalog_extends cat cat'"
  by (simp add: catalog_extends_def)

lemma apply_sync_Ok_iff:
  "apply_sync sha p cat = (cat', Ok s) \<longleftrightarrow>
    validate_basic sha p = Ok () \<and> cat_version cat \<le> cs_catalog_version p
    \<and> (\<exists>mid final. install_blocks sha cat (cs_blocks p) = Ok mid \<and> install_bundles sha mid (cs_bundles p) = Ok final
        \<and> cat' = final \<lparr>cat_version := cs_catalog_version p\<rparr>)
    \<and> s = \<lparr>ss_catalog_version = cs_catalog_version p, ss_block_count = length (cs_blocks p),
           ss_bundle_count = length (cs_bundles p),
           ss_exact_block_bytes = sum_list (map (\<lambda>b. length (be_material b)) (cs_blocks p))\<rparr>"
  by (auto simp: apply_sync_def not_less split: sum.splits if_splits)

lemma apply_sync_Err: "apply_sync sha p cat = (cat', Err e) \<Longrightarrow> cat' = cat"
  by (auto simp: apply_sync_def split: sum.splits)

text \<open>C13: installing a sync payload is atomic and only adds: a rejected payload leaves the catalog as it was, an
  accepted one installs every block and bundle it carries, keeps all entries the catalog had, and leaves a
  catalog whose entries are all valid, under a version that has not gone back.\<close>

theorem sync_is_atomic_and_monotone:
  assumes ok: "catalog_ok sha cat" and sync: "apply_sync sha p cat = (cat', r)"
  shows "catalog_ok sha cat' \<and> catalog_extends cat cat' \<and> cat_version cat \<le> cat_version cat'
    \<and> (case r of
        Inl e \<Rightarrow> cat' = cat
      | Inr s \<Rightarrow> cat_version cat' = cs_catalog_version p
          \<and> (\<forall>b \<in> set (cs_blocks p). om_get (cat_blocks cat') (be_block_id b) = Some b)
          \<and> (\<forall>b \<in> set (cs_bundles p). om_get (cat_bundles cat') (bu_bundle_id b) = Some b))"
proof (cases r)
  case (Inl e)
  then have "cat' = cat" using apply_sync_Err sync by blast
  with Inl ok show ?thesis by simp
next
  case (Inr s)
  from sync [unfolded Inr apply_sync_Ok_iff] obtain mid final where newer: "cat_version cat \<le> cs_catalog_version p"
    and blocks: "install_blocks sha cat (cs_blocks p) = Ok mid"
    and bundles: "install_bundles sha mid (cs_bundles p) = Ok final"
    and cat': "cat' = final \<lparr>cat_version := cs_catalog_version p\<rparr>"
    by blast
  note first = install_blocks_spec [OF blocks ok]
  with install_bundles_spec [OF bundles] have second: "catalog_ok sha final" "catalog_extends mid final"
    "\<forall>b \<in> set (cs_bundles p). om_get (cat_bundles final) (bu_bundle_id b) = Some b" by blast+
  show ?thesis
    using first second newer extends_block [OF second(2)] unfolding cat' Inr
    by (auto intro: catalog_extends_trans)
qed

section \<open>Repair\<close>

lemma collect_block_iff:
  "collect_block cat m i = Ok m' \<longleftrightarrow> (\<exists>e. om_get (cat_blocks cat) i = Some e \<and> m' = om_insert i e m)"
  by (auto simp: collect_block_def)

lemma collect_bundle_iff:
  "collect_bundle cat acc i = Ok acc' \<longleftrightarrow>
    (\<exists>b mid. om_get (cat_bundles cat) i = Some b
      \<and> try_fold (collect_block cat) (fst acc) (map bm_block_id (bu_members b)) = Ok mid
      \<and> acc' = (mid, snd acc @ [b]))"
  by (auto simp: collect_bundle_def)

lemma try_fold_collect:
  assumes "try_fold (collect_block cat) m ids = Ok m'" and "om_ok m"
    and "\<And>i e. om_get m i = Some e \<Longrightarrow> om_get (cat_blocks cat) i = Some e"
  shows "om_ok m' \<and> om_get m \<subseteq>\<^sub>m om_get m' \<and> (\<forall>i e. om_get m' i = Some e \<longrightarrow> om_get (cat_blocks cat) i = Some e)
    \<and> (\<forall>i \<in> set ids. om_get m' i \<noteq> None)"
  using assms
proof (induction ids arbitrary: m)
  case (Cons i ids)
  from Cons.prems(1) obtain e where e: "om_get (cat_blocks cat) i = Some e"
    and rest: "try_fold (collect_block cat) (om_insert i e m) ids = Ok m'"
    by (auto simp: collect_block_iff)
  have "om_ok m' \<and> om_get (om_insert i e m) \<subseteq>\<^sub>m om_get m'
      \<and> (\<forall>i e. om_get m' i = Some e \<longrightarrow> om_get (cat_blocks cat) i = Some e) \<and> (\<forall>i \<in> set ids. om_get m' i \<noteq> None)"
    using Cons.prems e by (intro Cons.IH [OF rest]) (auto simp: om_ok_insert split: if_splits)
  moreover have "om_get m \<subseteq>\<^sub>m om_get (om_insert i e m)"
    using Cons.prems(3) e by (fastforce simp: map_le_def)
  ultimately show ?case
    by (auto intro: map_le_trans simp: map_le_def dom_def)
qed simp

definition collected_ok :: "SharedBlockCatalog \<Rightarrow> (BlockId, BlockCatalogEntry) ord_map \<Rightarrow> BundleCatalogEntry list \<Rightarrow> bool" where
  "collected_ok cat m bundles \<longleftrightarrow> om_ok m \<and> (\<forall>i e. om_get m i = Some e \<longrightarrow> om_get (cat_blocks cat) i = Some e)
     \<and> (\<forall>b \<in> set bundles. \<forall>x \<in> set (bu_members b). om_get m (bm_block_id x) \<noteq> None)"

lemma try_fold_collect_bundles:
  assumes "try_fold (collect_bundle cat) (m, bundles) ids = Ok (m', bundles')" and "collected_ok cat m bundles"
  shows "collected_ok cat m' bundles' \<and> om_get m \<subseteq>\<^sub>m om_get m'
    \<and> (\<exists>new. bundles' = bundles @ new \<and> list_all2 (\<lambda>i b. om_get (cat_bundles cat) i = Some b) ids new)"
  using assms
proof (induction ids arbitrary: m bundles)
  case (Cons i ids)
  from Cons.prems(1) obtain b mid where b: "om_get (cat_bundles cat) i = Some b"
    and mid: "try_fold (collect_block cat) m (map bm_block_id (bu_members b)) = Ok mid"
    and rest: "try_fold (collect_bundle cat) (mid, bundles @ [b]) ids = Ok (m', bundles')"
    by (auto simp: collect_bundle_iff)
  have step: "om_ok mid \<and> om_get m \<subseteq>\<^sub>m om_get mid \<and> (\<forall>i e. om_get mid i = Some e \<longrightarrow> om_get (cat_blocks cat) i = Some e)
    \<and> (\<forall>i \<in> set (map bm_block_id (bu_members b)). om_get mid i \<noteq> None)"
    using Cons.prems(2) by (intro try_fold_collect [OF mid]) (auto simp: collected_ok_def)
  then have "om_get mid i \<noteq> None" if "om_get m i \<noteq> None" for i
    using that by (auto simp: map_le_def dom_def)
  then have "collected_ok cat mid (bundles @ [b])"
    using step Cons.prems(2) by (auto simp: collected_ok_def)
  from Cons.IH [OF rest this] obtain new where "collected_ok cat m' bundles'" "om_get mid \<subseteq>\<^sub>m om_get m'"
    "bundles' = (bundles @ [b]) @ new" "list_all2 (\<lambda>i b. om_get (cat_bundles cat) i = Some b) ids new"
    by blast
  then show ?case
    using b step map_le_trans by (intro conjI exI [of _ "b # new"]) auto
qed simp

lemma sync_payload_spec:
  assumes "sync_payload cat v block_ids bundle_ids = Ok p"
  obtains m bundles where "p = sync_payload_new v (map snd m) bundles" and "collected_ok cat m bundles"
    and "list_all2 (\<lambda>i b. om_get (cat_bundles cat) i = Some b) bundle_ids bundles"
    and "\<forall>i \<in> set block_ids. om_get m i \<noteq> None"
proof -
  from assms obtain m0 m bundles where m0: "try_fold (collect_block cat) [] block_ids = Ok m0"
    and m: "try_fold (collect_bundle cat) (m0, []) bundle_ids = Ok (m, bundles)"
    and p: "p = sync_payload_new v (map snd m) bundles"
    by (auto simp: sync_payload_def)
  have first: "om_ok m0 \<and> om_get ([] :: (BlockId, BlockCatalogEntry) ord_map) \<subseteq>\<^sub>m om_get m0
    \<and> (\<forall>i e. om_get m0 i = Some e \<longrightarrow> om_get (cat_blocks cat) i = Some e) \<and> (\<forall>i \<in> set block_ids. om_get m0 i \<noteq> None)"
    by (rule try_fold_collect [OF m0]) simp_all
  then have "collected_ok cat m0 []" by (simp add: collected_ok_def)
  from try_fold_collect_bundles [OF m this] first have "collected_ok cat m bundles" "om_get m0 \<subseteq>\<^sub>m om_get m"
    "list_all2 (\<lambda>i b. om_get (cat_bundles cat) i = Some b) bundle_ids bundles" by auto
  moreover from this(2) first have "\<forall>i \<in> set block_ids. om_get m i \<noteq> None"
    by (auto simp: map_le_def dom_def)
  ultimately show ?thesis using that p by blast
qed

lemma ensure_unique_iff: "ensure_unique f seen ids = Ok () \<longleftrightarrow> distinct ids \<and> set ids \<inter> seen = {}"
  by (induction ids arbitrary: seen) auto

lemma check_sync_blocks_iff:
  "check_sync_blocks sha seen bs = Ok () \<longleftrightarrow>
    (\<forall>b \<in> set bs. block_validate sha b = Ok ()) \<and> distinct (map be_block_id bs) \<and> be_block_id ` set bs \<inter> seen = {}"
  by (induction bs arbitrary: seen) auto

lemma install_blocks_complete:
  assumes "\<forall>b \<in> set bs. block_validate sha b = Ok ()" and "distinct (map be_block_id bs)"
    and "\<forall>b \<in> set bs. om_get (cat_blocks cat) (be_block_id b) \<in> {None, Some b}"
  shows "\<exists>cat'. install_blocks sha cat bs = Ok cat' \<and> cat_bundles cat' = cat_bundles cat"
  using assms
proof (induction bs arbitrary: cat)
  case (Cons b bs)
  have other: "be_block_id x \<noteq> be_block_id b" if "x \<in> set bs" for x
    using that Cons.prems(2) by (metis distinct.simps(2) image_eqI list.set_map list.simps(9))
  let ?mid = "cat \<lparr>cat_blocks := om_insert (be_block_id b) b (cat_blocks cat)\<rparr>"
  have "insert_block_entry sha b cat = Ok (?mid, be_block_id b)"
    using Cons.prems by (auto simp: insert_block_entry_def)
  moreover have "\<exists>cat'. install_blocks sha ?mid bs = Ok cat' \<and> cat_bundles cat' = cat_bundles ?mid"
  proof (rule Cons.IH)
    show "\<forall>x \<in> set bs. om_get (cat_blocks ?mid) (be_block_id x) \<in> {None, Some x}"
      using Cons.prems(3) other by simp
  qed (use Cons.prems in simp_all)
  ultimately show ?case by auto
qed simp

lemma install_bundles_complete:
  assumes "\<forall>b \<in> set bs. validate_with_catalog sha b cat = Ok ()" and "distinct (map bu_bundle_id bs)"
    and "\<forall>b \<in> set bs. om_get (cat_bundles cat) (bu_bundle_id b) \<in> {None, Some b}"
  shows "\<exists>cat'. install_bundles sha cat bs = Ok cat' \<and> cat_blocks cat' = cat_blocks cat"
  using assms
proof (induction bs arbitrary: cat)
  case (Cons b bs)
  have other: "bu_bundle_id x \<noteq> bu_bundle_id b" if "x \<in> set bs" for x
    using that Cons.prems(2) by (metis distinct.simps(2) image_eqI list.set_map list.simps(9))
  let ?mid = "cat \<lparr>cat_bundles := om_insert (bu_bundle_id b) b (cat_bundles cat)\<rparr>"
  have "insert_bundle_entry sha b cat = Ok (?mid, bu_bundle_id b)"
    using Cons.prems by (auto simp: insert_bundle_entry_def)
  moreover have same: "validate_with_catalog sha x ?mid = validate_with_catalog sha x cat" for x
    by (simp add: validate_with_catalog_def materialize_members_def materialize_block_range_def cong: try_map_cong)
  have "\<exists>cat'. install_bundles sha ?mid bs = Ok cat' \<and> cat_blocks cat' = cat_blocks ?mid"
  proof (rule Cons.IH)
    show "\<forall>x \<in> set bs. om_get (cat_bundles ?mid) (bu_bundle_id x) \<in> {None, Some x}"
      using Cons.prems(3) other by simp
  qed (use Cons.prems same in simp_all)
  ultimately show ?case by auto
qed simp

lemma materialize_members_cong:
  assumes "\<forall>x \<in> set ms. om_get (cat_blocks cat') (bm_block_id x) = om_get (cat_blocks cat) (bm_block_id x)"
  shows "materialize_members cat' ms = materialize_members cat ms"
  unfolding materialize_members_def
  by (subst try_map_cong [of ms _ "\<lambda>m. materialize_block_range cat (bm_block_id m) (bm_start m) (bm_len m)"])
     (use assms in \<open>simp_all add: materialize_block_range_def\<close>)

text \<open>Two catalogs that never put different entries under one id.\<close>

definition catalogs_agree :: "SharedBlockCatalog \<Rightarrow> SharedBlockCatalog \<Rightarrow> bool" where
  "catalogs_agree a b \<longleftrightarrow>
     (\<forall>i x y. om_get (cat_blocks a) i = Some x \<longrightarrow> om_get (cat_blocks b) i = Some y \<longrightarrow> x = y)
     \<and> (\<forall>i x y. om_get (cat_bundles a) i = Some x \<longrightarrow> om_get (cat_bundles b) i = Some y \<longrightarrow> x = y)"

lemma catalogs_agree_block:
  "catalogs_agree a b \<Longrightarrow> om_get (cat_blocks a) i = Some x \<Longrightarrow> om_get (cat_blocks b) i \<in> {None, Some x}"
  unfolding catalogs_agree_def by (cases "om_get (cat_blocks b) i") (simp, blast)

lemma catalogs_agree_bundle:
  "catalogs_agree a b \<Longrightarrow> om_get (cat_bundles a) i = Some x \<Longrightarrow> om_get (cat_bundles b) i \<in> {None, Some x}"
  unfolding catalogs_agree_def by (cases "om_get (cat_bundles b) i") (simp, blast)

text \<open>What a peer whose catalog is well formed puts into a sync payload.\<close>

lemma sync_payload_of_ok:
  assumes peer: "catalog_ok sha peer" and payload: "sync_payload peer v block_ids bundle_ids = Ok sync"
  obtains m bundles where "sync = sync_payload_new v (map snd m) bundles" and "collected_ok peer m bundles"
    and "\<forall>i \<in> set block_ids. om_get m i \<noteq> None"
    and "map bu_bundle_id bundles = bundle_ids"
    and "\<forall>b \<in> set bundles. om_get (cat_bundles peer) (bu_bundle_id b) = Some b"
    and "\<forall>(i, e) \<in> set m. be_block_id e = i \<and> om_get (cat_blocks peer) i = Some e \<and> block_validate sha e = Ok ()"
    and "distinct (map be_block_id (map snd m))"
proof -
  from payload obtain m bundles where sync: "sync = sync_payload_new v (map snd m) bundles"
    and col: "collected_ok peer m bundles"
    and bundles: "list_all2 (\<lambda>i b. om_get (cat_bundles peer) i = Some b) bundle_ids bundles"
    and blocks: "\<forall>i \<in> set block_ids. om_get m i \<noteq> None"
    by (rule sync_payload_spec)
  have ids: "map bu_bundle_id bundles = bundle_ids \<and> (\<forall>b \<in> set bundles. om_get (cat_bundles peer) (bu_bundle_id b) = Some b)"
    using bundles catalog_ok_bundle(1) [OF peer] by (induction rule: list_all2_induct) auto
  have entry: "be_block_id e = i \<and> om_get (cat_blocks peer) i = Some e \<and> block_validate sha e = Ok ()"
    if "(i, e) \<in> set m" for i e
  proof -
    from that col have "om_get m i = Some e"
      using om_distinct [of m] by (auto simp: collected_ok_def om_get_def om_keys_def)
    with col have "om_get (cat_blocks peer) i = Some e" by (simp add: collected_ok_def)
    with catalog_ok_block [OF peer this] show ?thesis by simp
  qed
  then have "map be_block_id (map snd m) = om_keys m" by (auto simp: om_keys_def)
  then have "distinct (map be_block_id (map snd m))"
    using col om_distinct [of m] by (simp add: collected_ok_def)
  with that sync col blocks ids entry show ?thesis by blast
qed

text \<open>Such a payload is valid and installs into every catalog that agrees with the peer.\<close>

lemma sync_payload_installs:
  assumes ok: "catalog_ok sha cat" and agree: "catalogs_agree peer cat" and peer: "catalog_ok sha peer"
    and col: "collected_ok peer m bundles"
    and bundles: "\<forall>b \<in> set bundles. om_get (cat_bundles peer) (bu_bundle_id b) = Some b"
    and entries: "\<forall>(i, e) \<in> set m. be_block_id e = i \<and> om_get (cat_blocks peer) i = Some e \<and> block_validate sha e = Ok ()"
    and distinct: "distinct (map be_block_id (map snd m))" "distinct (map bu_bundle_id bundles)"
  obtains mid final where "install_blocks sha cat (map snd m) = Ok mid" and "install_bundles sha mid bundles = Ok final"
    and "\<forall>i. om_get m i \<noteq> None \<longrightarrow> om_get (cat_blocks final) i = om_get (cat_blocks peer) i"
    and "\<forall>b \<in> set bundles. om_get (cat_bundles final) (bu_bundle_id b) = Some b"
proof -
  have "\<exists>mid. install_blocks sha cat (map snd m) = Ok mid \<and> cat_bundles mid = cat_bundles cat"
  proof (rule install_blocks_complete [OF _ distinct(1)])
    show "\<forall>b \<in> set (map snd m). om_get (cat_blocks cat) (be_block_id b) \<in> {None, Some b}"
      using entries catalogs_agree_block [OF agree] by fastforce
  qed (use entries in auto)
  then obtain mid where mid: "install_blocks sha cat (map snd m) = Ok mid" "cat_bundles mid = cat_bundles cat"
    by blast
  note mid_spec = install_blocks_spec [OF mid(1) ok]
  have in_mid: "om_get (cat_blocks mid) i = om_get (cat_blocks peer) i" if "om_get m i \<noteq> None" for i
  proof -
    from that obtain e where "(i, e) \<in> set m" by (auto simp: om_get_def dest: map_of_SomeD)
    with entries mid_spec show ?thesis by fastforce
  qed
  have valid: "validate_with_catalog sha b mid = Ok ()" if "b \<in> set bundles" for b
  proof -
    have "materialize_members mid (bu_members b) = materialize_members peer (bu_members b)"
      using col that in_mid by (intro materialize_members_cong) (auto simp: collected_ok_def)
    moreover have "validate_with_catalog sha b peer = Ok ()"
      using catalog_ok_bundle(2) [OF peer] bundles that by blast
    ultimately show ?thesis by (simp add: validate_with_catalog_iff)
  qed
  have "\<exists>final. install_bundles sha mid bundles = Ok final \<and> cat_blocks final = cat_blocks mid"
  proof (rule install_bundles_complete [OF _ distinct(2)])
    show "\<forall>b \<in> set bundles. om_get (cat_bundles mid) (bu_bundle_id b) \<in> {None, Some b}"
      using bundles catalogs_agree_bundle [OF agree] mid(2) by simp
  qed (use valid in simp)
  then obtain final where "install_bundles sha mid bundles = Ok final" "cat_blocks final = cat_blocks mid"
    by blast
  with that mid(1) in_mid install_bundles_spec [OF this(1)] mid_spec show ?thesis by simp
qed

text \<open>C14: a repair restores what was missing: the payload that a peer builds for a repair request is accepted by
  a catalog under three conditions: no entry of it differs from the peer's entry with the same id, the payload is
  within the limits of a synchronization (4096 blocks, 1024 bundles), and its version is not older than the
  catalog's.  Afterwards every requested block is the peer's block and every requested bundle materializes to the
  peer's bytes.\<close>

theorem repair_restores_materials:
  assumes peer: "catalog_ok sha peer" and ok: "catalog_ok sha cat" and agree: "catalogs_agree peer cat"
    and response: "repair_response peer request v = Ok (RepairResp pv sync)"
    and limits: "length (cs_blocks sync) \<le> MAX_CATALOG_SYNC_BLOCKS" "length (cs_bundles sync) \<le> MAX_CATALOG_SYNC_BUNDLES"
    and newer: "cat_version cat \<le> v"
  shows "\<exists>cat' s. apply_sync sha sync cat = (cat', Ok s)
    \<and> (\<forall>i \<in> set (rq_missing_blocks request).
          om_get (cat_blocks cat') i = om_get (cat_blocks peer) i \<and> om_get (cat_blocks peer) i \<noteq> None)
    \<and> (\<forall>i \<in> set (rq_missing_bundles request).
          \<exists>m. materialize_bundle sha peer i = Ok m \<and> materialize_bundle sha cat' i = Ok m)"
proof -
  from response have val: "request_validate request = Ok ()"
    and payload: "sync_payload peer v (rq_missing_blocks request) (rq_missing_bundles request) = Ok sync"
    by (auto simp: repair_response_def)
  from payload obtain m bundles where sync: "sync = sync_payload_new v (map snd m) bundles"
    and col: "collected_ok peer m bundles"
    and blocks: "\<forall>i \<in> set (rq_missing_blocks request). om_get m i \<noteq> None"
    and ids: "map bu_bundle_id bundles = rq_missing_bundles request"
    and bundles: "\<forall>b \<in> set bundles. om_get (cat_bundles peer) (bu_bundle_id b) = Some b"
    and entries: "\<forall>(i, e) \<in> set m. be_block_id e = i \<and> om_get (cat_blocks peer) i = Some e \<and> block_validate sha e = Ok ()"
    and distinct: "distinct (map be_block_id (map snd m))"
    by (rule sync_payload_of_ok [OF peer])
  have distinct': "distinct (map bu_bundle_id bundles)"
    using val ids by (simp add: request_validate_def ensure_unique_bundles_def ensure_unique_iff)
  obtain mid final where install: "install_blocks sha cat (map snd m) = Ok mid" "install_bundles sha mid bundles = Ok final"
    and same: "\<forall>i. om_get m i \<noteq> None \<longrightarrow> om_get (cat_blocks final) i = om_get (cat_blocks peer) i"
      "\<forall>b \<in> set bundles. om_get (cat_bundles final) (bu_bundle_id b) = Some b"
    by (rule sync_payload_installs [OF ok agree peer col bundles entries distinct distinct'])
  have "validate_basic sha sync = Ok ()"
    using limits distinct distinct' entries unfolding sync
    by (auto simp: validate_basic_def sync_payload_new_def check_sync_blocks_iff ensure_unique_bundles_def
        ensure_unique_iff)
  with install newer have applied: "\<exists>s. apply_sync sha sync cat = (final \<lparr>cat_version := v\<rparr>, Ok s)"
    unfolding sync apply_sync_Ok_iff by (simp add: sync_payload_new_def)
  have "\<exists>m. materialize_bundle sha peer i = Ok m \<and> materialize_bundle sha (final \<lparr>cat_version := v\<rparr>) i = Ok m"
    if "i \<in> set (rq_missing_bundles request)" for i
  proof -
    from that obtain b where b: "b \<in> set bundles" "i = bu_bundle_id b" unfolding ids [symmetric] by auto
    have "materialize_members (final \<lparr>cat_version := v\<rparr>) (bu_members b) = materialize_members peer (bu_members b)"
      using col b(1) same(1) by (intro materialize_members_cong) (auto simp: collected_ok_def)
    then have "materialize_bundle sha (final \<lparr>cat_version := v\<rparr>) i = materialize_bundle sha peer i"
      using same(2) bundles b by (simp add: materialize_bundle_def)
    with catalog_ok_bundle(3) [OF peer] bundles b show ?thesis by metis
  qed
  moreover have "om_get (cat_blocks final) i = om_get (cat_blocks peer) i \<and> om_get (cat_blocks peer) i \<noteq> None"
    if "i \<in> set (rq_missing_blocks request)" for i
    using that blocks same(1) col by (auto simp: collected_ok_def)
  ultimately show ?thesis using applied by fastforce
qed

section \<open>A sample catalog\<close>

definition toy_sha :: sha where
  "toy_sha bs = [sum_list bs, of_nat (length bs), 0, 0, 0, 0, 0, 0]"

definition sample_block :: BlockCatalogEntry where
  "sample_block = \<lparr>be_block_id = 6005, be_source_kind = Text, be_byte_len = 3,
     be_content_hash = [6, 3, 0, 0, 0, 0, 0, 0], be_material = [1, 2, 3]\<rparr>"

definition sample_bundle :: BundleCatalogEntry where
  "sample_bundle = \<lparr>bu_bundle_id = 10096, bu_members = [\<lparr>bm_block_id = 6005, bm_start = 1, bm_len = 2\<rparr>],
     bu_byte_len = 2, bu_content_hash = [5, 2, 0, 0, 0, 0, 0, 0]\<rparr>"

definition sample_catalog :: SharedBlockCatalog where
  "sample_catalog = \<lparr>cat_version = 1, cat_blocks = [(6005, sample_block)], cat_bundles = [(10096, sample_bundle)]\<rparr>"

lemma sample_block_valid: "block_validate toy_sha sample_block = Ok ()"
  by code_simp

lemma sample_bundle_valid: "validate_with_catalog toy_sha sample_bundle sample_catalog = Ok ()"
  by code_simp

lemma sample_catalog_ok: "catalog_ok toy_sha sample_catalog"
  using sample_block_valid sample_bundle_valid
  by (auto simp: catalog_ok_def sample_catalog_def om_ok_def om_get_def sample_block_def sample_bundle_def
      split: if_splits)

lemma sample_repair:
  "repair_response sample_catalog (request_missing_basis 0 [] [10096]) 1 =
    Ok (RepairResp 1 (sync_payload_new 1 [sample_block] [sample_bundle]))"
  by code_simp

lemma sample_sync:
  "apply_sync toy_sha (sync_payload_new 1 [sample_block] [sample_bundle]) catalog_default =
    (sample_catalog, Ok \<lparr>ss_catalog_version = 1, ss_block_count = 1, ss_bundle_count = 1, ss_exact_block_bytes = 3\<rparr>)"
  by code_simp

lemma sync_is_atomic_and_monotone_witness:
  "catalog_ok toy_sha sample_catalog \<and> om_get (cat_bundles sample_catalog) 10096 = Some sample_bundle"
proof -
  have "om_get (cat_bundles sample_catalog) (bu_bundle_id sample_bundle) = Some sample_bundle"
    using sync_is_atomic_and_monotone [OF catalog_default_ok sample_sync] by (simp add: sync_payload_new_def)
  moreover have "catalog_ok toy_sha sample_catalog"
    using sync_is_atomic_and_monotone [OF catalog_default_ok sample_sync] by blast
  ultimately show ?thesis by (simp add: sample_bundle_def)
qed

lemma repair_restores_materials_witness:
  "\<exists>cat' s m. apply_sync toy_sha (sync_payload_new 1 [sample_block] [sample_bundle]) catalog_default = (cat', Ok s)
    \<and> materialize_bundle toy_sha sample_catalog 10096 = Ok m \<and> materialize_bundle toy_sha cat' 10096 = Ok m"
proof -
  have "catalogs_agree sample_catalog catalog_default"
    by (simp add: catalogs_agree_def catalog_default_def)
  from repair_restores_materials [OF sample_catalog_ok catalog_default_ok this sample_repair] show ?thesis
    by (force simp: sync_payload_new_def request_missing_basis_def catalog_default_def
        MAX_CATALOG_SYNC_BLOCKS_def MAX_CATALOG_SYNC_BUNDLES_def)
qed
section \<open>The catalog as a store of material\<close>

text \<open>The lookup that the decoder of state programs is given: blocks by id, bundles materialized.\<close>

definition catalog_resolve :: "sha \<Rightarrow> SharedBlockCatalog \<Rightarrow> RefKind \<Rightarrow> u64 \<Rightarrow> bytes option" where
  "catalog_resolve sha cat kind i =
     (case kind of
        RK_Bundle \<Rightarrow> (case materialize_bundle sha cat i of Inr m \<Rightarrow> Some m | Inl _ \<Rightarrow> None)
      | RK_PriorState \<Rightarrow> None
      | _ \<Rightarrow> map_option be_material (om_get (cat_blocks cat) i))"

lemma catalog_block_material:
  assumes "catalog_ok sha cat" and "om_get (cat_blocks cat) i = Some e"
  shows "length (be_material e) = unat (be_byte_len e)" and "length (be_material e) < 2 ^ 32"
proof -
  show len: "length (be_material e) = unat (be_byte_len e)"
    using catalog_ok_block(2) [OF assms] by (simp add: block_validate_iff)
  show "length (be_material e) < 2 ^ 32"
    unfolding len using unsigned_less [of "be_byte_len e", where 'a = nat] by simp
qed

lemma materialize_bundle_small:
  assumes "materialize_bundle sha cat i = Ok m"
  shows "length m < 2 ^ 32"
proof -
  from assms obtain b where "om_get (cat_bundles cat) i = Some b" and "length m = unat (bu_byte_len b)"
    by (auto simp: materialize_bundle_def split: if_splits)
  then show ?thesis using unsigned_less [of "bu_byte_len b", where 'a = nat] by simp
qed

interpretation catalog_store: material_store "catalog_ok sha" catalog_extends "catalog_resolve sha" for sha
proof
  fix s k i m
  assume "catalog_ok sha s" and "catalog_resolve sha s k i = Some m"
  then show "length m < 2 ^ 32"
    by (cases k) (auto simp: catalog_resolve_def dest: catalog_block_material(2) materialize_bundle_small
        split: sum.splits)
next
  fix s s' k i m
  assume "catalog_extends s s'" and "catalog_resolve sha s k i = Some m"
  then show "catalog_resolve sha s' k i = Some m"
    by (cases k) (auto simp: catalog_resolve_def dest: extends_block materialize_bundle_extends split: sum.splits)
qed

end
