(* ===== verification/Pulzz_State_Choice.thy ===== *)
theory Pulzz_State_Choice
  imports Pulzz_Catalog
begin

text \<open>
  Choosing a state program for a payload (\<open>shared_protocol/src/state_policy.rs\<close>): the sender looks for the
  payload in its copy of the peer's catalog, as a bundle, a block, a concatenation of prefixes, or a
  window that is patched at both ends, and sends the program when it is shorter than the bytes.
\<close>

section \<open>Types\<close>

definition TINY_STATE_PAYLOAD_BYTES :: nat where "TINY_STATE_PAYLOAD_BYTES = 16"
definition MAX_COMPOSITE_STATE_REFS :: nat where "MAX_COMPOSITE_STATE_REFS = 8"
definition MAX_COMPOSITE_CANDIDATES_PER_STEP :: nat where "MAX_COMPOSITE_CANDIDATES_PER_STEP = 8"
definition MIN_COMPOSITE_COMPONENT_BYTES :: nat where "MIN_COMPOSITE_COMPONENT_BYTES = 8"
definition MIN_RANGE_REUSE_BYTES :: nat where "MIN_RANGE_REUSE_BYTES = 12"
definition MAX_SUFFIX_RESIDUAL_BYTES :: nat where "MAX_SUFFIX_RESIDUAL_BYTES = 48"
definition MAX_PATCH_RESIDUAL_BYTES :: nat where "MAX_PATCH_RESIDUAL_BYTES = 96"

lemmas choice_limits =
  TINY_STATE_PAYLOAD_BYTES_def MAX_COMPOSITE_STATE_REFS_def MAX_COMPOSITE_CANDIDATES_PER_STEP_def
  MIN_COMPOSITE_COMPONENT_BYTES_def MIN_RANGE_REUSE_BYTES_def MAX_SUFFIX_RESIDUAL_BYTES_def
  MAX_PATCH_RESIDUAL_BYTES_def

datatype SkipCompressionReason =
    ControlOrCoordinationRecord | SkipCatalogSync | SkipRepair | TinyPayload
  | StateDescriptionNotCheaper | HighNovelty | UncertainBasis

datatype StateBasis =
    BasisBlock BlockId
  | BasisBundle BundleId
  | BasisRange BlockId u32 u32
  | BasisComposite u16 u16

datatype TransportRepresentationDecision =
    TR_State StateProgram nat StateBasis
  | TR_ExactCopy SkipCompressionReason

fun skips_compression :: "TransportRepresentationDecision \<Rightarrow> SkipCompressionReason option" where
  "skips_compression (TR_State _ _ _) = None"
| "skips_compression (TR_ExactCopy reason) = Some reason"

record StateCandidate =
  sc_program :: StateProgram
  sc_description_bytes :: nat
  sc_basis :: StateBasis

record CompositeRefs =
  co_refs :: "StateRef list"
  co_covered_len :: nat

definition ref_count_u16 :: "CompositeRefs \<Rightarrow> u16" where
  "ref_count_u16 c = of_nat (min (length (co_refs c)) (2 ^ 16 - 1))"

record WindowMatchCandidate =
  wc_state_ref :: StateRef
  wc_payload_start :: nat
  wc_matched_len :: nat
  wc_total_payload_len :: nat

record WindowMatch =
  wm_payload_start :: nat
  wm_base_start :: u32
  wm_matched_len :: nat

section \<open>Records that are never compressed\<close>

fun should_skip_compression_for_coordination :: "RecordType \<Rightarrow> SkipCompressionReason option" where
  "should_skip_compression_for_coordination Repair = Some SkipRepair"
| "should_skip_compression_for_coordination ExactState = None"
| "should_skip_compression_for_coordination BatchEnvelope = None"
| "should_skip_compression_for_coordination _ = Some ControlOrCoordinationRecord"

section \<open>Covering a payload by prefixes\<close>

definition estimated_refs_bytes :: "StateRef list \<Rightarrow> nat" where
  "estimated_refs_bytes refs =
     sum_list (map (\<lambda>r. let indices_bytes = length (sr_indices r) * 4 in 1 + 8 + 4 + 4 + 2 + 4 + indices_bytes) refs)"

definition better_prefix_solution :: "CompositeRefs option \<Rightarrow> CompositeRefs \<Rightarrow> nat \<Rightarrow> nat \<Rightarrow> bool" where
  "better_prefix_solution current candidate allowed_trailing_residual payload_len =
     (case current of
        None \<Rightarrow> True
      | Some current \<Rightarrow>
          let current_residual = payload_len - co_covered_len current;
              candidate_residual = payload_len - co_covered_len candidate in
          if co_covered_len candidate \<noteq> co_covered_len current
          then co_covered_len candidate > co_covered_len current
          else if allowed_trailing_residual > 0 \<and> candidate_residual \<noteq> current_residual
          then candidate_residual < current_residual
          else if length (co_refs candidate) \<noteq> length (co_refs current)
          then length (co_refs candidate) < length (co_refs current)
          else estimated_refs_bytes (co_refs candidate) < estimated_refs_bytes (co_refs current))"

fun prefix_candidate_ref :: "CatalogPrefixCandidate \<Rightarrow> StateRef \<times> nat" where
  "prefix_candidate_ref (PrefixBlock block_id byte_len) = (ref_catalog_block block_id 0 byte_len, unat byte_len)"
| "prefix_candidate_ref (PrefixBundle bundle_id byte_len) = (ref_bundle bundle_id 0 byte_len, unat byte_len)"

function search_prefix_refs ::
  "sha \<Rightarrow> bytes \<Rightarrow> SharedBlockCatalog \<Rightarrow> nat \<Rightarrow> nat \<Rightarrow> nat \<Rightarrow> StateRef list \<Rightarrow> CompositeRefs option
     \<Rightarrow> CompositeRefs option"
where
  "search_prefix_refs sha payload cat covered_len max_refs allowed stack best =
     (let candidate = \<lparr>co_refs = stack, co_covered_len = covered_len\<rparr>;
          best = (if length payload - covered_len \<le> allowed
                     \<and> better_prefix_solution best candidate allowed (length payload)
                  then Some candidate else best) in
      if covered_len \<ge> length payload \<or> length stack \<ge> max_refs then best
      else fold (\<lambda>candidate best.
             let (state_ref, advance) = prefix_candidate_ref candidate in
             if advance = 0 then best
             else search_prefix_refs sha payload cat (covered_len + advance) max_refs allowed (stack @ [state_ref]) best)
           (prefix_candidates sha cat (drop covered_len payload) MIN_COMPOSITE_COMPONENT_BYTES
             MAX_COMPOSITE_CANDIDATES_PER_STEP) best)"
  by pat_completeness auto

termination
  by (relation "measure (\<lambda>(sha, payload, cat, covered_len, max_refs, allowed, stack, best). max_refs - length stack)") auto

declare search_prefix_refs.simps [simp del]

definition best_prefix_refs :: "sha \<Rightarrow> bytes \<Rightarrow> SharedBlockCatalog \<Rightarrow> nat \<Rightarrow> nat \<Rightarrow> CompositeRefs option" where
  "best_prefix_refs sha payload cat max_refs allowed = search_prefix_refs sha payload cat 0 max_refs allowed [] None"

section \<open>The longest common window\<close>

definition common_prefix_len :: "bytes \<Rightarrow> bytes \<Rightarrow> nat" where
  "common_prefix_len left right = length (takeWhile (\<lambda>(a, b). a = b) (zip left right))"

definition better_window_match_raw :: "WindowMatch \<Rightarrow> WindowMatch \<Rightarrow> bool" where
  "better_window_match_raw candidate current =
     (if wm_matched_len candidate \<noteq> wm_matched_len current
      then wm_matched_len candidate > wm_matched_len current
      else if wm_payload_start candidate \<noteq> wm_payload_start current
      then wm_payload_start candidate < wm_payload_start current
      else wm_base_start candidate < wm_base_start current)"

definition try_window :: "bytes \<Rightarrow> bytes \<Rightarrow> nat \<Rightarrow> nat \<Rightarrow> WindowMatch option \<Rightarrow> WindowMatch option" where
  "try_window payload base payload_start base_start best =
     (let match_len = common_prefix_len (drop payload_start payload) (drop base_start base) in
      if match_len < MIN_RANGE_REUSE_BYTES then best
      else let candidate = \<lparr>wm_payload_start = payload_start, wm_base_start = of_nat base_start,
                            wm_matched_len = match_len\<rparr> in
        case best of
          Some current \<Rightarrow> if \<not> better_window_match_raw candidate current then best else Some candidate
        | None \<Rightarrow> Some candidate)"

definition window_row :: "bytes \<Rightarrow> bytes \<Rightarrow> nat \<Rightarrow> WindowMatch option \<Rightarrow> WindowMatch option" where
  "window_row payload base payload_start best =
     (let max_candidate_len = length payload - payload_start;
          row = fold (try_window payload base payload_start) [0..<length base] best in
      case best of
        Some current_best \<Rightarrow> if max_candidate_len \<le> wm_matched_len current_best then best else row
      | None \<Rightarrow> row)"

definition find_best_window_in_base :: "bytes \<Rightarrow> bytes \<Rightarrow> WindowMatch option" where
  "find_best_window_in_base payload base =
     (if payload = [] \<or> base = [] then None
      else fold (window_row payload base) [0..<length payload] None)"

definition residual_bytes_for_match :: "WindowMatchCandidate \<Rightarrow> nat" where
  "residual_bytes_for_match c = wc_total_payload_len c - wc_matched_len c"

definition better_window_match :: "WindowMatchCandidate \<Rightarrow> WindowMatchCandidate \<Rightarrow> bool" where
  "better_window_match candidate current =
     (if wc_matched_len candidate \<noteq> wc_matched_len current
      then wc_matched_len candidate > wc_matched_len current
      else if residual_bytes_for_match candidate \<noteq> residual_bytes_for_match current
      then residual_bytes_for_match candidate < residual_bytes_for_match current
      else if wc_payload_start candidate \<noteq> wc_payload_start current
      then wc_payload_start candidate < wc_payload_start current
      else
        let candidate_ref_cost = estimated_refs_bytes [wc_state_ref candidate];
            current_ref_cost = estimated_refs_bytes [wc_state_ref current] in
        if candidate_ref_cost \<noteq> current_ref_cost then candidate_ref_cost < current_ref_cost else False)"

fun consider_window_match ::
  "WindowMatchCandidate option \<Rightarrow> WindowMatchCandidate option \<Rightarrow> WindowMatchCandidate option"
where
  "consider_window_match best None = best"
| "consider_window_match None (Some candidate) = Some candidate"
| "consider_window_match (Some current) (Some candidate) =
     (if \<not> better_window_match candidate current then Some current else Some candidate)"

definition block_window :: "bytes \<Rightarrow> BlockCatalogEntry \<Rightarrow> WindowMatchCandidate option" where
  "block_window payload block =
     map_option (\<lambda>w. \<lparr>wc_state_ref = ref_range (be_block_id block) (wm_base_start w) (of_nat (wm_matched_len w)),
                      wc_payload_start = wm_payload_start w, wc_matched_len = wm_matched_len w,
                      wc_total_payload_len = length payload\<rparr>)
       (find_best_window_in_base payload (be_material block))"

definition bundle_window :: "bytes \<Rightarrow> BundleId \<Rightarrow> bytes \<Rightarrow> WindowMatchCandidate option" where
  "bundle_window payload bundle_id material =
     map_option (\<lambda>w. \<lparr>wc_state_ref = ref_bundle bundle_id (wm_base_start w) (of_nat (wm_matched_len w)),
                      wc_payload_start = wm_payload_start w, wc_matched_len = wm_matched_len w,
                      wc_total_payload_len = length payload\<rparr>)
       (find_best_window_in_base payload material)"

text \<open>A bundle that does not materialize ends the search without a match: \<open>.ok()?\<close> returns from the function.\<close>

definition bundle_step ::
  "sha \<Rightarrow> bytes \<Rightarrow> SharedBlockCatalog \<Rightarrow> WindowMatchCandidate option \<Rightarrow> BundleCatalogEntry
     \<Rightarrow> unit + WindowMatchCandidate option"
where
  "bundle_step sha payload cat best bundle =
     (case materialize_bundle sha cat (bu_bundle_id bundle) of
        Inl _ \<Rightarrow> Err ()
      | Inr material \<Rightarrow> Ok (consider_window_match best (bundle_window payload (bu_bundle_id bundle) material)))"

definition best_window_match :: "sha \<Rightarrow> bytes \<Rightarrow> SharedBlockCatalog \<Rightarrow> WindowMatchCandidate option" where
  "best_window_match sha payload cat =
     (let best = fold (\<lambda>block best. consider_window_match best (block_window payload block))
                   (map snd (cat_blocks cat)) None in
      case try_fold (bundle_step sha payload cat) best (map snd (cat_bundles cat)) of
        Inl _ \<Rightarrow> None
      | Inr best \<Rightarrow> best)"

section \<open>The candidates\<close>

definition encoded_candidate :: "StateProgram \<Rightarrow> StateBasis \<Rightarrow> StateCandidate option" where
  "encoded_candidate program basis =
     (case program_encode program of
        Inl _ \<Rightarrow> None
      | Inr bs \<Rightarrow> Some \<lparr>sc_program = program, sc_description_bytes = length bs, sc_basis = basis\<rparr>)"

definition exact_bundle_state :: "sha \<Rightarrow> ExactStateMaterial \<Rightarrow> SharedBlockCatalog \<Rightarrow> StateCandidate option" where
  "exact_bundle_state sha current cat =
     (case exact_bundle_for_material sha cat (esm_exact_bytes current) of
        None \<Rightarrow> None
      | Some bundle \<Rightarrow>
          encoded_candidate
            (program_new (esm_source_kind current) [ref_bundle (bu_bundle_id bundle) 0 (bu_byte_len bundle)] [] [])
            (BasisBundle (bu_bundle_id bundle)))"

definition exact_block_state :: "ExactStateMaterial \<Rightarrow> SharedBlockCatalog \<Rightarrow> StateCandidate option" where
  "exact_block_state current cat =
     (case exact_block_for_material cat (esm_exact_bytes current) of
        None \<Rightarrow> None
      | Some block \<Rightarrow>
          encoded_candidate
            (program_new (esm_source_kind current) [ref_catalog_block (be_block_id block) 0 (be_byte_len block)] [] [])
            (BasisBlock (be_block_id block)))"

definition exact_composite_state :: "sha \<Rightarrow> ExactStateMaterial \<Rightarrow> SharedBlockCatalog \<Rightarrow> StateCandidate option" where
  "exact_composite_state sha current cat =
     (case best_prefix_refs sha (esm_exact_bytes current) cat MAX_COMPOSITE_STATE_REFS 0 of
        None \<Rightarrow> None
      | Some refs \<Rightarrow>
          if co_covered_len refs \<noteq> length (esm_exact_bytes current) \<or> length (co_refs refs) < 2 then None
          else encoded_candidate (program_new (esm_source_kind current) (co_refs refs) [Op_Concat] [])
                 (BasisComposite (ref_count_u16 refs) 0))"

definition composite_with_suffix_residual_state ::
  "sha \<Rightarrow> ExactStateMaterial \<Rightarrow> SharedBlockCatalog \<Rightarrow> StateCandidate option"
where
  "composite_with_suffix_residual_state sha current cat =
     (case best_prefix_refs sha (esm_exact_bytes current) cat MAX_COMPOSITE_STATE_REFS MAX_SUFFIX_RESIDUAL_BYTES of
        None \<Rightarrow> None
      | Some refs \<Rightarrow>
          if co_refs refs = [] \<or> co_covered_len refs \<ge> length (esm_exact_bytes current) then None
          else let residual = drop (co_covered_len refs) (esm_exact_bytes current) in
            if residual = [] \<or> length residual > MAX_SUFFIX_RESIDUAL_BYTES then None
            else encoded_candidate (program_new (esm_source_kind current) (co_refs refs) [] residual)
                   (BasisComposite (ref_count_u16 refs)
                     (of_nat (min (length (esm_exact_bytes current) - co_covered_len refs) (2 ^ 16 - 1)))))"

definition range_patch_state ::
  "sha \<Rightarrow> ExactStateMaterial \<Rightarrow> SharedBlockCatalog \<Rightarrow> nat \<Rightarrow> StateCandidate option"
where
  "range_patch_state sha current cat max_residual_bytes =
     (case best_window_match sha (esm_exact_bytes current) cat of
        None \<Rightarrow> None
      | Some m \<Rightarrow>
          let total_residual_bytes = residual_bytes_for_match m; prefix_len = wc_payload_start m;
              suffix_start = prefix_len + wc_matched_len m in
          if wc_matched_len m < MIN_RANGE_REUSE_BYTES then None
          else if total_residual_bytes = 0 \<or> total_residual_bytes > max_residual_bytes then None
          else if suffix_start > length (esm_exact_bytes current) then None
          else
            let pre = take prefix_len (esm_exact_bytes current);
                suffix = drop suffix_start (esm_exact_bytes current);
                ops = (if pre \<noteq> [] then [Op_Patch 0 0 0 (of_nat (length pre))] else [])
                    @ (if suffix \<noteq> []
                       then [Op_Patch (of_nat suffix_start) 0 (of_nat (length pre)) (of_nat (length suffix))] else []) in
            encoded_candidate
              (program_new (esm_source_kind current) [wc_state_ref m] ops (pre @ suffix))
              (BasisComposite 1 (of_nat (min total_residual_bytes (2 ^ 16 - 1)))))"

fun consider_candidate :: "StateCandidate option \<Rightarrow> StateCandidate option \<Rightarrow> StateCandidate option" where
  "consider_candidate best None = best"
| "consider_candidate None (Some candidate) = Some candidate"
| "consider_candidate (Some current_best) (Some candidate) =
     (if sc_description_bytes current_best \<le> sc_description_bytes candidate then Some current_best
      else Some candidate)"

definition choose_transport_representation ::
  "sha \<Rightarrow> ExactStateMaterial \<Rightarrow> SharedBlockCatalog \<Rightarrow> TransportRepresentationDecision"
where
  "choose_transport_representation sha current cat =
     (if length (esm_exact_bytes current) \<le> TINY_STATE_PAYLOAD_BYTES then TR_ExactCopy TinyPayload
      else
        let copy_len = 1 + length (esm_exact_bytes current);
            best = foldl consider_candidate None
              [exact_bundle_state sha current cat, exact_block_state current cat,
               exact_composite_state sha current cat, composite_with_suffix_residual_state sha current cat,
               range_patch_state sha current cat MAX_PATCH_RESIDUAL_BYTES] in
        case best of
          Some candidate \<Rightarrow>
            if sc_description_bytes candidate < copy_len
            then TR_State (sc_program candidate) (sc_description_bytes candidate) (sc_basis candidate)
            else TR_ExactCopy StateDescriptionNotCheaper
        | None \<Rightarrow> TR_ExactCopy HighNovelty)"

section \<open>Prefix covers select the prefix\<close>

lemma starts_with_take: "starts_with xs p \<Longrightarrow> take (length p) xs = p \<and> length p \<le> length xs"
  unfolding starts_with_def by (metis length_take min.cobounded1 min.commute)

text \<open>What a candidate promises: its reference resolves to bytes that stand at the front of the input.\<close>

definition fronts :: "sha \<Rightarrow> SharedBlockCatalog \<Rightarrow> bytes \<Rightarrow> CatalogPrefixCandidate \<Rightarrow> bool" where
  "fronts sha cat payload c \<longleftrightarrow>
     (\<exists>part. resolve_ref (catalog_resolve sha cat) (fst (prefix_candidate_ref c)) = Ok part
        \<and> length part = snd (prefix_candidate_ref c) \<and> starts_with payload part)"

lemma sort_key_set: "c \<in> set (take n (sort_key f xs)) \<Longrightarrow> c \<in> set xs"
  using in_set_takeD by fastforce

lemma om_entries: "om_ok m \<Longrightarrow> e \<in> set (map snd m) \<Longrightarrow> \<exists>k. om_get m k = Some e"
  using om_distinct [of m] by (force simp: om_get_def om_keys_def)

lemma catalog_entries:
  assumes "catalog_ok sha cat"
  shows "e \<in> set (map snd (cat_blocks cat)) \<Longrightarrow> om_get (cat_blocks cat) (be_block_id e) = Some e"
    and "b \<in> set (map snd (cat_bundles cat)) \<Longrightarrow> om_get (cat_bundles cat) (bu_bundle_id b) = Some b"
proof -
  have ok: "om_ok (cat_blocks cat)" "om_ok (cat_bundles cat)" using assms by (simp_all add: catalog_ok_def)
  show "om_get (cat_blocks cat) (be_block_id e) = Some e" if "e \<in> set (map snd (cat_blocks cat))"
    using om_entries [OF ok(1) that] catalog_ok_block(1) [OF assms] by blast
  show "om_get (cat_bundles cat) (bu_bundle_id b) = Some b" if "b \<in> set (map snd (cat_bundles cat))"
    using om_entries [OF ok(2) that] catalog_ok_bundle(1) [OF assms] by blast
qed

lemma resolve_block:
  assumes ok: "catalog_ok sha cat" and e: "om_get (cat_blocks cat) i = Some e"
  shows "resolve_ref (catalog_resolve sha cat) (ref_catalog_block i 0 (be_byte_len e)) = Ok (be_material e)"
  unfolding ref_catalog_block_def
  by (rule catalog_store.resolve_whole [OF ok]) (use catalog_block_material [OF ok e] e in \<open>simp_all add: catalog_resolve_def\<close>)

lemma resolve_bundle:
  assumes ok: "catalog_ok sha cat" and b: "om_get (cat_bundles cat) i = Some b"
    and m: "materialize_bundle sha cat i = Ok m"
  shows "resolve_ref (catalog_resolve sha cat) (ref_bundle i 0 (bu_byte_len b)) = Ok m" and "length m = unat (bu_byte_len b)"
proof -
  show len: "length m = unat (bu_byte_len b)"
    using catalog_ok_bundle(3) [OF ok b] m by auto
  show "resolve_ref (catalog_resolve sha cat) (ref_bundle i 0 (bu_byte_len b)) = Ok m"
    unfolding ref_bundle_def
    by (rule catalog_store.resolve_whole [OF ok]) (use len m in \<open>simp_all add: catalog_resolve_def\<close>)
qed

lemma prefix_candidates_front:
  assumes ok: "catalog_ok sha cat" and c: "c \<in> set (prefix_candidates sha cat payload min_len limit)"
  shows "fronts sha cat payload c"
proof -
  from c [unfolded prefix_candidates_def, THEN sort_key_set] consider
    e where "e \<in> set (map snd (cat_blocks cat))" "starts_with payload (be_material e)"
      "c = PrefixBlock (be_block_id e) (be_byte_len e)"
  | b where "b \<in> set (map snd (cat_bundles cat))" "bundle_starts sha cat payload b"
      "c = PrefixBundle (bu_bundle_id b) (bu_byte_len b)"
    by auto
  then show ?thesis
  proof cases
    case 1
    note e = catalog_entries(1) [OF ok 1(1)]
    from resolve_block [OF ok e] catalog_block_material [OF ok e] 1 show ?thesis
      by (simp add: fronts_def)
  next
    case 2
    note b = catalog_entries(2) [OF ok 2(1)]
    from 2 obtain m where m: "materialize_bundle sha cat (bu_bundle_id b) = Ok m" "starts_with payload m"
      by (auto simp: bundle_starts_def split: sum.splits)
    from resolve_bundle [OF ok b m(1)] m 2 show ?thesis by (simp add: fronts_def)
  qed
qed

text \<open>The references of a cover name a whole block or bundle, with its length.\<close>

definition whole_ref :: "StateRef \<Rightarrow> bool" where
  "whole_ref r \<longleftrightarrow> (\<exists>i w. w \<noteq> 0 \<and> (r = ref_catalog_block i 0 w \<or> r = ref_bundle i 0 w))"

lemma whole_ref_candidate: "prefix_candidate_ref c = (r, advance) \<Longrightarrow> advance \<noteq> 0 \<Longrightarrow> whole_ref r"
proof -
  have "w \<noteq> 0" if "unat w \<noteq> 0" for w :: u32 using that by auto
  then show "prefix_candidate_ref c = (r, advance) \<Longrightarrow> advance \<noteq> 0 \<Longrightarrow> whole_ref r"
    by (cases c) (simp_all add: whole_ref_def, blast+)
qed

definition covers :: "sha \<Rightarrow> SharedBlockCatalog \<Rightarrow> bytes \<Rightarrow> nat \<Rightarrow> StateRef list \<Rightarrow> nat \<Rightarrow> bool" where
  "covers sha cat payload max_refs refs n \<longleftrightarrow> n \<le> length payload \<and> length refs \<le> max_refs
     \<and> (\<forall>r \<in> set refs. whole_ref r)
     \<and> (\<exists>parts. catalog_store.selects sha cat refs parts \<and> concat parts = take n payload)"

lemma covers_snoc:
  assumes "covers sha cat payload max_refs refs n" and "length refs < max_refs"
    and "fronts sha cat (drop n payload) c" and c: "prefix_candidate_ref c = (r, advance)" "advance \<noteq> 0"
  shows "covers sha cat payload max_refs (refs @ [r]) (n + advance)"
proof -
  from assms obtain parts part where "catalog_store.selects sha cat refs parts" "concat parts = take n payload"
    and part: "resolve_ref (catalog_resolve sha cat) r = Ok part" "length part = advance"
      "starts_with (drop n payload) part" and n: "n \<le> length payload"
    by (auto simp: covers_def fronts_def)
  then have "catalog_store.selects sha cat (refs @ [r]) (parts @ [part])"
    and "concat (parts @ [part]) = take (n + advance) payload"
    using starts_with_take [OF part(3)] by (simp_all add: catalog_store.selects_snoc take_add)
  with assms(1,2) starts_with_take [OF part(3)] part(2) n whole_ref_candidate [OF c] show ?thesis
    unfolding covers_def by fastforce
qed

lemma fold_invariant_simple:
  "P s \<Longrightarrow> (\<And>x s. x \<in> set xs \<Longrightarrow> P s \<Longrightarrow> P (f x s)) \<Longrightarrow> P (fold f xs s)"
  by (induction xs arbitrary: s) auto

definition cover_option :: "sha \<Rightarrow> SharedBlockCatalog \<Rightarrow> bytes \<Rightarrow> nat \<Rightarrow> nat \<Rightarrow> CompositeRefs option \<Rightarrow> bool" where
  "cover_option sha cat payload max_refs allowed best \<longleftrightarrow>
     (\<forall>c. best = Some c \<longrightarrow> covers sha cat payload max_refs (co_refs c) (co_covered_len c)
        \<and> length payload - co_covered_len c \<le> allowed)"

lemma search_prefix_refs_covers:
  assumes "catalog_ok sha cat" and "covers sha cat payload max_refs stack n"
    and "cover_option sha cat payload max_refs allowed best"
  shows "cover_option sha cat payload max_refs allowed (search_prefix_refs sha payload cat n max_refs allowed stack best)"
  using assms
proof (induction "max_refs - length stack" arbitrary: stack n best rule: less_induct)
  case less
  define best' where "best' = (if length payload - n \<le> allowed
      \<and> better_prefix_solution best \<lparr>co_refs = stack, co_covered_len = n\<rparr> allowed (length payload)
    then Some \<lparr>co_refs = stack, co_covered_len = n\<rparr> else best)"
  have best': "cover_option sha cat payload max_refs allowed best'"
    using less(3,4) by (auto simp: best'_def cover_option_def)
  show ?case
  proof (cases "n \<ge> length payload \<or> length stack \<ge> max_refs")
    case True
    then show ?thesis using best' by (subst search_prefix_refs.simps) (simp add: best'_def Let_def)
  next
    case False
    let ?step = "\<lambda>candidate best. let (state_ref, advance) = prefix_candidate_ref candidate in
      if advance = 0 then best
      else search_prefix_refs sha payload cat (n + advance) max_refs allowed (stack @ [state_ref]) best"
    let ?cands = "prefix_candidates sha cat (drop n payload) MIN_COMPOSITE_COMPONENT_BYTES MAX_COMPOSITE_CANDIDATES_PER_STEP"
    have "cover_option sha cat payload max_refs allowed (?step c b)"
      if "c \<in> set ?cands" and "cover_option sha cat payload max_refs allowed b" for c b
    proof -
      obtain r advance where c: "prefix_candidate_ref c = (r, advance)" by fastforce
      show ?thesis
      proof (cases "advance = 0")
        case nonempty: False
        have "covers sha cat payload max_refs (stack @ [r]) (n + advance)"
          using False less(3) prefix_candidates_front [OF less(2) that(1)] c nonempty by (intro covers_snoc) auto
        then have "cover_option sha cat payload max_refs allowed
            (search_prefix_refs sha payload cat (n + advance) max_refs allowed (stack @ [r]) b)"
          using False less(2) that(2) by (intro less(1)) auto
        with c that(2) show ?thesis by simp
      qed (use c that(2) in simp)
    qed
    from fold_invariant_simple [where P = "cover_option sha cat payload max_refs allowed", OF best' this]
    have "cover_option sha cat payload max_refs allowed (fold ?step ?cands best')" .
    then show ?thesis using False by (subst search_prefix_refs.simps) (simp add: best'_def Let_def)
  qed
qed

lemma best_prefix_refs_covers:
  assumes "catalog_ok sha cat" and "best_prefix_refs sha payload cat max_refs allowed = Some c"
  shows "covers sha cat payload max_refs (co_refs c) (co_covered_len c)"
    and "length payload - co_covered_len c \<le> allowed"
proof -
  have "covers sha cat payload max_refs [] 0" by (auto simp: covers_def intro: exI [of _ "[]"])
  moreover have "cover_option sha cat payload max_refs allowed None" by (simp add: cover_option_def)
  ultimately have "cover_option sha cat payload max_refs allowed (best_prefix_refs sha payload cat max_refs allowed)"
    unfolding best_prefix_refs_def by (rule search_prefix_refs_covers [OF assms(1)])
  with assms(2) show "covers sha cat payload max_refs (co_refs c) (co_covered_len c)"
    and "length payload - co_covered_len c \<le> allowed" by (auto simp: cover_option_def)
qed

section \<open>The window search finds a longest common window\<close>

lemma common_prefix_len_spec:
  "common_prefix_len xs ys \<le> length xs" "common_prefix_len xs ys \<le> length ys"
  "take (common_prefix_len xs ys) xs = take (common_prefix_len xs ys) ys"
proof -
  have "common_prefix_len xs ys \<le> length (zip xs ys)"
    unfolding common_prefix_len_def by (rule length_takeWhile_le)
  then show "common_prefix_len xs ys \<le> length xs" "common_prefix_len xs ys \<le> length ys" by simp_all
  show "take (common_prefix_len xs ys) xs = take (common_prefix_len xs ys) ys"
    unfolding common_prefix_len_def
    by (induction xs ys rule: list_induct2') simp_all
qed

lemma common_prefix_len_greatest:
  "take n xs = take n ys \<Longrightarrow> n \<le> length xs \<Longrightarrow> n \<le> length ys \<Longrightarrow> n \<le> common_prefix_len xs ys"
proof (induction n arbitrary: xs ys)
  case (Suc n)
  then show ?case by (cases xs; cases ys) (auto simp: common_prefix_len_def)
qed simp

text \<open>A window: the same bytes at two places, long enough to be reused.\<close>

definition common_window :: "bytes \<Rightarrow> bytes \<Rightarrow> nat \<Rightarrow> nat \<Rightarrow> nat \<Rightarrow> bool" where
  "common_window payload base i j n \<longleftrightarrow> i + n \<le> length payload \<and> j + n \<le> length base
     \<and> slice i (i + n) payload = slice j (j + n) base"

lemma common_window_len:
  assumes "i \<le> length payload" and "j \<le> length base"
  shows "common_window payload base i j n \<longleftrightarrow> n \<le> common_prefix_len (drop i payload) (drop j base)"
proof
  assume "common_window payload base i j n"
  then show "n \<le> common_prefix_len (drop i payload) (drop j base)"
    by (intro common_prefix_len_greatest) (auto simp: common_window_def slice_def)
next
  assume n: "n \<le> common_prefix_len (drop i payload) (drop j base)" (is "_ \<le> ?c")
  note spec = common_prefix_len_spec [of "drop i payload" "drop j base"]
  have "take n (drop i payload) = take n (take ?c (drop i payload))" using n by (simp add: min.absorb1)
  also have "\<dots> = take n (drop j base)" unfolding spec(3) using n by (simp add: min.absorb1)
  finally show "common_window payload base i j n"
    using n spec(1,2) assms by (auto simp: common_window_def slice_def)
qed

text \<open>The search so far: what it holds is a window, and no window seen so far is longer.\<close>

definition window_best :: "bytes \<Rightarrow> bytes \<Rightarrow> (nat \<Rightarrow> nat \<Rightarrow> bool) \<Rightarrow> WindowMatch option \<Rightarrow> bool" where
  "window_best payload base seen best \<longleftrightarrow>
     (\<forall>w. best = Some w \<longrightarrow> MIN_RANGE_REUSE_BYTES \<le> wm_matched_len w
        \<and> common_window payload base (wm_payload_start w) (unat (wm_base_start w)) (wm_matched_len w))
     \<and> (\<forall>i j n. seen i j \<longrightarrow> common_window payload base i j n \<longrightarrow> MIN_RANGE_REUSE_BYTES \<le> n \<longrightarrow>
          (\<exists>w. best = Some w \<and> n \<le> wm_matched_len w))"

lemma try_window_best:
  assumes "window_best payload base seen best" and "i \<le> length payload" and "j \<le> length base"
    and "length base < 2 ^ 32"
  shows "window_best payload base (\<lambda>a b. seen a b \<or> a = i \<and> b = j) (try_window payload base i j best)"
proof -
  let ?n = "common_prefix_len (drop i payload) (drop j base)"
  let ?c = "\<lparr>wm_payload_start = i, wm_base_start = of_nat j, wm_matched_len = ?n\<rparr>"
  have j: "unat (of_nat j :: u32) = j" using assms(3,4) by (intro unat_of_nat_u32) simp
  note here = common_window_len [OF assms(2,3)]
  consider "?n < MIN_RANGE_REUSE_BYTES" "try_window payload base i j best = best"
    | w where "best = Some w" "?n \<le> wm_matched_len w" "try_window payload base i j best = best"
    | "MIN_RANGE_REUSE_BYTES \<le> ?n" "try_window payload base i j best = Some ?c"
      "\<forall>w. best = Some w \<longrightarrow> wm_matched_len w \<le> ?n"
    by (cases best) (fastforce simp: try_window_def Let_def better_window_match_raw_def split: if_splits)+
  then show ?thesis
  proof cases
    case 1
    then show ?thesis using assms(1) here unfolding window_best_def by auto
  next
    case 2
    then show ?thesis using assms(1) here unfolding window_best_def by (auto intro: le_trans)
  next
    case 3
    have "common_window payload base i j ?n" using here by simp
    moreover have "n \<le> ?n"
      if "seen a b \<or> a = i \<and> b = j" and "common_window payload base a b n" "MIN_RANGE_REUSE_BYTES \<le> n" for a b n
    proof (cases "a = i \<and> b = j")
      case False
      with that assms(1) obtain w where "best = Some w" "n \<le> wm_matched_len w"
        unfolding window_best_def by blast
      with 3(3) show ?thesis by (blast intro: le_trans)
    qed (use that here in simp)
    ultimately show ?thesis using 3(1) j unfolding 3(2) window_best_def by simp
  qed
qed

lemma window_best_mono:
  "window_best payload base seen best \<Longrightarrow>
    (\<And>i j n. seen' i j \<Longrightarrow> common_window payload base i j n \<Longrightarrow> MIN_RANGE_REUSE_BYTES \<le> n \<Longrightarrow>
      seen i j \<or> (\<exists>w. best = Some w \<and> n \<le> wm_matched_len w)) \<Longrightarrow>
    window_best payload base seen' best"
  unfolding window_best_def by blast

lemma fold_try_window_best:
  assumes "window_best payload base seen best" and "i \<le> length payload" and "length base < 2 ^ 32" and "m \<le> length base"
  shows "window_best payload base (\<lambda>a b. seen a b \<or> a = i \<and> b < m) (fold (try_window payload base i) [0..<m] best)"
  using assms(4)
proof (induction m)
  case 0
  then show ?case using assms(1) by simp
next
  case (Suc m)
  then have "window_best payload base (\<lambda>a b. (seen a b \<or> a = i \<and> b < m) \<or> a = i \<and> b = m)
      (try_window payload base i m (fold (try_window payload base i) [0..<m] best))"
    using assms(2,3) by (intro try_window_best) simp_all
  then have "window_best payload base (\<lambda>a b. seen a b \<or> a = i \<and> b < Suc m)
      (try_window payload base i m (fold (try_window payload base i) [0..<m] best))"
    by (rule window_best_mono) auto
  then show ?case by simp
qed

lemma window_row_best:
  assumes best: "window_best payload base (\<lambda>a b. a < i \<and> b < length base) best"
    and i: "i \<le> length payload" and small: "length base < 2 ^ 32"
  shows "window_best payload base (\<lambda>a b. a < Suc i \<and> b < length base) (window_row payload base i best)"
proof -
  let ?row = "fold (try_window payload base i) [0..<length base] best"
  have row: "window_best payload base (\<lambda>a b. a < Suc i \<and> b < length base) ?row"
    using fold_try_window_best [OF best i small order_refl] by (rule window_best_mono) auto
  consider "window_row payload base i best = ?row"
    | w where "window_row payload base i best = best" "best = Some w" "length payload - i \<le> wm_matched_len w"
    by (cases best; cases "length payload - i \<le> wm_matched_len (the best)") (auto simp: window_row_def)
  then show ?thesis
  proof cases
    case 1
    with row show ?thesis by simp
  next
    case 2
    have "n \<le> wm_matched_len w" if "common_window payload base i b n" for b n
      using that 2(3) by (auto simp: common_window_def)
    with best 2(2) show ?thesis unfolding 2(1) by (elim window_best_mono) (auto simp: less_Suc_eq)
  qed
qed

lemma find_best_window_best:
  assumes "length base < 2 ^ 32"
  shows "window_best payload base (\<lambda>_ _. True) (find_best_window_in_base payload base)"
proof -
  have rows: "window_best payload base (\<lambda>a b. a < m \<and> b < length base) (fold (window_row payload base) [0..<m] None)"
    if "m \<le> length payload" for m
    using that
  proof (induction m)
    case 0
    then show ?case by (simp add: window_best_def)
  next
    case (Suc m)
    then show ?case using window_row_best [OF _ _ assms] by simp
  qed
  have inside: "a < length payload \<and> b < length base"
    if "common_window payload base a b n" "MIN_RANGE_REUSE_BYTES \<le> n" for a b n
    using that by (auto simp: common_window_def MIN_RANGE_REUSE_BYTES_def)
  show ?thesis
  proof (cases "payload = [] \<or> base = []")
    case True
    with inside show ?thesis unfolding find_best_window_in_base_def window_best_def by fastforce
  next
    case False
    with rows [OF order_refl] inside show ?thesis
      unfolding find_best_window_in_base_def by (auto intro: window_best_mono)
  qed
qed

text \<open>C15: the window search is exact although it skips rows: it returns a window exactly when the payload and the
  base share at least 12 bytes in a row, and then a longest one.\<close>

theorem window_search_is_longest:
  assumes "length base < 2 ^ 32"
  shows "case find_best_window_in_base payload base of
      None \<Rightarrow> \<not> (\<exists>i j n. common_window payload base i j n \<and> MIN_RANGE_REUSE_BYTES \<le> n)
    | Some w \<Rightarrow> MIN_RANGE_REUSE_BYTES \<le> wm_matched_len w
        \<and> common_window payload base (wm_payload_start w) (unat (wm_base_start w)) (wm_matched_len w)
        \<and> (\<forall>i j n. common_window payload base i j n \<longrightarrow> n \<le> wm_matched_len w)"
proof (cases "find_best_window_in_base payload base")
  case None
  with find_best_window_best [OF assms, of payload] show ?thesis by (auto simp: window_best_def)
next
  case (Some w)
  note best = find_best_window_best [OF assms, of payload, unfolded Some window_best_def]
  have "n \<le> wm_matched_len w" if "common_window payload base i j n" for i j n
    using conjunct1 [OF best, rule_format, OF refl] conjunct2 [OF best, rule_format, OF TrueI that]
    by (cases "MIN_RANGE_REUSE_BYTES \<le> n") simp_all
  with best Some show ?thesis by auto
qed

lemma find_best_window_window:
  assumes "length base < 2 ^ 32" and "find_best_window_in_base payload base = Some w"
  shows "common_window payload base (wm_payload_start w) (unat (wm_base_start w)) (wm_matched_len w)"
  using find_best_window_best [OF assms(1), of payload] assms(2) by (simp add: window_best_def)

section \<open>Candidates reproduce the payload\<close>

definition match_ok :: "sha \<Rightarrow> SharedBlockCatalog \<Rightarrow> bytes \<Rightarrow> WindowMatchCandidate \<Rightarrow> bool" where
  "match_ok sha cat payload c \<longleftrightarrow> wc_total_payload_len c = length payload
     \<and> wc_payload_start c + wc_matched_len c \<le> length payload
     \<and> resolve_ref (catalog_resolve sha cat) (wc_state_ref c) =
         Ok (slice (wc_payload_start c) (wc_payload_start c + wc_matched_len c) payload)"

lemma resolve_found_window:
  assumes ok: "catalog_ok sha cat" and m: "catalog_resolve sha cat k i = Some base"
    and k: "k \<notin> {RK_StridedRange, RK_IndexSet}" and w: "find_best_window_in_base payload base = Some w"
  shows "resolve_ref (catalog_resolve sha cat) (plain_ref k i (wm_base_start w) (of_nat (wm_matched_len w))) =
      Ok (slice (wm_payload_start w) (wm_payload_start w + wm_matched_len w) payload)"
    and "wm_payload_start w + wm_matched_len w \<le> length payload"
proof -
  note window = find_best_window_window [OF catalog_store.lookup_small [OF ok m] w]
  then show "wm_payload_start w + wm_matched_len w \<le> length payload" by (simp add: common_window_def)
  have "resolve_ref (catalog_resolve sha cat) (plain_ref k i (of_nat (unat (wm_base_start w))) (of_nat (wm_matched_len w))) =
      Ok (slice (unat (wm_base_start w)) (unat (wm_base_start w) + wm_matched_len w) base)"
    using window by (intro catalog_store.resolve_window [OF ok m k]) (simp add: common_window_def)
  with window show "resolve_ref (catalog_resolve sha cat) (plain_ref k i (wm_base_start w) (of_nat (wm_matched_len w))) =
      Ok (slice (wm_payload_start w) (wm_payload_start w + wm_matched_len w) payload)"
    by (simp add: common_window_def)
qed

lemma block_window_ok:
  assumes "catalog_ok sha cat" and "e \<in> set (map snd (cat_blocks cat))" and "block_window payload e = Some c"
  shows "match_ok sha cat payload c"
proof -
  from assms(3) obtain w where w: "find_best_window_in_base payload (be_material e) = Some w"
    and c: "c = \<lparr>wc_state_ref = ref_range (be_block_id e) (wm_base_start w) (of_nat (wm_matched_len w)),
      wc_payload_start = wm_payload_start w, wc_matched_len = wm_matched_len w, wc_total_payload_len = length payload\<rparr>"
    by (auto simp: block_window_def)
  have "catalog_resolve sha cat RK_Range (be_block_id e) = Some (be_material e)"
    using catalog_entries(1) [OF assms(1,2)] by (simp add: catalog_resolve_def)
  from resolve_found_window [OF assms(1) this _ w] show ?thesis by (simp add: c match_ok_def ref_range_def)
qed

lemma bundle_window_ok:
  assumes "catalog_ok sha cat" and "materialize_bundle sha cat i = Ok m" and "bundle_window payload i m = Some c"
  shows "match_ok sha cat payload c"
proof -
  from assms(3) obtain w where w: "find_best_window_in_base payload m = Some w"
    and c: "c = \<lparr>wc_state_ref = ref_bundle i (wm_base_start w) (of_nat (wm_matched_len w)),
      wc_payload_start = wm_payload_start w, wc_matched_len = wm_matched_len w, wc_total_payload_len = length payload\<rparr>"
    by (auto simp: bundle_window_def)
  have "catalog_resolve sha cat RK_Bundle i = Some m"
    using assms(2) by (simp add: catalog_resolve_def)
  from resolve_found_window [OF assms(1) this _ w] show ?thesis by (simp add: c match_ok_def ref_bundle_def)
qed

lemma consider_window_match_ok:
  "pred_option P best \<Longrightarrow> pred_option P candidate \<Longrightarrow> pred_option P (consider_window_match best candidate)"
  by (cases best; cases candidate) simp_all

lemma best_window_match_ok:
  assumes ok: "catalog_ok sha cat" and best: "best_window_match sha payload cat = Some c"
  shows "match_ok sha cat payload c"
proof -
  let ?P = "pred_option (match_ok sha cat payload)"
  let ?best = "fold (\<lambda>block best. consider_window_match best (block_window payload block)) (map snd (cat_blocks cat)) None"
  have "?P (block_window payload e)" if "e \<in> set (map snd (cat_blocks cat))" for e
    using block_window_ok [OF ok that] by (cases "block_window payload e") simp_all
  then have start: "?P ?best"
    by (intro fold_invariant_simple [where P = ?P]) (simp_all add: consider_window_match_ok)
  from best have run: "try_fold (bundle_step sha payload cat) ?best (map snd (cat_bundles cat)) = Ok (Some c)"
    by (auto simp: best_window_match_def Let_def split: sum.splits)
  have "?P b'" if "?P b" and step: "bundle_step sha payload cat b x = Ok b'" for x b b'
  proof -
    from step obtain m where m: "materialize_bundle sha cat (bu_bundle_id x) = Ok m"
      and b': "b' = consider_window_match b (bundle_window payload (bu_bundle_id x) m)"
      by (auto simp: bundle_step_def split: sum.splits)
    have "?P (bundle_window payload (bu_bundle_id x) m)"
      using bundle_window_ok [OF ok m] by (cases "bundle_window payload (bu_bundle_id x) m") simp_all
    with that show ?thesis unfolding b' by (intro consider_window_match_ok)
  qed
  with try_fold_invariant [where P = ?P, OF run start] have "?P (Some c)" by blast
  then show ?thesis by simp
qed

definition candidate_ok :: "sha \<Rightarrow> SharedBlockCatalog \<Rightarrow> ExactStateMaterial \<Rightarrow> StateCandidate \<Rightarrow> bool" where
  "candidate_ok sha cat current c \<longleftrightarrow>
     pg_source_kind (sc_program c) = esm_source_kind current
     \<and> (\<exists>bs. program_encode (sc_program c) = Ok bs \<and> length bs = sc_description_bytes c)
     \<and> decode_exact_bytes (sc_program c) (catalog_resolve sha cat) = Ok (esm_exact_bytes current)"

text \<open>A program that encodes is valid, so it is enough to know what it decodes to.\<close>

lemma encoded_candidate_ok:
  assumes "encoded_candidate p basis = Some c" and "pg_source_kind p = esm_source_kind current"
    and "program_validate p = Ok () \<Longrightarrow> decode_exact_bytes p (catalog_resolve sha cat) = Ok (esm_exact_bytes current)"
  shows "candidate_ok sha cat current c"
  using assms by (auto simp: encoded_candidate_def candidate_ok_def program_encode_def split: sum.splits)

lemma find_SomeD: "find P xs = Some x \<Longrightarrow> x \<in> set xs \<and> P x"
  by (induction xs) (auto split: if_splits)

lemma selects_single:
  "resolve_ref (catalog_resolve sha cat) r = Ok part \<Longrightarrow> catalog_store.selects sha cat [r] [part]"
  by (simp add: catalog_store.selects_def)

lemma single_ref_candidate_ok:
  assumes "resolve_ref (catalog_resolve sha cat) r = Ok (esm_exact_bytes current)"
    and "encoded_candidate (program_new (esm_source_kind current) [r] [] []) basis = Some c"
  shows "candidate_ok sha cat current c"
  by (rule encoded_candidate_ok [OF assms(2)])
     (use catalog_store.decode_selected [where p = "program_new (esm_source_kind current) [r] [] []"]
        selects_single [OF assms(1)] in \<open>auto simp: program_new_def\<close>)

lemma exact_bundle_state_ok:
  assumes ok: "catalog_ok sha cat" and c: "exact_bundle_state sha current cat = Some c"
  shows "candidate_ok sha cat current c"
proof -
  from c obtain b where "exact_bundle_for_material sha cat (esm_exact_bytes current) = Some b"
    and enc: "encoded_candidate (program_new (esm_source_kind current) [ref_bundle (bu_bundle_id b) 0 (bu_byte_len b)] [] [])
      (BasisBundle (bu_bundle_id b)) = Some c"
    by (auto simp: exact_bundle_state_def split: option.splits)
  then have "b \<in> set (map snd (cat_bundles cat))" and m: "materialize_bundle sha cat (bu_bundle_id b) = Ok (esm_exact_bytes current)"
    unfolding exact_bundle_for_material_def by (auto dest: find_SomeD)
  note r = resolve_bundle(1) [OF ok catalog_entries(2) [OF ok this(1)] m]
  from r enc show ?thesis by (rule single_ref_candidate_ok)
qed

lemma exact_block_state_ok:
  assumes ok: "catalog_ok sha cat" and c: "exact_block_state current cat = Some c"
  shows "candidate_ok sha cat current c"
proof -
  from c obtain e where "exact_block_for_material cat (esm_exact_bytes current) = Some e"
    and enc: "encoded_candidate (program_new (esm_source_kind current) [ref_catalog_block (be_block_id e) 0 (be_byte_len e)] [] [])
      (BasisBlock (be_block_id e)) = Some c"
    by (auto simp: exact_block_state_def split: option.splits)
  then have "e \<in> set (map snd (cat_blocks cat))" and m: "be_material e = esm_exact_bytes current"
    unfolding exact_block_for_material_def by (auto dest: find_SomeD)
  note r = resolve_block [OF ok catalog_entries(1) [OF ok this(1)], unfolded m]
  from r enc show ?thesis by (rule single_ref_candidate_ok)
qed

lemma exact_composite_state_ok:
  assumes ok: "catalog_ok sha cat" and c: "exact_composite_state sha current cat = Some c"
  shows "candidate_ok sha cat current c"
proof -
  from c obtain refs where refs: "best_prefix_refs sha (esm_exact_bytes current) cat MAX_COMPOSITE_STATE_REFS 0 = Some refs"
    and full: "co_covered_len refs = length (esm_exact_bytes current)"
    and enc: "encoded_candidate (program_new (esm_source_kind current) (co_refs refs) [Op_Concat] [])
      (BasisComposite (ref_count_u16 refs) 0) = Some c"
    by (auto simp: exact_composite_state_def split: option.splits if_splits)
  from best_prefix_refs_covers(1) [OF ok refs] full obtain parts where
    parts: "catalog_store.selects sha cat (co_refs refs) parts" "concat parts = esm_exact_bytes current"
    by (auto simp: covers_def)
  show ?thesis
    by (rule encoded_candidate_ok [OF enc])
       (use catalog_store.decode_concat [where p = "program_new (esm_source_kind current) (co_refs refs) [Op_Concat] []"] parts
         in \<open>auto simp: program_new_def\<close>)
qed

lemma composite_with_suffix_ok:
  assumes ok: "catalog_ok sha cat" and c: "composite_with_suffix_residual_state sha current cat = Some c"
  shows "candidate_ok sha cat current c"
proof -
  let ?bs = "esm_exact_bytes current"
  from c obtain refs basis where
    refs: "best_prefix_refs sha ?bs cat MAX_COMPOSITE_STATE_REFS MAX_SUFFIX_RESIDUAL_BYTES = Some refs"
    and enc: "encoded_candidate (program_new (esm_source_kind current) (co_refs refs) [] (drop (co_covered_len refs) ?bs))
      basis = Some c"
    by (auto simp: composite_with_suffix_residual_state_def Let_def split: option.splits if_splits)
  from best_prefix_refs_covers(1) [OF ok refs] obtain parts where
    parts: "catalog_store.selects sha cat (co_refs refs) parts" "concat parts = take (co_covered_len refs) ?bs"
    by (auto simp: covers_def)
  show ?thesis
    by (rule encoded_candidate_ok [OF enc])
       (use catalog_store.decode_selected
          [where p = "program_new (esm_source_kind current) (co_refs refs) [] (drop (co_covered_len refs) ?bs)"] parts
         in \<open>auto simp: program_new_def\<close>)
qed

lemma range_patch_state_ok:
  assumes ok: "catalog_ok sha cat" and small: "length (esm_exact_bytes current) < 2 ^ 32"
    and c: "range_patch_state sha current cat limit = Some c"
  shows "candidate_ok sha cat current c"
proof -
  let ?bs = "esm_exact_bytes current"
  from c obtain m basis where best: "best_window_match sha ?bs cat = Some m"
    and some: "residual_bytes_for_match m \<noteq> 0"
    and enc: "encoded_candidate (program_new (esm_source_kind current) [wc_state_ref m]
      ((if take (wc_payload_start m) ?bs \<noteq> [] then [Op_Patch 0 0 0 (of_nat (length (take (wc_payload_start m) ?bs)))] else [])
       @ (if drop (wc_payload_start m + wc_matched_len m) ?bs \<noteq> []
          then [Op_Patch (of_nat (wc_payload_start m + wc_matched_len m)) 0 (of_nat (length (take (wc_payload_start m) ?bs)))
                 (of_nat (length (drop (wc_payload_start m + wc_matched_len m) ?bs)))] else []))
      (take (wc_payload_start m) ?bs @ drop (wc_payload_start m + wc_matched_len m) ?bs)) basis = Some c"
    (is "encoded_candidate ?p _ = _")
    unfolding range_patch_state_def Let_def by (cases "best_window_match sha ?bs cat") (simp, simp split: if_split_asm)
  note match = best_window_match_ok [OF ok best, unfolded match_ok_def]
  let ?pre = "take (wc_payload_start m) ?bs" and ?post = "drop (wc_payload_start m + wc_matched_len m) ?bs"
    and ?window = "slice (wc_payload_start m) (wc_payload_start m + wc_matched_len m) ?bs"
  have len: "length ?pre = wc_payload_start m" "length ?window = wc_matched_len m"
    using match by (auto simp: length_slice)
  have whole: "?pre @ ?window @ ?post = ?bs"
    using slice_append_drop [of "wc_payload_start m" "wc_payload_start m + wc_matched_len m" ?bs] by simp
  have "decode_exact_bytes ?p (catalog_resolve sha cat) = Ok (?pre @ ?window @ ?post)" if "program_validate ?p = Ok ()"
  proof (rule catalog_store.decode_patched_window [OF that])
    show "catalog_store.selects sha cat (pg_refs ?p) [?window]"
      using match selects_single by (simp add: program_new_def)
    show "?pre @ ?post \<noteq> []" using some match by (auto simp: residual_bytes_for_match_def)
    show "length (?pre @ ?window @ ?post) < 2 ^ 32" using small by (simp only: whole)
  qed (simp_all only: program_new_def StateProgram.simps len)
  then show ?thesis
    unfolding whole by (intro encoded_candidate_ok [OF enc]) (simp_all add: program_new_def)
qed

lemma consider_candidate_ok:
  "pred_option P best \<Longrightarrow> pred_option P candidate \<Longrightarrow> pred_option P (consider_candidate best candidate)"
  by (cases best; cases candidate) simp_all

lemma pred_optionI: "(\<And>c. m = Some c \<Longrightarrow> P c) \<Longrightarrow> pred_option P m"
  by (cases m) simp_all

text \<open>C16: when the sender replaces a payload by a state program, the receiver gets the payload back: over the
  catalog the sender knows, and over every valid catalog that extends it, the program decodes to the exact
  bytes; it keeps the source kind, and its encoding has the announced length, at most that of the payload.\<close>

theorem chosen_state_reproduces_payload:
  assumes peer: "catalog_ok sha peer" and extends: "catalog_extends peer cat"
    and small: "length (esm_exact_bytes current) < 2 ^ 32"
    and chosen: "choose_transport_representation sha current peer = TR_State program description_bytes basis"
  shows "decode_exact_state_material program (catalog_resolve sha cat) = Ok current
    \<and> (\<exists>bs. program_encode program = Ok bs \<and> length bs = description_bytes)
    \<and> description_bytes \<le> length (esm_exact_bytes current)"
proof -
  let ?P = "pred_option (candidate_ok sha peer current)"
  let ?all = "[exact_bundle_state sha current peer, exact_block_state current peer, exact_composite_state sha current peer,
    composite_with_suffix_residual_state sha current peer, range_patch_state sha current peer MAX_PATCH_RESIDUAL_BYTES]"
  note parts = exact_bundle_state_ok [OF peer, THEN pred_optionI] exact_block_state_ok [OF peer, THEN pred_optionI]
    exact_composite_state_ok [OF peer, THEN pred_optionI] composite_with_suffix_ok [OF peer, THEN pred_optionI]
    range_patch_state_ok [OF peer small, THEN pred_optionI]
  have "?P (foldl consider_candidate None ?all)"
    by (simp add: consider_candidate_ok parts)
  moreover from chosen obtain c where "foldl consider_candidate None ?all = Some c"
    and c: "sc_description_bytes c < 1 + length (esm_exact_bytes current)" "program = sc_program c"
      "description_bytes = sc_description_bytes c"
    by (auto simp: choose_transport_representation_def Let_def split: option.splits if_splits)
  ultimately have "candidate_ok sha peer current c" by simp
  with c catalog_store.decode_grows [OF extends] show ?thesis
    by (auto simp: candidate_ok_def decode_exact_state_material_def)
qed

definition long_material :: bytes where "long_material = [1, 2, 3, 4, 5, 6, 7, 8, 9, 10, 11, 12, 13, 14, 15, 16, 17, 18, 19, 20, 21, 22, 23, 24, 25, 26, 27, 28, 29, 30, 31, 32, 33, 34]"

definition long_catalog :: SharedBlockCatalog where
  "long_catalog = \<lparr>cat_version = 1, cat_blocks = [(6113, \<lparr>be_block_id = 6113, be_source_kind = Text, be_byte_len = 34,
     be_content_hash = [83, 34, 0, 0, 0, 0, 0, 0], be_material = long_material\<rparr>)], cat_bundles = []\<rparr>"

definition long_payload :: ExactStateMaterial where
  "long_payload = \<lparr>esm_source_kind = Json, esm_exact_bytes = long_material\<rparr>"

lemma consider_candidate_mono:
  "\<exists>c. consider_candidate (Some b) candidate = Some c \<and> sc_description_bytes c \<le> sc_description_bytes b"
  "\<exists>c. consider_candidate best (Some b) = Some c \<and> sc_description_bytes c \<le> sc_description_bytes b"
  by (cases candidate; simp; fail) (cases best; simp)

lemma chosen_when_block_known:
  assumes "exact_block_state current cat = Some b" and "sc_description_bytes b \<le> length (esm_exact_bytes current)"
    and "TINY_STATE_PAYLOAD_BYTES < length (esm_exact_bytes current)"
  shows "\<exists>p n basis. choose_transport_representation sha current cat = TR_State p n basis"
proof -
  obtain c2 where c2: "consider_candidate (exact_bundle_state sha current cat) (Some b) = Some c2"
      "sc_description_bytes c2 \<le> sc_description_bytes b"
    using consider_candidate_mono(2) by blast
  obtain c3 where c3: "consider_candidate (Some c2) (exact_composite_state sha current cat) = Some c3"
      "sc_description_bytes c3 \<le> sc_description_bytes c2"
    using consider_candidate_mono(1) by blast
  obtain c4 where c4: "consider_candidate (Some c3) (composite_with_suffix_residual_state sha current cat) = Some c4"
      "sc_description_bytes c4 \<le> sc_description_bytes c3"
    using consider_candidate_mono(1) by blast
  obtain c5 where c5: "consider_candidate (Some c4) (range_patch_state sha current cat MAX_PATCH_RESIDUAL_BYTES) = Some c5"
      "sc_description_bytes c5 \<le> sc_description_bytes c4"
    using consider_candidate_mono(1) by blast
  have "consider_candidate None x = x" for x by (cases x) simp_all
  with c2 c3 c4 c5 assms show ?thesis by (simp add: choose_transport_representation_def)
qed

lemma long_catalog_ok: "catalog_ok toy_sha long_catalog"
proof -
  have "block_validate toy_sha (snd (hd (cat_blocks long_catalog))) = Ok ()" by code_simp
  then show ?thesis by (auto simp: catalog_ok_def long_catalog_def om_ok_def om_get_def split: if_splits)
qed

lemma window_search_is_longest_witness:
  "\<exists>w. find_best_window_in_base long_material long_material = Some w \<and> 34 \<le> wm_matched_len w"
proof -
  have "common_window long_material long_material 0 0 34"
    by (simp add: common_window_def long_material_def)
  moreover have "MIN_RANGE_REUSE_BYTES \<le> 34" "length long_material < 2 ^ 32"
    by (simp_all add: MIN_RANGE_REUSE_BYTES_def long_material_def)
  ultimately show ?thesis
    using window_search_is_longest [of long_material long_material] by (auto split: option.splits)
qed

lemma chosen_state_reproduces_payload_witness:
  "\<exists>p n basis. choose_transport_representation toy_sha long_payload long_catalog = TR_State p n basis
    \<and> decode_exact_state_material p (catalog_resolve toy_sha long_catalog) = Ok long_payload"
proof -
  have "map_option sc_description_bytes (exact_block_state long_payload long_catalog) = Some 33" by code_simp
  then obtain b where b: "exact_block_state long_payload long_catalog = Some b" "sc_description_bytes b = 33" by auto
  have len: "length (esm_exact_bytes long_payload) = 34" by (simp add: long_payload_def long_material_def)
  with b obtain p n basis where chosen:
    "choose_transport_representation toy_sha long_payload long_catalog = TR_State p n basis"
    using chosen_when_block_known [of long_payload long_catalog b toy_sha] by (auto simp: TINY_STATE_PAYLOAD_BYTES_def)
  from len have "length (esm_exact_bytes long_payload) < 2 ^ 32" by simp
  from chosen_state_reproduces_payload [OF long_catalog_ok catalog_extends_refl this chosen] chosen
  show ?thesis by blast
qed

end
