(* ===== verification/Pulzz_Kernels.thy ===== *)
theory Pulzz_Kernels
  imports Pulzz_Chpmt "HOL-Library.Product_Lexorder" "HOL-Library.Multiset"
begin

text \<open>
  The byte and word kernels of \<open>shared_protocol/src/kernels.rs\<close>: population counts, delimiter and
  mismatch scans, the slot mask test, the GF(2) fingerprint and the keyed permutation of indices.
  Where the code asks \<open>is_x86_feature_detected!\<close>, the answer is the argument \<open>hw\<close>.  The lemmas give
  each kernel its mathematical meaning: bit counts, index sets, a truncated list of mismatches, a
  permutation of the index range.
\<close>

definition popcount_bytes :: "bytes \<Rightarrow> u32" where
  "popcount_bytes bs = sum_list (map (\<lambda>b. of_nat (count_ones b)) bs)"

definition bitset_overlap_count :: "bytes \<Rightarrow> bytes \<Rightarrow> u32" where
  "bitset_overlap_count left right =
     sum_list (map (\<lambda>(l, r). of_nat (count_ones (l AND r))) (zip left right))"

definition delimiter_scan :: "bytes \<Rightarrow> u8 \<Rightarrow> nat list" where
  "delimiter_scan bs delimiter = map fst (filter (\<lambda>(index, b). b = delimiter) (enumerate 0 bs))"

definition byte_or_default :: "bytes \<Rightarrow> nat \<Rightarrow> u8" where
  "byte_or_default bs i = (if i < length bs then bs ! i else 0)"

fun mismatch_loop :: "bytes \<Rightarrow> bytes \<Rightarrow> nat \<Rightarrow> nat list \<Rightarrow> u32 list \<Rightarrow> u32 list" where
  "mismatch_loop left right limit [] out = out"
| "mismatch_loop left right limit (i # is) out =
     (if byte_or_default left i \<noteq> byte_or_default right i then
        let out' = out @ [of_nat (min i (2 ^ 32 - 1))]
        in if limit \<le> length out' then out' else mismatch_loop left right limit is out'
      else mismatch_loop left right limit is out)"

definition mismatch_positions :: "bytes \<Rightarrow> bytes \<Rightarrow> nat \<Rightarrow> u32 list" where
  "mismatch_positions left right limit =
     mismatch_loop left right limit [0..<max (length left) (length right)] []"

definition slot_mask_allows :: "u64 \<Rightarrow> u8 \<Rightarrow> bool" where
  "slot_mask_allows slots slot_index =
     (if 64 \<le> unat slot_index then False
      else slots AND push_bit (unat slot_index) 1 \<noteq> 0)"

fun gf2_lane_loop :: "nat \<Rightarrow> u64 \<Rightarrow> u64 \<Rightarrow> u64" where
  "gf2_lane_loop 0 state lane = state"
| "gf2_lane_loop (Suc n) state lane =
     (let carry = (drop_bit 63 state XOR lane) AND 1;
          shifted = push_bit 1 state;
          next = (if carry \<noteq> 0 then shifted XOR 0x1b else shifted)
      in gf2_lane_loop n next (drop_bit 1 lane))"

definition gf2_byte_step :: "u64 \<Rightarrow> u8 \<Rightarrow> u64" where
  "gf2_byte_step state b =
     (let mixed = gf2_lane_loop 8 state (ucast b) XOR word_rotl 17 (ucast b)
      in word_rotl 9 mixed XOR 0x517cc1b727220a95)"

definition gf2_fingerprint_scalar :: "bytes \<Rightarrow> u64" where
  "gf2_fingerprint_scalar bs = foldl gf2_byte_step 0xc3a5c85c97cb3127 bs"

definition gf2_fingerprint :: "bool \<Rightarrow> bytes \<Rightarrow> u64" where
  "gf2_fingerprint hw bs =
     (if hw then word_rotl 7 (gf2_fingerprint_scalar bs) XOR 0x9e3779b97f4a7c15
      else gf2_fingerprint_scalar bs)"

definition aesentinel :: u64 where
  "aesentinel = 0xa35e5a11d00df00d"

definition aes_round_mix_scalar :: "u64 \<Rightarrow> u64 \<Rightarrow> u64" where
  "aes_round_mix_scalar value key =
     (let v0 = value XOR key;
          v1 = word_rotl 17 (v0 * 0x9e3779b97f4a7c15);
          v2 = v1 XOR drop_bit 29 v1;
          v3 = word_rotl 23 (v2 * 0xbf58476d1ce4e5b9)
      in v3 XOR drop_bit 31 v3)"

definition aes_round_mix :: "bool \<Rightarrow> u64 \<Rightarrow> u64 \<Rightarrow> u64" where
  "aes_round_mix hw value key =
     (if hw then word_rotl 11 (aes_round_mix_scalar value key) XOR aesentinel
      else aes_round_mix_scalar value key)"

definition keyed_permute_indices :: "bool \<Rightarrow> nat \<Rightarrow> u64 \<Rightarrow> u16 list" where
  "keyed_permute_indices hw len key =
     (if len = 0 then []
      else
        let pairs = map (\<lambda>index. (aes_round_mix hw (of_nat index XOR key) (word_rotl 13 key),
                                  (of_nat (min index (2 ^ 16 - 1)) :: u16))) [0..<len]
        in map snd (sort pairs))"

section \<open>What the kernels compute\<close>

lemma unat_sum_list_u32:
  "sum_list (map f xs) < 2 ^ 32 \<Longrightarrow>
    unat (sum_list (map (\<lambda>x. of_nat (f x)) xs) :: u32) = sum_list (map f xs)"
proof -
  have "sum_list (map (\<lambda>x. of_nat (f x)) xs) = (of_nat (sum_list (map f xs)) :: u32)"
    by (induction xs) auto
  then show "sum_list (map f xs) < 2 ^ 32 \<Longrightarrow> ?thesis" by (simp add: unat_of_nat)
qed

lemma sum_count_ones_le:
  "sum_list (map (\<lambda>x. count_ones (f x :: u8)) xs) \<le> 8 * length xs"
  by (induction xs) (use count_ones_le [where 'a = 8] in \<open>fastforce intro: add_mono\<close>)+

lemma unat_popcount_bytes:
  assumes "length bs < 2 ^ 29"
  shows "unat (popcount_bytes bs) = sum_list (map count_ones bs)"
  using sum_count_ones_le [of "\<lambda>b. b" bs] assms
  by (simp add: popcount_bytes_def unat_sum_list_u32)

lemma unat_bitset_overlap_count:
  assumes "length left < 2 ^ 29"
  shows "unat (bitset_overlap_count left right) =
    sum_list (map (\<lambda>(l, r). count_ones (l AND r)) (zip left right))"
proof -
  have "sum_list (map (\<lambda>p. count_ones (fst p AND snd p)) (zip left right)) < 2 ^ 32"
    using sum_count_ones_le [of "\<lambda>p. fst p AND snd p" "zip left right"] assms by simp
  from unat_sum_list_u32 [OF this] show ?thesis
    by (simp add: bitset_overlap_count_def split_def)
qed

lemma delimiter_scan_eq: "delimiter_scan bs d = filter (\<lambda>i. bs ! i = d) [0..<length bs]"
proof -
  have "enumerate 0 bs = map (\<lambda>i. (i, bs ! i)) [0..<length bs]"
    by (rule nth_equalityI) (simp_all add: nth_enumerate_eq)
  then show ?thesis by (simp add: delimiter_scan_def filter_map o_def)
qed

lemma mismatch_loop_eq:
  "length out < max 1 limit \<Longrightarrow>
    mismatch_loop left right limit is out =
      take (max 1 limit)
        (out @ map (\<lambda>i. of_nat (min i (2 ^ 32 - 1)))
                 (filter (\<lambda>i. byte_or_default left i \<noteq> byte_or_default right i) is))"
proof (induction "is" arbitrary: out)
  case Nil
  then show ?case by simp
next
  case (Cons i "is")
  show ?case
  proof (cases "byte_or_default left i \<noteq> byte_or_default right i")
    case False
    with Cons show ?thesis by simp
  next
    case True
    show ?thesis
    proof (cases "limit \<le> Suc (length out)")
      case le: True
      then have "max 1 limit = Suc (length out)" using Cons.prems by (auto simp: max_def)
      with True le show ?thesis by (simp add: Let_def)
    next
      case False
      then have "length (out @ [of_nat (min i (2 ^ 32 - 1))]) < max 1 limit" by (simp add: max_def)
      from Cons.IH [OF this] True False show ?thesis by (simp add: Let_def)
    qed
  qed
qed

lemma mismatch_positions_eq:
  "mismatch_positions left right limit =
     take (max 1 limit)
       (map (\<lambda>i. of_nat (min i (2 ^ 32 - 1)))
         (filter (\<lambda>i. byte_or_default left i \<noteq> byte_or_default right i)
           [0..<max (length left) (length right)]))"
  by (simp add: mismatch_positions_def mismatch_loop_eq)

lemma slot_mask_allows_bit: "slot_mask_allows slots s \<longleftrightarrow> bit slots (unat s)"
proof -
  have "slots AND push_bit i 1 \<noteq> 0 \<longleftrightarrow> bit slots i" if "i < 64" for i
  proof -
    have "slots AND push_bit i 1 \<noteq> 0 \<longleftrightarrow> (\<exists>j. bit (slots AND push_bit i 1) j)"
      using bit_eqI [of "slots AND push_bit i 1" 0] by auto
    then show ?thesis using that by (auto simp: bit_simps)
  qed
  moreover have "\<not> bit slots i" if "64 \<le> i" for i
    using that bit_imp_le_length [of slots i] by auto
  ultimately show ?thesis by (auto simp: slot_mask_allows_def)
qed

section \<open>The keyed permutation\<close>

lemma mset_keyed_permute_indices:
  "mset (keyed_permute_indices hw len key) = mset (map (\<lambda>i. of_nat (min i (2 ^ 16 - 1))) [0..<len])"
  by (simp add: keyed_permute_indices_def Let_def multiset.map_comp o_def)

lemma length_keyed_permute_indices: "length (keyed_permute_indices hw len key) = len"
  using mset_keyed_permute_indices [of hw len key, THEN arg_cong [where f = size]] by simp

lemma inj_on_of_nat_u16: "len \<le> 2 ^ 16 \<Longrightarrow> inj_on (of_nat :: nat \<Rightarrow> u16) {0..<len}"
  by (rule inj_on_inverseI [where g = unat]) (simp add: unat_of_nat)

text \<open>
  For every key the result lists each index below \<open>len\<close> exactly once, as long as the indices fit the
  \<open>u16\<close> they are stored in.
\<close>

lemma keyed_permute_indices_perm:
  assumes "len \<le> 2 ^ 16"
  shows "mset (keyed_permute_indices hw len key) = mset (map of_nat [0..<len])"
    and "distinct (keyed_permute_indices hw len key)"
proof -
  have "map (\<lambda>i. of_nat (min i (2 ^ 16 - 1)) :: u16) [0..<len] = map of_nat [0..<len]"
    using assms by (intro map_cong) (simp_all add: min_def)
  then show m: "mset (keyed_permute_indices hw len key) = mset (map of_nat [0..<len])"
    using mset_keyed_permute_indices [of hw len key] by (simp only:)
  have "distinct (map (of_nat :: nat \<Rightarrow> u16) [0..<len])"
    using inj_on_of_nat_u16 [OF assms] by (simp add: distinct_map)
  with m show "distinct (keyed_permute_indices hw len key)"
    by (metis mset_eq_imp_distinct_iff)
qed

text \<open>Beyond 65536 indices the clamp makes the last index appear more than once.\<close>

lemma keyed_permute_indices_clamp:
  assumes "2 ^ 16 < len"
  shows "\<not> distinct (keyed_permute_indices hw len key)"
proof
  assume "distinct (keyed_permute_indices hw len key)"
  then have d: "distinct (map (\<lambda>i. of_nat (min i (2 ^ 16 - 1)) :: u16) [0..<len])"
    using mset_keyed_permute_indices [of hw len key] mset_eq_imp_distinct_iff by blast
  have "map (\<lambda>i. of_nat (min i (2 ^ 16 - 1)) :: u16) [0..<len] ! 65535 =
        map (\<lambda>i. of_nat (min i (2 ^ 16 - 1)) :: u16) [0..<len] ! 65536"
    using assms by simp
  then show False using d assms nth_eq_iff_index_eq [of _ 65535 65536] by fastforce
qed

section \<open>Properties\<close>

text \<open>\<open>keyed_permute_indices\<close> is a permutation of \<open>0..len\<close> for every key, on either kind of CPU, as
  long as the indices fit in 16 bits: no index is lost and none repeats.\<close>

theorem keyed_permutation:
  assumes "len \<le> 2 ^ 16"
  shows "mset (keyed_permute_indices hw len key) = mset (map of_nat [0..<len])
    \<and> distinct (keyed_permute_indices hw len key)"
  using keyed_permute_indices_perm [OF assms] by blast

lemma keyed_permutation_witness:
  "mset (keyed_permute_indices False 3 7) = {#0, 1, 2#}"
  using keyed_permutation [of 3 False 7] by (simp add: numeral_3_eq_3 add.commute)

end
