(* ===== verification/Pulzz_Substrate.thy ===== *)
theory Pulzz_Substrate
  imports Pulzz_State_Choice Pulzz_Kernels "HOL-Library.List_Lexorder"
begin

text \<open>
  Substrate route graphs (\<open>shared_protocol/src/state.rs\<close>, first part), the planner of exact-atom routes
  (\<open>exact_atom_plan\<close> in \<open>state_policy.rs\<close>) and the client's resolution of substrate references
  (\<open>client/src/lib.rs\<close>).  The client's item cache is a parameter: a lookup from item ids to bytes.
\<close>

section \<open>References and objects\<close>

record SubstrateRef =
  su_object_kind :: ObjectKind
  su_object_id :: u64
  su_start :: u32
  su_len :: u32
  su_version :: ObjectVersion
  su_dependencies :: "ObjectDependency list"

definition substrate_new ::
  "ObjectKind \<Rightarrow> u64 \<Rightarrow> u32 \<Rightarrow> u32 \<Rightarrow> ObjectVersion \<Rightarrow> ObjectDependency list \<Rightarrow> SubstrateRef"
where
  "substrate_new kind i start len version dependencies =
     \<lparr>su_object_kind = kind, su_object_id = i, su_start = start, su_len = len, su_version = version,
      su_dependencies = dependencies\<rparr>"

definition substrate_opaque :: "ObjectKind \<Rightarrow> u64 \<Rightarrow> SubstrateRef" where
  "substrate_opaque kind i = substrate_new kind i 0 0 version_default []"

definition substrate_from_dependency :: "ObjectDependency \<Rightarrow> SubstrateRef" where
  "substrate_from_dependency d =
     substrate_new (od_object_kind d) (case parse_u64 (od_object_id d) of Some i \<Rightarrow> i | None \<Rightarrow> 0) 0 0
       \<lparr>ov_schema_version = 0, ov_object_revision = od_required_revision d\<rparr> []"

definition substrate_ref_capability :: "SubstrateRef \<Rightarrow> SubstrateCapability option" where
  "substrate_ref_capability r = substrate_capability (su_object_kind r)"

record SubstrateObject =
  so_capability :: SubstrateCapability
  so_reference :: SubstrateRef
  so_output_len :: u32
  so_version :: ObjectVersion
  so_dependency_closure :: "ObjectDependency list"

definition object_try_new :: "SubstrateRef \<Rightarrow> u32 \<Rightarrow> SubstrateObject option" where
  "object_try_new r output_len =
     map_option (\<lambda>c. \<lparr>so_capability = c, so_reference = r, so_output_len = output_len, so_version = su_version r,
                     so_dependency_closure = su_dependencies r\<rparr>) (substrate_ref_capability r)"

section \<open>Route graphs\<close>

datatype SubstrateRouteNodeKind = Material | ConcatNode

record SubstrateRouteNode =
  rn_node_id :: u32
  rn_kind :: SubstrateRouteNodeKind
  rn_substrate :: "SubstrateObject option"
  rn_child_ids :: "u32 list"
  rn_output_len :: u32

record SubstrateRouteGraph =
  rg_version :: u8
  rg_capability_mask :: SubstrateCapabilityMask
  rg_output_len :: u32
  rg_root_node_id :: u32
  rg_dependency_closure :: "ObjectDependency list"
  rg_nodes :: "SubstrateRouteNode list"

definition GRAPH_VERSION :: u8 where "GRAPH_VERSION = 1"

text \<open>Dependencies are sorted by kind, id and revision, and repetitions are dropped.\<close>

definition dependency_rank :: "ObjectDependency \<Rightarrow> nat \<times> nat list \<times> nat" where
  "dependency_rank d = (ObjectKind_disc (od_object_kind d), map of_char (od_object_id d), unat (od_required_revision d))"

definition normalize_dependencies :: "ObjectDependency list \<Rightarrow> ObjectDependency list" where
  "normalize_dependencies ds = remdups_adj (sort_key dependency_rank ds)"

definition material_node :: "u32 \<Rightarrow> u32 \<Rightarrow> SubstrateObject \<Rightarrow> SubstrateRouteNode" where
  "material_node i output_len obj =
     \<lparr>rn_node_id = i, rn_kind = Material, rn_substrate = Some obj, rn_child_ids = [], rn_output_len = output_len\<rparr>"

definition graph_from_objects :: "SubstrateObject list \<Rightarrow> SubstrateRouteGraph" where
  "graph_from_objects objects =
     (let capability_mask = fold (\<lambda>obj. mask_insert (so_capability obj)) objects 0;
          capability_mask = (if length objects > 1 then mask_insert SC_CompositeGraph capability_mask else capability_mask);
          output_len = foldl (\<lambda>total obj. saturating_add total (so_output_len obj)) 0 objects;
          closure = normalize_dependencies (concat (map so_dependency_closure objects)) in
      case objects of
        [] \<Rightarrow> \<lparr>rg_version = GRAPH_VERSION, rg_capability_mask = capability_mask, rg_output_len = 0,
               rg_root_node_id = 0, rg_dependency_closure = closure, rg_nodes = []\<rparr>
      | [obj] \<Rightarrow> \<lparr>rg_version = GRAPH_VERSION, rg_capability_mask = capability_mask, rg_output_len = output_len,
               rg_root_node_id = 1, rg_dependency_closure = closure, rg_nodes = [material_node 1 output_len obj]\<rparr>
      | _ \<Rightarrow> \<lparr>rg_version = GRAPH_VERSION, rg_capability_mask = capability_mask, rg_output_len = output_len,
               rg_root_node_id = 0, rg_dependency_closure = closure,
               rg_nodes =
                 \<lparr>rn_node_id = 0, rn_kind = ConcatNode, rn_substrate = None,
                  rn_child_ids = map of_nat [1..<Suc (length objects)], rn_output_len = output_len\<rparr>
                 # map (\<lambda>(index, obj). material_node (of_nat index + 1) (so_output_len obj) obj)
                     (enumerate 0 objects)\<rparr>)"

fun capability_debug :: "SubstrateCapability \<Rightarrow> string" where
  "capability_debug SC_AtomFragment = ''AtomFragment''"
| "capability_debug SC_ExactBlock = ''ExactBlock''"
| "capability_debug SC_ExactBundle = ''ExactBundle''"
| "capability_debug SC_ExactRange = ''ExactRange''"
| "capability_debug SC_ResidualBuffer = ''ResidualBuffer''"
| "capability_debug SC_CompositeGraph = ''CompositeGraph''"

abbreviation dispatch_error :: "string \<Rightarrow> StateProgramError" where
  "dispatch_error m \<equiv> SE_Payload (InvalidPredictiveDispatchContract m)"

definition missing_substrate :: "SubstrateRouteNode \<Rightarrow> StateProgramError" where
  "missing_substrate node =
     dispatch_error (''substrate material node '' @ show_nat (unat (rn_node_id node)) @ '' is missing its substrate object'')"

definition graph_check_node :: "SubstrateCapabilityMask \<Rightarrow> SubstrateRouteNode \<Rightarrow> StateProgramError + unit" where
  "graph_check_node caps node =
     (case rn_kind node of
        Material \<Rightarrow>
          and_then (ok_or (missing_substrate node) (rn_substrate node)) (\<lambda>obj.
            if \<not> mask_contains caps (so_capability obj) \<and> \<not> mask_contains caps SC_CompositeGraph
            then Err (dispatch_error (''substrate material node '' @ show_nat (unat (rn_node_id node))
                   @ '' advertises unsupported capability '' @ capability_debug (so_capability obj)))
            else Ok ())
      | ConcatNode \<Rightarrow>
          if rn_child_ids node = []
          then Err (dispatch_error (''substrate concat node '' @ show_nat (unat (rn_node_id node)) @ '' is missing child nodes''))
          else Ok ())"

definition graph_validate :: "SubstrateRouteGraph \<Rightarrow> StateProgramError + unit" where
  "graph_validate g =
     (if rg_version g \<noteq> GRAPH_VERSION
      then Err (dispatch_error (''invalid substrate graph version '' @ show_nat (unat (rg_version g))))
      else if rg_nodes g = [] then Err (SE_Prg (PrgMissingRoot (rg_root_node_id g)))
      else if \<not> list_ex (\<lambda>n. rn_node_id n = rg_root_node_id g) (rg_nodes g)
      then Err (SE_Prg (PrgMissingRoot (rg_root_node_id g)))
      else try_each (graph_check_node (rg_capability_mask g)) (rg_nodes g))"

section \<open>Execution\<close>

text \<open>
  The set of active nodes is passed down: a call that succeeds removes the node it had inserted, so
  the set is the same again for the next sibling, and a call that fails ends the execution.
\<close>

lemma try_map_cong_fun [fundef_cong]:
  "xs = ys \<Longrightarrow> (\<And>x. x \<in> set ys \<Longrightarrow> f x = g x) \<Longrightarrow> try_map f xs = try_map g ys"
  by (erule ssubst, rule try_map_cong)

definition find_node :: "SubstrateRouteGraph \<Rightarrow> u32 \<Rightarrow> SubstrateRouteNode option" where
  "find_node g node_id = find (\<lambda>n. rn_node_id n = node_id) (rg_nodes g)"

lemma find_node_id: "find_node g i = Some node \<Longrightarrow> i \<in> set (map rn_node_id (rg_nodes g))"
  unfolding find_node_def by (auto dest: find_SomeD)

definition node_material ::
  "(SubstrateRef \<Rightarrow> bytes option) \<Rightarrow> SubstrateRouteNode \<Rightarrow> StateProgramError + bytes"
where
  "node_material resolve node =
     and_then (ok_or (missing_substrate node) (rn_substrate node)) (\<lambda>obj.
       ok_or (SE_Prg (PrgMissingDependency (show_nat (unat (su_object_id (so_reference obj))))))
         (resolve (so_reference obj)))"

definition check_node_len :: "SubstrateRouteNode \<Rightarrow> bytes \<Rightarrow> StateProgramError + bytes" where
  "check_node_len node out =
     (if length out \<noteq> unat (rn_output_len node)
      then Err (SE_Prg (PrgNodeOutputLenMismatch (rn_node_id node) (rn_output_len node) (of_nat (length out))))
      else Ok out)"

function execute_node ::
  "SubstrateRouteGraph \<Rightarrow> (SubstrateRef \<Rightarrow> bytes option) \<Rightarrow> u32 set \<Rightarrow> u32 \<Rightarrow> StateProgramError + bytes"
where
  "execute_node g resolve active node_id =
     (if node_id \<in> active then Err (SE_Prg (PrgCycleDetected node_id))
      else case find_node g node_id of
        None \<Rightarrow> Err (SE_Prg (PrgMissingNode node_id))
      | Some node \<Rightarrow>
          and_then
            (case rn_kind node of
               Material \<Rightarrow> node_material resolve node
             | ConcatNode \<Rightarrow>
                 and_then (try_map (execute_node g resolve (insert node_id active)) (rn_child_ids node))
                   (\<lambda>parts. Ok (concat parts)))
            (check_node_len node))"
  by pat_completeness auto

termination
proof (relation "measure (\<lambda>(g, resolve, active, node_id). card (set (map rn_node_id (rg_nodes g)) - active))", goal_cases)
  case 1
  then show ?case by simp
next
  case (2 g resolve active node_id node child)
  then have "node_id \<in> set (map rn_node_id (rg_nodes g)) - active" using find_node_id by blast
  then have "set (map rn_node_id (rg_nodes g)) - insert node_id active \<subset> set (map rn_node_id (rg_nodes g)) - active"
    by blast
  then show ?case by (auto intro: psubset_card_mono)
qed

declare execute_node.simps [simp del]

definition execute_substrate_route_graph ::
  "SubstrateRouteGraph \<Rightarrow> (SubstrateRef \<Rightarrow> bytes option) \<Rightarrow> StateProgramError + bytes"
where
  "execute_substrate_route_graph g resolve =
     and_then (graph_validate g) (\<lambda>_.
     and_then (execute_node g resolve {} (rg_root_node_id g)) (\<lambda>out.
       if length out \<noteq> unat (rg_output_len g)
       then Err (SE_Prg (PrgOutputLenMismatch (rg_output_len g) (of_nat (length out))))
       else Ok out))"

section \<open>Resolving references at the client\<close>

definition slice_component_bytes :: "bytes \<Rightarrow> u32 \<Rightarrow> u32 \<Rightarrow> bytes option" where
  "slice_component_bytes bs start len =
     (let start = unat start; len = unat len; end = start + len in
      if end \<le> length bs then Some (slice start end bs) else None)"

definition whole_or_slice :: "SubstrateRef \<Rightarrow> bytes \<Rightarrow> bytes option" where
  "whole_or_slice r bs =
     (if su_start r = 0 \<and> (su_len r = 0 \<or> unat (su_len r) = length bs) then Some bs
      else slice_component_bytes bs (su_start r) (su_len r))"

definition cached_or_slice :: "SubstrateRef \<Rightarrow> bytes \<Rightarrow> bytes option" where
  "cached_or_slice r bs =
     (if su_start r = 0 \<and> su_len r = 0 then Some bs else slice_component_bytes bs (su_start r) (su_len r))"

definition ok_option :: "'e + 'a \<Rightarrow> 'a option" where
  "ok_option m = (case m of Inl _ \<Rightarrow> None | Inr x \<Rightarrow> Some x)"

definition resolve_substrate_reference ::
  "sha \<Rightarrow> (ItemId \<Rightarrow> bytes option) \<Rightarrow> SharedBlockCatalog \<Rightarrow> SubstrateRef \<Rightarrow> bytes option"
where
  "resolve_substrate_reference sha cache cat r =
     (case su_object_kind r of
        OK_AtomFragment \<Rightarrow> Option.bind (cache (su_object_id r)) (cached_or_slice r)
      | OK_ExactState \<Rightarrow> Option.bind (cache (su_object_id r)) (cached_or_slice r)
      | OK_ExactBlock \<Rightarrow> Option.bind (om_get (cat_blocks cat) (su_object_id r)) (\<lambda>e. whole_or_slice r (be_material e))
      | OK_ExactRange \<Rightarrow> ok_option (materialize_block_range cat (su_object_id r) (su_start r)
          (if su_len r = 0 then - 1 else su_len r))
      | OK_ExactBundle \<Rightarrow> Option.bind (ok_option (materialize_bundle sha cat (su_object_id r))) (whole_or_slice r)
      | OK_ResidualBuffer \<Rightarrow> Option.bind (cache (su_object_id r)) (cached_or_slice r)
      | _ \<Rightarrow> None)"

section \<open>Planning exact-atom routes\<close>

record ExactAtomPlan =
  ap_basis :: StateBasis
  ap_output_len :: u32
  ap_capability_mask :: SubstrateCapabilityMask
  ap_substrate_graph :: SubstrateRouteGraph

definition exact_atom_ref_to_substrate_object ::
  "sha \<Rightarrow> StateRef \<Rightarrow> SharedBlockCatalog \<Rightarrow> SubstrateObject option"
where
  "exact_atom_ref_to_substrate_object sha r cat =
     (case sr_kind r of
        RK_Block \<Rightarrow>
          if sr_start r = 0 \<and> sr_indices r = [] then
            if sr_len r = 0 then
              Option.bind (om_get (cat_blocks cat) (sr_base_id r)) (\<lambda>e.
                let output_len = of_nat (length (be_material e)) in
                object_try_new (substrate_new OK_ExactBlock (sr_base_id r) 0 output_len version_default []) output_len)
            else object_try_new (substrate_new OK_ExactRange (sr_base_id r) 0 (sr_len r) version_default []) (sr_len r)
          else None
      | RK_Range \<Rightarrow>
          object_try_new (substrate_new OK_ExactRange (sr_base_id r) (sr_start r) (sr_len r) version_default []) (sr_len r)
      | RK_Bundle \<Rightarrow>
          if sr_start r = 0 \<and> sr_indices r = [] then
            Option.bind
              (if sr_len r \<noteq> 0 then Some (sr_len r)
               else map_option (\<lambda>m. of_nat (length m)) (ok_option (materialize_bundle sha cat (sr_base_id r))))
              (\<lambda>output_len.
                object_try_new (substrate_new OK_ExactBundle (sr_base_id r) 0 output_len version_default []) output_len)
          else None
      | _ \<Rightarrow> None)"

fun exact_atom_output_len :: "u32 \<Rightarrow> SubstrateObject list \<Rightarrow> u32 option" where
  "exact_atom_output_len acc [] = Some acc"
| "exact_atom_output_len acc (obj # objs) =
     Option.bind (checked_add acc (so_output_len obj)) (\<lambda>acc. exact_atom_output_len acc objs)"

definition exact_atom_plan_from_objects :: "StateBasis \<Rightarrow> SubstrateObject list \<Rightarrow> ExactAtomPlan option" where
  "exact_atom_plan_from_objects basis objects =
     (if objects = [] then None
      else Option.bind (exact_atom_output_len 0 objects) (\<lambda>output_len.
        let g = graph_from_objects objects in
        Some \<lparr>ap_basis = basis, ap_output_len = output_len, ap_capability_mask = rg_capability_mask g,
              ap_substrate_graph = g\<rparr>))"

definition dependency_id :: "ObjectKind \<Rightarrow> u64 \<Rightarrow> string" where
  "dependency_id kind i =
     (case kind of
        OK_ExactBlock \<Rightarrow> ''block:'' @ show_nat (unat i)
      | OK_ExactBundle \<Rightarrow> ''bundle:'' @ show_nat (unat i)
      | OK_ExactRange \<Rightarrow> ''range:'' @ show_nat (unat i)
      | _ \<Rightarrow> show_nat (unat i))"

definition make_substrate_ref :: "ObjectKind \<Rightarrow> u64 \<Rightarrow> u32 \<Rightarrow> u32 \<Rightarrow> SubstrateRef" where
  "make_substrate_ref kind i start len =
     substrate_new kind i start len version_default
       [\<lparr>od_object_kind = kind, od_object_id = dependency_id kind i, od_required_revision = 0\<rparr>]"

definition single_atom_plan :: "StateBasis \<Rightarrow> ObjectKind \<Rightarrow> u64 \<Rightarrow> u32 \<Rightarrow> u32 \<Rightarrow> ExactAtomPlan option" where
  "single_atom_plan basis kind i start len =
     Option.bind (object_try_new (make_substrate_ref kind i start len) len) (\<lambda>obj.
       exact_atom_plan_from_objects basis [obj])"

definition whole_window :: "bytes \<Rightarrow> BlockCatalogEntry \<Rightarrow> WindowMatch option" where
  "whole_window payload e =
     (case find_best_window_in_base payload (be_material e) of
        Some w \<Rightarrow> if wm_payload_start w = 0 \<and> wm_matched_len w = length payload then Some w else None
      | None \<Rightarrow> None)"

fun try_option_map :: "('a \<Rightarrow> 'b option) \<Rightarrow> 'a list \<Rightarrow> 'b list option" where
  "try_option_map f [] = Some []"
| "try_option_map f (x # xs) = Option.bind (f x) (\<lambda>y. map_option ((#) y) (try_option_map f xs))"

text \<open>Four searches, each of which returns when it finds something.\<close>

definition exact_atom_plan :: "sha \<Rightarrow> ExactStateMaterial \<Rightarrow> SharedBlockCatalog \<Rightarrow> ExactAtomPlan option" where
  "exact_atom_plan sha current cat =
     (let payload = esm_exact_bytes current in
      case find (\<lambda>e. be_material e = payload) (map snd (cat_blocks cat)) of
        Some e \<Rightarrow> single_atom_plan (BasisBlock (be_block_id e)) OK_ExactBlock (be_block_id e) 0 (of_nat (length (be_material e)))
      | None \<Rightarrow>
      case find (\<lambda>b. materialize_bundle sha cat (bu_bundle_id b) = Ok payload) (map snd (cat_bundles cat)) of
        Some b \<Rightarrow> single_atom_plan (BasisBundle (bu_bundle_id b)) OK_ExactBundle (bu_bundle_id b) 0 (of_nat (length payload))
      | None \<Rightarrow>
      case find (\<lambda>e. whole_window payload e \<noteq> None) (map snd (cat_blocks cat)) of
        Some e \<Rightarrow>
          Option.bind (whole_window payload e) (\<lambda>w.
            single_atom_plan (BasisRange (be_block_id e) (wm_base_start w) (of_nat (wm_matched_len w)))
              OK_ExactRange (be_block_id e) (wm_base_start w) (of_nat (wm_matched_len w)))
      | None \<Rightarrow>
          Option.bind (best_prefix_refs sha payload cat MAX_COMPOSITE_STATE_REFS 0) (\<lambda>refs.
            if co_covered_len refs \<noteq> length payload \<or> length (co_refs refs) < 2 then None
            else Option.bind (try_option_map (\<lambda>r. exact_atom_ref_to_substrate_object sha r cat) (co_refs refs)) (\<lambda>objects.
              exact_atom_plan_from_objects (BasisComposite (ref_count_u16 refs) 0) objects)))"

section \<open>Cycle detection rejects only graphs without a value\<close>

lemma try_option_map_iff: "try_option_map f xs = Some ys \<longleftrightarrow> list_all2 (\<lambda>x y. f x = Some y) xs ys"
proof (induction xs arbitrary: ys)
  case Nil
  then show ?case by auto
next
  case (Cons x xs)
  then show ?case by (cases ys) (auto simp: bind_eq_Some_conv)
qed

text \<open>
  The value of a node, without any bookkeeping: the material of its substrate, or the concatenation of
  the values of its children, if the length is as declared.  The number bounds the depth.
\<close>

fun node_value :: "SubstrateRouteGraph \<Rightarrow> (SubstrateRef \<Rightarrow> bytes option) \<Rightarrow> nat \<Rightarrow> u32 \<Rightarrow> bytes option" where
  "node_value g resolve 0 i = None"
| "node_value g resolve (Suc n) i =
     Option.bind (find_node g i) (\<lambda>node.
     Option.bind
       (case rn_kind node of
          Material \<Rightarrow> ok_option (node_material resolve node)
        | ConcatNode \<Rightarrow> map_option concat (try_option_map (node_value g resolve n) (rn_child_ids node)))
       (\<lambda>out. if length out = unat (rn_output_len node) then Some out else None))"

lemma ok_option_iff [simp]: "ok_option m = Some x \<longleftrightarrow> m = Ok x"
  by (auto simp: ok_option_def split: sum.splits)

lemma check_node_len_iff [simp]: "check_node_len node x = Ok out \<longleftrightarrow> out = x \<and> length x = unat (rn_output_len node)"
  by (auto simp: check_node_len_def)

lemma node_value_Suc_iff:
  "node_value g resolve (Suc n) i = Some out \<longleftrightarrow>
    (\<exists>node. find_node g i = Some node \<and> length out = unat (rn_output_len node)
      \<and> (case rn_kind node of
           Material \<Rightarrow> node_material resolve node = Ok out
         | ConcatNode \<Rightarrow> \<exists>parts. list_all2 (\<lambda>c p. node_value g resolve n c = Some p) (rn_child_ids node) parts \<and> out = concat parts))"
  by (auto simp: bind_eq_Some_conv try_option_map_iff split: SubstrateRouteNodeKind.splits if_splits)

lemma execute_node_iff:
  "execute_node g resolve active i = Ok out \<longleftrightarrow> i \<notin> active \<and>
    (\<exists>node. find_node g i = Some node \<and> length out = unat (rn_output_len node)
      \<and> (case rn_kind node of
           Material \<Rightarrow> node_material resolve node = Ok out
         | ConcatNode \<Rightarrow> \<exists>parts. list_all2 (\<lambda>c p. execute_node g resolve (insert i active) c = Ok p) (rn_child_ids node) parts
             \<and> out = concat parts))"
  by (subst execute_node.simps) (auto simp: try_map_iff split: option.splits SubstrateRouteNodeKind.splits)

lemma node_value_mono: "node_value g resolve n i = Some out \<Longrightarrow> n \<le> m \<Longrightarrow> node_value g resolve m i = Some out"
proof (induction n arbitrary: m i out)
  case (Suc n)
  then obtain m' where m: "m = Suc m'" "n \<le> m'" by (cases m) auto
  have "list_all2 (\<lambda>c p. node_value g resolve m' c = Some p) cs ps"
    if "list_all2 (\<lambda>c p. node_value g resolve n c = Some p) cs ps" for cs ps
    using that by (elim list_all2_mono) (rule Suc.IH [OF _ m(2)])
  then show ?case
    using Suc.prems(1) unfolding m(1) node_value_Suc_iff by (auto split: SubstrateRouteNodeKind.splits)
qed simp

lemma node_values_common_bound:
  assumes "list_all2 (\<lambda>c p. \<exists>n. node_value g resolve n c = Some p) cs ps"
  shows "\<exists>n. list_all2 (\<lambda>c p. node_value g resolve n c = Some p) cs ps"
  using assms
proof (induction rule: list_all2_induct)
  case (Cons c cs p ps)
  then obtain n m where n: "node_value g resolve n c = Some p"
    and m: "list_all2 (\<lambda>c p. node_value g resolve m c = Some p) cs ps" by blast
  have "list_all2 (\<lambda>c p. node_value g resolve (max n m) c = Some p) cs ps"
    using m by (elim list_all2_mono) (rule node_value_mono, auto)
  moreover have "node_value g resolve (max n m) c = Some p" using n by (rule node_value_mono) simp
  ultimately show ?case by auto
qed simp

lemma execute_node_sound: "execute_node g resolve active i = Ok out \<Longrightarrow> \<exists>n. node_value g resolve n i = Some out"
proof (induction g resolve active i arbitrary: out rule: execute_node.induct)
  case (1 g resolve active i)
  from iffD1 [OF execute_node_iff "1.prems"] obtain node where free: "i \<notin> active" and node: "find_node g i = Some node"
    and len: "length out = unat (rn_output_len node)"
    and kind: "case rn_kind node of
           Material \<Rightarrow> node_material resolve node = Ok out
         | ConcatNode \<Rightarrow> \<exists>parts. list_all2 (\<lambda>c p. execute_node g resolve (insert i active) c = Ok p) (rn_child_ids node) parts
             \<and> out = concat parts" by blast
  show ?case
  proof (cases "rn_kind node")
    case Material
    with kind node len have "node_value g resolve (Suc 0) i = Some out" unfolding node_value_Suc_iff by simp
    then show ?thesis ..
  next
    case ConcatNode
    with kind obtain parts where run: "list_all2 (\<lambda>c p. execute_node g resolve (insert i active) c = Ok p) (rn_child_ids node) parts"
      and out: "out = concat parts" by auto
    have "list_all2 (\<lambda>c p. \<exists>n. node_value g resolve n c = Some p) (rn_child_ids node) parts"
      using run by (rule list.rel_mono_strong) (use "1.IH" [OF free node ConcatNode] in blast)
    then obtain n where "list_all2 (\<lambda>c p. node_value g resolve n c = Some p) (rn_child_ids node) parts"
      using node_values_common_bound by blast
    with node len out ConcatNode have "node_value g resolve (Suc n) i = Some out"
      unfolding node_value_Suc_iff by auto
    then show ?thesis ..
  qed
qed

lemma execute_node_complete:
  "node_value g resolve n i = Some out \<Longrightarrow> (\<forall>a \<in> active. node_value g resolve n a = None) \<Longrightarrow>
    execute_node g resolve active i = Ok out"
proof (induction n arbitrary: i out active)
  case (Suc n)
  have below: "node_value g resolve n a = None" if "a \<in> active" for a
    using Suc.prems(2) that node_value_mono [of g resolve n a _ "Suc n"]
    by (cases "node_value g resolve n a") auto
  show ?case
  proof (cases "node_value g resolve n i")
    case (Some x)
    with Suc.prems(1) node_value_mono [OF Some, of "Suc n"] have "x = out" by simp
    with Suc.IH [OF Some] below show ?thesis by blast
  next
    case None
    have "list_all2 (\<lambda>c p. execute_node g resolve (insert i active) c = Ok p) cs ps"
      if "list_all2 (\<lambda>c p. node_value g resolve n c = Some p) cs ps" for cs ps
      using that by (elim list_all2_mono) (rule Suc.IH, use None below in auto)
    moreover have "i \<notin> active" using Suc.prems by auto
    ultimately show ?thesis
      using iffD1 [OF node_value_Suc_iff Suc.prems(1)]
      by (intro iffD2 [OF execute_node_iff]) (fastforce split: SubstrateRouteNodeKind.splits)
  qed
qed simp

text \<open>C17: executing a route graph is evaluating it: execution succeeds exactly when the graph is valid and its
  root has a value of the announced length, and returns that value.  In particular the bookkeeping of
  active nodes reports a cycle only when the root has no value, and never loops.\<close>

theorem route_graph_execution_is_evaluation:
  shows "execute_substrate_route_graph g resolve = Ok out \<longleftrightarrow>
    graph_validate g = Ok () \<and> length out = unat (rg_output_len g)
      \<and> (\<exists>n. node_value g resolve n (rg_root_node_id g) = Some out)"
proof -
  have "execute_node g resolve {} i = Ok out \<longleftrightarrow> (\<exists>n. node_value g resolve n i = Some out)" for i out
    using execute_node_sound execute_node_complete [where active = "{}"] by blast
  then show ?thesis by (auto simp: execute_substrate_route_graph_def split: if_splits)
qed

lemma ok_option_simps [simp]: "ok_option (Inr x) = Some x" "ok_option (Inl e) = None"
  by (simp_all add: ok_option_def)

section \<open>Routes over objects concatenate their materials\<close>

definition object_gives :: "(SubstrateRef \<Rightarrow> bytes option) \<Rightarrow> SubstrateObject \<Rightarrow> bytes \<Rightarrow> bool" where
  "object_gives resolve obj m \<longleftrightarrow> resolve (so_reference obj) = Some m \<and> length m = unat (so_output_len obj)"

lemma material_node_value:
  assumes "find_node g i = Some (material_node k w obj)" and "object_gives resolve obj m" and "w = so_output_len obj"
  shows "node_value g resolve (Suc n) i = Some m"
  using assms by (auto simp: node_value_Suc_iff material_node_def node_material_def object_gives_def
      simp del: node_value.simps)

lemma saturated_output_len:
  assumes "list_all2 (object_gives resolve) objs parts" and "unat w + length (concat parts) < 2 ^ 32"
  shows "unat (foldl (\<lambda>total obj. saturating_add total (so_output_len obj)) w objs) = unat w + length (concat parts)"
  using assms
proof (induction arbitrary: w rule: list_all2_induct)
  case (Cons obj objs m parts)
  then have "unat (w + so_output_len obj) = unat w + length m" and "saturating_add w (so_output_len obj) = w + so_output_len obj"
    by (auto simp: object_gives_def saturating_add_def unat_word_ariths)
  with Cons show ?case by simp
qed simp

lemma fold_capability: "fold (\<lambda>obj. mask_insert (so_capability obj)) objs m = fold mask_insert (map so_capability objs) m"
  by (induction objs arbitrary: m) simp_all

lemma graph_nodes_valid:
  assumes "\<And>n. n \<in> set (rg_nodes g) \<Longrightarrow> graph_check_node (rg_capability_mask g) n = Ok ()"
    and "rg_version g = GRAPH_VERSION" and "find_node g (rg_root_node_id g) = Some root"
  shows "graph_validate g = Ok ()"
proof -
  have "list_ex (\<lambda>n. rn_node_id n = rg_root_node_id g) (rg_nodes g)"
    using assms(3) unfolding find_node_def list_ex_iff by (auto dest: find_SomeD)
  with assms(1,2) show ?thesis by (auto simp: graph_validate_def try_each_iff)
qed

lemma single_graph_executes:
  assumes gives: "object_gives resolve obj m"
  shows "execute_substrate_route_graph (graph_from_objects [obj]) resolve = Ok m"
proof -
  let ?g = "graph_from_objects [obj]"
  have sat: "saturating_add 0 (so_output_len obj) = so_output_len obj"
    using unsigned_less [of "so_output_len obj", where 'a = nat] by (simp add: saturating_add_def)
  have root: "find_node ?g (rg_root_node_id ?g) = Some (material_node 1 (so_output_len obj) obj)"
    by (simp add: find_node_def graph_from_objects_def material_node_def sat Let_def)
  have "execute_node ?g resolve {} (rg_root_node_id ?g) = Ok m"
    by (rule execute_node_complete [OF material_node_value [OF root gives]]) simp_all
  moreover have "graph_validate ?g = Ok ()"
    by (rule graph_nodes_valid [OF _ _ root])
       (auto simp: graph_from_objects_def graph_check_node_def material_node_def Let_def)
  moreover have "unat (rg_output_len ?g) = length m"
    using gives by (simp add: graph_from_objects_def sat Let_def object_gives_def)
  ultimately show ?thesis by (simp add: execute_substrate_route_graph_def)
qed

lemma find_enumerated:
  assumes "k < length xs" and "length xs < 2 ^ 32"
    and "\<And>i x. f (i, x) = of_nat i + (1 :: u32)" and "\<And>i x. rn_node_id (node (i, x)) = f (i, x)"
  shows "find (\<lambda>n. rn_node_id n = of_nat (Suc k)) (map node (enumerate 0 xs)) = Some (node (k, xs ! k))"
proof -
  have word: "(of_nat i :: u32) = of_nat k \<longleftrightarrow> i = k" if "i \<le> k" for i
    using that assms(1,2) by (auto dest!: arg_cong [where f = unat] simp: unat_of_nat_u32)
  have "rn_node_id (map node (enumerate 0 xs) ! i) = of_nat (Suc i)" if "i < length xs" for i
    using that assms(3,4) by (simp add: nth_enumerate_eq)
  then show ?thesis
    using assms(1) word by (auto simp: find_Some_iff nth_enumerate_eq intro!: exI [of _ k])
qed

lemma composite_graph_executes:
  assumes gives: "list_all2 (object_gives resolve) objs parts" and two: "1 < length objs"
    and small: "length (concat parts) < 2 ^ 32" and few: "length objs < 2 ^ 32 - 1"
  shows "execute_substrate_route_graph (graph_from_objects objs) resolve = Ok (concat parts)"
proof -
  let ?g = "graph_from_objects objs"
  let ?ids = "map of_nat [1..<Suc (length objs)] :: u32 list"
  define w where "w = foldl (\<lambda>total obj. saturating_add total (so_output_len obj)) 0 objs"
  define root where "root = \<lparr>rn_node_id = 0, rn_kind = ConcatNode, rn_substrate = None, rn_child_ids = ?ids, rn_output_len = w\<rparr>"
  let ?node = "\<lambda>(index, obj). material_node (of_nat index + 1) (so_output_len obj) obj"
  from two obtain a b cs where shape: "objs = a # b # cs" by (cases objs; cases "tl objs") auto
  have g: "rg_nodes ?g = root # map ?node (enumerate 0 objs)" "rg_root_node_id ?g = 0" "rg_output_len ?g = w"
    "rg_version ?g = GRAPH_VERSION"
    "rg_capability_mask ?g = mask_insert SC_CompositeGraph (fold (\<lambda>obj. mask_insert (so_capability obj)) objs 0)"
    by (simp_all add: shape graph_from_objects_def Let_def root_def w_def del: upt_Suc enumerate_simps)
  have w: "unat w = length (concat parts)"
    using saturated_output_len [OF gives, of 0] small by (simp add: w_def)
  have find_root: "find_node ?g (rg_root_node_id ?g) = Some root"
    by (simp add: find_node_def g root_def)
  have child: "find_node ?g (of_nat (Suc k)) = Some (material_node (of_nat k + 1) (so_output_len (objs ! k)) (objs ! k))"
    if "k < length objs" for k
  proof -
    have "(of_nat (Suc k) :: u32) \<noteq> 0"
      using that few by (auto dest!: arg_cong [where f = unat] simp: unat_of_nat_u32 simp del: of_nat_Suc)
    with that few find_enumerated [of k objs "\<lambda>(i, x). of_nat i + 1" ?node] show ?thesis
      unfolding find_node_def g by (simp add: root_def material_node_def del: of_nat_Suc)
  qed
  have "list_all2 (\<lambda>c p. node_value ?g resolve (Suc 0) c = Some p) ?ids parts"
  proof (rule list_all2_all_nthI)
    show "length ?ids = length parts" using list_all2_lengthD [OF gives] by (simp del: upt_Suc)
    fix k assume "k < length ?ids"
    then have k: "k < length objs" by (simp del: upt_Suc)
    have "?ids ! k = of_nat (Suc k)" using k by (simp del: upt_Suc)
    with material_node_value [OF child [OF k] list_all2_nthD [OF gives k]] show "node_value ?g resolve (Suc 0) (?ids ! k) = Some (parts ! k)"
      by simp
  qed
  then have "node_value ?g resolve (Suc (Suc 0)) (rg_root_node_id ?g) = Some (concat parts)"
    using find_root w unfolding node_value_Suc_iff [of _ _ "Suc 0"] by (auto simp: root_def)
  then have "execute_node ?g resolve {} (rg_root_node_id ?g) = Ok (concat parts)"
    by (rule execute_node_complete) simp
  moreover have "graph_validate ?g = Ok ()"
    by (rule graph_nodes_valid [OF _ g(4) find_root])
       (use two in \<open>auto simp: g graph_check_node_def root_def material_node_def\<close>)
  ultimately show ?thesis using w g by (simp add: execute_substrate_route_graph_def)
qed

lemma graph_from_objects_executes:
  assumes "list_all2 (object_gives resolve) objs parts" and "objs \<noteq> []"
    and "length (concat parts) < 2 ^ 32" and "length objs < 2 ^ 32 - 1"
  shows "execute_substrate_route_graph (graph_from_objects objs) resolve = Ok (concat parts)"
proof (cases "length objs = 1")
  case True
  then obtain obj where "objs = [obj]" by (auto simp: length_Suc_conv)
  with assms(1) single_graph_executes show ?thesis by (auto simp: list_all2_Cons1)
next
  case False
  with assms show ?thesis by (intro composite_graph_executes) (simp_all add: Suc_lessI)
qed

section \<open>Exact-atom routes reproduce the payload\<close>

lemma exact_atom_output_len_sum:
  assumes "list_all2 (object_gives resolve) objs parts" and "exact_atom_output_len w objs = Some v"
  shows "unat v = unat w + length (concat parts)"
  using assms
proof (induction arbitrary: w rule: list_all2_induct)
  case (Cons obj objs m parts)
  then show ?case
    by (auto simp: bind_eq_Some_conv checked_add_def object_gives_def unat_word_ariths split: if_splits)
qed simp

lemma plan_from_objects_executes:
  assumes plan: "exact_atom_plan_from_objects basis objs = Some plan"
    and gives: "list_all2 (object_gives resolve) objs parts"
    and small: "length (concat parts) < 2 ^ 32" and few: "length objs < 2 ^ 32 - 1"
  shows "execute_substrate_route_graph (ap_substrate_graph plan) resolve = Ok (concat parts)"
    and "unat (ap_output_len plan) = length (concat parts)" and "ap_basis plan = basis"
    and "ap_capability_mask plan = rg_capability_mask (ap_substrate_graph plan)"
  using plan graph_from_objects_executes [OF gives _ small few] exact_atom_output_len_sum [OF gives, of 0]
  by (auto simp: exact_atom_plan_from_objects_def Let_def bind_eq_Some_conv split: if_splits)

lemma slice_component_whole: "length bs = unat n \<Longrightarrow> slice_component_bytes bs 0 n = Some bs"
  by (simp add: slice_component_bytes_def slice_def)

lemma single_atom_plan_executes:
  assumes plan: "single_atom_plan basis kind i start n = Some plan"
    and m: "resolve (make_substrate_ref kind i start n) = Some m" "length m = unat n"
  shows "execute_substrate_route_graph (ap_substrate_graph plan) resolve = Ok m"
    and "unat (ap_output_len plan) = length m" and "ap_basis plan = basis"
    and "ap_capability_mask plan = rg_capability_mask (ap_substrate_graph plan)"
proof -
  from plan obtain obj where obj: "object_try_new (make_substrate_ref kind i start n) n = Some obj"
    and plan': "exact_atom_plan_from_objects basis [obj] = Some plan"
    by (auto simp: single_atom_plan_def bind_eq_Some_conv)
  have "list_all2 (object_gives resolve) [obj] [m]" using obj m by (auto simp: object_try_new_def object_gives_def)
  note run = plan_from_objects_executes [OF plan' this]
  have "length m < 2 ^ 32" using m(2) unsigned_less [of n, where 'a = nat] by simp
  with run show "execute_substrate_route_graph (ap_substrate_graph plan) resolve = Ok m"
    and "unat (ap_output_len plan) = length m" and "ap_basis plan = basis"
    and "ap_capability_mask plan = rg_capability_mask (ap_substrate_graph plan)" by simp_all
qed

lemma of_nat_len: "length bs < 2 ^ 32 \<Longrightarrow> unat (of_nat (length bs) :: u32) = length bs"
  by (simp add: unat_of_nat_u32)

lemma resolve_whole_block:
  assumes "om_get (cat_blocks cat) i = Some e" and "length (be_material e) < 2 ^ 32"
  shows "resolve_substrate_reference sha cache cat
    (make_substrate_ref OK_ExactBlock i 0 (of_nat (length (be_material e)))) = Some (be_material e)"
  using assms by (simp add: of_nat_len resolve_substrate_reference_def make_substrate_ref_def substrate_new_def whole_or_slice_def)

lemma resolve_whole_bundle:
  assumes "materialize_bundle sha cat i = Ok m" and "length m = unat n"
    and "su_object_kind r = OK_ExactBundle" and "su_object_id r = i" and "su_start r = 0" and "su_len r = n"
  shows "resolve_substrate_reference sha cache cat r = Some m"
  using assms by (simp add: resolve_substrate_reference_def whole_or_slice_def)

lemma resolve_block_window:
  assumes "om_get (cat_blocks cat) i = Some e" and "n \<noteq> 0" and "unat a + unat n \<le> length (be_material e)"
    and "length (be_material e) < 2 ^ 32"
    and "su_object_kind r = OK_ExactRange" and "su_object_id r = i" and "su_start r = a" and "su_len r = n"
  shows "resolve_substrate_reference sha cache cat r = Some (slice (unat a) (unat a + unat n) (be_material e))"
  using assms by (simp add: resolve_substrate_reference_def materialize_block_range_def checked_range_def Let_def)

lemma whole_ref_object:
  assumes ok: "catalog_ok sha peer" and extends: "catalog_extends peer cat" and r: "whole_ref r"
    and part: "resolve_ref (catalog_resolve sha peer) r = Ok part"
    and obj: "exact_atom_ref_to_substrate_object sha r peer = Some obj"
  shows "object_gives (resolve_substrate_reference sha cache cat) obj part"
proof -
  from r obtain i w where w: "w \<noteq> 0" and shape: "r = ref_catalog_block i 0 w \<or> r = ref_bundle i 0 w"
    by (auto simp: whole_ref_def)
  from shape show ?thesis
  proof
    assume r: "r = ref_catalog_block i 0 w"
    with part obtain e where e: "om_get (cat_blocks peer) i = Some e" and window: "unat w \<le> length (be_material e)"
      and m: "part = take (unat w) (be_material e)"
      by (auto simp: resolve_ref_def ref_catalog_block_def plain_ref_def materialize_ref_def checked_range_def
          catalog_resolve_def slice_def Let_def split: if_splits)
    from resolve_block_window [OF extends_block [OF extends e] w, of 0] window m
      catalog_block_material(2) [OF ok e] obj r w show ?thesis
      by (auto simp: exact_atom_ref_to_substrate_object_def ref_catalog_block_def plain_ref_def object_try_new_def
          substrate_new_def object_gives_def slice_def)
  next
    assume r: "r = ref_bundle i 0 w"
    with part obtain m where m: "materialize_bundle sha peer i = Ok m" and window: "unat w \<le> length m"
      and part': "part = take (unat w) m"
      by (auto simp: resolve_ref_def ref_bundle_def plain_ref_def materialize_ref_def checked_range_def
          catalog_resolve_def slice_def Let_def split: if_splits sum.splits)
    note here = materialize_bundle_extends [OF extends m]
    have "resolve_substrate_reference sha cache cat (so_reference obj) = Some part"
      using here window part' obj r w
      by (auto simp: exact_atom_ref_to_substrate_object_def ref_bundle_def plain_ref_def object_try_new_def
          substrate_new_def resolve_substrate_reference_def whole_or_slice_def slice_component_bytes_def slice_def)
    with window part' obj r w show ?thesis
      by (auto simp: exact_atom_ref_to_substrate_object_def ref_bundle_def plain_ref_def object_try_new_def
          substrate_new_def object_gives_def)
  qed
qed

lemma exact_atom_plan_cases:
  assumes "exact_atom_plan sha current peer = Some plan" and "bs = esm_exact_bytes current"
  obtains (block) e where "e \<in> set (map snd (cat_blocks peer))" "be_material e = bs"
      "single_atom_plan (BasisBlock (be_block_id e)) OK_ExactBlock (be_block_id e) 0 (of_nat (length bs)) = Some plan"
  | (material) b where "b \<in> set (map snd (cat_bundles peer))" "materialize_bundle sha peer (bu_bundle_id b) = Ok bs"
      "single_atom_plan (BasisBundle (bu_bundle_id b)) OK_ExactBundle (bu_bundle_id b) 0 (of_nat (length bs)) = Some plan"
  | (window) e w where "e \<in> set (map snd (cat_blocks peer))" "whole_window bs e = Some w"
      "single_atom_plan (BasisRange (be_block_id e) (wm_base_start w) (of_nat (wm_matched_len w)))
         OK_ExactRange (be_block_id e) (wm_base_start w) (of_nat (wm_matched_len w)) = Some plan"
  | (composite) refs objs where "best_prefix_refs sha bs peer MAX_COMPOSITE_STATE_REFS 0 = Some refs"
      "co_covered_len refs = length bs"
      "try_option_map (\<lambda>r. exact_atom_ref_to_substrate_object sha r peer) (co_refs refs) = Some objs"
      "exact_atom_plan_from_objects (BasisComposite (ref_count_u16 refs) 0) objs = Some plan"
  using assms by (auto simp: exact_atom_plan_def Let_def bind_eq_Some_conv simp del: set_map dest!: find_SomeD
      split: option.splits if_splits)

lemma resolve_whole_window:
  assumes ok: "catalog_ok sha peer" and extends: "catalog_extends peer cat" and small: "length bs < 2 ^ 32"
    and e: "e \<in> set (map snd (cat_blocks peer))" and w: "whole_window bs e = Some w"
  shows "resolve_substrate_reference sha cache cat
      (make_substrate_ref OK_ExactRange (be_block_id e) (wm_base_start w) (of_nat (length bs))) = Some bs"
    and "wm_matched_len w = length bs"
proof -
  note e' = catalog_entries(1) [OF ok e]
  note small_block = catalog_block_material(2) [OF ok e']
  from w have found: "find_best_window_in_base bs (be_material e) = Some w"
    and full: "wm_payload_start w = 0" "wm_matched_len w = length bs"
    by (auto simp: whole_window_def split: option.splits if_splits)
  show "wm_matched_len w = length bs" by (rule full)
  have common: "unat (wm_base_start w) + length bs \<le> length (be_material e)"
    "slice (unat (wm_base_start w)) (unat (wm_base_start w) + length bs) (be_material e) = bs"
    using find_best_window_window [OF small_block found] full by (auto simp: common_window_def slice_def)
  have "length bs \<noteq> 0"
    using find_best_window_best [OF small_block, of bs] found full by (auto simp: window_best_def MIN_RANGE_REUSE_BYTES_def)
  then have "(of_nat (length bs) :: u32) \<noteq> 0" using of_nat_len [OF small] by (metis unat_0)
  from resolve_block_window [OF extends_block [OF extends e'] this _ small_block] common small
  show "resolve_substrate_reference sha cache cat
      (make_substrate_ref OK_ExactRange (be_block_id e) (wm_base_start w) (of_nat (length bs))) = Some bs"
    by (simp add: of_nat_len make_substrate_ref_def substrate_new_def)
qed

lemma cover_objects:
  assumes ok: "catalog_ok sha peer" and extends: "catalog_extends peer cat"
    and covers: "covers sha peer bs limit refs (length bs)"
    and objs: "list_all2 (\<lambda>r obj. exact_atom_ref_to_substrate_object sha r peer = Some obj) refs objs"
  shows "\<exists>parts. list_all2 (object_gives (resolve_substrate_reference sha cache cat)) objs parts \<and> concat parts = bs"
proof -
  from covers obtain parts where whole: "\<forall>r \<in> set refs. whole_ref r" and parts: "concat parts = bs"
    and sel: "list_all2 (\<lambda>r part. resolve_ref (catalog_resolve sha peer) r = Ok part) refs parts"
    by (auto simp: covers_def catalog_store.selects_def)
  have "list_all2 (object_gives (resolve_substrate_reference sha cache cat)) objs parts"
  proof (rule list_all2_all_nthI)
    show "length objs = length parts" using list_all2_lengthD [OF sel] list_all2_lengthD [OF objs] by simp
    fix k assume k: "k < length objs"
    then have k': "k < length refs" using list_all2_lengthD [OF objs] by simp
    with whole have "whole_ref (refs ! k)" by simp
    from whole_ref_object [OF ok extends this list_all2_nthD [OF sel k'] list_all2_nthD [OF objs k']]
    show "object_gives (resolve_substrate_reference sha cache cat) (objs ! k) (parts ! k)" .
  qed
  with parts show ?thesis by blast
qed

text \<open>C18: whenever the sender finds an exact-atom route over the catalog it knows of its peer, the client that
  executes the route over its own catalog, which may hold more, gets back the exact payload, and the
  announced length is its length.\<close>

theorem exact_atom_route_reproduces:
  assumes ok: "catalog_ok sha peer" and extends: "catalog_extends peer cat"
    and small: "length (esm_exact_bytes current) < 2 ^ 32"
    and plan: "exact_atom_plan sha current peer = Some plan"
  shows "execute_substrate_route_graph (ap_substrate_graph plan) (resolve_substrate_reference sha cache cat)
      = Ok (esm_exact_bytes current)
    \<and> unat (ap_output_len plan) = length (esm_exact_bytes current)"
proof -
  define bs where "bs = esm_exact_bytes current"
  let ?resolve = "resolve_substrate_reference sha cache cat"
  note run = single_atom_plan_executes [where resolve = ?resolve and m = bs]
  have small': "length bs < 2 ^ 32" using small by (simp add: bs_def)
  from plan bs_def have "execute_substrate_route_graph (ap_substrate_graph plan) ?resolve = Ok bs
      \<and> unat (ap_output_len plan) = length bs"
  proof (cases rule: exact_atom_plan_cases)
    case (block e)
    note e = catalog_entries(1) [OF ok block(1)]
    from resolve_whole_block [OF extends_block [OF extends e]] block(2) small'
    have "?resolve (make_substrate_ref OK_ExactBlock (be_block_id e) 0 (of_nat (length bs))) = Some bs" by metis
    from run(1,2) [OF block(3) this] small' show ?thesis by (simp add: of_nat_len)
  next
    case (material b)
    have "?resolve (make_substrate_ref OK_ExactBundle (bu_bundle_id b) 0 (of_nat (length bs))) = Some bs"
      by (rule resolve_whole_bundle [OF materialize_bundle_extends [OF extends material(2)]])
         (use small' in \<open>simp_all add: of_nat_len make_substrate_ref_def substrate_new_def\<close>)
    from run(1,2) [OF material(3) this] small' show ?thesis by (simp add: of_nat_len)
  next
    case (window e w)
    note found = resolve_whole_window [OF ok extends small' window(1,2)]
    from run(1,2) [OF window(3) [unfolded found(2)] found(1)] small' show ?thesis by (simp add: of_nat_len)
  next
    case (composite refs objs)
    from composite(3) have objs: "list_all2 (\<lambda>r obj. exact_atom_ref_to_substrate_object sha r peer = Some obj) (co_refs refs) objs"
      by (simp add: try_option_map_iff)
    note covers = best_prefix_refs_covers(1) [OF ok composite(1), unfolded composite(2)]
    from cover_objects [OF ok extends covers objs] obtain parts where
      parts: "list_all2 (object_gives ?resolve) objs parts" "concat parts = bs" by blast
    have "length objs \<le> MAX_COMPOSITE_STATE_REFS"
      using covers list_all2_lengthD [OF objs] by (simp add: covers_def)
    with plan_from_objects_executes(1,2) [OF composite(4) parts(1)] small' parts(2) show ?thesis
      by (simp add: MAX_COMPOSITE_STATE_REFS_def)
  qed
  then show ?thesis by (simp add: bs_def)
qed

lemma exact_atom_route_reproduces_witness:
  "\<exists>plan. exact_atom_plan toy_sha \<lparr>esm_source_kind = Text, esm_exact_bytes = [2, 3]\<rparr> sample_catalog = Some plan
    \<and> execute_substrate_route_graph (ap_substrate_graph plan)
        (resolve_substrate_reference toy_sha (\<lambda>_. None) sample_catalog) = Ok [2, 3]"
proof -
  let ?current = "\<lparr>esm_source_kind = Text, esm_exact_bytes = [2, 3]\<rparr> :: ExactStateMaterial"
  have material: "materialize_bundle toy_sha sample_catalog 10096 = Ok [2, 3]" by code_simp
  have "exact_atom_plan toy_sha ?current sample_catalog = single_atom_plan (BasisBundle 10096) OK_ExactBundle 10096 0 2"
    using material by (simp add: exact_atom_plan_def sample_catalog_def sample_block_def sample_bundle_def)
  moreover have "\<exists>plan. single_atom_plan (BasisBundle 10096) OK_ExactBundle 10096 0 2 = Some plan"
    by (simp add: single_atom_plan_def object_try_new_def substrate_ref_capability_def make_substrate_ref_def
        substrate_new_def exact_atom_plan_from_objects_def checked_add_def Let_def)
  ultimately obtain plan where plan: "exact_atom_plan toy_sha ?current sample_catalog = Some plan" by metis
  with exact_atom_route_reproduces [OF sample_catalog_ok catalog_extends_refl _ plan] show ?thesis by simp
qed

end
