(* ===== verification/Pulzz_Delta.thy ===== *)
theory Pulzz_Delta
  imports Pulzz_Zstd Pulzz_Cursor
begin

text \<open>
  Delta encoding of updates (\<open>shared_protocol/src/compress.rs\<close>, P1): binary deltas found by hashing the chunks
  of the base, exclusive-or deltas for versions of the same length, their wire formats, the zstd stage over
  a delta, and chains of deltas.  The lemmas show that a computed delta restores its target and survives
  its wire format, whose length fields have 16 bits.
\<close>

section \<open>Binary deltas\<close>

datatype DeltaOp = CopyOp u32 u32 | InsertOp bytes

record BinaryDelta =
  bd_version :: u8
  bd_original_len :: u32
  bd_target_len :: u32
  bd_ops :: "DeltaOp list"

definition DELTA_VERSION :: u8 where "DELTA_VERSION = 1"

definition simple_hash :: "bytes \<Rightarrow> u64" where
  "simple_hash data = foldl (\<lambda>h b. (h XOR ucast b) * 0x100000001b3) 0xcbf29ce484222325 data"

function extend_loop :: "bytes \<Rightarrow> nat \<Rightarrow> bytes \<Rightarrow> nat \<Rightarrow> nat \<Rightarrow> nat \<Rightarrow> nat" where
  "extend_loop base base_offset target target_offset max_match len =
     (if len < max_match \<and> base ! (base_offset + len) = target ! (target_offset + len)
      then extend_loop base base_offset target target_offset max_match (len + 1)
      else len)"
  by pat_completeness auto
termination by (relation "measure (\<lambda>(_, _, _, _, m, l). m - l)") auto

declare extend_loop.simps [simp del]

definition extend_match :: "bytes \<Rightarrow> nat \<Rightarrow> bytes \<Rightarrow> nat \<Rightarrow> nat" where
  "extend_match base base_offset target target_offset =
     (let base_remaining = length base - base_offset;
          target_remaining = length target - target_offset;
          max_match = min (min base_remaining target_remaining) 65535 in
      extend_loop base base_offset target target_offset max_match 0)"

definition CHUNK_SIZE :: nat where "CHUNK_SIZE = 8"

text \<open>The table of chunks: a later chunk with the same hash replaces an earlier one.\<close>

definition chunk_offsets :: "bytes \<Rightarrow> nat list" where
  "chunk_offsets base = filter (\<lambda>offset. offset mod CHUNK_SIZE = 0) [0..<length base - (CHUNK_SIZE + 1)]"

definition base_chunks :: "bytes \<Rightarrow> u64 \<rightharpoonup> nat" where
  "base_chunks base =
     foldl (\<lambda>m offset. if offset + CHUNK_SIZE \<le> length base
                       then m(simple_hash (slice offset (offset + CHUNK_SIZE) base) \<mapsto> offset) else m)
       Map.empty (chunk_offsets base)"

definition best_match :: "bytes \<Rightarrow> (u64 \<rightharpoonup> nat) \<Rightarrow> bytes \<Rightarrow> nat \<Rightarrow> nat \<times> nat" where
  "best_match base table target pos =
     (if pos + CHUNK_SIZE \<le> length target then
        (case table (simple_hash (slice pos (pos + CHUNK_SIZE) target)) of
           None \<Rightarrow> (0, 0)
         | Some base_offset \<Rightarrow>
             let match_len = extend_match base base_offset target pos in
             if match_len \<ge> CHUNK_SIZE then (base_offset, match_len) else (0, 0))
      else (0, 0))"

definition flush_literal :: "bytes \<Rightarrow> DeltaOp list \<Rightarrow> DeltaOp list" where
  "flush_literal literal ops = (if literal = [] then ops else ops @ [InsertOp literal])"

function delta_loop ::
  "bytes \<Rightarrow> (u64 \<rightharpoonup> nat) \<Rightarrow> bytes \<Rightarrow> nat \<Rightarrow> bytes \<Rightarrow> DeltaOp list \<Rightarrow> DeltaOp list"
where
  "delta_loop base table target pos literal ops =
     (if pos < length target then
        let (best_offset, best_length) = best_match base table target pos in
        if best_length \<ge> CHUNK_SIZE
        then delta_loop base table target (pos + best_length) []
               (flush_literal literal ops @ [CopyOp (of_nat best_offset) (of_nat best_length)])
        else
          let literal = literal @ [target ! pos] in
          if length literal \<ge> 65535 then delta_loop base table target (pos + 1) [] (ops @ [InsertOp literal])
          else delta_loop base table target (pos + 1) literal ops
      else flush_literal literal ops)"
  by pat_completeness auto
termination
  by (relation "measure (\<lambda>(_, _, target, pos, _, _). length target - pos)") (auto simp: CHUNK_SIZE_def)

declare delta_loop.simps [simp del]

definition delta_compute :: "bytes \<Rightarrow> bytes \<Rightarrow> BinaryDelta" where
  "delta_compute base target =
     \<lparr>bd_version = DELTA_VERSION, bd_original_len = of_nat (length base), bd_target_len = of_nat (length target),
      bd_ops = delta_loop base (base_chunks base) target 0 [] []\<rparr>"

fun apply_op :: "bytes \<Rightarrow> bytes \<Rightarrow> DeltaOp \<Rightarrow> CompressError + bytes" where
  "apply_op base result (CopyOp offset len) =
     (let start = unat offset; end = start + unat len in
      if end > length base then Err (DeltaCopyOutOfBounds offset len (length base))
      else Ok (result @ slice start end base))"
| "apply_op base result (InsertOp data) = Ok (result @ data)"

definition delta_apply :: "BinaryDelta \<Rightarrow> bytes \<Rightarrow> CompressError + bytes" where
  "delta_apply d base =
     (if length base \<noteq> unat (bd_original_len d)
      then Err (DeltaBaseLengthMismatch (unat (bd_original_len d)) (length base))
      else and_then (try_fold (apply_op base) [] (bd_ops d)) (\<lambda>result.
        if length result \<noteq> unat (bd_target_len d)
        then Err (DeltaTargetLengthMismatch (unat (bd_target_len d)) (length result))
        else Ok result))"

section \<open>The wire format of binary deltas\<close>

fun delta_op_bytes :: "DeltaOp \<Rightarrow> bytes" where
  "delta_op_bytes (CopyOp offset len) = 0 # le32 offset @ le16 (ucast len)"
| "delta_op_bytes (InsertOp data) = 1 # le16 (of_nat (length data)) @ data"

definition delta_encode :: "BinaryDelta \<Rightarrow> bytes" where
  "delta_encode d =
     bd_version d # le32 (bd_original_len d) @ le32 (bd_target_len d)
       @ concat (map delta_op_bytes (bd_ops d)) @ [0xFF]"

function delta_decode_loop :: "bytes \<Rightarrow> nat \<Rightarrow> DeltaOp list \<Rightarrow> CompressError + DeltaOp list" where
  "delta_decode_loop bs pos ops =
     (if pos < length bs then
        let tag = bs ! pos; pos = pos + 1 in
        if tag = 0 then
          if pos + 6 > length bs then Err (DeltaTruncated (pos + 6) (length bs))
          else delta_decode_loop bs (pos + 6)
                 (ops @ [CopyOp (of_le32 (slice pos (pos + 4) bs)) (ucast (of_le16 (slice (pos + 4) (pos + 6) bs)))])
        else if tag = 1 then
          if pos + 2 > length bs then Err (DeltaTruncated (pos + 2) (length bs))
          else
            let len = unat (of_le16 (slice pos (pos + 2) bs)); pos = pos + 2 in
            if pos + len > length bs then Err (DeltaTruncated (pos + len) (length bs))
            else delta_decode_loop bs (pos + len) (ops @ [InsertOp (slice pos (pos + len) bs)])
        else if tag = 0xFF then Ok ops
        else Err (DeltaInvalidTag tag)
      else Ok ops)"
  by pat_completeness auto
termination by (relation "measure (\<lambda>(bs, pos, _). length bs - pos)") auto

declare delta_decode_loop.simps [simp del]

definition delta_decode :: "bytes \<Rightarrow> CompressError + BinaryDelta" where
  "delta_decode bs =
     (if length bs < 9 then Err (DeltaTruncated 9 (length bs))
      else let version = bs ! 0 in
        if version \<noteq> DELTA_VERSION then Err (DeltaInvalidVersion version)
        else and_then (delta_decode_loop bs 9 []) (\<lambda>ops.
          Ok \<lparr>bd_version = version, bd_original_len = of_le32 (slice 1 5 bs), bd_target_len = of_le32 (slice 5 9 bs),
              bd_ops = ops\<rparr>))"

definition delta_is_compact_vs :: "BinaryDelta \<Rightarrow> nat \<Rightarrow> bool" where
  "delta_is_compact_vs d target_len \<longleftrightarrow> length (delta_encode d) < target_len"

section \<open>Exclusive-or deltas\<close>

record XorDelta =
  xd_original_len :: u32
  xd_target_len :: u32
  xd_patches :: "(u32 \<times> u8) list"

definition xor_compute :: "bytes \<Rightarrow> bytes \<Rightarrow> CompressError + XorDelta" where
  "xor_compute base target =
     (if length base \<noteq> length target then Err (DeltaBaseLengthMismatch (length base) (length target))
      else Ok \<lparr>xd_original_len = of_nat (length base), xd_target_len = of_nat (length target),
               xd_patches = map (\<lambda>(i, b, t). (of_nat i, b XOR t))
                 (filter (\<lambda>(i, b, t). b XOR t \<noteq> 0) (enumerate 0 (zip base target)))\<rparr>)"

definition xor_patch :: "bytes \<Rightarrow> u32 \<times> u8 \<Rightarrow> CompressError + bytes" where
  "xor_patch result p =
     (let idx = unat (fst p) in
      if idx \<ge> length result then Err (DeltaCopyOutOfBounds (fst p) 1 (length result))
      else Ok (result[idx := result ! idx XOR snd p]))"

definition xor_apply :: "XorDelta \<Rightarrow> bytes \<Rightarrow> CompressError + bytes" where
  "xor_apply d base =
     (if length base \<noteq> unat (xd_original_len d)
      then Err (DeltaBaseLengthMismatch (unat (xd_original_len d)) (length base))
      else try_fold xor_patch base (xd_patches d))"

definition xor_patch_bytes :: "u32 \<times> u8 \<Rightarrow> bytes" where
  "xor_patch_bytes p = le32 (fst p) @ [snd p]"

definition xor_encode :: "XorDelta \<Rightarrow> bytes" where
  "xor_encode d =
     le32 (xd_original_len d) @ le32 (xd_target_len d) @ le16 (of_nat (length (xd_patches d)))
       @ concat (map xor_patch_bytes (xd_patches d))"

text \<open>The patches are read at fixed positions; their number has been checked against the length before.\<close>

definition read_xor_patch :: "(CompressError, u32 \<times> u8) reader" where
  "read_xor_patch bs pos = Ok ((of_le32 (slice pos (pos + 4) bs), bs ! (pos + 4)), pos + 5)"

definition xor_decode :: "bytes \<Rightarrow> CompressError + XorDelta" where
  "xor_decode bs =
     (if length bs < 10 then Err (DeltaTruncated 10 (length bs))
      else let patch_count = unat (of_le16 (slice 8 10 bs)) in
        if length bs < 10 + patch_count * 5 then Err (DeltaTruncated (10 + patch_count * 5) (length bs))
        else and_then (read_many read_xor_patch patch_count bs 10) (\<lambda>(patches, _).
          Ok \<lparr>xd_original_len = of_le32 (slice 0 4 bs), xd_target_len = of_le32 (slice 4 8 bs),
              xd_patches = patches\<rparr>))"

definition xor_is_compact_vs :: "XorDelta \<Rightarrow> nat \<Rightarrow> bool" where
  "xor_is_compact_vs d target_len \<longleftrightarrow> length (xor_encode d) < target_len"

section \<open>The zstd stage and chains\<close>

definition MAX_DECOMPRESSED :: nat where "MAX_DECOMPRESSED = 10 * 1024 * 1024"

definition delta_compress_with_zstd :: "zstd_lib \<Rightarrow> BinaryDelta \<Rightarrow> CompressError + bytes" where
  "delta_compress_with_zstd z d = zstd_compress_raw z (delta_encode d)"

definition delta_decompress_from_zstd :: "zstd_lib \<Rightarrow> bytes \<Rightarrow> CompressError + BinaryDelta" where
  "delta_decompress_from_zstd z compressed = and_then (zstd_decompress_raw z compressed MAX_DECOMPRESSED) delta_decode"

definition chain_step :: "zstd_lib \<Rightarrow> bytes \<Rightarrow> bytes \<times> bool \<Rightarrow> CompressError + bytes" where
  "chain_step z current link =
     and_then (if snd link then delta_decompress_from_zstd z (fst link) else delta_decode (fst link))
       (\<lambda>d. delta_apply d current)"

definition apply_chain :: "zstd_lib \<Rightarrow> bytes \<Rightarrow> (bytes \<times> bool) list \<Rightarrow> CompressError + bytes" where
  "apply_chain z base deltas = try_fold (chain_step z) base deltas"

section \<open>A computed delta restores its target\<close>

lemma extend_loop_spec:
  assumes "len \<le> max_match" and "\<And>i. i < len \<Longrightarrow> base ! (a + i) = target ! (b + i)"
  shows "len \<le> extend_loop base a target b max_match len" "extend_loop base a target b max_match len \<le> max_match"
    and "i < extend_loop base a target b max_match len \<Longrightarrow> base ! (a + i) = target ! (b + i)"
proof -
  have "len \<le> extend_loop base a target b max_match len \<and> extend_loop base a target b max_match len \<le> max_match
    \<and> (\<forall>i < extend_loop base a target b max_match len. base ! (a + i) = target ! (b + i))"
    using assms
  proof (induction base a target b max_match len rule: extend_loop.induct)
    case (1 base a target b max_match len)
    show ?case
    proof (cases "len < max_match \<and> base ! (a + len) = target ! (b + len)")
      case True
      then have step: "extend_loop base a target b max_match len = extend_loop base a target b max_match (len + 1)"
        by (subst extend_loop.simps) simp
      have "\<And>i. i < len + 1 \<Longrightarrow> base ! (a + i) = target ! (b + i)" using "1.prems"(2) True by (auto simp: less_Suc_eq)
      from "1.IH" [OF True _ this] True show ?thesis unfolding step by simp
    next
      case False
      then have "extend_loop base a target b max_match len = len" by (subst extend_loop.simps) auto
      then show ?thesis using "1.prems" by simp
    qed
  qed
  then show "len \<le> extend_loop base a target b max_match len" "extend_loop base a target b max_match len \<le> max_match"
    and "i < extend_loop base a target b max_match len \<Longrightarrow> base ! (a + i) = target ! (b + i)" by auto
qed

lemma extend_match_spec:
  assumes "n = extend_match base a target b" and "a \<le> length base" and "b \<le> length target"
  shows "a + n \<le> length base" "b + n \<le> length target" "n \<le> 65535"
    and "slice a (a + n) base = slice b (b + n) target"
proof -
  let ?m = "min (min (length base - a) (length target - b)) 65535"
  have n: "n = extend_loop base a target b ?m 0" by (simp add: assms(1) extend_match_def Let_def)
  note spec = extend_loop_spec [of 0 ?m base a target b, folded n]
  from spec(2) assms show le: "a + n \<le> length base" "b + n \<le> length target" "n \<le> 65535" by auto
  show "slice a (a + n) base = slice b (b + n) target"
    by (rule nth_equalityI) (use le spec(3) in \<open>auto simp: slice_def\<close>)
qed

lemma base_chunks_bound:
  assumes "base_chunks base h = Some offset"
  shows "offset + CHUNK_SIZE \<le> length base"
proof -
  let ?step = "\<lambda>m offset. if offset + CHUNK_SIZE \<le> length base
    then m(simple_hash (slice offset (offset + CHUNK_SIZE) base) \<mapsto> offset) else m"
  have "\<forall>h offset. foldl ?step m offsets h = Some offset \<longrightarrow> offset + CHUNK_SIZE \<le> length base"
    if "\<forall>h offset. m h = Some offset \<longrightarrow> offset + CHUNK_SIZE \<le> length base" for m offsets
    using that
  proof (induction offsets arbitrary: m)
    case (Cons a offsets)
    have "\<forall>h offset. ?step m a h = Some offset \<longrightarrow> offset + CHUNK_SIZE \<le> length base"
      using Cons.prems by simp
    then show ?case unfolding foldl.simps by (rule Cons.IH)
  qed simp
  then show ?thesis using assms unfolding base_chunks_def by fastforce
qed

lemma best_match_spec:
  assumes "best_match base (base_chunks base) target pos = (offset, n)" and "CHUNK_SIZE \<le> n"
  shows "offset + n \<le> length base" "pos + n \<le> length target" "n \<le> 65535"
    and "slice offset (offset + n) base = slice pos (pos + n) target"
proof -
  from assms have m: "base_chunks base (simple_hash (slice pos (pos + CHUNK_SIZE) target)) = Some offset"
    and n: "n = extend_match base offset target pos" and pos: "pos + CHUNK_SIZE \<le> length target"
    by (auto simp: best_match_def Let_def CHUNK_SIZE_def split: if_splits option.splits)
  from base_chunks_bound [OF m] pos extend_match_spec [OF n]
  show "offset + n \<le> length base" "pos + n \<le> length target" "n \<le> 65535"
    and "slice offset (offset + n) base = slice pos (pos + n) target" by simp_all
qed

text \<open>An operation that the 16-bit length fields can carry, that stays inside the base and yields something.\<close>

fun op_fits :: "bytes \<Rightarrow> DeltaOp \<Rightarrow> bool" where
  "op_fits base (CopyOp offset len) \<longleftrightarrow>
     0 < unat len \<and> unat len < 2 ^ 16 \<and> unat offset + unat len \<le> length base"
| "op_fits base (InsertOp data) \<longleftrightarrow> data \<noteq> [] \<and> length data < 2 ^ 16"

fun op_output :: "bytes \<Rightarrow> DeltaOp \<Rightarrow> bytes" where
  "op_output base (CopyOp offset len) = slice (unat offset) (unat offset + unat len) base"
| "op_output base (InsertOp data) = data"

lemma apply_op_fits: "op_fits base op \<Longrightarrow> apply_op base result op = Ok (result @ op_output base op)"
  by (cases op) (auto simp: Let_def)

lemma apply_ops_fit:
  "\<forall>op \<in> set ops. op_fits base op \<Longrightarrow> try_fold (apply_op base) result ops = Ok (result @ concat (map (op_output base) ops))"
  by (induction ops arbitrary: result) (simp_all add: apply_op_fits)

definition covers_target :: "bytes \<Rightarrow> bytes \<Rightarrow> DeltaOp list \<Rightarrow> bool" where
  "covers_target base target ops \<longleftrightarrow>
     (\<forall>op \<in> set ops. op_fits base op) \<and> concat (map (op_output base) ops) = target"

lemma covers_flush:
  "covers_target base (p @ literal) (flush_literal literal ops)"
  if "covers_target base p ops" and "length literal < 2 ^ 16"
  using that by (auto simp: covers_target_def flush_literal_def)

lemma delta_loop_covers:
  assumes "length base < 2 ^ 32" and "pos \<le> length target" and "length literal < 65535"
    and "take pos target = p @ literal" and "covers_target base p ops"
  shows "covers_target base target (delta_loop base (base_chunks base) target pos literal ops)"
  using assms
proof (induction "length target - pos" arbitrary: pos literal ops p rule: less_induct)
  case less
  show ?case
  proof (cases "pos < length target")
    case False
    then have "target = p @ literal" using less.prems by simp
    then show ?thesis
      using False covers_flush [OF less.prems(5), of literal] less.prems(3) by (subst delta_loop.simps) simp
  next
    case True
    obtain offset n where m: "best_match base (base_chunks base) target pos = (offset, n)" by fastforce
    show ?thesis
    proof (cases "CHUNK_SIZE \<le> n")
      case copy: True
      note spec = best_match_spec [OF m copy]
      have unat: "unat (of_nat offset :: u32) = offset" "unat (of_nat n :: u32) = n"
        using spec less.prems(1) by (simp_all add: unat_of_nat_u32)
      have taken: "take (pos + n) target = (p @ literal) @ slice pos (pos + n) target"
        by (simp add: take_add slice_def flip: less.prems(4))
      have "covers_target base ((p @ literal) @ slice pos (pos + n) target)
          (flush_literal literal ops @ [CopyOp (of_nat offset) (of_nat n)])"
        using covers_flush [OF less.prems(5), of literal] less.prems(3) spec unat copy
        by (simp add: covers_target_def CHUNK_SIZE_def)
      then have "covers_target base target (delta_loop base (base_chunks base) target (pos + n) []
          (flush_literal literal ops @ [CopyOp (of_nat offset) (of_nat n)]))"
        using less.hyps [of "pos + n" "[]" "(p @ literal) @ slice pos (pos + n) target"] less.prems(1) spec copy True taken
        by (auto simp: CHUNK_SIZE_def)
      then show ?thesis using True copy m by (subst delta_loop.simps) simp
    next
      case keep: False
      have taken: "take (pos + 1) target = p @ (literal @ [target ! pos])"
        using True less.prems(4) by (simp add: take_Suc_conv_app_nth)
      show ?thesis
      proof (cases "65535 \<le> length (literal @ [target ! pos])")
        case full: True
        have "covers_target base (p @ literal @ [target ! pos]) (ops @ [InsertOp (literal @ [target ! pos])])"
          using less.prems(3,5) by (simp add: covers_target_def)
        then have "covers_target base target (delta_loop base (base_chunks base) target (pos + 1) []
            (ops @ [InsertOp (literal @ [target ! pos])]))"
          using less.hyps [of "pos + 1" "[]" "p @ literal @ [target ! pos]"] less.prems(1) True taken by simp
        then show ?thesis using True keep m full by (subst delta_loop.simps) simp
      next
        case False
        then have "covers_target base target (delta_loop base (base_chunks base) target (pos + 1) (literal @ [target ! pos]) ops)"
          using less.hyps [of "pos + 1" "literal @ [target ! pos]" p ops] less.prems(1,5) True taken by simp
        then show ?thesis using True keep m False by (subst delta_loop.simps) simp
      qed
    qed
  qed
qed

lemma delta_compute_covers: "length base < 2 ^ 32 \<Longrightarrow> covers_target base target (bd_ops (delta_compute base target))"
  unfolding delta_compute_def BinaryDelta.simps
  by (rule delta_loop_covers [where p = "[]"]) (simp_all add: covers_target_def)

text \<open>Every byte of the target costs at most eight bytes of a delta.\<close>

lemma delta_ops_size:
  "\<forall>op \<in> set ops. op_fits base op \<Longrightarrow>
    length (concat (map delta_op_bytes ops)) \<le> 8 * length (concat (map (op_output base) ops))"
proof (induction ops)
  case (Cons op ops)
  have "length (delta_op_bytes op) \<le> 8 * length (op_output base op)"
    using Cons.prems by (cases op) (auto simp: neq_Nil_conv)
  with Cons show ?case by simp
qed simp

lemma delta_compute_size:
  "length base < 2 ^ 32 \<Longrightarrow> length (delta_encode (delta_compute base target)) \<le> 10 + 8 * length target"
  using delta_compute_covers [of base target] delta_ops_size [of "bd_ops (delta_compute base target)" base]
  by (auto simp: covers_target_def delta_encode_def)

section \<open>The wire format keeps every operation\<close>

lemma delta_decode_op:
  assumes "op_fits base op" and "spells bs pos (delta_op_bytes op)"
  shows "delta_decode_loop bs pos ops = delta_decode_loop bs (pos + length (delta_op_bytes op)) (ops @ [op])"
proof (cases op)
  case (CopyOp offset len)
  with assms(2) have s: "spells bs pos [0]" "spells bs (Suc pos) (le32 offset)" "spells bs (Suc pos + 4) (le16 (ucast len))"
    by (simp_all add: spells_Cons [of _ _ "0 :: u8" "_ @ _"])
  have "unat (ucast (ucast len :: u16) :: u32) = unat len"
    using assms(1) CopyOp by (simp add: unsigned_ucast_eq unsigned_take_bit_eq take_bit_nat_eq_self)
  then have small: "ucast (ucast len :: u16) = len" by (rule unsigned_word_eqI)
  show ?thesis
    using s small CopyOp
    by (subst delta_decode_loop.simps) (auto simp: spells_u8 spells_le32 spells_le16 Let_def add.commute [of pos])
next
  case (InsertOp data)
  with assms(2) have s: "spells bs pos [1]" "spells bs (Suc pos) (le16 (of_nat (length data)))" "spells bs (Suc pos + 2) data"
    by (simp_all add: spells_Cons [of _ _ "1 :: u8" "_ @ _"])
  have small: "unat (of_nat (length data) :: u16) = length data"
    using assms(1) InsertOp by (simp add: unat_of_nat_u16)
  have len: "Suc pos + 2 + length data \<le> length bs"
    using s(2) spells_length [OF s(3)] by (cases "data = []") (auto simp: spells_le16)
  have "slice (Suc pos + 2) (Suc pos + 2 + length data) bs = data" using s(3) by (simp add: spells_slice)
  then show ?thesis
    using s(1,2) small InsertOp len
    by (subst delta_decode_loop.simps) (simp add: spells_u8 spells_le16 Let_def add.commute [of pos])
qed

lemma delta_decode_ops:
  "\<forall>op \<in> set ops. op_fits base op \<Longrightarrow> spells bs pos (concat (map delta_op_bytes ops) @ [0xFF]) \<Longrightarrow>
    delta_decode_loop bs pos acc = Ok (acc @ ops)"
proof (induction ops arbitrary: pos acc)
  case Nil
  then show ?case by (subst delta_decode_loop.simps) (simp add: spells_u8)
next
  case (Cons op ops)
  then have "spells bs pos (delta_op_bytes op)"
    and "spells bs (pos + length (delta_op_bytes op)) (concat (map delta_op_bytes ops) @ [0xFF])" by simp_all
  with Cons show ?case using delta_decode_op [of base op bs pos acc] by simp
qed

lemma delta_decode_encode:
  assumes "bd_version d = DELTA_VERSION" and "\<forall>op \<in> set (bd_ops d). op_fits base op"
  shows "delta_decode (delta_encode d) = Ok d"
proof -
  let ?bs = "delta_encode d"
  have fields: "spells ?bs 0 [bd_version d]" "spells ?bs 1 (le32 (bd_original_len d))" "spells ?bs 5 (le32 (bd_target_len d))"
    "spells ?bs 9 (concat (map delta_op_bytes (bd_ops d)) @ [0xFF])"
    by (simp_all add: delta_encode_def spells_def)
  have "9 \<le> length ?bs" by (simp add: delta_encode_def)
  moreover have "delta_decode_loop ?bs 9 [] = Ok (bd_ops d)"
    using delta_decode_ops [OF assms(2) fields(4)] by simp
  ultimately show ?thesis
    using fields(1-3) assms(1) by (simp add: delta_decode_def spells_u8 spells_le32)
qed


lemma delta_decode_compute: "length base < 2 ^ 32 \<Longrightarrow> delta_decode (delta_encode (delta_compute base target)) = Ok (delta_compute base target)"
  using delta_compute_covers [of base target] by (intro delta_decode_encode) (auto simp: delta_compute_def covers_target_def)

lemma delta_apply_compute:
  assumes "length base < 2 ^ 32" and "length target < 2 ^ 32"
  shows "delta_apply (delta_compute base target) base = Ok target"
  using assms delta_compute_covers [OF assms(1), of target] apply_ops_fit [of "bd_ops (delta_compute base target)" base "[]"]
  by (simp add: delta_apply_def covers_target_def) (simp add: delta_compute_def unat_of_nat_u32)

text \<open>C19: a delta between two versions always restores the target from the base, and it survives its wire format:
  no operation exceeds the 16-bit length fields or reaches outside the base.\<close>

theorem binary_delta_exact:
  assumes "length base < 2 ^ 32" and "length target < 2 ^ 32"
  shows "delta_decode (delta_encode (delta_compute base target)) = Ok (delta_compute base target)
    \<and> delta_apply (delta_compute base target) base = Ok target
    \<and> (\<forall>offset len. CopyOp offset len \<in> set (bd_ops (delta_compute base target)) \<longrightarrow>
        unat len < 2 ^ 16 \<and> unat offset + unat len \<le> length base)"
proof -
  have "\<forall>op \<in> set (bd_ops (delta_compute base target)). op_fits base op"
    using delta_compute_covers [OF assms(1)] by (simp add: covers_target_def)
  then show ?thesis using delta_decode_compute delta_apply_compute assms by fastforce
qed

section \<open>Exclusive-or deltas restore their target\<close>

lemma xor_patches_restore:
  assumes "length base = length target" and "length target < 2 ^ 32" and "k \<le> length target"
  shows "try_fold xor_patch (take k target @ drop k base)
    (map (\<lambda>(i, b, t). (of_nat i, b XOR t)) (filter (\<lambda>(i, b, t). b XOR t \<noteq> 0)
      (enumerate k (zip (drop k base) (drop k target))))) = Ok target"
  using assms(3)
proof (induction "length target - k" arbitrary: k)
  case 0
  then show ?case using assms(1) by simp
next
  case (Suc n)
  then have k: "k < length target" "k < length base" using assms(1) by simp_all
  let ?rest = "map (\<lambda>(i, b, t). (of_nat i :: u32, b XOR t)) (filter (\<lambda>(i, b, t). b XOR t \<noteq> 0)
      (enumerate (Suc k) (zip (drop (Suc k) base) (drop (Suc k) target))))"
  have IH: "try_fold xor_patch (take (Suc k) target @ drop (Suc k) base) ?rest = Ok target"
    using Suc by (intro Suc.hyps(1)) simp_all
  have here: "drop k base = base ! k # drop (Suc k) base" "drop k target = target ! k # drop (Suc k) target"
    using k by (simp_all add: Cons_nth_drop_Suc)
  have next_state: "take (Suc k) target @ drop (Suc k) base = take k target @ target ! k # drop (Suc k) base"
    using k by (simp add: take_Suc_conv_app_nth)
  have xor: "b XOR (b XOR t) = t" for b t :: u8 by (simp flip: xor.assoc)
  have same: "b XOR t = 0 \<longleftrightarrow> b = t" for b t :: u8 by (metis xor xor.right_neutral)
  show ?case
  proof (cases "base ! k = target ! k")
    case True
    then show ?thesis using IH unfolding next_state here by simp
  next
    case False
    have patch: "xor_patch (take k target @ base ! k # drop (Suc k) base) (of_nat k, base ! k XOR target ! k)
        = Ok (take k target @ target ! k # drop (Suc k) base)"
      using k assms(2) by (simp add: xor_patch_def unat_of_nat_u32 nth_append list_update_append xor)
    show ?thesis using IH False patch unfolding next_state here by (simp add: same)
  qed
qed

lemma xor_compute_apply:
  assumes "xor_compute base target = Ok d" and "length target < 2 ^ 32"
  shows "xor_apply d base = Ok target"
proof -
  have len: "length base = length target" using assms(1) by (simp add: xor_compute_def split: if_splits)
  show ?thesis
    using assms len xor_patches_restore [OF len assms(2), of 0]
    by (auto simp: xor_compute_def xor_apply_def unat_of_nat_u32)
qed

lemma read_xor_patches:
  "spells bs c (concat (map xor_patch_bytes ps)) \<Longrightarrow>
    read_many read_xor_patch (length ps) bs c = Ok (ps, c + 5 * length ps)"
proof (induction ps arbitrary: c)
  case (Cons p ps)
  then have "spells bs c (xor_patch_bytes p)" and rest: "spells bs (c + length (xor_patch_bytes p)) (concat (map xor_patch_bytes ps))"
    by simp_all
  then have "spells bs c (le32 (fst p))" "spells bs (c + 4) [snd p]" "spells bs (c + 5) (concat (map xor_patch_bytes ps))"
    by (simp_all only: xor_patch_bytes_def spells_append) simp_all
  with Cons.IH [of "c + 5"] show ?case
    by (cases p) (simp add: read_xor_patch_def spells_le32 spells_u8)
qed simp

lemma xor_decode_encode:
  assumes "length (xd_patches d) < 2 ^ 16"
  shows "xor_decode (xor_encode d) = Ok d"
proof -
  let ?bs = "xor_encode d"
  have fields: "spells ?bs 0 (le32 (xd_original_len d))" "spells ?bs 4 (le32 (xd_target_len d))"
    "spells ?bs 8 (le16 (of_nat (length (xd_patches d))))" "spells ?bs 10 (concat (map xor_patch_bytes (xd_patches d)))"
    by (simp_all add: xor_encode_def spells_def)
  have "length (concat (map xor_patch_bytes ps)) = 5 * length ps" for ps
    by (induction ps) (simp_all add: xor_patch_bytes_def)
  then have "length ?bs = 10 + 5 * length (xd_patches d)" by (simp add: xor_encode_def)
  moreover have "unat (of_nat (length (xd_patches d)) :: u16) = length (xd_patches d)"
    using assms by (rule unat_of_nat_u16)
  ultimately show ?thesis
    using fields(1-3) read_xor_patches [OF fields(4)] by (simp add: xor_decode_def spells_le32 spells_le16)
qed

section \<open>Chains\<close>

text \<open>The links a sender makes of consecutive versions, each raw or compressed.\<close>

fun chain_links :: "zstd_lib \<Rightarrow> bytes \<Rightarrow> bytes list \<Rightarrow> (bytes \<times> bool) list \<Rightarrow> bool" where
  "chain_links z base [] [] \<longleftrightarrow> True"
| "chain_links z base (target # targets) ((bs, compressed) # links) \<longleftrightarrow>
     (if compressed
      then delta_compress_with_zstd z (delta_compute base target) = Ok bs
        \<and> length (delta_encode (delta_compute base target)) \<le> MAX_DECOMPRESSED
      else bs = delta_encode (delta_compute base target))
     \<and> chain_links z target targets links"
| "chain_links z base _ _ \<longleftrightarrow> False"

lemma delta_zstd_roundtrip:
  assumes "zstd_ok z" and "delta_compress_with_zstd z d = Ok bs" and "length (delta_encode d) \<le> MAX_DECOMPRESSED"
    and "delta_decode (delta_encode d) = Ok d"
  shows "delta_decompress_from_zstd z bs = Ok d"
  using raw_roundtrip [OF assms(1) _ assms(3)] assms(2,4)
  by (simp add: delta_compress_with_zstd_def delta_decompress_from_zstd_def)

text \<open>A chain of deltas between consecutive versions, any of them compressed, brings the first version to the
  last.\<close>

theorem delta_chain_reconstructs:
  assumes "zstd_ok z" and "chain_links z base targets links" and "\<forall>v \<in> set (base # targets). length v < 2 ^ 32"
  shows "apply_chain z base links = Ok (last (base # targets))"
  using assms
proof (induction z base targets links rule: chain_links.induct)
  case (2 z base target targets bs compressed links)
  have small: "length base < 2 ^ 32" "length target < 2 ^ 32" using "2.prems"(3) by simp_all
  have "(if compressed then delta_decompress_from_zstd z bs else delta_decode bs) = Ok (delta_compute base target)"
  proof (cases compressed)
    case True
    with "2.prems"(2) have "delta_compress_with_zstd z (delta_compute base target) = Ok bs"
      and "length (delta_encode (delta_compute base target)) \<le> MAX_DECOMPRESSED" by simp_all
    from delta_zstd_roundtrip [OF "2.prems"(1) this delta_decode_compute [OF small(1)]] True show ?thesis by simp
  qed (use "2.prems"(2) delta_decode_compute [OF small(1)] in simp)
  then have "chain_step z base (bs, compressed) = Ok target"
    using delta_apply_compute [OF small] by (auto simp: chain_step_def split: if_splits)
  with 2 show ?case by (simp add: apply_chain_def)
qed (simp_all add: apply_chain_def)

lemma binary_delta_exact_witness:
  "delta_apply (delta_compute [1, 2, 3] [1, 2, 4]) [1, 2, 3] = Ok [1, 2, 4]"
  using binary_delta_exact [of "[1, 2, 3]" "[1, 2, 4]"] by simp

lemma delta_chain_reconstructs_witness:
  "\<exists>links. length links = 2 \<and> apply_chain toy_zstd [1, 2, 3] links = Ok [5]"
proof -
  let ?first = "delta_compute [1, 2, 3] [7, 7, 7 :: u8]" and ?second = "delta_compute [7, 7, 7] [5 :: u8]"
  have "base_chunks [1, 2, 3] = Map.empty" "base_chunks [7, 7, 7] = Map.empty"
    by (simp_all add: base_chunks_def chunk_offsets_def CHUNK_SIZE_def)
  then have "length (delta_encode ?first) \<le> MAX_DECOMPRESSED"
    by (simp add: delta_compute_def delta_loop.simps best_match_def flush_literal_def CHUNK_SIZE_def
        delta_encode_def MAX_DECOMPRESSED_def)
  then have "chain_links toy_zstd [1, 2, 3] [[7, 7, 7], [5]] [(toy_encode (delta_encode ?first), True), (delta_encode ?second, False)]"
    by (simp add: delta_compress_with_zstd_def zstd_compress_raw_def toy_zstd_def)
  from delta_chain_reconstructs [OF toy_zstd_ok this] show ?thesis
    by (intro exI [of _ "[(toy_encode (delta_encode ?first), True), (delta_encode ?second, False)]"]) simp
qed

end
