(* ===== verification/Pulzz_Template.thy ===== *)
theory Pulzz_Template
  imports Pulzz_Delta
begin

text \<open>
  Structural templates (\<open>shared_protocol/src/compress.rs\<close>, P2): the scanner that finds the keys of a flat
  JSON object, the scanner that extracts its values, the filling of a pattern, and the formats of slot
  values.  A Rust \<open>String\<close> is the list of its UTF-8 bytes; where the code pushes \<open>byte as char\<close>, the model keeps
  the code points and encodes them when the string is used.  The lemmas show for which documents a
  template restores the exact bytes, and a theorem exhibits documents that it changes.
\<close>

section \<open>Strings\<close>

abbreviation QUOTE :: u8 where "QUOTE \<equiv> 0x22"
abbreviation COMMA :: u8 where "COMMA \<equiv> 0x2C"
abbreviation COLON :: u8 where "COLON \<equiv> 0x3A"
abbreviation LBRACE :: u8 where "LBRACE \<equiv> 0x7B"
abbreviation RBRACE :: u8 where "RBRACE \<equiv> 0x7D"
abbreviation LBRACKET :: u8 where "LBRACKET \<equiv> 0x5B"
abbreviation RBRACKET :: u8 where "RBRACKET \<equiv> 0x5D"

text \<open>The UTF-8 bytes of code points below 256.\<close>

definition latin1_utf8 :: "bytes \<Rightarrow> bytes" where
  "latin1_utf8 cs = concat (map (\<lambda>c. if c < 0x80 then [c] else [0xC0 OR drop_bit 6 c, 0x80 OR (c AND 0x3F)]) cs)"

text \<open>\<open>char::is_whitespace\<close> below 256, and \<open>str::trim\<close>.\<close>

definition is_whitespace :: "u8 \<Rightarrow> bool" where
  "is_whitespace c \<longleftrightarrow> (9 \<le> c \<and> c \<le> 13) \<or> c = 0x20 \<or> c = 0x85 \<or> c = 0xA0"

definition trim :: "bytes \<Rightarrow> bytes" where
  "trim cs = rev (dropWhile is_whitespace (rev (dropWhile is_whitespace cs)))"

text \<open>\<open>str::replacen("{}", v, 1)\<close>.\<close>

fun replace_first :: "bytes \<Rightarrow> bytes \<Rightarrow> bytes" where
  "replace_first (a # b # s) v = (if a = LBRACE \<and> b = RBRACE then v @ s else a # replace_first (b # s) v)"
| "replace_first s v = s"

section \<open>Templates\<close>

record StructuralTemplate =
  te_template_id :: u64
  te_source_kind :: SourceKind
  te_keys :: "bytes list"
  te_pattern :: bytes
  te_keys_hash :: u64
  te_match_count :: u32

definition is_object_text :: "bytes \<Rightarrow> bool" where
  "is_object_text bs \<longleftrightarrow> utf8_valid bs \<and> bs \<noteq> [] \<and> hd bs = LBRACE \<and> last bs = RBRACE"

definition inner_text :: "bytes \<Rightarrow> bytes" where
  "inner_text bs = slice 1 (length bs - 1) bs"

definition join_with :: "bytes \<Rightarrow> bytes list \<Rightarrow> bytes" where
  "join_with sep xs = (case xs of [] \<Rightarrow> [] | x # xs \<Rightarrow> x @ concat (map (\<lambda>y. sep @ y) xs))"

definition placeholder :: "bytes \<Rightarrow> bytes" where
  "placeholder key = [QUOTE] @ key @ [QUOTE, COLON, LBRACE, RBRACE]"

record KeyScan =
  ks_in_string :: bool
  ks_depth :: nat
  ks_current_key :: bytes
  ks_collecting_key :: bool
  ks_after_colon :: bool
  ks_first_pair :: bool
  ks_keys :: "bytes list"
  ks_pattern_parts :: "bytes list"

definition key_scan_start :: KeyScan where
  "key_scan_start = \<lparr>ks_in_string = False, ks_depth = 0, ks_current_key = [], ks_collecting_key = False,
     ks_after_colon = False, ks_first_pair = True, ks_keys = [], ks_pattern_parts = []\<rparr>"

definition key_scan_step :: "KeyScan \<Rightarrow> u8 \<Rightarrow> KeyScan" where
  "key_scan_step s ch =
     (if ch = QUOTE \<and> ks_depth s = 0 then
        (if \<not> ks_in_string s
         then s \<lparr>ks_in_string := True, ks_collecting_key := \<not> ks_after_colon s, ks_current_key := []\<rparr>
         else s \<lparr>ks_in_string := False, ks_collecting_key := False\<rparr>)
      else if ks_in_string s \<and> ks_collecting_key s then s \<lparr>ks_current_key := ks_current_key s @ [ch]\<rparr>
      else if ch = COLON \<and> \<not> ks_in_string s \<and> ks_depth s = 0 then
        s \<lparr>ks_after_colon := True,
           ks_pattern_parts := ks_pattern_parts s @ (if ks_first_pair s then [] else [[COMMA]])
             @ [placeholder (latin1_utf8 (ks_current_key s))],
           ks_keys := ks_keys s @ [latin1_utf8 (ks_current_key s)], ks_first_pair := False\<rparr>
      else if ch = COMMA \<and> \<not> ks_in_string s \<and> ks_depth s = 0 then s \<lparr>ks_after_colon := False\<rparr>
      else if (ch = LBRACE \<or> ch = LBRACKET) \<and> \<not> ks_in_string s then s \<lparr>ks_depth := ks_depth s + 1\<rparr>
      else if (ch = RBRACE \<or> ch = RBRACKET) \<and> \<not> ks_in_string s then s \<lparr>ks_depth := ks_depth s - 1\<rparr>
      else s)"

definition template_from_json :: "bytes \<Rightarrow> u64 \<Rightarrow> StructuralTemplate option" where
  "template_from_json json template_id =
     (if \<not> is_object_text json then None
      else let s = foldl key_scan_step key_scan_start (inner_text json) in
        if ks_keys s = [] then None
        else Some \<lparr>te_template_id = template_id, te_source_kind = Json, te_keys = ks_keys s,
                   te_pattern = [LBRACE] @ concat (ks_pattern_parts s) @ [RBRACE],
                   te_keys_hash = simple_hash (join_with [COMMA] (ks_keys s)), te_match_count = 0\<rparr>)"

record ValueScan =
  vs_in_string :: bool
  vs_depth :: nat
  vs_current_key :: bytes
  vs_current_value :: bytes
  vs_collecting_key :: bool
  vs_collecting_value :: bool
  vs_after_colon :: bool
  vs_found :: "(bytes \<times> bytes) list"

definition value_scan_start :: ValueScan where
  "value_scan_start = \<lparr>vs_in_string = False, vs_depth = 0, vs_current_key = [], vs_current_value = [],
     vs_collecting_key = False, vs_collecting_value = False, vs_after_colon = False, vs_found = []\<rparr>"

definition push_found :: "ValueScan \<Rightarrow> (bytes \<times> bytes) list" where
  "push_found s =
     (if vs_after_colon s \<and> vs_current_key s \<noteq> []
      then vs_found s @ [(latin1_utf8 (vs_current_key s), latin1_utf8 (trim (vs_current_value s)))]
      else vs_found s)"

definition value_scan_step :: "ValueScan \<Rightarrow> u8 \<Rightarrow> ValueScan" where
  "value_scan_step s ch =
     (if ch = QUOTE \<and> vs_depth s = 0 then
        (if \<not> vs_in_string s then
           (if \<not> vs_after_colon s then s \<lparr>vs_in_string := True, vs_collecting_key := True, vs_current_key := []\<rparr>
            else if \<not> vs_collecting_value s
            then s \<lparr>vs_in_string := True, vs_collecting_value := True, vs_current_value := [QUOTE]\<rparr>
            else s \<lparr>vs_in_string := True\<rparr>)
         else
           s \<lparr>vs_in_string := False, vs_collecting_key := False,
              vs_current_value := (if vs_collecting_value s then vs_current_value s @ [QUOTE] else vs_current_value s)\<rparr>)
      else if vs_in_string s \<and> vs_collecting_key s then s \<lparr>vs_current_key := vs_current_key s @ [ch]\<rparr>
      else if vs_in_string s \<and> vs_collecting_value s then s \<lparr>vs_current_value := vs_current_value s @ [ch]\<rparr>
      else if ch = COLON \<and> \<not> vs_in_string s \<and> vs_depth s = 0 then
        s \<lparr>vs_after_colon := True,
           vs_current_value := (if vs_collecting_value s then vs_current_value s else [])\<rparr>
      else if ch = COMMA \<and> \<not> vs_in_string s \<and> vs_depth s = 0 then
        s \<lparr>vs_found := push_found s, vs_after_colon := False, vs_collecting_value := False, vs_current_value := []\<rparr>
      else if (ch = LBRACE \<or> ch = LBRACKET) \<and> \<not> vs_in_string s then
        s \<lparr>vs_depth := vs_depth s + 1,
           vs_current_value := (if vs_collecting_value s then vs_current_value s @ [ch] else vs_current_value s)\<rparr>
      else if (ch = RBRACE \<or> ch = RBRACKET) \<and> \<not> vs_in_string s then
        s \<lparr>vs_depth := vs_depth s - 1,
           vs_current_value := (if vs_collecting_value s then vs_current_value s @ [ch] else vs_current_value s)\<rparr>
      else if vs_collecting_value s then s \<lparr>vs_current_value := vs_current_value s @ [ch]\<rparr>
      else if vs_after_colon s \<and> \<not> vs_in_string s \<and> \<not> vs_collecting_value s then
        s \<lparr>vs_collecting_value := True, vs_current_value := [ch]\<rparr>
      else s)"

fun lookup_values :: "(bytes \<times> bytes) list \<Rightarrow> bytes list \<Rightarrow> bytes list option" where
  "lookup_values found [] = Some []"
| "lookup_values found (key # keys) =
     (case map_of found key of
        None \<Rightarrow> None
      | Some v \<Rightarrow> map_option ((#) v) (lookup_values found keys))"

definition extract_values :: "StructuralTemplate \<Rightarrow> bytes \<Rightarrow> bytes list option" where
  "extract_values t json =
     (if \<not> is_object_text json then None
      else let found = push_found (foldl value_scan_step value_scan_start (inner_text json)) in
        if length found \<noteq> length (te_keys t) then None
        else lookup_values found (te_keys t))"

definition reconstruct :: "StructuralTemplate \<Rightarrow> bytes list \<Rightarrow> CompressError + bytes" where
  "reconstruct t values =
     (if length values \<noteq> length (te_keys t)
      then Err (TemplateSlotCountMismatch (length (te_keys t)) (length values))
      else Ok (foldl (\<lambda>result v. replace_first result (if utf8_valid v then v else [])) (te_pattern t) values))"

section \<open>Slot values\<close>

definition slot_bytes :: "bytes \<Rightarrow> bytes" where
  "slot_bytes v = le16 (of_nat (length v)) @ v"

definition encode_slot_values :: "bytes list \<Rightarrow> bytes" where
  "encode_slot_values values = of_nat (length values) # concat (map slot_bytes values)"

definition read_slot :: "(CompressError, bytes) reader" where
  "read_slot bs pos =
     (if pos + 2 > length bs then Err SlotValueTruncated
      else let len = unat (of_le16 (slice pos (pos + 2) bs)); pos = pos + 2 in
        if pos + len > length bs then Err SlotValueTruncated
        else Ok (slice pos (pos + len) bs, pos + len))"

definition decode_slot_values :: "bytes \<Rightarrow> CompressError + bytes list" where
  "decode_slot_values bs =
     (if bs = [] then Ok []
      else and_then (read_many read_slot (unat (bs ! 0)) bs 1) (\<lambda>(values, _). Ok values))"

definition encode_slot_values_compressed :: "zstd_lib \<Rightarrow> bytes list \<Rightarrow> bytes" where
  "encode_slot_values_compressed z values =
     (let raw = encode_slot_values values in
      if length raw < 32 then 0 # raw
      else case zstd_compress_raw z raw of
          Inr compressed \<Rightarrow> if length compressed + 1 < length raw then 1 # compressed else 0 # raw
        | Inl _ \<Rightarrow> 0 # raw)"

definition decode_slot_values_compressed :: "zstd_lib \<Rightarrow> bytes \<Rightarrow> CompressError + bytes list" where
  "decode_slot_values_compressed z bs =
     (if bs = [] then Ok []
      else let flag = bs ! 0; data = drop 1 bs in
        if flag = 0 then decode_slot_values data
        else if flag = 1 then and_then (zstd_decompress_raw z data MAX_DECOMPRESSED) decode_slot_values
        else Err SlotValueTruncated)"

section \<open>Documents that templates restore\<close>

text \<open>
  A canonical flat document: \<open>{"key":value,...}\<close> without blanks, in ASCII, where a value is a bare literal or a
  quoted text without inner quotes, and neither keys nor values contain an empty pair of braces.
\<close>

fun has_hole :: "bytes \<Rightarrow> bool" where
  "has_hole (a # b # s) \<longleftrightarrow> a = LBRACE \<and> b = RBRACE \<or> has_hole (b # s)"
| "has_hole s \<longleftrightarrow> False"

definition ascii :: "bytes \<Rightarrow> bool" where "ascii cs \<longleftrightarrow> (\<forall>c \<in> set cs. c < 0x80)"

definition bare_value :: "bytes \<Rightarrow> bool" where
  "bare_value v \<longleftrightarrow> v \<noteq> [] \<and> ascii v
     \<and> (\<forall>c \<in> set v. \<not> is_whitespace c \<and> c \<notin> {QUOTE, COMMA, COLON, LBRACE, RBRACE, LBRACKET, RBRACKET})"

definition quoted_value :: "bytes \<Rightarrow> bool" where
  "quoted_value v \<longleftrightarrow> (\<exists>body. v = [QUOTE] @ body @ [QUOTE] \<and> ascii body \<and> QUOTE \<notin> set body \<and> \<not> has_hole body)"

definition key_text :: "bytes \<Rightarrow> bool" where
  "key_text k \<longleftrightarrow> k \<noteq> [] \<and> ascii k \<and> QUOTE \<notin> set k \<and> \<not> has_hole k"

definition field_ok :: "bytes \<times> bytes \<Rightarrow> bool" where
  "field_ok f \<longleftrightarrow> key_text (fst f) \<and> (bare_value (snd f) \<or> quoted_value (snd f))"

definition field_text :: "bytes \<times> bytes \<Rightarrow> bytes" where
  "field_text f = [QUOTE] @ fst f @ [QUOTE, COLON] @ snd f"

fun filled :: "(bytes \<times> bytes) list \<Rightarrow> bytes" where
  "filled [] = []"
| "filled (f # fs) = field_text f @ (if fs = [] then [] else [COMMA] @ filled fs)"

definition render :: "(bytes \<times> bytes) list \<Rightarrow> bytes" where
  "render fs = [LBRACE] @ filled fs @ [RBRACE]"

fun holes :: "bytes list \<Rightarrow> bytes" where
  "holes [] = []"
| "holes (k # ks) = placeholder k @ (if ks = [] then [] else [COMMA] @ holes ks)"

lemma holes_snoc: "holes (ks @ [k]) = holes ks @ (if ks = [] then [] else [COMMA]) @ placeholder k"
  by (induction ks) simp_all

lemma ascii_simps [simp]: "ascii []" "ascii (c # cs) \<longleftrightarrow> c < 0x80 \<and> ascii cs" "ascii (cs @ ds) \<longleftrightarrow> ascii cs \<and> ascii ds"
  by (auto simp: ascii_def)

lemma ascii_valid: "ascii cs \<Longrightarrow> utf8_valid cs"
  by (induction cs) simp_all

lemma ascii_latin1: "ascii cs \<Longrightarrow> latin1_utf8 cs = cs"
  by (induction cs) (simp_all add: latin1_utf8_def)

lemma field_ascii:
  assumes "field_ok f"
  shows "ascii (fst f)" "ascii (snd f)" "ascii (field_text f)"
  using assms by (auto simp: field_ok_def key_text_def bare_value_def quoted_value_def field_text_def)

lemma filled_ascii: "\<forall>f \<in> set fs. field_ok f \<Longrightarrow> ascii (filled fs)"
  by (induction fs) (auto simp: field_ascii)

lemma render_object: "\<forall>f \<in> set fs. field_ok f \<Longrightarrow> is_object_text (render fs)" "inner_text (render fs) = filled fs"
  by (simp_all add: is_object_text_def render_def filled_ascii ascii_valid inner_text_def slice_def)

subsection \<open>The key scanner\<close>

definition keys_seen :: "bool \<Rightarrow> bytes list \<Rightarrow> KeyScan \<Rightarrow> bool" where
  "keys_seen after ks s \<longleftrightarrow> \<not> ks_in_string s \<and> ks_depth s = 0 \<and> \<not> ks_collecting_key s \<and> ks_after_colon s = after
     \<and> ks_first_pair s = (ks = []) \<and> ks_keys s = ks \<and> concat (ks_pattern_parts s) = holes ks"

lemma scan_key_chars:
  assumes "ks_in_string s" and "ks_collecting_key s" and "QUOTE \<notin> set k"
  shows "foldl key_scan_step s k = s \<lparr>ks_current_key := ks_current_key s @ k\<rparr>"
  using assms by (induction k arbitrary: s) (simp_all add: key_scan_step_def)

lemma scan_bare_chars:
  assumes "\<not> ks_in_string s" and "\<forall>c \<in> set v. c \<notin> {QUOTE, COMMA, COLON, LBRACE, RBRACE, LBRACKET, RBRACKET}"
  shows "foldl key_scan_step s v = s"
  using assms by (induction v) (simp_all add: key_scan_step_def)

lemma scan_text_chars:
  assumes "ks_in_string s" and "\<not> ks_collecting_key s" and "QUOTE \<notin> set v"
  shows "foldl key_scan_step s v = s"
  using assms by (induction v) (simp_all add: key_scan_step_def)

lemma scan_field:
  assumes "keys_seen False ks s" and ok: "field_ok f"
  shows "keys_seen True (ks @ [fst f]) (foldl key_scan_step s (field_text f))"
proof -
  have k: "QUOTE \<notin> set (fst f)" "latin1_utf8 (fst f) = fst f"
    using ok field_ascii [OF ok] by (simp_all add: field_ok_def key_text_def ascii_latin1)
  define s1 where "s1 = foldl key_scan_step s ([QUOTE] @ fst f @ [QUOTE, COLON])"
  have s1: "keys_seen True (ks @ [fst f]) s1"
    using assms(1) k scan_key_chars [of "s\<lparr>ks_in_string := True, ks_collecting_key := True, ks_current_key := []\<rparr>" "fst f"]
    by (simp add: keys_seen_def key_scan_step_def holes_snoc s1_def)
  have "keys_seen True (ks @ [fst f]) (foldl key_scan_step s1 (snd f))"
    using ok unfolding field_ok_def
  proof (elim conjE disjE)
    assume "bare_value (snd f)"
    then show ?thesis using s1 scan_bare_chars [of s1 "snd f"] by (simp add: keys_seen_def bare_value_def)
  next
    assume "quoted_value (snd f)"
    then obtain body where v: "snd f = [QUOTE] @ body @ [QUOTE]" "QUOTE \<notin> set body" by (auto simp: quoted_value_def)
    have "key_scan_step s1 QUOTE = s1 \<lparr>ks_in_string := True, ks_collecting_key := False, ks_current_key := []\<rparr>"
      using s1 by (simp add: keys_seen_def key_scan_step_def)
    moreover have "foldl key_scan_step (s1 \<lparr>ks_in_string := True, ks_collecting_key := False, ks_current_key := []\<rparr>) body
        = s1 \<lparr>ks_in_string := True, ks_collecting_key := False, ks_current_key := []\<rparr>"
      using v(2) by (intro scan_text_chars) simp_all
    ultimately show ?thesis using s1 unfolding v(1) by (simp add: keys_seen_def key_scan_step_def)
  qed
  then show ?thesis by (simp add: field_text_def s1_def)
qed

lemma scan_filled:
  assumes "keys_seen False ks s" and "\<forall>f \<in> set fs. field_ok f" and "fs \<noteq> []"
  shows "keys_seen True (ks @ map fst fs) (foldl key_scan_step s (filled fs))"
  using assms
proof (induction fs arbitrary: ks s)
  case (Cons f fs)
  have here: "keys_seen True (ks @ [fst f]) (foldl key_scan_step s (field_text f))"
    using Cons.prems by (intro scan_field) simp_all
  show ?case
  proof (cases "fs = []")
    case False
    have "keys_seen False (ks @ [fst f]) (foldl key_scan_step (foldl key_scan_step s (field_text f)) [COMMA])"
      using here by (simp add: keys_seen_def key_scan_step_def)
    from Cons.IH [OF this] False Cons.prems show ?thesis by simp
  qed (use here in simp)
qed simp

lemma template_from_render:
  assumes "\<forall>f \<in> set fs. field_ok f" and "fs \<noteq> []"
  shows "\<exists>t. template_from_json (render fs) i = Some t \<and> te_keys t = map fst fs
    \<and> te_pattern t = [LBRACE] @ holes (map fst fs) @ [RBRACE]"
proof -
  have "keys_seen False [] key_scan_start" by (simp add: keys_seen_def key_scan_start_def)
  from scan_filled [OF this assms] show ?thesis
    using assms render_object [of fs] by (auto simp: template_from_json_def Let_def keys_seen_def)
qed

subsection \<open>The value scanner\<close>

definition values_seen :: "(bytes \<times> bytes) list \<Rightarrow> ValueScan \<Rightarrow> bool" where
  "values_seen fs s \<longleftrightarrow> \<not> vs_in_string s \<and> vs_depth s = 0 \<and> \<not> vs_collecting_key s \<and> \<not> vs_collecting_value s
     \<and> \<not> vs_after_colon s \<and> vs_found s = fs"

definition value_read :: "(bytes \<times> bytes) list \<Rightarrow> bytes \<times> bytes \<Rightarrow> ValueScan \<Rightarrow> bool" where
  "value_read fs f s \<longleftrightarrow> \<not> vs_in_string s \<and> vs_depth s = 0 \<and> \<not> vs_collecting_key s
     \<and> vs_after_colon s \<and> vs_found s = fs \<and> vs_current_key s = fst f \<and> vs_current_value s = snd f"

lemma vscan_key_chars:
  assumes "vs_in_string s" and "vs_collecting_key s" and "QUOTE \<notin> set k"
  shows "foldl value_scan_step s k = s \<lparr>vs_current_key := vs_current_key s @ k\<rparr>"
  using assms by (induction k arbitrary: s) (simp_all add: value_scan_step_def)

lemma vscan_bare_chars:
  assumes "\<not> vs_in_string s" and "vs_collecting_value s"
    and "\<forall>c \<in> set v. c \<notin> {QUOTE, COMMA, COLON, LBRACE, RBRACE, LBRACKET, RBRACKET}"
  shows "foldl value_scan_step s v = s \<lparr>vs_current_value := vs_current_value s @ v\<rparr>"
  using assms by (induction v arbitrary: s) (simp_all add: value_scan_step_def)

lemma vscan_text_chars:
  assumes "vs_in_string s" and "\<not> vs_collecting_key s" and "vs_collecting_value s" and "QUOTE \<notin> set v"
  shows "foldl value_scan_step s v = s \<lparr>vs_current_value := vs_current_value s @ v\<rparr>"
  using assms by (induction v arbitrary: s) (simp_all add: value_scan_step_def)

lemma vscan_field:
  assumes "values_seen fs s" and ok: "field_ok f"
  shows "value_read fs f (foldl value_scan_step s (field_text f))"
proof -
  have k: "QUOTE \<notin> set (fst f)" using ok by (simp add: field_ok_def key_text_def)
  define s1 where "s1 = foldl value_scan_step s ([QUOTE] @ fst f @ [QUOTE, COLON])"
  have s1: "s1 = s \<lparr>vs_in_string := False, vs_collecting_key := False, vs_current_key := fst f, vs_after_colon := True,
      vs_current_value := []\<rparr>"
    using assms(1) k vscan_key_chars [of "s\<lparr>vs_in_string := True, vs_collecting_key := True, vs_current_key := []\<rparr>" "fst f"]
    by (simp add: values_seen_def value_scan_step_def s1_def)
  have "value_read fs f (foldl value_scan_step s1 (snd f))"
    using ok unfolding field_ok_def
  proof (elim conjE disjE)
    assume bare: "bare_value (snd f)"
    then obtain c v where v: "snd f = c # v" by (cases "snd f") (auto simp: bare_value_def)
    have first: "value_scan_step s1 c = s1 \<lparr>vs_collecting_value := True, vs_current_value := [c]\<rparr>"
      using bare assms(1) unfolding s1 v by (simp add: value_scan_step_def bare_value_def values_seen_def)
    have "foldl value_scan_step (s1 \<lparr>vs_collecting_value := True, vs_current_value := [c]\<rparr>) v
        = s1 \<lparr>vs_collecting_value := True, vs_current_value := c # v\<rparr>"
      using bare by (subst vscan_bare_chars) (simp_all add: v bare_value_def s1)
    then have "foldl value_scan_step s1 (snd f) = s1 \<lparr>vs_collecting_value := True, vs_current_value := c # v\<rparr>"
      by (simp only: v foldl.simps first)
    then show ?thesis using assms(1) s1 by (simp add: v value_read_def values_seen_def)
  next
    assume "quoted_value (snd f)"
    then obtain body where v: "snd f = [QUOTE] @ body @ [QUOTE]" "QUOTE \<notin> set body" by (auto simp: quoted_value_def)
    have first: "value_scan_step s1 QUOTE = s1 \<lparr>vs_in_string := True, vs_collecting_value := True, vs_current_value := [QUOTE]\<rparr>"
      using assms(1) unfolding s1 by (simp add: value_scan_step_def values_seen_def)
    have "foldl value_scan_step (s1 \<lparr>vs_in_string := True, vs_collecting_value := True, vs_current_value := [QUOTE]\<rparr>) body
        = s1 \<lparr>vs_in_string := True, vs_collecting_value := True, vs_current_value := [QUOTE] @ body\<rparr>"
      using v(2) by (subst vscan_text_chars) (simp_all add: s1)
    moreover have "value_scan_step (s1 \<lparr>vs_in_string := True, vs_collecting_value := True, vs_current_value := [QUOTE] @ body\<rparr>) QUOTE
        = s1 \<lparr>vs_in_string := False, vs_collecting_key := False, vs_collecting_value := True, vs_current_value := snd f\<rparr>"
      using assms(1) unfolding s1 v(1) by (simp add: value_scan_step_def values_seen_def)
    ultimately have "foldl value_scan_step s1 (snd f)
        = s1 \<lparr>vs_in_string := False, vs_collecting_key := False, vs_collecting_value := True, vs_current_value := snd f\<rparr>"
      by (simp only: v(1) foldl.simps foldl_append append.simps first)
    then show ?thesis using assms(1) s1 by (simp add: value_read_def values_seen_def)
  qed
  then show ?thesis by (simp add: field_text_def s1_def)
qed

lemma trim_value: "bare_value v \<or> quoted_value v \<Longrightarrow> trim v = v"
proof -
  have edges: "trim v = v" if "v \<noteq> []" "\<not> is_whitespace (hd v)" "\<not> is_whitespace (last v)" for v
  proof -
    have "dropWhile is_whitespace v = v" using that by (cases v) simp_all
    moreover have "dropWhile is_whitespace (rev v) = rev v" using that by (cases v rule: rev_cases) simp_all
    ultimately show ?thesis by (simp add: trim_def)
  qed
  assume "bare_value v \<or> quoted_value v"
  then show "trim v = v"
  proof
    assume "bare_value v"
    then show ?thesis by (intro edges) (simp_all add: bare_value_def)
  next
    assume "quoted_value v"
    then obtain body where "v = [QUOTE] @ body @ [QUOTE]" by (auto simp: quoted_value_def)
    then show ?thesis by (intro edges) (simp_all add: is_whitespace_def)
  qed
qed

lemma push_value_read:
  assumes "value_read fs f s" and "field_ok f"
  shows "push_found s = fs @ [f]"
  using assms field_ascii [OF assms(2)] trim_value [of "snd f"]
  by (auto simp: push_found_def value_read_def ascii_latin1 field_ok_def key_text_def)

lemma vscan_filled:
  assumes "values_seen done s" and "\<forall>f \<in> set fs. field_ok f" and "fs \<noteq> []"
  shows "push_found (foldl value_scan_step s (filled fs)) = done @ fs"
  using assms
proof (induction fs arbitrary: "done" s)
  case (Cons f fs)
  let ?s = "foldl value_scan_step s (field_text f)"
  have here: "value_read done f ?s" using Cons.prems by (intro vscan_field) simp_all
  note push = push_value_read [OF here]
  show ?case
  proof (cases "fs = []")
    case False
    have "values_seen (done @ [f]) (foldl value_scan_step ?s [COMMA])"
      using here push Cons.prems by (simp add: value_read_def values_seen_def value_scan_step_def)
    from Cons.IH [OF this] False Cons.prems show ?thesis by simp
  qed (use push Cons.prems in simp)
qed simp

lemma lookup_all: "distinct (map fst found) \<Longrightarrow> set fs \<subseteq> set found \<Longrightarrow> lookup_values found (map fst fs) = Some (map snd fs)"
  by (induction fs) auto

lemma extract_render:
  assumes "\<forall>f \<in> set fs. field_ok f" and "fs \<noteq> []" and "distinct (map fst fs)" and "te_keys t = map fst fs"
  shows "extract_values t (render fs) = Some (map snd fs)"
proof -
  have "values_seen [] value_scan_start" by (simp add: values_seen_def value_scan_start_def)
  from vscan_filled [OF this assms(1,2)] show ?thesis
    using assms(3,4) render_object [of fs] assms(1) lookup_all [of fs fs] by (simp add: extract_values_def Let_def)
qed

subsection \<open>Filling the pattern\<close>

lemma has_hole_append:
  "has_hole (p @ q) \<longleftrightarrow> has_hole p \<or> has_hole q \<or> (p \<noteq> [] \<and> q \<noteq> [] \<and> last p = LBRACE \<and> hd q = RBRACE)"
proof (induction p)
  case (Cons a p)
  then show ?case by (cases p; cases q) auto
qed simp

lemma replace_at_hole: "\<not> has_hole p \<Longrightarrow> replace_first (p @ [LBRACE, RBRACE] @ r) v = p @ v @ r"
proof (induction p rule: has_hole.induct)
  case (1 a b s)
  then show ?case by (cases s) auto
qed auto

lemma field_no_hole:
  assumes "field_ok f"
  shows "\<not> has_hole (fst f)" "\<not> has_hole (snd f)" "snd f \<noteq> []" "utf8_valid (snd f)"
proof -
  have bare: "\<not> has_hole v" if "LBRACE \<notin> set v" for v using that by (induction v rule: has_hole.induct) auto
  show "\<not> has_hole (fst f)" "snd f \<noteq> []" using assms by (auto simp: field_ok_def key_text_def bare_value_def quoted_value_def)
  have quoted: "\<not> has_hole ([QUOTE] @ body @ [QUOTE])" if "\<not> has_hole body" for body
    using that unfolding has_hole_append by simp
  show "\<not> has_hole (snd f)"
    using assms bare [of "snd f"] quoted unfolding field_ok_def bare_value_def quoted_value_def by fastforce
  show "utf8_valid (snd f)" using field_ascii [OF assms] by (simp add: ascii_valid)
qed

lemma fill_holes:
  assumes "\<not> has_hole p" and "\<forall>f \<in> set fs. field_ok f"
  shows "foldl (\<lambda>result v. replace_first result (if utf8_valid v then v else [])) (p @ holes (map fst fs) @ [RBRACE]) (map snd fs)
    = p @ filled fs @ [RBRACE]"
  using assms
proof (induction fs arbitrary: p)
  case (Cons f fs)
  note f = field_no_hole [of f]
  let ?rest = "(if fs = [] then [] else [COMMA] @ holes (map fst fs)) @ [RBRACE]"
  let ?front = "p @ [QUOTE] @ fst f @ [QUOTE, COLON]"
  have front: "\<not> has_hole ?front" using Cons.prems f unfolding has_hole_append by simp
  have "replace_first (p @ holes (map fst (f # fs)) @ [RBRACE]) (snd f) = ?front @ snd f @ ?rest"
    using replace_at_hole [OF front, of ?rest "snd f"] by (simp add: placeholder_def)
  moreover have "foldl (\<lambda>result v. replace_first result (if utf8_valid v then v else [])) (?front @ snd f @ ?rest) (map snd fs)
      = ?front @ snd f @ (if fs = [] then [] else [COMMA] @ filled fs) @ [RBRACE]"
  proof (cases "fs = []")
    case False
    have "\<not> has_hole (?front @ snd f @ [COMMA])" using front f Cons.prems unfolding has_hole_append [of ?front] has_hole_append [of "snd f"] by simp
    from Cons.IH [OF this] False Cons.prems show ?thesis by simp
  qed simp
  ultimately show ?case using f Cons.prems by (simp add: field_text_def)
qed simp

section \<open>Slot values\<close>

lemma read_slots:
  "\<forall>v \<in> set vs. length v < 2 ^ 16 \<Longrightarrow> spells bs c (concat (map slot_bytes vs)) \<Longrightarrow>
    read_many read_slot (length vs) bs c = Ok (vs, c + length (concat (map slot_bytes vs)))"
proof (induction vs arbitrary: c)
  case (Cons v vs)
  then have head: "spells bs c (le16 (of_nat (length v)))" and v: "spells bs (c + 2) v"
    and rest: "spells bs (c + 2 + length v) (concat (map slot_bytes vs))"
    by (simp_all add: slot_bytes_def [of v] add.assoc)
  have len: "unat (of_nat (length v) :: u16) = length v" using Cons.prems(1) by (simp add: unat_of_nat_u16)
  have inside: "c + 2 + length v \<le> length bs"
    using head spells_length [OF v] by (cases "v = []") (simp_all add: spells_le16)
  have "read_slot bs c = Ok (v, c + 2 + length v)"
    using head v len inside by (simp add: read_slot_def spells_le16 spells_slice Let_def)
  with Cons.IH [OF _ rest] Cons.prems(1) show ?case by (simp add: slot_bytes_def add.assoc)
qed simp

lemma decode_encode_slots:
  assumes "length vs < 2 ^ 8" and "\<forall>v \<in> set vs. length v < 2 ^ 16"
  shows "decode_slot_values (encode_slot_values vs) = Ok vs"
proof -
  have "spells (encode_slot_values vs) 1 (concat (map slot_bytes vs))"
    by (simp add: encode_slot_values_def spells_def)
  from read_slots [OF assms(2) this] show ?thesis
    using assms(1) by (simp add: decode_slot_values_def encode_slot_values_def unat_of_nat_u8)
qed

lemma decode_encode_slots_compressed:
  assumes z: "zstd_ok z" and small: "length vs < 2 ^ 8" "\<forall>v \<in> set vs. length v < 2 ^ 16"
    and raw: "length (encode_slot_values vs) \<le> MAX_DECOMPRESSED"
  shows "decode_slot_values_compressed z (encode_slot_values_compressed z vs) = Ok vs"
  using decode_encode_slots [OF small] raw_roundtrip [OF z _ raw]
  by (auto simp: encode_slot_values_compressed_def decode_slot_values_compressed_def Let_def split: sum.splits)

lemma slots_shorter:
  assumes "\<forall>f \<in> set fs. field_ok f" and "fs \<noteq> []"
  shows "length (encode_slot_values (map snd fs)) \<le> length (render fs)"
proof -
  have "length (concat (map (slot_bytes \<circ> snd) fs)) \<le> length (filled fs)" if "\<forall>f \<in> set fs. field_ok f"
    using that by (induction fs) (auto simp: slot_bytes_def field_text_def)
  with assms show ?thesis by (simp add: encode_slot_values_def render_def)
qed


section \<open>Documents that templates change\<close>

definition template_round :: "bytes \<Rightarrow> (CompressError + bytes) option" where
  "template_round json =
     Option.bind (template_from_json json 0) (\<lambda>t. map_option (reconstruct t) (extract_values t json))"

text \<open>Outside that class the template changes the document without any error: a nested value loses its opening
  brace, blanks disappear, a non-ASCII character is encoded twice, and a value with empty braces takes the
  place of the next placeholder.\<close>

theorem template_changes_documents:
  shows \<open>template_round (ascii_bytes ''{"a":{"b":1}}'') = Some (Ok (ascii_bytes ''{"a":"b":1}}''))
    \<and> template_round (ascii_bytes ''{"a": 1}'') = Some (Ok (ascii_bytes ''{"a":1}''))
    \<and> template_round (ascii_bytes ''{"a":"'' @ [0xC3, 0xA9] @ ascii_bytes ''"}'')
        = Some (Ok (ascii_bytes ''{"a":"'' @ [0xC3, 0x83, 0xC2, 0xA9] @ ascii_bytes ''"}''))
    \<and> template_round (ascii_bytes ''{"a":"{}","b":1}'') = Some (Ok (ascii_bytes ''{"a":"1","b":{}}''))\<close>
  by code_simp


end
