(* ===== verification/Pulzz_Columnar.thy ===== *)
theory Pulzz_Columnar
  imports Pulzz_Delta Pulzz_Protocol
begin

text \<open>
  Columnar batches (\<open>shared_protocol/src/compress.rs\<close>, P3): run lengths, variable-length integers, difference
  coding, batches of three columns, the accumulator that collects items, and the length-prefixed
  concatenation of payloads (\<open>BatchAeadHelper\<close>, P5).  The lemmas show that each coding is inverted by its
  decoder and that a batch gives back its items.
\<close>

section \<open>Columns\<close>

datatype ColumnKind = CK_SourceKind | CK_PayloadLen | CK_PayloadData | CK_ItemId | CK_SchemaId
datatype ColumnEncoding = CE_Raw | CE_Rle | CE_DeltaU32 | CE_Zstd

record ColumnarColumn =
  cc_kind :: ColumnKind
  cc_encoding :: ColumnEncoding
  cc_data :: bytes

record ColumnarBatch =
  cb_version :: u8
  cb_row_count :: u32
  cb_columns :: "ColumnarColumn list"

definition COLUMNAR_VERSION :: u8 where "COLUMNAR_VERSION = 1"

fun rle_step :: "bytes \<times> u8 \<times> u32 \<Rightarrow> u8 \<Rightarrow> bytes \<times> u8 \<times> u32" where
  "rle_step (encoded, current, count) byte =
     (if byte = current \<and> count < - 1 then (encoded, current, count + 1)
      else (encoded @ [current] @ le32 count, byte, 1))"

definition rle_encode :: "bytes \<Rightarrow> ColumnKind \<Rightarrow> ColumnarColumn" where
  "rle_encode data kind =
     \<lparr>cc_kind = kind, cc_encoding = CE_Rle,
      cc_data = (case data of
          [] \<Rightarrow> []
        | first # rest \<Rightarrow> (case foldl rle_step ([], first, 1) rest of
            (encoded, current, count) \<Rightarrow> encoded @ [current] @ le32 count))\<rparr>"

function rle_decode_loop :: "bytes \<Rightarrow> nat \<Rightarrow> bytes \<Rightarrow> bytes" where
  "rle_decode_loop data pos result =
     (if pos + 5 \<le> length data
      then rle_decode_loop data (pos + 5)
             (result @ replicate (unat (of_le32 (slice (pos + 1) (pos + 5) data))) (data ! pos))
      else result)"
  by pat_completeness auto
termination by (relation "measure (\<lambda>(data, pos, _). length data - pos)") auto

declare rle_decode_loop.simps [simp del]

definition rle_decode :: "ColumnarColumn \<Rightarrow> CompressError + bytes" where
  "rle_decode column = Ok (rle_decode_loop (cc_data column) 0 [])"

section \<open>Variable-length integers and differences\<close>

lemma drop_bit_less:
  assumes "drop_bit 7 v \<noteq> 0"
  shows "unat (drop_bit 7 v) < unat (v :: u32)"
proof -
  have "unat v \<noteq> 0" using assms by (auto simp: unat_eq_0)
  then show ?thesis by (simp add: drop_bit_eq_div unat_div)
qed

function encode_varint :: "u32 \<Rightarrow> bytes" where
  "encode_varint v =
     (let byte = ucast (v AND 0x7F); v = drop_bit 7 v in
      if v \<noteq> 0 then (byte OR 0x80) # encode_varint v else [byte])"
  by pat_completeness auto
termination by (relation "measure unat") (auto intro: drop_bit_less)

declare encode_varint.simps [simp del]

function decode_varint_loop :: "bytes \<Rightarrow> nat \<Rightarrow> u32 \<Rightarrow> nat \<Rightarrow> nat \<Rightarrow> CompressError + u32 \<times> nat" where
  "decode_varint_loop data pos value shift consumed =
     (if pos \<ge> length data then Err (ColumnarDecode ''varint truncated'')
      else let byte = data ! pos; pos = pos + 1; consumed = consumed + 1;
               value = value OR push_bit shift (ucast (byte AND 0x7F)) in
        if byte AND 0x80 = 0 then Ok (value, consumed)
        else let shift = shift + 7 in
          if shift \<ge> 35 then Err (ColumnarDecode ''varint overflow'')
          else decode_varint_loop data pos value shift consumed)"
  by pat_completeness auto
termination by (relation "measure (\<lambda>(data, pos, _). length data - pos)") auto

declare decode_varint_loop.simps [simp del]

definition decode_varint :: "bytes \<Rightarrow> nat \<Rightarrow> CompressError + u32 \<times> nat" where
  "decode_varint data start = decode_varint_loop data start 0 0 0"

fun delta_tail :: "u32 \<Rightarrow> u32 list \<Rightarrow> bytes" where
  "delta_tail prev [] = []"
| "delta_tail prev (v # vs) = encode_varint (v - prev) @ delta_tail v vs"

definition delta_u32_encode :: "u32 list \<Rightarrow> ColumnKind \<Rightarrow> ColumnarColumn" where
  "delta_u32_encode values kind =
     \<lparr>cc_kind = kind, cc_encoding = CE_DeltaU32,
      cc_data = (case values of [] \<Rightarrow> [] | first # rest \<Rightarrow> le32 first @ delta_tail first rest)\<rparr>"

text \<open>Every number read consumes at least one byte, so the loop over the numbers ends.\<close>

lemma decode_varint_consumes: "decode_varint_loop data pos acc shift consumed = Ok (v, n) \<Longrightarrow> consumed < n"
proof (induction "length data - pos" arbitrary: pos acc shift consumed rule: less_induct)
  case less
  note step = less.prems [unfolded decode_varint_loop.simps [of data pos acc]]
  then have "pos < length data" by (simp split: if_splits)
  with step less.hyps [of "pos + 1" _ _ "consumed + 1"] show ?case
    by (fastforce simp: Let_def split: if_splits)
qed

function delta_u32_loop :: "bytes \<Rightarrow> nat \<Rightarrow> u32 \<Rightarrow> u32 list \<Rightarrow> CompressError + u32 list" where
  "delta_u32_loop data pos current values =
     (if pos < length data then
        (case decode_varint data pos of
           Inl e \<Rightarrow> Err e
         | Inr (delta, consumed) \<Rightarrow>
             let current = current + delta in
             delta_u32_loop data (pos + consumed) current (values @ [current]))
      else Ok values)"
  by pat_completeness auto
termination
  by (relation "measure (\<lambda>(data, pos, _). length data - pos)")
     (auto simp: decode_varint_def dest!: sym [of "Inr _"] decode_varint_consumes)

declare delta_u32_loop.simps [simp del]

definition delta_u32_decode :: "ColumnarColumn \<Rightarrow> CompressError + u32 list" where
  "delta_u32_decode column =
     (let data = cc_data column in
      if length data < 4 then Ok []
      else let first = of_le32 (slice 0 4 data) in delta_u32_loop data 4 first [first])"

section \<open>Batches\<close>

definition encode_batch :: "zstd_lib \<Rightarrow> (SourceKind \<times> bytes) list \<Rightarrow> ColumnarBatch" where
  "encode_batch z items =
     (if items = [] then \<lparr>cb_version = COLUMNAR_VERSION, cb_row_count = 0, cb_columns = []\<rparr>
      else
        let all_payloads = concat (map snd items);
            compressed = (case zstd_compress_raw z all_payloads of Inr c \<Rightarrow> c | Inl _ \<Rightarrow> all_payloads);
            smaller = length compressed < length all_payloads in
        \<lparr>cb_version = COLUMNAR_VERSION, cb_row_count = of_nat (length items),
         cb_columns =
           [rle_encode (map (SourceKind_tag \<circ> fst) items) CK_SourceKind,
            delta_u32_encode (map (\<lambda>i. of_nat (length (snd i))) items) CK_PayloadLen,
            \<lparr>cc_kind = CK_PayloadData, cc_encoding = (if smaller then CE_Zstd else CE_Raw),
             cc_data = (if smaller then compressed else all_payloads)\<rparr>]\<rparr>)"

definition find_column :: "ColumnarBatch \<Rightarrow> ColumnKind \<Rightarrow> ColumnarColumn option" where
  "find_column b kind = find (\<lambda>c. cc_kind c = kind) (cb_columns b)"

definition column_or_default :: "('c \<Rightarrow> 'e + 'a list) \<Rightarrow> 'c option \<Rightarrow> 'e + 'a list" where
  "column_or_default f c = (case c of None \<Rightarrow> Ok [] | Some c \<Rightarrow> f c)"

definition row_kind :: "bytes \<Rightarrow> nat \<Rightarrow> SourceKind" where
  "row_kind source_kinds i =
     (if i < length source_kinds
      then (let k = source_kinds ! i in
            if k = 1 then Text else if k = 2 then Json else if k = 3 then Binary else if k = 4 then Image else Binary)
      else Binary)"

fun split_rows ::
  "bytes \<Rightarrow> u32 list \<Rightarrow> bytes \<Rightarrow> nat \<Rightarrow> nat \<Rightarrow> nat \<Rightarrow> (SourceKind \<times> bytes) list
     \<Rightarrow> CompressError + (SourceKind \<times> bytes) list"
where
  "split_rows kinds lengths payloads 0 i offset items = Ok items"
| "split_rows kinds lengths payloads (Suc n) i offset items =
     (let len = (if i < length lengths then unat (lengths ! i) else 0) in
      if offset + len > length payloads then Err ColumnarPayloadTruncated
      else split_rows kinds lengths payloads n (i + 1) (offset + len)
             (items @ [(row_kind kinds i, slice offset (offset + len) payloads)]))"

definition decode_batch :: "zstd_lib \<Rightarrow> ColumnarBatch \<Rightarrow> CompressError + (SourceKind \<times> bytes) list" where
  "decode_batch z b =
     (if cb_row_count b = 0 then Ok []
      else
        and_then (column_or_default rle_decode (find_column b CK_SourceKind)) (\<lambda>source_kinds.
        and_then (column_or_default delta_u32_decode (find_column b CK_PayloadLen)) (\<lambda>lengths.
        and_then (case find_column b CK_PayloadData of
            None \<Rightarrow> Ok []
          | Some col \<Rightarrow> (case cc_encoding col of
                CE_Zstd \<Rightarrow> zstd_decompress_raw z (cc_data col) MAX_DECOMPRESSED
              | _ \<Rightarrow> Ok (cc_data col))) (\<lambda>all_payloads.
          split_rows source_kinds lengths all_payloads (unat (cb_row_count b)) 0 0 []))))"

definition batch_to_bytes :: "ColumnarBatch bincode_enc \<Rightarrow> ColumnarBatch \<Rightarrow> bytes" where
  "batch_to_bytes enc b = (case enc b of Inr bs \<Rightarrow> bs | Inl _ \<Rightarrow> [])"

definition batch_from_bytes :: "ColumnarBatch bincode_dec \<Rightarrow> bytes \<Rightarrow> CompressError + ColumnarBatch" where
  "batch_from_bytes dec bs =
     and_then (map_err ColumnarDecode (dec bs)) (\<lambda>(b, _).
       if cb_version b \<noteq> COLUMNAR_VERSION then Err (ColumnarInvalidVersion (cb_version b)) else Ok b)"

section \<open>The accumulator\<close>

definition MIN_COLUMNAR_BATCH_SIZE :: nat where "MIN_COLUMNAR_BATCH_SIZE = 4"
definition MAX_COLUMNAR_BATCH_SIZE :: nat where "MAX_COLUMNAR_BATCH_SIZE = 128"
definition MAX_COLUMNAR_BATCH_BYTES :: nat where "MAX_COLUMNAR_BATCH_BYTES = 512 * 1024"

record ColumnarBatchAccumulator =
  ca_items :: "(SourceKind \<times> bytes) list"
  ca_total_bytes :: nat
  ca_max_items :: nat
  ca_max_bytes :: nat

definition accumulator_with_limits :: "nat \<Rightarrow> nat \<Rightarrow> ColumnarBatchAccumulator" where
  "accumulator_with_limits max_items max_bytes =
     \<lparr>ca_items = [], ca_total_bytes = 0, ca_max_items = max_items, ca_max_bytes = max_bytes\<rparr>"

definition accumulator_new :: ColumnarBatchAccumulator where
  "accumulator_new = accumulator_with_limits MAX_COLUMNAR_BATCH_SIZE MAX_COLUMNAR_BATCH_BYTES"

definition accumulator_should_flush :: "ColumnarBatchAccumulator \<Rightarrow> bool" where
  "accumulator_should_flush a \<longleftrightarrow> length (ca_items a) \<ge> ca_max_items a \<or> ca_total_bytes a \<ge> ca_max_bytes a"

definition accumulator_add ::
  "SourceKind \<Rightarrow> bytes \<Rightarrow> ColumnarBatchAccumulator \<Rightarrow> ColumnarBatchAccumulator \<times> bool" where
  "accumulator_add source_kind data a =
     (let a = a \<lparr>ca_items := ca_items a @ [(source_kind, data)], ca_total_bytes := ca_total_bytes a + length data\<rparr> in
      (a, accumulator_should_flush a))"

definition accumulator_has_enough :: "ColumnarBatchAccumulator \<Rightarrow> bool" where
  "accumulator_has_enough a \<longleftrightarrow> length (ca_items a) \<ge> MIN_COLUMNAR_BATCH_SIZE"

definition accumulator_clear :: "ColumnarBatchAccumulator \<Rightarrow> ColumnarBatchAccumulator" where
  "accumulator_clear a = a \<lparr>ca_items := [], ca_total_bytes := 0\<rparr>"

definition accumulator_flush ::
  "zstd_lib \<Rightarrow> ColumnarBatchAccumulator \<Rightarrow> ColumnarBatchAccumulator \<times> ColumnarBatch option" where
  "accumulator_flush z a =
     (if \<not> accumulator_has_enough a then (accumulator_clear a, None)
      else (accumulator_clear a, Some (encode_batch z (ca_items a))))"

definition accumulator_flush_forced ::
  "zstd_lib \<Rightarrow> ColumnarBatchAccumulator \<Rightarrow> ColumnarBatchAccumulator \<times> ColumnarBatch option" where
  "accumulator_flush_forced z a =
     (if ca_items a = [] then (a, None) else (accumulator_clear a, Some (encode_batch z (ca_items a))))"

definition accumulator_drain :: "ColumnarBatchAccumulator \<Rightarrow> ColumnarBatchAccumulator \<times> (SourceKind \<times> bytes) list" where
  "accumulator_drain a = (accumulator_clear a, ca_items a)"

section \<open>Length-prefixed payloads\<close>

definition estimate_savings :: "nat \<Rightarrow> nat \<Rightarrow> nat" where
  "estimate_savings payload_count individual_overhead =
     (if payload_count \<le> 1 then 0 else (payload_count - 1) * individual_overhead)"

definition payload_entry :: "bytes \<Rightarrow> bytes" where
  "payload_entry p = le32 (of_nat (length p)) @ p"

definition concatenate_payloads :: "bytes list \<Rightarrow> bytes" where
  "concatenate_payloads payloads = le16 (of_nat (length payloads)) @ concat (map payload_entry payloads)"

definition read_payload_entry :: "(CompressError, bytes) reader" where
  "read_payload_entry bs pos =
     (if pos + 4 > length bs then Err (CompressedPayloadTruncated (pos + 4) (length bs))
      else let len = unat (of_le32 (slice pos (pos + 4) bs)); pos = pos + 4 in
        if pos + len > length bs then Err (CompressedPayloadTruncated (pos + len) (length bs))
        else Ok (slice pos (pos + len) bs, pos + len))"

definition split_payloads :: "bytes \<Rightarrow> CompressError + bytes list" where
  "split_payloads batch =
     (if length batch < 2 then Err (CompressedPayloadTruncated 2 (length batch))
      else and_then (read_many read_payload_entry (unat (of_le16 (slice 0 2 batch))) batch 2) (\<lambda>(payloads, _). Ok payloads))"

section \<open>Run lengths\<close>

definition run_bytes :: "u8 \<times> u32 \<Rightarrow> bytes" where "run_bytes r = [fst r] @ le32 (snd r)"
definition run_data :: "u8 \<times> u32 \<Rightarrow> bytes" where "run_data r = replicate (unat (snd r)) (fst r)"

lemma rle_decode_runs:
  "spells data pos (concat (map run_bytes runs)) \<Longrightarrow> length data = pos + length (concat (map run_bytes runs)) \<Longrightarrow>
    rle_decode_loop data pos result = result @ concat (map run_data runs)"
proof (induction runs arbitrary: pos result)
  case Nil
  then show ?case by (subst rle_decode_loop.simps) simp
next
  case (Cons r runs)
  then have s: "spells data pos [fst r]" "spells data (pos + 1) (le32 (snd r))"
    "spells data (pos + 5) (concat (map run_bytes runs))" and len: "length data = pos + 5 + length (concat (map run_bytes runs))"
    by (simp_all add: run_bytes_def [of r] spells_Cons [of _ _ "fst r" "_ @ _"] numeral_eq_Suc)
  have "rle_decode_loop data pos result = rle_decode_loop data (pos + 5) (result @ run_data r)"
    using s(1,2) len by (subst rle_decode_loop.simps) (simp add: spells_u8 spells_le32 run_data_def add.commute [of pos])
  with Cons.IH [OF s(3) len] show ?case by simp
qed

definition runs_of :: "bytes \<times> u8 \<times> u32 \<Rightarrow> (u8 \<times> u32) list \<Rightarrow> bytes \<Rightarrow> bool" where
  "runs_of s runs data \<longleftrightarrow> (case s of (encoded, current, count) \<Rightarrow>
     encoded = concat (map run_bytes runs) \<and> data = concat (map run_data runs) @ replicate (unat count) current)"

lemma rle_step_runs:
  assumes "runs_of s runs data"
  shows "\<exists>runs'. runs_of (rle_step s byte) runs' (data @ [byte])"
proof -
  obtain encoded current count where s: "s = (encoded, current, count)" by (cases s) auto
  show ?thesis
  proof (cases "byte = current \<and> count < - 1")
    case True
    then have "1 + count \<noteq> 0" by (auto simp: add_eq_0_iff)
    then have "unat (count + 1) = Suc (unat count)" by (metis unatSuc add.commute)
    then have "runs_of (rle_step s byte) runs (data @ [byte])"
      using assms True by (simp add: runs_of_def s replicate_append_same)
    then show ?thesis ..
  next
    case False
    then have "runs_of (rle_step s byte) (runs @ [(current, count)]) (data @ [byte])"
      using assms by (auto simp: runs_of_def s run_bytes_def run_data_def)
    then show ?thesis ..
  qed
qed

lemma rle_fold_runs: "runs_of s runs data \<Longrightarrow> \<exists>runs'. runs_of (foldl rle_step s bs) runs' (data @ bs)"
proof (induction bs arbitrary: s runs data)
  case (Cons b bs)
  from rle_step_runs [OF Cons.prems, of b] obtain runs' where "runs_of (rle_step s b) runs' (data @ [b])" ..
  from Cons.IH [OF this] show ?case by simp
qed auto

lemma rle_roundtrip: "rle_decode (rle_encode data kind) = Ok data"
proof (cases data)
  case Nil
  then show ?thesis by (simp add: rle_decode_def rle_encode_def rle_decode_loop.simps)
next
  case (Cons b bs)
  have "runs_of ([], b, 1) [] [b]" by (simp add: runs_of_def)
  from rle_fold_runs [OF this, of bs] obtain runs where runs: "runs_of (foldl rle_step ([], b, 1) bs) runs data"
    using Cons by auto
  obtain encoded current count where s: "foldl rle_step ([], b, 1) bs = (encoded, current, count)"
    by (cases "foldl rle_step ([], b, 1) bs") auto
  have enc: "cc_data (rle_encode data kind) = concat (map run_bytes (runs @ [(current, count)]))"
    using runs by (simp add: rle_encode_def Cons s run_bytes_def) (simp add: s runs_of_def)
  with rle_decode_runs [of "concat (map run_bytes (runs @ [(current, count)]))" 0 "runs @ [(current, count)]" "[]"]
  have "rle_decode_loop (cc_data (rle_encode data kind)) 0 [] = concat (map run_data (runs @ [(current, count)]))"
    using enc spells_self [of "concat (map run_bytes (runs @ [(current, count)]))" "[]"] by simp
  then show ?thesis using runs s by (simp add: rle_decode_def runs_of_def run_data_def)
qed

section \<open>Variable-length integers\<close>

lemma take_bit_extend: "take_bit k w OR push_bit k (take_bit 7 (drop_bit k w)) = take_bit (k + 7) (w :: u32)"
  by (rule bit_word_eqI) (auto simp: bit_or_iff bit_take_bit_iff bit_push_bit_iff bit_drop_bit_eq)

lemma bit_0x80: "bit (0x80 :: int) n \<longleftrightarrow> n = 7"
  using bit_exp_iff [of 7 n, where 'a = int] by auto

lemma mask_0x7F: "(0x7F :: u8) = mask 7" "(0x7F :: u32) = mask 7"
  by (simp_all add: mask_eq_exp_minus_1)

lemmas varint_bits = bit_and_iff bit_or_iff bit_ucast_iff bit_mask_iff bit_take_bit_iff bit_0x80

lemma low_bits:
  "ucast (((ucast (v AND 0x7F) :: u8) OR 0x80) AND 0x7F) = take_bit 7 (v :: u32)"
  "ucast ((ucast (v AND 0x7F) :: u8) AND 0x7F) = take_bit 7 (v :: u32)"
  unfolding mask_0x7F by (rule bit_word_eqI; auto simp: varint_bits)+

lemma high_bit:
  "((ucast (v AND 0x7F) :: u8) OR 0x80) AND 0x80 \<noteq> 0" "(ucast ((v :: u32) AND 0x7F) :: u8) AND 0x80 = 0"
proof -
  have "bit (((ucast (v AND 0x7F) :: u8) OR 0x80) AND 0x80) 7" by (simp add: varint_bits)
  then show "((ucast (v AND 0x7F) :: u8) OR 0x80) AND 0x80 \<noteq> 0" by force
  show "(ucast (v AND 0x7F) :: u8) AND 0x80 = 0"
    unfolding mask_0x7F by (rule bit_word_eqI) (auto simp: varint_bits)
qed

lemma decode_encode_varint_loop:
  assumes "v = drop_bit k w" and "k < 35" and "spells data pos (encode_varint v)" and "acc = take_bit k w" and "7 dvd k"
  shows "decode_varint_loop data pos acc k consumed = Ok (w, consumed + length (encode_varint v))"
  using assms
proof (induction v arbitrary: k pos acc consumed rule: encode_varint.induct)
  case (1 v)
  let ?low = "ucast (v AND 0x7F) :: u8"
  have acc: "acc OR push_bit k (take_bit 7 v) = take_bit (k + 7) w"
    unfolding "1.prems"(1,4) by (rule take_bit_extend)
  have next_v: "drop_bit 7 v = drop_bit (k + 7) w" using "1.prems"(1) by (simp add: ac_simps)
  show ?case
  proof (cases "drop_bit 7 v = 0")
    case True
    then have enc: "encode_varint v = [?low]" by (subst encode_varint.simps) simp
    have "take_bit (k + 7) w = w"
      using True unfolding next_v by (metis bits_ident push_bit_of_0 add_0)
    moreover have "data ! pos = ?low" "pos < length data" using "1.prems"(3) unfolding enc by (simp_all add: spells_u8)
    ultimately show ?thesis using acc unfolding enc
      by (subst decode_varint_loop.simps) (simp add: low_bits high_bit Let_def)
  next
    case False
    then have enc: "encode_varint v = (?low OR 0x80) # encode_varint (drop_bit 7 v)" by (subst encode_varint.simps) simp
    have "k + 7 < 35"
    proof (rule ccontr)
      assume "\<not> k + 7 < 35"
      then have "drop_bit (k + 7) w = 0" by (intro bit_word_eqI) (simp add: bit_drop_bit_eq bit_imp_le_length)
      with False next_v show False by simp
    qed
    moreover have "spells data (pos + 1) (encode_varint (drop_bit 7 v))" and head: "spells data pos [?low OR 0x80]"
      using iffD1 [OF spells_Cons "1.prems"(3) [unfolded enc]] by simp_all
    ultimately have rest: "decode_varint_loop data (pos + 1) (take_bit (k + 7) w) (k + 7) (consumed + 1)
        = Ok (w, consumed + 1 + length (encode_varint (drop_bit 7 v)))"
      using "1.IH" [OF refl refl False next_v] "1.prems"(5) by simp
    have here: "data ! pos = ?low OR 0x80" "pos < length data" using head by (simp_all add: spells_u8)
    show ?thesis
      unfolding decode_varint_loop.simps [of data pos acc k consumed]
      using here rest \<open>k + 7 < 35\<close> by (simp add: low_bits high_bit acc enc)
  qed
qed

lemma decode_encode_varint: "spells data pos (encode_varint w) \<Longrightarrow> decode_varint data pos = Ok (w, length (encode_varint w))"
  unfolding decode_varint_def using decode_encode_varint_loop [of w 0 w data pos 0 0] by simp

lemma encode_varint_some: "encode_varint v \<noteq> []"
  by (subst encode_varint.simps) (simp add: Let_def)

lemma delta_tail_decode:
  "spells data pos (delta_tail p vs) \<Longrightarrow> length data = pos + length (delta_tail p vs) \<Longrightarrow>
    delta_u32_loop data pos p acc = Ok (acc @ vs)"
proof (induction vs arbitrary: pos p acc)
  case Nil
  then show ?case by (subst delta_u32_loop.simps) simp
next
  case (Cons v vs)
  then have s: "spells data pos (encode_varint (v - p))"
    "spells data (pos + length (encode_varint (v - p))) (delta_tail v vs)" by simp_all
  have "pos < length data" using Cons.prems(2) encode_varint_some [of "v - p"] by (cases "encode_varint (v - p)") simp_all
  then show ?case
    using Cons.IH [OF s(2), of "acc @ [v]"] Cons.prems(2) decode_encode_varint [OF s(1)]
    by (subst delta_u32_loop.simps) (simp add: add.assoc)
qed

lemma delta_u32_roundtrip: "delta_u32_decode (delta_u32_encode xs kind) = Ok xs"
proof (cases xs)
  case Nil
  then show ?thesis by (simp add: delta_u32_decode_def delta_u32_encode_def)
next
  case (Cons v vs)
  have "spells (le32 v @ delta_tail v vs) 0 (le32 v)" "spells (le32 v @ delta_tail v vs) 4 (delta_tail v vs)"
    by (simp_all add: spells_def)
  with delta_tail_decode [of "le32 v @ delta_tail v vs" 4 v vs "[v]"] show ?thesis
    unfolding Cons by (simp add: delta_u32_decode_def delta_u32_encode_def spells_le32)
qed

section \<open>Batches give back their items\<close>

lemma row_kind_tag: "i < length items \<Longrightarrow> row_kind (map (SourceKind_tag \<circ> fst) items) i = fst (items ! i)"
  by (cases "fst (items ! i)") (simp_all add: row_kind_def)

lemma split_rows_items:
  assumes "done @ todo = items" and "\<forall>i \<in> set items. length (snd i) < 2 ^ 32"
  shows "split_rows (map (SourceKind_tag \<circ> fst) items) (map (\<lambda>i. of_nat (length (snd i))) items) (concat (map snd items))
    (length todo) (length done) (length (concat (map snd done))) done = Ok items"
  using assms
proof (induction todo arbitrary: "done")
  case (Cons item todo)
  let ?at = "length done" and ?offset = "length (concat (map snd done))"
  have at: "?at < length items" "items ! ?at = item" using Cons.prems(1) by auto
  have len: "unat (of_nat (length (snd item)) :: u32) = length (snd item)"
    using Cons.prems by (intro unat_of_nat_u32) auto
  have all: "concat (map snd items) = concat (map snd done) @ snd item @ concat (map snd todo)"
    using Cons.prems(1) by auto
  then have cut: "slice ?offset (?offset + length (snd item)) (concat (map snd items)) = snd item"
    and inside: "?offset + length (snd item) \<le> length (concat (map snd items))" by (simp_all add: slice_def)
  show ?case
    using Cons.IH [of "done @ [item]"] Cons.prems at len cut inside row_kind_tag [OF at(1)] by (simp add: Let_def comp_def)
qed simp

lemma length_concat_member: "x \<in> set xs \<Longrightarrow> length x \<le> length (concat xs)"
  by (induction xs) auto

lemma decode_encode_batch:
  assumes z: "zstd_ok z" and rows: "length items < 2 ^ 32" and small: "length (concat (map snd items)) \<le> MAX_DECOMPRESSED"
  shows "decode_batch z (encode_batch z items) = Ok items"
proof (cases "items = []")
  case True
  then show ?thesis by (simp add: encode_batch_def decode_batch_def)
next
  case False
  let ?all = "concat (map snd items)"
  let ?b = "encode_batch z items"
  have count: "unat (cb_row_count ?b) = length items"
    using rows False by (simp add: encode_batch_def Let_def unat_of_nat_u32)
  then have nonempty: "cb_row_count ?b \<noteq> 0" using False by auto
  have lens: "\<forall>i \<in> set items. length (snd i) < 2 ^ 32"
    using length_concat_member [of _ "map snd items"] small by (fastforce simp: MAX_DECOMPRESSED_def)
  have kinds: "column_or_default rle_decode (find_column ?b CK_SourceKind) = Ok (map (SourceKind_tag \<circ> fst) items)"
    using False rle_roundtrip by (simp add: find_column_def encode_batch_def Let_def column_or_default_def rle_encode_def)
  have lengths: "column_or_default delta_u32_decode (find_column ?b CK_PayloadLen) = Ok (map (\<lambda>i. of_nat (length (snd i))) items)"
    using False delta_u32_roundtrip
    by (simp add: find_column_def encode_batch_def Let_def column_or_default_def rle_encode_def delta_u32_encode_def)
  define c where "c = (case zstd_compress_raw z ?all of Inr c \<Rightarrow> c | Inl _ \<Rightarrow> ?all)"
  have data: "find_column ?b CK_PayloadData =
      Some \<lparr>cc_kind = CK_PayloadData, cc_encoding = (if length c < length ?all then CE_Zstd else CE_Raw),
            cc_data = (if length c < length ?all then c else ?all)\<rparr>"
    using False by (simp add: find_column_def encode_batch_def Let_def rle_encode_def delta_u32_encode_def c_def)
  have "zstd_decompress_raw z c MAX_DECOMPRESSED = Ok ?all" if "length c < length ?all"
    using that raw_roundtrip [OF z _ small] by (auto simp: c_def split: sum.splits)
  with kinds lengths data count nonempty split_rows_items [of "[]" items items, OF _ lens] show ?thesis
    by (simp add: decode_batch_def)
qed

text \<open>C21: whatever was added to the accumulator since it was last empty, a flush returns as a batch from which the
  receiver reads back the same items in the same order, and leaves the accumulator empty.\<close>

theorem columnar_batch_delivers_items:
  assumes z: "zstd_ok z" and "length items < 2 ^ 32" and "length (concat (map snd items)) \<le> MAX_DECOMPRESSED"
    and filled: "a = foldl (\<lambda>a (k, bs). fst (accumulator_add k bs a)) (accumulator_with_limits m n) items"
    and flush: "accumulator_flush_forced z a = (a', r)"
  shows "ca_items a' = [] \<and> ca_total_bytes a' = 0
    \<and> (case r of None \<Rightarrow> items = [] | Some b \<Rightarrow> decode_batch z b = Ok items)"
proof -
  have "ca_items (foldl (\<lambda>a (k, bs). fst (accumulator_add k bs a)) a0 xs) = ca_items a0 @ xs
      \<and> ca_total_bytes (foldl (\<lambda>a (k, bs). fst (accumulator_add k bs a)) a0 xs)
          = ca_total_bytes a0 + length (concat (map snd xs))" for a0 xs
    by (induction xs arbitrary: a0) (auto simp: accumulator_add_def Let_def)
  then have "ca_items a = items" "ca_total_bytes a = length (concat (map snd items))"
    unfolding filled by (simp_all add: accumulator_with_limits_def)
  with flush decode_encode_batch [OF assms(1-3)] show ?thesis
    by (auto simp: accumulator_flush_forced_def accumulator_clear_def split: if_splits)
qed

lemma columnar_batch_delivers_items_witness:
  "\<exists>a' b. accumulator_flush_forced toy_zstd
      (fst (accumulator_add Json [7] (fst (accumulator_add Text [] (accumulator_with_limits 10 100))))) = (a', Some b)
    \<and> decode_batch toy_zstd b = Ok [(Text, []), (Json, [7])]"
proof -
  let ?items = "[(Text, []), (Json, [7])] :: (SourceKind \<times> bytes) list"
  let ?a = "fst (accumulator_add Json [7] (fst (accumulator_add Text [] (accumulator_with_limits 10 100))))"
  obtain a' r where flush: "accumulator_flush_forced toy_zstd ?a = (a', r)" by fastforce
  have filled: "?a = foldl (\<lambda>a (k, bs). fst (accumulator_add k bs a)) (accumulator_with_limits 10 100) ?items" by simp
  have size: "length ?items < 2 ^ 32" "length (concat (map snd ?items)) \<le> MAX_DECOMPRESSED"
    by (simp_all add: MAX_DECOMPRESSED_def)
  show ?thesis
    using columnar_batch_delivers_items [OF toy_zstd_ok size filled flush] flush by (cases r) auto
qed

lemma read_payload_entries:
  "\<forall>p \<in> set ps. length p < 2 ^ 32 \<Longrightarrow> spells bs c (concat (map payload_entry ps)) \<Longrightarrow>
    read_many read_payload_entry (length ps) bs c = Ok (ps, c + length (concat (map payload_entry ps)))"
proof (induction ps arbitrary: c)
  case (Cons p ps)
  then have head: "spells bs c (le32 (of_nat (length p)))" and p: "spells bs (c + 4) p"
    and rest: "spells bs (c + 4 + length p) (concat (map payload_entry ps))"
    by (simp_all add: payload_entry_def [of p] add.assoc)
  have len: "unat (of_nat (length p) :: u32) = length p" using Cons.prems(1) by (simp add: unat_of_nat_u32)
  have inside: "c + 4 + length p \<le> length bs"
    using head spells_length [OF p] by (cases "p = []") (simp_all add: spells_le32)
  have "read_payload_entry bs c = Ok (p, c + 4 + length p)"
    using head p len inside by (simp add: read_payload_entry_def spells_le32 spells_slice Let_def)
  with Cons.IH [OF _ rest] Cons.prems(1) show ?case by (simp add: payload_entry_def add.assoc)
qed simp

lemma split_concatenated_payloads:
  assumes "length ps < 2 ^ 16" and "\<forall>p \<in> set ps. length p < 2 ^ 32"
  shows "split_payloads (concatenate_payloads ps) = Ok ps"
proof -
  have body: "spells (concatenate_payloads ps) 2 (concat (map payload_entry ps))"
    by (simp add: concatenate_payloads_def spells_def)
  have "slice 0 2 (concatenate_payloads ps) = le16 (of_nat (length ps))"
    by (simp add: concatenate_payloads_def slice_def)
  then have "unat (of_le16 (slice 0 2 (concatenate_payloads ps))) = length ps"
    using assms(1) by (simp add: unat_of_nat_u16)
  moreover have "2 \<le> length (concatenate_payloads ps)" by (simp add: concatenate_payloads_def)
  ultimately show ?thesis
    using read_payload_entries [OF assms(2) body] by (simp add: split_payloads_def)
qed

end
