(* ===== verification/Pulzz_Compression.thy ===== *)
theory Pulzz_Compression
  imports Pulzz_Template Pulzz_Columnar
begin

text \<open>
  The compression pipeline: strategies, the dictionary manager and the template registry, the
  self-describing payload (\<open>shared_protocol/src/compress.rs\<close>, P4 and P5), and the two ends that use it:
  \<open>compress_exact_bytes\<close> of \<open>server/src/lib.rs\<close> and the decompression in \<open>apply_data_record\<close> of
  \<open>client/src/lib.rs\<close>.  The performance tracker that picks a strategy computes with floating-point ratios; the
  strategy is an argument here, so what is shown holds for every choice.
\<close>

section \<open>Strategies\<close>

datatype CompressionStrategy =
  CS_Passthrough | CS_ZstdDict u64 | CS_ZstdRaw | CS_Delta u64 | CS_Template u64 | CS_Columnar

definition select_strategy ::
  "SourceKind \<Rightarrow> bytes \<Rightarrow> bool \<Rightarrow> bool \<Rightarrow> DictionaryId option \<Rightarrow> u64 option \<Rightarrow> u64 option \<Rightarrow> CompressionStrategy"
where
  "select_strategy source_kind data is_update has_previous_version available_dict matching_template previous_item_id =
     (if length data < 64 then CS_Passthrough
      else
        case (if is_update \<and> has_previous_version then previous_item_id else None) of
          Some base_id \<Rightarrow> CS_Delta base_id
        | None \<Rightarrow>
        case (if source_kind = Json then matching_template else None) of
          Some template_id \<Rightarrow> CS_Template template_id
        | None \<Rightarrow>
        case available_dict of
          Some dict_id \<Rightarrow> CS_ZstdDict dict_id
        | None \<Rightarrow>
          if length data \<ge> 256 \<and> source_kind \<in> {Json, Text} then CS_ZstdRaw else CS_Passthrough)"

section \<open>Dictionaries by source kind\<close>

record DictionaryManager =
  dm_dictionaries :: "((SourceKind \<times> u64) \<times> ZstdDictionary) list"
  dm_samples :: "SourceKind \<rightharpoonup> bytes list"
  dm_sample_bytes :: "SourceKind \<rightharpoonup> nat"
  dm_next_dict_id :: u64
  dm_max_sample_bytes :: nat

definition dict_manager_new :: DictionaryManager where
  "dict_manager_new = \<lparr>dm_dictionaries = [], dm_samples = Map.empty, dm_sample_bytes = Map.empty,
     dm_next_dict_id = 1, dm_max_sample_bytes = 1048576\<rparr>"

fun evict_samples :: "nat \<Rightarrow> bytes list \<Rightarrow> nat \<Rightarrow> bytes list \<times> nat" where
  "evict_samples max_bytes (s # t # ss) total_bytes =
     (if total_bytes > max_bytes then evict_samples max_bytes (t # ss) (total_bytes - length s)
      else (s # t # ss, total_bytes))"
| "evict_samples max_bytes ss total_bytes = (ss, total_bytes)"

definition add_sample :: "SourceKind \<Rightarrow> bytes \<Rightarrow> DictionaryManager \<Rightarrow> DictionaryManager" where
  "add_sample source_kind data dm =
     (if source_kind \<notin> {Json, Text} then dm
      else if length data > MAX_INDIVIDUAL_SAMPLE_SIZE then dm
      else
        let samples = (case dm_samples dm source_kind of None \<Rightarrow> [] | Some ss \<Rightarrow> ss);
            total_bytes = (case dm_sample_bytes dm source_kind of None \<Rightarrow> 0 | Some n \<Rightarrow> n);
            (samples, total_bytes) =
              evict_samples (dm_max_sample_bytes dm) (samples @ [data]) (total_bytes + length data) in
        dm \<lparr>dm_samples := (dm_samples dm)(source_kind \<mapsto> samples),
            dm_sample_bytes := (dm_sample_bytes dm)(source_kind \<mapsto> total_bytes)\<rparr>)"

definition get_dictionary :: "SourceKind \<Rightarrow> DictionaryManager \<Rightarrow> ZstdDictionary option" where
  "get_dictionary source_kind dm =
     foldl (\<lambda>best (key, d).
         if fst key \<noteq> source_kind then best
         else case best of
             None \<Rightarrow> Some d
           | Some b \<Rightarrow> if zd_version b \<le> zd_version d then Some d else best)
       None (dm_dictionaries dm)"

definition maybe_train :: "zstd_lib \<Rightarrow> SourceKind \<Rightarrow> DictionaryManager \<Rightarrow> DictionaryManager \<times> u64 option" where
  "maybe_train z source_kind dm =
     (case dm_samples dm source_kind of
        None \<Rightarrow> (dm, None)
      | Some samples \<Rightarrow>
          let total_bytes = (case dm_sample_bytes dm source_kind of None \<Rightarrow> 0 | Some n \<Rightarrow> n) in
          if length samples < MIN_SAMPLES_FOR_TRAINING \<or> total_bytes < MIN_SAMPLE_BYTES_FOR_TRAINING then (dm, None)
          else if get_dictionary source_kind dm \<noteq> None then (dm, None)
          else
            case dict_train z (dm_next_dict_id dm) source_kind samples 1 of
              None \<Rightarrow> (dm, None)
            | Some d \<Rightarrow>
                (dm \<lparr>dm_next_dict_id := dm_next_dict_id dm + 1,
                     dm_dictionaries := dm_dictionaries dm @ [((source_kind, zd_dict_id d), d)]\<rparr>,
                 Some (zd_dict_id d)))"

definition compress_with_dict ::
  "zstd_lib \<Rightarrow> SourceKind \<Rightarrow> bytes \<Rightarrow> DictionaryManager \<Rightarrow> (CompressError + bytes) option" where
  "compress_with_dict z source_kind data dm = map_option (\<lambda>d. dict_compress z d data) (get_dictionary source_kind dm)"

definition decompress_with_dict ::
  "zstd_lib \<Rightarrow> SourceKind \<Rightarrow> u64 \<Rightarrow> bytes \<Rightarrow> DictionaryManager \<Rightarrow> CompressError + bytes" where
  "decompress_with_dict z source_kind dict_id data dm =
     and_then (ok_or (DictionaryNotFound source_kind dict_id) (map_of (dm_dictionaries dm) (source_kind, dict_id)))
       (\<lambda>d. dict_decompress z d data)"

section \<open>Templates by identifier\<close>

record TemplateRegistry =
  tr_templates :: "u64 \<rightharpoonup> StructuralTemplate"
  tr_hash_index :: "u64 \<rightharpoonup> u64 list"
  tr_next_template_id :: u64

definition template_registry_new :: TemplateRegistry where
  "template_registry_new = \<lparr>tr_templates = Map.empty, tr_hash_index = Map.empty, tr_next_template_id = 1\<rparr>"

definition ids_for_hash :: "TemplateRegistry \<Rightarrow> u64 \<Rightarrow> u64 list" where
  "ids_for_hash tr h = (case tr_hash_index tr h of None \<Rightarrow> [] | Some ids \<Rightarrow> ids)"

definition try_register :: "SourceKind \<Rightarrow> bytes \<Rightarrow> TemplateRegistry \<Rightarrow> TemplateRegistry \<times> u64 option" where
  "try_register source_kind data tr =
     (if source_kind \<noteq> Json then (tr, None)
      else case template_from_json data 0 of
          None \<Rightarrow> (tr, None)
        | Some t \<Rightarrow>
            (case find (\<lambda>i. case tr_templates tr i of Some existing \<Rightarrow> te_keys existing = te_keys t | None \<Rightarrow> False)
                (ids_for_hash tr (te_keys_hash t)) of
               Some i \<Rightarrow>
                 (tr \<lparr>tr_templates := (tr_templates tr)(i := map_option
                    (\<lambda>existing. existing \<lparr>te_match_count := te_match_count existing + 1\<rparr>) (tr_templates tr i))\<rparr>, Some i)
             | None \<Rightarrow>
                 let i = tr_next_template_id tr in
                 (tr \<lparr>tr_next_template_id := tr_next_template_id tr + 1,
                      tr_hash_index := (tr_hash_index tr)(te_keys_hash t \<mapsto> ids_for_hash tr (te_keys_hash t) @ [i]),
                      tr_templates := (tr_templates tr)(i \<mapsto> t \<lparr>te_template_id := i\<rparr>)\<rparr>, Some i)))"

fun first_match :: "TemplateRegistry \<Rightarrow> bytes \<Rightarrow> u64 list \<Rightarrow> (u64 \<times> bytes list) option" where
  "first_match tr data [] = None"
| "first_match tr data (i # ids) =
     (case Option.bind (tr_templates tr i) (\<lambda>t. extract_values t data) of
        Some values \<Rightarrow> Some (i, values)
      | None \<Rightarrow> first_match tr data ids)"

definition find_match :: "SourceKind \<Rightarrow> bytes \<Rightarrow> TemplateRegistry \<Rightarrow> (u64 \<times> bytes list) option" where
  "find_match source_kind data tr =
     (if source_kind \<noteq> Json then None
      else Option.bind (template_from_json data 0) (\<lambda>t. first_match tr data (ids_for_hash tr (te_keys_hash t))))"

section \<open>Self-describing payloads\<close>

definition COMPRESSION_MAGIC :: u8 where "COMPRESSION_MAGIC = 0xC0"

datatype CompressionTag = CT_Passthrough | CT_ZstdDict | CT_ZstdRaw | CT_Delta | CT_Template | CT_Columnar

definition CompressionTag_from_byte :: "u8 \<Rightarrow> CompressionTag option" where
  "CompressionTag_from_byte byte =
     (if byte = 0 then Some CT_Passthrough else if byte = 1 then Some CT_ZstdDict
      else if byte = 2 then Some CT_ZstdRaw else if byte = 3 then Some CT_Delta
      else if byte = 4 then Some CT_Template else if byte = 5 then Some CT_Columnar else None)"

fun CompressionTag_to_byte :: "CompressionTag \<Rightarrow> u8" where
  "CompressionTag_to_byte CT_Passthrough = 0"
| "CompressionTag_to_byte CT_ZstdDict = 1"
| "CompressionTag_to_byte CT_ZstdRaw = 2"
| "CompressionTag_to_byte CT_Delta = 3"
| "CompressionTag_to_byte CT_Template = 4"
| "CompressionTag_to_byte CT_Columnar = 5"

definition encode_compressed_payload :: "CompressionStrategy \<Rightarrow> bytes \<Rightarrow> bytes" where
  "encode_compressed_payload strategy compressed_data =
     COMPRESSION_MAGIC #
     (case strategy of
        CS_Passthrough \<Rightarrow> CompressionTag_to_byte CT_Passthrough # compressed_data
      | CS_ZstdDict dict_id \<Rightarrow> CompressionTag_to_byte CT_ZstdDict # le64 dict_id @ compressed_data
      | CS_ZstdRaw \<Rightarrow> CompressionTag_to_byte CT_ZstdRaw # compressed_data
      | CS_Delta base_item_id \<Rightarrow> CompressionTag_to_byte CT_Delta # le64 base_item_id @ compressed_data
      | CS_Template template_id \<Rightarrow> CompressionTag_to_byte CT_Template # le64 template_id @ compressed_data
      | CS_Columnar \<Rightarrow> CompressionTag_to_byte CT_Columnar # compressed_data)"

definition starts_with_compression_tag :: "bytes \<Rightarrow> bool" where
  "starts_with_compression_tag data \<longleftrightarrow>
     (if length data < 2 then False else data ! 0 = COMPRESSION_MAGIC \<and> CompressionTag_from_byte (data ! 1) \<noteq> None)"

text \<open>The formats of a delta are tried in turn; the first one that parses is applied, whatever comes of it.\<close>

definition decode_delta_data :: "zstd_lib \<Rightarrow> bytes \<Rightarrow> bytes \<Rightarrow> CompressError + bytes" where
  "decode_delta_data z base delta_data =
     (case delta_decode delta_data of
        Inr d \<Rightarrow> delta_apply d base
      | Inl _ \<Rightarrow>
      case delta_decompress_from_zstd z delta_data of
        Inr d \<Rightarrow> delta_apply d base
      | Inl _ \<Rightarrow>
      case xor_decode delta_data of
        Inr d \<Rightarrow> xor_apply d base
      | Inl _ \<Rightarrow>
      case zstd_decompress_raw z delta_data MAX_DECOMPRESSED of
        Inr delta_bytes \<Rightarrow>
          (case xor_decode delta_bytes of
             Inr d \<Rightarrow> xor_apply d base
           | Inl _ \<Rightarrow>
             (case delta_decode delta_bytes of
                Inr d \<Rightarrow> delta_apply d base
              | Inl _ \<Rightarrow> Err (DeltaInvalidTag 0xFF)))
      | Inl _ \<Rightarrow> Err (DeltaInvalidTag 0xFF))"

definition decode_template_data :: "zstd_lib \<Rightarrow> StructuralTemplate \<Rightarrow> bytes \<Rightarrow> CompressError + bytes" where
  "decode_template_data z t slot_data =
     (case and_then (decode_slot_values_compressed z slot_data) (reconstruct t) of
        Inr result \<Rightarrow> Ok result
      | Inl _ \<Rightarrow> and_then (decode_slot_values slot_data) (reconstruct t))"

definition decode_compressed_payload ::
  "zstd_lib \<Rightarrow> ColumnarBatch bincode_dec \<Rightarrow> bytes \<Rightarrow> DictionaryManager \<Rightarrow> TemplateRegistry \<Rightarrow> (u64 \<rightharpoonup> bytes)
     \<Rightarrow> SourceKind \<Rightarrow> CompressError + bytes"
where
  "decode_compressed_payload z dec payload dm tr previous_versions source_kind =
     (if length payload < 2 then Err (CompressedPayloadTruncated 2 (length payload))
      else if payload ! 0 \<noteq> COMPRESSION_MAGIC then Err (InvalidCompressionTag (payload ! 0))
      else
        and_then (ok_or (InvalidCompressionTag (payload ! 1)) (CompressionTag_from_byte (payload ! 1))) (\<lambda>tag.
        let data = drop 2 payload;
            with_id = (\<lambda>f. if length data < 8 then Err (CompressedPayloadTruncated (2 + 8) (length payload))
                           else f (of_le64 (slice 0 8 data)) (drop 8 data)) in
        case tag of
          CT_Passthrough \<Rightarrow> Ok data
        | CT_ZstdDict \<Rightarrow> with_id (\<lambda>dict_id rest. decompress_with_dict z source_kind dict_id rest dm)
        | CT_ZstdRaw \<Rightarrow> zstd_decompress_raw z data MAX_DECOMPRESSED
        | CT_Delta \<Rightarrow> with_id (\<lambda>base_item_id delta_data.
            and_then (ok_or (DeltaBaseNotFound base_item_id) (previous_versions base_item_id)) (\<lambda>base.
              decode_delta_data z base delta_data))
        | CT_Template \<Rightarrow> with_id (\<lambda>template_id slot_data.
            and_then (ok_or (TemplateNotFound template_id) (tr_templates tr template_id)) (\<lambda>t.
              decode_template_data z t slot_data))
        | CT_Columnar \<Rightarrow>
            let batch_bytes = (case zstd_decompress_raw z data MAX_DECOMPRESSED of Inr bs \<Rightarrow> bs | Inl _ \<Rightarrow> data) in
            and_then (batch_from_bytes dec batch_bytes) (\<lambda>_. Ok batch_bytes)))"

section \<open>The server's end\<close>

record CompressState =
  cx_dict_manager :: DictionaryManager
  cx_template_registry :: TemplateRegistry
  cx_previous_versions :: "u64 \<rightharpoonup> bytes"
  cx_accumulator :: ColumnarBatchAccumulator

definition raw_or_plain :: "zstd_lib \<Rightarrow> bytes \<Rightarrow> CompressionStrategy \<times> bytes" where
  "raw_or_plain z exact_bytes =
     (case zstd_compress_raw z exact_bytes of
        Inr compressed \<Rightarrow>
          if length compressed < length exact_bytes then (CS_ZstdRaw, compressed) else (CS_Passthrough, exact_bytes)
      | Inl _ \<Rightarrow> (CS_Passthrough, exact_bytes))"

definition xor_choice :: "zstd_lib \<Rightarrow> bytes \<Rightarrow> bytes \<Rightarrow> bytes option" where
  "xor_choice z base exact_bytes =
     (if length base \<noteq> length exact_bytes then None
      else case xor_compute base exact_bytes of
          Inl _ \<Rightarrow> None
        | Inr d \<Rightarrow>
            if \<not> xor_is_compact_vs d (length exact_bytes) then None
            else let xor_bytes = xor_encode d;
                     plain = (if length xor_bytes < length exact_bytes then Some xor_bytes else None) in
              case zstd_compress_raw z xor_bytes of
                Inr c \<Rightarrow> if length c < length xor_bytes \<and> length c < length exact_bytes then Some c else plain
              | Inl _ \<Rightarrow> plain)"

definition binary_choice :: "zstd_lib \<Rightarrow> bytes \<Rightarrow> bytes \<Rightarrow> bytes option" where
  "binary_choice z base exact_bytes =
     (let d = delta_compute base exact_bytes; delta_bytes = delta_encode d;
          plain = (if length delta_bytes < length exact_bytes then Some delta_bytes else None) in
      case delta_compress_with_zstd z d of
        Inr c \<Rightarrow> if length c < length delta_bytes \<and> length c < length exact_bytes then Some c else plain
      | Inl _ \<Rightarrow> plain)"

definition delta_choice :: "zstd_lib \<Rightarrow> bytes \<Rightarrow> bytes \<Rightarrow> bytes option" where
  "delta_choice z base exact_bytes =
     (case xor_choice z base exact_bytes of Some c \<Rightarrow> Some c | None \<Rightarrow> binary_choice z base exact_bytes)"

definition template_choice :: "zstd_lib \<Rightarrow> TemplateRegistry \<Rightarrow> u64 \<Rightarrow> bytes \<Rightarrow> bytes option" where
  "template_choice z tr template_id exact_bytes =
     Option.bind (tr_templates tr template_id) (\<lambda>t.
     Option.bind (extract_values t exact_bytes) (\<lambda>values.
       let encoded = encode_slot_values_compressed z values in
       if length encoded < length exact_bytes then Some encoded else None))"

definition columnar_choice ::
  "zstd_lib \<Rightarrow> ColumnarBatch bincode_enc \<Rightarrow> SourceKind \<Rightarrow> bytes \<Rightarrow> ColumnarBatchAccumulator
     \<Rightarrow> ColumnarBatchAccumulator \<times> CompressionStrategy \<times> bytes"
where
  "columnar_choice z enc source_kind exact_bytes a =
     (case accumulator_add source_kind exact_bytes a of
        (a, should_flush) \<Rightarrow>
          if should_flush \<or> accumulator_has_enough a then
            (case accumulator_flush z a of
               (a, Some batch) \<Rightarrow>
                 let batch_bytes = batch_to_bytes enc batch in
                 (a, CS_Columnar,
                  case zstd_compress_raw z batch_bytes of
                    Inr c \<Rightarrow> if length c < length batch_bytes then c else batch_bytes
                  | Inl _ \<Rightarrow> batch_bytes)
             | (a, None) \<Rightarrow> (a, raw_or_plain z exact_bytes))
          else (a, raw_or_plain z exact_bytes))"

definition apply_strategy ::
  "zstd_lib \<Rightarrow> ColumnarBatch bincode_enc \<Rightarrow> CompressionStrategy \<Rightarrow> SourceKind \<Rightarrow> ItemId \<Rightarrow> bytes \<Rightarrow> CompressState
     \<Rightarrow> CompressState \<times> CompressionStrategy \<times> bytes"
where
  "apply_strategy z enc strategy source_kind item_id exact_bytes st =
     (case strategy of
        CS_Passthrough \<Rightarrow> (st, CS_Passthrough, exact_bytes)
      | CS_ZstdDict _ \<Rightarrow>
          (st, case compress_with_dict z source_kind exact_bytes (cx_dict_manager st) of
                 Some (Inr compressed) \<Rightarrow>
                   if length compressed < length exact_bytes then (strategy, compressed) else raw_or_plain z exact_bytes
               | _ \<Rightarrow> (CS_Passthrough, exact_bytes))
      | CS_ZstdRaw \<Rightarrow> (st, raw_or_plain z exact_bytes)
      | CS_Delta base_item_id \<Rightarrow>
          (st, case (if base_item_id = item_id then cx_previous_versions st item_id else None) of
                 Some base \<Rightarrow>
                   (case delta_choice z base exact_bytes of
                      Some c \<Rightarrow> (strategy, c)
                    | None \<Rightarrow> raw_or_plain z exact_bytes)
               | None \<Rightarrow> raw_or_plain z exact_bytes)
      | CS_Template template_id \<Rightarrow>
          (st, case template_choice z (cx_template_registry st) template_id exact_bytes of
                 Some encoded \<Rightarrow> (strategy, encoded)
               | None \<Rightarrow> raw_or_plain z exact_bytes)
      | CS_Columnar \<Rightarrow>
          (case columnar_choice z enc source_kind exact_bytes (cx_accumulator st) of
             (a, choice) \<Rightarrow> (st \<lparr>cx_accumulator := a\<rparr>, choice)))"

text \<open>Before a strategy is chosen, the sample is added, a template registered and a dictionary trained.\<close>

definition prepare_compression :: "zstd_lib \<Rightarrow> SourceKind \<Rightarrow> bytes \<Rightarrow> CompressState \<Rightarrow> CompressState" where
  "prepare_compression z source_kind exact_bytes st =
     st \<lparr>cx_dict_manager := fst (maybe_train z source_kind (add_sample source_kind exact_bytes (cx_dict_manager st))),
         cx_template_registry :=
           (if source_kind = Json then fst (try_register source_kind exact_bytes (cx_template_registry st))
            else cx_template_registry st)\<rparr>"

definition compress_exact_bytes ::
  "zstd_lib \<Rightarrow> ColumnarBatch bincode_enc \<Rightarrow> (CompressState \<Rightarrow> CompressionStrategy) \<Rightarrow> SourceKind \<Rightarrow> ItemId \<Rightarrow> bytes
     \<Rightarrow> CompressState \<Rightarrow> CompressState \<times> bytes"
where
  "compress_exact_bytes z enc pick source_kind item_id exact_bytes st =
     (let st = prepare_compression z source_kind exact_bytes st in
      case apply_strategy z enc (pick st) source_kind item_id exact_bytes st of
        (st, strategy, compressed) \<Rightarrow>
          (st \<lparr>cx_previous_versions := (cx_previous_versions st)(item_id \<mapsto> exact_bytes)\<rparr>,
           encode_compressed_payload strategy compressed))"

section \<open>The client's end\<close>

text \<open>A payload that cannot be decoded is kept without its two prefix bytes.\<close>

definition client_exact_bytes ::
  "zstd_lib \<Rightarrow> ColumnarBatch bincode_dec \<Rightarrow> bytes \<Rightarrow> CompressState \<Rightarrow> SourceKind \<Rightarrow> bytes"
where
  "client_exact_bytes z dec payload st source_kind =
     (if starts_with_compression_tag payload then
        (case decode_compressed_payload z dec payload (cx_dict_manager st) (cx_template_registry st)
            (cx_previous_versions st) source_kind of
           Inr d \<Rightarrow> d
         | Inl _ \<Rightarrow> if length payload > 2 then drop 2 payload else payload)
      else payload)"

definition client_receive ::
  "zstd_lib \<Rightarrow> ColumnarBatch bincode_dec \<Rightarrow> SourceKind \<Rightarrow> ItemId \<Rightarrow> bytes \<Rightarrow> CompressState \<Rightarrow> CompressState \<times> bytes"
where
  "client_receive z dec source_kind item_id payload st =
     (let exact_bytes = client_exact_bytes z dec payload st source_kind;
          st = (if starts_with_compression_tag payload then prepare_compression z source_kind exact_bytes st else st) in
      (st \<lparr>cx_previous_versions := (cx_previous_versions st)(item_id \<mapsto> exact_bytes)\<rparr>, exact_bytes))"

section \<open>What a decoder can return\<close>

text \<open>
  The frames of zstd (RFC 8878): encoders write the frame magic, and decoders accept the empty input and
  frames whose fourth byte belongs to a frame magic or to that of a skippable frame.
\<close>

definition ZSTD_MAGIC :: bytes where "ZSTD_MAGIC = [0x28, 0xB5, 0x2F, 0xFD]"

definition zstd_framed :: "zstd_lib \<Rightarrow> bool" where
  "zstd_framed z \<longleftrightarrow>
     (\<forall>level data c. zstd_encode z level data = Ok c \<longrightarrow> take 4 c = ZSTD_MAGIC) \<and>
     (\<forall>c d. zstd_decode z c = Ok d \<longrightarrow> c = [] \<or> c ! 3 \<in> {0xFD, 0x18})"

lemma zstd_framed_compress:
  assumes "zstd_framed z" and "zstd_compress_raw z data = Ok c"
  obtains r where "c = ZSTD_MAGIC @ r"
proof -
  from assms have "take 4 c = ZSTD_MAGIC" by (auto simp: zstd_framed_def zstd_compress_raw_def)
  then show ?thesis using that [of "drop 4 c"] by (metis append_take_drop_id)
qed

text \<open>A length below \<open>2 ^ 24\<close> has a zero in its highest byte.\<close>

lemma le32_top_byte: "unat v < 2 ^ 24 \<Longrightarrow> le32 v ! 3 = 0"
proof -
  assume "unat v < 2 ^ 24"
  then have "unat (drop_bit 24 v) = 0" by (simp add: drop_bit_eq_div unat_div)
  then have "drop_bit 24 v = 0" by (simp add: unat_eq_0)
  then show ?thesis by (simp add: le32_def nth_le_bytes)
qed

lemma le32_large: "le32 v ! 3 \<noteq> 0 \<Longrightarrow> 2 ^ 24 \<le> unat v"
  using le32_top_byte [of v] by (cases "unat v < 2 ^ 24") auto

lemma delta_decode_Ok:
  "delta_decode bs = Ok d \<Longrightarrow> 9 \<le> length bs \<and> bs ! 0 = 1 \<and> bd_original_len d = of_le32 (slice 1 5 bs)"
  by (auto simp: delta_decode_def DELTA_VERSION_def Let_def split: if_splits)

lemma delta_decode_frame: "\<exists>e. delta_decode (ZSTD_MAGIC @ r) = Err e"
  by (cases "delta_decode (ZSTD_MAGIC @ r)") (auto dest!: delta_decode_Ok simp: ZSTD_MAGIC_def)

lemma xor_decode_Ok: "xor_decode bs = Ok d \<Longrightarrow> xd_original_len d = of_le32 (slice 0 4 bs)"
  by (auto simp: xor_decode_def Let_def split: if_splits)

lemma xor_apply_frame:
  assumes "xor_decode (ZSTD_MAGIC @ r) = Ok d" and "length base < 2 ^ 24"
  shows "\<exists>n m. xor_apply d base = Err (DeltaBaseLengthMismatch n m)"
proof -
  have "xd_original_len d = of_le32 ZSTD_MAGIC" using xor_decode_Ok [OF assms(1)] by (simp add: slice_def ZSTD_MAGIC_def)
  moreover have "2 ^ 24 \<le> unat (of_le32 ZSTD_MAGIC)"
    by (rule le32_large) (simp add: le_of_le ZSTD_MAGIC_def)
  ultimately show ?thesis using assms(2) by (simp add: xor_apply_def)
qed

text \<open>Read as a binary delta, an exclusive-or delta names a base of another length.\<close>

lemma delta_decode_xor:
  assumes "delta_decode (xor_encode d) = Ok b" and "xd_target_len d = xd_original_len d"
    and "length base < 2 ^ 24"
  shows "\<exists>n m. delta_apply b base = Err (DeltaBaseLengthMismatch n m)"
proof -
  obtain p q r s where v: "le32 (xd_original_len d) = [p, q, r, s]"
    using length_le(2) [of "xd_original_len d"] by (auto simp: numeral_eq_Suc length_Suc_conv simp del: length_le)
  have "p = 1" and "bd_original_len b = of_le32 [q, r, s, p]"
    using delta_decode_Ok [OF assms(1)] assms(2) v by (simp_all add: xor_encode_def slice_def)
  then have "2 ^ 24 \<le> unat (bd_original_len b)"
    by (intro le32_large) (simp add: le_of_le)
  then show ?thesis using assms(3) by (simp add: delta_apply_def)
qed

text \<open>What a client makes of a delta: the item, or a refusal because the base has another length.\<close>

definition exact_or_refused :: "bytes \<Rightarrow> CompressError + bytes \<Rightarrow> bool" where
  "exact_or_refused exact_bytes r \<longleftrightarrow> r = Ok exact_bytes \<or> (\<exists>n m. r = Err (DeltaBaseLengthMismatch n m))"

lemma exact_or_refused_intros [simp, intro]:
  "exact_or_refused x (Ok x)" "r = Err (DeltaBaseLengthMismatch n m) \<Longrightarrow> exact_or_refused x r"
  by (auto simp: exact_or_refused_def)

lemma xor_compute_facts:
  assumes "xor_compute base target = Ok d"
  shows "length base = length target" "xd_target_len d = xd_original_len d"
    "length (xor_encode d) = 10 + 5 * length (xd_patches d)"
    "xd_original_len d = of_nat (length target)"
proof -
  show "length base = length target" "xd_target_len d = xd_original_len d" "xd_original_len d = of_nat (length target)"
    using assms by (auto simp: xor_compute_def split: if_splits)
  have "length (concat (map xor_patch_bytes ps)) = 5 * length ps" for ps
    by (induction ps) (simp_all add: xor_patch_bytes_def)
  then show "length (xor_encode d) = 10 + 5 * length (xd_patches d)" by (simp add: xor_encode_def)
qed

lemma decode_xor_zstd:
  assumes "zstd_ok z" and "zstd_framed z" and "xor_compute base exact = Ok d" and "length (xd_patches d) < 2 ^ 16"
    and "length exact < 2 ^ 24" and "zstd_compress_raw z (xor_encode d) = Ok c"
  shows "exact_or_refused exact (decode_delta_data z base c)"
proof -
  note facts = xor_compute_facts [OF assms(3)]
  have small: "length base < 2 ^ 24" using assms(5) facts(1) by simp
  obtain r where c: "c = ZSTD_MAGIC @ r" using assms(2,6) by (rule zstd_framed_compress)
  obtain e where first: "delta_decode c = Err e" using delta_decode_frame c by metis
  have raw: "zstd_decompress_raw z c MAX_DECOMPRESSED = Ok (xor_encode d)"
    using assms(4) by (intro raw_roundtrip [OF assms(1,6)]) (simp add: facts(3) MAX_DECOMPRESSED_def)
  show ?thesis
  proof (cases "delta_decode (xor_encode d)")
    case (Inr b)
    from delta_decode_xor [OF this facts(2) small] first raw Inr show ?thesis
      by (auto simp: decode_delta_data_def delta_decompress_from_zstd_def)
  next
    case other: (Inl e')
    show ?thesis
    proof (cases "xor_decode c")
      case (Inr d')
      from xor_apply_frame [OF this [unfolded c] small] first raw other Inr show ?thesis
        by (auto simp: decode_delta_data_def delta_decompress_from_zstd_def)
    next
      case (Inl e'')
      have "xor_apply d base = Ok exact" using xor_compute_apply [OF assms(3)] assms(5) by simp
      then show ?thesis using first raw other Inl xor_decode_encode [OF assms(4)]
        by (simp add: decode_delta_data_def delta_decompress_from_zstd_def)
    qed
  qed
qed

lemma decode_xor_plain:
  assumes "zstd_framed z" and "xor_compute base exact = Ok d" and "length (xd_patches d) < 2 ^ 16"
    and "length exact < 2 ^ 24"
  shows "exact_or_refused exact (decode_delta_data z base (xor_encode d))"
proof -
  note facts = xor_compute_facts [OF assms(2)]
  have small: "length base < 2 ^ 24" using assms(4) facts(1) by simp
  show ?thesis
  proof (cases "delta_decode (xor_encode d)")
    case (Inr b)
    from delta_decode_xor [OF this facts(2) small] Inr show ?thesis by (auto simp: decode_delta_data_def)
  next
    case (Inl e)
    have "le32 (xd_original_len d) ! 3 = 0"
      using assms(4) by (intro le32_top_byte) (simp add: facts(4) unat_of_nat_u32)
    then have "xor_encode d ! 3 = 0" by (simp add: xor_encode_def nth_append)
    moreover have "xor_encode d \<noteq> []" using facts(3) by auto
    ultimately have "\<nexists>x. zstd_decode z (xor_encode d) = Ok x" using assms(1) by (fastforce simp: zstd_framed_def)
    then obtain e' where "zstd_decode z (xor_encode d) = Err e'" by (cases "zstd_decode z (xor_encode d)") auto
    moreover have "xor_apply d base = Ok exact" using xor_compute_apply [OF assms(2)] assms(4) by simp
    ultimately show ?thesis using Inl xor_decode_encode [OF assms(3)]
      by (simp add: decode_delta_data_def delta_decompress_from_zstd_def zstd_decompress_raw_def)
  qed
qed

lemma decode_binary_plain:
  assumes "length base < 2 ^ 32" and "length exact < 2 ^ 32"
  shows "exact_or_refused exact (decode_delta_data z base (delta_encode (delta_compute base exact)))"
  using delta_decode_compute [OF assms(1), of exact] delta_apply_compute [OF assms] by (simp add: decode_delta_data_def)

lemma decode_binary_zstd:
  assumes "zstd_ok z" and "zstd_framed z" and "length base < 2 ^ 32" and "10 + 8 * length exact \<le> MAX_DECOMPRESSED"
    and "delta_compress_with_zstd z (delta_compute base exact) = Ok c"
  shows "exact_or_refused exact (decode_delta_data z base c)"
proof -
  have "length (delta_encode (delta_compute base exact)) \<le> MAX_DECOMPRESSED"
    using delta_compute_size [OF assms(3), of exact] assms(4) by simp
  from delta_zstd_roundtrip [OF assms(1,5) this delta_decode_compute [OF assms(3)]]
  have "delta_decompress_from_zstd z c = Ok (delta_compute base exact)" .
  moreover obtain r where "c = ZSTD_MAGIC @ r"
    using assms(2,5) unfolding delta_compress_with_zstd_def by (rule zstd_framed_compress)
  then obtain e where "delta_decode c = Err e" using delta_decode_frame by metis
  moreover have "delta_apply (delta_compute base exact) base = Ok exact"
    using assms(3,4) by (intro delta_apply_compute) (simp_all add: MAX_DECOMPRESSED_def)
  ultimately show ?thesis by (simp add: decode_delta_data_def)
qed

text \<open>The bound keeps the number of patches of a compact exclusive-or delta within its 16-bit count.\<close>

definition XOR_ITEM_BOUND :: nat where "XOR_ITEM_BOUND = 10 + 5 * 2 ^ 16"

lemma decode_delta_choice:
  assumes "zstd_ok z" and "zstd_framed z" and "length base < 2 ^ 32" and "length exact \<le> XOR_ITEM_BOUND"
    and "delta_choice z base exact = Some c"
  shows "exact_or_refused exact (decode_delta_data z base c)"
proof (cases "xor_choice z base exact")
  case (Some x)
  then obtain d where d: "xor_compute base exact = Ok d" "xor_is_compact_vs d (length exact)"
    and c: "zstd_compress_raw z (xor_encode d) = Ok c \<or> c = xor_encode d"
    using assms(5) by (auto simp: delta_choice_def xor_choice_def Let_def split: if_splits sum.splits)
  from d(2) assms(4) have "length (xd_patches d) < 2 ^ 16" "length exact < 2 ^ 24"
    using xor_compute_facts(3) [OF d(1)] by (simp_all add: xor_is_compact_vs_def XOR_ITEM_BOUND_def)
  with c d(1) assms(1,2) show ?thesis using decode_xor_zstd decode_xor_plain by blast
next
  case None
  then have c: "delta_compress_with_zstd z (delta_compute base exact) = Ok c \<or> c = delta_encode (delta_compute base exact)"
    using assms(5) by (auto simp: delta_choice_def binary_choice_def Let_def split: if_splits sum.splits)
  have "length exact < 2 ^ 32" "10 + 8 * length exact \<le> MAX_DECOMPRESSED"
    using assms(4) by (simp_all add: XOR_ITEM_BOUND_def MAX_DECOMPRESSED_def)
  with c assms show ?thesis using decode_binary_zstd decode_binary_plain by blast
qed

section \<open>What a client makes of a payload\<close>

lemma decode_payload_plain [simp]:
  "decode_compressed_payload z dec (encode_compressed_payload CS_Passthrough x) dm tr pv k = Ok x"
  "decode_compressed_payload z dec (encode_compressed_payload CS_ZstdRaw x) dm tr pv k
     = zstd_decompress_raw z x MAX_DECOMPRESSED"
  by (simp_all add: decode_compressed_payload_def encode_compressed_payload_def COMPRESSION_MAGIC_def
      CompressionTag_from_byte_def)

lemma decode_payload_with_id [simp]:
  "decode_compressed_payload z dec (encode_compressed_payload (CS_ZstdDict i) x) dm tr pv k
     = decompress_with_dict z k i x dm"
  "decode_compressed_payload z dec (encode_compressed_payload (CS_Delta j) x) dm tr pv k
     = and_then (ok_or (DeltaBaseNotFound j) (pv j)) (\<lambda>base. decode_delta_data z base x)"
  "decode_compressed_payload z dec (encode_compressed_payload (CS_Template t) x) dm tr pv k
     = and_then (ok_or (TemplateNotFound t) (tr_templates tr t)) (\<lambda>t. decode_template_data z t x)"
  by (simp_all add: decode_compressed_payload_def encode_compressed_payload_def COMPRESSION_MAGIC_def
      CompressionTag_from_byte_def slice_def)

lemma decode_raw_or_plain:
  assumes "zstd_ok z" and "raw_or_plain z x = (s, c)" and "length x \<le> MAX_DECOMPRESSED"
  shows "decode_compressed_payload z dec (encode_compressed_payload s c) dm tr pv k = Ok x"
  using assms(2,3) raw_roundtrip [OF assms(1)] by (auto simp: raw_or_plain_def split: sum.splits if_splits)

text \<open>C22: for every strategy but templates and columns, a client that has the server's dictionary or none, and
  the server's previous version (below 4 GiB) or none, decodes the item itself or refuses the payload, and never
  decodes other bytes, as long as the item is at most 10 MiB long (\<open>MAX_DECOMPRESSED\<close>) and, when it is sent as a
  delta, at most 327690 bytes (\<open>XOR_ITEM_BOUND\<close>): above that a delta may have more patches than its count can tell,
  and a wrong item would be decoded.  zstd output starts with its magic number, which the decoder goes by.
\<close>

theorem compressed_payload_exact_or_refused:
  assumes "zstd_ok z" and "zstd_framed z"
    and "length exact \<le> MAX_DECOMPRESSED \<and> (\<forall>j. strategy = CS_Delta j \<longrightarrow> length exact \<le> XOR_ITEM_BOUND)"
    and "\<forall>i. strategy \<noteq> CS_Template i" and "strategy \<noteq> CS_Columnar"
    and "\<forall>i d. strategy = CS_ZstdDict i \<longrightarrow> map_of (dm_dictionaries dm) (kind, i) = Some d \<longrightarrow>
      get_dictionary kind (cx_dict_manager st) = Some d"
    and "\<forall>base. previous_versions item = Some base \<longrightarrow>
      cx_previous_versions st item = Some base \<and> length base < 2 ^ 32"
    and "apply_strategy z enc strategy kind item exact st = (st', actual, compressed)"
  shows "case decode_compressed_payload z dec (encode_compressed_payload actual compressed) dm tr previous_versions kind of
      Inr bs \<Rightarrow> bs = exact
    | Inl e \<Rightarrow> (\<exists>i. e = DictionaryNotFound kind i) \<or> e = DeltaBaseNotFound item \<or> (\<exists>n m. e = DeltaBaseLengthMismatch n m)"
proof -
  have small: "length exact \<le> MAX_DECOMPRESSED" using assms(3) by blast
  note raw = decode_raw_or_plain [OF assms(1) _ small, of _ _ dec dm tr previous_versions kind]
  show ?thesis
  proof (cases strategy)
    case (CS_ZstdDict i)
    then have "raw_or_plain z exact = (actual, compressed) \<or> actual = CS_Passthrough \<and> compressed = exact
        \<or> actual = CS_ZstdDict i \<and> compress_with_dict z kind exact (cx_dict_manager st) = Some (Ok compressed)"
      using assms(8) by (auto simp: apply_strategy_def split: option.splits sum.splits if_splits)
    then consider "raw_or_plain z exact = (actual, compressed)" | "actual = CS_Passthrough" "compressed = exact"
      | "actual = CS_ZstdDict i" "compress_with_dict z kind exact (cx_dict_manager st) = Some (Ok compressed)" by blast
    then show ?thesis
    proof cases
      case 3
      then obtain d where "get_dictionary kind (cx_dict_manager st) = Some d" "dict_compress z d exact = Ok compressed"
        by (auto simp: compress_with_dict_def)
      then show ?thesis using 3(1) assms(6) CS_ZstdDict dict_roundtrip [OF assms(1)]
        by (cases "map_of (dm_dictionaries dm) (kind, i)") (auto simp: decompress_with_dict_def)
    qed (simp_all add: raw)
  next
    case (CS_Delta j)
    then have "raw_or_plain z exact = (actual, compressed) \<or> actual = CS_Delta item \<and>
        (\<exists>base. cx_previous_versions st item = Some base \<and> delta_choice z base exact = Some compressed)"
      using assms(8) by (auto simp: apply_strategy_def split: option.splits if_splits)
    then show ?thesis
    proof (elim disjE conjE exE)
      fix base
      assume "actual = CS_Delta item" "cx_previous_versions st item = Some base" "delta_choice z base exact = Some compressed"
      moreover have "length exact \<le> XOR_ITEM_BOUND" using assms(3) CS_Delta by blast
      ultimately show ?thesis using assms(7) decode_delta_choice [OF assms(1,2)]
        by (cases "previous_versions item") (fastforce simp: exact_or_refused_def)+
    qed (simp add: raw)
  qed (use assms(4,5,8) raw in \<open>auto simp: apply_strategy_def\<close>)
qed

section \<open>Witnesses\<close>

text \<open>The library of the earlier witnesses with frames around its output.\<close>

definition framed_toy_zstd :: zstd_lib where
  "framed_toy_zstd = toy_zstd
     \<lparr>zstd_encode := (\<lambda>_ data. Ok (ZSTD_MAGIC @ toy_encode data)),
      zstd_decode := (\<lambda>c. if c = [] then Ok [] else if take 4 c = ZSTD_MAGIC then toy_decode (drop 4 c) else Err ''magic'')\<rparr>"

lemma framed_toy_zstd_ok: "zstd_ok framed_toy_zstd"
  using toy_zstd_ok toy_decode_encode by (auto simp: zstd_ok_def framed_toy_zstd_def ZSTD_MAGIC_def toy_zstd_def)

lemma framed_toy_zstd_framed: "zstd_framed framed_toy_zstd"
proof -
  have "c ! 3 = 0xFD" if "take 4 c = ZSTD_MAGIC" for c
    using arg_cong [OF that, of "\<lambda>l. l ! 3"] by (simp add: ZSTD_MAGIC_def)
  then show ?thesis by (auto simp: zstd_framed_def framed_toy_zstd_def ZSTD_MAGIC_def)
qed

definition sample_compress_state :: CompressState where
  "sample_compress_state = \<lparr>cx_dict_manager = dict_manager_new, cx_template_registry = template_registry_new,
     cx_previous_versions = [7 \<mapsto> replicate 20 0], cx_accumulator = accumulator_new\<rparr>"

lemma compressed_payload_exact_or_refused_witness:
  "\<exists>compressed. length compressed = 15
     \<and> apply_strategy framed_toy_zstd (\<lambda>_. Err []) (CS_Delta 7) Text 7 (replicate 19 0 @ [1]) sample_compress_state
         = (sample_compress_state, CS_Delta 7, compressed)
     \<and> (case decode_compressed_payload framed_toy_zstd (\<lambda>_. Err []) (encode_compressed_payload (CS_Delta 7) compressed)
            dict_manager_new template_registry_new [7 \<mapsto> replicate 20 0] Text of
          Inr bs \<Rightarrow> bs = replicate 19 0 @ [1]
        | Inl e \<Rightarrow> (\<exists>i. e = DictionaryNotFound Text i) \<or> e = DeltaBaseNotFound 7 \<or> (\<exists>n m. e = DeltaBaseLengthMismatch n m))"
proof -
  let ?d = "\<lparr>xd_original_len = 20, xd_target_len = 20, xd_patches = [(19, 1)]\<rparr>"
  have "xor_compute (replicate 20 0) (replicate 19 0 @ [1]) = Ok ?d"
    by (simp add: xor_compute_def numeral_eq_Suc)
  moreover have len: "length (xor_encode ?d) = 15" by (simp add: xor_encode_def xor_patch_bytes_def)
  moreover obtain c where "zstd_compress_raw framed_toy_zstd (xor_encode ?d) = Ok c" "15 < length c"
    using len that by (cases "xor_encode ?d = replicate 50 0")
      (auto simp: zstd_compress_raw_def framed_toy_zstd_def toy_encode_def ZSTD_MAGIC_def)
  ultimately have choice: "delta_choice framed_toy_zstd (replicate 20 0) (replicate 19 0 @ [1]) = Some (xor_encode ?d)"
    by (simp add: delta_choice_def xor_choice_def xor_is_compact_vs_def Let_def)
  have "apply_strategy framed_toy_zstd (\<lambda>_. Err []) (CS_Delta 7) Text 7 (replicate 19 0 @ [1]) sample_compress_state
      = (sample_compress_state, CS_Delta 7, xor_encode ?d)"
    using choice by (simp add: apply_strategy_def sample_compress_state_def)
  with compressed_payload_exact_or_refused [OF framed_toy_zstd_ok framed_toy_zstd_framed _ _ _ _ _ this,
      of dict_manager_new "[7 \<mapsto> replicate 20 0]"]
  show ?thesis
    by (intro exI [of _ "xor_encode ?d"])
      (simp add: XOR_ITEM_BOUND_def MAX_DECOMPRESSED_def sample_compress_state_def xor_encode_def xor_patch_bytes_def)
qed

section \<open>The first payload after training\<close>

lemma get_dictionary_None_iff:
  "get_dictionary k dm = None \<longleftrightarrow> (\<forall>e \<in> set (dm_dictionaries dm). fst (fst e) \<noteq> k)"
proof -
  define step where "step = (\<lambda>best (key :: SourceKind \<times> u64, d :: ZstdDictionary). if fst key \<noteq> k then best
    else case best of None \<Rightarrow> Some d | Some b \<Rightarrow> if zd_version b \<le> zd_version d then Some d else best)"
  have "foldl step best es = None \<longleftrightarrow> best = None \<and> (\<forall>e \<in> set es. fst (fst e) \<noteq> k)" for best es
    by (induction es arbitrary: best) (auto simp: step_def split: option.splits if_splits)
  then show ?thesis by (simp add: get_dictionary_def step_def)
qed

lemma get_dictionary_trained:
  assumes "maybe_train z k dm = (dm', Some i)"
  shows "\<exists>d. get_dictionary k dm' = Some d \<and> zd_dict_id d = i"
proof -
  from assms obtain d samples where none: "get_dictionary k dm = None"
    and dm': "dm_dictionaries dm' = dm_dictionaries dm @ [((k, zd_dict_id d), d)]" and i: "i = zd_dict_id d"
    by (auto simp: maybe_train_def Let_def split: option.splits if_splits)
  then show ?thesis using none by (simp add: get_dictionary_def)
qed

text \<open>When adding an item completes the training of a dictionary, the server compresses that very item with
  it.  A client that is in step with the server has no dictionary of the kind yet, cannot decode the payload and
  keeps the payload's bytes behind its prefix, the dictionary number included.
\<close>

theorem first_dictionary_payload_undecodable:
  assumes "maybe_train z kind (add_sample kind exact (cx_dict_manager st)) = (dm', Some i)"
    and "pick (prepare_compression z kind exact st) = CS_ZstdDict i"
    and "compress_with_dict z kind exact dm' = Some (Ok c)" and "length c < length exact"
    and "cx_dict_manager client = cx_dict_manager st"
    and "compress_exact_bytes z enc pick kind item exact st = (st', payload)"
  shows "decode_compressed_payload z dec payload (cx_dict_manager client) (cx_template_registry client)
      (cx_previous_versions client) kind = Err (DictionaryNotFound kind i)
    \<and> client_exact_bytes z dec payload client kind = le64 i @ c"
proof -
  have dm: "cx_dict_manager (prepare_compression z kind exact st) = dm'" using assms(1) by (simp add: prepare_compression_def)
  have payload: "payload = encode_compressed_payload (CS_ZstdDict i) c"
    using assms(2,3,4,6) dm by (simp add: compress_exact_bytes_def apply_strategy_def Let_def split: prod.splits)
  have "get_dictionary kind (add_sample kind exact (cx_dict_manager st)) = None"
    using assms(1) by (auto simp: maybe_train_def Let_def split: option.splits if_splits)
  moreover have "dm_dictionaries (add_sample kind exact (cx_dict_manager st)) = dm_dictionaries (cx_dict_manager st)"
    by (simp add: add_sample_def Let_def split: prod.splits)
  ultimately have "map_of (dm_dictionaries (cx_dict_manager client)) (kind, i) = None"
    using assms(5) by (auto simp: get_dictionary_None_iff map_of_eq_None_iff)
  then have d: "decode_compressed_payload z dec payload (cx_dict_manager client) (cx_template_registry client)
      (cx_previous_versions client) kind = Err (DictionaryNotFound kind i)"
    by (simp add: payload decompress_with_dict_def)
  moreover have "starts_with_compression_tag payload" "drop 2 payload = le64 i @ c" "2 < length payload"
    by (simp_all add: payload starts_with_compression_tag_def encode_compressed_payload_def CompressionTag_from_byte_def)
  ultimately show ?thesis by (simp add: client_exact_bytes_def)
qed


text \<open>Seven samples are known, the eighth item completes the training.\<close>

definition almost_trained :: DictionaryManager where
  "almost_trained = dict_manager_new \<lparr>dm_samples := [Json \<mapsto> replicate 7 (replicate 80 0)], dm_sample_bytes := [Json \<mapsto> 560]\<rparr>"

lemma evict_samples_none: "n \<le> m \<Longrightarrow> evict_samples m ss n = (ss, n)"
  by (induction m ss n rule: evict_samples.induct) simp_all

lemma almost_trained_trains:
  "\<exists>dm' d. maybe_train toy_zstd Json (add_sample Json (replicate 80 0) almost_trained) = (dm', Some 1)
     \<and> get_dictionary Json dm' = Some d"
proof -
  have add: "dm_samples (add_sample Json (replicate 80 0) almost_trained) Json = Some (replicate 8 (replicate 80 0))"
    "dm_sample_bytes (add_sample Json (replicate 80 0) almost_trained) Json = Some 640"
    "dm_dictionaries (add_sample Json (replicate 80 0) almost_trained) = []"
    "dm_next_dict_id (add_sample Json (replicate 80 0) almost_trained) = 1"
    using replicate_append_same [of 7 "replicate 80 (0 :: u8)"]
    by (simp_all add: add_sample_def almost_trained_def dict_manager_new_def MAX_INDIVIDUAL_SAMPLE_SIZE_def
        evict_samples_none flip: replicate_Suc)
  obtain d where "dict_train toy_zstd 1 Json (replicate 8 (replicate 80 0)) 1 = Some d" "zd_dict_id d = 1"
    by (simp add: dict_train_def toy_zstd_def MIN_SAMPLES_FOR_TRAINING_def MIN_SAMPLE_BYTES_FOR_TRAINING_def
        MAX_TRAINING_SAMPLES_def MAX_INDIVIDUAL_SAMPLE_SIZE_def sum_list_replicate)
  then show ?thesis using add
    by (simp add: maybe_train_def get_dictionary_def MIN_SAMPLES_FOR_TRAINING_def MIN_SAMPLE_BYTES_FOR_TRAINING_def)
qed

lemma first_dictionary_payload_undecodable_witness:
  "\<exists>payload c. client_exact_bytes toy_zstd (\<lambda>_. Err []) payload
       (sample_compress_state \<lparr>cx_dict_manager := almost_trained\<rparr>) Json = le64 1 @ c
     \<and> payload = snd (compress_exact_bytes toy_zstd (\<lambda>_. Err []) (\<lambda>_. CS_ZstdDict 1) Json 7 (replicate 80 0)
         (sample_compress_state \<lparr>cx_dict_manager := almost_trained\<rparr>))"
proof -
  let ?st = "sample_compress_state \<lparr>cx_dict_manager := almost_trained\<rparr>"
  obtain dm' d where train: "maybe_train toy_zstd Json (add_sample Json (replicate 80 0) almost_trained) = (dm', Some 1)"
    and d: "get_dictionary Json dm' = Some d" using almost_trained_trains by blast
  obtain c where c: "compress_with_dict toy_zstd Json (replicate 80 0) dm' = Some (Ok c)" "length c < length (replicate 80 (0 :: u8))"
    using d by (simp add: compress_with_dict_def dict_compress_def toy_zstd_def toy_encode_def)
  obtain st' payload where p: "compress_exact_bytes toy_zstd (\<lambda>_. Err []) (\<lambda>_. CS_ZstdDict 1) Json 7 (replicate 80 0) ?st
      = (st', payload)" by (rule prod.exhaust)
  have "maybe_train toy_zstd Json (add_sample Json (replicate 80 0) (cx_dict_manager ?st)) = (dm', Some 1)"
    using train by simp
  from first_dictionary_payload_undecodable [OF this refl c refl p] p show ?thesis by (metis snd_conv)
qed

end
