(* ===== verification/Pulzz_Source.thy ===== *)
theory Pulzz_Source
  imports Pulzz_Chpmt Pulzz_Kernels Pulzz_Cursor
begin

text \<open>
  Sources (\<open>shared_protocol/src/source.rs\<close>): canonical bytes and source hashes, descriptors and object keys,
  the cues derived from bytes, the payload of SourceMeta records, and the support checks against a capability
  descriptor.  SHA-256 is a parameter.  Texts are their UTF-8 bytes.
\<close>

section \<open>Capability descriptors and cue summaries (chpmt.rs)\<close>

datatype PrecisionBand = PB_Exact | PB_Tight | PB_Balanced | PB_Broad | PB_Background

fun score_value :: "PrecisionBand \<Rightarrow> u16" where
  "score_value PB_Exact = 1000"
| "score_value PB_Tight = 850"
| "score_value PB_Balanced = 650"
| "score_value PB_Broad = 400"
| "score_value PB_Background = 150"

record ChpmtCapabilityDescriptor =
  cd_capability_slug :: string
  cd_supported_planes :: "MemoryPlane list"
  cd_supported_object_kinds :: "ObjectKind list"
  cd_supported_source_kind_bits :: u64

definition supports_source_kind :: "ChpmtCapabilityDescriptor \<Rightarrow> SourceKind \<Rightarrow> bool" where
  "supports_source_kind c kind \<longleftrightarrow> cd_supported_source_kind_bits c AND family_bits kind \<noteq> 0"

definition text_family_descriptor :: ChpmtCapabilityDescriptor where
  "text_family_descriptor =
     \<lparr>cd_capability_slug = ''text_family_cue_object'',
      cd_supported_planes = [AtomSubstrate, AssemblyPlane, TransformPlane, Episode, SchemaPlane, Controller],
      cd_supported_object_kinds = [OK_ExactState, OK_SparseCue, OK_Assembly, OK_Transform, OK_Schema,
        OK_Dictionary, OK_PredictiveObject],
      cd_supported_source_kind_bits = family_bits Text OR family_bits Json OR family_bits Binary\<rparr>"

definition image_family_descriptor :: ChpmtCapabilityDescriptor where
  "image_family_descriptor =
     \<lparr>cd_capability_slug = ''image_family_cue_object'',
      cd_supported_planes = [AtomSubstrate, AssemblyPlane, TransformPlane, Episode, SchemaPlane, Controller],
      cd_supported_object_kinds = [OK_ExactState, OK_SparseCue, OK_Assembly, OK_Transform, OK_Schema,
        OK_PredictiveObject],
      cd_supported_source_kind_bits = family_bits Image\<rparr>"

record CueFamily =
  cf_plane :: MemoryPlane
  cf_route_family :: RouteFamily
  cf_object_kind :: ObjectKind
  cf_precision_band :: PrecisionBand

record StructuralCueSummary =
  sc_cue :: SparseCue
  sc_source_kind :: SourceKind
  sc_plane :: MemoryPlane
  sc_route_family :: RouteFamily
  sc_object_kind :: ObjectKind
  sc_precision_band :: PrecisionBand

definition trailing_zeros :: "'a::len word \<Rightarrow> nat" where
  "trailing_zeros w = length (takeWhile (\<lambda>i. \<not> bit w i) [0..<LENGTH('a)])"

definition length_bucket_tag :: "SparseCue \<Rightarrow> u8" where
  "length_bucket_tag c =
     (let bits = cue_length_bucket_bits c in if bits = 0 then 0 else of_nat (trailing_zeros bits))"

section \<open>Source kinds\<close>

fun source_slug :: "SourceKind \<Rightarrow> string" where
  "source_slug Text = ''text''"
| "source_slug Json = ''json''"
| "source_slug Binary = ''binary''"
| "source_slug Image = ''image''"

definition asset_namespace :: "SourceKind \<Rightarrow> string" where
  "asset_namespace kind =
     (case compact_asset_kind kind of Text \<Rightarrow> ''text_v2'' | Json \<Rightarrow> ''json_v2'' | _ \<Rightarrow> ''binary_v2'')"

definition source_cue_family :: "SourceKind \<Rightarrow> CueFamily" where
  "source_cue_family kind =
     \<lparr>cf_plane = AtomSubstrate, cf_route_family = RF_DirectState, cf_object_kind = OK_ExactState,
      cf_precision_band = PB_Exact\<rparr>"

section \<open>Cues derived from bytes\<close>

definition windows :: "nat \<Rightarrow> 'a list \<Rightarrow> 'a list list" where
  "windows n xs = map (\<lambda>i. slice i (i + n) xs) [0..<Suc (length xs) - n]"

definition kernel_contains_window :: "bytes \<Rightarrow> bytes \<Rightarrow> bool" where
  "kernel_contains_window bs needle \<longleftrightarrow> needle = [] \<or> needle \<in> set (windows (length needle) bs)"

definition flag_bit :: "bool \<Rightarrow> nat \<Rightarrow> u64" where
  "flag_bit b i = (if b then push_bit i 1 else 0)"

definition role_bits_from_bytes :: "bytes \<Rightarrow> u64" where
  "role_bits_from_bytes bs =
     flag_bit (\<forall>b \<in> set bs. b < 0x80) 12
     OR flag_bit (\<exists>b \<in> set bs. 0x41 \<le> b \<and> b \<le> 0x5A) 13
     OR flag_bit (\<exists>b \<in> set bs. 0x30 \<le> b \<and> b \<le> 0x39) 14
     OR flag_bit (kernel_contains_window bs [0x0D, 0x0A]) 15
     OR flag_bit (kernel_contains_window bs [0x3A, 0x3A]) 16"

definition delimiter_class :: "u8 \<Rightarrow> u64" where
  "delimiter_class b =
     (if b = 0x0A then push_bit 0 1 else if b = 0x09 then push_bit 1 1 else if b = 0x20 then push_bit 2 1
      else if b = 0x2C then push_bit 3 1 else if b = 0x3A then push_bit 4 1 else if b = 0x3B then push_bit 5 1
      else if b = 0x7B \<or> b = 0x7D then push_bit 6 1 else if b = 0x5B \<or> b = 0x5D then push_bit 7 1
      else if b = 0x28 \<or> b = 0x29 then push_bit 8 1 else if b = 0x3C \<or> b = 0x3E then push_bit 9 1
      else if b = 0x2F \<or> b = 0x5C then push_bit 10 1 else if b = 0x3D then push_bit 11 1
      else if b = 0x22 \<or> b = 0x27 then push_bit 12 1 else 0)"

definition delimiter_bits_from_bytes :: "bytes \<Rightarrow> u64" where
  "delimiter_bits_from_bytes bs = foldl (\<lambda>bits b. bits OR delimiter_class b) 0 bs"

definition low_nibble_bit :: "nat \<Rightarrow> 'a::len word \<Rightarrow> u64" where
  "low_nibble_bit base w = push_bit (base + unat (w AND 0x0F)) 1"

definition prefix_suffix_bits_from_bytes :: "bytes \<Rightarrow> u64" where
  "prefix_suffix_bits_from_bytes bs =
     (if bs = [] then 0 else low_nibble_bit 0 (hd bs) OR low_nibble_bit 16 (last bs))
     OR (if length bs \<ge> 2
         then low_nibble_bit 32 (of_le16 [bs ! 0, bs ! 1])
           OR low_nibble_bit 48 (of_le16 [bs ! (length bs - 2), bs ! (length bs - 1)])
         else 0)"

definition rolling_step :: "nat \<Rightarrow> u64 \<times> u32 \<Rightarrow> nat \<times> u8 \<Rightarrow> u64 \<times> u32" where
  "rolling_step window s e =
     (let acc = word_rotl 5 (snd s) XOR (ucast (snd e) + of_nat (fst e) * 131) in
      (if fst e + 1 \<ge> window then fst s OR push_bit (unat (acc AND 63)) 1 else fst s, acc))"

definition kernel_rolling_hash_window_bits :: "bytes \<Rightarrow> nat \<Rightarrow> u64" where
  "kernel_rolling_hash_window_bits bs window =
     (if bs = [] \<or> window = 0 then 0 else fst (foldl (rolling_step window) (0, 0) (enumerate 0 bs)))"

definition local_hash_bits_from_bytes :: "bytes \<Rightarrow> u64" where
  "local_hash_bits_from_bytes bs = (if bs = [] then 0 else kernel_rolling_hash_window_bits bs 4)"

definition kernel_adjacent_repeat :: "bytes \<Rightarrow> bool" where
  "kernel_adjacent_repeat bs \<longleftrightarrow> (\<exists>w \<in> set (windows 2 bs). w ! 0 = w ! 1)"

definition kernel_strided_repeat :: "bytes \<Rightarrow> nat \<Rightarrow> bool" where
  "kernel_strided_repeat bs stride \<longleftrightarrow>
     (let width = stride * 2 in
      width \<noteq> 0 \<and> (\<exists>w \<in> set (windows width bs). slice 0 stride w = slice stride width w))"

definition length_bucket_bits :: "nat \<Rightarrow> u64" where
  "length_bucket_bits len =
     (if len = 0 then push_bit 0 1 else if len \<le> 32 then push_bit 1 1 else if len \<le> 128 then push_bit 2 1
      else if len \<le> 512 then push_bit 3 1 else if len \<le> 2048 then push_bit 4 1
      else if len \<le> 8192 then push_bit 5 1 else push_bit 6 1)"

definition temporal_bits_from_bytes :: "bytes \<Rightarrow> u64" where
  "temporal_bits_from_bytes bs =
     flag_bit (length bs \<ge> 64) 0
     OR flag_bit (kernel_adjacent_repeat bs) 1
     OR flag_bit (kernel_strided_repeat bs 2) 2
     OR flag_bit (length (filter (\<lambda>b. b = 0x0A) bs) \<ge> 2) 3
     OR flag_bit (length bs \<ge> 8 \<and> take 4 bs = drop (length bs - 4) bs) 4"

record ByteCueComponents =
  bc_delimiter_bits :: u64
  bc_role_bits :: u64
  bc_length_bucket_bits :: u64
  bc_temporal_bits :: u64
  bc_local_hash_bits :: u64
  bc_prefix_suffix_bits :: u64

definition derive_byte_cue_components :: "bytes \<Rightarrow> ByteCueComponents" where
  "derive_byte_cue_components bs =
     \<lparr>bc_delimiter_bits = delimiter_bits_from_bytes bs, bc_role_bits = role_bits_from_bytes bs,
      bc_length_bucket_bits = length_bucket_bits (length bs), bc_temporal_bits = temporal_bits_from_bytes bs,
      bc_local_hash_bits = local_hash_bits_from_bytes bs,
      bc_prefix_suffix_bits = prefix_suffix_bits_from_bytes bs\<rparr>"

definition derive_sparse_cue :: "SourceKind \<Rightarrow> bytes \<Rightarrow> SparseCue" where
  "derive_sparse_cue kind bs =
     (let components = derive_byte_cue_components bs in
      \<lparr>cue_family_bits = family_bits kind,
       cue_role_bits = role_bits kind OR bc_role_bits components OR bc_local_hash_bits components,
       cue_delimiter_bits = bc_delimiter_bits components OR bc_prefix_suffix_bits components,
       cue_length_bucket_bits = bc_length_bucket_bits components,
       cue_temporal_bits = bc_temporal_bits components\<rparr>)"

section \<open>Descriptors, keys and objects\<close>

type_synonym SourceHash = bytes

record SourceDescriptor =
  sd_kind :: SourceKind
  sd_source_hash :: SourceHash
  sd_byte_len :: nat
  sd_mime :: "bytes option"
  sd_label :: "bytes option"

record PredictiveObjectKey =
  pk_source_hash :: SourceHash
  pk_source_kind :: SourceKind
  pk_object_kind :: ObjectKind
  pk_cue :: SparseCue

record ChpmtObject =
  co_descriptor :: SourceDescriptor
  co_object_key :: PredictiveObjectKey
  co_source_kind :: SourceKind
  co_object_kind :: ObjectKind
  co_cue :: SparseCue
  co_exact_bytes :: bytes

definition material_of_object :: "ChpmtObject \<Rightarrow> ExactStateMaterial" where
  "material_of_object obj = \<lparr>esm_source_kind = co_source_kind obj, esm_exact_bytes = co_exact_bytes obj\<rparr>"

definition structural_cue_summary :: "SourceDescriptor \<Rightarrow> bytes \<Rightarrow> StructuralCueSummary" where
  "structural_cue_summary d exact_bytes =
     \<lparr>sc_cue = derive_sparse_cue (sd_kind d) exact_bytes, sc_source_kind = sd_kind d, sc_plane = AtomSubstrate,
      sc_route_family = RF_DirectState, sc_object_kind = OK_ExactState, sc_precision_band = PB_Exact\<rparr>"

definition runtime_object_key_from_cue :: "SourceDescriptor \<Rightarrow> SparseCue \<Rightarrow> PredictiveObjectKey" where
  "runtime_object_key_from_cue d cue =
     \<lparr>pk_source_hash = sd_source_hash d, pk_source_kind = sd_kind d, pk_object_kind = OK_ExactState, pk_cue = cue\<rparr>"

definition runtime_object_key_from_bytes :: "SourceDescriptor \<Rightarrow> bytes \<Rightarrow> PredictiveObjectKey" where
  "runtime_object_key_from_bytes d exact_bytes =
     runtime_object_key_from_cue d (sc_cue (structural_cue_summary d exact_bytes))"

definition substrate_object_key_from_cue :: "SourceDescriptor \<Rightarrow> SparseCue \<Rightarrow> ObjectKind \<Rightarrow> PredictiveObjectKey" where
  "substrate_object_key_from_cue d cue object_kind =
     \<lparr>pk_source_hash = sd_source_hash d, pk_source_kind = sd_kind d, pk_object_kind = object_kind, pk_cue = cue\<rparr>"

definition substrate_object_key_from_bytes :: "SourceDescriptor \<Rightarrow> ObjectKind \<Rightarrow> bytes \<Rightarrow> PredictiveObjectKey" where
  "substrate_object_key_from_bytes d object_kind exact_bytes =
     substrate_object_key_from_cue d (sc_cue (structural_cue_summary d exact_bytes)) object_kind"

definition hex_char :: "u8 \<Rightarrow> char" where "hex_char b = ''0123456789abcdef'' ! unat b"

definition hex_encode :: "bytes \<Rightarrow> string" where
  "hex_encode bs = concat (map (\<lambda>b. [hex_char (drop_bit 4 b), hex_char (b AND 0x0F)]) bs)"

definition cue_bytes :: "SparseCue \<Rightarrow> bytes" where
  "cue_bytes c = le64 (cue_family_bits c) @ le64 (cue_role_bits c) @ le64 (cue_delimiter_bits c)
     @ le64 (cue_length_bucket_bits c) @ le64 (cue_temporal_bits c)"

definition PREDICTIVE_OBJECT_KEY_DOMAIN :: bytes where
  "PREDICTIVE_OBJECT_KEY_DOMAIN = ascii_bytes ''pulzz/predictive-object-key-v1''"

definition object_key_bytes :: "PredictiveObjectKey \<Rightarrow> bytes" where
  "object_key_bytes k = PREDICTIVE_OBJECT_KEY_DOMAIN @ pk_source_hash k @ [SourceKind_tag (pk_source_kind k)]
     @ [of_nat (ObjectKind_disc (pk_object_kind k))] @ cue_bytes (pk_cue k)"

definition object_storage_key :: "sha \<Rightarrow> PredictiveObjectKey \<Rightarrow> string" where
  "object_storage_key sha k = hex_encode (sha (object_key_bytes k))"

record EpisodeTraceLookupKey =
  ek_source_kind :: SourceKind
  ek_object_kind :: ObjectKind
  ek_cue :: SparseCue
  ek_context_hash :: u64

definition trace_storage_key :: "sha \<Rightarrow> EpisodeTraceLookupKey \<Rightarrow> string" where
  "trace_storage_key sha k =
     hex_encode (sha (ascii_bytes ''pulzz/episode-trace-key-v1'' @ [SourceKind_tag (ek_source_kind k)]
       @ [of_nat (ObjectKind_disc (ek_object_kind k))] @ cue_bytes (ek_cue k) @ le64 (ek_context_hash k)))"

text \<open>\<open>{:02x}\<close> and \<open>{:016x}\<close> of numbers that fit: the bytes from the highest to the lowest.\<close>

definition hex_word :: "nat \<Rightarrow> 'a::len word \<Rightarrow> string" where
  "hex_word n w = hex_encode (rev (le_bytes n w))"

record PredictiveObjectStorePath =
  sp_family_partition :: string
  sp_object_class :: string
  sp_cue_partition :: string
  sp_storage_key :: string

definition store_path_from_key :: "bool \<Rightarrow> sha \<Rightarrow> PredictiveObjectKey \<Rightarrow> SparseCue \<Rightarrow> PredictiveObjectStorePath" where
  "store_path_from_key simd sha k cue =
     (let source_seed = of_le64 (slice 0 8 (pk_source_hash k));
          shard = (case keyed_permute_indices simd 16 source_seed of [] \<Rightarrow> 0 | s # _ \<Rightarrow> s) in
      \<lparr>sp_family_partition = source_slug (pk_source_kind k),
       sp_object_class = storage_slug (pk_object_kind k),
       sp_cue_partition = concat [''sh'', hex_word 1 shard, ''-lb'',
         hex_word 1 (of_nat (trailing_zeros (cue_length_bucket_bits cue)) :: u32), ''-fb'',
         hex_word 8 (cue_family_bits cue), ''-db'', hex_word 8 (cue_delimiter_bits cue)],
       sp_storage_key = object_storage_key sha k\<rparr>)"

section \<open>Source hashes and prepared sources\<close>

definition SOURCE_HASH_LEN :: nat where "SOURCE_HASH_LEN = 32"
definition SOURCE_HASH_VERSION :: u8 where "SOURCE_HASH_VERSION = 1"
definition SOURCE_HASH_DOMAIN :: bytes where "SOURCE_HASH_DOMAIN = ascii_bytes ''pulzz/source-hash-v1''"

definition source_hash_bytes :: "SourceKind \<Rightarrow> bytes option \<Rightarrow> bytes \<Rightarrow> bytes" where
  "source_hash_bytes kind mime bs =
     SOURCE_HASH_DOMAIN @ [SOURCE_HASH_VERSION] @ [SourceKind_tag kind]
       @ (case mime of Some m \<Rightarrow> le32 (of_nat (length m)) @ m | None \<Rightarrow> le32 0)
       @ le64 (of_nat (length bs)) @ bs"

definition compute_source_hash :: "sha \<Rightarrow> SourceKind \<Rightarrow> bytes option \<Rightarrow> bytes \<Rightarrow> SourceHash" where
  "compute_source_hash sha kind mime bs = sha (source_hash_bytes kind mime bs)"

datatype ReversiblePreprocessKind = Identity | NormalizeLineEndings

record AppliedPreprocessStep =
  ap_kind :: ReversiblePreprocessKind
  ap_input_len :: u32
  ap_output_len :: u32
  ap_metadata_bytes :: u16
  ap_net_gain_estimate :: "32 word"

definition preprocess_step_new :: "ReversiblePreprocessKind \<Rightarrow> nat \<Rightarrow> nat \<Rightarrow> AppliedPreprocessStep" where
  "preprocess_step_new kind input_len output_len =
     (let input_len = of_nat (min input_len (2 ^ 32 - 1)); output_len = of_nat (min output_len (2 ^ 32 - 1));
          metadata_bytes = 4;
          structural_gain = (if input_len < output_len then 0 else input_len - output_len) in
      \<lparr>ap_kind = kind, ap_input_len = input_len, ap_output_len = output_len, ap_metadata_bytes = metadata_bytes,
       ap_net_gain_estimate = structural_gain - ucast metadata_bytes\<rparr>)"

record PreparedSource =
  ps_descriptor :: SourceDescriptor
  ps_canonical_bytes :: bytes
  ps_preprocess_steps :: "AppliedPreprocessStep list"

definition preprocessing_net_gain :: "PreparedSource \<Rightarrow> 32 word" where
  "preprocessing_net_gain p = sum_list (map ap_net_gain_estimate (ps_preprocess_steps p))"

fun replace_crlf :: "bytes \<Rightarrow> bytes" where
  "replace_crlf (a # b # s) = (if a = 0x0D \<and> b = 0x0A then 0x0A # replace_crlf s else a # replace_crlf (b # s))"
| "replace_crlf s = s"

definition replace_cr :: "bytes \<Rightarrow> bytes" where
  "replace_cr s = map (\<lambda>b. if b = 0x0D then 0x0A else b) s"

definition canonicalize_text_bytes :: "bytes \<Rightarrow> bytes" where
  "canonicalize_text_bytes text = replace_cr (replace_crlf text)"

definition text_preprocess_steps :: "bytes \<Rightarrow> bytes \<Rightarrow> AppliedPreprocessStep list" where
  "text_preprocess_steps input out =
     (if input = out then [preprocess_step_new Identity (length input) (length out)]
      else [preprocess_step_new NormalizeLineEndings (length input) (length out)])"

definition prepare_text_source :: "sha \<Rightarrow> bytes \<Rightarrow> bytes option \<Rightarrow> PreparedSource" where
  "prepare_text_source sha text label =
     (let canonical_bytes = canonicalize_text_bytes text in
      \<lparr>ps_descriptor = \<lparr>sd_kind = Text, sd_source_hash = compute_source_hash sha Text None canonical_bytes,
         sd_byte_len = length canonical_bytes, sd_mime = Some (ascii_bytes ''text/plain; charset=utf-8''),
         sd_label = label\<rparr>,
       ps_canonical_bytes = canonical_bytes, ps_preprocess_steps = text_preprocess_steps text canonical_bytes\<rparr>)"

definition prepare_verbatim :: "sha \<Rightarrow> SourceKind \<Rightarrow> bytes option \<Rightarrow> bytes \<Rightarrow> bytes option \<Rightarrow> PreparedSource" where
  "prepare_verbatim sha kind mime bs label =
     \<lparr>ps_descriptor = \<lparr>sd_kind = kind, sd_source_hash = compute_source_hash sha kind mime bs,
        sd_byte_len = length bs, sd_mime = mime, sd_label = label\<rparr>,
      ps_canonical_bytes = bs, ps_preprocess_steps = [preprocess_step_new Identity (length bs) (length bs)]\<rparr>"

definition prepare_json_source :: "sha \<Rightarrow> bytes \<Rightarrow> bytes option \<Rightarrow> PreparedSource" where
  "prepare_json_source sha json label = prepare_verbatim sha Json (Some (ascii_bytes ''application/json'')) json label"

definition prepare_binary_source :: "sha \<Rightarrow> bytes option \<Rightarrow> bytes option \<Rightarrow> bytes \<Rightarrow> PreparedSource" where
  "prepare_binary_source sha label mime bs = prepare_verbatim sha Binary mime bs label"

definition prepare_image_source :: "sha \<Rightarrow> bytes option \<Rightarrow> bytes \<Rightarrow> bytes \<Rightarrow> PreparedSource" where
  "prepare_image_source sha name mime bs = prepare_verbatim sha Image (Some mime) bs name"

section \<open>Support checks\<close>

record CorpusSupportProfile =
  cp_source_kind :: SourceKind
  cp_required_planes :: "MemoryPlane list"
  cp_required_object_kinds :: "ObjectKind list"
  cp_minimum_length_bucket :: u8
  cp_cue :: SparseCue

record CorpusSupportValidation =
  cv_source_kind :: SourceKind
  cv_family_supported :: bool
  cv_cue_supported :: bool
  cv_object_support_complete :: bool

definition family_cues :: "PreparedSource \<Rightarrow> SparseCue" where
  "family_cues p = derive_sparse_cue (sd_kind (ps_descriptor p)) (ps_canonical_bytes p)"

definition corpus_support_profile :: "PreparedSource \<Rightarrow> CorpusSupportProfile" where
  "corpus_support_profile p =
     \<lparr>cp_source_kind = sd_kind (ps_descriptor p),
      cp_required_planes = [AtomSubstrate, AssemblyPlane, TransformPlane],
      cp_required_object_kinds = [OK_ExactState, OK_SparseCue],
      cp_minimum_length_bucket = length_bucket_tag (family_cues p), cp_cue = family_cues p\<rparr>"

definition validate_corpus_support :: "PreparedSource \<Rightarrow> MemoryPlane list \<Rightarrow> ObjectKind list \<Rightarrow> CorpusSupportValidation" where
  "validate_corpus_support p planes kinds =
     (let profile = corpus_support_profile p in
      \<lparr>cv_source_kind = sd_kind (ps_descriptor p), cv_family_supported = (AtomSubstrate \<in> set planes),
       cv_cue_supported = (\<not> cue_is_empty (cp_cue profile)),
       cv_object_support_complete = (\<forall>k \<in> set (cp_required_object_kinds profile). k \<in> set kinds)\<rparr>)"

definition validate_capability_support :: "PreparedSource \<Rightarrow> ChpmtCapabilityDescriptor \<Rightarrow> CorpusSupportValidation" where
  "validate_capability_support p c =
     (let profile = corpus_support_profile p in
      \<lparr>cv_source_kind = sd_kind (ps_descriptor p),
       cv_family_supported = (supports_source_kind c (sd_kind (ps_descriptor p)) \<and> AtomSubstrate \<in> set (cd_supported_planes c)),
       cv_cue_supported = (\<not> cue_is_empty (cp_cue profile)),
       cv_object_support_complete =
         (\<forall>k \<in> set (cp_required_object_kinds profile). k \<in> set (cd_supported_object_kinds c))\<rparr>)"

section \<open>The payload of SourceMeta records\<close>

datatype SourceError =
    InvalidUtf8
  | UnknownSourceKind u8
  | InvalidSourceMetaPayload string
  | SourceMetaStringTooLarge nat

definition OPTIONAL_STRING_NONE_LEN :: u16 where "OPTIONAL_STRING_NONE_LEN = - 1"

record SourceMetaPayload =
  sm_source_hash :: SourceHash
  sm_source_kind :: SourceKind
  sm_source_len :: u64
  sm_mime :: "bytes option"
  sm_label :: "bytes option"

definition optional_string_len :: "bytes option \<Rightarrow> SourceError + u16" where
  "optional_string_len text =
     (case text of
        None \<Rightarrow> Ok OPTIONAL_STRING_NONE_LEN
      | Some s \<Rightarrow>
          if length s \<ge> unat OPTIONAL_STRING_NONE_LEN then Err (SourceMetaStringTooLarge (length s))
          else Ok (of_nat (length s)))"

definition encode_optional_string :: "u16 \<Rightarrow> bytes option \<Rightarrow> bytes" where
  "encode_optional_string len text = le16 len @ (case text of Some s \<Rightarrow> s | None \<Rightarrow> [])"

definition decode_optional_string :: "(SourceError, bytes option) reader" where
  "decode_optional_string bs cursor =
     (if cursor + 2 > length bs then Err (InvalidSourceMetaPayload ''source meta payload is truncated'')
      else
        let len = of_le16 (slice cursor (cursor + 2) bs); cursor = cursor + 2 in
        if len = OPTIONAL_STRING_NONE_LEN then Ok (None, cursor)
        else
          let end = cursor + unat len in
          if end > length bs then Err (InvalidSourceMetaPayload ''source meta string overruns payload'')
          else if \<not> utf8_valid (slice cursor end bs) then Err InvalidUtf8
          else Ok (Some (slice cursor end bs), end))"

definition source_meta_encode :: "SourceMetaPayload \<Rightarrow> SourceError + bytes" where
  "source_meta_encode p =
     and_then (optional_string_len (sm_mime p)) (\<lambda>mime_len.
     and_then (optional_string_len (sm_label p)) (\<lambda>label_len.
       Ok (sm_source_hash p @ [SourceKind_tag (sm_source_kind p)] @ le64 (sm_source_len p)
         @ encode_optional_string mime_len (sm_mime p) @ encode_optional_string label_len (sm_label p))))"

definition source_meta_decode :: "bytes \<Rightarrow> SourceError + SourceMetaPayload" where
  "source_meta_decode bs =
     (if length bs < SOURCE_HASH_LEN + 1 + 8 + 2 + 2
      then Err (InvalidSourceMetaPayload ''source meta payload is truncated'')
      else
        and_then (map_err UnknownSourceKind (SourceKind_from_tag (bs ! SOURCE_HASH_LEN))) (\<lambda>source_kind.
        and_then (decode_optional_string bs (SOURCE_HASH_LEN + 9)) (\<lambda>(mime, cursor).
        and_then (decode_optional_string bs cursor) (\<lambda>(label, cursor).
          if cursor \<noteq> length bs
          then Err (InvalidSourceMetaPayload ''source meta payload has trailing bytes'')
          else Ok \<lparr>sm_source_hash = take SOURCE_HASH_LEN bs, sm_source_kind = source_kind,
                   sm_source_len = of_le64 (slice (SOURCE_HASH_LEN + 1) (SOURCE_HASH_LEN + 9) bs),
                   sm_mime = mime, sm_label = label\<rparr>))))"

section \<open>The payload of SourceMeta records is canonical\<close>

definition optional_string_bytes :: "bytes option \<Rightarrow> bytes" where
  "optional_string_bytes text =
     encode_optional_string (case text of None \<Rightarrow> OPTIONAL_STRING_NONE_LEN | Some s \<Rightarrow> of_nat (length s)) text"

definition optional_string_ok :: "bytes option \<Rightarrow> bool" where
  "optional_string_ok text \<longleftrightarrow> (case text of None \<Rightarrow> True | Some s \<Rightarrow> utf8_valid s \<and> length s < 65535)"

lemma NONE_LEN_eq: "OPTIONAL_STRING_NONE_LEN = 65535"
  by (simp add: OPTIONAL_STRING_NONE_LEN_def)

lemma optional_string_len_iff:
  "optional_string_len text = Ok n \<longleftrightarrow>
    (case text of None \<Rightarrow> n = 65535 | Some s \<Rightarrow> length s < 65535 \<and> n = of_nat (length s))"
  by (auto simp: optional_string_len_def NONE_LEN_eq split: option.splits)

lemma decode_optional_string_Some:
  assumes "length s < 65535" and "spells bs c (le16 (of_nat (length s)) @ s)" and "utf8_valid s"
  shows "decode_optional_string bs c = Ok (Some s, c + 2 + length s)"
proof -
  have len: "unat (of_nat (length s) :: u16) = length s" using assms(1) by (simp add: unat_of_nat_u16)
  have "(of_nat (length s) :: u16) \<noteq> 65535"
  proof
    assume "(of_nat (length s) :: u16) = 65535"
    then have "unat (of_nat (length s) :: u16) = 65535" by simp
    then show False using assms(1) len by simp
  qed
  moreover have "of_le16 (slice c (c + 2) bs) = of_nat (length s)" "c + 2 \<le> length bs"
    and "spells bs (c + 2) s" using assms(2) by (simp_all add: spells_le16)
  moreover from this have "c + 2 + length s \<le> length bs" "slice (c + 2) (c + 2 + length s) bs = s"
    using spells_length [of bs "c + 2" s] by (cases "s = []", simp_all add: spells_slice)
  ultimately show ?thesis
    using assms(3) len by (simp add: decode_optional_string_def NONE_LEN_eq Let_def)
qed

interpretation opt_string: cursor_codec optional_string_bytes decode_optional_string optional_string_ok
proof
  fix bs c t c'
  show "decode_optional_string bs c = Ok (t, c') \<longleftrightarrow>
      optional_string_ok t \<and> spells bs c (optional_string_bytes t) \<and> c' = c + length (optional_string_bytes t)"
  proof (cases t)
    case None
    then show ?thesis
      by (auto simp: decode_optional_string_def optional_string_bytes_def encode_optional_string_def optional_string_ok_def
          spells_le16 Let_def)
  next
    case (Some s)
    let ?n = "of_le16 (slice c (c + 2) bs)"
    show ?thesis
    proof
      assume "decode_optional_string bs c = Ok (t, c')"
      then have c: "c + 2 \<le> length bs" "c + 2 + unat ?n \<le> length bs" and s: "s = slice (c + 2) (c + 2 + unat ?n) bs"
        and n: "?n \<noteq> 65535" and "utf8_valid s" and c': "c' = c + 2 + unat ?n"
        using Some by (auto simp: decode_optional_string_def NONE_LEN_eq Let_def split: if_splits)
      have inverse: "of_nat (unat ?n) = ?n" by simp
      then have "unat ?n \<noteq> 65535" using n by (metis of_nat_numeral)
      moreover have "unat ?n < 65536" using unsigned_less [of ?n] by simp
      ultimately have "unat ?n < 65535" by simp
      moreover have "length s = unat ?n" using s c by simp
      moreover note inverse
      moreover have "spells bs (c + 2) s" using s c by (simp add: spells_slice)
      ultimately show "optional_string_ok t \<and> spells bs c (optional_string_bytes t) \<and> c' = c + length (optional_string_bytes t)"
        using Some c c' \<open>utf8_valid s\<close> \<open>spells bs (c + 2) s\<close>
        by (simp add: optional_string_bytes_def encode_optional_string_def optional_string_ok_def spells_le16)
    next
      assume "optional_string_ok t \<and> spells bs c (optional_string_bytes t) \<and> c' = c + length (optional_string_bytes t)"
      then show "decode_optional_string bs c = Ok (t, c')"
        using Some decode_optional_string_Some [of s bs c]
        by (simp add: optional_string_ok_def optional_string_bytes_def encode_optional_string_def)
    qed
  qed
qed


definition source_meta_ok :: "SourceMetaPayload \<Rightarrow> bool" where
  "source_meta_ok p \<longleftrightarrow>
     length (sm_source_hash p) = SOURCE_HASH_LEN \<and> optional_string_ok (sm_mime p) \<and> optional_string_ok (sm_label p)"

lemma source_meta_encode_iff:
  assumes "source_meta_ok p"
  shows "source_meta_encode p = Ok (sm_source_hash p @ [SourceKind_tag (sm_source_kind p)] @ le64 (sm_source_len p)
    @ optional_string_bytes (sm_mime p) @ optional_string_bytes (sm_label p))"
proof -
  have "optional_string_len t = Ok (case t of None \<Rightarrow> OPTIONAL_STRING_NONE_LEN | Some s \<Rightarrow> of_nat (length s))"
    if "optional_string_ok t" for t
    using that by (simp add: optional_string_len_iff optional_string_ok_def NONE_LEN_eq split: option.splits)
  then show ?thesis using assms by (simp add: source_meta_encode_def source_meta_ok_def optional_string_bytes_def)
qed

lemma spells_33: "length h = 32 \<Longrightarrow> spells bs 0 (h @ xs) \<longleftrightarrow> h = take 32 bs \<and> 32 \<le> length bs \<and> spells bs 32 xs"
  using spells_length [of bs 0 h] by (auto simp: spells_def [of bs 0 h])

text \<open>A SourceMeta payload decodes exactly when its bytes are the encoding of the payload it yields.\<close>

theorem source_meta_bytes_canonical:
  "source_meta_decode bs = Ok p \<longleftrightarrow> source_meta_ok p \<and> source_meta_encode p = Ok bs"
proof -
  let ?enc = "\<lambda>p. sm_source_hash p @ [SourceKind_tag (sm_source_kind p)] @ le64 (sm_source_len p)
    @ optional_string_bytes (sm_mime p) @ optional_string_bytes (sm_label p)"
  have two: "2 \<le> length (optional_string_bytes t)" for t
    by (simp add: optional_string_bytes_def encode_optional_string_def)
  have enc: "spells bs 0 (?enc p) \<longleftrightarrow> sm_source_hash p = take 32 bs \<and> 32 \<le> length bs
      \<and> spells bs 32 [SourceKind_tag (sm_source_kind p)] \<and> spells bs 33 (le64 (sm_source_len p))
      \<and> spells bs 41 (optional_string_bytes (sm_mime p))
      \<and> spells bs (41 + length (optional_string_bytes (sm_mime p))) (optional_string_bytes (sm_label p))"
    if "length (sm_source_hash p) = 32"
    unfolding spells_33 [OF that] by (simp add: spells_Cons [of bs 32 "SourceKind_tag _" "_ @ _"])
  have "source_meta_decode bs = Ok p \<longleftrightarrow> 45 \<le> length bs \<and> bs ! 32 = SourceKind_tag (sm_source_kind p)
      \<and> (\<exists>c. decode_optional_string bs 41 = Ok (sm_mime p, c) \<and> decode_optional_string bs c = Ok (sm_label p, length bs))
      \<and> sm_source_hash p = take 32 bs \<and> sm_source_len p = of_le64 (slice 33 41 bs)"
    by (cases p) (auto simp: source_meta_decode_def SOURCE_HASH_LEN_def SourceKind_from_tag_iff)
  also have "\<dots> \<longleftrightarrow> source_meta_ok p \<and> spells bs 0 (?enc p) \<and> length (?enc p) = length bs"
  proof (cases "length (sm_source_hash p) = 32")
    case True
    show ?thesis unfolding enc [OF True]
      using two [of "sm_mime p"] two [of "sm_label p"] True
      by (auto simp: opt_string.read_iff source_meta_ok_def SOURCE_HASH_LEN_def spells_u8 spells_le64)
  qed (auto simp: source_meta_ok_def SOURCE_HASH_LEN_def)
  also have "\<dots> \<longleftrightarrow> source_meta_ok p \<and> bs = ?enc p" by (simp only: spells_whole)
  also have "\<dots> \<longleftrightarrow> source_meta_ok p \<and> source_meta_encode p = Ok bs" by (auto simp: source_meta_encode_iff)
  finally show ?thesis .
qed

section \<open>What a source hash identifies\<close>

text \<open>No collision of the hash function between two inputs.\<close>

definition no_collision :: "sha \<Rightarrow> bytes \<Rightarrow> bytes \<Rightarrow> bool" where
  "no_collision sha x y \<longleftrightarrow> (sha x = sha y \<longrightarrow> x = y)"

definition mime_text :: "bytes option \<Rightarrow> bytes" where
  "mime_text m = (case m of None \<Rightarrow> [] | Some s \<Rightarrow> s)"

lemma source_hash_bytes_eq:
  "source_hash_bytes kind mime bs =
     SOURCE_HASH_DOMAIN @ [SOURCE_HASH_VERSION] @ [SourceKind_tag kind]
       @ le32 (of_nat (length (mime_text mime))) @ mime_text mime @ le64 (of_nat (length bs)) @ bs"
  by (cases mime) (simp_all add: source_hash_bytes_def mime_text_def)

lemma source_hash_bytes_inject:
  assumes "length (mime_text m) < 2 ^ 32" and "length (mime_text m') < 2 ^ 32"
  shows "source_hash_bytes k m x = source_hash_bytes k' m' y \<longleftrightarrow> k = k' \<and> mime_text m = mime_text m' \<and> x = y"
proof
  assume "source_hash_bytes k m x = source_hash_bytes k' m' y"
  then have "SourceKind_tag k = SourceKind_tag k'"
    and len: "le32 (of_nat (length (mime_text m))) = le32 (of_nat (length (mime_text m')))"
    and rest: "mime_text m @ le64 (of_nat (length x)) @ x = mime_text m' @ le64 (of_nat (length y)) @ y"
    by (simp_all add: source_hash_bytes_eq append_eq_append_conv)
  moreover have "length (mime_text m) = length (mime_text m')"
    using len assms by (metis le_inject(2) unat_of_nat_u32)
  ultimately show "k = k' \<and> mime_text m = mime_text m' \<and> x = y" by (auto simp: append_eq_append_conv)
qed (simp add: source_hash_bytes_eq)

text \<open>Short of a collision of SHA-256, two sources have the same hash exactly when kind, bytes and MIME type agree,
  where a missing MIME type counts as the empty one.\<close>

theorem source_hash_identifies_source:
  assumes "no_collision sha (source_hash_bytes k m x) (source_hash_bytes k' m' y)"
    and "length (mime_text m) < 2 ^ 32" and "length (mime_text m') < 2 ^ 32"
  shows "compute_source_hash sha k m x = compute_source_hash sha k' m' y \<longleftrightarrow>
    k = k' \<and> mime_text m = mime_text m' \<and> x = y"
  using assms(1) source_hash_bytes_inject [OF assms(2,3)]
  by (auto simp: compute_source_hash_def no_collision_def source_hash_bytes_eq)

lemma source_hash_identifies_source_witness:
  "compute_source_hash (\<lambda>x. x) Text None [1] = compute_source_hash (\<lambda>x. x) Text (Some []) [1]"
  using source_hash_identifies_source [of "\<lambda>x. x" Text None "[1]" Text "Some []" "[1]"]
  by (simp add: no_collision_def mime_text_def)

section \<open>Lines of a text\<close>

text \<open>The lines of a text whose line ends are CR LF, CR or LF.\<close>

definition cons_first :: "'a \<Rightarrow> 'a list list \<Rightarrow> 'a list list" where
  "cons_first c ls = (case ls of [] \<Rightarrow> [[c]] | l # ls \<Rightarrow> (c # l) # ls)"

fun text_lines :: "bytes \<Rightarrow> bytes list" where
  "text_lines (c # d # s) =
     (if c = 0x0D \<and> d = 0x0A then [] # text_lines s
      else if c \<in> {0x0D, 0x0A} then [] # text_lines (d # s)
      else cons_first c (text_lines (d # s)))"
| "text_lines [c] = (if c \<in> {0x0D, 0x0A} then [[], []] else [[c]])"
| "text_lines [] = [[]]"

fun unlines :: "bytes list \<Rightarrow> bytes" where
  "unlines (l # m # ls) = l @ 0x0A # unlines (m # ls)"
| "unlines [l] = l"
| "unlines [] = []"

lemma text_lines_nonempty [simp]: "text_lines s \<noteq> []"
  by (induction s rule: text_lines.induct) (auto simp: cons_first_def split: list.splits)

lemma unlines_Cons: "ls \<noteq> [] \<Longrightarrow> unlines (l # ls) = l @ 0x0A # unlines ls"
  by (cases ls) simp_all

lemma unlines_cons_first: "ls \<noteq> [] \<Longrightarrow> unlines (cons_first c ls) = c # unlines ls"
  by (cases ls rule: unlines.cases) (simp_all add: cons_first_def)

lemma canonical_lines: "canonicalize_text_bytes s = unlines (text_lines s)"
proof (induction s rule: text_lines.induct)
  case (1 c d s)
  then show ?case
    by (auto simp: canonicalize_text_bytes_def replace_cr_def unlines_Cons unlines_cons_first)
qed (simp_all add: canonicalize_text_bytes_def replace_cr_def)

definition line_ok :: "bytes \<Rightarrow> bool" where
  "line_ok l \<longleftrightarrow> set l \<inter> {0x0D, 0x0A} = {}"

lemma text_lines_ok: "\<forall>l \<in> set (text_lines s). line_ok l"
proof (induction s rule: text_lines.induct)
  case (1 c d s)
  then show ?case by (auto simp: cons_first_def line_ok_def split: list.splits)
qed (simp_all add: line_ok_def)

lemma text_lines_line: "line_ok l \<Longrightarrow> text_lines l = [l]"
proof (induction l rule: text_lines.induct)
  case (1 c d s)
  then show ?case by (simp add: line_ok_def cons_first_def)
qed (simp_all add: line_ok_def)

lemma text_lines_line_end: "line_ok l \<Longrightarrow> text_lines (l @ 0x0A # s) = l # text_lines s"
proof (induction l)
  case Nil
  then show ?case by (cases s) simp_all
next
  case (Cons c l)
  then have "text_lines (l @ 0x0A # s) = l # text_lines s" and "c \<noteq> 0x0D" "c \<noteq> 0x0A" by (simp_all add: line_ok_def)
  then show ?case by (cases l) (simp_all add: cons_first_def)
qed

lemma text_lines_unlines: "ls \<noteq> [] \<Longrightarrow> \<forall>l \<in> set ls. line_ok l \<Longrightarrow> text_lines (unlines ls) = ls"
  by (induction ls rule: unlines.induct) (simp_all add: text_lines_line text_lines_line_end)

lemma lines_of_canonical: "text_lines (canonicalize_text_bytes s) = text_lines s"
  unfolding canonical_lines by (rule text_lines_unlines) (simp_all add: text_lines_ok)

lemma canonical_eq_iff: "canonicalize_text_bytes s = canonicalize_text_bytes t \<longleftrightarrow> text_lines s = text_lines t"
  by (metis canonical_lines lines_of_canonical)

lemma canonicalize_idem: "canonicalize_text_bytes (canonicalize_text_bytes s) = canonicalize_text_bytes s"
  by (simp add: canonical_eq_iff lines_of_canonical)

text \<open>Two prepared texts have the same source hash exactly when they have the same lines, however their lines end;
  their prepared bytes then agree too, so the original line ends cannot be recovered.\<close>

theorem text_hash_identifies_lines:
  assumes "no_collision sha (source_hash_bytes Text None (canonicalize_text_bytes s))
    (source_hash_bytes Text None (canonicalize_text_bytes t))"
  shows "(sd_source_hash (ps_descriptor (prepare_text_source sha s label)) =
      sd_source_hash (ps_descriptor (prepare_text_source sha t label')) \<longleftrightarrow> text_lines s = text_lines t)
    \<and> (ps_canonical_bytes (prepare_text_source sha s label) = ps_canonical_bytes (prepare_text_source sha t label')
      \<longleftrightarrow> text_lines s = text_lines t)"
  using assms source_hash_bytes_inject [of None None Text "canonicalize_text_bytes s" Text "canonicalize_text_bytes t"]
  by (auto simp: prepare_text_source_def compute_source_hash_def no_collision_def mime_text_def canonical_eq_iff Let_def)

lemma text_hash_identifies_lines_witness:
  "sd_source_hash (ps_descriptor (prepare_text_source (\<lambda>x. x) [0x61, 0x0D, 0x0A] None))
     = sd_source_hash (ps_descriptor (prepare_text_source (\<lambda>x. x) [0x61, 0x0A] None))
   \<and> text_lines [0x61, 0x0D, 0x0A] = [[0x61], []]"
  using text_hash_identifies_lines [of "\<lambda>x. x" "[0x61, 0x0D, 0x0A]" "[0x61, 0x0A]" None None]
  by (simp add: no_collision_def cons_first_def)

text \<open>The preprocessing is called reversible, but two different texts have the same prepared source.\<close>

lemma preprocessing_not_reversible:
  "prepare_text_source sha [0x61, 0x0D, 0x0A, 0x62, 0x0A] label = prepare_text_source sha [0x61, 0x0A, 0x62, 0x0D, 0x0A] label"
  by (simp add: prepare_text_source_def canonicalize_text_bytes_def replace_cr_def text_preprocess_steps_def)

end
