(* ===== verification/Pulzz_Codec.thy ===== *)
theory Pulzz_Codec
  imports Pulzz_Source Pulzz_Protocol Pulzz_Columnar
begin

text \<open>
  The data-plane codec (\<open>shared_protocol/src/codec.rs\<close>): the exact copy, and the packed form in which blocks
  of 256 bytes are described by a few codes of a quantized network, entropy coded, with the residuals that
  make the decoding exact.  The networks are tables compiled into the binary and the entropy coder is the
  constriction crate: both are parameters.  What is relied on is \<open>ans_ok\<close>, that the coder inverts itself, and
  \<open>family_ok\<close>, the shape of the tables.  The one floating-point comparison, which decides between two
  residual formats, is a function of the tables, so the results hold whichever way it goes.
\<close>

section \<open>Vocabulary\<close>

type_synonym i8 = "8 word"
type_synonym i16 = "16 word"
type_synonym i32 = "32 word"
type_synonym PackId = u16

definition DIRECT_EXACT_HEADER_LEN :: nat where "DIRECT_EXACT_HEADER_LEN = 1"
definition PACKED_PAYLOAD_VERSION :: u8 where "PACKED_PAYLOAD_VERSION = 2"
definition PACKED_PAYLOAD_HEADER_LEN :: nat where "PACKED_PAYLOAD_HEADER_LEN = 1 + 1 + 2 + 4 + 2 + 4 + 4"
definition BLOCK_LEN :: nat where "BLOCK_LEN = 256"
definition PACKED_PACK16_ID :: PackId where "PACKED_PACK16_ID = 0x0010"
definition PACKED_PACK32_ID :: PackId where "PACKED_PACK32_ID = 0x0020"
definition PACKED_PACK64_ID :: PackId where "PACKED_PACK64_ID = 0x0040"
definition PACKED_PACK128_ID :: PackId where "PACKED_PACK128_ID = 0x0080"
definition PREDICTED_PACK_FALLBACK :: PackId where "PREDICTED_PACK_FALLBACK = PACKED_PACK32_ID"
definition SMALL_PACKED_WIN_BYTES :: nat where "SMALL_PACKED_WIN_BYTES = 8"

datatype DataPlaneCodecPreference = Adaptive | DirectExactOnly

definition forces_direct_exact :: "DataPlaneCodecPreference \<Rightarrow> bool" where
  "forces_direct_exact p \<longleftrightarrow> p = DirectExactOnly"

datatype CodecDecision = CD_DirectExact | CD_PackedExact | CD_PredictedExact

datatype ResidualCodingMode = RM_None | RM_AllZero | RM_SmallSignedRans | RM_SparsePositions | RM_LiteralRaw

datatype CodecError =
    TruncatedPayload nat nat
  | PayloadLenMismatch nat nat
  | MissingPredictor
  | UnsupportedCodecMode
  | UnsupportedPackId PackId
  | CodecUnknownSourceKind u8
  | InvalidPackedVersion u8
  | InvalidBlockCount
  | InvalidCodeCount nat nat
  | InvalidResidualTag u8
  | InvalidLayerSpec
  | AssetLoad string
  | EntropyCoding string

text \<open>
  The entropy coder over a model: encoding gives words or the rendered error; decoding fails with \<open>None\<close>
  when the words cannot be the compressed form of anything, or with the rendered error of a symbol.
\<close>

record 'm ans_lib =
  ans_encode :: "'m \<Rightarrow> nat list \<Rightarrow> string + u32 list"
  ans_decode :: "'m \<Rightarrow> u32 list \<Rightarrow> nat \<Rightarrow> string option + nat list"

definition ans_ok :: "'m ans_lib \<Rightarrow> bool" where
  "ans_ok a \<longleftrightarrow> (\<forall>m symbols ws. ans_encode a m symbols = Ok ws \<longrightarrow> ans_decode a m ws (length symbols) = Ok symbols)"

section \<open>Tables\<close>

record LinearLayerAsset =
  ll_in_dim :: nat
  ll_out_dim :: nat
  ll_input_zero_point :: i16
  ll_output_zero_point :: i16
  ll_divisor :: i32
  ll_apply_relu :: bool
  ll_clamp_min :: i16
  ll_clamp_max :: i16
  ll_weights :: "i8 list"
  ll_bias :: "i32 list"

record 'm ProfileAsset =
  pa_lane_profile_id :: PackId
  pa_latent_dim :: nat
  pa_fsq_levels :: "i16 list"
  pa_latent_model :: 'm
  pa_analysis_head :: LinearLayerAsset
  pa_synthesis_head :: LinearLayerAsset

text \<open>
  \<open>ra_sparse_enough\<close> stands for \<open>count as f32 * 100.0 / len as f32 <= sparse_threshold_percent\<close>.
\<close>

record 'm ResidualAsset =
  ra_all_zero_tag :: u8
  ra_small_signed_rans_tag :: u8
  ra_sparse_positions_tag :: u8
  ra_literal_raw_tag :: u8
  ra_small_range :: i16
  ra_sparse_enough :: "nat \<Rightarrow> nat \<Rightarrow> bool"
  ra_small_signed_model :: 'm

record 'm FamilyAsset =
  fa_residual :: "'m ResidualAsset"
  fa_analysis_trunk :: "LinearLayerAsset list"
  fa_synthesis_trunk :: "LinearLayerAsset list"
  fa_profiles :: "'m ProfileAsset list"

record 'm EmbeddedAssets =
  ea_text :: "'m FamilyAsset"
  ea_json :: "'m FamilyAsset"
  ea_binary :: "'m FamilyAsset"

text \<open>The tables as deserialized; probabilities are turned into a model by \<open>build\<close>.\<close>

record 'p RawProfileAsset =
  rp_lane_profile_id :: PackId
  rp_latent_dim :: nat
  rp_fsq_levels :: "i16 list"
  rp_latent_probabilities :: "'p list"
  rp_analysis_head :: LinearLayerAsset
  rp_synthesis_head :: LinearLayerAsset

record 'p RawResidualAsset =
  rr_all_zero_tag :: u8
  rr_small_signed_rans_tag :: u8
  rr_sparse_positions_tag :: u8
  rr_literal_raw_tag :: u8
  rr_small_range :: i16
  rr_sparse_enough :: "nat \<Rightarrow> nat \<Rightarrow> bool"
  rr_small_signed_probabilities :: "'p list"

record 'p RawFamilyAsset =
  rf_format_version :: u8
  rf_block_len :: nat
  rf_residual :: "'p RawResidualAsset"
  rf_analysis_trunk :: "LinearLayerAsset list"
  rf_synthesis_trunk :: "LinearLayerAsset list"
  rf_profiles :: "'p RawProfileAsset list"

definition layer_from_raw :: "LinearLayerAsset \<Rightarrow> CodecError + LinearLayerAsset" where
  "layer_from_raw raw =
     (if sint (ll_divisor raw) \<le> 0 \<or> length (ll_weights raw) \<noteq> ll_in_dim raw * ll_out_dim raw
         \<or> length (ll_bias raw) \<noteq> ll_out_dim raw
      then Err InvalidLayerSpec else Ok raw)"

definition build_entropy_model :: "('p list \<Rightarrow> string + 'm) \<Rightarrow> 'p list \<Rightarrow> CodecError + 'm" where
  "build_entropy_model build probabilities =
     (if probabilities = [] then Err (AssetLoad ''empty probability table'')
      else map_err (\<lambda>e. AssetLoad (''invalid entropy table: '' @ e)) (build probabilities))"

definition residual_from_raw :: "('p list \<Rightarrow> string + 'm) \<Rightarrow> 'p RawResidualAsset \<Rightarrow> CodecError + 'm ResidualAsset" where
  "residual_from_raw build raw =
     (if sint (rr_small_range raw) \<le> 0 \<or> rr_small_signed_probabilities raw = []
      then Err (AssetLoad ''invalid residual probabilities'')
      else and_then (build_entropy_model build (rr_small_signed_probabilities raw)) (\<lambda>model.
        Ok \<lparr>ra_all_zero_tag = rr_all_zero_tag raw, ra_small_signed_rans_tag = rr_small_signed_rans_tag raw,
            ra_sparse_positions_tag = rr_sparse_positions_tag raw, ra_literal_raw_tag = rr_literal_raw_tag raw,
            ra_small_range = rr_small_range raw, ra_sparse_enough = rr_sparse_enough raw,
            ra_small_signed_model = model\<rparr>))"

definition profile_from_raw :: "('p list \<Rightarrow> string + 'm) \<Rightarrow> 'p RawProfileAsset \<Rightarrow> CodecError + 'm ProfileAsset" where
  "profile_from_raw build raw =
     (if length (rp_fsq_levels raw) \<noteq> 16 \<or> length (rp_latent_probabilities raw) \<noteq> 16
      then Err (AssetLoad ''invalid fsq asset probabilities'')
      else
        and_then (build_entropy_model build (rp_latent_probabilities raw)) (\<lambda>model.
        and_then (layer_from_raw (rp_analysis_head raw)) (\<lambda>analysis_head.
        and_then (layer_from_raw (rp_synthesis_head raw)) (\<lambda>synthesis_head.
          Ok \<lparr>pa_lane_profile_id = rp_lane_profile_id raw, pa_latent_dim = rp_latent_dim raw,
              pa_fsq_levels = rp_fsq_levels raw, pa_latent_model = model, pa_analysis_head = analysis_head,
              pa_synthesis_head = synthesis_head\<rparr>))))"

definition parse_family_asset ::
  "(string \<Rightarrow> string + 'p RawFamilyAsset) \<Rightarrow> ('p list \<Rightarrow> string + 'm) \<Rightarrow> string \<Rightarrow> CodecError + 'm FamilyAsset" where
  "parse_family_asset from_json build json =
     and_then (map_err AssetLoad (from_json json)) (\<lambda>raw.
       if rf_format_version raw \<noteq> PACKED_PAYLOAD_VERSION \<or> rf_block_len raw \<noteq> BLOCK_LEN
       then Err (AssetLoad (''unexpected asset shape: version='' @ show_nat (unat (rf_format_version raw))
         @ '' block_len='' @ show_nat (rf_block_len raw)))
       else
         and_then (try_map layer_from_raw (rf_analysis_trunk raw)) (\<lambda>analysis_trunk.
         and_then (try_map layer_from_raw (rf_synthesis_trunk raw)) (\<lambda>synthesis_trunk.
         and_then (residual_from_raw build (rf_residual raw)) (\<lambda>residual.
         and_then (try_map (profile_from_raw build) (rf_profiles raw)) (\<lambda>profiles.
           Ok \<lparr>fa_residual = residual, fa_analysis_trunk = analysis_trunk,
               fa_synthesis_trunk = synthesis_trunk, fa_profiles = profiles\<rparr>)))))"

definition embedded_assets ::
  "(string \<Rightarrow> string + 'p RawFamilyAsset) \<Rightarrow> ('p list \<Rightarrow> string + 'm) \<Rightarrow> string \<Rightarrow> string \<Rightarrow> string
    \<Rightarrow> CodecError + 'm EmbeddedAssets" where
  "embedded_assets from_json build text_v2 json_v2 binary_v2 =
     and_then (parse_family_asset from_json build text_v2) (\<lambda>text.
     and_then (parse_family_asset from_json build json_v2) (\<lambda>json.
     and_then (parse_family_asset from_json build binary_v2) (\<lambda>binary.
       Ok \<lparr>ea_text = text, ea_json = json, ea_binary = binary\<rparr>)))"

text \<open>\<open>embedded_assets\<close> is computed once; its result, an error or the tables, is the argument \<open>assets\<close> below.\<close>

definition family_asset :: "CodecError + 'm EmbeddedAssets \<Rightarrow> SourceKind \<Rightarrow> CodecError + 'm FamilyAsset" where
  "family_asset assets source_kind =
     and_then assets (\<lambda>a.
       Ok (case compact_asset_kind source_kind of Text \<Rightarrow> ea_text a | Json \<Rightarrow> ea_json a | _ \<Rightarrow> ea_binary a))"

definition profile_asset :: "CodecError + 'm EmbeddedAssets \<Rightarrow> SourceKind \<Rightarrow> PackId \<Rightarrow> CodecError + 'm ProfileAsset" where
  "profile_asset assets source_kind profile =
     and_then (family_asset assets source_kind) (\<lambda>f.
       ok_or (UnsupportedPackId profile) (find (\<lambda>c. pa_lane_profile_id c = profile) (fa_profiles f)))"

section \<open>Blocks and codes\<close>

definition tdiv :: "int \<Rightarrow> int \<Rightarrow> int" where
  "tdiv a b = sgn a * sgn b * (\<bar>a\<bar> div \<bar>b\<bar>)"

definition div_round_i64 :: "int \<Rightarrow> int \<Rightarrow> int" where
  "div_round_i64 v divisor =
     (if v \<ge> 0 then tdiv (v + tdiv divisor 2) divisor else tdiv (v - tdiv divisor 2) divisor)"

definition clamp :: "int \<Rightarrow> int \<Rightarrow> int \<Rightarrow> int" where
  "clamp lo hi v = (if v < lo then lo else if v > hi then hi else v)"

definition layer_output :: "LinearLayerAsset \<Rightarrow> i16 list \<Rightarrow> nat \<Rightarrow> i16" where
  "layer_output layer inputs out_index =
     (let row = slice (out_index * ll_in_dim layer) ((out_index + 1) * ll_in_dim layer) (ll_weights layer);
          acc = foldl (\<lambda>acc (input, weight). acc + (sint input - sint (ll_input_zero_point layer)) * sint weight)
            (sint (ll_bias layer ! out_index)) (zip inputs row);
          v = div_round_i64 acc (sint (ll_divisor layer)) + sint (ll_output_zero_point layer);
          v = (if ll_apply_relu layer \<and> v < 0 then 0 else v) in
      word_of_int (clamp (sint (ll_clamp_min layer)) (sint (ll_clamp_max layer)) v))"

definition apply_layer :: "LinearLayerAsset \<Rightarrow> i16 list \<Rightarrow> CodecError + i16 list" where
  "apply_layer layer inputs =
     (if length inputs \<noteq> ll_in_dim layer then Err InvalidLayerSpec
      else Ok (map (layer_output layer inputs) [0..<ll_out_dim layer]))"

definition apply_layers :: "LinearLayerAsset list \<Rightarrow> i16 list \<Rightarrow> CodecError + i16 list" where
  "apply_layers layers inputs = try_fold (\<lambda>current layer. apply_layer layer current) inputs layers"

definition nearest_fsq_code :: "i16 \<Rightarrow> i16 list \<Rightarrow> u8" where
  "nearest_fsq_code v levels =
     of_nat (fst (foldl (\<lambda>(best_index, best_distance) (i, level).
         let distance = \<bar>sint level - sint v\<bar> in
         if distance < best_distance then (i, distance) else (best_index, best_distance))
       (0, 32767) (enumerate 0 levels)))"

definition pad_block :: "bytes \<Rightarrow> bytes" where
  "pad_block bs = bs @ replicate (BLOCK_LEN - length bs) 0"

definition encode_block_codes :: "'m FamilyAsset \<Rightarrow> 'm ProfileAsset \<Rightarrow> bytes \<Rightarrow> CodecError + u8 list" where
  "encode_block_codes f p block =
     and_then (apply_layers (fa_analysis_trunk f) (map ucast block)) (\<lambda>trunk.
     and_then (apply_layer (pa_analysis_head p) trunk) (\<lambda>latent.
       Ok (map (\<lambda>v. nearest_fsq_code v (pa_fsq_levels p)) latent)))"

definition decode_block_codes :: "'m FamilyAsset \<Rightarrow> 'm ProfileAsset \<Rightarrow> u8 list \<Rightarrow> CodecError + bytes" where
  "decode_block_codes f p codes =
     (if length codes \<noteq> pa_latent_dim p then Err (InvalidCodeCount (pa_latent_dim p) (length codes))
      else
        and_then (apply_layer (pa_synthesis_head p) (map (\<lambda>code. pa_fsq_levels p ! unat code) codes)) (\<lambda>head.
        and_then (apply_layers (fa_synthesis_trunk f) head) (\<lambda>reconstructed.
          Ok (map (\<lambda>v. word_of_int (clamp 0 255 (sint v))) reconstructed))))"

section \<open>The entropy-coded streams\<close>

definition encode_ans_symbols :: "'m ans_lib \<Rightarrow> nat list \<Rightarrow> 'm \<Rightarrow> CodecError + bytes" where
  "encode_ans_symbols ans symbols model =
     (if symbols = [] then Ok []
      else and_then (map_err EntropyCoding (ans_encode ans model symbols)) (\<lambda>compressed.
        Ok (concat (map le32 compressed))))"

definition decode_ans_symbols :: "'m ans_lib \<Rightarrow> bytes \<Rightarrow> nat \<Rightarrow> 'm \<Rightarrow> CodecError + nat list" where
  "decode_ans_symbols ans payload symbol_count model =
     (if symbol_count = 0 then
        if payload = [] then Ok [] else Err (PayloadLenMismatch 0 (length payload))
      else if length payload mod 4 \<noteq> 0
      then Err (PayloadLenMismatch (div_ceil (length payload) 4 * 4) (length payload))
      else map_err (\<lambda>e. EntropyCoding (case e of None \<Rightarrow> ''invalid ans payload'' | Some e \<Rightarrow> e))
        (ans_decode ans model (map of_le32 (chunks 4 payload)) symbol_count))"

text \<open>The encoder of the numbers in a sparse residual is that of the columns; the decoder reports its own errors.\<close>

function codec_decode_varint :: "bytes \<Rightarrow> nat \<Rightarrow> nat \<Rightarrow> u32 \<Rightarrow> CodecError + u32 \<times> nat" where
  "codec_decode_varint bs cursor shift v =
     (if cursor \<ge> length bs then Err (TruncatedPayload (cursor + 1) (length bs))
      else let byte = bs ! cursor; cursor = cursor + 1; v = v OR push_bit shift (ucast (byte AND 0x7F)) in
        if byte AND 0x80 = 0 then Ok (v, cursor)
        else let shift = shift + 7 in
          if shift \<ge> 32 then Err (PayloadLenMismatch 5 cursor)
          else codec_decode_varint bs cursor shift v)"
  by pat_completeness auto
termination by (relation "measure (\<lambda>(bs, cursor, _). length bs - cursor)") auto

declare codec_decode_varint.simps [simp del]

section \<open>Residuals\<close>

text \<open>Bytes as \<open>i8\<close> and back are the same word; \<open>sint\<close> reads it as signed.\<close>

definition byte_at :: "bytes \<Rightarrow> nat \<Rightarrow> u8" where
  "byte_at bs i = (if i < length bs then bs ! i else 0)"

definition wrapping_delta_bytes :: "bytes \<Rightarrow> bytes \<Rightarrow> bytes" where
  "wrapping_delta_bytes current predicted = map (\<lambda>(i, b). b - byte_at predicted i) (enumerate 0 current)"

definition apply_wrapping_delta :: "bytes \<Rightarrow> bytes \<Rightarrow> bytes" where
  "apply_wrapping_delta delta predicted = map (\<lambda>(i, b). b + byte_at predicted i) (enumerate 0 delta)"

definition centered_signed_residuals :: "bytes \<Rightarrow> bytes \<Rightarrow> i8 list" where
  "centered_signed_residuals actual predicted = map (\<lambda>(i, b). b - byte_at predicted i) (enumerate 0 actual)"

definition apply_centered_signed_residuals :: "bytes \<Rightarrow> i8 list \<Rightarrow> bytes" where
  "apply_centered_signed_residuals predicted residual =
     map (\<lambda>(i, b). b + byte_at residual i) (enumerate 0 predicted)"

definition encode_literal_residual :: "i8 list \<Rightarrow> u8 \<Rightarrow> bytes" where
  "encode_literal_residual residual tag = tag # residual"

fun sparse_entries :: "nat option \<Rightarrow> (nat \<times> i8) list \<Rightarrow> bytes" where
  "sparse_entries previous [] = []"
| "sparse_entries previous ((i, v) # entries) =
     (if v = 0 then sparse_entries previous entries
      else encode_varint (of_nat (case previous of None \<Rightarrow> i | Some j \<Rightarrow> i - j - 1)) @ v # sparse_entries (Some i) entries)"

definition encode_sparse_residual :: "i8 list \<Rightarrow> u8 \<Rightarrow> bytes" where
  "encode_sparse_residual residual tag =
     tag # le32 (of_nat (length (filter (\<lambda>v. v \<noteq> 0) residual))) @ sparse_entries None (enumerate 0 residual)"

definition small_signed_symbol :: "i16 \<Rightarrow> i8 \<Rightarrow> nat" where
  "small_signed_symbol small_range v = nat (sint v + sint small_range)"

definition small_signed_value :: "i16 \<Rightarrow> nat \<Rightarrow> i8" where
  "small_signed_value small_range symbol = ucast ((of_nat symbol :: i16) - small_range)"

definition encode_residual_payload :: "'m ans_lib \<Rightarrow> i8 list \<Rightarrow> 'm ResidualAsset \<Rightarrow> CodecError + bytes" where
  "encode_residual_payload ans residual spec =
     (if \<forall>v \<in> set residual. v = 0 then Ok [ra_all_zero_tag spec]
      else if \<forall>v \<in> set residual. \<bar>sint v\<bar> \<le> sint (ra_small_range spec) then
        and_then (encode_ans_symbols ans (map (small_signed_symbol (ra_small_range spec)) residual)
          (ra_small_signed_model spec)) (\<lambda>encoded. Ok (ra_small_signed_rans_tag spec # encoded))
      else if ra_sparse_enough spec (length (filter (\<lambda>v. v \<noteq> 0) residual)) (max 1 (length residual))
      then Ok (encode_sparse_residual residual (ra_sparse_positions_tag spec))
      else Ok (encode_literal_residual residual (ra_literal_raw_tag spec)))"

fun sparse_residual_loop ::
  "bytes \<Rightarrow> nat \<Rightarrow> nat \<Rightarrow> nat option \<Rightarrow> nat \<Rightarrow> i8 list \<Rightarrow> CodecError + nat \<times> i8 list" where
  "sparse_residual_loop payload expected_len 0 previous cursor residual = Ok (cursor, residual)"
| "sparse_residual_loop payload expected_len (Suc entries) previous cursor residual =
     and_then (codec_decode_varint payload cursor 0 0) (\<lambda>(delta, cursor).
       let i = (case previous of None \<Rightarrow> unat delta | Some j \<Rightarrow> j + unat delta + 1) in
       if i \<ge> expected_len \<or> cursor \<ge> length payload
       then Err (PayloadLenMismatch expected_len (length payload))
       else sparse_residual_loop payload expected_len entries (Some i) (cursor + 1)
         (residual[i := payload ! cursor]))"

definition decode_sparse_residual :: "bytes \<Rightarrow> nat \<Rightarrow> CodecError + i8 list" where
  "decode_sparse_residual payload expected_len =
     (if length payload < 4 then Err (TruncatedPayload 4 (length payload))
      else and_then (sparse_residual_loop payload expected_len (unat (of_le32 (take 4 payload))) None 4
          (replicate expected_len 0)) (\<lambda>(cursor, residual).
        if cursor \<noteq> length payload then Err (PayloadLenMismatch cursor (length payload)) else Ok residual))"

definition decode_residual_payload :: "'m ans_lib \<Rightarrow> bytes \<Rightarrow> nat \<Rightarrow> 'm ResidualAsset \<Rightarrow> CodecError + i8 list" where
  "decode_residual_payload ans payload expected_len spec =
     (case payload of
        [] \<Rightarrow> Err (TruncatedPayload 1 0)
      | tag # rest \<Rightarrow>
          if tag = ra_all_zero_tag spec then Ok (replicate expected_len 0)
          else if tag = ra_small_signed_rans_tag spec then
            and_then (decode_ans_symbols ans rest expected_len (ra_small_signed_model spec)) (\<lambda>symbols.
              Ok (map (small_signed_value (ra_small_range spec)) symbols))
          else if tag = ra_sparse_positions_tag spec then decode_sparse_residual rest expected_len
          else if tag = ra_literal_raw_tag spec then
            if length rest \<noteq> expected_len then Err (PayloadLenMismatch expected_len (length rest)) else Ok rest
          else Err (InvalidResidualTag tag))"

definition classify_residual_payload_tag :: "u8 \<Rightarrow> 'm ResidualAsset \<Rightarrow> CodecError + ResidualCodingMode" where
  "classify_residual_payload_tag tag spec =
     (if tag = ra_all_zero_tag spec then Ok RM_AllZero
      else if tag = ra_small_signed_rans_tag spec then Ok RM_SmallSignedRans
      else if tag = ra_sparse_positions_tag spec then Ok RM_SparsePositions
      else if tag = ra_literal_raw_tag spec then Ok RM_LiteralRaw
      else Err (InvalidResidualTag tag))"

section \<open>Packed payloads\<close>

definition build_packed_payload :: "SourceKind \<Rightarrow> PackId \<Rightarrow> u32 \<Rightarrow> u16 \<Rightarrow> bytes \<Rightarrow> bytes \<Rightarrow> bytes" where
  "build_packed_payload family profile original_len block_count code_bytes residual_bytes =
     SourceKind_tag family # PACKED_PAYLOAD_VERSION # le16 profile @ le32 original_len @ le16 block_count
       @ le32 (of_nat (length code_bytes)) @ le32 (of_nat (length residual_bytes)) @ code_bytes @ residual_bytes"

record PackedHeader =
  ph_family :: SourceKind
  ph_profile :: PackId
  ph_original_len :: u32
  ph_block_count :: u16
  ph_code_len :: u32
  ph_residual_len :: u32

definition parse_packed_payload_header :: "bytes \<Rightarrow> CodecError + PackedHeader" where
  "parse_packed_payload_header payload =
     (if length payload < PACKED_PAYLOAD_HEADER_LEN
      then Err (TruncatedPayload PACKED_PAYLOAD_HEADER_LEN (length payload))
      else and_then (map_err CodecUnknownSourceKind (SourceKind_from_tag (payload ! 0))) (\<lambda>family.
        if payload ! 1 \<noteq> PACKED_PAYLOAD_VERSION then Err (InvalidPackedVersion (payload ! 1))
        else let original_len = of_le32 (slice 4 8 payload); block_count = of_le16 (slice 8 10 payload) in
          if original_len > 0 \<and> block_count = 0 then Err InvalidBlockCount
          else Ok \<lparr>ph_family = family, ph_profile = of_le16 (slice 2 4 payload), ph_original_len = original_len,
            ph_block_count = block_count, ph_code_len = of_le32 (slice 10 14 payload),
            ph_residual_len = of_le32 (slice 14 18 payload)\<rparr>))"

definition encode_block :: "'m FamilyAsset \<Rightarrow> 'm ProfileAsset \<Rightarrow> bytes \<Rightarrow> CodecError + u8 list \<times> bytes" where
  "encode_block f p block_bytes =
     and_then (encode_block_codes f p (pad_block block_bytes)) (\<lambda>code_symbols.
     and_then (decode_block_codes f p code_symbols) (\<lambda>reconstructed. Ok (code_symbols, reconstructed)))"

definition encode_packed_payload ::
  "'m ans_lib \<Rightarrow> CodecError + 'm EmbeddedAssets \<Rightarrow> SourceKind \<Rightarrow> PackId \<Rightarrow> bytes \<Rightarrow> CodecError + bytes" where
  "encode_packed_payload ans assets family profile bs =
     and_then (family_asset assets family) (\<lambda>f.
     and_then (profile_asset assets family profile) (\<lambda>p.
       let block_count = div_ceil (length bs) BLOCK_LEN in
       if block_count = 0
       then Ok (build_packed_payload family profile 0 0 [] [ra_all_zero_tag (fa_residual f)])
       else
         and_then (try_map (encode_block f p) (chunks BLOCK_LEN bs)) (\<lambda>blocks.
           let encoded_symbols = concat (map (\<lambda>(codes, _). map unat codes) blocks);
               predicted = take (length bs) (concat (map snd blocks));
               residual = centered_signed_residuals bs predicted in
           and_then (encode_ans_symbols ans encoded_symbols (pa_latent_model p)) (\<lambda>code_payload.
           and_then (encode_residual_payload ans residual (fa_residual f)) (\<lambda>residual_payload.
             Ok (build_packed_payload family profile (of_nat (length bs)) (of_nat block_count)
               code_payload residual_payload))))))"

definition decode_packed_payload ::
  "'m ans_lib \<Rightarrow> CodecError + 'm EmbeddedAssets \<Rightarrow> bytes \<Rightarrow> CodecError + ExactStateMaterial" where
  "decode_packed_payload ans assets payload =
     and_then (parse_packed_payload_header payload) (\<lambda>h.
     and_then (family_asset assets (ph_family h)) (\<lambda>f.
     and_then (profile_asset assets (ph_family h) (ph_profile h)) (\<lambda>p.
       let code_end = PACKED_PAYLOAD_HEADER_LEN + unat (ph_code_len h);
           residual_end = code_end + unat (ph_residual_len h);
           original_len = unat (ph_original_len h);
           code_symbol_count = unat (ph_block_count h) * pa_latent_dim p in
       if length payload \<noteq> residual_end then Err (PayloadLenMismatch residual_end (length payload))
       else
         and_then (decode_ans_symbols ans (slice PACKED_PAYLOAD_HEADER_LEN code_end payload) code_symbol_count
           (pa_latent_model p)) (\<lambda>code_symbols.
         if length code_symbols \<noteq> code_symbol_count
         then Err (InvalidCodeCount code_symbol_count (length code_symbols))
         else
           and_then (try_map (\<lambda>chunk. decode_block_codes f p (map of_nat chunk))
             (chunks (pa_latent_dim p) code_symbols)) (\<lambda>blocks.
           and_then (decode_residual_payload ans (slice code_end residual_end payload) original_len (fa_residual f))
             (\<lambda>residual.
               Ok \<lparr>esm_source_kind = ph_family h,
                   esm_exact_bytes = apply_centered_signed_residuals (take original_len (concat blocks)) residual\<rparr>))))))"

section \<open>Payloads of the data plane\<close>

definition encode_direct_exact_payload :: "ExactStateMaterial \<Rightarrow> bytes" where
  "encode_direct_exact_payload block = SourceKind_tag (esm_source_kind block) # esm_exact_bytes block"

definition decode_direct_exact_payload :: "bytes \<Rightarrow> CodecError + ExactStateMaterial" where
  "decode_direct_exact_payload payload =
     (if length payload < DIRECT_EXACT_HEADER_LEN
      then Err (TruncatedPayload DIRECT_EXACT_HEADER_LEN (length payload))
      else and_then (map_err CodecUnknownSourceKind (SourceKind_from_tag (payload ! 0))) (\<lambda>family.
        Ok \<lparr>esm_source_kind = family, esm_exact_bytes = drop 1 payload\<rparr>))"

definition decode_data_payload ::
  "'m ans_lib \<Rightarrow> CodecError + 'm EmbeddedAssets \<Rightarrow> bytes \<Rightarrow> CodecMode \<Rightarrow> ExactStateMaterial option
    \<Rightarrow> CodecError + ExactStateMaterial" where
  "decode_data_payload ans assets payload mode predicted =
     (case mode of
        CM_DirectExact \<Rightarrow> decode_direct_exact_payload payload
      | CM_PackedExact \<Rightarrow> decode_packed_payload ans assets payload
      | CM_PredictedExact \<Rightarrow>
          and_then (ok_or MissingPredictor predicted) (\<lambda>predicted.
          and_then (decode_packed_payload ans assets payload) (\<lambda>delta.
            Ok \<lparr>esm_source_kind = esm_source_kind delta,
                esm_exact_bytes = apply_wrapping_delta (esm_exact_bytes delta) (esm_exact_bytes predicted)\<rparr>))
      | CM_None \<Rightarrow> Ok \<lparr>esm_source_kind = Binary, esm_exact_bytes = payload\<rparr>)"

record PayloadInspection =
  pi_source_kind :: SourceKind
  pi_original_len :: nat
  pi_residual_mode :: ResidualCodingMode

definition inspect_data_payload :: "CodecError + 'm EmbeddedAssets \<Rightarrow> bytes \<Rightarrow> CodecMode \<Rightarrow> CodecError + PayloadInspection" where
  "inspect_data_payload assets payload mode =
     (case mode of
        CM_DirectExact \<Rightarrow>
          (if length payload < DIRECT_EXACT_HEADER_LEN
           then Err (TruncatedPayload DIRECT_EXACT_HEADER_LEN (length payload))
           else and_then (map_err CodecUnknownSourceKind (SourceKind_from_tag (payload ! 0))) (\<lambda>family.
             Ok \<lparr>pi_source_kind = family, pi_original_len = length payload - DIRECT_EXACT_HEADER_LEN,
                 pi_residual_mode = RM_None\<rparr>))
      | CM_None \<Rightarrow> Ok \<lparr>pi_source_kind = Binary, pi_original_len = length payload, pi_residual_mode = RM_None\<rparr>
      | _ \<Rightarrow>
          and_then (parse_packed_payload_header payload) (\<lambda>h.
            let code_end = PACKED_PAYLOAD_HEADER_LEN + unat (ph_code_len h);
                residual_end = code_end + unat (ph_residual_len h);
                residual = slice code_end residual_end payload in
            if length payload \<noteq> residual_end then Err (PayloadLenMismatch residual_end (length payload))
            else
              and_then (family_asset assets (ph_family h)) (\<lambda>f.
              and_then (if residual = [] then Err (TruncatedPayload (code_end + 1) (length payload)) else Ok (hd residual))
                (\<lambda>tag.
              and_then (classify_residual_payload_tag tag (fa_residual f)) (\<lambda>residual_mode.
                Ok \<lparr>pi_source_kind = ph_family h, pi_original_len = unat (ph_original_len h),
                    pi_residual_mode = residual_mode\<rparr>)))))"

section \<open>The choice of a payload\<close>

definition candidate_profiles :: "nat \<Rightarrow> PackId list" where
  "candidate_profiles len =
     (if len \<le> 128 then []
      else if len \<le> 1024 then [PACKED_PACK16_ID, PACKED_PACK32_ID]
      else if len \<le> 8 * 1024 then [PACKED_PACK32_ID, PACKED_PACK64_ID]
      else [PACKED_PACK64_ID, PACKED_PACK128_ID])"

definition packed_candidate_wins :: "nat \<Rightarrow> nat \<Rightarrow> nat \<Rightarrow> bool" where
  "packed_candidate_wins candidate_len copy_len minimum_win \<longleftrightarrow> candidate_len + minimum_win \<le> copy_len"

definition minimum_packed_win :: "nat \<Rightarrow> nat \<Rightarrow> nat" where
  "minimum_packed_win copy_len exact_len =
     (if exact_len \<le> 1024 then SMALL_PACKED_WIN_BYTES else max 1 (div_ceil copy_len 100))"

record EncodedPayload =
  ep_mode :: CodecMode
  ep_payload :: bytes
  ep_runtime_object :: ChpmtObject

definition runtime_object_from_exact_bytes :: "sha \<Rightarrow> SourceKind \<Rightarrow> ObjectKind \<Rightarrow> bytes \<Rightarrow> ChpmtObject" where
  "runtime_object_from_exact_bytes sha source_kind object_kind exact_bytes =
     (let descriptor = \<lparr>sd_kind = source_kind, sd_source_hash = compute_source_hash sha source_kind None exact_bytes,
            sd_byte_len = length exact_bytes, sd_mime = None, sd_label = None\<rparr> in
      \<lparr>co_descriptor = descriptor, co_object_key = runtime_object_key_from_bytes descriptor exact_bytes,
       co_source_kind = source_kind, co_object_kind = object_kind,
       co_cue = sc_cue (structural_cue_summary descriptor exact_bytes), co_exact_bytes = exact_bytes\<rparr>)"

definition runtime_object_from_material :: "sha \<Rightarrow> ExactStateMaterial \<Rightarrow> ChpmtObject" where
  "runtime_object_from_material sha material =
     runtime_object_from_exact_bytes sha (esm_source_kind material) OK_ExactState (esm_exact_bytes material)"

definition keep_better :: "nat \<Rightarrow> nat \<Rightarrow> CodecMode \<Rightarrow> bytes \<Rightarrow> EncodedPayload \<Rightarrow> EncodedPayload" where
  "keep_better copy_len minimum_win mode payload best =
     (if packed_candidate_wins (length payload) copy_len minimum_win
         \<and> (ep_mode best = CM_DirectExact \<or> length payload < length (ep_payload best))
      then best\<lparr>ep_mode := mode, ep_payload := payload\<rparr> else best)"

definition encode_best_exact_payload_with_preference ::
  "sha \<Rightarrow> 'm ans_lib \<Rightarrow> CodecError + 'm EmbeddedAssets \<Rightarrow> ExactStateMaterial \<Rightarrow> PredictorState
    \<Rightarrow> ExactStateMaterial option \<Rightarrow> DataPlaneCodecPreference \<Rightarrow> CodecError + EncodedPayload" where
  "encode_best_exact_payload_with_preference sha ans assets current predictor_state predicted preference =
     (let bs = esm_exact_bytes current;
          copy_payload = encode_direct_exact_payload current;
          copy_len = length copy_payload;
          minimum_win = minimum_packed_win copy_len (length bs);
          best = \<lparr>ep_mode = CM_DirectExact, ep_payload = copy_payload,
            ep_runtime_object = runtime_object_from_material sha current\<rparr>;
          candidates = (\<lambda>mode bytes best. try_fold (\<lambda>best profile.
            and_then (encode_packed_payload ans assets (esm_source_kind current) profile bytes) (\<lambda>payload.
              Ok (keep_better copy_len minimum_win mode payload best))) best (candidate_profiles (length bs))) in
      if forces_direct_exact preference then Ok best
      else
        and_then (candidates CM_PackedExact bs best) (\<lambda>best.
          case predicted of
            Some predicted \<Rightarrow>
              if requires_raw predictor_state then Ok best
              else candidates CM_PredictedExact (wrapping_delta_bytes bs (esm_exact_bytes predicted)) best
          | None \<Rightarrow> Ok best))"

definition encode_best_runtime_object_payload_with_preference ::
  "sha \<Rightarrow> 'm ans_lib \<Rightarrow> CodecError + 'm EmbeddedAssets \<Rightarrow> SourceKind \<Rightarrow> ObjectKind \<Rightarrow> bytes \<Rightarrow> PredictorState
    \<Rightarrow> bytes option \<Rightarrow> DataPlaneCodecPreference \<Rightarrow> CodecError + EncodedPayload" where
  "encode_best_runtime_object_payload_with_preference sha ans assets source_kind object_kind exact_bytes
      predictor_state predicted_exact_bytes preference =
     and_then (encode_best_exact_payload_with_preference sha ans assets
         \<lparr>esm_source_kind = source_kind, esm_exact_bytes = exact_bytes\<rparr> predictor_state
         (map_option (\<lambda>bs. \<lparr>esm_source_kind = source_kind, esm_exact_bytes = bs\<rparr>) predicted_exact_bytes) preference)
       (\<lambda>encoded. Ok (encoded\<lparr>ep_runtime_object :=
          runtime_object_from_exact_bytes sha source_kind object_kind exact_bytes\<rparr>))"

definition decode_data_payload_to_runtime_object ::
  "sha \<Rightarrow> 'm ans_lib \<Rightarrow> CodecError + 'm EmbeddedAssets \<Rightarrow> bytes \<Rightarrow> CodecMode \<Rightarrow> bytes option
    \<Rightarrow> SourceDescriptor option \<Rightarrow> SourceKind \<Rightarrow> ObjectKind \<Rightarrow> CodecError + ChpmtObject" where
  "decode_data_payload_to_runtime_object sha ans assets payload mode predicted_exact_bytes descriptor
      fallback_source_kind object_kind =
     (let predictor_source_kind = (case descriptor of Some d \<Rightarrow> sd_kind d | None \<Rightarrow> fallback_source_kind);
          predicted = map_option (\<lambda>bs. \<lparr>esm_source_kind = predictor_source_kind, esm_exact_bytes = bs\<rparr>)
            predicted_exact_bytes in
      and_then (decode_data_payload ans assets payload mode predicted) (\<lambda>block.
        let source_kind = (case descriptor of Some d \<Rightarrow> sd_kind d | None \<Rightarrow> esm_source_kind block);
            exact_bytes = esm_exact_bytes block;
            descriptor = (case descriptor of Some d \<Rightarrow> d | None \<Rightarrow>
              \<lparr>sd_kind = source_kind, sd_source_hash = compute_source_hash sha source_kind None exact_bytes,
               sd_byte_len = length exact_bytes, sd_mime = None, sd_label = None\<rparr>) in
        Ok \<lparr>co_descriptor = descriptor, co_object_key = runtime_object_key_from_bytes descriptor exact_bytes,
            co_source_kind = source_kind, co_object_kind = object_kind,
            co_cue = sc_cue (structural_cue_summary descriptor exact_bytes), co_exact_bytes = exact_bytes\<rparr>))"

definition choose_codec_mode_with_preference ::
  "sha \<Rightarrow> 'm ans_lib \<Rightarrow> CodecError + 'm EmbeddedAssets \<Rightarrow> ExactStateMaterial \<Rightarrow> PredictorState
    \<Rightarrow> ExactStateMaterial option \<Rightarrow> DataPlaneCodecPreference \<Rightarrow> CodecDecision" where
  "choose_codec_mode_with_preference sha ans assets current predictor_state predicted preference =
     (case encode_best_exact_payload_with_preference sha ans assets current predictor_state predicted preference of
        Inr encoded \<Rightarrow> (case ep_mode encoded of CM_PackedExact \<Rightarrow> CD_PackedExact
          | CM_PredictedExact \<Rightarrow> CD_PredictedExact | _ \<Rightarrow> CD_DirectExact)
      | Inl _ \<Rightarrow> CD_DirectExact)"

definition predictor_state_for :: "ItemId \<Rightarrow> PredictorEntryMeta option \<Rightarrow> PredictorState" where
  "predictor_state_for current_item_id predictor_meta =
     (case predictor_meta of
        Some meta \<Rightarrow> if pem_item_id meta = current_item_id then PS_Ready meta else PS_Empty
      | None \<Rightarrow> PS_Empty)"

text \<open>Deltas against a predicted block, of one profile.  The code takes an encoding error as a panic.\<close>

record DeltaEncodedMaterial =
  de_source_kind :: SourceKind
  de_original_len :: u32
  de_bytes :: bytes

definition encode_delta_material ::
  "'m ans_lib \<Rightarrow> CodecError + 'm EmbeddedAssets \<Rightarrow> ExactStateMaterial \<Rightarrow> ExactStateMaterial
    \<Rightarrow> CodecError + DeltaEncodedMaterial" where
  "encode_delta_material ans assets current predicted =
     and_then (encode_packed_payload ans assets (esm_source_kind current) PREDICTED_PACK_FALLBACK
         (wrapping_delta_bytes (esm_exact_bytes current) (esm_exact_bytes predicted))) (\<lambda>payload.
       Ok \<lparr>de_source_kind = esm_source_kind current, de_original_len = of_nat (length (esm_exact_bytes current)),
           de_bytes = payload\<rparr>)"

definition decode_delta_payload :: "bytes \<Rightarrow> CodecError + DeltaEncodedMaterial" where
  "decode_delta_payload payload =
     and_then (parse_packed_payload_header payload) (\<lambda>h.
       Ok \<lparr>de_source_kind = ph_family h, de_original_len = ph_original_len h, de_bytes = payload\<rparr>)"

definition decode_delta_material ::
  "'m ans_lib \<Rightarrow> CodecError + 'm EmbeddedAssets \<Rightarrow> DeltaEncodedMaterial \<Rightarrow> ExactStateMaterial
    \<Rightarrow> CodecError + ExactStateMaterial" where
  "decode_delta_material ans assets encoded predicted =
     and_then (decode_packed_payload ans assets (de_bytes encoded)) (\<lambda>delta.
       Ok \<lparr>esm_source_kind = de_source_kind encoded,
           esm_exact_bytes = apply_wrapping_delta (esm_exact_bytes delta) (esm_exact_bytes predicted)\<rparr>)"

section \<open>Lemmas\<close>

lemma codec_varint_agrees:
  "decode_varint_loop bs c v shift k = Ok (w, n) \<Longrightarrow> 7 dvd shift \<Longrightarrow>
    codec_decode_varint bs c shift v = Ok (w, c + (n - k))"
proof (induction bs c v shift k rule: decode_varint_loop.induct)
  case (1 bs c v shift k)
  let ?v = "v OR push_bit shift (ucast (bs ! c AND 0x7F))"
  have c: "c < length bs" using 1(2) by (subst (asm) decode_varint_loop.simps) (simp split: if_splits)
  show ?case
  proof (cases "bs ! c AND 0x80 = 0")
    case True
    then show ?thesis using 1(2) c
      by (subst (asm) decode_varint_loop.simps, subst codec_decode_varint.simps) (auto simp: Let_def)
  next
    case False
    then have step: "shift + 7 < 35" and rest: "decode_varint_loop bs (c + 1) ?v (shift + 7) (k + 1) = Ok (w, n)"
      using 1(2) c by (subst (asm) decode_varint_loop.simps; simp add: Let_def split: if_splits)+
    have "shift + 7 < 32" using step 1(3) by presburger
    moreover have "codec_decode_varint bs (c + 1) (shift + 7) ?v = Ok (w, c + 1 + (n - (k + 1)))"
      using 1(1) [OF _ refl refl refl refl False refl] c step rest 1(3) by simp
    moreover have "k + 1 < n" by (rule decode_varint_consumes [OF rest])
    ultimately show ?thesis using c False by (subst codec_decode_varint.simps) (simp add: Let_def)
  qed
qed

lemma codec_decode_encode_varint:
  assumes "spells bs c (encode_varint w)"
  shows "codec_decode_varint bs c 0 0 = Ok (w, c + length (encode_varint w))"
  using codec_varint_agrees [of bs c 0 0 0] decode_encode_varint [OF assms] by (simp add: decode_varint_def)

lemma ans_symbols_roundtrip:
  assumes "ans_ok ans" and "encode_ans_symbols ans symbols model = Ok payload"
  shows "decode_ans_symbols ans payload (length symbols) model = Ok symbols"
proof (cases "symbols = []")
  case True
  then show ?thesis using assms(2) by (simp add: encode_ans_symbols_def decode_ans_symbols_def)
next
  case False
  then obtain ws where ws: "ans_encode ans model symbols = Ok ws" and p: "payload = concat (map le32 ws)"
    using assms(2) by (auto simp: encode_ans_symbols_def)
  have "chunks 4 payload = map le32 ws" unfolding p by (rule chunks_concat) simp_all
  moreover have "length payload = 4 * length ws" unfolding p by (induction ws) simp_all
  moreover have "ans_decode ans model ws (length symbols) = Ok symbols" using assms(1) ws by (simp add: ans_ok_def)
  ultimately show ?thesis using False by (simp add: decode_ans_symbols_def o_def)
qed

lemma small_signed_roundtrip:
  assumes "\<bar>sint v\<bar> \<le> sint r"
  shows "small_signed_value r (small_signed_symbol r v) = v"
proof -
  have "0 \<le> sint v + sint r" using assms by linarith
  then have "(of_nat (nat (sint v + sint r)) :: i16) = word_of_int (sint v + sint r)" by simp
  also have "\<dots> - r = word_of_int (sint v)" by simp
  finally have "(of_nat (nat (sint v + sint r)) :: i16) - r = word_of_int (sint v)" .
  moreover have "(ucast (word_of_int (sint v) :: i16) :: i8) = v"
    by (rule bit_word_eqI) (simp add: bit_ucast_iff bit_signed_iff)
  ultimately show ?thesis by (simp add: small_signed_value_def small_signed_symbol_def)
qed

lemma sparse_loop_roundtrip:
  assumes "spells payload c (sparse_entries previous (enumerate i xs))"
    and "i = length ys" and "i + length xs < 2 ^ 32" and "\<And>j. previous = Some j \<Longrightarrow> j < i"
  shows "sparse_residual_loop payload (i + length xs) (length (filter (\<lambda>v. v \<noteq> 0) xs)) previous c (ys @ replicate (length xs) 0)
      = Ok (c + length (sparse_entries previous (enumerate i xs)), ys @ xs)"
  using assms
proof (induction xs arbitrary: previous c i ys)
  case (Cons v xs)
  show ?case
  proof (cases "v = 0")
    case True
    then show ?thesis using Cons.IH [of c previous "Suc i" "ys @ [0]"] Cons.prems by (simp add: less_SucI)
  next
    case False
    let ?d = "case previous of None \<Rightarrow> i | Some j \<Rightarrow> i - j - 1"
    let ?w = "encode_varint (of_nat ?d)" and ?c = "c + length (encode_varint (of_nat ?d :: u32))"
    have d: "?d < 2 ^ 32" using Cons.prems(3) by (auto split: option.split)
    have s: "spells payload c ?w" "spells payload ?c [v]"
        "spells payload (Suc ?c) (sparse_entries (Some i) (enumerate (Suc i) xs))"
      using Cons.prems(1) False spells_Cons [of payload ?c v "sparse_entries (Some i) (enumerate (Suc i) xs)"] by simp_all
    have at: "?c < length payload" "payload ! ?c = v"
      using s(2) by (simp_all add: spells_u8)
    have pos: "(case previous of None \<Rightarrow> unat (of_nat ?d :: u32) | Some j \<Rightarrow> j + unat (of_nat ?d :: u32) + 1) = i"
      unfolding unat_of_nat_u32 [OF d] using Cons.prems(4) by (cases previous) auto
    have upd: "(ys @ 0 # replicate (length xs) 0)[i := v] = (ys @ [v]) @ replicate (length xs) 0"
      using Cons.prems(2) by (simp add: list_update_append)
    have IH: "sparse_residual_loop payload (Suc i + length xs) (length (filter (\<lambda>v. v \<noteq> 0) xs)) (Some i) (Suc ?c)
        ((ys @ [v]) @ replicate (length xs) 0)
      = Ok (Suc ?c + length (sparse_entries (Some i) (enumerate (Suc i) xs)), (ys @ [v]) @ xs)"
      using Cons.prems(2,3) by (intro Cons.IH s(3)) auto
    show ?thesis using False codec_decode_encode_varint [OF s(1)] at IH
      by (simp add: pos upd [simplified] Let_def)
  qed
qed simp

lemma sparse_roundtrip:
  assumes "length residual < 2 ^ 32"
  shows "decode_sparse_residual (tl (encode_sparse_residual residual tag)) (length residual) = Ok residual"
proof -
  let ?count = "length (filter (\<lambda>v. v \<noteq> 0) residual)" and ?e = "sparse_entries None (enumerate 0 residual)"
  let ?p = "le32 (of_nat ?count) @ ?e"
  have count: "?count < 2 ^ 32" using assms length_filter_le [of "\<lambda>v. v \<noteq> 0" residual] by linarith
  have "spells ?p 4 ?e" by (simp add: spells_def)
  from sparse_loop_roundtrip [OF this, of "[]"] assms
  have "sparse_residual_loop ?p (length residual) ?count None 4 (replicate (length residual) 0)
      = Ok (4 + length ?e, residual)" by simp
  then show ?thesis
    by (simp add: encode_sparse_residual_def decode_sparse_residual_def unat_of_nat_u32 [OF count] del: unat_of_nat)
qed

lemma residual_roundtrip:
  assumes "ans_ok ans" and "encode_residual_payload ans residual spec = Ok payload" and "length residual < 2 ^ 32"
    and "distinct [ra_all_zero_tag spec, ra_small_signed_rans_tag spec, ra_sparse_positions_tag spec, ra_literal_raw_tag spec]"
  shows "decode_residual_payload ans payload (length residual) spec = Ok residual"
proof -
  note enc = assms(2) [unfolded encode_residual_payload_def]
  consider "\<forall>v \<in> set residual. v = 0"
    | "\<not> (\<forall>v \<in> set residual. v = 0)" "\<forall>v \<in> set residual. \<bar>sint v\<bar> \<le> sint (ra_small_range spec)"
    | "payload = encode_sparse_residual residual (ra_sparse_positions_tag spec)"
    | "payload = encode_literal_residual residual (ra_literal_raw_tag spec)"
    using enc by (auto split: if_splits)
  then show ?thesis
  proof cases
    case 1
    then have "replicate (length residual) 0 = residual" by (intro replicate_eqI [symmetric]) simp_all
    with 1 enc show ?thesis by (auto simp: decode_residual_payload_def)
  next
    case 2
    then obtain body where p: "payload = ra_small_signed_rans_tag spec # body"
      and body: "encode_ans_symbols ans (map (small_signed_symbol (ra_small_range spec)) residual)
        (ra_small_signed_model spec) = Ok body"
      using enc by (auto split: if_splits)
    have "map (small_signed_value (ra_small_range spec) \<circ> small_signed_symbol (ra_small_range spec)) residual = residual"
      using 2(2) by (intro map_idI) (simp add: small_signed_roundtrip)
    then show ?thesis
      using ans_symbols_roundtrip [OF assms(1) body] assms(4) by (auto simp: decode_residual_payload_def p)
  next
    case 3
    then show ?thesis using sparse_roundtrip [OF assms(3), of "ra_sparse_positions_tag spec"] assms(4)
      by (auto simp: decode_residual_payload_def encode_sparse_residual_def)
  next
    case 4
    then show ?thesis using assms(4) by (auto simp: decode_residual_payload_def encode_literal_residual_def)
  qed
qed

lemma delta_roundtrip: "apply_wrapping_delta (wrapping_delta_bytes bs predicted) predicted = bs"
  by (rule nth_equalityI) (simp_all add: apply_wrapping_delta_def wrapping_delta_bytes_def nth_enumerate_eq)

lemma length_wrapping_delta [simp]: "length (wrapping_delta_bytes bs predicted) = length bs"
  by (simp add: wrapping_delta_bytes_def)

lemma centered_roundtrip:
  "length predicted = length bs \<Longrightarrow>
    apply_centered_signed_residuals predicted (centered_signed_residuals bs predicted) = bs"
  by (rule nth_equalityI)
    (simp_all add: apply_centered_signed_residuals_def centered_signed_residuals_def nth_enumerate_eq byte_at_def)

lemma length_centered [simp]: "length (centered_signed_residuals bs predicted) = length bs"
  by (simp add: centered_signed_residuals_def)

lemma length_apply_layer: "apply_layer l xs = Ok ys \<Longrightarrow> length ys = ll_out_dim l"
  by (auto simp: apply_layer_def split: if_splits)

text \<open>The shape of the shipped tables: the synthesis ends in blocks, latent vectors are not empty, the tags differ.\<close>

definition family_ok :: "'m FamilyAsset \<Rightarrow> bool" where
  "family_ok f \<longleftrightarrow>
     distinct [ra_all_zero_tag (fa_residual f), ra_small_signed_rans_tag (fa_residual f),
       ra_sparse_positions_tag (fa_residual f), ra_literal_raw_tag (fa_residual f)]
     \<and> fa_synthesis_trunk f \<noteq> [] \<and> ll_out_dim (last (fa_synthesis_trunk f)) = BLOCK_LEN
     \<and> list_all (\<lambda>p. 0 < pa_latent_dim p) (fa_profiles f)"

definition assets_ok :: "CodecError + 'm EmbeddedAssets \<Rightarrow> bool" where
  "assets_ok assets \<longleftrightarrow>
     (case assets of Inl _ \<Rightarrow> True | Inr a \<Rightarrow> family_ok (ea_text a) \<and> family_ok (ea_json a) \<and> family_ok (ea_binary a))"

lemma family_asset_ok: "assets_ok assets \<Longrightarrow> family_asset assets k = Ok f \<Longrightarrow> family_ok f"
  by (cases k) (auto simp: assets_ok_def family_asset_def)

lemma decode_block_length:
  assumes "family_ok f" and "decode_block_codes f p codes = Ok r"
  shows "length r = BLOCK_LEN \<and> length codes = pa_latent_dim p"
proof -
  obtain ls l where trunk: "fa_synthesis_trunk f = ls @ [l]" and l: "ll_out_dim l = BLOCK_LEN"
    using assms(1) by (cases "fa_synthesis_trunk f" rule: rev_cases) (auto simp: family_ok_def)
  show ?thesis using assms(2) l
    by (auto simp: decode_block_codes_def apply_layers_def trunk try_fold_append dest!: length_apply_layer split: if_splits)
qed

lemma encode_blocks_decode:
  assumes "family_ok f" and "0 < pa_latent_dim p" and "try_map (encode_block f p) cs = Ok blocks"
  shows "try_map (\<lambda>chunk. decode_block_codes f p (map of_nat chunk))
      (chunks (pa_latent_dim p) (concat (map (\<lambda>(codes, _). map unat codes) blocks))) = Ok (map snd blocks)"
    and "length (concat (map (\<lambda>(codes, _). map unat codes) blocks)) = length cs * pa_latent_dim p"
    and "length (concat (map snd blocks)) = length cs * BLOCK_LEN"
proof -
  from assms(3) have all: "list_all2 (\<lambda>c b. encode_block f p c = Ok b) cs blocks" by (simp add: try_map_iff)
  then have each: "\<forall>b \<in> set blocks. decode_block_codes f p (fst b) = Ok (snd b)"
    by (induction rule: list_all2_induct) (auto simp: encode_block_def)
  have len: "length blocks = length cs" using all by (simp add: list_all2_lengthD)
  have dims: "\<forall>b \<in> set blocks. length (fst b) = pa_latent_dim p \<and> length (snd b) = BLOCK_LEN"
    using each decode_block_length [OF assms(1)] by blast
  have eq: "chunks (pa_latent_dim p) (concat (map (\<lambda>(codes, _). map unat codes) blocks))
      = map (\<lambda>(codes, _). map unat codes) blocks"
    using dims assms(2) by (intro chunks_concat) auto
  show "try_map (\<lambda>chunk. decode_block_codes f p (map of_nat chunk))
      (chunks (pa_latent_dim p) (concat (map (\<lambda>(codes, _). map unat codes) blocks))) = Ok (map snd blocks)"
    unfolding eq using each by (induction blocks) (auto simp: o_def split_def)
  show "length (concat (map (\<lambda>(codes, _). map unat codes) blocks)) = length cs * pa_latent_dim p"
    unfolding len [symmetric] using dims by (induction blocks) auto
  show "length (concat (map snd blocks)) = length cs * BLOCK_LEN"
    unfolding len [symmetric] using dims by (induction blocks) auto
qed

lemma parse_build:
  assumes "payload = build_packed_payload family profile n b code residual"
    and "length code < 2 ^ 32" and "length residual < 2 ^ 32" and "n > 0 \<Longrightarrow> b \<noteq> 0"
  shows "parse_packed_payload_header payload = Ok \<lparr>ph_family = family, ph_profile = profile, ph_original_len = n,
      ph_block_count = b, ph_code_len = of_nat (length code), ph_residual_len = of_nat (length residual)\<rparr>"
    and "slice 18 (18 + length code) payload = code"
    and "slice (18 + length code) (18 + length code + length residual) payload = residual"
    and "length payload = 18 + length code + length residual"
proof -
  obtain header where "payload = header @ code @ residual" and "length header = 18"
    by (simp add: assms(1) build_packed_payload_def flip: append_Cons append_assoc)
  then show "slice 18 (18 + length code) payload = code"
    and "slice (18 + length code) (18 + length code + length residual) payload = residual"
    and "length payload = 18 + length code + length residual"
    by (simp_all add: slice_def)
  show "parse_packed_payload_header payload = Ok \<lparr>ph_family = family, ph_profile = profile, ph_original_len = n,
      ph_block_count = b, ph_code_len = of_nat (length code), ph_residual_len = of_nat (length residual)\<rparr>"
    using assms(4)
    by (auto simp: assms(1) build_packed_payload_def parse_packed_payload_header_def PACKED_PAYLOAD_HEADER_LEN_def
        SourceKind_from_tag_iff slice_def Let_def)
qed

lemma packed_roundtrip:
  assumes "ans_ok ans" and "assets_ok assets" and "length bs \<le> 65535 * 256"
    and enc: "encode_packed_payload ans assets family profile bs = Ok payload" and small: "length payload < 2 ^ 32"
  shows "decode_packed_payload ans assets payload = Ok \<lparr>esm_source_kind = family, esm_exact_bytes = bs\<rparr>"
proof -
  obtain f p where f: "family_asset assets family = Ok f" and p: "profile_asset assets family profile = Ok p"
    using enc by (auto simp: encode_packed_payload_def)
  have ok: "family_ok f" by (rule family_asset_ok [OF assms(2) f])
  then have dim: "0 < pa_latent_dim p" using f p
    by (auto simp: profile_asset_def family_ok_def find_Some_iff list_all_length)
  have tags: "distinct [ra_all_zero_tag (fa_residual f), ra_small_signed_rans_tag (fa_residual f),
       ra_sparse_positions_tag (fa_residual f), ra_literal_raw_tag (fa_residual f)]"
    using ok by (simp only: family_ok_def)
  let ?count = "div_ceil (length bs) BLOCK_LEN"
  have count: "?count \<le> 65535" "length bs \<le> ?count * 256"
    using div_ceil_le [OF _ assms(3)] le_div_ceil [of 256 "length bs"] by (simp_all add: BLOCK_LEN_def)
  show ?thesis
  proof (cases "?count = 0")
    case True
    then have "bs = []" using count by simp
    moreover from True enc f p have "payload = build_packed_payload family profile 0 0 [] [ra_all_zero_tag (fa_residual f)]"
      by (simp add: encode_packed_payload_def)
    note parse_build [OF this]
    ultimately show ?thesis using f p
      by (simp add: decode_packed_payload_def PACKED_PAYLOAD_HEADER_LEN_def decode_ans_symbols_def chunks.simps
          decode_residual_payload_def apply_centered_signed_residuals_def)
  next
    case False
    then obtain blocks code residual where blocks: "try_map (encode_block f p) (chunks BLOCK_LEN bs) = Ok blocks"
      and code: "encode_ans_symbols ans (concat (map (\<lambda>(codes, _). map unat codes) blocks)) (pa_latent_model p) = Ok code"
      and residual: "encode_residual_payload ans
        (centered_signed_residuals bs (take (length bs) (concat (map snd blocks)))) (fa_residual f) = Ok residual"
      and payload: "payload = build_packed_payload family profile (of_nat (length bs)) (of_nat ?count) code residual"
      using enc f p by (auto simp: encode_packed_payload_def Let_def)
    have n: "length (chunks BLOCK_LEN bs) = ?count" by (simp add: length_chunks BLOCK_LEN_def)
    note blk = encode_blocks_decode [OF ok dim blocks, unfolded n]
    have lens: "length code < 2 ^ 32" "length residual < 2 ^ 32" "length bs < 2 ^ 32" "?count < 2 ^ 16"
      using small count assms(3) by (auto simp: payload build_packed_payload_def)
    have cnt: "unat (of_nat ?count :: u16) = ?count" by (rule unat_of_nat_u16 [OF lens(4)])
    have nz: "(of_nat ?count :: u16) \<noteq> 0" using cnt False by (metis unat_0)
    note hdr = parse_build [OF payload lens(1,2) nz]
    have pred: "length (take (length bs) (concat (map snd blocks))) = length bs"
      using blk(3) count by (simp add: BLOCK_LEN_def)
    have dres: "decode_residual_payload ans residual (length bs) (fa_residual f)
        = Ok (centered_signed_residuals bs (take (length bs) (concat (map snd blocks))))"
      using residual_roundtrip [OF assms(1) residual _ tags] lens(3) by simp
    have dcode: "decode_ans_symbols ans code (?count * pa_latent_dim p) (pa_latent_model p)
        = Ok (concat (map (\<lambda>(codes, _). map unat codes) blocks))"
      using ans_symbols_roundtrip [OF assms(1) code] by (simp add: blk(2))
    show ?thesis
      by (simp add: decode_packed_payload_def hdr(1) f p cnt unat_of_nat_u32 [OF lens(1)] unat_of_nat_u32 [OF lens(2)]
          unat_of_nat_u32 [OF lens(3)] PACKED_PAYLOAD_HEADER_LEN_def Let_def hdr(2-4) dcode blk(1,2) dres
          centered_roundtrip [OF pred] del: unat_of_nat)
  qed
qed

text \<open>What the search for a payload keeps: a payload that decodes to the block and is never longer than the copy.\<close>

definition payload_good ::
  "'m ans_lib \<Rightarrow> CodecError + 'm EmbeddedAssets \<Rightarrow> sha \<Rightarrow> ExactStateMaterial \<Rightarrow> ExactStateMaterial option
    \<Rightarrow> EncodedPayload \<Rightarrow> bool" where
  "payload_good ans assets sha current predicted e \<longleftrightarrow>
     decode_data_payload ans assets (ep_payload e) (ep_mode e) predicted = Ok current
     \<and> length (ep_payload e) \<le> length (esm_exact_bytes current) + 1
     \<and> ep_runtime_object e = runtime_object_from_material sha current"

lemma direct_roundtrip: "decode_direct_exact_payload (encode_direct_exact_payload block) = Ok block"
  by (simp add: decode_direct_exact_payload_def encode_direct_exact_payload_def DIRECT_EXACT_HEADER_LEN_def
      SourceKind_from_tag_iff)

lemma keep_better_good:
  assumes "payload_good ans assets sha current predicted best"
    and "length payload \<le> length (esm_exact_bytes current) + 1 \<Longrightarrow>
      decode_data_payload ans assets payload mode predicted = Ok current"
  shows "payload_good ans assets sha current predicted
    (keep_better (length (encode_direct_exact_payload current)) minimum_win mode payload best)"
  using assms
  by (auto simp: payload_good_def keep_better_def packed_candidate_wins_def encode_direct_exact_payload_def)

lemma best_payload_good:
  assumes ans: "ans_ok ans" and assets: "assets_ok assets" and len: "length (esm_exact_bytes current) \<le> 65535 * 256"
    and enc: "encode_best_exact_payload_with_preference sha ans assets current predictor_state predicted preference = Ok e"
  shows "payload_good ans assets sha current predicted e"
proof -
  let ?bs = "esm_exact_bytes current" and ?good = "payload_good ans assets sha current predicted"
  have packed: "decode_packed_payload ans assets payload = Ok \<lparr>esm_source_kind = esm_source_kind current, esm_exact_bytes = d\<rparr>"
    if "encode_packed_payload ans assets (esm_source_kind current) profile d = Ok payload" "length d = length ?bs"
      "length payload \<le> length ?bs + 1" for profile d payload
    using packed_roundtrip [OF ans assets _ that(1)] that(2,3) len by simp
  let ?search = "\<lambda>mode d best. try_fold (\<lambda>best profile.
      and_then (encode_packed_payload ans assets (esm_source_kind current) profile d) (\<lambda>payload.
        Ok (keep_better (length (encode_direct_exact_payload current))
          (minimum_packed_win (length (encode_direct_exact_payload current)) (length ?bs)) mode payload best)))
      best (candidate_profiles (length ?bs))"
  have search: "?good best'" if "?search mode d best = Ok best'" "?good best" "length d = length ?bs"
      "\<And>payload. decode_packed_payload ans assets payload = Ok \<lparr>esm_source_kind = esm_source_kind current, esm_exact_bytes = d\<rparr> \<Longrightarrow>
        decode_data_payload ans assets payload mode predicted = Ok current" for mode d best best'
    using that(1,2) by (rule try_fold_invariant) (auto intro!: keep_better_good that(4) packed [OF _ that(3)])
  let ?copy = "\<lparr>ep_mode = CM_DirectExact, ep_payload = encode_direct_exact_payload current,
            ep_runtime_object = runtime_object_from_material sha current\<rparr>"
  have copy: "?good ?copy"
    by (simp add: payload_good_def decode_data_payload_def direct_roundtrip) (simp add: encode_direct_exact_payload_def)
  show ?thesis
  proof (cases "forces_direct_exact preference")
    case True
    then show ?thesis using enc copy by (simp add: encode_best_exact_payload_with_preference_def Let_def)
  next
    case False
    then obtain best where best: "?search CM_PackedExact ?bs ?copy = Ok best"
      and rest: "(case predicted of Some p \<Rightarrow> if requires_raw predictor_state then Ok best
          else ?search CM_PredictedExact (wrapping_delta_bytes ?bs (esm_exact_bytes p)) best
        | None \<Rightarrow> Ok best) = Ok e"
      using enc by (auto simp: encode_best_exact_payload_with_preference_def Let_def)
    have "?good best" by (rule search [OF best copy]) (simp_all add: decode_data_payload_def)
    moreover have "?good e" if "predicted = Some p"
      and "?search CM_PredictedExact (wrapping_delta_bytes ?bs (esm_exact_bytes p)) best = Ok e" for p
      using \<open>?good best\<close>
      by (rule search [OF that(2)]) (simp_all add: decode_data_payload_def that(1) delta_roundtrip)
    ultimately show ?thesis using rest by (auto split: option.splits if_splits)
  qed
qed

text \<open>C23: what the codec writes is what the peer rebuilds: whichever payload the encoder picks for an object of at
  most 16776960 bytes (65535 blocks of 256 bytes, as many as the packed form can count)
  (the copy, the packed form, the packed difference from the prediction), decoding it with the same prediction
  gives the very object of the sender, with its key, cues and bytes, and the payload is at most one byte longer
  than the bytes.\<close>

theorem runtime_object_rebuilt:
  assumes "ans_ok ans" and "assets_ok assets" and "length exact_bytes \<le> 65535 * 256"
    and "encode_best_runtime_object_payload_with_preference sha ans assets source_kind object_kind exact_bytes
      predictor_state predicted preference = Ok e"
  shows "decode_data_payload_to_runtime_object sha ans assets (ep_payload e) (ep_mode e) predicted None source_kind object_kind
      = Ok (ep_runtime_object e)
    \<and> co_exact_bytes (ep_runtime_object e) = exact_bytes
    \<and> length (ep_payload e) \<le> length exact_bytes + 1"
proof -
  let ?m = "\<lambda>bs. \<lparr>esm_source_kind = source_kind, esm_exact_bytes = bs\<rparr>"
  obtain b where b: "encode_best_exact_payload_with_preference sha ans assets (?m exact_bytes) predictor_state
        (map_option ?m predicted) preference = Ok b"
    and e: "e = b\<lparr>ep_runtime_object := runtime_object_from_exact_bytes sha source_kind object_kind exact_bytes\<rparr>"
    using assms(4) by (auto simp: encode_best_runtime_object_payload_with_preference_def)
  have "payload_good ans assets sha (?m exact_bytes) (map_option ?m predicted) b"
    using best_payload_good [OF assms(1,2) _ b] assms(3) by simp
  then show ?thesis
    by (simp add: e payload_good_def decode_data_payload_to_runtime_object_def runtime_object_from_exact_bytes_def Let_def)
qed

definition toy_ans :: "unit ans_lib" where
  "toy_ans = \<lparr>ans_encode = (\<lambda>_ symbols. if list_all (\<lambda>s. s < 256) symbols then Ok (map of_nat symbols) else Err ''range''),
     ans_decode = (\<lambda>_ ws n. Ok (map unat ws))\<rparr>"

definition toy_layer :: "nat \<Rightarrow> nat \<Rightarrow> LinearLayerAsset" where
  "toy_layer n m = \<lparr>ll_in_dim = n, ll_out_dim = m, ll_input_zero_point = 0, ll_output_zero_point = 0, ll_divisor = 1,
     ll_apply_relu = False, ll_clamp_min = - 1000, ll_clamp_max = 1000, ll_weights = replicate (n * m) 0,
     ll_bias = replicate m 65\<rparr>"

definition toy_levels :: "i16 list" where
  "toy_levels = [- 8, - 7, - 6, - 5, - 4, - 3, - 2, - 1, 0, 1, 2, 3, 4, 5, 6, 7]"

definition toy_profile :: "PackId \<Rightarrow> unit ProfileAsset" where
  "toy_profile i = \<lparr>pa_lane_profile_id = i, pa_latent_dim = 1, pa_fsq_levels = toy_levels,
     pa_latent_model = (), pa_analysis_head = toy_layer 256 1, pa_synthesis_head = toy_layer 1 1\<rparr>"

definition toy_family :: "unit FamilyAsset" where
  "toy_family = \<lparr>fa_residual = \<lparr>ra_all_zero_tag = 0, ra_small_signed_rans_tag = 1, ra_sparse_positions_tag = 2,
       ra_literal_raw_tag = 3, ra_small_range = 31, ra_sparse_enough = (\<lambda>a b. a * 2 \<le> b), ra_small_signed_model = ()\<rparr>,
     fa_analysis_trunk = [], fa_synthesis_trunk = [toy_layer 1 256],
     fa_profiles = map toy_profile
       [PACKED_PACK16_ID, PACKED_PACK32_ID]\<rparr>"

definition toy_assets :: "CodecError + unit EmbeddedAssets" where
  "toy_assets = Ok \<lparr>ea_text = toy_family, ea_json = toy_family, ea_binary = toy_family\<rparr>"

lemma toy_ans_ok: "ans_ok toy_ans"
  by (auto simp: ans_ok_def toy_ans_def list_all_iff unat_of_nat intro!: map_idI split: if_splits)

lemma toy_assets_ok: "assets_ok toy_assets"
  by (simp add: assets_ok_def toy_assets_def family_ok_def toy_family_def toy_profile_def toy_layer_def BLOCK_LEN_def)

definition toy_block :: bytes where "toy_block = replicate 200 65"

lemma foldl_zero_weights:
  "\<forall>w \<in> set ws. w = 0 \<Longrightarrow> foldl (\<lambda>acc (x, w). acc + f x * sint w) a (zip xs ws) = (a :: int)"
  for ws :: "i8 list"
  by (induction xs arbitrary: ws) (auto simp: zip_Cons1 split: list.splits)

lemma toy_layer_apply: "length xs = n \<Longrightarrow> apply_layer (toy_layer n m) xs = Ok (replicate m 65)"
proof -
  assume n: "length xs = n"
  have "layer_output (toy_layer n m) xs i = 65" if "i < m" for i
  proof -
    have "\<forall>w \<in> set (slice a b (replicate k 0)). w = (0 :: i8)" for a b k
      using set_slice_subset [of a b "replicate k (0 :: i8)"] by auto
    then show ?thesis using that
      by (simp add: layer_output_def toy_layer_def foldl_zero_weights div_round_i64_def tdiv_def clamp_def)
  qed
  then show ?thesis using n by (auto simp: apply_layer_def toy_layer_def list_eq_iff_nth_eq)
qed

lemma toy_block_packs:
  assumes "profile \<in> {PACKED_PACK16_ID, PACKED_PACK32_ID}"
  shows "encode_packed_payload toy_ans toy_assets Text profile toy_block
    = Ok (build_packed_payload Text profile 200 1 (le32 15) [0])"
proof -
  let ?p = "toy_profile profile"
  have f: "family_asset toy_assets Text = Ok toy_family" by (simp add: family_asset_def toy_assets_def)
  have p: "profile_asset toy_assets Text profile = Ok ?p"
    using assms by (auto simp: profile_asset_def f toy_family_def toy_profile_def PACKED_PACK16_ID_def PACKED_PACK32_ID_def)
  have codes: "nearest_fsq_code 65 toy_levels = 15" by code_simp
  have enc: "encode_block toy_family ?p toy_block = Ok ([15], replicate 256 65)"
    by (simp add: encode_block_def encode_block_codes_def decode_block_codes_def toy_family_def apply_layers_def
        toy_layer_apply [simplified] toy_block_def pad_block_def BLOCK_LEN_def codes clamp_def toy_profile_def)
  have chunk: "chunks BLOCK_LEN toy_block = [toy_block]"
    by (subst chunks.simps, subst chunks.simps) (simp add: toy_block_def BLOCK_LEN_def)
  have count: "div_ceil (length toy_block) BLOCK_LEN = 1" by (simp add: toy_block_def div_ceil_def BLOCK_LEN_def)
  have zero: "\<forall>v \<in> set (centered_signed_residuals toy_block (take (length toy_block) (replicate 256 65))). v = 0"
    by (auto simp: centered_signed_residuals_def toy_block_def byte_at_def in_set_enumerate_eq)
  have residual: "encode_residual_payload toy_ans (centered_signed_residuals toy_block (take (length toy_block) (replicate 256 65)))
      (fa_residual toy_family) = Ok [0]"
    unfolding encode_residual_payload_def using zero by (simp add: toy_family_def)
  have code: "encode_ans_symbols toy_ans [15] (pa_latent_model ?p) = Ok (le32 15)"
    by (simp add: encode_ans_symbols_def toy_ans_def)
  show ?thesis
    unfolding encode_packed_payload_def f p count chunk and_then.simps Let_def try_map.simps enc
    using residual code by (simp add: toy_block_def)
qed

lemma toy_search:
  "encode_best_exact_payload_with_preference id toy_ans toy_assets \<lparr>esm_source_kind = Text, esm_exact_bytes = toy_block\<rparr>
     PS_Empty None Adaptive = Ok \<lparr>ep_mode = CM_PackedExact,
       ep_payload = build_packed_payload Text PACKED_PACK16_ID 200 1 (le32 15) [0],
       ep_runtime_object = runtime_object_from_material id \<lparr>esm_source_kind = Text, esm_exact_bytes = toy_block\<rparr>\<rparr>"
proof -
  have len: "length toy_block = 200" by (simp add: toy_block_def)
  show ?thesis
    by (simp add: encode_best_exact_payload_with_preference_def len forces_direct_exact_def candidate_profiles_def
        toy_block_packs keep_better_def packed_candidate_wins_def minimum_packed_win_def SMALL_PACKED_WIN_BYTES_def
        encode_direct_exact_payload_def build_packed_payload_def Let_def)
qed

lemma runtime_object_rebuilt_witness:
  "decode_data_payload_to_runtime_object id toy_ans toy_assets
      (build_packed_payload Text PACKED_PACK16_ID 200 1 (le32 15) [0]) CM_PackedExact None None Text OK_ExactState
    = Ok (runtime_object_from_exact_bytes id Text OK_ExactState toy_block)"
  using runtime_object_rebuilt [OF toy_ans_ok toy_assets_ok, of toy_block id Text OK_ExactState PS_Empty None Adaptive]
    toy_search
  by (simp add: encode_best_runtime_object_payload_with_preference_def toy_block_def)

text \<open>
  The length in a packed header is checked against the residuals only, so a peer that states more bytes than its
  blocks hold is answered with the bytes of the blocks: here a header of 300 bytes over one block.
\<close>

lemma packed_length_not_checked:
  fixes payload :: bytes
  defines "payload \<equiv> build_packed_payload Text PACKED_PACK16_ID 300 1 (le32 15) [0]"
  shows "decode_packed_payload toy_ans toy_assets payload = Ok \<lparr>esm_source_kind = Text, esm_exact_bytes = replicate 256 65\<rparr>
    \<and> map_sum id pi_original_len (inspect_data_payload toy_assets payload CM_PackedExact) = Ok 300"
proof -
  note hdr = parse_build [of payload Text PACKED_PACK16_ID 300 1 "le32 15" "[0]", simplified, unfolded payload_def, OF refl]
  have f: "family_asset toy_assets Text = Ok toy_family" by (simp add: family_asset_def toy_assets_def)
  have p: "profile_asset toy_assets Text PACKED_PACK16_ID = Ok (toy_profile PACKED_PACK16_ID)"
    by (simp add: profile_asset_def f toy_family_def toy_profile_def)
  have block: "decode_block_codes toy_family (toy_profile PACKED_PACK16_ID) [15] = Ok (replicate 256 65)"
    by (simp add: decode_block_codes_def toy_profile_def toy_levels_def toy_layer_apply [simplified] toy_family_def
        apply_layers_def clamp_def)
  have "le32 15 \<noteq> []" by (simp flip: length_0_conv)
  then have word: "chunks 4 (le32 15) = [le32 15]" by (subst chunks.simps, subst chunks.simps) simp
  have one: "chunks 1 [15 :: nat] = [[15]]" by (subst chunks.simps, subst chunks.simps) simp
  have residual: "decode_residual_payload toy_ans [0] 300 (fa_residual toy_family) = Ok (replicate 300 0)"
    by (simp add: decode_residual_payload_def toy_family_def)
  have code: "decode_ans_symbols toy_ans (le32 15) 1 (pa_latent_model (toy_profile PACKED_PACK16_ID)) = Ok [15]"
    by (simp add: decode_ans_symbols_def word toy_ans_def)
  have sum: "apply_centered_signed_residuals (take 300 (replicate 256 65)) (replicate 300 0) = replicate 256 65"
    by (rule nth_equalityI) (simp_all add: apply_centered_signed_residuals_def nth_enumerate_eq byte_at_def)
  have dim: "pa_latent_dim (toy_profile PACKED_PACK16_ID) = 1" by (simp add: toy_profile_def)
  show ?thesis
    unfolding payload_def decode_packed_payload_def inspect_data_payload_def
    using hdr code block residual sum one
    by (simp add: f p dim Let_def PACKED_PAYLOAD_HEADER_LEN_def classify_residual_payload_tag_def)
      (simp add: toy_family_def)
qed

end
