(* ===== verification/Pulzz_Memory.thy ===== *)
theory Pulzz_Memory
  imports Pulzz_Source "HOL-Library.List_Lexorder" "HOL-Library.Char_ord" "HOL-Library.Multiset"
begin

text \<open>
  Route statistics, the context-tree governor, lifecycle metadata, the sparse index and the promotion queues
  (\<open>shared_protocol/src/chpmt.rs\<close>).  Counters saturate.  A comparator that chains \<open>then_with\<close> is a sort by
  the list of its keys, negated where the code compares right with left; \<open>sort_by\<close> and \<open>sort_key\<close> are stable.
  Strings of the program are compared by their bytes, as character lists are here.
\<close>

section \<open>Route statistics\<close>

type_synonym ContextHash = u64

fun CRF_disc :: "ControllerRouteFamily \<Rightarrow> nat" where
  "CRF_disc CRF_DirectState = 1"
| "CRF_disc CRF_ExactAtom = 2"
| "CRF_disc CRF_Hybrid = 7"

record RouteStatistics =
  rs_route_family :: ControllerRouteFamily
  rs_source_kind :: "SourceKind option"
  rs_context_hash :: "ContextHash option"
  rs_success_count :: u32
  rs_failure_count :: u32
  rs_last_seen_tick :: u64

definition route_statistics_record :: "u64 \<Rightarrow> bool \<Rightarrow> RouteStatistics \<Rightarrow> RouteStatistics" where
  "route_statistics_record tick success s =
     (let s = s\<lparr>rs_last_seen_tick := tick\<rparr> in
      if success then s\<lparr>rs_success_count := saturating_add (rs_success_count s) 1\<rparr>
      else s\<lparr>rs_failure_count := saturating_add (rs_failure_count s) 1\<rparr>)"

record RouteFeedbackSummary =
  rf_route_family :: ControllerRouteFamily
  rf_total_successes :: u32
  rf_total_failures :: u32
  rf_source_successes :: u32
  rf_source_failures :: u32
  rf_context_successes :: u32
  rf_context_failures :: u32
  rf_recent_successes :: u32
  rf_recent_failures :: u32

definition RECENT_TICK_WINDOW :: u64 where "RECENT_TICK_WINDOW = 256"

definition feedback_step ::
  "SourceKind \<Rightarrow> ContextHash option \<Rightarrow> u64 \<Rightarrow> RouteFeedbackSummary \<Rightarrow> RouteStatistics \<Rightarrow> RouteFeedbackSummary" where
  "feedback_step source_kind context_hash tick f stat =
     (if rs_route_family stat \<noteq> rf_route_family f then f
      else
        let f = f\<lparr>rf_total_successes := saturating_add (rf_total_successes f) (rs_success_count stat),
                  rf_total_failures := saturating_add (rf_total_failures f) (rs_failure_count stat)\<rparr>;
            f = (if rs_source_kind stat = Some source_kind
              then f\<lparr>rf_source_successes := saturating_add (rf_source_successes f) (rs_success_count stat),
                     rf_source_failures := saturating_add (rf_source_failures f) (rs_failure_count stat)\<rparr> else f);
            f = (if context_hash \<noteq> None \<and> rs_context_hash stat = context_hash
              then f\<lparr>rf_context_successes := saturating_add (rf_context_successes f) (rs_success_count stat),
                     rf_context_failures := saturating_add (rf_context_failures f) (rs_failure_count stat)\<rparr> else f) in
        if saturating_sub tick (rs_last_seen_tick stat) \<le> RECENT_TICK_WINDOW
        then f\<lparr>rf_recent_successes := saturating_add (rf_recent_successes f) (rs_success_count stat),
               rf_recent_failures := saturating_add (rf_recent_failures f) (rs_failure_count stat)\<rparr> else f)"

definition summarize_route_feedback ::
  "ControllerRouteFamily \<Rightarrow> SourceKind \<Rightarrow> ContextHash option \<Rightarrow> u64 \<Rightarrow> RouteStatistics list \<Rightarrow> RouteFeedbackSummary" where
  "summarize_route_feedback route_family source_kind context_hash tick statistics =
     foldl (feedback_step source_kind context_hash tick)
       \<lparr>rf_route_family = route_family, rf_total_successes = 0, rf_total_failures = 0, rf_source_successes = 0,
        rf_source_failures = 0, rf_context_successes = 0, rf_context_failures = 0, rf_recent_successes = 0,
        rf_recent_failures = 0\<rparr> statistics"

definition planner_prior_gain :: "RouteFeedbackSummary \<Rightarrow> u32" where
  "planner_prior_gain f =
     min (saturating_add (saturating_add (rf_total_successes f div 2) (rf_source_successes f))
       (saturating_mul (rf_context_successes f) 2)) 96"

definition planner_failure_penalty :: "RouteFeedbackSummary \<Rightarrow> u32" where
  "planner_failure_penalty f =
     min (saturating_add (saturating_add (rf_total_failures f div 2) (rf_source_failures f))
       (saturating_mul (rf_context_failures f) 2)) 128"

definition success_promotion_gain :: "RouteFeedbackSummary \<Rightarrow> u32" where
  "success_promotion_gain f =
     (if rf_recent_successes f \<ge> 3 \<and> rf_recent_successes f > rf_recent_failures f
      then min (saturating_mul (rf_recent_successes f) 6) 48 else 0)"

definition suppression_penalty :: "RouteFeedbackSummary \<Rightarrow> u32" where
  "suppression_penalty f =
     (if rf_recent_failures f \<ge> 3 \<and> rf_recent_failures f > rf_recent_successes f
      then min (saturating_mul (rf_recent_failures f) 12) 160 else 0)"

definition suppressed :: "RouteFeedbackSummary \<Rightarrow> bool" where
  "suppressed f \<longleftrightarrow> suppression_penalty f \<ge> 72"

record RouteScoreInputs =
  ri_wire_cost :: u32
  ri_decode_cost :: u32
  ri_residual_cost :: u32
  ri_sync_risk :: u32
  ri_ambiguity :: u32
  ri_novelty :: u32
  ri_support_gain :: u32
  ri_predictive_match_gain :: u32
  ri_temporal_continuation_gain :: u32
  ri_schema_reuse_gain :: u32
  ri_adaptive_prior_gain :: u32
  ri_adaptive_failure_penalty :: u32
  ri_adaptive_promotion_gain :: u32
  ri_adaptive_suppression_penalty :: u32

record RouteScoreBreakdown =
  rb_base_gains :: u32
  rb_base_penalties :: u32
  rb_adaptive_prior_gain :: u32
  rb_adaptive_failure_penalty :: u32
  rb_adaptive_promotion_gain :: u32
  rb_adaptive_suppression_penalty :: u32

record RouteScore =
  sc_total :: "32 word"
  sc_precision_band :: PrecisionBand
  sc_breakdown :: RouteScoreBreakdown

text \<open>\<open>as i32\<close> reads the same 32 bits as a signed number; the sums below are of words, as in a release build.\<close>

definition score_route :: "RouteScoreInputs \<Rightarrow> PrecisionBand \<Rightarrow> RouteScore" where
  "score_route i precision_band =
     (let base_gains = foldl saturating_add (ri_support_gain i) [ri_predictive_match_gain i,
            ri_temporal_continuation_gain i, ri_schema_reuse_gain i, ucast (score_value precision_band)];
          base_penalties = foldl saturating_add (ri_wire_cost i) [ri_decode_cost i, ri_residual_cost i,
            ri_sync_risk i, ri_ambiguity i, ri_novelty i];
          adaptive_gains = saturating_add (ri_adaptive_prior_gain i) (ri_adaptive_promotion_gain i);
          adaptive_penalties = saturating_add (ri_adaptive_failure_penalty i) (ri_adaptive_suppression_penalty i) in
      \<lparr>sc_total = base_gains + adaptive_gains - base_penalties - adaptive_penalties,
       sc_precision_band = precision_band,
       sc_breakdown = \<lparr>rb_base_gains = base_gains, rb_base_penalties = base_penalties,
         rb_adaptive_prior_gain = ri_adaptive_prior_gain i,
         rb_adaptive_failure_penalty = ri_adaptive_failure_penalty i,
         rb_adaptive_promotion_gain = ri_adaptive_promotion_gain i,
         rb_adaptive_suppression_penalty = ri_adaptive_suppression_penalty i\<rparr>\<rparr>)"

section \<open>The context tree\<close>

datatype DelimiterClass = DC_None | DC_Sparse | DC_Structured | DC_Dense
datatype SlotShapeBucket = SS_None | SS_Narrow | SS_Medium | SS_Wide
datatype ResidualSizeBucket = RB_None | RB_Tiny | RB_Small | RB_Medium | RB_Large
datatype SyncStateBucket = SY_Stable | SY_Warm | SY_Risky | SY_Repairing

datatype SchemaKind = SK_Sequence | SK_Template | SK_Alternation | SK_Permutation | SK_Expansion

datatype TransformTransducerFamily =
    TF_LegacyPatch | TF_SlotBind | TF_BoundedSubstitute | TF_DelimiterPreservingRewrite | TF_BoundedReorder
  | TF_MotifDuplicateCompress | TF_RolePermutation | TF_MirrorSymmetry | TF_SchemaConditionedExpansion
  | TF_RecursiveMacroExpansion | TF_TokenDictionary

text \<open>Discriminants, by the position in the declaration, counted from 1.\<close>

fun DelimiterClass_disc :: "DelimiterClass \<Rightarrow> u16" where
  "DelimiterClass_disc DC_None = 1"
| "DelimiterClass_disc DC_Sparse = 2"
| "DelimiterClass_disc DC_Structured = 3"
| "DelimiterClass_disc DC_Dense = 4"

fun SlotShapeBucket_disc :: "SlotShapeBucket \<Rightarrow> u16" where
  "SlotShapeBucket_disc SS_None = 1"
| "SlotShapeBucket_disc SS_Narrow = 2"
| "SlotShapeBucket_disc SS_Medium = 3"
| "SlotShapeBucket_disc SS_Wide = 4"

fun ResidualSizeBucket_disc :: "ResidualSizeBucket \<Rightarrow> u16" where
  "ResidualSizeBucket_disc RB_None = 1"
| "ResidualSizeBucket_disc RB_Tiny = 2"
| "ResidualSizeBucket_disc RB_Small = 3"
| "ResidualSizeBucket_disc RB_Medium = 4"
| "ResidualSizeBucket_disc RB_Large = 5"

fun SyncStateBucket_disc :: "SyncStateBucket \<Rightarrow> u16" where
  "SyncStateBucket_disc SY_Stable = 1"
| "SyncStateBucket_disc SY_Warm = 2"
| "SyncStateBucket_disc SY_Risky = 3"
| "SyncStateBucket_disc SY_Repairing = 4"

fun SchemaKind_disc :: "SchemaKind \<Rightarrow> u16" where
  "SchemaKind_disc SK_Sequence = 1"
| "SchemaKind_disc SK_Template = 2"
| "SchemaKind_disc SK_Alternation = 3"
| "SchemaKind_disc SK_Permutation = 4"
| "SchemaKind_disc SK_Expansion = 5"

fun TransformTransducerFamily_disc :: "TransformTransducerFamily \<Rightarrow> u16" where
  "TransformTransducerFamily_disc TF_LegacyPatch = 1"
| "TransformTransducerFamily_disc TF_SlotBind = 2"
| "TransformTransducerFamily_disc TF_BoundedSubstitute = 3"
| "TransformTransducerFamily_disc TF_DelimiterPreservingRewrite = 4"
| "TransformTransducerFamily_disc TF_BoundedReorder = 5"
| "TransformTransducerFamily_disc TF_MotifDuplicateCompress = 6"
| "TransformTransducerFamily_disc TF_RolePermutation = 7"
| "TransformTransducerFamily_disc TF_MirrorSymmetry = 8"
| "TransformTransducerFamily_disc TF_SchemaConditionedExpansion = 9"
| "TransformTransducerFamily_disc TF_RecursiveMacroExpansion = 10"
| "TransformTransducerFamily_disc TF_TokenDictionary = 11"

type_synonym LagBucket = u16

definition delimiter_class_from_cue :: "SparseCue \<Rightarrow> DelimiterClass" where
  "delimiter_class_from_cue cue =
     (let active = count_ones (cue_delimiter_bits cue) in
      if active = 0 then DC_None else if active \<le> 2 then DC_Sparse else if active \<le> 5 then DC_Structured else DC_Dense)"

definition slot_shape_from_slot_count :: "nat \<Rightarrow> SlotShapeBucket" where
  "slot_shape_from_slot_count n =
     (if n = 0 then SS_None else if n \<le> 2 then SS_Narrow else if n \<le> 4 then SS_Medium else SS_Wide)"

definition residual_bucket_from_bytes :: "u32 \<Rightarrow> ResidualSizeBucket" where
  "residual_bucket_from_bytes n =
     (if n = 0 then RB_None else if n \<le> 16 then RB_Tiny else if n \<le> 64 then RB_Small
      else if n \<le> 256 then RB_Medium else RB_Large)"

definition sync_state_from_sync_risk :: "u32 \<Rightarrow> SyncStateBucket" where
  "sync_state_from_sync_risk n =
     (if n \<le> 8 then SY_Stable else if n \<le> 24 then SY_Warm else if n \<le> 63 then SY_Risky else SY_Repairing)"

definition lag_bucket_from_distance :: "u32 \<Rightarrow> LagBucket" where
  "lag_bucket_from_distance n =
     (if n \<le> 1 then 0 else if n \<le> 2 then 1 else if n \<le> 4 then 2 else if n \<le> 8 then 3
      else if n \<le> 16 then 4 else if n \<le> 32 then 5 else 6)"

record ContextTreeSymbol =
  cs_route_family :: ControllerRouteFamily
  cs_delimiter_class :: DelimiterClass
  cs_slot_shape :: SlotShapeBucket
  cs_prior_schema_kind :: "SchemaKind option"
  cs_prior_transform_family :: "TransformTransducerFamily option"
  cs_lag_bucket :: LagBucket
  cs_residual_bucket :: ResidualSizeBucket
  cs_sync_state :: SyncStateBucket

definition symbol_atoms :: "ContextTreeSymbol \<Rightarrow> u16 list" where
  "symbol_atoms s =
     [of_nat (CRF_disc (cs_route_family s)), DelimiterClass_disc (cs_delimiter_class s), SlotShapeBucket_disc (cs_slot_shape s),
      (case cs_prior_schema_kind s of Some k \<Rightarrow> SchemaKind_disc k | None \<Rightarrow> 0),
      (case cs_prior_transform_family s of Some f \<Rightarrow> TransformTransducerFamily_disc f | None \<Rightarrow> 0),
      cs_lag_bucket s, ResidualSizeBucket_disc (cs_residual_bucket s), SyncStateBucket_disc (cs_sync_state s)]"

record ContextTreeOutcome =
  co_success :: bool
  co_fallback :: bool
  co_sync_failure :: bool
  co_contradiction_mass :: u32

record ContextTreeNodeStats =
  cn_observations :: u32
  cn_successes :: u32
  cn_failures :: u32
  cn_fallbacks :: u32
  cn_sync_failures :: u32
  cn_contradiction_mass :: u32

definition node_stats_default :: ContextTreeNodeStats where
  "node_stats_default = \<lparr>cn_observations = 0, cn_successes = 0, cn_failures = 0, cn_fallbacks = 0, cn_sync_failures = 0,
     cn_contradiction_mass = 0\<rparr>"

definition node_stats_record :: "ContextTreeOutcome \<Rightarrow> ContextTreeNodeStats \<Rightarrow> ContextTreeNodeStats" where
  "node_stats_record out s =
     \<lparr>cn_observations = saturating_add (cn_observations s) 1,
      cn_successes = (if co_success out then saturating_add (cn_successes s) 1 else cn_successes s),
      cn_failures = (if co_success out then cn_failures s else saturating_add (cn_failures s) 1),
      cn_fallbacks = (if co_fallback out then saturating_add (cn_fallbacks s) 1 else cn_fallbacks s),
      cn_sync_failures = (if co_sync_failure out then saturating_add (cn_sync_failures s) 1 else cn_sync_failures s),
      cn_contradiction_mass = saturating_add (cn_contradiction_mass s) (co_contradiction_mass out)\<rparr>"

record ContextTreeGovernor =
  cg_max_depth :: u8
  cg_stats :: "(u16 list, ContextTreeNodeStats) ord_map"

definition governor_default :: ContextTreeGovernor where
  "governor_default = \<lparr>cg_max_depth = 4, cg_stats = []\<rparr>"

definition governor_depths :: "ContextTreeGovernor \<Rightarrow> nat list" where
  "governor_depths g = [1..<Suc (min (unat (max (cg_max_depth g) 1)) 8)]"

definition governor_observe :: "ContextTreeSymbol \<Rightarrow> ContextTreeOutcome \<Rightarrow> ContextTreeGovernor \<Rightarrow> ContextTreeGovernor" where
  "governor_observe symbol out g =
     g\<lparr>cg_stats := foldl (\<lambda>stats depth. om_update (take depth (symbol_atoms symbol)) (node_stats_record out)
         node_stats_default stats) (cg_stats g) (governor_depths g)\<rparr>"

record RouteGovernorSignal =
  gs_route_family :: ControllerRouteFamily
  gs_prior_gain :: u32
  gs_failure_penalty :: u32
  gs_suppression_penalty :: u32
  gs_residual_penalty :: u32
  gs_sync_penalty :: u32

text \<open>The weighted sum of one counter over the nodes on the path of a symbol.\<close>

definition weighted_counter ::
  "(ContextTreeNodeStats \<Rightarrow> u32) \<Rightarrow> (nat \<times> ContextTreeNodeStats) list \<Rightarrow> u32" where
  "weighted_counter counter nodes =
     foldl (\<lambda>acc (depth, stats). saturating_add acc (saturating_mul (counter stats) (of_nat depth))) 0 nodes"

definition governor_path :: "ContextTreeGovernor \<Rightarrow> ContextTreeSymbol \<Rightarrow> (nat \<times> ContextTreeNodeStats) list" where
  "governor_path g symbol =
     List.map_filter (\<lambda>depth. map_option (Pair depth) (om_get (cg_stats g) (take depth (symbol_atoms symbol))))
       (governor_depths g)"

definition governor_signal_for :: "ContextTreeGovernor \<Rightarrow> ContextTreeSymbol \<Rightarrow> RouteGovernorSignal" where
  "governor_signal_for g symbol =
     (let nodes = governor_path g symbol;
          weight_total = foldl (\<lambda>acc (depth, _). saturating_add acc (of_nat depth)) 0 nodes in
      if weight_total = 0
      then \<lparr>gs_route_family = cs_route_family symbol, gs_prior_gain = 0, gs_failure_penalty = 0,
            gs_suppression_penalty = 0, gs_residual_penalty = 0, gs_sync_penalty = 0\<rparr>
      else
        let success_score = weighted_counter cn_successes nodes div weight_total;
            failure_score = weighted_counter cn_failures nodes div weight_total;
            fallback_score = weighted_counter cn_fallbacks nodes div weight_total;
            sync_failure_score = weighted_counter cn_sync_failures nodes div weight_total;
            contradiction_score = weighted_counter cn_contradiction_mass nodes div weight_total;
            bad = saturating_add (saturating_add failure_score fallback_score) sync_failure_score in
        \<lparr>gs_route_family = cs_route_family symbol,
         gs_prior_gain = min (saturating_sub (saturating_mul success_score 10) (saturating_mul failure_score 2)) 96,
         gs_failure_penalty = min (saturating_add (saturating_mul failure_score 8) (saturating_mul fallback_score 6)) 128,
         gs_suppression_penalty = (if bad > success_score then min (saturating_mul bad 6) 160 else 0),
         gs_residual_penalty = min (contradiction_score div 8) 48,
         gs_sync_penalty = min (saturating_mul sync_failure_score 8) 48\<rparr>)"

section \<open>Lifecycles\<close>

datatype PromotionLevel = PL_Cold | PL_Warm | PL_Stable | PL_Promoted | PL_Canonical

record ObjectLifecycleMeta =
  lm_support_count :: u32
  lm_success_count :: u32
  lm_failure_count :: u32
  lm_salience :: u32
  lm_creation_tick :: u64
  lm_last_seen_tick :: u64
  lm_promotion_level :: PromotionLevel
  lm_consolidation_count :: u32
  lm_last_consolidated_tick :: u64
  lm_ontology_family_id :: "u32 option"
  lm_ontology_subfamily_id :: "u32 option"

definition lifecycle_default :: ObjectLifecycleMeta where
  "lifecycle_default = \<lparr>lm_support_count = 0, lm_success_count = 0, lm_failure_count = 0, lm_salience = 0,
     lm_creation_tick = 0, lm_last_seen_tick = 0, lm_promotion_level = PL_Cold, lm_consolidation_count = 0,
     lm_last_consolidated_tick = 0, lm_ontology_family_id = None, lm_ontology_subfamily_id = None\<rparr>"

definition record_seen :: "u64 \<Rightarrow> bool \<Rightarrow> ObjectLifecycleMeta \<Rightarrow> ObjectLifecycleMeta" where
  "record_seen tick success m =
     (let m = m\<lparr>lm_support_count := saturating_add (lm_support_count m) 1, lm_last_seen_tick := tick\<rparr> in
      if success then m\<lparr>lm_success_count := saturating_add (lm_success_count m) 1\<rparr>
      else m\<lparr>lm_failure_count := saturating_add (lm_failure_count m) 1\<rparr>)"

definition record_consolidated :: "u64 \<Rightarrow> ObjectLifecycleMeta \<Rightarrow> ObjectLifecycleMeta" where
  "record_consolidated tick m =
     m\<lparr>lm_consolidation_count := saturating_add (lm_consolidation_count m) 1, lm_last_consolidated_tick := tick\<rparr>"

definition assign_dynamic_family :: "u32 \<Rightarrow> u32 option \<Rightarrow> ObjectLifecycleMeta \<Rightarrow> ObjectLifecycleMeta" where
  "assign_dynamic_family family_id subfamily_id m =
     m\<lparr>lm_ontology_family_id := Some family_id, lm_ontology_subfamily_id := subfamily_id\<rparr>"

section \<open>The sparse index\<close>

fun MemoryPlane_disc :: "MemoryPlane \<Rightarrow> nat" where
  "MemoryPlane_disc AtomSubstrate = 1"
| "MemoryPlane_disc AssemblyPlane = 2"
| "MemoryPlane_disc TransformPlane = 3"
| "MemoryPlane_disc Episode = 4"
| "MemoryPlane_disc SchemaPlane = 5"
| "MemoryPlane_disc Controller = 6"

fun RouteFamily_disc :: "RouteFamily \<Rightarrow> nat" where
  "RouteFamily_disc RF_DirectState = 1"
| "RouteFamily_disc RF_PredictiveConfirm = 2"
| "RouteFamily_disc RF_PredictiveCorrect = 3"
| "RouteFamily_disc RF_Replay = 8"
| "RouteFamily_disc RF_ExactAtom = 9"

fun PrecisionBand_disc :: "PrecisionBand \<Rightarrow> nat" where
  "PrecisionBand_disc PB_Exact = 1"
| "PrecisionBand_disc PB_Tight = 2"
| "PrecisionBand_disc PB_Balanced = 3"
| "PrecisionBand_disc PB_Broad = 4"
| "PrecisionBand_disc PB_Background = 5"

record SparseIndexKey =
  ik_source_kind :: SourceKind
  ik_family :: CueFamily
  ik_cue :: SparseCue

definition partition_key :: "SparseIndexKey \<Rightarrow> string" where
  "partition_key k =
     source_slug (ik_source_kind k) @ concat (map (\<lambda>n. '':'' @ show_nat n)
       [MemoryPlane_disc (cf_plane (ik_family k)), RouteFamily_disc (cf_route_family (ik_family k)),
        ObjectKind_disc (cf_object_kind (ik_family k)), PrecisionBand_disc (cf_precision_band (ik_family k)),
        unat (cue_family_bits (ik_cue k)), unat (cue_length_bucket_bits (ik_cue k)), unat (cue_delimiter_bits (ik_cue k))])"

record SparseIndexEntry =
  ie_object_id :: string
  ie_source_kind :: SourceKind
  ie_object_kind :: ObjectKind
  ie_cue :: SparseCue
  ie_lifecycle :: ObjectLifecycleMeta

type_synonym SparseIndexTable = "(string, SparseIndexEntry list) ord_map"

fun replace_or_push :: "SparseIndexEntry \<Rightarrow> SparseIndexEntry list \<Rightarrow> SparseIndexEntry list" where
  "replace_or_push entry [] = [entry]"
| "replace_or_push entry (e # es) =
     (if ie_object_id e = ie_object_id entry then entry # es else e # replace_or_push entry es)"

definition index_insert :: "SparseIndexKey \<Rightarrow> SparseIndexEntry \<Rightarrow> SparseIndexTable \<Rightarrow> SparseIndexTable" where
  "index_insert key entry table = om_update (partition_key key) (replace_or_push entry) [] table"

record CompletionQuery =
  cq_cue :: SparseCue
  cq_family_filter :: "SourceKind option"
  cq_max_candidates :: u16
  cq_admissible_object_kinds :: "ObjectKind list"

definition completion_query_bounded ::
  "SparseCue \<Rightarrow> SourceKind option \<Rightarrow> u16 \<Rightarrow> ObjectKind list \<Rightarrow> CompletionQuery" where
  "completion_query_bounded cue family_filter max_candidates kinds =
     \<lparr>cq_cue = cue, cq_family_filter = family_filter, cq_max_candidates = max max_candidates 1,
      cq_admissible_object_kinds = kinds\<rparr>"

record CompletionCandidate =
  cc_object_id :: string
  cc_source_kind :: SourceKind
  cc_object_kind :: ObjectKind
  cc_cue_overlap :: u32
  cc_lifecycle :: ObjectLifecycleMeta
  cc_cue :: SparseCue

definition query_admits :: "CompletionQuery \<Rightarrow> SparseIndexEntry \<Rightarrow> bool" where
  "query_admits q e \<longleftrightarrow>
     (case cq_family_filter q of Some k \<Rightarrow> ie_source_kind e = k | None \<Rightarrow> True)
     \<and> (cq_admissible_object_kinds q = [] \<or> ie_object_kind e \<in> set (cq_admissible_object_kinds q))
     \<and> overlap_score (ie_cue e) (cq_cue q) \<noteq> 0"

definition candidate_of :: "CompletionQuery \<Rightarrow> SparseIndexEntry \<Rightarrow> CompletionCandidate" where
  "candidate_of q e =
     \<lparr>cc_object_id = ie_object_id e, cc_source_kind = ie_source_kind e, cc_object_kind = ie_object_kind e,
      cc_cue_overlap = overlap_score (ie_cue e) (cq_cue q), cc_lifecycle = ie_lifecycle e, cc_cue = ie_cue e\<rparr>"

definition text_key :: "string \<Rightarrow> int list" where
  "text_key s = map of_char s"

definition candidate_rank :: "CompletionCandidate \<Rightarrow> int list" where
  "candidate_rank c =
     [- uint (cc_cue_overlap c), - uint (lm_salience (cc_lifecycle c)), - uint (lm_support_count (cc_lifecycle c))]
       @ text_key (cc_object_id c)"

definition index_query :: "SparseIndexTable \<Rightarrow> CompletionQuery \<Rightarrow> CompletionCandidate list" where
  "index_query table q =
     take (unat (cq_max_candidates q)) (sort_key candidate_rank
       (map (candidate_of q) (filter (query_admits q) (concat (map snd table)))))"

section \<open>Tables that are counted into\<close>

lemma om_get_fold_update:
  "distinct ks \<Longrightarrow> om_get (foldl (\<lambda>m k. om_update k f d m) m ks)
    = (\<lambda>k. if k \<in> set ks then Some (f (case om_get m k of Some v \<Rightarrow> v | None \<Rightarrow> d)) else om_get m k)"
  by (induction ks arbitrary: m) (auto simp: om_get_update)

text \<open>What a table holds for a key after a series of updates, each of several keys: the effects of those that name it.\<close>

definition effects_on :: "('h \<Rightarrow> 'k list) \<Rightarrow> 'k \<Rightarrow> 'h list \<Rightarrow> 'h list" where
  "effects_on keys k hist = filter (\<lambda>h. k \<in> set (keys h)) hist"

lemma om_get_history:
  fixes keys :: "'h \<Rightarrow> 'k::linorder list"
  assumes "\<And>h. distinct (keys h)"
  shows "om_get (foldl (\<lambda>m h. foldl (\<lambda>m k. om_update k (f h) d m) m (keys h)) [] hist) k
    = (if effects_on keys k hist = [] then None else Some (foldl (\<lambda>v h. f h v) d (effects_on keys k hist)))"
proof (induction hist rule: rev_induct)
  case (snoc h hist)
  then show ?case by (auto simp: om_get_fold_update [OF assms] effects_on_def)
qed (simp add: effects_on_def)

lemma om_ok_history:
  "om_ok m \<Longrightarrow> om_ok (foldl (\<lambda>m h. foldl (\<lambda>m k. om_update k (f h) d m) m (keys h)) m hist)"
proof (induction hist arbitrary: m)
  case (Cons h hist)
  have step: "om_ok (foldl (\<lambda>m k. om_update k (f h) d m) m ks)" if "om_ok m" for m ks
    using that by (induction ks arbitrary: m) (simp_all add: om_ok_update)
  show ?case using Cons.IH [OF step [OF Cons.prems]] by simp
qed simp

lemma unat_saturating_count: "unat (foldl (\<lambda>n _. saturating_add n 1) (0 :: 'a::len word) hs) = min (length hs) (2 ^ LENGTH('a) - 1)"
proof (induction hs rule: rev_induct)
  case (snoc h hs)
  have one: "unat (1 :: 'a word) \<le> 1" by simp
  show ?case
  proof (cases "LENGTH('a) = 0")
    case True
    then show ?thesis by simp
  next
    case False
    then show ?thesis using snoc by (simp add: unat_saturating_add)
  qed
qed simp

section \<open>The governor\<close>

definition governor_keys :: "ContextTreeSymbol \<times> ContextTreeOutcome \<Rightarrow> u16 list list" where
  "governor_keys = (\<lambda>(symbol, _). map (\<lambda>depth. take depth (symbol_atoms symbol)) [1..<5])"

lemma length_atoms [simp]: "length (symbol_atoms s) = 8"
  by (simp add: symbol_atoms_def)

lemma governor_keys_distinct: "distinct (governor_keys h)"
proof -
  obtain symbol out where h: "h = (symbol, out)" by (cases h)
  have "inj_on (\<lambda>depth. take depth (symbol_atoms symbol)) {1..<5}"
    by (rule inj_onI) (auto dest!: arg_cong [of _ _ length])
  then show ?thesis by (simp add: governor_keys_def h distinct_map)
qed

lemma governor_fold:
  assumes "cg_max_depth g = 4"
  shows "foldl (\<lambda>g (symbol, out). governor_observe symbol out g) g hist
    = g\<lparr>cg_stats := foldl (\<lambda>m h. foldl (\<lambda>m k. om_update k (node_stats_record (snd h)) node_stats_default m) m (governor_keys h))
        (cg_stats g) hist\<rparr>"
  using assms
proof (induction hist arbitrary: g)
  case (Cons h hist)
  obtain symbol out where h: "h = (symbol, out)" by (cases h)
  have depths: "governor_depths g = [1..<5]" using Cons.prems by (simp add: governor_depths_def)
  have "governor_observe symbol out g = g\<lparr>cg_stats := foldl (\<lambda>m k. om_update k (node_stats_record (snd h)) node_stats_default m)
      (cg_stats g) (governor_keys h)\<rparr>"
    by (simp add: governor_observe_def depths governor_keys_def h foldl_map)
  then show ?case using Cons.IH [of "governor_observe symbol out g"] Cons.prems by (simp add: h)
qed simp

definition outcomes_at :: "u16 list \<Rightarrow> (ContextTreeSymbol \<times> ContextTreeOutcome) list \<Rightarrow> ContextTreeOutcome list" where
  "outcomes_at prefix hist =
     map snd (filter (\<lambda>(symbol, _). length prefix \<in> {1..4} \<and> prefix = take (length prefix) (symbol_atoms symbol)) hist)"

lemma effects_on_governor: "map snd (effects_on governor_keys prefix hist) = outcomes_at prefix hist"
proof -
  have "prefix \<in> set (governor_keys h) \<longleftrightarrow>
      length prefix \<in> {1..4} \<and> prefix = take (length prefix) (symbol_atoms (fst h))" for h
    by (auto simp: governor_keys_def split_def image_iff)
  then show ?thesis by (simp add: effects_on_def outcomes_at_def split_def)
qed

text \<open>C24: the governor learns by prefixes: after any sequence of observations a fresh governor holds, for every prefix
  of up to four atoms, exactly the statistics of the observations whose symbol starts with it, and nothing for a
  prefix that never occurred.\<close>

theorem governor_statistics:
  "om_get (cg_stats (foldl (\<lambda>g (symbol, out). governor_observe symbol out g) governor_default hist)) prefix
    = (if outcomes_at prefix hist = [] then None
       else Some (foldl (\<lambda>s out. node_stats_record out s) node_stats_default (outcomes_at prefix hist)))"
proof -
  have "cg_max_depth governor_default = 4" by (simp add: governor_default_def)
  from governor_fold [OF this, of hist] show ?thesis
    by (simp add: governor_default_def om_get_history [of governor_keys "\<lambda>h. node_stats_record (snd h)"]
        governor_keys_distinct flip: effects_on_governor) (simp add: foldl_map)
qed

text \<open>The default depth is 4, so four of the eight atoms are never looked at.\<close>

lemma governor_ignores_late_atoms:
  assumes "cg_max_depth g = 4" and "take 4 (symbol_atoms s) = take 4 (symbol_atoms t)" and "cs_route_family s = cs_route_family t"
  shows "governor_signal_for g s = governor_signal_for g t"
proof -
  have "take depth (symbol_atoms s) = take depth (symbol_atoms t)" if "depth \<in> set (governor_depths g)" for depth
  proof -
    have "min depth 4 = depth" using that by (auto simp: governor_depths_def assms(1))
    then show ?thesis using arg_cong [OF assms(2), of "take depth"] by simp
  qed
  then have path: "governor_path g s = governor_path g t"
    by (simp add: governor_path_def List.map_filter_def cong: map_cong filter_cong)
  show ?thesis unfolding governor_signal_for_def path assms(3) ..
qed

section \<open>What a query returns\<close>

text \<open>A query returns the best admissible entries, and all of them when they are not more than asked for.\<close>

lemma index_query_best:
  "\<exists>rest. mset (index_query table q) + mset rest = mset (map (candidate_of q) (filter (query_admits q) (concat (map snd table))))
    \<and> sorted (map candidate_rank (index_query table q @ rest))
    \<and> (length (index_query table q) < unat (cq_max_candidates q) \<longrightarrow> rest = [])"
proof -
  let ?all = "sort_key candidate_rank (map (candidate_of q) (filter (query_admits q) (concat (map snd table))))"
  let ?n = "unat (cq_max_candidates q)"
  have "mset (take ?n ?all) + mset (drop ?n ?all) = mset ?all" by (simp flip: mset_append)
  moreover have "sorted (map candidate_rank (take ?n ?all @ drop ?n ?all))" by simp
  ultimately show ?thesis unfolding index_query_def by (intro exI [of _ "drop ?n ?all"]) (auto simp: min_def)
qed

text \<open>
  Objects are looked up within a partition only, so an object that is indexed again with another cue stays in the
  old partition too, and a query may return it twice, once with outdated metadata.
\<close>

definition sample_entry :: "u64 \<Rightarrow> u32 \<Rightarrow> SparseIndexEntry" where
  "sample_entry delimiters salience =
     \<lparr>ie_object_id = ''item:7'', ie_source_kind = Text, ie_object_kind = OK_ExactState,
      ie_cue = \<lparr>cue_family_bits = 1, cue_role_bits = 2, cue_delimiter_bits = delimiters, cue_length_bucket_bits = 8,
        cue_temporal_bits = 0\<rparr>,
      ie_lifecycle = lifecycle_default\<lparr>lm_salience := salience\<rparr>\<rparr>"

definition sample_key :: "SparseIndexEntry \<Rightarrow> SparseIndexKey" where
  "sample_key e = \<lparr>ik_source_kind = Text, ik_family = \<lparr>cf_plane = AtomSubstrate, cf_route_family = RF_DirectState,
     cf_object_kind = OK_ExactState, cf_precision_band = PB_Exact\<rparr>, ik_cue = ie_cue e\<rparr>"

lemma reindexed_object_found_twice:
  "map (\<lambda>c. (cc_object_id c, lm_salience (cc_lifecycle c))) (index_query
     (index_insert (sample_key (sample_entry 4 9)) (sample_entry 4 9)
       (index_insert (sample_key (sample_entry 16 5)) (sample_entry 16 5) []))
     (completion_query_bounded (ie_cue (sample_entry 4 9)) None 8 []))
   = [(''item:7'', 9), (''item:7'', 5)]"
  by code_simp

end
