(* ===== verification/Pulzz_Episode.thy ===== *)
theory Pulzz_Episode
  imports Pulzz_Memory Pulzz_Kernels
begin

text \<open>
  The episode memory (\<open>shared_protocol/src/chpmt.rs\<close>): the working trace, the short episode with its nodes and
  edges, the clusters by context, the sparse traces, and the model of continuations.  The client appends an
  activation for every record it applies and reports the outcome of every route.
\<close>

section \<open>Events, nodes and traces\<close>

record EpisodeObjectRef =
  eo_object_kind :: ObjectKind
  eo_object_id :: string

definition object_ref_default :: EpisodeObjectRef where
  "object_ref_default = \<lparr>eo_object_kind = OK_AtomFragment, eo_object_id = ''''\<rparr>"

record EpisodeNode =
  en_node_id :: u64
  en_plane :: MemoryPlane
  en_source_kind :: SourceKind
  en_object_ref :: EpisodeObjectRef
  en_context_hash :: ContextHash
  en_lifecycle :: ObjectLifecycleMeta

record EpisodeEdge =
  ee_edge_id :: u64
  ee_from_node :: u64
  ee_to_node :: u64
  ee_lag_bucket :: LagBucket
  ee_transition_count :: u32
  ee_branch_rank :: u16
  ee_context_hash :: ContextHash
  ee_lifecycle :: ObjectLifecycleMeta

record EpisodeActivationEvent =
  ev_source_kind :: SourceKind
  ev_object_ref :: EpisodeObjectRef
  ev_cue :: SparseCue
  ev_context_hash :: ContextHash
  ev_tick :: u64
  ev_success :: bool

record EpisodeObjectTransition =
  tr_from_kind :: ObjectKind
  tr_to_kind :: ObjectKind

record EpisodeRouteWinTrace =
  rw_success_by_route :: "(nat, u32) ord_map"
  rw_failure_by_route :: "(nat, u32) ord_map"
  rw_total_successes :: u32
  rw_total_failures :: u32
  rw_last_route :: "ControllerRouteFamily option"

definition route_wins_default :: EpisodeRouteWinTrace where
  "route_wins_default = \<lparr>rw_success_by_route = [], rw_failure_by_route = [], rw_total_successes = 0,
     rw_total_failures = 0, rw_last_route = None\<rparr>"

definition route_wins_record :: "ControllerRouteFamily \<Rightarrow> bool \<Rightarrow> EpisodeRouteWinTrace \<Rightarrow> bool \<times> EpisodeRouteWinTrace" where
  "route_wins_record route_family success w =
     (let w = w\<lparr>rw_last_route := Some route_family\<rparr>; tag = CRF_disc route_family in
      if success then
        (case om_get (rw_success_by_route w) tag of Some n \<Rightarrow> n = 0 | None \<Rightarrow> True,
         w\<lparr>rw_success_by_route := om_update tag (\<lambda>n. saturating_add n 1) 0 (rw_success_by_route w),
           rw_total_successes := saturating_add (rw_total_successes w) 1\<rparr>)
      else
        (False,
         w\<lparr>rw_failure_by_route := om_update tag (\<lambda>n. saturating_add n 1) 0 (rw_failure_by_route w),
           rw_total_failures := saturating_add (rw_total_failures w) 1\<rparr>))"

definition route_support_score :: "EpisodeRouteWinTrace \<Rightarrow> u32" where
  "route_support_score w =
     saturating_sub (saturating_mul (rw_total_successes w) 8) (saturating_mul (rw_total_failures w) 3)"

record SparseEpisodeTrace =
  st_trace_id :: u64
  st_lookup_key :: EpisodeTraceLookupKey
  st_family_partition :: u64
  st_collision_slot :: u16
  st_source_kind :: SourceKind
  st_cue :: SparseCue
  st_cue_bits :: u64
  st_role_bits :: u64
  st_boundary_bits :: u64
  st_lag_bucket :: LagBucket
  st_transition :: EpisodeObjectTransition
  st_object_ref :: EpisodeObjectRef
  st_support_count :: u32
  st_recency_tick :: u64
  st_salience :: u32
  st_route_wins :: EpisodeRouteWinTrace

definition plane_for_object_kind :: "ObjectKind \<Rightarrow> MemoryPlane" where
  "plane_for_object_kind kind =
     (case kind of OK_Assembly \<Rightarrow> AssemblyPlane | OK_Transform \<Rightarrow> TransformPlane | OK_Schema \<Rightarrow> SchemaPlane
      | OK_EpisodeHint \<Rightarrow> Episode | OK_ReplayHint \<Rightarrow> Episode | _ \<Rightarrow> AtomSubstrate)"

definition derive_context_hash :: "bool \<Rightarrow> SparseCue \<Rightarrow> EpisodeObjectRef \<Rightarrow> ContextHash" where
  "derive_context_hash simd cue object_ref =
     gf2_fingerprint simd (cue_bytes cue)
       XOR word_rotl 7 (gf2_fingerprint simd (ascii_bytes (eo_object_id object_ref)))
       XOR push_bit 48 (of_nat (ObjectKind_disc (eo_object_kind object_ref)))"

definition initial_trace_salience :: "SparseCue \<Rightarrow> bool \<Rightarrow> LagBucket \<Rightarrow> EpisodeObjectTransition \<Rightarrow> u32" where
  "initial_trace_salience cue success lag_bucket transition =
     (let cue_mass = of_nat (count_ones (cue_family_bits cue) + count_ones (cue_role_bits cue)
            + count_ones (cue_delimiter_bits cue) + count_ones (cue_length_bucket_bits cue));
          success_mass = (if success then 16 else 4) in
      saturating_sub (saturating_add (saturating_add (saturating_add cue_mass success_mass)
        (of_nat (ObjectKind_disc (tr_from_kind transition)))) (of_nat (ObjectKind_disc (tr_to_kind transition))))
        (ucast lag_bucket))"

definition lag_since :: "EpisodeActivationEvent \<Rightarrow> EpisodeActivationEvent \<Rightarrow> LagBucket" where
  "lag_since prev event = lag_bucket_from_distance (ucast (saturating_sub (ev_tick event) (ev_tick prev)))"

definition event_kind :: "EpisodeActivationEvent \<Rightarrow> ObjectKind" where
  "event_kind e = eo_object_kind (ev_object_ref e)"

definition trace_fresh ::
  "u64 \<Rightarrow> EpisodeActivationEvent \<Rightarrow> EpisodeActivationEvent option \<Rightarrow> u64 \<Rightarrow> u16 \<Rightarrow> SparseEpisodeTrace" where
  "trace_fresh trace_id event prev family_partition collision_slot =
     (let lag_bucket = (case prev of Some p \<Rightarrow> lag_since p event | None \<Rightarrow> 0);
          transition = \<lparr>tr_from_kind = (case prev of Some p \<Rightarrow> event_kind p | None \<Rightarrow> event_kind event),
            tr_to_kind = event_kind event\<rparr> in
      \<lparr>st_trace_id = trace_id,
       st_lookup_key = \<lparr>ek_source_kind = ev_source_kind event, ek_object_kind = event_kind event,
         ek_cue = ev_cue event, ek_context_hash = ev_context_hash event\<rparr>,
       st_family_partition = family_partition, st_collision_slot = collision_slot,
       st_source_kind = ev_source_kind event, st_cue = ev_cue event,
       st_cue_bits = cue_family_bits (ev_cue event), st_role_bits = cue_role_bits (ev_cue event),
       st_boundary_bits = cue_delimiter_bits (ev_cue event), st_lag_bucket = lag_bucket, st_transition = transition,
       st_object_ref = ev_object_ref event, st_support_count = 1, st_recency_tick = ev_tick event,
       st_salience = initial_trace_salience (ev_cue event) (ev_success event) lag_bucket transition,
       st_route_wins = route_wins_default\<rparr>)"

definition absorb_activation ::
  "EpisodeActivationEvent \<Rightarrow> EpisodeActivationEvent option \<Rightarrow> SparseEpisodeTrace \<Rightarrow> SparseEpisodeTrace" where
  "absorb_activation event prev t =
     (let lag_bucket = (case prev of Some p \<Rightarrow> lag_since p event | None \<Rightarrow> st_lag_bucket t);
          transition = \<lparr>tr_from_kind = (case prev of Some p \<Rightarrow> event_kind p | None \<Rightarrow> tr_from_kind (st_transition t)),
            tr_to_kind = event_kind event\<rparr>;
          support_count = saturating_add (st_support_count t) 1 in
      t\<lparr>st_cue := ev_cue event,
        st_lookup_key := (st_lookup_key t)\<lparr>ek_cue := ev_cue event, ek_context_hash := ev_context_hash event\<rparr>,
        st_cue_bits := cue_family_bits (ev_cue event), st_role_bits := cue_role_bits (ev_cue event),
        st_boundary_bits := cue_delimiter_bits (ev_cue event), st_lag_bucket := lag_bucket,
        st_transition := transition, st_support_count := support_count,
        st_recency_tick := max (st_recency_tick t) (ev_tick event),
        st_salience := max (saturating_add (st_salience t)
          (initial_trace_salience (ev_cue event) (ev_success event) lag_bucket transition div 2)) support_count\<rparr>)"

definition trace_family_partition :: "EpisodeActivationEvent \<Rightarrow> EpisodeActivationEvent option \<Rightarrow> u64" where
  "trace_family_partition event prev =
     (let from_kind = of_nat (ObjectKind_disc (case prev of Some p \<Rightarrow> event_kind p | None \<Rightarrow> event_kind event)) in
      cue_family_bits (ev_cue event) XOR word_rotl 19 (family_bits (ev_source_kind event)) XOR word_rotl 43 from_kind
        XOR word_rotl 51 (of_nat (ObjectKind_disc (event_kind event))))"

definition trace_collision_seed :: "SparseEpisodeTrace \<Rightarrow> u16" where
  "trace_collision_seed t =
     (let seed = (ek_context_hash (st_lookup_key t) XOR cue_family_bits (st_cue t) XOR word_rotl 7 (st_role_bits t))
            + word_rotl 13 (st_boundary_bits t);
          seed = seed XOR push_bit 8 (of_nat (ObjectKind_disc (tr_from_kind (st_transition t))));
          seed = seed XOR push_bit 16 (of_nat (ObjectKind_disc (tr_to_kind (st_transition t)))) in
      ucast seed * 31)"

definition trace_near_collision :: "SparseEpisodeTrace \<Rightarrow> SparseEpisodeTrace \<Rightarrow> bool" where
  "trace_near_collision a b \<longleftrightarrow>
     st_family_partition a = st_family_partition b \<and> overlap_score (st_cue a) (st_cue b) \<ge> 8
     \<and> st_object_ref a \<noteq> st_object_ref b"

definition slot_occupied :: "SparseEpisodeTrace list \<Rightarrow> SparseEpisodeTrace \<Rightarrow> u16 \<Rightarrow> bool" where
  "slot_occupied traces candidate slot \<longleftrightarrow>
     (\<exists>t \<in> set traces. st_family_partition t = st_family_partition candidate \<and> st_collision_slot t = slot
       \<and> trace_near_collision t candidate)"

definition diversified_collision_slot :: "SparseEpisodeTrace list \<Rightarrow> SparseEpisodeTrace \<Rightarrow> u16 \<Rightarrow> u16" where
  "diversified_collision_slot traces candidate max_collision_slots =
     (let limit = max max_collision_slots 1; seed = trace_collision_seed candidate mod limit in
      case find (\<lambda>slot. \<not> slot_occupied traces candidate slot)
          (map (\<lambda>salt. (seed + of_nat salt) mod limit) [0..<unat limit]) of
        Some slot \<Rightarrow> slot
      | None \<Rightarrow> seed)"

section \<open>The model of continuations\<close>

record BoundedContextModel =
  bc_max_order :: u8
  bc_max_branches_per_context :: u16
  bc_transition_counts :: "(ContextHash list, (string, u32) ord_map) ord_map"

definition context_model_bounded :: "u8 \<Rightarrow> u16 \<Rightarrow> BoundedContextModel" where
  "context_model_bounded max_order max_branches =
     \<lparr>bc_max_order = max max_order 1, bc_max_branches_per_context = max max_branches 1, bc_transition_counts = []\<rparr>"

definition object_key_text :: "EpisodeObjectRef \<Rightarrow> string" where
  "object_key_text r = show_nat (ObjectKind_disc (eo_object_kind r)) @ '':'' @ eo_object_id r"

text \<open>The suffixes of the context, from the longest that the order admits to the shortest.\<close>

definition context_suffixes :: "BoundedContextModel \<Rightarrow> ContextHash list \<Rightarrow> ContextHash list list" where
  "context_suffixes m context =
     map (\<lambda>i. drop i context) [length context - unat (bc_max_order m)..<length context]"

definition context_model_observe :: "ContextHash list \<Rightarrow> EpisodeObjectRef \<Rightarrow> BoundedContextModel \<Rightarrow> BoundedContextModel" where
  "context_model_observe context object_ref m =
     m\<lparr>bc_transition_counts := foldl (\<lambda>counts key. om_update key
         (om_update (object_key_text object_ref) (\<lambda>n. saturating_add n 1) 0) [] counts)
       (bc_transition_counts m) (context_suffixes m context)\<rparr>"

record ContinuationPrediction =
  cp_context_hash :: ContextHash
  cp_predicted_kind :: ObjectKind
  cp_predicted_object_id :: string
  cp_transition_count :: u32
  cp_branch_rank :: u16
  cp_precision_band :: PrecisionBand

definition merge_counts :: "(string, u32) ord_map \<Rightarrow> (string, u32) ord_map \<Rightarrow> (string, u32) ord_map" where
  "merge_counts merged counts = foldl (\<lambda>merged (k, n). om_update k (\<lambda>c. saturating_add c n) 0 merged) merged counts"

definition merged_counts :: "BoundedContextModel \<Rightarrow> ContextHash list \<Rightarrow> (string, u32) ord_map" where
  "merged_counts m context =
     foldl merge_counts [] (List.map_filter (om_get (bc_transition_counts m)) (context_suffixes m context))"

text \<open>\<open>split_once(':')\<close>, and the parse of the kind, which keeps five of the kinds.\<close>

definition split_key :: "string \<Rightarrow> string \<times> string" where
  "split_key s =
     (case dropWhile (\<lambda>c. c \<noteq> CHR '':'') s of
        [] \<Rightarrow> (''14'', s)
      | _ # rest \<Rightarrow> (takeWhile (\<lambda>c. c \<noteq> CHR '':'') s, rest))"

definition predicted_kind_of_tag :: "string \<Rightarrow> ObjectKind" where
  "predicted_kind_of_tag tag =
     (case parse_u64 tag of
        Some n \<Rightarrow> if n = 9 then OK_Assembly else if n = 10 then OK_Transform else if n = 11 then OK_Schema
          else if n = 12 then OK_EpisodeHint else if n = 13 then OK_ReplayHint else OK_PredictiveObject
      | None \<Rightarrow> OK_PredictiveObject)"

definition ranked_counts :: "BoundedContextModel \<Rightarrow> ContextHash list \<Rightarrow> (string \<times> u32) list" where
  "ranked_counts m context =
     take (unat (bc_max_branches_per_context m))
       (sort_key (\<lambda>(k, n). - uint n # text_key k) (merged_counts m context))"

definition predict_next_kind :: "BoundedContextModel \<Rightarrow> ContextHash list \<Rightarrow> ContinuationPrediction list" where
  "predict_next_kind m context =
     map (\<lambda>(i, k, n).
         \<lparr>cp_context_hash = (if context = [] then 0 else last context),
          cp_predicted_kind = predicted_kind_of_tag (fst (split_key k)), cp_predicted_object_id = snd (split_key k),
          cp_transition_count = n, cp_branch_rank = of_nat i,
          cp_precision_band = (if n \<ge> 8 then PB_Tight else if n \<ge> 4 then PB_Balanced else PB_Broad)\<rparr>)
       (enumerate 0 (ranked_counts m context))"

section \<open>The memory\<close>

record EpisodeMemory =
  em_max_events :: nat
  em_events :: "EpisodeActivationEvent list"
  em_max_nodes :: nat
  em_nodes :: "EpisodeNode list"
  em_edges :: "EpisodeEdge list"
  em_max_contexts :: nat
  em_clusters :: "(ContextHash, EpisodeEdge list) ord_map"
  em_max_traces :: nat
  em_max_collision_slots :: u16
  em_traces :: "SparseEpisodeTrace list"
  em_context_model :: BoundedContextModel

definition episode_memory_bounded :: EpisodeMemory where
  "episode_memory_bounded =
     \<lparr>em_max_events = 32, em_events = [], em_max_nodes = 128, em_nodes = [], em_edges = [], em_max_contexts = 64,
      em_clusters = [], em_max_traces = 256, em_max_collision_slots = 32, em_traces = [],
      em_context_model = context_model_bounded 4 8\<rparr>"

text \<open>\<open>drain(0..len - n)\<close> when the list is longer than \<open>n\<close>.\<close>

definition keep_last :: "nat \<Rightarrow> 'a list \<Rightarrow> 'a list" where
  "keep_last n xs = (if length xs > n then drop (length xs - n) xs else xs)"

definition trace_rank :: "SparseEpisodeTrace \<Rightarrow> int list" where
  "trace_rank t = [- uint (st_salience t), - uint (st_support_count t), - uint (st_recency_tick t)]"

definition same_trace :: "SparseEpisodeTrace \<Rightarrow> SparseEpisodeTrace \<Rightarrow> bool" where
  "same_trace candidate t \<longleftrightarrow>
     ek_object_kind (st_lookup_key t) = ek_object_kind (st_lookup_key candidate)
     \<and> st_object_ref t = st_object_ref candidate
     \<and> ek_context_hash (st_lookup_key t) = ek_context_hash (st_lookup_key candidate)
     \<and> st_family_partition t = st_family_partition candidate"

fun update_first :: "('a \<Rightarrow> bool) \<Rightarrow> ('a \<Rightarrow> 'a) \<Rightarrow> 'a list \<Rightarrow> 'a list" where
  "update_first P f [] = []"
| "update_first P f (x # xs) = (if P x then f x # xs else x # update_first P f xs)"

definition ingest_sparse_trace ::
  "EpisodeActivationEvent \<Rightarrow> EpisodeActivationEvent option \<Rightarrow> EpisodeMemory \<Rightarrow> EpisodeMemory" where
  "ingest_sparse_trace event prev m =
     (let traces = em_traces m;
          candidate = trace_fresh (of_nat (length traces) + 1) event prev (trace_family_partition event prev) 0 in
      if \<exists>t \<in> set traces. same_trace candidate t
      then m\<lparr>em_traces := update_first (same_trace candidate) (absorb_activation event prev) traces\<rparr>
      else
        let slot = diversified_collision_slot traces candidate (em_max_collision_slots m);
            traces = traces @ [candidate\<lparr>st_collision_slot := slot\<rparr>] in
        m\<lparr>em_traces := (if length traces > em_max_traces m then take (em_max_traces m) (sort_key trace_rank traces)
            else traces)\<rparr>)"

definition recent_context_hashes :: "EpisodeMemory \<Rightarrow> ContextHash list" where
  "recent_context_hashes m =
     rev (map ev_context_hash (take (unat (bc_max_order (em_context_model m))) (rev (em_events m))))"

definition edge_transition_count :: "u64 \<Rightarrow> u64 \<Rightarrow> EpisodeEdge list \<Rightarrow> u32" where
  "edge_transition_count from_node to_node edges =
     of_nat (length (filter (\<lambda>e. ee_from_node e = from_node \<and> ee_to_node e = to_node) edges))"

text \<open>The keys of the map are the node ids in decimal; the counts are not used.\<close>

definition rank_branch :: "u64 \<Rightarrow> EpisodeObjectRef \<Rightarrow> EpisodeEdge list \<Rightarrow> u16" where
  "rank_branch from_node object_ref edges =
     (let keys = remdups (map (\<lambda>e. show_nat (unat (ee_to_node e))) (filter (\<lambda>e. ee_from_node e = from_node) edges)) in
      of_nat (length (filter (\<lambda>k. text_key k < text_key (eo_object_id object_ref)) keys)))"

definition append_activation :: "EpisodeActivationEvent \<Rightarrow> EpisodeMemory \<Rightarrow> EpisodeMemory" where
  "append_activation event m =
     (let prev_event = (if em_events m = [] then None else Some (last (em_events m)));
          m = m\<lparr>em_events := keep_last (em_max_events m) (em_events m @ [event])\<rparr>;
          node = \<lparr>en_node_id = of_nat (length (em_nodes m)) + 1, en_plane = plane_for_object_kind (event_kind event),
            en_source_kind = ev_source_kind event, en_object_ref = ev_object_ref event,
            en_context_hash = ev_context_hash event,
            en_lifecycle = record_seen (ev_tick event) (ev_success event) lifecycle_default\<rparr>;
          m = m\<lparr>em_nodes := keep_last (em_max_nodes m) (em_nodes m @ [node])\<rparr>;
          m = ingest_sparse_trace event prev_event m;
          m = m\<lparr>em_context_model := context_model_observe (recent_context_hashes m) (ev_object_ref event)
            (em_context_model m)\<rparr> in
      if length (em_nodes m) \<ge> 2 then
        let prev = em_nodes m ! (length (em_nodes m) - 2);
            edge = \<lparr>ee_edge_id = of_nat (length (em_edges m)) + 1, ee_from_node = en_node_id prev,
              ee_to_node = en_node_id node,
              ee_lag_bucket = (case prev_event of Some p \<Rightarrow> lag_since p event | None \<Rightarrow> 0),
              ee_transition_count =
                saturating_add (edge_transition_count (en_node_id prev) (en_node_id node) (em_edges m)) 1,
              ee_branch_rank = rank_branch (en_node_id prev) (en_object_ref node) (em_edges m),
              ee_context_hash = ev_context_hash event,
              ee_lifecycle = record_seen (ev_tick event) (ev_success event) lifecycle_default\<rparr>;
            clusters = om_update (ev_context_hash event) (\<lambda>es. es @ [edge]) [] (em_clusters m) in
        m\<lparr>em_edges := em_edges m @ [edge],
          em_clusters := (if length clusters > em_max_contexts m then tl clusters else clusters)\<rparr>
      else m)"

definition trace_matches ::
  "SourceKind option \<Rightarrow> ContextHash option \<Rightarrow> u64 \<Rightarrow> SparseEpisodeTrace \<Rightarrow> bool" where
  "trace_matches source_kind context_hash tick t \<longleftrightarrow>
     (case source_kind of Some k \<Rightarrow> k = st_source_kind t | None \<Rightarrow> True)
     \<and> (case context_hash of Some h \<Rightarrow> h = ek_context_hash (st_lookup_key t) | None \<Rightarrow> True)
     \<and> st_recency_tick t \<le> tick"

definition reinforce :: "ControllerRouteFamily \<Rightarrow> u64 \<Rightarrow> bool \<Rightarrow> SparseEpisodeTrace \<Rightarrow> SparseEpisodeTrace" where
  "reinforce route_family tick success t =
     (let (first_win, wins) = route_wins_record route_family success (st_route_wins t) in
      t\<lparr>st_route_wins := wins, st_recency_tick := max (st_recency_tick t) tick,
        st_salience := saturating_add (st_salience t) (if first_win \<and> success then 24 else if success then 8 else 2),
        st_support_count := (if success then saturating_add (st_support_count t) 1 else st_support_count t)\<rparr>)"

definition credit_last :: "ControllerRouteFamily \<Rightarrow> u64 \<Rightarrow> SparseEpisodeTrace \<Rightarrow> SparseEpisodeTrace" where
  "credit_last route_family tick t =
     t\<lparr>st_route_wins := snd (route_wins_record route_family True (st_route_wins t)),
       st_salience := saturating_add (st_salience t) 24, st_support_count := saturating_add (st_support_count t) 1,
       st_recency_tick := tick\<rparr>"

definition episode_record_route_outcome ::
  "ControllerRouteFamily \<Rightarrow> SourceKind option \<Rightarrow> ContextHash option \<Rightarrow> u64 \<Rightarrow> bool \<Rightarrow> EpisodeMemory \<Rightarrow> EpisodeMemory" where
  "episode_record_route_outcome route_family source_kind context_hash tick success m =
     (if \<exists>t \<in> set (em_traces m). trace_matches source_kind context_hash tick t
      then m\<lparr>em_traces := rev (update_first (trace_matches source_kind context_hash tick)
               (reinforce route_family tick success) (rev (em_traces m)))\<rparr>
      else if success \<and> em_events m \<noteq> [] then
        let prev = (if length (em_events m) \<ge> 2 then Some (em_events m ! (length (em_events m) - 2)) else None);
            m = ingest_sparse_trace (last (em_events m)) prev m in
        m\<lparr>em_traces := rev (case rev (em_traces m) of [] \<Rightarrow> [] | t # ts \<Rightarrow> credit_last route_family tick t # ts)\<rparr>
      else m)"

definition decay_working_trace :: "nat \<Rightarrow> EpisodeMemory \<Rightarrow> EpisodeMemory" where
  "decay_working_trace n m = m\<lparr>em_events := keep_last n (em_events m)\<rparr>"

definition decay_short_episode :: "nat \<Rightarrow> EpisodeMemory \<Rightarrow> EpisodeMemory" where
  "decay_short_episode n m =
     m\<lparr>em_nodes := keep_last n (em_nodes m), em_edges := keep_last n (em_edges m),
       em_traces := (if length (em_traces m) > n
         then take n (sort_key (\<lambda>t. [- uint (st_salience t), - uint (st_recency_tick t)]) (em_traces m))
         else em_traces m)\<rparr>"

definition decay_clustered_episode :: "nat \<Rightarrow> EpisodeMemory \<Rightarrow> EpisodeMemory" where
  "decay_clustered_episode n m = m\<lparr>em_clusters := keep_last n (em_clusters m)\<rparr>"

section \<open>Continuations are counted\<close>

lemma context_suffixes_distinct: "distinct (context_suffixes m context)"
proof -
  have "inj_on (\<lambda>i. drop i context) {length context - unat (bc_max_order m)..<length context}"
    by (rule inj_onI) (auto dest!: arg_cong [of _ _ length])
  then show ?thesis by (simp add: context_suffixes_def distinct_map)
qed

lemma context_suffixes_iff:
  "s \<in> set (context_suffixes m context) \<longleftrightarrow>
    s \<noteq> [] \<and> length s \<le> unat (bc_max_order m) \<and> (\<exists>older. context = older @ s)"
proof
  assume "s \<in> set (context_suffixes m context)"
  then show "s \<noteq> [] \<and> length s \<le> unat (bc_max_order m) \<and> (\<exists>older. context = older @ s)"
    by (auto simp: context_suffixes_def) (metis append_take_drop_id)
next
  assume "s \<noteq> [] \<and> length s \<le> unat (bc_max_order m) \<and> (\<exists>older. context = older @ s)"
  then obtain older where "s \<noteq> []" "length s \<le> unat (bc_max_order m)" "context = older @ s" by blast
  then show "s \<in> set (context_suffixes m context)"
    by (auto simp: context_suffixes_def intro!: image_eqI [of _ _ "length older"])
qed

definition observe_all :: "(ContextHash list \<times> EpisodeObjectRef) list \<Rightarrow> BoundedContextModel \<Rightarrow> BoundedContextModel" where
  "observe_all hist m = foldl (\<lambda>m (context, object_ref). context_model_observe context object_ref m) m hist"

lemma observe_all_counts:
  "observe_all hist m = m\<lparr>bc_transition_counts := foldl (\<lambda>t h. foldl (\<lambda>t key. om_update key
      (om_update (object_key_text (snd h)) (\<lambda>n. saturating_add n 1) 0) [] t) t (context_suffixes m (fst h)))
    (bc_transition_counts m) hist\<rparr>"
proof (induction hist arbitrary: m)
  case (Cons h hist)
  have "context_suffixes (context_model_observe c r m) = context_suffixes m" for c r
    by (simp add: context_suffixes_def context_model_observe_def fun_eq_iff)
  then show ?case
    using Cons.IH [of "context_model_observe (fst h) (snd h) m"]
    by (simp add: observe_all_def split_def) (simp add: context_model_observe_def)
qed (simp add: observe_all_def)

lemma om_get_counter:
  "om_get (foldl (\<lambda>t h. om_update (key h) (\<lambda>n. saturating_add n 1) 0 t) [] hs) k
    = (if filter (\<lambda>h. key h = k) hs = [] then None
       else Some (foldl (\<lambda>n _. saturating_add n (1 :: 'a::len word)) 0 (filter (\<lambda>h. key h = k) hs)))"
  using om_get_history [of "\<lambda>h. [key h]" "\<lambda>_ n. saturating_add n (1 :: 'a word)" 0 hs k]
  by (simp add: effects_on_def eq_commute [of k])

text \<open>How often an object followed a context that ends in the given suffix.\<close>

definition times_followed :: "(ContextHash list \<times> EpisodeObjectRef) list \<Rightarrow> ContextHash list \<Rightarrow> string \<Rightarrow> nat" where
  "times_followed hist suffix object =
     length (filter (\<lambda>(context, r). (\<exists>older. context = older @ suffix) \<and> object_key_text r = object) hist)"

definition count_in :: "BoundedContextModel \<Rightarrow> ContextHash list \<Rightarrow> string \<Rightarrow> nat" where
  "count_in m suffix object =
     (case om_get (bc_transition_counts m) suffix of
        Some counts \<Rightarrow> (case om_get counts object of Some n \<Rightarrow> unat n | None \<Rightarrow> 0)
      | None \<Rightarrow> 0)"

text \<open>C25: the continuation model counts: after any sequence of observations a fresh model holds, for every suffix
  of at most the order and every object, how often the object followed a context with that suffix, up to the largest
  \<open>u32\<close>, and nothing for longer suffixes.\<close>

theorem continuation_counts:
  "count_in (observe_all hist (context_model_bounded order branches)) suffix object
    = (if suffix \<noteq> [] \<and> length suffix \<le> unat (max order 1)
       then min (times_followed hist suffix object) (2 ^ 32 - 1) else 0)"
proof -
  let ?m = "context_model_bounded order branches"
  let ?touching = "effects_on (\<lambda>h. context_suffixes ?m (fst h)) suffix hist"
  let ?inner = "foldl (\<lambda>t h. om_update (object_key_text (snd h)) (\<lambda>n. saturating_add n (1 :: u32)) 0 t) [] ?touching"
  have empty: "bc_transition_counts ?m = []" by (simp add: context_model_bounded_def)
  have outer: "om_get (bc_transition_counts (observe_all hist ?m)) suffix = (if ?touching = [] then None else Some ?inner)"
    using om_get_history [of "\<lambda>h. context_suffixes ?m (fst h)" "\<lambda>h. om_update (object_key_text (snd h)) (\<lambda>n. saturating_add n 1) 0"
      "[]" hist suffix, OF context_suffixes_distinct]
    by (simp add: observe_all_counts empty)
  have bound: "bc_max_order ?m = max order 1" by (simp add: context_model_bounded_def)
  have "filter (\<lambda>h. object_key_text (snd h) = object) ?touching =
      (if suffix \<noteq> [] \<and> length suffix \<le> unat (max order 1)
       then filter (\<lambda>(context, r). (\<exists>older. context = older @ suffix) \<and> object_key_text r = object) hist else [])"
    by (auto simp: effects_on_def context_suffixes_iff bound split_def intro!: filter_cong)
  then have "length (filter (\<lambda>h. object_key_text (snd h) = object) ?touching) =
      (if suffix \<noteq> [] \<and> length suffix \<le> unat (max order 1) then times_followed hist suffix object else 0)"
    by (simp add: times_followed_def)
  moreover have "count_in (observe_all hist ?m) suffix object
      = min (length (filter (\<lambda>h. object_key_text (snd h) = object) ?touching)) (2 ^ 32 - 1)"
  proof (cases "?touching = []")
    case True
    then show ?thesis by (simp add: count_in_def outer)
  next
    case False
    then show ?thesis
      using unat_saturating_count [where 'a = 32, of "filter (\<lambda>h. object_key_text (snd h) = object) ?touching"]
      by (auto simp: count_in_def outer om_get_counter)
  qed
  ultimately show ?thesis by simp
qed

section \<open>The bounds of the memory\<close>

text \<open>What every operation keeps: the four bounded stores stay within their bounds, and the bounds do not change.\<close>

definition memory_ok :: "EpisodeMemory \<Rightarrow> bool" where
  "memory_ok m \<longleftrightarrow>
     em_max_events m = 32 \<and> em_max_nodes m = 128 \<and> em_max_contexts m = 64 \<and> em_max_traces m = 256
     \<and> em_max_collision_slots m = 32
     \<and> length (em_events m) \<le> 32 \<and> length (em_nodes m) \<le> 128
     \<and> om_ok (em_clusters m) \<and> length (em_clusters m) \<le> 64
     \<and> length (em_traces m) \<le> 256 \<and> (\<forall>t \<in> set (em_traces m). st_collision_slot t < 32)"

lemma length_keep_last: "length (keep_last n xs) = min n (length xs)"
  by (simp add: keep_last_def)

lemma keep_last_id: "length xs \<le> n \<Longrightarrow> keep_last n xs = xs"
  by (simp add: keep_last_def)

lemma om_ok_tl: "om_ok m \<Longrightarrow> om_ok (tl m)"
  by (cases m) (simp_all add: om_ok_def)

lemma om_ok_keep_last: "om_ok m \<Longrightarrow> om_ok (keep_last n m)"
  by (simp add: om_ok_def keep_last_def sorted_wrt_drop flip: drop_map)

lemma length_om_insert_le: "length (om_insert k v m) \<le> Suc (length m)"
  by (induction k v m rule: om_insert.induct) auto

lemma length_om_update_le: "length (om_update k f i m) \<le> Suc (length m)"
  by (simp add: om_update_def length_om_insert_le)

lemma collision_slot_bound: "0 < max_slots \<Longrightarrow> diversified_collision_slot traces candidate max_slots < max_slots"
  by (auto simp: diversified_collision_slot_def Let_def max_def word_mod_less_divisor split: option.splits
      dest!: find_Some_iff [THEN iffD1])

lemma set_update_first: "set (update_first P f xs) \<subseteq> f ` set xs \<union> set xs"
  by (induction xs) auto

lemma length_update_first [simp]: "length (update_first P f xs) = length xs"
  by (induction xs) auto

lemma absorb_slot [simp]: "st_collision_slot (absorb_activation event prev t) = st_collision_slot t"
  by (simp add: absorb_activation_def Let_def)

lemma reinforce_slot [simp]: "st_collision_slot (reinforce r tick success t) = st_collision_slot t"
  by (simp add: reinforce_def split_def Let_def)

lemma update_first_slots:
  assumes "\<forall>t \<in> set ts. st_collision_slot t < b" and "\<And>t. st_collision_slot (f t) = st_collision_slot t"
  shows "\<forall>t \<in> set (update_first P f ts). st_collision_slot t < b"
  using assms set_update_first [of P f ts] by fastforce

lemma ingest_ok: "memory_ok m \<Longrightarrow> memory_ok (ingest_sparse_trace event prev m)"
  and ingest_keeps: "ingest_sparse_trace event prev m = m\<lparr>em_traces := em_traces (ingest_sparse_trace event prev m)\<rparr>"
proof -
  show "ingest_sparse_trace event prev m = m\<lparr>em_traces := em_traces (ingest_sparse_trace event prev m)\<rparr>"
    by (simp add: ingest_sparse_trace_def Let_def)
  assume "memory_ok m"
  then show "memory_ok (ingest_sparse_trace event prev m)"
    using update_first_slots [of "em_traces m" 32 "absorb_activation event prev"]
    by (auto simp: memory_ok_def ingest_sparse_trace_def Let_def collision_slot_bound dest!: in_set_takeD)
qed

lemma append_ok:
  assumes "memory_ok m"
  shows "memory_ok (append_activation event m)"
proof -
  define m1 where "m1 = m\<lparr>em_events := keep_last (em_max_events m) (em_events m @ [event])\<rparr>"
  define node where "node = \<lparr>en_node_id = of_nat (length (em_nodes m1)) + 1, en_plane = plane_for_object_kind (event_kind event),
            en_source_kind = ev_source_kind event, en_object_ref = ev_object_ref event,
            en_context_hash = ev_context_hash event,
            en_lifecycle = record_seen (ev_tick event) (ev_success event) lifecycle_default\<rparr>"
  define m2 where "m2 = m1\<lparr>em_nodes := keep_last (em_max_nodes m1) (em_nodes m1 @ [node])\<rparr>"
  define m3 where "m3 = ingest_sparse_trace event (if em_events m = [] then None else Some (last (em_events m))) m2"
  define m4 where "m4 = m3\<lparr>em_context_model := context_model_observe (recent_context_hashes m3) (ev_object_ref event)
            (em_context_model m3)\<rparr>"
  have "memory_ok m2" using assms by (simp add: memory_ok_def m2_def m1_def length_keep_last)
  then have "memory_ok m3" by (simp add: m3_def ingest_ok)
  then have ok: "memory_ok m4" by (simp add: memory_ok_def m4_def)
  have clusters: "om_ok c \<and> length c \<le> 64"
    if "c = (if length (om_update k f [] (em_clusters m4)) > em_max_contexts m4 then tl (om_update k f [] (em_clusters m4))
        else om_update k f [] (em_clusters m4))" for k f c
    using that ok length_om_update_le [of k f "[]" "em_clusters m4"]
    by (auto simp: memory_ok_def om_ok_update om_ok_tl split: if_splits)
  show ?thesis
    using ok clusters
    by (auto simp: append_activation_def Let_def m1_def [symmetric] node_def [symmetric] m2_def [symmetric]
        m3_def [symmetric] m4_def [symmetric] memory_ok_def)
qed

lemma outcome_ok:
  assumes "memory_ok m"
  shows "memory_ok (episode_record_route_outcome r k h tick success m)"
proof -
  have slots: "\<forall>t \<in> set (rev (update_first P (reinforce r tick success) (rev (em_traces m)))). st_collision_slot t < 32" for P
    using update_first_slots [of "rev (em_traces m)" 32 "reinforce r tick success" P] assms by (simp add: memory_ok_def)
  have credit: "memory_ok (m'\<lparr>em_traces := rev (case rev (em_traces m') of [] \<Rightarrow> [] | t # ts \<Rightarrow> credit_last r tick t # ts)\<rparr>)"
    if "memory_ok m'" for m'
    using that by (cases "em_traces m'" rule: rev_cases) (auto simp: memory_ok_def credit_last_def)
  show ?thesis
    using assms slots credit [OF ingest_ok [OF assms]]
    by (auto simp: episode_record_route_outcome_def memory_ok_def Let_def)
qed

lemma decay_ok:
  assumes "memory_ok m"
  shows "memory_ok (decay_working_trace n m)" and "memory_ok (decay_short_episode n m)"
    and "memory_ok (decay_clustered_episode n m)"
  using assms
  by (auto simp: memory_ok_def decay_working_trace_def decay_short_episode_def decay_clustered_episode_def
      length_keep_last om_ok_keep_last dest!: in_set_takeD)

text \<open>The memories the operations reach.\<close>

inductive memory_reachable :: "EpisodeMemory \<Rightarrow> bool" where
  fresh: "memory_reachable episode_memory_bounded"
| activation: "memory_reachable m \<Longrightarrow> memory_reachable (append_activation event m)"
| outcome: "memory_reachable m \<Longrightarrow> memory_reachable (episode_record_route_outcome r k h tick success m)"
| decay_trace: "memory_reachable m \<Longrightarrow> memory_reachable (decay_working_trace n m)"
| decay_episode: "memory_reachable m \<Longrightarrow> memory_reachable (decay_short_episode n m)"
| decay_clusters: "memory_reachable m \<Longrightarrow> memory_reachable (decay_clustered_episode n m)"

text \<open>C26: whatever the activations, outcomes and decays, the stores of the episode memory stay within their bounds:
  32 events, 128 nodes, 64 clusters sorted by context, 256 traces with collision slots below 32.\<close>

theorem episode_memory_bounds: "memory_reachable m \<Longrightarrow> memory_ok m"
proof (induction rule: memory_reachable.induct)
  case fresh
  then show ?case by (simp add: memory_ok_def episode_memory_bounded_def)
qed (simp_all add: append_ok outcome_ok decay_ok)

definition sample_event :: EpisodeActivationEvent where
  "sample_event = \<lparr>ev_source_kind = Text, ev_object_ref = \<lparr>eo_object_kind = OK_ExactState, eo_object_id = ''item:7''\<rparr>,
     ev_cue = \<lparr>cue_family_bits = 1, cue_role_bits = 2, cue_delimiter_bits = 4, cue_length_bucket_bits = 8, cue_temporal_bits = 0\<rparr>,
     ev_context_hash = 5, ev_tick = 3, ev_success = True\<rparr>"

lemma episode_memory_bounds_witness: "memory_ok (append_activation sample_event episode_memory_bounded)"
  by (intro episode_memory_bounds memory_reachable.intros)

section \<open>Node numbers and edges\<close>

lemma ingest_fields [simp]:
  "em_nodes (ingest_sparse_trace event prev m) = em_nodes m" "em_edges (ingest_sparse_trace event prev m) = em_edges m"
  "em_max_nodes (ingest_sparse_trace event prev m) = em_max_nodes m"
  by (subst ingest_keeps, simp)+

lemma map_keep_last: "map f (keep_last n xs) = keep_last n (map f xs)"
  by (simp add: keep_last_def drop_map)

lemma append_nodes:
  "map en_node_id (em_nodes (append_activation event m))
    = keep_last (em_max_nodes m) (map en_node_id (em_nodes m) @ [of_nat (length (em_nodes m)) + 1])"
  by (simp add: append_activation_def Let_def map_keep_last)

lemma append_max_nodes [simp]: "em_max_nodes (append_activation event m) = em_max_nodes m"
  by (simp add: append_activation_def Let_def)

definition edge_ends :: "EpisodeEdge \<Rightarrow> u64 \<times> u64" where
  "edge_ends e = (ee_from_node e, ee_to_node e)"

lemma append_edges:
  assumes "em_nodes m \<noteq> []" and "2 \<le> em_max_nodes m"
  shows "map edge_ends (em_edges (append_activation event m))
    = map edge_ends (em_edges m) @ [(en_node_id (last (em_nodes m)), of_nat (length (em_nodes m)) + 1)]"
proof -
  let ?k = "keep_last (em_max_nodes m)" and ?n = "length (em_nodes m)"
  have len: "2 \<le> length (?k (em_nodes m @ [node]))" for node
    using assms by (cases "em_nodes m") (auto simp: length_keep_last)
  have prev: "?k (em_nodes m @ [node]) ! (length (?k (em_nodes m @ [node])) - 2) = last (em_nodes m)" for node
    using assms by (auto simp: keep_last_def nth_append last_conv_nth Suc_diff_Suc numeral_2_eq_2)
  show ?thesis
    using len prev by (simp add: append_activation_def Let_def edge_ends_def del: append.simps)
qed

lemma append_edges_first: "em_nodes m = [] \<Longrightarrow> em_edges (append_activation event m) = em_edges m"
  by (simp add: append_activation_def Let_def keep_last_def)

definition append_all :: "EpisodeActivationEvent list \<Rightarrow> EpisodeMemory \<Rightarrow> EpisodeMemory" where
  "append_all events m = foldl (\<lambda>m event. append_activation event m) m events"

definition node_number :: "nat \<Rightarrow> u64" where
  "node_number i = of_nat (min i 128) + 1"

lemma append_all_nodes:
  "map en_node_id (em_nodes (append_all events episode_memory_bounded))
      = keep_last 128 (map node_number [0..<length events])
    \<and> em_max_nodes (append_all events episode_memory_bounded) = 128"
proof (induction events rule: rev_induct)
  case Nil
  then show ?case by (simp add: append_all_def episode_memory_bounded_def keep_last_def)
next
  case (snoc event events)
  let ?m = "append_all events episode_memory_bounded"
  have len: "length (em_nodes ?m) = min 128 (length events)"
    using arg_cong [OF conjunct1 [OF snoc.IH], of length] by (simp add: length_keep_last)
  have keep: "keep_last n (keep_last n xs @ [x]) = keep_last n (xs @ [x])" if "0 < n" for n and xs :: "'a list" and x
    using that by (auto simp: keep_last_def Suc_diff_le)
  have "append_all (events @ [event]) episode_memory_bounded = append_activation event ?m" by (simp add: append_all_def)
  then show ?case using snoc.IH
    by (simp add: append_nodes len keep node_number_def min.commute)
qed

text \<open>Node numbers repeat: the number of a node is the number of nodes kept plus one, so after 128 activations every
  new node gets the number 129, and from the 130th on every edge leads from node 129 to node 129; edges are kept
  without a bound, one for every activation after the first.\<close>

theorem episode_nodes_share_numbers:
  "map edge_ends (em_edges (append_all events episode_memory_bounded))
     = map (\<lambda>i. (node_number i, node_number (i + 1))) [0..<length events - 1]"
proof (induction events rule: rev_induct)
  case Nil
  then show ?case by (simp add: append_all_def episode_memory_bounded_def)
next
  case (snoc event events)
  let ?m = "append_all events episode_memory_bounded"
  have step: "append_all (events @ [event]) episode_memory_bounded = append_activation event ?m" by (simp add: append_all_def)
  note nodes = append_all_nodes [of events]
  have len: "length (em_nodes ?m) = min 128 (length events)"
    using arg_cong [OF conjunct1 [OF nodes], of length] by (simp add: length_keep_last)
  show ?case
  proof (cases "events = []")
    case True
    then show ?thesis using append_edges_first [of ?m event] len by (simp add: step append_all_def episode_memory_bounded_def)
  next
    case False
    then have some: "em_nodes ?m \<noteq> []" using len by (auto simp: min_def split: if_splits)
    have "en_node_id (last (em_nodes ?m)) = last (keep_last 128 (map node_number [0..<length events]))"
      using nodes some by (metis last_map)
    also have "\<dots> = node_number (length events - 1)"
      using False by (simp add: keep_last_def last_drop last_map)
    finally have prev: "en_node_id (last (em_nodes ?m)) = node_number (length events - 1)" .
    have to: "of_nat (length (em_nodes ?m)) + 1 = node_number (length events)"
      by (simp add: len node_number_def min.commute)
    have n: "Suc (length events - 1) = length events" using False by (simp add: Suc_diff_1)
    have "[0..<length events] = [0..<length events - 1] @ [length events - 1]"
      by (metis n upt_Suc_append zero_le)
    then show ?thesis
      using append_edges [OF some, of event, unfolded prev to] nodes snoc.IH n by (simp add: step)
  qed
qed

lemma edge_130: "node_number 128 = 129 \<and> node_number 129 = 129"
  by (simp add: node_number_def)

section \<open>Completion candidates\<close>

record EpisodeCandidatePolicy =
  ec_max_fanout :: u16
  ec_min_transition_count :: u32
  ec_max_branch_rank :: u16

definition episode_policy_default :: EpisodeCandidatePolicy where
  "episode_policy_default = \<lparr>ec_max_fanout = 8, ec_min_transition_count = 1, ec_max_branch_rank = 7\<rparr>"

record EpisodeAccumulator =
  ea_object_ref :: EpisodeObjectRef
  ea_transition_count :: u32
  ea_branch_rank :: u16
  ea_cue_overlap :: u32
  ea_recency_score :: u32
  ea_route_support :: u32
  ea_transition_match :: u32
  ea_lag_bucket :: LagBucket
  ea_precision_score :: u16

definition accumulator_default :: EpisodeAccumulator where
  "accumulator_default = \<lparr>ea_object_ref = object_ref_default, ea_transition_count = 0, ea_branch_rank = - 1,
     ea_cue_overlap = 0, ea_recency_score = 0, ea_route_support = 0, ea_transition_match = 0, ea_lag_bucket = 0,
     ea_precision_score = 0\<rparr>"

definition trace_recency_score :: "u64 \<Rightarrow> u64 \<Rightarrow> u32" where
  "trace_recency_score last_tick trace_tick =
     (if last_tick = 0 \<or> trace_tick = 0 then 0
      else saturating_sub 64 (ucast (min (saturating_sub last_tick trace_tick) 63)))"

definition trace_transition_match :: "ObjectKind option \<Rightarrow> SparseEpisodeTrace \<Rightarrow> u32" where
  "trace_transition_match previous_kind t =
     (case previous_kind of
        Some kind \<Rightarrow> if kind = tr_from_kind (st_transition t) then 24 else if kind = tr_to_kind (st_transition t) then 8 else 0
      | None \<Rightarrow> 4)"

definition trace_lag_match :: "LagBucket \<Rightarrow> SparseEpisodeTrace \<Rightarrow> u32" where
  "trace_lag_match observed_lag t =
     (if observed_lag = st_lag_bucket t then 16
      else saturating_sub 8 (saturating_mul
        (ucast (if observed_lag \<le> st_lag_bucket t then st_lag_bucket t - observed_lag else observed_lag - st_lag_bucket t)) 2))"

definition accumulate_prediction :: "ContinuationPrediction \<Rightarrow> EpisodeAccumulator \<Rightarrow> EpisodeAccumulator" where
  "accumulate_prediction p a =
     a\<lparr>ea_object_ref := \<lparr>eo_object_kind = cp_predicted_kind p, eo_object_id = cp_predicted_object_id p\<rparr>,
       ea_transition_count := saturating_add (ea_transition_count a) (cp_transition_count p),
       ea_branch_rank := min (ea_branch_rank a) (cp_branch_rank p),
       ea_precision_score := max (ea_precision_score a) (score_value (cp_precision_band p))\<rparr>"

definition accumulate_trace ::
  "SparseCue \<Rightarrow> u64 \<Rightarrow> ObjectKind option \<Rightarrow> LagBucket \<Rightarrow> SparseEpisodeTrace \<Rightarrow> EpisodeAccumulator \<Rightarrow> EpisodeAccumulator" where
  "accumulate_trace partial_cue last_tick previous_kind observed_lag t a =
     (let cue_overlap = overlap_score partial_cue (st_cue t);
          transition_match = trace_transition_match previous_kind t;
          lag_match = trace_lag_match observed_lag t;
          route_support = route_support_score (st_route_wins t);
          a = (if eo_object_id (ea_object_ref a) = '''' then a\<lparr>ea_object_ref := st_object_ref t, ea_branch_rank := - 1\<rparr> else a) in
      a\<lparr>ea_transition_count := saturating_add (saturating_add (saturating_add (ea_transition_count a) (st_support_count t))
          (route_support div 8)) (lag_match div 4),
        ea_cue_overlap := max (ea_cue_overlap a) cue_overlap,
        ea_recency_score := max (ea_recency_score a) (trace_recency_score last_tick (st_recency_tick t)),
        ea_route_support := max (ea_route_support a) route_support,
        ea_transition_match := max (ea_transition_match a) transition_match,
        ea_lag_bucket := st_lag_bucket t,
        ea_precision_score := max (ea_precision_score a)
          (score_value (if cue_overlap \<ge> 12 \<or> route_support \<ge> 16 then PB_Tight
            else if cue_overlap \<ge> 6 \<or> transition_match \<ge> 16 then PB_Balanced else PB_Broad))\<rparr>)"

record EpisodeCompletionCandidate =
  ep_object_ref :: EpisodeObjectRef
  ep_transition_count :: u32
  ep_branch_rank :: u16
  ep_precision_band :: PrecisionBand
  ep_cue_overlap :: u32
  ep_recency_score :: u32
  ep_route_support :: u32
  ep_transition_match :: u32
  ep_lag_bucket :: LagBucket
  ep_admissible :: bool

definition candidate_of_accumulator :: "EpisodeCandidatePolicy \<Rightarrow> EpisodeAccumulator \<Rightarrow> EpisodeCompletionCandidate option" where
  "candidate_of_accumulator policy a =
     (let branch_rank = (if ea_branch_rank a = - 1 then 0 else ea_branch_rank a) in
      if eo_object_id (ea_object_ref a) = '''' \<or> \<not> (ea_transition_count a \<ge> ec_min_transition_count policy
          \<and> branch_rank \<le> ec_max_branch_rank policy) then None
      else Some \<lparr>ep_object_ref = ea_object_ref a, ep_transition_count = ea_transition_count a, ep_branch_rank = branch_rank,
        ep_precision_band = (if ea_precision_score a \<ge> score_value PB_Tight then PB_Tight
          else if ea_precision_score a \<ge> score_value PB_Balanced then PB_Balanced else PB_Broad),
        ep_cue_overlap = ea_cue_overlap a, ep_recency_score = ea_recency_score a, ep_route_support = ea_route_support a,
        ep_transition_match = ea_transition_match a, ep_lag_bucket = ea_lag_bucket a, ep_admissible = True\<rparr>)"

definition episode_candidate_score :: "EpisodeCompletionCandidate \<Rightarrow> u32" where
  "episode_candidate_score c =
     saturating_add (saturating_add (saturating_add (saturating_add (ep_transition_count c)
       (saturating_mul (ep_cue_overlap c) 2)) (saturating_mul (ep_route_support c) 2)) (ep_recency_score c))
       (ep_transition_match c)"

definition episode_candidate_rank :: "EpisodeCompletionCandidate \<Rightarrow> int list" where
  "episode_candidate_rank c =
     [- uint (episode_candidate_score c), - uint (ep_route_support c), - uint (ep_cue_overlap c), - uint (ep_recency_score c),
      - uint (ep_transition_match c), - uint (ep_transition_count c), uint (ep_branch_rank c)]
       @ text_key (eo_object_id (ep_object_ref c))"

definition finish_completion_candidates ::
  "EpisodeCandidatePolicy \<Rightarrow> (string, EpisodeAccumulator) ord_map \<Rightarrow> EpisodeCompletionCandidate list" where
  "finish_completion_candidates policy merged =
     (let out = take (unat (ec_max_fanout policy)) (sort_key episode_candidate_rank
            (List.map_filter (candidate_of_accumulator policy \<circ> snd) merged)) in
      map (\<lambda>(i, c). c\<lparr>ep_branch_rank := of_nat i, ep_admissible :=
          (ep_transition_count c \<ge> ec_min_transition_count policy \<and> of_nat i \<le> ec_max_branch_rank policy)\<rparr>)
        (enumerate 0 out))"

definition generate_episode_completion_candidates ::
  "EpisodeMemory \<Rightarrow> EpisodeCandidatePolicy \<Rightarrow> EpisodeCompletionCandidate list" where
  "generate_episode_completion_candidates m policy =
     (let events = em_events m; context = recent_context_hashes m;
          partial_cue = (if events = [] then \<lparr>cue_family_bits = 0, cue_role_bits = 0, cue_delimiter_bits = 0,
            cue_length_bucket_bits = 0, cue_temporal_bits = 0\<rparr> else ev_cue (last events));
          last_tick = (if events = [] then 0 else ev_tick (last events));
          previous_kind = (if events = [] then None else Some (event_kind (last events)));
          observed_lag = (if length events \<ge> 2 then lag_since (events ! (length events - 2)) (last events) else 0);
          merged = foldl (\<lambda>merged p. om_update
              (object_key_text \<lparr>eo_object_kind = cp_predicted_kind p, eo_object_id = cp_predicted_object_id p\<rparr>)
              (accumulate_prediction p) accumulator_default merged)
            [] (predict_next_kind (em_context_model m) context);
          merged = foldl (\<lambda>merged t.
              if overlap_score partial_cue (st_cue t) = 0 \<and> trace_transition_match previous_kind t = 0
                \<and> route_support_score (st_route_wins t) = 0 then merged
              else om_update (object_key_text (st_object_ref t))
                (accumulate_trace partial_cue last_tick previous_kind observed_lag t) accumulator_default merged)
            merged (em_traces m) in
      finish_completion_candidates policy merged)"

text \<open>A fan-out that fits the ranks gives admissible candidates only, ranked from 0, each with enough transitions.\<close>

lemma completion_candidates_admissible:
  assumes "unat (ec_max_fanout policy) \<le> unat (ec_max_branch_rank policy) + 1"
  shows "length (generate_episode_completion_candidates m policy) \<le> unat (ec_max_fanout policy)
    \<and> (\<forall>c \<in> set (generate_episode_completion_candidates m policy). ep_admissible c
        \<and> ec_min_transition_count policy \<le> ep_transition_count c \<and> eo_object_id (ep_object_ref c) \<noteq> '''')"
proof -
  have "of_nat i \<le> ec_max_branch_rank policy" if "i < unat (ec_max_fanout policy)" for i
  proof -
    have "i \<le> unat (ec_max_branch_rank policy)" using that assms by linarith
    moreover have "i < 2 ^ 16" using that unsigned_less [of "ec_max_fanout policy", where 'a = nat] by simp
    ultimately show ?thesis by (simp add: word_le_nat_alt unat_of_nat_u16 del: unat_of_nat)
  qed
  then have admitted: "i < unat (ec_max_fanout policy) \<Longrightarrow> of_nat i \<le> ec_max_branch_rank policy" for i .
  define out where "out = (\<lambda>merged. take (unat (ec_max_fanout policy)) (sort_key episode_candidate_rank
      (List.map_filter (candidate_of_accumulator policy \<circ> snd) (merged :: (string, EpisodeAccumulator) ord_map))))"
  have enough: "c \<in> set (out merged) \<Longrightarrow> ec_min_transition_count policy \<le> ep_transition_count c
      \<and> eo_object_id (ep_object_ref c) \<noteq> ''''" for c merged
    by (auto simp: out_def List.map_filter_def candidate_of_accumulator_def Let_def split: if_splits dest!: in_set_takeD)
  have few: "length (out merged) \<le> unat (ec_max_fanout policy)" for merged by (simp add: out_def)
  have finish: "finish_completion_candidates policy merged = map (\<lambda>(i, c). c\<lparr>ep_branch_rank := of_nat i,
      ep_admissible := (ep_transition_count c \<ge> ec_min_transition_count policy \<and> of_nat i \<le> ec_max_branch_rank policy)\<rparr>)
        (enumerate 0 (out merged))" for merged
    by (simp add: finish_completion_candidates_def Let_def out_def)
  have "ep_admissible c \<and> ec_min_transition_count policy \<le> ep_transition_count c \<and> eo_object_id (ep_object_ref c) \<noteq> ''''"
    if mem: "c \<in> set (finish_completion_candidates policy merged)" for c merged
  proof -
    obtain i where i: "i < length (out merged)" and c: "c = (out merged ! i)\<lparr>ep_branch_rank := of_nat i,
        ep_admissible := (ep_transition_count (out merged ! i) \<ge> ec_min_transition_count policy
          \<and> of_nat i \<le> ec_max_branch_rank policy)\<rparr>"
      using mem by (auto simp: finish in_set_enumerate_eq)
    from enough [OF nth_mem [OF i]] admitted [OF order_less_le_trans [OF i few]] show ?thesis by (simp add: c)
  qed
  moreover have "length (finish_completion_candidates policy merged) \<le> unat (ec_max_fanout policy)" for merged
    by (simp add: finish few)
  ultimately show ?thesis by (simp add: generate_episode_completion_candidates_def Let_def)
qed

text \<open>
  The client's own activations are of kind exact state, and a prediction of one is labelled a predictive object:
  the object then has two candidates, one under each label.
\<close>

lemma exact_state_predicted_as_other_kind:
  "map cp_predicted_kind (predict_next_kind (context_model_observe [5] \<lparr>eo_object_kind = OK_ExactState, eo_object_id = ''item:7''\<rparr>
      (context_model_bounded 4 8)) [5]) = [OK_PredictiveObject]"
  by (simp add: context_model_observe_def context_model_bounded_def context_suffixes_def om_update_def predict_next_kind_def
      ranked_counts_def merged_counts_def merge_counts_def List.map_filter_def om_get_def object_key_text_def
      show_nat.simps split_key_def predicted_kind_of_tag_def parse_u64_def parse_digits_def is_digit_def)

end
