(* ===== verification/Pulzz_Queues.thy ===== *)
theory Pulzz_Queues
  imports Pulzz_Memory
begin

text \<open>
  Promotion and consolidation queues, and the ontology of dynamic families
  (\<open>shared_protocol/src/chpmt.rs\<close>), with the functions of the server that put
  families into it.  The queues share one contract, stated by the locale \<open>ranked_queue\<close>.
\<close>

section \<open>Queues\<close>

record AssemblyPromotionQueueEntry =
  aq_assembly_id :: u64
  aq_source_kind :: SourceKind
  aq_ambiguity_score :: u32
  aq_estimated_wire_savings :: u32
  aq_support_count :: u32
  aq_lifecycle :: ObjectLifecycleMeta
  aq_cue :: SparseCue

definition assembly_rank :: "AssemblyPromotionQueueEntry \<Rightarrow> int list" where
  "assembly_rank e = [- uint (aq_estimated_wire_savings e), uint (aq_ambiguity_score e), - uint (aq_support_count e),
     uint (aq_assembly_id e)]"

definition assembly_push :: "AssemblyPromotionQueueEntry \<Rightarrow> AssemblyPromotionQueueEntry list \<Rightarrow> AssemblyPromotionQueueEntry list" where
  "assembly_push e q = sort_key assembly_rank (q @ [e])"

definition assembly_ready :: "u32 \<times> u32 \<Rightarrow> AssemblyPromotionQueueEntry \<Rightarrow> bool" where
  "assembly_ready = (\<lambda>(ambiguity_cap, min_support) e. aq_ambiguity_score e \<le> ambiguity_cap \<and> aq_support_count e \<ge> min_support)"

text \<open>The loops over \<open>drain(..)\<close> push every entry to one of two lists: the entries to return and those to keep.\<close>

definition drain_when :: "('e \<Rightarrow> bool) \<Rightarrow> 'e list \<Rightarrow> 'e list \<times> 'e list" where
  "drain_when ready q =
     foldl (\<lambda>(promoted, retained) e. if ready e then (promoted @ [e], retained) else (promoted, retained @ [e])) ([], []) q"

definition assembly_promote_ready where
  "assembly_promote_ready caps q = drain_when (assembly_ready caps) q"

record TransformPromotionQueueEntry =
  tq_transform_id :: u64
  tq_source_kind :: SourceKind
  tq_estimated_wire_savings :: u32
  tq_stability_score :: u32
  tq_failure_score :: u32
  tq_lifecycle :: ObjectLifecycleMeta
  tq_cue :: SparseCue

definition transform_rank :: "TransformPromotionQueueEntry \<Rightarrow> int list" where
  "transform_rank e = [- uint (tq_estimated_wire_savings e), - uint (tq_stability_score e), uint (tq_failure_score e),
     uint (tq_transform_id e)]"

definition transform_push where
  "transform_push e q = sort_key transform_rank (q @ [e])"

definition transform_ready :: "u32 \<times> u32 \<times> u32 \<Rightarrow> TransformPromotionQueueEntry \<Rightarrow> bool" where
  "transform_ready = (\<lambda>(min_support, min_stability_score, max_failure_score) e.
     lm_support_count (tq_lifecycle e) \<ge> min_support \<and> tq_stability_score e \<ge> min_stability_score
     \<and> tq_failure_score e \<le> max_failure_score)"

definition transform_promote_ready where
  "transform_promote_ready caps q = drain_when (transform_ready caps) q"

record SchemaPromotionQueueEntry =
  sq_schema_id :: u64
  sq_source_kind :: SourceKind
  sq_cross_episode_support :: u32
  sq_topology_stability :: u32
  sq_contradiction_burden :: u32
  sq_branch_consistency :: u32
  sq_decode_burden :: u32
  sq_retire_after_failures :: u32
  sq_lifecycle :: ObjectLifecycleMeta
  sq_cue :: SparseCue

definition schema_rank :: "SchemaPromotionQueueEntry \<Rightarrow> int list" where
  "schema_rank e = [- uint (sq_cross_episode_support e), uint (sq_contradiction_burden e), - uint (sq_branch_consistency e),
     - uint (sq_topology_stability e), uint (sq_schema_id e)]"

definition schema_push where
  "schema_push e q = sort_key schema_rank (q @ [e])"

definition schema_ready :: "u32 \<times> u32 \<Rightarrow> SchemaPromotionQueueEntry \<Rightarrow> bool" where
  "schema_ready = (\<lambda>(min_support, min_topology_stability) e.
     let contradiction_gate = saturating_add (saturating_add (saturating_mul (sq_cross_episode_support e) 4)
           (max (sq_branch_consistency e) 1)) 16;
         consistency_gate = max (sq_branch_consistency e) 1 \<ge> max (sq_contradiction_burden e div 2) 1 in
     sq_cross_episode_support e \<ge> min_support \<and> sq_topology_stability e \<ge> min_topology_stability
     \<and> sq_contradiction_burden e \<le> contradiction_gate \<and> consistency_gate)"

definition schema_promote_ready where
  "schema_promote_ready caps q = drain_when (schema_ready caps) q"

datatype ConsolidationJobKind =
  CJ_AssemblyMerge | CJ_AssemblySplit | CJ_TransformPromotion | CJ_EpisodeMacroExtraction | CJ_SchemaPromotion
  | CJ_ObjectRetirement

record ConsolidationJob =
  cj_job_id :: u64
  cj_kind :: ConsolidationJobKind
  cj_plane :: MemoryPlane
  cj_source_kind :: "SourceKind option"
  cj_primary_object_id :: string
  cj_related_object_ids :: "string list"
  cj_lifecycle :: ObjectLifecycleMeta
  cj_support :: u32
  cj_ambiguity :: u32
  cj_savings :: u32

definition job_rank :: "ConsolidationJob \<Rightarrow> int list" where
  "job_rank j = [- uint (cj_savings j), - uint (cj_support j), uint (cj_ambiguity j), uint (cj_job_id j)]"

definition consolidation_push where
  "consolidation_push j q = sort_key job_rank (q @ [j])"

definition job_ready :: "u32 \<times> u32 \<Rightarrow> ConsolidationJob \<Rightarrow> bool" where
  "job_ready = (\<lambda>(min_support, max_ambiguity) j. cj_support j \<ge> min_support \<and> cj_ambiguity j \<le> max_ambiguity)"

definition consolidation_drain_ready where
  "consolidation_drain_ready caps q = drain_when (job_ready caps) q"

lemma drain_when_eq: "drain_when P q = (filter P q, filter (\<lambda>e. \<not> P e) q)"
  unfolding drain_when_def by (induction q rule: rev_induct) simp_all

section \<open>What a queue promises\<close>

datatype ('e, 'c) queue_op = Push 'e | Promote 'c

fun queue_run ::
  "('e \<Rightarrow> 'e list \<Rightarrow> 'e list) \<Rightarrow> ('c \<Rightarrow> 'e list \<Rightarrow> 'e list \<times> 'e list) \<Rightarrow> ('e, 'c) queue_op list
    \<Rightarrow> 'e list \<Rightarrow> 'e list \<times> 'e list" where
  "queue_run push promote [] q = ([], q)"
| "queue_run push promote (Push e # ops) q = queue_run push promote ops (push e q)"
| "queue_run push promote (Promote c # ops) q =
     (let (promoted, retained) = promote c q; (later, rest) = queue_run push promote ops retained in (promoted @ later, rest))"

fun pushed :: "('e, 'c) queue_op list \<Rightarrow> 'e list" where
  "pushed [] = []"
| "pushed (Push e # ops) = e # pushed ops"
| "pushed (Promote c # ops) = pushed ops"

locale ranked_queue =
  fixes push :: "'e \<Rightarrow> 'e list \<Rightarrow> 'e list"
    and promote :: "'c \<Rightarrow> 'e list \<Rightarrow> 'e list \<times> 'e list"
    and rank :: "'e \<Rightarrow> int list"
    and ready :: "'c \<Rightarrow> 'e \<Rightarrow> bool"
  assumes push_mset: "mset (push e q) = add_mset e (mset q)"
    and push_sorted: "sorted (map rank (push e q))"
    and promote_parts: "promote c q = (filter (ready c) q, filter (\<lambda>e. \<not> ready c e) q)"
begin

lemma promote_sorted:
  "sorted (map rank q) \<Longrightarrow> sorted (map rank (fst (promote c q))) \<and> sorted (map rank (snd (promote c q)))"
  by (simp add: promote_parts sorted_filter)

lemma run_conserves: "mset (fst (queue_run push promote ops q)) + mset (snd (queue_run push promote ops q)) = mset q + mset (pushed ops)"
proof (induction ops arbitrary: q)
  case (Cons op ops)
  show ?case
  proof (cases op)
    case (Push e)
    then show ?thesis using Cons.IH [of "push e q"] by (simp add: push_mset)
  next
    case (Promote c)
    have "mset (filter (ready c) q) + mset (filter (\<lambda>e. \<not> ready c e) q) = mset q" by (simp add: mset_filter)
    with Promote Cons.IH [of "filter (\<lambda>e. \<not> ready c e) q"] show ?thesis
      by (simp add: promote_parts split_def Let_def ac_simps)
  qed
qed simp

lemma run_sorted: "sorted (map rank q) \<Longrightarrow> sorted (map rank (snd (queue_run push promote ops q)))"
proof (induction ops arbitrary: q)
  case (Cons op ops)
  then show ?case
    by (cases op) (simp_all add: push_sorted promote_parts sorted_filter split_def Let_def)
qed simp

lemma run_correct:
  "mset (fst (queue_run push promote ops [])) + mset (snd (queue_run push promote ops [])) = mset (pushed ops)
    \<and> sorted (map rank (snd (queue_run push promote ops [])))"
  using run_conserves [of ops "[]"] run_sorted [of "[]" ops] by simp

end

interpretation assembly_queue: ranked_queue assembly_push assembly_promote_ready assembly_rank assembly_ready
  by unfold_locales (simp_all add: assembly_push_def assembly_promote_ready_def drain_when_eq)

interpretation transform_queue: ranked_queue transform_push transform_promote_ready transform_rank transform_ready
  by unfold_locales (simp_all add: transform_push_def transform_promote_ready_def drain_when_eq)

interpretation schema_queue: ranked_queue schema_push schema_promote_ready schema_rank schema_ready
  by unfold_locales (simp_all add: schema_push_def schema_promote_ready_def drain_when_eq)

interpretation job_queue: ranked_queue consolidation_push consolidation_drain_ready job_rank job_ready
  by unfold_locales (simp_all add: consolidation_push_def consolidation_drain_ready_def drain_when_eq)

text \<open>C27: the queues lose and invent nothing: after any sequence of pushes and drains, what was handed out and what is
  still pending are together exactly what was pushed, and the pending entries stand in the order of their rank.\<close>

theorem queues_conserve_entries:
  "mset (fst (queue_run assembly_push assembly_promote_ready assembly_ops []))
      + mset (snd (queue_run assembly_push assembly_promote_ready assembly_ops [])) = mset (pushed assembly_ops)
   \<and> sorted (map assembly_rank (snd (queue_run assembly_push assembly_promote_ready assembly_ops [])))
   \<and> mset (fst (queue_run transform_push transform_promote_ready transform_ops []))
      + mset (snd (queue_run transform_push transform_promote_ready transform_ops [])) = mset (pushed transform_ops)
   \<and> sorted (map transform_rank (snd (queue_run transform_push transform_promote_ready transform_ops [])))
   \<and> mset (fst (queue_run schema_push schema_promote_ready schema_ops []))
      + mset (snd (queue_run schema_push schema_promote_ready schema_ops [])) = mset (pushed schema_ops)
   \<and> sorted (map schema_rank (snd (queue_run schema_push schema_promote_ready schema_ops [])))
   \<and> mset (fst (queue_run consolidation_push consolidation_drain_ready job_ops []))
      + mset (snd (queue_run consolidation_push consolidation_drain_ready job_ops [])) = mset (pushed job_ops)
   \<and> sorted (map job_rank (snd (queue_run consolidation_push consolidation_drain_ready job_ops [])))"
  using assembly_queue.run_correct transform_queue.run_correct schema_queue.run_correct job_queue.run_correct by blast

section \<open>Dynamic families\<close>

datatype OntologyOperationKind = OO_Merge | OO_Split | OO_Relabel | OO_Promote | OO_Retire

record DynamicFamilyAssignment =
  df_family_id :: u32
  df_subfamily_id :: "u32 option"
  df_label :: string
  df_source_kind :: "SourceKind option"
  df_plane :: MemoryPlane
  df_object_kinds :: "ObjectKind list"
  df_lifecycle :: ObjectLifecycleMeta

record OntologyOperation =
  oo_kind :: OntologyOperationKind
  oo_plane :: MemoryPlane
  oo_target_family :: u32
  oo_related_families :: "u32 list"
  oo_relabel_to :: "string option"
  oo_promote_to :: "PromotionLevel option"
  oo_retire :: bool

record OntologyState =
  os_families :: "(u32, DynamicFamilyAssignment) ord_map"
  os_history :: "OntologyOperation list"

definition absorb_family_assignment :: "DynamicFamilyAssignment \<Rightarrow> DynamicFamilyAssignment \<Rightarrow> DynamicFamilyAssignment" where
  "absorb_family_assignment target other =
     (let a = df_lifecycle target; b = df_lifecycle other in
      target\<lparr>df_lifecycle := a\<lparr>lm_support_count := saturating_add (lm_support_count a) (lm_support_count b),
          lm_success_count := saturating_add (lm_success_count a) (lm_success_count b),
          lm_failure_count := saturating_add (lm_failure_count a) (lm_failure_count b),
          lm_salience := max (lm_salience a) (lm_salience b),
          lm_last_seen_tick := max (lm_last_seen_tick a) (lm_last_seen_tick b),
          lm_creation_tick := (if lm_creation_tick a = 0 then lm_creation_tick b
            else if lm_creation_tick b = 0 then lm_creation_tick a
            else min (lm_creation_tick a) (lm_creation_tick b))\<rparr>,
        df_source_kind := (if df_source_kind target = None then df_source_kind other else df_source_kind target),
        df_object_kinds := foldl (\<lambda>kinds kind. if kind \<in> set kinds then kinds else kinds @ [kind])
          (df_object_kinds target) (df_object_kinds other)\<rparr>)"

definition take_related :: "u32 \<Rightarrow> u32 list \<Rightarrow> (u32, DynamicFamilyAssignment) ord_map
    \<Rightarrow> (u32, DynamicFamilyAssignment) ord_map \<times> DynamicFamilyAssignment list" where
  "take_related target related_families families =
     foldl (\<lambda>(families, related) r.
         if r = target then (families, related)
         else case om_get families r of Some other \<Rightarrow> (om_remove r families, related @ [other]) | None \<Rightarrow> (families, related))
       (families, []) related_families"

definition merge_families ::
  "u32 \<Rightarrow> u32 list \<Rightarrow> (u32, DynamicFamilyAssignment) ord_map \<Rightarrow> (u32, DynamicFamilyAssignment) ord_map" where
  "merge_families target related_families families =
     (let (families, related) = take_related target related_families families in
      case related of
        [] \<Rightarrow> families
      | first # others \<Rightarrow>
          (let (base, rest) = (case om_get families target of
              Some t \<Rightarrow> (t, related) | None \<Rightarrow> (first\<lparr>df_family_id := target\<rparr>, others)) in
           om_insert target (foldl absorb_family_assignment base rest) (om_remove target families)))"

definition change_family ::
  "u32 \<Rightarrow> (DynamicFamilyAssignment \<Rightarrow> DynamicFamilyAssignment) \<Rightarrow> (u32, DynamicFamilyAssignment) ord_map
    \<Rightarrow> (u32, DynamicFamilyAssignment) ord_map" where
  "change_family target f families = (case om_get families target of Some t \<Rightarrow> om_insert target (f t) families | None \<Rightarrow> families)"

definition ontology_apply :: "OntologyOperation \<Rightarrow> OntologyState \<Rightarrow> OntologyState" where
  "ontology_apply op s =
     (let target = oo_target_family op;
          families = (case oo_kind op of
              OO_Merge \<Rightarrow> merge_families target (oo_related_families op) (os_families s)
            | OO_Split \<Rightarrow> os_families s
            | OO_Relabel \<Rightarrow> (case oo_relabel_to op of Some label \<Rightarrow> change_family target (\<lambda>t. t\<lparr>df_label := label\<rparr>) (os_families s)
                | None \<Rightarrow> os_families s)
            | OO_Promote \<Rightarrow> (case oo_promote_to op of
                Some level \<Rightarrow> change_family target
                  (\<lambda>t. t\<lparr>df_lifecycle := (df_lifecycle t)\<lparr>lm_promotion_level := level\<rparr>\<rparr>) (os_families s)
                | None \<Rightarrow> os_families s)
            | OO_Retire \<Rightarrow> om_remove target (os_families s));
          families = (if oo_retire op \<and> oo_kind op \<noteq> OO_Retire then om_remove target families else families) in
      \<lparr>os_families = families, os_history = os_history s @ [op]\<rparr>)"

text \<open>Every family is stored under its own number, in a sorted map.\<close>

definition families_typed :: "(u32, DynamicFamilyAssignment) ord_map \<Rightarrow> bool" where
  "families_typed families \<longleftrightarrow> om_ok families \<and> (\<forall>i f. om_get families i = Some f \<longrightarrow> df_family_id f = i)"

lemma families_typed_insert: "families_typed m \<Longrightarrow> df_family_id f = i \<Longrightarrow> families_typed (om_insert i f m)"
  by (simp add: families_typed_def om_ok_insert)

lemma families_typed_remove: "families_typed m \<Longrightarrow> families_typed (om_remove i m)"
  by (simp add: families_typed_def om_ok_remove)

lemma absorb_family_id [simp]:
  "df_family_id (absorb_family_assignment t other) = df_family_id t"
  "df_family_id (foldl absorb_family_assignment t others) = df_family_id t"
  by (simp add: absorb_family_assignment_def Let_def,
    induction others rule: rev_induct, simp_all add: absorb_family_assignment_def Let_def)

lemma take_related_typed: "families_typed m \<Longrightarrow> families_typed (fst (take_related target related m))"
  unfolding take_related_def
  by (induction related rule: rev_induct) (auto simp: split_def families_typed_remove split: option.split)

lemma merge_typed: "families_typed m \<Longrightarrow> families_typed (merge_families target related m)"
  using take_related_typed [of m target related]
  by (auto simp: merge_families_def split_def Let_def intro!: families_typed_insert families_typed_remove
      split: list.split option.split) (auto simp: families_typed_def)

lemma change_typed: "families_typed m \<Longrightarrow> (\<And>t. df_family_id (f t) = df_family_id t) \<Longrightarrow> families_typed (change_family i f m)"
  by (auto simp: change_family_def families_typed_def om_ok_insert split: option.split)

lemma apply_typed: "families_typed (os_families s) \<Longrightarrow> families_typed (os_families (ontology_apply op s))"
  by (cases "oo_kind op")
    (simp_all add: ontology_apply_def Let_def merge_typed families_typed_remove change_typed split: option.split)

section \<open>Families of the server\<close>

text \<open>
  Families come into the table by the server only (\<open>server/src/lib.rs\<close>): a caller assigns one
  (\<open>assign_dynamic_family\<close>), or the learning cycle registers the family of an object it promotes
  (\<open>register_learning_family\<close>), whose number is a hash of plane, source kind and object id.
\<close>

definition lifecycle_with_promotion_level :: "PromotionLevel \<Rightarrow> ObjectLifecycleMeta \<Rightarrow> ObjectLifecycleMeta" where
  "lifecycle_with_promotion_level level m = m\<lparr>lm_promotion_level := level\<rparr>"

definition insert_dynamic_family :: "DynamicFamilyAssignment \<Rightarrow> OntologyState \<Rightarrow> OntologyState" where
  "insert_dynamic_family assignment s = s\<lparr>os_families := om_insert (df_family_id assignment) assignment (os_families s)\<rparr>"

definition family_id_for_plane :: "MemoryPlane \<Rightarrow> SourceKind option \<Rightarrow> string \<Rightarrow> u32" where
  "family_id_for_plane plane source_kind object_id =
     (let hash = of_nat (MemoryPlane_disc plane) * 1048573;
          hash = (case source_kind of Some k \<Rightarrow> hash XOR (ucast (SourceKind_tag k) * 65537) | None \<Rightarrow> hash);
          hash = foldl (\<lambda>h b. word_rotl 5 h XOR ucast b) hash (take 24 (ascii_bytes object_id)) in
      max hash 1)"

fun MemoryPlane_debug :: "MemoryPlane \<Rightarrow> string" where
  "MemoryPlane_debug AtomSubstrate = ''AtomSubstrate''"
| "MemoryPlane_debug AssemblyPlane = ''Assembly''"
| "MemoryPlane_debug TransformPlane = ''Transform''"
| "MemoryPlane_debug Episode = ''Episode''"
| "MemoryPlane_debug SchemaPlane = ''Schema''"
| "MemoryPlane_debug Controller = ''Controller''"

fun ObjectKind_debug :: "ObjectKind \<Rightarrow> string" where
  "ObjectKind_debug OK_AtomFragment = ''AtomFragment''"
| "ObjectKind_debug OK_ExactBlock = ''ExactBlock''"
| "ObjectKind_debug OK_ExactBundle = ''ExactBundle''"
| "ObjectKind_debug OK_ExactRange = ''ExactRange''"
| "ObjectKind_debug OK_ResidualBuffer = ''ResidualBuffer''"
| "ObjectKind_debug OK_ExactState = ''ExactState''"
| "ObjectKind_debug OK_SourceDescriptor = ''SourceDescriptor''"
| "ObjectKind_debug OK_SparseCue = ''SparseCue''"
| "ObjectKind_debug OK_Assembly = ''Assembly''"
| "ObjectKind_debug OK_Transform = ''Transform''"
| "ObjectKind_debug OK_Schema = ''Schema''"
| "ObjectKind_debug OK_EpisodeHint = ''EpisodeHint''"
| "ObjectKind_debug OK_ReplayHint = ''ReplayHint''"
| "ObjectKind_debug OK_Dictionary = ''Dictionary''"
| "ObjectKind_debug OK_PredictiveObject = ''PredictiveObject''"

definition register_learning_family ::
  "MemoryPlane \<Rightarrow> SourceKind option \<Rightarrow> ObjectKind \<Rightarrow> string \<Rightarrow> ObjectLifecycleMeta \<Rightarrow> OntologyState
    \<Rightarrow> OntologyState \<times> u32 \<times> u32 option" where
  "register_learning_family plane source_kind object_kind object_id lifecycle s =
     (let family_id = family_id_for_plane plane source_kind object_id;
          subfamily_id = Some (max (of_nat (ObjectKind_disc object_kind)) 1);
          a = (case om_get (os_families s) family_id of
                Some a \<Rightarrow> a
              | None \<Rightarrow> \<lparr>df_family_id = family_id, df_subfamily_id = subfamily_id,
                  df_label = MemoryPlane_debug plane @ ''-'' @ ObjectKind_debug object_kind,
                  df_source_kind = source_kind, df_plane = plane, df_object_kinds = [object_kind], df_lifecycle = lifecycle\<rparr>);
          a = a\<lparr>df_lifecycle := lifecycle_with_promotion_level (lm_promotion_level lifecycle)
                  (assign_dynamic_family family_id subfamily_id lifecycle)\<rparr>;
          a = a\<lparr>df_source_kind := (case source_kind of Some k \<Rightarrow> Some k | None \<Rightarrow> df_source_kind a)\<rparr>;
          a = (if object_kind \<in> set (df_object_kinds a) then a
               else a\<lparr>df_object_kinds := df_object_kinds a @ [object_kind]\<rparr>) in
      (s\<lparr>os_families := om_insert family_id a (os_families s)\<rparr>, family_id, subfamily_id))"

text \<open>What the server does to its ontology, and the same on the set of the family numbers alone.\<close>

datatype OntologyStep =
    OS_Assign DynamicFamilyAssignment
  | OS_Register MemoryPlane "SourceKind option" ObjectKind string ObjectLifecycleMeta
  | OS_Apply OntologyOperation

fun ontology_step :: "OntologyStep \<Rightarrow> OntologyState \<Rightarrow> OntologyState" where
  "ontology_step (OS_Assign a) s = insert_dynamic_family a s"
| "ontology_step (OS_Register plane source_kind object_kind object_id lifecycle) s =
     fst (register_learning_family plane source_kind object_kind object_id lifecycle s)"
| "ontology_step (OS_Apply op) s = ontology_apply op s"

fun applied_operation :: "OntologyStep \<Rightarrow> OntologyOperation list" where
  "applied_operation (OS_Apply op) = [op]"
| "applied_operation _ = []"

definition merged_ids :: "u32 \<Rightarrow> u32 set \<Rightarrow> u32 set \<Rightarrow> u32 set" where
  "merged_ids target related ids =
     (if (related - {target}) \<inter> ids = {} then ids else insert target (ids - related))"

fun ids_after :: "OntologyStep \<Rightarrow> u32 set \<Rightarrow> u32 set" where
  "ids_after (OS_Assign a) ids = insert (df_family_id a) ids"
| "ids_after (OS_Register plane source_kind object_kind object_id lifecycle) ids =
     insert (family_id_for_plane plane source_kind object_id) ids"
| "ids_after (OS_Apply op) ids =
     (let ids' = (if oo_kind op = OO_Merge then merged_ids (oo_target_family op) (set (oo_related_families op)) ids else ids) in
      if oo_retire op \<or> oo_kind op = OO_Retire then ids' - {oo_target_family op} else ids')"

lemma register_typed:
  assumes "families_typed (os_families s)"
  shows "families_typed (os_families (fst (register_learning_family plane source_kind object_kind object_id lifecycle s)))"
proof -
  have "df_family_id a = family_id_for_plane plane source_kind object_id"
    if "om_get (os_families s) (family_id_for_plane plane source_kind object_id) = Some a" for a
    using that assms by (simp add: families_typed_def)
  then show ?thesis
    using assms by (auto simp: register_learning_family_def Let_def intro!: families_typed_insert split: option.split)
qed

lemma step_typed: "families_typed (os_families s) \<Longrightarrow> families_typed (os_families (ontology_step st s))"
  by (cases st) (simp_all add: insert_dynamic_family_def families_typed_insert register_typed apply_typed)

lemma step_history: "os_history (ontology_step st s) = os_history s @ applied_operation st"
  by (cases st) (simp_all add: insert_dynamic_family_def register_learning_family_def ontology_apply_def Let_def)

lemma take_related_dom:
  "dom (om_get (fst (take_related target related m))) = dom (om_get m) - (set related - {target})"
  "snd (take_related target related m) = [] \<longleftrightarrow> (set related - {target}) \<inter> dom (om_get m) = {}"
  unfolding take_related_def
  by (induction related rule: rev_induct) (auto simp: split_def split: option.splits)

lemma merge_dom: "dom (om_get (merge_families target related m)) = merged_ids target (set related) (dom (om_get m))"
  using take_related_dom [of target related m]
  by (auto simp: merge_families_def merged_ids_def split_def Let_def split: list.split option.split)

lemma change_dom: "dom (om_get (change_family i f m)) = dom (om_get m)"
  by (auto simp: change_family_def split: option.split)

lemma step_ids: "dom (om_get (os_families (ontology_step st s))) = ids_after st (dom (om_get (os_families s)))"
proof (cases st)
  case (OS_Apply op)
  then show ?thesis
    by (cases "oo_kind op") (auto simp: ontology_apply_def Let_def merge_dom change_dom split: option.split)
qed (auto simp: insert_dynamic_family_def register_learning_family_def Let_def)

text \<open>C28: the table of dynamic families stays well-typed: whatever families the server assigns, whatever families its
  learning cycle registers and whatever operations it applies, from the empty table on, the families stand in a sorted map,
  each under its own number; the numbers present are those the abstract steps give (assigning and registering add one, a
  merge replaces the related families present by the target, retiring removes one, everything else keeps them); and the
  history is the sequence of the operations applied.\<close>

theorem ontology_well_typed:
  fixes steps :: "OntologyStep list"
  defines "s \<equiv> foldl (\<lambda>s st. ontology_step st s) \<lparr>os_families = [], os_history = []\<rparr> steps"
  shows "families_typed (os_families s)
    \<and> dom (om_get (os_families s)) = foldl (\<lambda>ids st. ids_after st ids) {} steps
    \<and> os_history s = concat (map applied_operation steps)"
  unfolding s_def
proof (induction steps rule: rev_induct)
  case Nil
  then show ?case by (simp add: families_typed_def)
next
  case (snoc st steps)
  then show ?case by (simp add: step_typed step_history step_ids)
qed

text \<open>A family that takes over a number in a merge keeps, in its lifecycle, the number it was registered under.\<close>

lemma merge_keeps_lifecycle_number:
  assumes "om_get m r = Some f" "om_get m target = None"
  shows "\<exists>g. om_get (merge_families target [r] m) target = Some g
    \<and> df_family_id g = target \<and> lm_ontology_family_id (df_lifecycle g) = lm_ontology_family_id (df_lifecycle f)"
  using assms by (auto simp: merge_families_def take_related_def)

end
