(* ===== verification/Pulzz_Bootstrap.thy ===== *)
theory Pulzz_Bootstrap
  imports Pulzz_Protection
begin

text \<open>
  The handshakes that give a client and a server the root of their stream
  (\<open>shared_protocol/src/bootstrap.rs\<close>): messages and frames, credentials and identities, the replay cache, and the two
  ends of the mutual and of the simple handshake.  ML-KEM, ML-DSA, SHA-256 and bincode are fields of a record
  \<open>pq_lib\<close>, HKDF is a field of \<open>crypto\<close>; random bytes and the time are arguments.  A secret key is the seed that it is made
  from.  A method that takes \<open>&mut self\<close> returns the new state next to its result.
\<close>

section \<open>Messages\<close>

definition BOOTSTRAP_MAGIC :: bytes where "BOOTSTRAP_MAGIC = ascii_bytes ''WSBOOT1'' @ [0]"
definition CLIENT_TRANSCRIPT_LABEL :: bytes where "CLIENT_TRANSCRIPT_LABEL = ascii_bytes ''pq_mutual_v1/client_finish''"
definition SERVER_TRANSCRIPT_LABEL :: bytes where "SERVER_TRANSCRIPT_LABEL = ascii_bytes ''pq_mutual_v1/server_finish''"
definition MUTUAL_ROOT_LABEL :: bytes where "MUTUAL_ROOT_LABEL = ascii_bytes ''pq_mutual_v1/root''"
definition SIMPLE_ROOT_LABEL :: bytes where "SIMPLE_ROOT_LABEL = ascii_bytes ''pq_simple_v1/root''"
definition SIMPLE_DEFAULT_CLIENT_ID :: string where "SIMPLE_DEFAULT_CLIENT_ID = ''pq_simple_v1_client''"
definition SIMPLE_DEFAULT_SERVER_ID :: string where "SIMPLE_DEFAULT_SERVER_ID = ''pq_simple_v1_server''"

datatype BootstrapMessageKind =
  BK_ClientHello | BK_ServerHello | BK_ClientFinish | BK_ServerFinish | BK_SimpleClientHello | BK_SimpleServerHello

record CredentialScope =
  scp_stream_id :: "StreamId option"
  scp_allow_client_to_server :: bool
  scp_allow_server_to_client :: bool

definition scope_allows :: "CredentialScope \<Rightarrow> StreamId \<Rightarrow> StreamDirection \<Rightarrow> bool" where
  "scope_allows s stream_id direction =
     (if (case scp_stream_id s of Some expected \<Rightarrow> expected \<noteq> stream_id | None \<Rightarrow> False) then False
      else case direction of
        ClientToServer \<Rightarrow> scp_allow_client_to_server s
      | ServerToClient \<Rightarrow> scp_allow_server_to_client s)"

record ClientCredentialBundle =
  cc_client_id :: string
  cc_issuer_server_id :: string
  cc_scope :: CredentialScope
  cc_issued_at_unix_secs :: u64
  cc_expires_at_unix_secs :: u64
  cc_client_signing_public_key :: bytes
  cc_issuer_signature :: bytes

record IssuedClientCredential =
  ic_bundle :: ClientCredentialBundle
  ic_client_signing_seed :: bytes

record ServerIdentityBundle =
  si_server_id :: string
  si_issued_at_unix_secs :: u64
  si_expires_at_unix_secs :: u64
  si_server_signing_public_key :: bytes
  si_self_signature :: bytes

record ClientHello =
  ch_stream_id :: StreamId
  ch_client_id :: string
  ch_client_nonce :: bytes
  ch_client_ephemeral_kem_public_key :: bytes
  ch_client_credential :: ClientCredentialBundle

record ServerHello =
  sh_stream_id :: StreamId
  sh_server_id :: string
  sh_server_nonce :: bytes
  sh_server_ephemeral_kem_public_key :: bytes
  sh_encapsulated_shared_secret_to_client :: bytes
  sh_server_identity :: ServerIdentityBundle

record ClientFinish =
  cf_stream_id :: StreamId
  cf_encapsulated_shared_secret_to_server :: bytes
  cf_transcript_signature :: bytes

record ServerFinish =
  sf_stream_id :: StreamId
  sf_transcript_signature :: bytes

record SimpleClientHello =
  xch_stream_id :: StreamId
  xch_client_nonce :: bytes
  xch_client_ephemeral_kem_public_key :: bytes

record SimpleServerHello =
  xsh_stream_id :: StreamId
  xsh_server_id :: string
  xsh_server_nonce :: bytes
  xsh_encapsulated_shared_secret :: bytes

datatype BootstrapMessage =
    BM_ClientHello ClientHello
  | BM_ServerHello ServerHello
  | BM_ClientFinish ClientFinish
  | BM_ServerFinish ServerFinish
  | BM_SimpleClientHello SimpleClientHello
  | BM_SimpleServerHello SimpleServerHello

fun message_kind :: "BootstrapMessage \<Rightarrow> BootstrapMessageKind" where
  "message_kind (BM_ClientHello _) = BK_ClientHello"
| "message_kind (BM_ServerHello _) = BK_ServerHello"
| "message_kind (BM_ClientFinish _) = BK_ClientFinish"
| "message_kind (BM_ServerFinish _) = BK_ServerFinish"
| "message_kind (BM_SimpleClientHello _) = BK_SimpleClientHello"
| "message_kind (BM_SimpleServerHello _) = BK_SimpleServerHello"

text \<open>\<open>BT_Expect\<close> stands for the panics of \<open>expect\<close> in \<open>handle_server_finish\<close>; no reachable state has them.\<close>

datatype BootstrapError =
    BT_Codec string
  | BT_Encode string
  | BT_InvalidFrameMagic
  | BT_FrameTooLarge BootstrapMessageKind nat nat
  | BT_UnexpectedMessageKind BootstrapMessageKind BootstrapMessageKind
  | BT_UnexpectedStreamId StreamId StreamId
  | BT_UnsupportedProtectionProfile ProtectionProfileKind
  | BT_UnexpectedServerIdentity
  | BT_InvalidServerIdentityValidity
  | BT_InvalidClientCredentialValidity
  | BT_CredentialScopeRejected StreamId StreamDirection
  | BT_CredentialIssuerMismatch
  | BT_ClientIdMismatch
  | BT_ServerIdMismatch
  | BT_InvalidClientCredentialSignature
  | BT_InvalidServerIdentitySignature
  | BT_InvalidClientTranscriptSignature
  | BT_InvalidServerTranscriptSignature
  | BT_RevokedClientCredential
  | BT_ReplayDetected
  | BT_InvalidKemPublicKey
  | BT_InvalidKemCiphertext
  | BT_InvalidSigningPublicKey
  | BT_InvalidSignatureEncoding
  | BT_Expect

section \<open>Libraries\<close>

text \<open>
  The functions of \<open>ml_kem\<close>, \<open>ml_dsa\<close>, \<open>sha2\<close> and \<open>bincode\<close> that the code calls, on encoded keys.  \<open>kem_public\<close> and
  \<open>dsa_public\<close> give the encoded public key of a seed, the predicates tell which bytes decode, and the writers of signed
  structures are those of the local \<open>Signable\<close> types, whose fields are a tuple here.
\<close>

record pq_lib =
  pq_sha256 :: "bytes \<Rightarrow> bytes"
  kem_public :: "bytes \<Rightarrow> bytes"
  kem_public_ok :: "bytes \<Rightarrow> bool"
  kem_ciphertext_ok :: "bytes \<Rightarrow> bool"
  kem_encapsulate :: "bytes \<Rightarrow> bytes \<Rightarrow> bytes \<times> bytes"
  kem_decapsulate :: "bytes \<Rightarrow> bytes \<Rightarrow> bytes"
  dsa_public :: "bytes \<Rightarrow> bytes"
  dsa_public_ok :: "bytes \<Rightarrow> bool"
  dsa_signature_ok :: "bytes \<Rightarrow> bool"
  dsa_sign :: "bytes \<Rightarrow> bytes \<Rightarrow> bytes"
  dsa_verify :: "bytes \<Rightarrow> bytes \<Rightarrow> bytes \<Rightarrow> bool"
  message_write :: "BootstrapMessage bincode_enc"
  message_read :: "BootstrapMessage bincode_dec"
  finish_write :: "ClientFinish bincode_enc"
  credential_write :: "(string \<times> string \<times> CredentialScope \<times> u64 \<times> u64 \<times> bytes) bincode_enc"
  identity_write :: "(string \<times> u64 \<times> u64 \<times> bytes) bincode_enc"

text \<open>
  What the code relies on: decapsulation inverts encapsulation to the key of a seed, signatures of a seed verify under
  its public key, what the libraries produce decodes, and bincode reads what it wrote.
\<close>

definition pq_ok :: "pq_lib \<Rightarrow> bool" where
  "pq_ok pq \<longleftrightarrow>
     (\<forall>seed m ct k. kem_encapsulate pq (kem_public pq seed) m = (ct, k) \<longrightarrow>
        kem_decapsulate pq seed ct = k \<and> kem_ciphertext_ok pq ct)
     \<and> (\<forall>seed. kem_public_ok pq (kem_public pq seed))
     \<and> (\<forall>seed m. dsa_verify pq (dsa_public pq seed) m (dsa_sign pq seed m) \<and> dsa_signature_ok pq (dsa_sign pq seed m))
     \<and> (\<forall>seed. dsa_public_ok pq (dsa_public pq seed))
     \<and> bincode_ok (message_write pq) (message_read pq)"

section \<open>Frames\<close>

record BootstrapConfig =
  bc_handshake_timeout_ms :: u64
  bc_idle_read_timeout_ms :: u64
  bc_max_bootstrap_frame_bytes :: nat
  bc_max_transport_frame_bytes :: nat
  bc_clock_skew_secs :: u64
  bc_default_client_credential_lifetime_secs :: u64

definition bootstrap_config_default :: BootstrapConfig where
  "bootstrap_config_default =
     \<lparr>bc_handshake_timeout_ms = 10000, bc_idle_read_timeout_ms = 30000, bc_max_bootstrap_frame_bytes = 64 * 1024,
      bc_max_transport_frame_bytes = 2 * 1024 * 1024, bc_clock_skew_secs = 120,
      bc_default_client_credential_lifetime_secs = 15 * 60\<rparr>"

definition to_frame :: "pq_lib \<Rightarrow> BootstrapConfig \<Rightarrow> BootstrapMessage \<Rightarrow> BootstrapError + bytes" where
  "to_frame pq config m =
     and_then (map_err BT_Encode (message_write pq m)) (\<lambda>payload.
       let out = BOOTSTRAP_MAGIC @ payload in
       if length out > bc_max_bootstrap_frame_bytes config
       then Err (BT_FrameTooLarge (message_kind m) (length out) (bc_max_bootstrap_frame_bytes config))
       else Ok out)"

definition from_frame :: "pq_lib \<Rightarrow> BootstrapConfig \<Rightarrow> bytes \<Rightarrow> BootstrapError + BootstrapMessage" where
  "from_frame pq config frame =
     (if length frame > bc_max_bootstrap_frame_bytes config
      then Err (BT_FrameTooLarge BK_ClientHello (length frame) (bc_max_bootstrap_frame_bytes config))
      else if length frame < length BOOTSTRAP_MAGIC \<or> take (length BOOTSTRAP_MAGIC) frame \<noteq> BOOTSTRAP_MAGIC
      then Err BT_InvalidFrameMagic
      else map_err BT_Codec (and_then (message_read pq (drop (length BOOTSTRAP_MAGIC) frame)) (\<lambda>(m, used). Ok m)))"

section \<open>Credentials and identities\<close>

definition identity_signable_bytes :: "pq_lib \<Rightarrow> ServerIdentityBundle \<Rightarrow> BootstrapError + bytes" where
  "identity_signable_bytes pq b =
     map_err BT_Encode (identity_write pq
       (si_server_id b, si_issued_at_unix_secs b, si_expires_at_unix_secs b, si_server_signing_public_key b))"

definition client_credential_signable_bytes :: "pq_lib \<Rightarrow> ClientCredentialBundle \<Rightarrow> BootstrapError + bytes" where
  "client_credential_signable_bytes pq b =
     map_err BT_Encode (credential_write pq
       (cc_client_id b, cc_issuer_server_id b, cc_scope b, cc_issued_at_unix_secs b, cc_expires_at_unix_secs b,
        cc_client_signing_public_key b))"

definition issue_server_identity ::
  "pq_lib \<Rightarrow> string \<Rightarrow> u64 \<Rightarrow> u64 \<Rightarrow> bytes \<Rightarrow> BootstrapError + ServerIdentityBundle" where
  "issue_server_identity pq server_id issued_at expires_at server_signing_seed =
     (let b = \<lparr>si_server_id = server_id, si_issued_at_unix_secs = issued_at, si_expires_at_unix_secs = expires_at,
            si_server_signing_public_key = dsa_public pq server_signing_seed, si_self_signature = []\<rparr> in
      and_then (identity_signable_bytes pq b) (\<lambda>signable.
        Ok (b\<lparr>si_self_signature := dsa_sign pq server_signing_seed signable\<rparr>)))"

definition issue_client_credential ::
  "pq_lib \<Rightarrow> ServerIdentityBundle \<Rightarrow> bytes \<Rightarrow> string \<Rightarrow> bytes \<Rightarrow> CredentialScope \<Rightarrow> u64 \<Rightarrow> u64
    \<Rightarrow> BootstrapError + IssuedClientCredential" where
  "issue_client_credential pq server_identity server_signing_seed client_id client_signing_seed scope issued_at expires_at =
     (let b = \<lparr>cc_client_id = client_id, cc_issuer_server_id = si_server_id server_identity, cc_scope = scope,
            cc_issued_at_unix_secs = issued_at, cc_expires_at_unix_secs = expires_at,
            cc_client_signing_public_key = dsa_public pq client_signing_seed, cc_issuer_signature = []\<rparr> in
      and_then (client_credential_signable_bytes pq b) (\<lambda>signable.
        Ok \<lparr>ic_bundle = b\<lparr>cc_issuer_signature := dsa_sign pq server_signing_seed signable\<rparr>,
            ic_client_signing_seed = client_signing_seed\<rparr>))"

text \<open>Keys and signatures that do not decode are errors before anything is verified.\<close>

definition decode_mldsa_verifying_key :: "pq_lib \<Rightarrow> bytes \<Rightarrow> BootstrapError + bytes" where
  "decode_mldsa_verifying_key pq bs = (if dsa_public_ok pq bs then Ok bs else Err BT_InvalidSigningPublicKey)"

definition decode_mldsa_signature :: "pq_lib \<Rightarrow> bytes \<Rightarrow> BootstrapError + bytes" where
  "decode_mldsa_signature pq bs = (if dsa_signature_ok pq bs then Ok bs else Err BT_InvalidSignatureEncoding)"

definition decode_kem_public_key :: "pq_lib \<Rightarrow> bytes \<Rightarrow> BootstrapError + bytes" where
  "decode_kem_public_key pq bs = (if kem_public_ok pq bs then Ok bs else Err BT_InvalidKemPublicKey)"

definition decode_kem_ciphertext :: "pq_lib \<Rightarrow> bytes \<Rightarrow> BootstrapError + bytes" where
  "decode_kem_ciphertext pq bs = (if kem_ciphertext_ok pq bs then Ok bs else Err BT_InvalidKemCiphertext)"

text \<open>The window in which an identity or a credential is valid, widened by the clock skew.\<close>

definition outside_validity :: "u64 \<Rightarrow> u64 \<Rightarrow> u64 \<Rightarrow> u64 \<Rightarrow> bool" where
  "outside_validity issued_at expires_at now skew \<longleftrightarrow>
     issued_at > saturating_add now skew \<or> saturating_add expires_at skew < now"

definition validate_server_identity_bundle ::
  "pq_lib \<Rightarrow> ServerIdentityBundle \<Rightarrow> u64 \<Rightarrow> u64 \<Rightarrow> BootstrapError + unit" where
  "validate_server_identity_bundle pq b now skew =
     (if outside_validity (si_issued_at_unix_secs b) (si_expires_at_unix_secs b) now skew
      then Err BT_InvalidServerIdentityValidity
      else and_then (decode_mldsa_verifying_key pq (si_server_signing_public_key b)) (\<lambda>key.
           and_then (decode_mldsa_signature pq (si_self_signature b)) (\<lambda>signature.
           and_then (identity_signable_bytes pq b) (\<lambda>signable.
             ensure (dsa_verify pq key signable signature) BT_InvalidServerIdentitySignature))))"

definition validate_client_credential_bundle ::
  "pq_lib \<Rightarrow> ClientCredentialBundle \<Rightarrow> ServerIdentityBundle \<Rightarrow> StreamId \<Rightarrow> StreamDirection \<Rightarrow> u64 \<Rightarrow> u64
    \<Rightarrow> BootstrapError + unit" where
  "validate_client_credential_bundle pq b server_identity stream_id direction now skew =
     (if cc_issuer_server_id b \<noteq> si_server_id server_identity then Err BT_CredentialIssuerMismatch
      else if outside_validity (cc_issued_at_unix_secs b) (cc_expires_at_unix_secs b) now skew
      then Err BT_InvalidClientCredentialValidity
      else if \<not> scope_allows (cc_scope b) stream_id direction then Err (BT_CredentialScopeRejected stream_id direction)
      else and_then (decode_mldsa_verifying_key pq (si_server_signing_public_key server_identity)) (\<lambda>key.
           and_then (decode_mldsa_signature pq (cc_issuer_signature b)) (\<lambda>signature.
           and_then (client_credential_signable_bytes pq b) (\<lambda>signable.
             ensure (dsa_verify pq key signable signature) BT_InvalidClientCredentialSignature))))"

section \<open>Replay cache\<close>

record ReplayCacheKey =
  rp_client_id :: string
  rp_client_nonce :: bytes
  rp_server_nonce :: bytes

type_synonym ReplayCache = "ReplayCacheKey \<rightharpoonup> u64"

definition prune_expired :: "u64 \<Rightarrow> ReplayCache \<Rightarrow> ReplayCache" where
  "prune_expired now entries =
     (\<lambda>k. case entries k of Some expires_at \<Rightarrow> if expires_at \<ge> now then Some expires_at else None | None \<Rightarrow> None)"

definition check_and_insert ::
  "ReplayCacheKey \<Rightarrow> u64 \<Rightarrow> u64 \<Rightarrow> ReplayCache \<Rightarrow> ReplayCache \<times> (BootstrapError + unit)" where
  "check_and_insert key expires_at now entries =
     (let entries = prune_expired now entries in
      if entries key \<noteq> None then (entries, Err BT_ReplayDetected)
      else (entries(key \<mapsto> expires_at), Ok ()))"

section \<open>Transcripts and roots\<close>

definition transcript_material :: "bytes list \<Rightarrow> bytes" where
  "transcript_material parts = concat (map (\<lambda>part. le64 (of_nat (length part)) @ part) parts)"

definition transcript_hash :: "pq_lib \<Rightarrow> bytes list \<Rightarrow> bytes" where
  "transcript_hash pq parts = pq_sha256 pq (transcript_material parts)"

definition kem_encapsulate_deterministic :: "pq_lib \<Rightarrow> bytes \<Rightarrow> bytes list \<Rightarrow> bytes \<times> bytes" where
  "kem_encapsulate_deterministic pq public_key parts = kem_encapsulate pq public_key (transcript_hash pq parts)"

fun direction_root_label :: "StreamDirection \<Rightarrow> bytes" where
  "direction_root_label ClientToServer = ascii_bytes ''pq_mutual_v1/root/c2s''"
| "direction_root_label ServerToClient = ascii_bytes ''pq_mutual_v1/root/s2c''"

fun simple_direction_root_label :: "StreamDirection \<Rightarrow> bytes" where
  "simple_direction_root_label ClientToServer = ascii_bytes ''pq_simple_v1/root/c2s''"
| "simple_direction_root_label ServerToClient = ascii_bytes ''pq_simple_v1/root/s2c''"

definition derive_pq_mutual_root ::
  "crypto \<Rightarrow> StreamId \<Rightarrow> StreamDirection \<Rightarrow> bytes \<Rightarrow> bytes \<Rightarrow> bytes \<Rightarrow> bytes" where
  "derive_pq_mutual_root cr stream_id direction server_to_client_secret client_to_server_secret hash =
     (let salt = concat [MUTUAL_ROOT_LABEL, le64 stream_id, hash];
          ikm = concat [server_to_client_secret, client_to_server_secret, hash] in
      hkdf_expand cr (hkdf_extract cr salt ikm) (direction_root_label direction) ROOT_LEN)"

definition derive_pq_simple_root :: "crypto \<Rightarrow> StreamId \<Rightarrow> StreamDirection \<Rightarrow> bytes \<Rightarrow> bytes \<Rightarrow> bytes" where
  "derive_pq_simple_root cr stream_id direction shared_secret hash =
     (let salt = concat [SIMPLE_ROOT_LABEL, le64 stream_id, hash]; ikm = concat [shared_secret, hash] in
      hkdf_expand cr (hkdf_extract cr salt ikm) (simple_direction_root_label direction) ROOT_LEN)"

definition client_finish_signable_bytes ::
  "pq_lib \<Rightarrow> bytes \<Rightarrow> bytes \<Rightarrow> ClientFinish \<Rightarrow> BootstrapError + bytes" where
  "client_finish_signable_bytes pq client_hello_frame server_hello_frame finish =
     and_then (map_err BT_Encode (finish_write pq finish)) (\<lambda>written.
       Ok (concat [CLIENT_TRANSCRIPT_LABEL, transcript_hash pq [client_hello_frame, server_hello_frame, written]]))"

definition server_finish_signable_bytes :: "StreamId \<Rightarrow> StreamDirection \<Rightarrow> bytes \<Rightarrow> bytes" where
  "server_finish_signable_bytes stream_id direction hash =
     concat [SERVER_TRANSCRIPT_LABEL, le64 stream_id, direction_root_label direction, hash]"

section \<open>Configurations and states\<close>

datatype ClientSecurityConfig = CSC_PqMutual IssuedClientCredential ServerIdentityBundle | CSC_PqSimple

datatype ServerSecurityConfig =
    SSC_PqMutual ServerIdentityBundle bytes "string list"
  | SSC_PqSimple string

fun client_security_profile :: "ClientSecurityConfig \<Rightarrow> ProtectionProfileKind" where
  "client_security_profile (CSC_PqMutual _ _) = PqMutualV1"
| "client_security_profile CSC_PqSimple = PqSimpleV1"

fun server_security_profile :: "ServerSecurityConfig \<Rightarrow> ProtectionProfileKind" where
  "server_security_profile (SSC_PqMutual _ _ _) = PqMutualV1"
| "server_security_profile (SSC_PqSimple _) = PqSimpleV1"

record BootstrapClientConfig =
  bcc_stream_id :: StreamId
  bcc_direction :: StreamDirection
  bcc_bootstrap :: BootstrapConfig
  bcc_security :: ClientSecurityConfig

record BootstrapServerConfig =
  bsc_stream_id :: StreamId
  bsc_direction :: StreamDirection
  bsc_bootstrap :: BootstrapConfig
  bsc_security :: ServerSecurityConfig

record BootstrapCompleted =
  bco_stream_id :: StreamId
  bco_direction :: StreamDirection
  bco_protection_profile :: ProtectionProfileKind
  bco_root :: bytes
  bco_client_id :: string
  bco_server_id :: string
  bco_client_nonce :: bytes
  bco_server_nonce :: bytes

record MutualClientBootstrapState =
  mc_config :: BootstrapClientConfig
  mc_client_nonce :: bytes
  mc_client_kem_seed :: bytes
  mc_client_hello_frame :: bytes
  mc_client_kem_secret :: bytes
  mc_transcript_hash_after_client_finish :: "bytes option"
  mc_root :: "bytes option"
  mc_server_nonce :: "bytes option"

record SimpleClientBootstrapState =
  xc_config :: BootstrapClientConfig
  xc_client_nonce :: bytes
  xc_client_kem_secret :: bytes

datatype ClientBootstrapState = CB_PqMutual MutualClientBootstrapState | CB_PqSimple SimpleClientBootstrapState

record MutualServerBootstrapState =
  ms_config :: BootstrapServerConfig
  ms_client_hello :: ClientHello
  ms_client_hello_frame :: bytes
  ms_server_hello :: ServerHello
  ms_server_hello_frame :: bytes
  ms_server_nonce :: bytes
  ms_server_kem_secret :: bytes
  ms_client_shared_secret :: bytes

record ClientBootstrapProgress =
  cbp_outbound :: "BootstrapMessage option"
  cbp_completed :: "BootstrapCompleted option"

record ServerBootstrapResponse =
  sbr_state :: "MutualServerBootstrapState option"
  sbr_outbound :: BootstrapMessage
  sbr_completed :: "BootstrapCompleted option"

section \<open>The client of the mutual handshake\<close>

definition mutual_client_start ::
  "pq_lib \<Rightarrow> BootstrapClientConfig \<Rightarrow> bytes \<Rightarrow> bytes \<Rightarrow> BootstrapError + MutualClientBootstrapState \<times> BootstrapMessage" where
  "mutual_client_start pq config client_nonce client_kem_seed =
     (case bcc_security config of
        CSC_PqSimple \<Rightarrow> Err (BT_UnsupportedProtectionProfile (client_security_profile (bcc_security config)))
      | CSC_PqMutual issued_credential _ \<Rightarrow>
          let client_hello = \<lparr>ch_stream_id = bcc_stream_id config, ch_client_id = cc_client_id (ic_bundle issued_credential),
                ch_client_nonce = client_nonce, ch_client_ephemeral_kem_public_key = kem_public pq client_kem_seed,
                ch_client_credential = ic_bundle issued_credential\<rparr>;
              message = BM_ClientHello client_hello in
          and_then (to_frame pq (bcc_bootstrap config) message) (\<lambda>client_hello_frame.
            Ok (\<lparr>mc_config = config, mc_client_nonce = client_nonce, mc_client_kem_seed = client_kem_seed,
                 mc_client_hello_frame = client_hello_frame, mc_client_kem_secret = client_kem_seed,
                 mc_transcript_hash_after_client_finish = None, mc_root = None, mc_server_nonce = None\<rparr>, message)))"

text \<open>What the client checks of a \<open>ServerHello\<close> before it takes the nonce over: the result is the frame of the hello, the
  secret of the server, the ciphertext for the server and the secret of the client.\<close>

definition check_server_hello ::
  "pq_lib \<Rightarrow> MutualClientBootstrapState \<Rightarrow> ServerIdentityBundle \<Rightarrow> ServerHello \<Rightarrow> u64
    \<Rightarrow> BootstrapError + bytes \<times> bytes \<times> bytes \<times> bytes" where
  "check_server_hello pq st expected_server_identity server_hello now =
     (let config = mc_config st in
      if sh_stream_id server_hello \<noteq> bcc_stream_id config
      then Err (BT_UnexpectedStreamId (bcc_stream_id config) (sh_stream_id server_hello))
      else if sh_server_id server_hello \<noteq> si_server_id (sh_server_identity server_hello) then Err BT_ServerIdMismatch
      else if sh_server_identity server_hello \<noteq> expected_server_identity then Err BT_UnexpectedServerIdentity
      else
        and_then (validate_server_identity_bundle pq (sh_server_identity server_hello) now
            (bc_clock_skew_secs (bcc_bootstrap config))) (\<lambda>_.
        and_then (decode_kem_ciphertext pq (sh_encapsulated_shared_secret_to_client server_hello)) (\<lambda>server_ciphertext.
        let server_shared = kem_decapsulate pq (mc_client_kem_secret st) server_ciphertext in
        and_then (decode_kem_public_key pq (sh_server_ephemeral_kem_public_key server_hello)) (\<lambda>server_kem_public.
        let (ciphertext, client_shared) = kem_encapsulate_deterministic pq server_kem_public
              [ascii_bytes ''client-finish'', mc_client_kem_seed st, mc_client_nonce st] in
        and_then (to_frame pq (bcc_bootstrap config) (BM_ServerHello server_hello)) (\<lambda>server_hello_frame.
          Ok (server_hello_frame, server_shared, ciphertext, client_shared))))))"

definition sign_client_finish ::
  "pq_lib \<Rightarrow> MutualClientBootstrapState \<Rightarrow> IssuedClientCredential \<Rightarrow> bytes \<Rightarrow> bytes
    \<Rightarrow> BootstrapError + ClientFinish \<times> bytes" where
  "sign_client_finish pq st issued_credential server_hello_frame ciphertext =
     (let finish_without_sig = \<lparr>cf_stream_id = bcc_stream_id (mc_config st),
            cf_encapsulated_shared_secret_to_server = ciphertext, cf_transcript_signature = []\<rparr> in
      and_then (client_finish_signable_bytes pq (mc_client_hello_frame st) server_hello_frame finish_without_sig)
        (\<lambda>signable.
      let client_finish = finish_without_sig\<lparr>cf_transcript_signature :=
            dsa_sign pq (ic_client_signing_seed issued_credential) signable\<rparr> in
      and_then (to_frame pq (bcc_bootstrap (mc_config st)) (BM_ClientFinish client_finish)) (\<lambda>client_finish_frame.
        Ok (client_finish, transcript_hash pq [mc_client_hello_frame st, server_hello_frame, client_finish_frame]))))"

definition mutual_client_server_hello ::
  "crypto \<Rightarrow> pq_lib \<Rightarrow> MutualClientBootstrapState \<Rightarrow> BootstrapMessage \<Rightarrow> u64
    \<Rightarrow> MutualClientBootstrapState \<times> (BootstrapError + ClientBootstrapProgress)" where
  "mutual_client_server_hello cr pq st message now =
     (case message of
        BM_ServerHello server_hello \<Rightarrow>
          (case bcc_security (mc_config st) of
             CSC_PqSimple \<Rightarrow>
               (st, Err (BT_UnsupportedProtectionProfile (client_security_profile (bcc_security (mc_config st)))))
           | CSC_PqMutual issued_credential expected_server_identity \<Rightarrow>
               (case check_server_hello pq st expected_server_identity server_hello now of
                  Inl e \<Rightarrow> (st, Err e)
                | Inr (server_hello_frame, server_shared, ciphertext, client_shared) \<Rightarrow>
                    let st = st\<lparr>mc_server_nonce := Some (sh_server_nonce server_hello)\<rparr> in
                    (case sign_client_finish pq st issued_credential server_hello_frame ciphertext of
                       Inl e \<Rightarrow> (st, Err e)
                     | Inr (client_finish, hash) \<Rightarrow>
                         let config = mc_config st;
                             combined_root = derive_pq_mutual_root cr (bcc_stream_id config) (bcc_direction config)
                               server_shared client_shared hash in
                         (st\<lparr>mc_transcript_hash_after_client_finish := Some hash, mc_root := Some combined_root\<rparr>,
                          Ok \<lparr>cbp_outbound = Some (BM_ClientFinish client_finish), cbp_completed = None\<rparr>))))
      | _ \<Rightarrow> (st, Err (BT_UnexpectedMessageKind BK_ServerHello (message_kind message))))"

definition mutual_client_server_finish ::
  "pq_lib \<Rightarrow> MutualClientBootstrapState \<Rightarrow> BootstrapMessage \<Rightarrow> BootstrapError + BootstrapCompleted" where
  "mutual_client_server_finish pq st message =
     (let config = mc_config st in
      case message of
        BM_ServerFinish server_finish \<Rightarrow>
          (case bcc_security config of
             CSC_PqSimple \<Rightarrow> Err (BT_UnsupportedProtectionProfile (client_security_profile (bcc_security config)))
           | CSC_PqMutual issued_credential expected_server_identity \<Rightarrow>
               and_then (ok_or (BT_UnexpectedMessageKind BK_ServerHello BK_ServerFinish)
                   (mc_transcript_hash_after_client_finish st)) (\<lambda>hash.
               and_then (decode_mldsa_verifying_key pq (si_server_signing_public_key expected_server_identity)) (\<lambda>key.
               let signable = server_finish_signable_bytes (bcc_stream_id config) (bcc_direction config) hash in
               and_then (decode_mldsa_signature pq (sf_transcript_signature server_finish)) (\<lambda>signature.
               and_then (ensure (dsa_verify pq key signable signature) BT_InvalidServerTranscriptSignature) (\<lambda>_.
               and_then (ok_or BT_Expect (mc_root st)) (\<lambda>root.
               and_then (ok_or BT_Expect (mc_server_nonce st)) (\<lambda>server_nonce.
                 Ok \<lparr>bco_stream_id = bcc_stream_id config, bco_direction = bcc_direction config,
                     bco_protection_profile = PqMutualV1, bco_root = root,
                     bco_client_id = cc_client_id (ic_bundle issued_credential),
                     bco_server_id = si_server_id expected_server_identity,
                     bco_client_nonce = mc_client_nonce st, bco_server_nonce = server_nonce\<rparr>)))))))
      | _ \<Rightarrow> Err (BT_UnexpectedMessageKind BK_ServerFinish (message_kind message)))"

section \<open>The server of the mutual handshake\<close>

definition mutual_respond ::
  "pq_lib \<Rightarrow> BootstrapServerConfig \<Rightarrow> ReplayCache \<Rightarrow> BootstrapMessage \<Rightarrow> u64 \<Rightarrow> bytes \<Rightarrow> bytes
    \<Rightarrow> ReplayCache \<times> (BootstrapError + MutualServerBootstrapState \<times> BootstrapMessage)" where
  "mutual_respond pq config cache message now server_nonce server_kem_seed =
     (case message of
        BM_ClientHello hello \<Rightarrow>
          (case bsc_security config of
             SSC_PqSimple _ \<Rightarrow>
               (cache, Err (BT_UnsupportedProtectionProfile (server_security_profile (bsc_security config))))
           | SSC_PqMutual server_identity _ revoked_client_ids \<Rightarrow>
               let skew = bc_clock_skew_secs (bsc_bootstrap config);
                   checked =
                     (if ch_stream_id hello \<noteq> bsc_stream_id config
                      then Err (BT_UnexpectedStreamId (bsc_stream_id config) (ch_stream_id hello))
                      else
                        and_then (validate_server_identity_bundle pq server_identity now skew) (\<lambda>_.
                        and_then (validate_client_credential_bundle pq (ch_client_credential hello) server_identity
                            (bsc_stream_id config) (bsc_direction config) now skew) (\<lambda>_.
                        if cc_client_id (ch_client_credential hello) \<noteq> ch_client_id hello then Err BT_ClientIdMismatch
                        else if ch_client_id hello \<in> set revoked_client_ids then Err BT_RevokedClientCredential
                        else Ok ()))) in
               (case checked of
                  Inl e \<Rightarrow> (cache, Err e)
                | Inr _ \<Rightarrow>
                    (case check_and_insert \<lparr>rp_client_id = ch_client_id hello, rp_client_nonce = ch_client_nonce hello,
                         rp_server_nonce = server_nonce\<rparr> (cc_expires_at_unix_secs (ch_client_credential hello)) now cache of
                       (cache, Inl e) \<Rightarrow> (cache, Err e)
                     | (cache, Inr _) \<Rightarrow>
                         (cache,
                          and_then (decode_kem_public_key pq (ch_client_ephemeral_kem_public_key hello)) (\<lambda>client_public.
                          let (ciphertext_to_client, server_shared) = kem_encapsulate_deterministic pq client_public
                                [ascii_bytes ''server-hello'', server_kem_seed, server_nonce, ch_client_nonce hello];
                              server_hello = \<lparr>sh_stream_id = bsc_stream_id config,
                                sh_server_id = si_server_id server_identity, sh_server_nonce = server_nonce,
                                sh_server_ephemeral_kem_public_key = kem_public pq server_kem_seed,
                                sh_encapsulated_shared_secret_to_client = ciphertext_to_client,
                                sh_server_identity = server_identity\<rparr> in
                          and_then (to_frame pq (bsc_bootstrap config) (BM_ClientHello hello)) (\<lambda>client_hello_frame.
                          and_then (to_frame pq (bsc_bootstrap config) (BM_ServerHello server_hello)) (\<lambda>server_hello_frame.
                            Ok (\<lparr>ms_config = config, ms_client_hello = hello, ms_client_hello_frame = client_hello_frame,
                                 ms_server_hello = server_hello, ms_server_hello_frame = server_hello_frame,
                                 ms_server_nonce = server_nonce, ms_server_kem_secret = server_kem_seed,
                                 ms_client_shared_secret = server_shared\<rparr>, BM_ServerHello server_hello))))))))
      | _ \<Rightarrow> (cache, Err (BT_UnexpectedMessageKind BK_ClientHello (message_kind message))))"

definition mutual_client_finish ::
  "crypto \<Rightarrow> pq_lib \<Rightarrow> MutualServerBootstrapState \<Rightarrow> BootstrapMessage
    \<Rightarrow> BootstrapError + BootstrapCompleted \<times> BootstrapMessage" where
  "mutual_client_finish cr pq st message =
     (let config = ms_config st in
      case message of
        BM_ClientFinish finish \<Rightarrow>
          (case bsc_security config of
             SSC_PqSimple _ \<Rightarrow> Err (BT_UnsupportedProtectionProfile (server_security_profile (bsc_security config)))
           | SSC_PqMutual _ server_signing_seed _ \<Rightarrow>
               if cf_stream_id finish \<noteq> bsc_stream_id config
               then Err (BT_UnexpectedStreamId (bsc_stream_id config) (cf_stream_id finish))
               else
                 and_then (decode_kem_ciphertext pq (cf_encapsulated_shared_secret_to_server finish)) (\<lambda>ciphertext.
                 let server_shared = kem_decapsulate pq (ms_server_kem_secret st) ciphertext in
                 and_then (decode_mldsa_verifying_key pq
                     (cc_client_signing_public_key (ch_client_credential (ms_client_hello st)))) (\<lambda>client_key.
                 and_then (client_finish_signable_bytes pq (ms_client_hello_frame st) (ms_server_hello_frame st)
                     (finish\<lparr>cf_transcript_signature := []\<rparr>)) (\<lambda>signable.
                 and_then (decode_mldsa_signature pq (cf_transcript_signature finish)) (\<lambda>signature.
                 and_then (ensure (dsa_verify pq client_key signable signature) BT_InvalidClientTranscriptSignature) (\<lambda>_.
                 and_then (to_frame pq (bsc_bootstrap config) (BM_ClientFinish finish)) (\<lambda>finish_frame.
                 let hash = transcript_hash pq [ms_client_hello_frame st, ms_server_hello_frame st, finish_frame];
                     root = derive_pq_mutual_root cr (bsc_stream_id config) (bsc_direction config)
                       (ms_client_shared_secret st) server_shared hash;
                     signature = dsa_sign pq server_signing_seed
                       (server_finish_signable_bytes (bsc_stream_id config) (bsc_direction config) hash) in
                 Ok (\<lparr>bco_stream_id = bsc_stream_id config, bco_direction = bsc_direction config,
                      bco_protection_profile = PqMutualV1, bco_root = root,
                      bco_client_id = ch_client_id (ms_client_hello st), bco_server_id = sh_server_id (ms_server_hello st),
                      bco_client_nonce = ch_client_nonce (ms_client_hello st), bco_server_nonce = ms_server_nonce st\<rparr>,
                     BM_ServerFinish \<lparr>sf_stream_id = bsc_stream_id config, sf_transcript_signature = signature\<rparr>))))))))
      | _ \<Rightarrow> Err (BT_UnexpectedMessageKind BK_ClientFinish (message_kind message)))"

section \<open>The simple handshake\<close>

definition simple_client_hello :: "pq_lib \<Rightarrow> BootstrapClientConfig \<Rightarrow> bytes \<Rightarrow> bytes \<Rightarrow> BootstrapMessage" where
  "simple_client_hello pq config client_nonce client_kem_seed =
     BM_SimpleClientHello \<lparr>xch_stream_id = bcc_stream_id config, xch_client_nonce = client_nonce,
       xch_client_ephemeral_kem_public_key = kem_public pq client_kem_seed\<rparr>"

definition simple_client_start ::
  "pq_lib \<Rightarrow> BootstrapClientConfig \<Rightarrow> bytes \<Rightarrow> bytes \<Rightarrow> BootstrapError + SimpleClientBootstrapState \<times> BootstrapMessage" where
  "simple_client_start pq config client_nonce client_kem_seed =
     Ok (\<lparr>xc_config = config, xc_client_nonce = client_nonce, xc_client_kem_secret = client_kem_seed\<rparr>,
         simple_client_hello pq config client_nonce client_kem_seed)"

definition simple_client_server_hello ::
  "crypto \<Rightarrow> pq_lib \<Rightarrow> SimpleClientBootstrapState \<Rightarrow> BootstrapMessage \<Rightarrow> BootstrapError + ClientBootstrapProgress" where
  "simple_client_server_hello cr pq st message =
     (let config = xc_config st in
      case message of
        BM_SimpleServerHello hello \<Rightarrow>
          if xsh_stream_id hello \<noteq> bcc_stream_id config
          then Err (BT_UnexpectedStreamId (bcc_stream_id config) (xsh_stream_id hello))
          else
            and_then (decode_kem_ciphertext pq (xsh_encapsulated_shared_secret hello)) (\<lambda>ciphertext.
            let shared_secret = kem_decapsulate pq (xc_client_kem_secret st) ciphertext in
            and_then (to_frame pq (bcc_bootstrap config)
                (simple_client_hello pq config (xc_client_nonce st) (xc_client_kem_secret st))) (\<lambda>client_hello_frame.
            and_then (to_frame pq (bcc_bootstrap config) (BM_SimpleServerHello hello)) (\<lambda>server_hello_frame.
            let hash = transcript_hash pq [client_hello_frame, server_hello_frame];
                root = derive_pq_simple_root cr (bcc_stream_id config) (bcc_direction config) shared_secret hash in
            Ok \<lparr>cbp_outbound = None,
                cbp_completed = Some \<lparr>bco_stream_id = bcc_stream_id config, bco_direction = bcc_direction config,
                  bco_protection_profile = PqSimpleV1, bco_root = root, bco_client_id = SIMPLE_DEFAULT_CLIENT_ID,
                  bco_server_id = xsh_server_id hello, bco_client_nonce = xc_client_nonce st,
                  bco_server_nonce = xsh_server_nonce hello\<rparr>\<rparr>)))
      | _ \<Rightarrow> Err (BT_UnexpectedMessageKind BK_SimpleServerHello (message_kind message)))"

definition respond_to_simple_client_hello ::
  "crypto \<Rightarrow> pq_lib \<Rightarrow> BootstrapServerConfig \<Rightarrow> BootstrapMessage \<Rightarrow> bytes \<Rightarrow> bytes
    \<Rightarrow> BootstrapError + BootstrapCompleted \<times> BootstrapMessage" where
  "respond_to_simple_client_hello cr pq config message server_nonce server_kem_seed =
     (case message of
        BM_SimpleClientHello hello \<Rightarrow>
          (case bsc_security config of
             SSC_PqMutual _ _ _ \<Rightarrow>
               Err (BT_UnsupportedProtectionProfile (server_security_profile (bsc_security config)))
           | SSC_PqSimple configured_server_id \<Rightarrow>
               if xch_stream_id hello \<noteq> bsc_stream_id config
               then Err (BT_UnexpectedStreamId (bsc_stream_id config) (xch_stream_id hello))
               else
                 and_then (decode_kem_public_key pq (xch_client_ephemeral_kem_public_key hello)) (\<lambda>client_public.
                 let (ciphertext, shared_secret) = kem_encapsulate_deterministic pq client_public
                       [ascii_bytes ''simple-server-hello'', server_kem_seed, server_nonce, xch_client_nonce hello];
                     server_id = (if configured_server_id = [] then SIMPLE_DEFAULT_SERVER_ID else configured_server_id);
                     server_hello = \<lparr>xsh_stream_id = bsc_stream_id config, xsh_server_id = server_id,
                       xsh_server_nonce = server_nonce, xsh_encapsulated_shared_secret = ciphertext\<rparr> in
                 and_then (to_frame pq (bsc_bootstrap config) (BM_SimpleClientHello hello)) (\<lambda>client_hello_frame.
                 and_then (to_frame pq (bsc_bootstrap config) (BM_SimpleServerHello server_hello)) (\<lambda>server_hello_frame.
                 let hash = transcript_hash pq [client_hello_frame, server_hello_frame];
                     root = derive_pq_simple_root cr (bsc_stream_id config) (bsc_direction config) shared_secret hash in
                 Ok (\<lparr>bco_stream_id = bsc_stream_id config, bco_direction = bsc_direction config,
                      bco_protection_profile = PqSimpleV1, bco_root = root, bco_client_id = SIMPLE_DEFAULT_CLIENT_ID,
                      bco_server_id = server_id, bco_client_nonce = xch_client_nonce hello,
                      bco_server_nonce = server_nonce\<rparr>, BM_SimpleServerHello server_hello)))))
      | _ \<Rightarrow> Err (BT_UnexpectedMessageKind BK_SimpleClientHello (message_kind message)))"

section \<open>Either handshake\<close>

definition client_start ::
  "pq_lib \<Rightarrow> BootstrapClientConfig \<Rightarrow> bytes \<Rightarrow> bytes \<Rightarrow> BootstrapError + ClientBootstrapState \<times> BootstrapMessage" where
  "client_start pq config client_nonce client_kem_seed =
     (case client_security_profile (bcc_security config) of
        PqMutualV1 \<Rightarrow> and_then (mutual_client_start pq config client_nonce client_kem_seed)
          (\<lambda>(st, message). Ok (CB_PqMutual st, message))
      | PqSimpleV1 \<Rightarrow> and_then (simple_client_start pq config client_nonce client_kem_seed)
          (\<lambda>(st, message). Ok (CB_PqSimple st, message))
      | other \<Rightarrow> Err (BT_UnsupportedProtectionProfile other))"

fun client_server_hello ::
  "crypto \<Rightarrow> pq_lib \<Rightarrow> ClientBootstrapState \<Rightarrow> BootstrapMessage \<Rightarrow> u64
    \<Rightarrow> ClientBootstrapState \<times> (BootstrapError + ClientBootstrapProgress)" where
  "client_server_hello cr pq (CB_PqMutual st) message now = apfst CB_PqMutual (mutual_client_server_hello cr pq st message now)"
| "client_server_hello cr pq (CB_PqSimple st) message now = (CB_PqSimple st, simple_client_server_hello cr pq st message)"

fun client_server_finish :: "pq_lib \<Rightarrow> ClientBootstrapState \<Rightarrow> BootstrapMessage \<Rightarrow> BootstrapError + BootstrapCompleted" where
  "client_server_finish pq (CB_PqMutual st) message = mutual_client_server_finish pq st message"
| "client_server_finish pq (CB_PqSimple st) message =
     Err (BT_UnexpectedMessageKind BK_SimpleServerHello (message_kind message))"

definition respond_to_client_hello ::
  "crypto \<Rightarrow> pq_lib \<Rightarrow> BootstrapServerConfig \<Rightarrow> ReplayCache \<Rightarrow> BootstrapMessage \<Rightarrow> u64 \<Rightarrow> bytes \<Rightarrow> bytes
    \<Rightarrow> ReplayCache \<times> (BootstrapError + ServerBootstrapResponse)" where
  "respond_to_client_hello cr pq config cache message now server_nonce server_kem_seed =
     (case server_security_profile (bsc_security config) of
        PqMutualV1 \<Rightarrow> apsnd (\<lambda>r. and_then r (\<lambda>(st, outbound).
            Ok \<lparr>sbr_state = Some st, sbr_outbound = outbound, sbr_completed = None\<rparr>))
          (mutual_respond pq config cache message now server_nonce server_kem_seed)
      | PqSimpleV1 \<Rightarrow> (cache, and_then (respond_to_simple_client_hello cr pq config message server_nonce server_kem_seed)
          (\<lambda>(completed, outbound). Ok \<lparr>sbr_state = None, sbr_outbound = outbound, sbr_completed = Some completed\<rparr>))
      | other \<Rightarrow> (cache, Err (BT_UnsupportedProtectionProfile other)))"

section \<open>Both ends over a carrier\<close>

definition carried :: "pq_lib \<Rightarrow> BootstrapConfig \<Rightarrow> BootstrapConfig \<Rightarrow> BootstrapMessage \<Rightarrow> BootstrapError + BootstrapMessage" where
  "carried pq sender receiver m = and_then (to_frame pq sender m) (from_frame pq receiver)"

text \<open>A client and a server that take turns over a carrier that delivers every frame: what each has completed.\<close>

definition run_handshake ::
  "crypto \<Rightarrow> pq_lib \<Rightarrow> BootstrapClientConfig \<Rightarrow> BootstrapServerConfig \<Rightarrow> ReplayCache \<Rightarrow> u64 \<times> u64
    \<Rightarrow> bytes \<times> bytes \<Rightarrow> bytes \<times> bytes \<Rightarrow> BootstrapError + BootstrapCompleted \<times> BootstrapCompleted" where
  "run_handshake cr pq ccfg scfg cache now client_random server_random =
     (let up = carried pq (bcc_bootstrap ccfg) (bsc_bootstrap scfg); down = carried pq (bsc_bootstrap scfg) (bcc_bootstrap ccfg) in
      and_then (client_start pq ccfg (fst client_random) (snd client_random)) (\<lambda>(client, hello).
      and_then (up hello) (\<lambda>hello.
      and_then (snd (respond_to_client_hello cr pq scfg cache hello (snd now) (fst server_random) (snd server_random)))
        (\<lambda>response.
      and_then (down (sbr_outbound response)) (\<lambda>server_hello.
      case client_server_hello cr pq client server_hello (fst now) of (client, progress) \<Rightarrow>
      and_then progress (\<lambda>progress.
      case (cbp_outbound progress, sbr_state response) of
        (Some outbound, Some server) \<Rightarrow>
          and_then (up outbound) (\<lambda>client_finish.
          and_then (mutual_client_finish cr pq server client_finish) (\<lambda>(server_completed, server_finish).
          and_then (down server_finish) (\<lambda>server_finish.
          and_then (client_server_finish pq client server_finish) (\<lambda>client_completed.
            Ok (client_completed, server_completed)))))
      | _ \<Rightarrow>
          and_then (ok_or (BT_UnexpectedMessageKind BK_ServerHello BK_ServerHello) (cbp_completed progress)) (\<lambda>client_completed.
          and_then (ok_or (BT_UnexpectedMessageKind BK_ClientFinish BK_ClientFinish) (sbr_completed response))
            (\<lambda>server_completed. Ok (client_completed, server_completed)))))))))"

fun frame_error :: "BootstrapError \<Rightarrow> bool" where
  "frame_error (BT_Encode _) \<longleftrightarrow> True"
| "frame_error (BT_FrameTooLarge _ _ _) \<longleftrightarrow> True"
| "frame_error _ \<longleftrightarrow> False"

definition frame_of :: "pq_lib \<Rightarrow> BootstrapMessage \<Rightarrow> bytes" where
  "frame_of pq m = BOOTSTRAP_MAGIC @ (case message_write pq m of Inr bs \<Rightarrow> bs | Inl _ \<Rightarrow> [])"

lemma to_frame_Ok: "to_frame pq c m = Ok f \<Longrightarrow> f = frame_of pq m \<and> length f \<le> bc_max_bootstrap_frame_bytes c"
  by (auto simp: to_frame_def frame_of_def Let_def split: if_splits)

lemma to_frame_Err: "to_frame pq c m = Err e \<Longrightarrow> frame_error e"
  by (cases "message_write pq m") (auto simp: to_frame_def Let_def split: if_splits)

lemma pq_okD:
  assumes "pq_ok pq"
  shows "kem_encapsulate pq (kem_public pq seed) m = (ct, k) \<Longrightarrow> kem_decapsulate pq seed ct = k"
    "kem_encapsulate pq (kem_public pq seed) m = (ct, k) \<Longrightarrow> kem_ciphertext_ok pq ct"
    "kem_public_ok pq (kem_public pq seed)" "dsa_verify pq (dsa_public pq seed) m (dsa_sign pq seed m)"
    "dsa_signature_ok pq (dsa_sign pq seed m)" "dsa_public_ok pq (dsa_public pq seed)"
    "message_write pq msg = Ok bs \<Longrightarrow> message_read pq bs = Ok (msg, length bs)"
  using assms unfolding pq_ok_def bincode_ok_def by blast+

lemma frame_round_trip:
  assumes "pq_ok pq" "to_frame pq c m = Ok f"
  shows "from_frame pq c' f =
    (if length f > bc_max_bootstrap_frame_bytes c' then Err (BT_FrameTooLarge BK_ClientHello (length f) (bc_max_bootstrap_frame_bytes c'))
     else Ok m)"
  using assms(2) pq_okD(7) [OF assms(1)] by (auto simp: to_frame_def from_frame_def Let_def split: if_splits)

lemma carried_cases:
  assumes "pq_ok pq"
  obtains (delivered) f where "carried pq c s m = Ok m" "to_frame pq c m = Ok f" "to_frame pq s m = Ok f" "f = frame_of pq m"
  | (lost) e where "carried pq c s m = Err e" "frame_error e"
proof (cases "to_frame pq c m")
  case (Inl e)
  then show ?thesis using lost [of e] to_frame_Err [OF Inl] by (simp add: carried_def)
next
  case (Inr f)
  note trip = frame_round_trip [OF assms Inr, of s]
  show ?thesis
  proof (cases "length f > bc_max_bootstrap_frame_bytes s")
    case True
    with Inr trip show ?thesis using lost by (simp add: carried_def)
  next
    case False
    with Inr have "to_frame pq s m = Ok f" by (auto simp: to_frame_def Let_def split: if_splits)
    with Inr False trip show ?thesis using delivered [of f] to_frame_Ok [OF Inr] by (simp add: carried_def)
  qed
qed

section \<open>Credentials that were issued\<close>

lemma issued_identity:
  assumes "pq_ok pq" "issue_server_identity pq server_id issued_at expires_at seed = Ok b"
  shows "si_server_signing_public_key b = dsa_public pq seed"
    "\<not> outside_validity (si_issued_at_unix_secs b) (si_expires_at_unix_secs b) now skew \<Longrightarrow>
      validate_server_identity_bundle pq b now skew = Ok ()"
  using assms(2) pq_okD(4-6) [OF assms(1)]
  by (auto simp: issue_server_identity_def validate_server_identity_bundle_def identity_signable_bytes_def
      decode_mldsa_verifying_key_def decode_mldsa_signature_def Let_def)

lemma issued_credential:
  assumes "pq_ok pq" "issue_client_credential pq identity seed client_id client_seed scope issued_at expires_at = Ok c"
    "si_server_signing_public_key identity = dsa_public pq seed"
  shows "cc_client_signing_public_key (ic_bundle c) = dsa_public pq client_seed" "ic_client_signing_seed c = client_seed"
    "cc_client_id (ic_bundle c) = client_id"
    "\<not> outside_validity (cc_issued_at_unix_secs (ic_bundle c)) (cc_expires_at_unix_secs (ic_bundle c)) now skew \<Longrightarrow>
      scope_allows (cc_scope (ic_bundle c)) stream_id direction \<Longrightarrow>
      validate_client_credential_bundle pq (ic_bundle c) identity stream_id direction now skew = Ok ()"
  using assms(2,3) pq_okD(4-6) [OF assms(1)]
  by (auto simp: issue_client_credential_def validate_client_credential_bundle_def client_credential_signable_bytes_def
      decode_mldsa_verifying_key_def decode_mldsa_signature_def Let_def)

section \<open>Honest handshakes\<close>

text \<open>A client and a server that are configured for each other: they agree on the stream and its direction; for the mutual
  handshake the server has issued its identity and the credential of the client, both are valid when they are looked at,
  the credential covers the stream and is not revoked, and the nonces are not in the replay cache.\<close>

definition configured ::
  "pq_lib \<Rightarrow> BootstrapClientConfig \<Rightarrow> BootstrapServerConfig \<Rightarrow> ReplayCache \<Rightarrow> u64 \<times> u64 \<Rightarrow> bytes \<Rightarrow> bytes \<Rightarrow> bool" where
  "configured pq ccfg scfg cache now client_nonce server_nonce \<longleftrightarrow>
     bcc_stream_id ccfg = bsc_stream_id scfg \<and> bcc_direction ccfg = bsc_direction scfg
     \<and> (case (bcc_security ccfg, bsc_security scfg) of
          (CSC_PqSimple, SSC_PqSimple _) \<Rightarrow> True
        | (CSC_PqMutual credential pinned, SSC_PqMutual identity seed revoked) \<Rightarrow>
            pinned = identity
            \<and> (\<exists>server_id issued_at expires_at. issue_server_identity pq server_id issued_at expires_at seed = Ok identity)
            \<and> (\<exists>client_id client_seed scope issued_at expires_at.
                 issue_client_credential pq identity seed client_id client_seed scope issued_at expires_at = Ok credential)
            \<and> \<not> outside_validity (si_issued_at_unix_secs identity) (si_expires_at_unix_secs identity) (fst now)
                  (bc_clock_skew_secs (bcc_bootstrap ccfg))
            \<and> \<not> outside_validity (si_issued_at_unix_secs identity) (si_expires_at_unix_secs identity) (snd now)
                  (bc_clock_skew_secs (bsc_bootstrap scfg))
            \<and> \<not> outside_validity (cc_issued_at_unix_secs (ic_bundle credential)) (cc_expires_at_unix_secs (ic_bundle credential))
                  (snd now) (bc_clock_skew_secs (bsc_bootstrap scfg))
            \<and> scope_allows (cc_scope (ic_bundle credential)) (bsc_stream_id scfg) (bsc_direction scfg)
            \<and> cc_client_id (ic_bundle credential) \<notin> set revoked
            \<and> prune_expired (snd now) cache \<lparr>rp_client_id = cc_client_id (ic_bundle credential),
                rp_client_nonce = client_nonce, rp_server_nonce = server_nonce\<rparr> = None
        | _ \<Rightarrow> False)"

text \<open>Either the two ends complete alike, or a message could not be framed.\<close>

definition agreed :: "BootstrapError + BootstrapCompleted \<times> BootstrapCompleted \<Rightarrow> bool" where
  "agreed r \<longleftrightarrow> (case r of Inr (c, s) \<Rightarrow> c = s | Inl e \<Rightarrow> frame_error e)"

lemma agreed_bind:
  "(\<And>x. m = Ok x \<Longrightarrow> agreed (f x)) \<Longrightarrow> (\<And>e. m = Err e \<Longrightarrow> frame_error e) \<Longrightarrow> agreed (and_then m f)"
  by (cases m) (auto simp: agreed_def)

lemma agreed_carried:
  assumes "pq_ok pq" "\<And>f. to_frame pq c m = Ok f \<Longrightarrow> to_frame pq s m = Ok f \<Longrightarrow> f = frame_of pq m \<Longrightarrow> agreed (g m)"
  shows "agreed (and_then (carried pq c s m) g)"
  by (rule carried_cases [OF assms(1), of c s m]) (auto simp: agreed_def intro: assms(2) [unfolded agreed_def])

lemma simple_handshake_agrees:
  assumes "pq_ok pq" "configured pq ccfg scfg cache now cn sn" "bcc_security ccfg = CSC_PqSimple" "bsc_security scfg = SSC_PqSimple sid"
  shows "agreed (run_handshake cr pq ccfg scfg cache now (cn, cseed) (sn, sseed))"
proof -
  let ?C = "bcc_bootstrap ccfg" and ?S = "bsc_bootstrap scfg"
  let ?hello = "simple_client_hello pq ccfg cn cseed"
  have same: "bcc_stream_id ccfg = bsc_stream_id scfg" "bcc_direction ccfg = bsc_direction scfg"
    using assms(2) by (simp_all add: configured_def)
  obtain ct k where enc: "kem_encapsulate_deterministic pq (kem_public pq cseed)
      [ascii_bytes ''simple-server-hello'', sseed, sn, cn] = (ct, k)" by fastforce
  then have dec: "kem_decapsulate pq cseed ct = k" "kem_ciphertext_ok pq ct"
    using pq_okD(1,2) [OF assms(1)] by (auto simp: kem_encapsulate_deterministic_def)
  let ?reply = "BM_SimpleServerHello \<lparr>xsh_stream_id = bsc_stream_id scfg,
      xsh_server_id = (if sid = [] then SIMPLE_DEFAULT_SERVER_ID else sid), xsh_server_nonce = sn, xsh_encapsulated_shared_secret = ct\<rparr>"
  note run = run_handshake_def client_start_def simple_client_start_def respond_to_client_hello_def
    respond_to_simple_client_hello_def simple_client_server_hello_def decode_kem_public_key_def decode_kem_ciphertext_def
  show ?thesis
  proof (rule carried_cases [OF assms(1), of ?C ?S ?hello])
    fix e
    assume "carried pq ?C ?S ?hello = Err e" "frame_error e"
    then show ?thesis by (simp add: run assms(3) agreed_def)
  next
    fix f
    assume hello: "carried pq ?C ?S ?hello = Ok ?hello" "to_frame pq ?C ?hello = Ok f" "to_frame pq ?S ?hello = Ok f"
    note step = run assms(3,4) hello same enc dec pq_okD(3) [OF assms(1)] Let_def agreed_def
    show ?thesis
    proof (cases "to_frame pq ?S ?reply")
      case (Inl e)
      with to_frame_Err [OF Inl] hello show ?thesis by (simp add: step simple_client_hello_def)
    next
      case (Inr f')
      note framed = this
      show ?thesis
      proof (rule carried_cases [OF assms(1), of ?S ?C ?reply])
        fix e
        assume "carried pq ?S ?C ?reply = Err e" "frame_error e"
        with framed hello show ?thesis by (simp add: step simple_client_hello_def)
      next
        fix g
        assume "carried pq ?S ?C ?reply = Ok ?reply" "to_frame pq ?S ?reply = Ok g" "to_frame pq ?C ?reply = Ok g"
        with framed hello show ?thesis by (simp add: step simple_client_hello_def)
      qed
    qed
  qed
qed

lemma checked_and_inserted:
  "prune_expired now cache key = None \<Longrightarrow> check_and_insert key expires_at now cache = ((prune_expired now cache)(key \<mapsto> expires_at), Ok ())"
  by (simp add: check_and_insert_def)

lemma unsigned_finish: "sign_client_finish pq c credential f2 ct = Err e \<Longrightarrow> frame_error e"
  by (auto simp: sign_client_finish_def client_finish_signable_bytes_def and_then_Inl_iff map_err_Inl_iff Let_def dest: to_frame_Err)

lemma mutual_finish_agrees:
  assumes pq: "pq_ok pq" and signed: "sign_client_finish pq c credential f2 ct = Ok (finish, hash)"
    and client: "bcc_security (mc_config c) = CSC_PqMutual credential identity" "mc_config c = ccfg"
      "cc_client_id (ic_bundle credential) = ch_client_id (ms_client_hello s)" "mc_client_nonce c = ch_client_nonce (ms_client_hello s)"
      "cc_client_signing_public_key (ch_client_credential (ms_client_hello s)) = dsa_public pq (ic_client_signing_seed credential)"
    and server: "bsc_security (ms_config s) = SSC_PqMutual identity seed revoked" "ms_config s = scfg"
      "ms_client_hello_frame s = mc_client_hello_frame c" "ms_server_hello_frame s = f2"
      "sh_server_id (ms_server_hello s) = si_server_id identity" "si_server_signing_public_key identity = dsa_public pq seed"
    and same: "bcc_stream_id ccfg = bsc_stream_id scfg" "bcc_direction ccfg = bsc_direction scfg"
    and secrets: "kem_ciphertext_ok pq ct" "kem_decapsulate pq (ms_server_kem_secret s) ct = k2"
  shows "agreed (and_then (carried pq (bcc_bootstrap ccfg) (bsc_bootstrap scfg) (BM_ClientFinish finish)) (\<lambda>m.
    and_then (mutual_client_finish cr pq s m) (\<lambda>(server_done, sf).
    and_then (carried pq (bsc_bootstrap scfg) (bcc_bootstrap ccfg) sf) (\<lambda>sf.
    and_then (mutual_client_server_finish pq (c\<lparr>mc_server_nonce := Some (ms_server_nonce s),
        mc_transcript_hash_after_client_finish := Some hash,
        mc_root := Some (derive_pq_mutual_root cr (bsc_stream_id scfg) (bsc_direction scfg) (ms_client_shared_secret s) k2 hash)\<rparr>) sf)
      (\<lambda>client_done. Ok (client_done, server_done))))))"
proof (rule agreed_carried [OF pq])
  fix f
  assume framed: "to_frame pq (bcc_bootstrap ccfg) (BM_ClientFinish finish) = Ok f"
    "to_frame pq (bsc_bootstrap scfg) (BM_ClientFinish finish) = Ok f"
  let ?bare = "\<lparr>cf_stream_id = bsc_stream_id scfg, cf_encapsulated_shared_secret_to_server = ct, cf_transcript_signature = []\<rparr>"
  from signed obtain signable where signable: "client_finish_signable_bytes pq (mc_client_hello_frame c) f2 ?bare = Ok signable"
    and finish: "finish = ?bare\<lparr>cf_transcript_signature := dsa_sign pq (ic_client_signing_seed credential) signable\<rparr>"
    and hash: "hash = transcript_hash pq [mc_client_hello_frame c, f2, f]"
    using framed(1) by (auto simp: sign_client_finish_def client same Let_def)
  note facts = signed client server same secrets finish hash signable framed pq_okD(3-6) [OF pq]
  let ?done = "\<lparr>bco_stream_id = bsc_stream_id scfg, bco_direction = bsc_direction scfg, bco_protection_profile = PqMutualV1,
      bco_root = derive_pq_mutual_root cr (bsc_stream_id scfg) (bsc_direction scfg) (ms_client_shared_secret s) k2 hash,
      bco_client_id = ch_client_id (ms_client_hello s), bco_server_id = si_server_id identity,
      bco_client_nonce = ch_client_nonce (ms_client_hello s), bco_server_nonce = ms_server_nonce s\<rparr>"
  let ?sf = "BM_ServerFinish \<lparr>sf_stream_id = bsc_stream_id scfg, sf_transcript_signature = dsa_sign pq seed
      (server_finish_signable_bytes (bsc_stream_id scfg) (bsc_direction scfg) hash)\<rparr>"
  have completed: "mutual_client_finish cr pq s (BM_ClientFinish finish) = Ok (?done, ?sf)"
    using facts by (simp add: mutual_client_finish_def decode_kem_ciphertext_def decode_mldsa_verifying_key_def
        decode_mldsa_signature_def Let_def)
  show "agreed (and_then (mutual_client_finish cr pq s (BM_ClientFinish finish)) (\<lambda>(server_done, sf).
    and_then (carried pq (bsc_bootstrap scfg) (bcc_bootstrap ccfg) sf) (\<lambda>sf.
    and_then (mutual_client_server_finish pq (c\<lparr>mc_server_nonce := Some (ms_server_nonce s),
        mc_transcript_hash_after_client_finish := Some hash,
        mc_root := Some (derive_pq_mutual_root cr (bsc_stream_id scfg) (bsc_direction scfg) (ms_client_shared_secret s) k2 hash)\<rparr>) sf)
      (\<lambda>client_done. Ok (client_done, server_done)))))"
    unfolding completed and_then.simps prod.case
    by (rule agreed_carried [OF pq])
      (use facts(2-) in \<open>simp add: mutual_client_server_finish_def decode_mldsa_verifying_key_def decode_mldsa_signature_def
        agreed_def Let_def\<close>)
qed

lemma mutual_handshake_agrees:
  assumes "pq_ok pq" "configured pq ccfg scfg cache now cn sn" "bcc_security ccfg = CSC_PqMutual credential pinned"
    "bsc_security scfg = SSC_PqMutual identity seed revoked"
  shows "agreed (run_handshake cr pq ccfg scfg cache now (cn, ckem) (sn, skem))"
proof -
  let ?C = "bcc_bootstrap ccfg" and ?S = "bsc_bootstrap scfg" and ?sid = "bsc_stream_id scfg"
  note conf = assms(2) [unfolded configured_def assms(3,4), simplified]
  have same: "bcc_stream_id ccfg = ?sid" "bcc_direction ccfg = bsc_direction scfg" "pinned = identity" using conf by simp_all
  obtain server_id si se where issued: "issue_server_identity pq server_id si se seed = Ok identity" using conf by blast
  obtain client_id client_seed scope ci ce
    where credential: "issue_client_credential pq identity seed client_id client_seed scope ci ce = Ok credential" using conf by blast
  note key = issued_identity(1) [OF assms(1) issued]
  note client = issued_credential [OF assms(1) credential key]
  have valid: "validate_server_identity_bundle pq identity (fst now) (bc_clock_skew_secs ?C) = Ok ()"
    "validate_server_identity_bundle pq identity (snd now) (bc_clock_skew_secs ?S) = Ok ()"
    "validate_client_credential_bundle pq (ic_bundle credential) identity ?sid (bsc_direction scfg) (snd now) (bc_clock_skew_secs ?S) = Ok ()"
    "client_id \<notin> set revoked"
    using conf issued_identity(2) [OF assms(1) issued] client(3,4) by auto
  have fresh: "prune_expired (snd now) cache \<lparr>rp_client_id = client_id, rp_client_nonce = cn, rp_server_nonce = sn\<rparr> = None"
    using conf client(3) by simp
  let ?hello = "BM_ClientHello \<lparr>ch_stream_id = ?sid, ch_client_id = client_id, ch_client_nonce = cn,
      ch_client_ephemeral_kem_public_key = kem_public pq ckem, ch_client_credential = ic_bundle credential\<rparr>"
  obtain ct1 k1 where enc1: "kem_encapsulate_deterministic pq (kem_public pq ckem) [ascii_bytes ''server-hello'', skem, sn, cn] = (ct1, k1)"
    by fastforce
  obtain ct2 k2 where enc2: "kem_encapsulate_deterministic pq (kem_public pq skem) [ascii_bytes ''client-finish'', ckem, cn] = (ct2, k2)"
    by fastforce
  have dec: "kem_decapsulate pq ckem ct1 = k1" "kem_ciphertext_ok pq ct1" "kem_decapsulate pq skem ct2 = k2" "kem_ciphertext_ok pq ct2"
    using pq_okD(1,2) [OF assms(1)] enc1 enc2 by (auto simp: kem_encapsulate_deterministic_def)
  let ?reply = "BM_ServerHello \<lparr>sh_stream_id = ?sid, sh_server_id = si_server_id identity, sh_server_nonce = sn,
      sh_server_ephemeral_kem_public_key = kem_public pq skem, sh_encapsulated_shared_secret_to_client = ct1,
      sh_server_identity = identity\<rparr>"
  let ?bare = "\<lparr>cf_stream_id = ?sid, cf_encapsulated_shared_secret_to_server = ct2, cf_transcript_signature = []\<rparr>"
  note run = run_handshake_def client_start_def mutual_client_start_def respond_to_client_hello_def mutual_respond_def
    mutual_client_server_hello_def check_server_hello_def decode_kem_public_key_def decode_kem_ciphertext_def decode_mldsa_verifying_key_def
    decode_mldsa_signature_def
  note facts = assms(3,4) same client(1-3) key valid enc1 enc2 dec pq_okD(3-6) [OF assms(1)] checked_and_inserted [OF fresh]
  note step = run facts Let_def agreed_def
  show ?thesis
  proof (rule carried_cases [OF assms(1), of ?C ?S ?hello])
    fix e
    assume lost: "carried pq ?C ?S ?hello = Err e" "frame_error e"
    show ?thesis
    proof (cases "to_frame pq ?C ?hello")
      case (Inl e')
      with to_frame_Err [OF Inl] show ?thesis by (simp add: step)
    next
      case (Inr f)
      with lost show ?thesis by (simp add: step)
    qed
  next
    fix f1
    assume hello: "carried pq ?C ?S ?hello = Ok ?hello" "to_frame pq ?C ?hello = Ok f1" "to_frame pq ?S ?hello = Ok f1"
    show ?thesis
    proof (cases "to_frame pq ?S ?reply")
      case (Inl e)
      with to_frame_Err [OF Inl] hello show ?thesis by (simp add: step)
    next
      case (Inr f2)
      note reply = this
      show ?thesis
      proof (rule carried_cases [OF assms(1), of ?S ?C ?reply])
        fix e
        assume "carried pq ?S ?C ?reply = Err e" "frame_error e"
        with reply hello show ?thesis by (simp add: step)
      next
        fix g
        assume reply': "carried pq ?S ?C ?reply = Ok ?reply" "to_frame pq ?S ?reply = Ok g" "to_frame pq ?C ?reply = Ok g"
        let ?c = "\<lparr>mc_config = ccfg, mc_client_nonce = cn, mc_client_kem_seed = ckem, mc_client_hello_frame = f1,
            mc_client_kem_secret = ckem, mc_transcript_hash_after_client_finish = None, mc_root = None, mc_server_nonce = Some sn\<rparr>"
        show ?thesis
        proof (cases "sign_client_finish pq ?c credential g ct2")
          case (Inl e)
          with unsigned_finish [OF Inl] reply hello reply' show ?thesis by (simp add: step)
        next
          case (Inr r)
          obtain finish hash where signed: "sign_client_finish pq ?c credential g ct2 = Ok (finish, hash)" using Inr by (cases r) auto
          have "g = f2" using reply reply' by simp
          let ?s = "\<lparr>ms_config = scfg, ms_client_hello = \<lparr>ch_stream_id = ?sid, ch_client_id = client_id, ch_client_nonce = cn,
              ch_client_ephemeral_kem_public_key = kem_public pq ckem, ch_client_credential = ic_bundle credential\<rparr>,
              ms_client_hello_frame = f1, ms_server_hello = \<lparr>sh_stream_id = ?sid, sh_server_id = si_server_id identity,
                sh_server_nonce = sn, sh_server_ephemeral_kem_public_key = kem_public pq skem,
                sh_encapsulated_shared_secret_to_client = ct1, sh_server_identity = identity\<rparr>,
              ms_server_hello_frame = f2, ms_server_nonce = sn, ms_server_kem_secret = skem, ms_client_shared_secret = k1\<rparr>"
          have "agreed (and_then (carried pq (bcc_bootstrap ccfg) (bsc_bootstrap scfg) (BM_ClientFinish finish)) (\<lambda>m.
            and_then (mutual_client_finish cr pq ?s m) (\<lambda>(server_done, sf).
            and_then (carried pq (bsc_bootstrap scfg) (bcc_bootstrap ccfg) sf) (\<lambda>sf.
            and_then (mutual_client_server_finish pq (?c\<lparr>mc_server_nonce := Some (ms_server_nonce ?s),
                mc_transcript_hash_after_client_finish := Some hash, mc_root := Some (derive_pq_mutual_root cr
                  (bsc_stream_id scfg) (bsc_direction scfg) (ms_client_shared_secret ?s) k2 hash)\<rparr>) sf)
              (\<lambda>client_done. Ok (client_done, server_done))))))"
            by (rule mutual_finish_agrees [OF assms(1) signed, where identity = identity and seed = seed and revoked = revoked])
              (simp_all add: facts \<open>g = f2\<close>)
          with signed reply hello reply' show ?thesis by (simp add: step)
        qed
      qed
    qed
  qed
qed

text \<open>C37: an honest handshake gives both ends the same: a client and a server that are configured for each other complete,
  in the mutual and in the simple handshake, with equal roots, identities, nonces, stream and direction, unless a message
  cannot be written or is longer than one of the ends accepts.\<close>

theorem honest_handshake_agrees:
  assumes "pq_ok pq" "configured pq ccfg scfg cache now client_nonce server_nonce"
  shows "case run_handshake cr pq ccfg scfg cache now (client_nonce, client_seed) (server_nonce, server_seed) of
      Inr (client, server) \<Rightarrow> client = server
    | Inl e \<Rightarrow> frame_error e"
proof -
  have "agreed (run_handshake cr pq ccfg scfg cache now (client_nonce, client_seed) (server_nonce, server_seed))"
  proof (cases "bcc_security ccfg")
    case (CSC_PqMutual credential pinned)
    with assms(2) obtain identity seed revoked where "bsc_security scfg = SSC_PqMutual identity seed revoked"
      by (auto simp: configured_def split: ServerSecurityConfig.splits)
    with assms CSC_PqMutual show ?thesis by (blast intro: mutual_handshake_agrees)
  next
    case CSC_PqSimple
    with assms(2) obtain server_id where "bsc_security scfg = SSC_PqSimple server_id"
      by (auto simp: configured_def split: ServerSecurityConfig.splits)
    with assms CSC_PqSimple show ?thesis by (blast intro: simple_handshake_agrees)
  qed
  then show ?thesis by (simp add: agreed_def)
qed

section \<open>Admission\<close>

text \<open>The hello was written and read before the cache is asked.\<close>

lemma mutual_respond_Ok:
  assumes "mutual_respond pq config cache (BM_ClientHello hello) now sn seed = (cache', Ok r)"
    "bsc_security config = SSC_PqMutual identity key revoked"
  shows "ch_stream_id hello = bsc_stream_id config"
    "validate_server_identity_bundle pq identity now (bc_clock_skew_secs (bsc_bootstrap config)) = Ok ()"
    "validate_client_credential_bundle pq (ch_client_credential hello) identity (bsc_stream_id config) (bsc_direction config)
       now (bc_clock_skew_secs (bsc_bootstrap config)) = Ok ()"
    "cc_client_id (ch_client_credential hello) = ch_client_id hello" "ch_client_id hello \<notin> set revoked"
    "prune_expired now cache \<lparr>rp_client_id = ch_client_id hello, rp_client_nonce = ch_client_nonce hello, rp_server_nonce = sn\<rparr> = None"
    "cache' = (prune_expired now cache)(\<lparr>rp_client_id = ch_client_id hello, rp_client_nonce = ch_client_nonce hello,
       rp_server_nonce = sn\<rparr> \<mapsto> cc_expires_at_unix_secs (ch_client_credential hello))"
    "kem_public_ok pq (ch_client_ephemeral_kem_public_key hello)"
    "\<exists>f. to_frame pq (bsc_bootstrap config) (BM_ClientHello hello) = Ok f"
  using assms
  by (auto simp: mutual_respond_def check_and_insert_def decode_kem_public_key_def Let_def
      split: if_splits sum.splits prod.splits)

lemma validated_credential:
  assumes "validate_client_credential_bundle pq b identity stream_id direction now skew = Ok ()"
  shows "cc_issuer_server_id b = si_server_id identity"
    "\<not> outside_validity (cc_issued_at_unix_secs b) (cc_expires_at_unix_secs b) now skew"
    "scope_allows (cc_scope b) stream_id direction"
    "\<exists>m. client_credential_signable_bytes pq b = Ok m \<and>
       dsa_verify pq (si_server_signing_public_key identity) m (cc_issuer_signature b)"
  using assms
  by (auto simp: validate_client_credential_bundle_def decode_mldsa_verifying_key_def decode_mldsa_signature_def split: if_splits)

text \<open>C39: whom the server answers: a client with a credential of this server that is in time, covers the stream and its
  direction, names the client, is not revoked and carries a signature that verifies under the key of the server; and while
  the credential has not expired, the same hello with the same nonce of the server is not answered again.\<close>

theorem answered_client_is_entitled:
  assumes "mutual_respond pq config cache (BM_ClientHello hello) now sn seed = (cache', Ok r)"
    "bsc_security config = SSC_PqMutual identity key revoked" "credential = ch_client_credential hello"
  shows "ch_stream_id hello = bsc_stream_id config \<and> ch_client_id hello \<notin> set revoked
    \<and> cc_client_id credential = ch_client_id hello \<and> cc_issuer_server_id credential = si_server_id identity
    \<and> unat (cc_issued_at_unix_secs credential) \<le> unat now + unat (bc_clock_skew_secs (bsc_bootstrap config))
    \<and> unat now \<le> unat (cc_expires_at_unix_secs credential) + unat (bc_clock_skew_secs (bsc_bootstrap config))
    \<and> scope_allows (cc_scope credential) (bsc_stream_id config) (bsc_direction config)
    \<and> (\<exists>m. client_credential_signable_bytes pq credential = Ok m
        \<and> dsa_verify pq (si_server_signing_public_key identity) m (cc_issuer_signature credential))
    \<and> (now' \<le> cc_expires_at_unix_secs credential \<longrightarrow>
        (\<exists>e. snd (mutual_respond pq config cache' (BM_ClientHello hello) now' sn seed') = Err e))"
proof -
  note answered = mutual_respond_Ok [OF assms(1,2)]
  note valid = validated_credential [OF answered(3)]
  let ?skew = "bc_clock_skew_secs (bsc_bootstrap config)"
  have "unat (cc_issued_at_unix_secs credential) \<le> unat now + unat ?skew"
    "unat now \<le> unat (cc_expires_at_unix_secs credential) + unat ?skew"
    using valid(2) unfolding outside_validity_def assms(3) by (auto simp: word_less_nat_alt unat_saturating_add)
  moreover have "\<exists>e. snd (mutual_respond pq config cache' (BM_ClientHello hello) now' sn seed') = Err e"
    if "now' \<le> cc_expires_at_unix_secs credential"
  proof (rule ccontr)
    assume "\<not> ?thesis"
    then obtain c2 r2 where "mutual_respond pq config cache' (BM_ClientHello hello) now' sn seed' = (c2, Ok r2)"
      by (cases "mutual_respond pq config cache' (BM_ClientHello hello) now' sn seed'"; cases "snd (mutual_respond pq config cache' (BM_ClientHello hello) now' sn seed')") auto
    from mutual_respond_Ok(6) [OF this assms(2)] answered(7) that show False
      by (simp add: prune_expired_def assms(3))
  qed
  ultimately show ?thesis using answered valid assms(3) by simp
qed



section \<open>Agreement\<close>

lemma transcript_material_Cons: "transcript_material (x # xs) = le64 (of_nat (length x)) @ x @ transcript_material xs"
  by (simp add: transcript_material_def)

lemma le64_not_Nil [simp]: "le64 c \<noteq> []"
proof
  assume "le64 c = []"
  then have "length (le64 c) = 0" by simp
  then show False by simp
qed

lemma transcript_material_inj:
  assumes "transcript_material xs = transcript_material ys"
    "\<forall>x \<in> set xs. length x < 2 ^ 64" "\<forall>y \<in> set ys. length y < 2 ^ 64"
  shows "xs = ys"
  using assms
proof (induction xs arbitrary: ys)
  case Nil
  then show ?case by (cases ys) (simp_all add: transcript_material_def)
next
  case (Cons x xs)
  then obtain y ys' where ys: "ys = y # ys'" by (cases ys) (auto simp: transcript_material_Cons, simp add: transcript_material_def)
  with Cons.prems(1) have "le64 (of_nat (length x)) = le64 (of_nat (length y))"
    and rest: "x @ transcript_material xs = y @ transcript_material ys'"
    by (simp_all add: transcript_material_Cons)
  then have "(of_nat (length x) :: u64) = of_nat (length y)" by (metis of_le_le(3))
  then have "unat (of_nat (length x) :: u64) = unat (of_nat (length y) :: u64)" by (rule arg_cong)
  then have "length x mod 2 ^ 64 = length y mod 2 ^ 64" by (simp add: unat_of_nat)
  with Cons.prems(2,3) ys have "length x = length y" by simp
  with rest Cons ys show ?case by simp
qed

lemma framed_message:
  assumes "pq_ok pq" "to_frame pq c m = Ok f" "to_frame pq c' m' = Ok f"
  shows "m = m'"
proof -
  obtain bs bs' where "message_write pq m = Ok bs" "message_write pq m' = Ok bs'" "f = BOOTSTRAP_MAGIC @ bs" "f = BOOTSTRAP_MAGIC @ bs'"
    using assms(2,3) by (auto simp: to_frame_def Let_def split: if_splits)
  with pq_okD(7) [OF assms(1)] show ?thesis by (metis Inr_inject prod.inject same_append_eq)
qed

lemma server_signable_inj:
  assumes "server_finish_signable_bytes i d h = server_finish_signable_bytes i' d' h'"
  shows "i = i'" "d = d'" "h = h'"
proof -
  have eq: "le64 i @ direction_root_label d @ h = le64 i' @ direction_root_label d' @ h'"
    using assms by (simp add: server_finish_signable_bytes_def)
  then have ids: "le64 i = le64 i'" and rest: "direction_root_label d @ h = direction_root_label d' @ h'" by simp_all
  from ids show "i = i'" by (metis of_le_le(3))
  show "d = d'" and "h = h'" using rest by (cases d; cases d'; simp add: ascii_bytes_def)+
qed

text \<open>What the two ends have done when they completed.\<close>

lemma mutual_client_started:
  assumes "mutual_client_start pq cfg nonce seed = Ok (c, m)"
  obtains credential pinned f where "bcc_security cfg = CSC_PqMutual credential pinned"
    "m = BM_ClientHello \<lparr>ch_stream_id = bcc_stream_id cfg, ch_client_id = cc_client_id (ic_bundle credential),
       ch_client_nonce = nonce, ch_client_ephemeral_kem_public_key = kem_public pq seed, ch_client_credential = ic_bundle credential\<rparr>"
    "to_frame pq (bcc_bootstrap cfg) m = Ok f"
    "c = \<lparr>mc_config = cfg, mc_client_nonce = nonce, mc_client_kem_seed = seed, mc_client_hello_frame = f,
       mc_client_kem_secret = seed, mc_transcript_hash_after_client_finish = None, mc_root = None, mc_server_nonce = None\<rparr>"
  using assms by (auto simp: mutual_client_start_def Let_def split: ClientSecurityConfig.splits)

lemma mutual_client_answered:
  assumes "mutual_client_server_hello cr pq c m now = (c', Ok \<lparr>cbp_outbound = Some finish, cbp_completed = None\<rparr>)"
  obtains credential pinned hello f g k1 ct k2 cf hash where "bcc_security (mc_config c) = CSC_PqMutual credential pinned"
    "m = BM_ServerHello hello" "sh_server_id hello = si_server_id pinned" "sh_server_identity hello = pinned"
    "to_frame pq (bcc_bootstrap (mc_config c)) m = Ok f" "finish = BM_ClientFinish cf"
    "to_frame pq (bcc_bootstrap (mc_config c)) finish = Ok g"
    "k1 = kem_decapsulate pq (mc_client_kem_secret c) (sh_encapsulated_shared_secret_to_client hello)"
    "kem_encapsulate_deterministic pq (sh_server_ephemeral_kem_public_key hello)
       [ascii_bytes ''client-finish'', mc_client_kem_seed c, mc_client_nonce c] = (ct, k2)"
    "cf_encapsulated_shared_secret_to_server cf = ct" "hash = transcript_hash pq [mc_client_hello_frame c, f, g]"
    "c' = c\<lparr>mc_server_nonce := Some (sh_server_nonce hello), mc_transcript_hash_after_client_finish := Some hash,
       mc_root := Some (derive_pq_mutual_root cr (bcc_stream_id (mc_config c)) (bcc_direction (mc_config c)) k1 k2 hash)\<rparr>"
  using assms
  by (auto simp: mutual_client_server_hello_def check_server_hello_def sign_client_finish_def decode_kem_ciphertext_def
      decode_kem_public_key_def Let_def split: BootstrapMessage.splits ClientSecurityConfig.splits sum.splits if_splits prod.splits)

lemma mutual_server_answered:
  assumes "mutual_respond pq cfg cache m now sn seed = (cache', Ok (s, reply))"
  obtains identity key revoked hello f g ct k1 sh where "bsc_security cfg = SSC_PqMutual identity key revoked"
    "m = BM_ClientHello hello" "reply = BM_ServerHello sh" "sh_server_id sh = si_server_id identity" "sh_server_nonce sh = sn"
    "to_frame pq (bsc_bootstrap cfg) m = Ok f" "to_frame pq (bsc_bootstrap cfg) reply = Ok g"
    "cc_client_id (ch_client_credential hello) = ch_client_id hello"
    "kem_encapsulate_deterministic pq (ch_client_ephemeral_kem_public_key hello)
       [ascii_bytes ''server-hello'', seed, sn, ch_client_nonce hello] = (ct, k1)"
    "sh_encapsulated_shared_secret_to_client sh = ct" "sh_server_ephemeral_kem_public_key sh = kem_public pq seed"
    "s = \<lparr>ms_config = cfg, ms_client_hello = hello, ms_client_hello_frame = f, ms_server_hello = sh, ms_server_hello_frame = g,
       ms_server_nonce = sn, ms_server_kem_secret = seed, ms_client_shared_secret = k1\<rparr>"
  using assms
  by (auto simp: mutual_respond_def check_and_insert_def decode_kem_public_key_def Let_def
      split: BootstrapMessage.splits ServerSecurityConfig.splits if_splits sum.splits prod.splits)

lemma mutual_server_completed:
  assumes "mutual_client_finish cr pq s m = Ok (completed, reply)"
  obtains finish f hash where "m = BM_ClientFinish finish" "to_frame pq (bsc_bootstrap (ms_config s)) m = Ok f"
    "hash = transcript_hash pq [ms_client_hello_frame s, ms_server_hello_frame s, f]"
    "completed = \<lparr>bco_stream_id = bsc_stream_id (ms_config s), bco_direction = bsc_direction (ms_config s),
       bco_protection_profile = PqMutualV1, bco_root = derive_pq_mutual_root cr (bsc_stream_id (ms_config s))
         (bsc_direction (ms_config s)) (ms_client_shared_secret s)
         (kem_decapsulate pq (ms_server_kem_secret s) (cf_encapsulated_shared_secret_to_server finish)) hash,
       bco_client_id = ch_client_id (ms_client_hello s), bco_server_id = sh_server_id (ms_server_hello s),
       bco_client_nonce = ch_client_nonce (ms_client_hello s), bco_server_nonce = ms_server_nonce s\<rparr>"
  using assms
  by (auto simp: mutual_client_finish_def decode_kem_ciphertext_def Let_def
      split: BootstrapMessage.splits ServerSecurityConfig.splits if_splits)

lemma client_transcript:
  assumes "mutual_client_start pq ccfg cn cseed = Ok (c, hello)"
    "mutual_client_server_hello cr pq c reply now = (c', Ok \<lparr>cbp_outbound = Some finish, cbp_completed = None\<rparr>)"
    "mutual_client_server_finish pq c' closing = Ok completed"
  obtains credential :: IssuedClientCredential and sh cf ct k2 where
    "hello = BM_ClientHello \<lparr>ch_stream_id = bcc_stream_id ccfg, ch_client_id = cc_client_id (ic_bundle credential),
       ch_client_nonce = cn, ch_client_ephemeral_kem_public_key = kem_public pq cseed, ch_client_credential = ic_bundle credential\<rparr>"
    "reply = BM_ServerHello sh" "finish = BM_ClientFinish cf"
    "\<forall>m \<in> {hello, reply, finish}. to_frame pq (bcc_bootstrap ccfg) m = Ok (frame_of pq m)"
    "kem_encapsulate_deterministic pq (sh_server_ephemeral_kem_public_key sh) [ascii_bytes ''client-finish'', cseed, cn] = (ct, k2)"
    "cf_encapsulated_shared_secret_to_server cf = ct"
    "completed = \<lparr>bco_stream_id = bcc_stream_id ccfg, bco_direction = bcc_direction ccfg, bco_protection_profile = PqMutualV1,
       bco_root = derive_pq_mutual_root cr (bcc_stream_id ccfg) (bcc_direction ccfg)
         (kem_decapsulate pq cseed (sh_encapsulated_shared_secret_to_client sh)) k2
         (transcript_hash pq (map (frame_of pq) [hello, reply, finish])),
       bco_client_id = cc_client_id (ic_bundle credential), bco_server_id = sh_server_id sh,
       bco_client_nonce = cn, bco_server_nonce = sh_server_nonce sh\<rparr>"
proof -
  from assms(1) obtain credential pinned f where start: "bcc_security ccfg = CSC_PqMutual credential pinned"
    "hello = BM_ClientHello \<lparr>ch_stream_id = bcc_stream_id ccfg, ch_client_id = cc_client_id (ic_bundle credential),
       ch_client_nonce = cn, ch_client_ephemeral_kem_public_key = kem_public pq cseed, ch_client_credential = ic_bundle credential\<rparr>"
    "to_frame pq (bcc_bootstrap ccfg) hello = Ok f"
    "c = \<lparr>mc_config = ccfg, mc_client_nonce = cn, mc_client_kem_seed = cseed, mc_client_hello_frame = f,
       mc_client_kem_secret = cseed, mc_transcript_hash_after_client_finish = None, mc_root = None, mc_server_nonce = None\<rparr>"
    by (rule mutual_client_started)
  from assms(2) obtain sh f2 f3 ct k2 cf hash where answer: "reply = BM_ServerHello sh" "sh_server_id sh = si_server_id pinned"
    "to_frame pq (bcc_bootstrap ccfg) reply = Ok f2" "finish = BM_ClientFinish cf" "to_frame pq (bcc_bootstrap ccfg) finish = Ok f3"
    "kem_encapsulate_deterministic pq (sh_server_ephemeral_kem_public_key sh) [ascii_bytes ''client-finish'', cseed, cn] = (ct, k2)"
    "cf_encapsulated_shared_secret_to_server cf = ct" "hash = transcript_hash pq [f, f2, f3]"
    "c' = c\<lparr>mc_server_nonce := Some (sh_server_nonce sh), mc_transcript_hash_after_client_finish := Some hash,
       mc_root := Some (derive_pq_mutual_root cr (bcc_stream_id ccfg) (bcc_direction ccfg)
         (kem_decapsulate pq cseed (sh_encapsulated_shared_secret_to_client sh)) k2 hash)\<rparr>"
    by (rule mutual_client_answered) (auto simp: start)
  have frames: "f = frame_of pq hello" "f2 = frame_of pq reply" "f3 = frame_of pq finish"
    using to_frame_Ok start(3) answer(3,5) by blast+
  then have framed: "\<forall>m \<in> {hello, reply, finish}. to_frame pq (bcc_bootstrap ccfg) m = Ok (frame_of pq m)"
    using start(3) answer(3,5) by simp
  have hash: "hash = transcript_hash pq (map (frame_of pq) [hello, reply, finish])" using answer(8) frames by simp
  have "completed = \<lparr>bco_stream_id = bcc_stream_id ccfg, bco_direction = bcc_direction ccfg, bco_protection_profile = PqMutualV1,
       bco_root = derive_pq_mutual_root cr (bcc_stream_id ccfg) (bcc_direction ccfg)
         (kem_decapsulate pq cseed (sh_encapsulated_shared_secret_to_client sh)) k2 hash,
       bco_client_id = cc_client_id (ic_bundle credential), bco_server_id = sh_server_id sh,
       bco_client_nonce = cn, bco_server_nonce = sh_server_nonce sh\<rparr>"
    using assms(3) start(1,4) answer(2,9)
    by (auto simp: mutual_client_server_finish_def Let_def split: BootstrapMessage.splits)
  note completed = this [unfolded hash]
  show thesis by (rule that [OF start(2) answer(1) answer(4) framed answer(6) answer(7) completed])
qed

lemma server_transcript:
  assumes "mutual_respond pq scfg cache hello now sn sseed = (cache', Ok (s, reply))"
    "mutual_client_finish cr pq s finish = Ok (completed, closing)"
  obtains ch sh cf ct k1 where "hello = BM_ClientHello ch" "reply = BM_ServerHello sh" "finish = BM_ClientFinish cf"
    "\<forall>m \<in> {hello, reply, finish}. to_frame pq (bsc_bootstrap scfg) m = Ok (frame_of pq m)"
    "kem_encapsulate_deterministic pq (ch_client_ephemeral_kem_public_key ch)
       [ascii_bytes ''server-hello'', sseed, sn, ch_client_nonce ch] = (ct, k1)"
    "sh_encapsulated_shared_secret_to_client sh = ct" "sh_server_ephemeral_kem_public_key sh = kem_public pq sseed"
    "completed = \<lparr>bco_stream_id = bsc_stream_id scfg, bco_direction = bsc_direction scfg, bco_protection_profile = PqMutualV1,
       bco_root = derive_pq_mutual_root cr (bsc_stream_id scfg) (bsc_direction scfg) k1
         (kem_decapsulate pq sseed (cf_encapsulated_shared_secret_to_server cf))
         (transcript_hash pq (map (frame_of pq) [hello, reply, finish])),
       bco_client_id = ch_client_id ch, bco_server_id = sh_server_id sh,
       bco_client_nonce = ch_client_nonce ch, bco_server_nonce = sh_server_nonce sh\<rparr>"
proof -
  from assms(1) obtain ch g1 g2 ct k1 sh where respond: "hello = BM_ClientHello ch" "reply = BM_ServerHello sh"
    "sh_server_nonce sh = sn" "to_frame pq (bsc_bootstrap scfg) hello = Ok g1" "to_frame pq (bsc_bootstrap scfg) reply = Ok g2"
    "kem_encapsulate_deterministic pq (ch_client_ephemeral_kem_public_key ch)
       [ascii_bytes ''server-hello'', sseed, sn, ch_client_nonce ch] = (ct, k1)"
    "sh_encapsulated_shared_secret_to_client sh = ct" "sh_server_ephemeral_kem_public_key sh = kem_public pq sseed"
    "s = \<lparr>ms_config = scfg, ms_client_hello = ch, ms_client_hello_frame = g1, ms_server_hello = sh, ms_server_hello_frame = g2,
       ms_server_nonce = sn, ms_server_kem_secret = sseed, ms_client_shared_secret = k1\<rparr>"
    by (rule mutual_server_answered)
  from assms(2) obtain cf g3 hash where complete: "finish = BM_ClientFinish cf" "to_frame pq (bsc_bootstrap scfg) finish = Ok g3"
    "hash = transcript_hash pq [g1, g2, g3]"
    "completed = \<lparr>bco_stream_id = bsc_stream_id scfg, bco_direction = bsc_direction scfg,
       bco_protection_profile = PqMutualV1, bco_root = derive_pq_mutual_root cr (bsc_stream_id scfg)
         (bsc_direction scfg) k1 (kem_decapsulate pq sseed (cf_encapsulated_shared_secret_to_server cf)) hash,
       bco_client_id = ch_client_id ch, bco_server_id = sh_server_id sh,
       bco_client_nonce = ch_client_nonce ch, bco_server_nonce = sn\<rparr>"
    by (rule mutual_server_completed) (auto simp: respond(9))
  have "g1 = frame_of pq hello" "g2 = frame_of pq reply" "g3 = frame_of pq finish"
    using to_frame_Ok respond(4,5) complete(2) by blast+
  with respond complete show thesis by (intro that) auto
qed

lemma equal_transcripts:
  assumes "pq_ok pq" "bc_max_bootstrap_frame_bytes c < 2 ^ 64" "bc_max_bootstrap_frame_bytes c' < 2 ^ 64"
    "list_all2 (\<lambda>m m'. to_frame pq c m = Ok (frame_of pq m) \<and> to_frame pq c' m' = Ok (frame_of pq m')) ms ms'"
    "transcript_hash pq (map (frame_of pq) ms) = transcript_hash pq (map (frame_of pq) ms')"
    "inj_on (pq_sha256 pq) {transcript_material (map (frame_of pq) ms), transcript_material (map (frame_of pq) ms')}"
  shows "ms = ms'"
proof -
  have "transcript_material (map (frame_of pq) ms) = transcript_material (map (frame_of pq) ms')"
    by (rule inj_onD [OF assms(6) assms(5) [unfolded transcript_hash_def]]) simp_all
  moreover have "list_all2 (\<lambda>m m'. length (frame_of pq m) < 2 ^ 64 \<and> length (frame_of pq m') < 2 ^ 64) ms ms'"
    using assms(4)
  proof (rule list_all2_mono)
    fix m m'
    assume "to_frame pq c m = Ok (frame_of pq m) \<and> to_frame pq c' m' = Ok (frame_of pq m')"
    then show "length (frame_of pq m) < 2 ^ 64 \<and> length (frame_of pq m') < 2 ^ 64"
      using to_frame_Ok assms(2,3) by (meson le_less_trans)
  qed
  then have "\<forall>f \<in> set (map (frame_of pq) ms). length f < 2 ^ 64" "\<forall>f \<in> set (map (frame_of pq) ms'). length f < 2 ^ 64"
    by (induction rule: list_all2_induct) auto
  ultimately have "map (frame_of pq) ms = map (frame_of pq) ms'" by (intro transcript_material_inj)
  with assms(4) show ?thesis
  proof (induction rule: list_all2_induct)
    case (Cons m ms m' ms')
    then show ?case using framed_message [OF assms(1), of c m "frame_of pq m" c' m'] by simp
  qed simp
qed

text \<open>C38: agreement under attack: whatever the network did, if the message whose signature made a client complete is the one
  that a server signed when it completed, and the hashes of their transcripts do not collide, then the server saw the
  messages of this client and the client those of this server, and both completed with the same root, identities and
  nonces.\<close>

theorem signed_transcript_agrees:
  assumes "pq_ok pq" "bc_max_bootstrap_frame_bytes (bcc_bootstrap ccfg) < 2 ^ 64" "bc_max_bootstrap_frame_bytes (bsc_bootstrap scfg) < 2 ^ 64"
    and client: "mutual_client_start pq ccfg cn cseed = Ok (c, hello)"
      "mutual_client_server_hello cr pq c reply now = (c', Ok \<lparr>cbp_outbound = Some finish, cbp_completed = None\<rparr>)"
      "mutual_client_server_finish pq c' closing = Ok client_done"
    and server: "mutual_respond pq scfg cache hello' now' sn sseed = (cache', Ok (s, reply'))"
      "mutual_client_finish cr pq s finish' = Ok (server_done, closing')"
    and signed: "server_finish_signable_bytes (bcc_stream_id ccfg) (bcc_direction ccfg) (transcript_hash pq (map (frame_of pq) [hello, reply, finish]))
      = server_finish_signable_bytes (bsc_stream_id scfg) (bsc_direction scfg) (transcript_hash pq (map (frame_of pq) [hello', reply', finish']))"
    and no_collision: "inj_on (pq_sha256 pq) {transcript_material (map (frame_of pq) [hello, reply, finish]),
      transcript_material (map (frame_of pq) [hello', reply', finish'])}"
  shows "hello' = hello \<and> reply' = reply \<and> finish' = finish \<and> client_done = server_done"
proof -
  from client obtain credential :: IssuedClientCredential and sh cf ct k2 where hello: "hello = BM_ClientHello \<lparr>ch_stream_id = bcc_stream_id ccfg,
       ch_client_id = cc_client_id (ic_bundle credential), ch_client_nonce = cn,
       ch_client_ephemeral_kem_public_key = kem_public pq cseed, ch_client_credential = ic_bundle credential\<rparr>"
    and reply: "reply = BM_ServerHello sh" and finish: "finish = BM_ClientFinish cf"
    and framed: "\<forall>m \<in> {hello, reply, finish}. to_frame pq (bcc_bootstrap ccfg) m = Ok (frame_of pq m)"
    and to_server: "kem_encapsulate_deterministic pq (sh_server_ephemeral_kem_public_key sh)
        [ascii_bytes ''client-finish'', cseed, cn] = (ct, k2)" "cf_encapsulated_shared_secret_to_server cf = ct"
    and client_done: "client_done = \<lparr>bco_stream_id = bcc_stream_id ccfg, bco_direction = bcc_direction ccfg,
       bco_protection_profile = PqMutualV1, bco_root = derive_pq_mutual_root cr (bcc_stream_id ccfg) (bcc_direction ccfg)
         (kem_decapsulate pq cseed (sh_encapsulated_shared_secret_to_client sh)) k2
         (transcript_hash pq (map (frame_of pq) [hello, reply, finish])),
       bco_client_id = cc_client_id (ic_bundle credential), bco_server_id = sh_server_id sh,
       bco_client_nonce = cn, bco_server_nonce = sh_server_nonce sh\<rparr>"
    by (rule client_transcript)
  from server obtain ch' sh' cf' ct' k1 where messages: "hello' = BM_ClientHello ch'" "reply' = BM_ServerHello sh'" "finish' = BM_ClientFinish cf'"
    and framed': "\<forall>m \<in> {hello', reply', finish'}. to_frame pq (bsc_bootstrap scfg) m = Ok (frame_of pq m)"
    and to_client: "kem_encapsulate_deterministic pq (ch_client_ephemeral_kem_public_key ch')
       [ascii_bytes ''server-hello'', sseed, sn, ch_client_nonce ch'] = (ct', k1)"
      "sh_encapsulated_shared_secret_to_client sh' = ct'" "sh_server_ephemeral_kem_public_key sh' = kem_public pq sseed"
    and server_done: "server_done = \<lparr>bco_stream_id = bsc_stream_id scfg, bco_direction = bsc_direction scfg,
       bco_protection_profile = PqMutualV1, bco_root = derive_pq_mutual_root cr (bsc_stream_id scfg) (bsc_direction scfg) k1
         (kem_decapsulate pq sseed (cf_encapsulated_shared_secret_to_server cf'))
         (transcript_hash pq (map (frame_of pq) [hello', reply', finish'])),
       bco_client_id = ch_client_id ch', bco_server_id = sh_server_id sh',
       bco_client_nonce = ch_client_nonce ch', bco_server_nonce = sh_server_nonce sh'\<rparr>"
    by (rule server_transcript)
  note stream = server_signable_inj [OF signed]
  have same: "[hello, reply, finish] = [hello', reply', finish']"
    by (rule equal_transcripts [OF assms(1-3) _ stream(3) no_collision]) (use framed framed' in simp)
  have "kem_decapsulate pq cseed ct' = k1" "kem_decapsulate pq sseed ct = k2"
    using same messages hello reply to_server to_client pq_okD(1) [OF assms(1)]
    by (auto simp: kem_encapsulate_deterministic_def)
  with same messages hello reply finish stream(1,2) to_server to_client show ?thesis
    unfolding client_done server_done by auto
qed

section \<open>A sample handshake\<close>

text \<open>Libraries that know the messages of one handshake; their keys, secrets, hashes and signatures are empty.\<close>

definition sample_identity :: ServerIdentityBundle where
  "sample_identity = \<lparr>si_server_id = ''s'', si_issued_at_unix_secs = 50, si_expires_at_unix_secs = 90,
     si_server_signing_public_key = [], si_self_signature = []\<rparr>"

definition sample_scope :: CredentialScope where
  "sample_scope = \<lparr>scp_stream_id = Some 7, scp_allow_client_to_server = True, scp_allow_server_to_client = False\<rparr>"

definition sample_credential :: IssuedClientCredential where
  "sample_credential = \<lparr>ic_bundle = \<lparr>cc_client_id = ''c'', cc_issuer_server_id = ''s'', cc_scope = sample_scope,
     cc_issued_at_unix_secs = 50, cc_expires_at_unix_secs = 90, cc_client_signing_public_key = [], cc_issuer_signature = []\<rparr>,
     ic_client_signing_seed = [5]\<rparr>"

definition sample_hello :: ClientHello where
  "sample_hello = \<lparr>ch_stream_id = 7, ch_client_id = ''c'', ch_client_nonce = [1], ch_client_ephemeral_kem_public_key = [],
     ch_client_credential = ic_bundle sample_credential\<rparr>"

definition sample_server_hello :: "bytes \<Rightarrow> ServerHello" where
  "sample_server_hello nonce = \<lparr>sh_stream_id = 7, sh_server_id = ''s'', sh_server_nonce = nonce,
     sh_server_ephemeral_kem_public_key = [], sh_encapsulated_shared_secret_to_client = [], sh_server_identity = sample_identity\<rparr>"

definition sample_finish :: ClientFinish where
  "sample_finish = \<lparr>cf_stream_id = 7, cf_encapsulated_shared_secret_to_server = [], cf_transcript_signature = []\<rparr>"

definition sample_server_finish :: ServerFinish where
  "sample_server_finish = \<lparr>sf_stream_id = 7, sf_transcript_signature = []\<rparr>"

definition toy_messages :: "(bytes \<times> BootstrapMessage) list" where
  "toy_messages = [([1], BM_ClientHello sample_hello), ([2], BM_ServerHello (sample_server_hello [3])),
     ([3], BM_ServerHello (sample_server_hello [4])), ([4], BM_ClientFinish sample_finish),
     ([5], BM_ServerFinish sample_server_finish)]"

definition toy_pq :: pq_lib where
  "toy_pq =
     \<lparr>pq_sha256 = (\<lambda>_. []), kem_public = (\<lambda>_. []), kem_public_ok = (\<lambda>_. True), kem_ciphertext_ok = (\<lambda>_. True),
      kem_encapsulate = (\<lambda>_ _. ([], [])), kem_decapsulate = (\<lambda>_ _. []), dsa_public = (\<lambda>_. []),
      dsa_public_ok = (\<lambda>_. True), dsa_signature_ok = (\<lambda>_. True), dsa_sign = (\<lambda>_ _. []), dsa_verify = (\<lambda>_ _ _. True),
      message_write = (\<lambda>m. case find (\<lambda>(bs, m'). m' = m) toy_messages of Some (bs, _) \<Rightarrow> Ok bs | None \<Rightarrow> Err ''unknown''),
      message_read = (\<lambda>bs. case map_of toy_messages bs of Some m \<Rightarrow> Ok (m, length bs) | None \<Rightarrow> Err ''unknown''),
      finish_write = (\<lambda>_. Ok []), credential_write = (\<lambda>_. Ok []), identity_write = (\<lambda>_. Ok [])\<rparr>"

lemma toy_pq_simps [simp]:
  "pq_sha256 toy_pq x = []" "kem_public toy_pq x = []" "kem_public_ok toy_pq x" "kem_ciphertext_ok toy_pq x"
  "kem_encapsulate toy_pq x y = ([], [])" "kem_decapsulate toy_pq x y = []" "dsa_public toy_pq x = []" "dsa_public_ok toy_pq x"
  "dsa_signature_ok toy_pq x" "dsa_sign toy_pq x y = []" "dsa_verify toy_pq x y z" "finish_write toy_pq f = Ok []"
  "credential_write toy_pq c = Ok []" "identity_write toy_pq i = Ok []"
  by (simp_all add: toy_pq_def)

lemma found_entry: "find (\<lambda>(bs, m'). m' = m) xs = Some (bs, m') \<Longrightarrow> (bs, m) \<in> set xs"
  by (auto simp: find_Some_iff in_set_conv_nth)

lemma toy_messages_distinct: "distinct (map fst toy_messages)"
  by (simp add: toy_messages_def)

lemma toy_pq_ok: "pq_ok toy_pq"
proof -
  have "message_read toy_pq bs = Ok (m, length bs)" if "message_write toy_pq m = Ok bs" for m bs
  proof -
    have "(bs, m) \<in> set toy_messages"
      using that found_entry [of m toy_messages bs] unfolding toy_pq_def
      by (cases "find (\<lambda>(bs, m'). m' = m) toy_messages") (simp_all split: prod.splits)
    then show ?thesis by (simp add: toy_pq_def map_of_is_SomeI [OF toy_messages_distinct])
  qed
  then have "bincode_ok (message_write toy_pq) (message_read toy_pq)" unfolding bincode_ok_def by blast
  then show ?thesis by (simp add: pq_ok_def)
qed

definition sample_client_config :: BootstrapClientConfig where
  "sample_client_config = \<lparr>bcc_stream_id = 7, bcc_direction = ClientToServer, bcc_bootstrap = bootstrap_config_default,
     bcc_security = CSC_PqMutual sample_credential sample_identity\<rparr>"

definition sample_server_config :: BootstrapServerConfig where
  "sample_server_config = \<lparr>bsc_stream_id = 7, bsc_direction = ClientToServer, bsc_bootstrap = bootstrap_config_default,
     bsc_security = SSC_PqMutual sample_identity [6] [''x'']\<rparr>"

lemma in_time: "\<not> outside_validity 50 90 100 120"
  by (simp add: outside_validity_def saturating_add_def)

lemma sample_configured: "configured toy_pq sample_client_config sample_server_config Map.empty (100, 100) [1] [3]"
proof -
  have "issue_server_identity toy_pq ''s'' 50 90 [6] = Ok sample_identity"
    by (simp add: issue_server_identity_def identity_signable_bytes_def toy_pq_def sample_identity_def Let_def)
  moreover have "issue_client_credential toy_pq sample_identity [6] ''c'' [5] sample_scope 50 90 = Ok sample_credential"
    by (simp add: issue_client_credential_def client_credential_signable_bytes_def toy_pq_def sample_identity_def
        sample_credential_def Let_def)
  ultimately have "\<exists>server_id issued_at expires_at. issue_server_identity toy_pq server_id issued_at expires_at [6] = Ok sample_identity"
    "\<exists>client_id client_seed scope issued_at expires_at.
       issue_client_credential toy_pq sample_identity [6] client_id client_seed scope issued_at expires_at = Ok sample_credential"
    by blast+
  moreover have "scope_allows (cc_scope (ic_bundle sample_credential)) 7 ClientToServer"
    by (simp add: scope_allows_def sample_credential_def sample_scope_def)
  moreover have "cc_client_id (ic_bundle sample_credential) \<noteq> ''x''" by (simp add: sample_credential_def)
  moreover have "\<not> outside_validity (si_issued_at_unix_secs sample_identity) (si_expires_at_unix_secs sample_identity) 100 120"
    "\<not> outside_validity (cc_issued_at_unix_secs (ic_bundle sample_credential)) (cc_expires_at_unix_secs (ic_bundle sample_credential)) 100 120"
    using in_time by (simp_all add: sample_identity_def sample_credential_def)
  ultimately show ?thesis
    by (simp add: configured_def sample_client_config_def sample_server_config_def bootstrap_config_default_def prune_expired_def)
qed

text \<open>Its steps, evaluated.\<close>

lemma sample_written:
  "message_write toy_pq (BM_ClientHello sample_hello) = Ok [1]"
  "message_write toy_pq (BM_ServerHello (sample_server_hello [3])) = Ok [2]"
  "message_write toy_pq (BM_ServerHello (sample_server_hello [4])) = Ok [3]"
  "message_write toy_pq (BM_ClientFinish sample_finish) = Ok [4]"
  "message_write toy_pq (BM_ServerFinish sample_server_finish) = Ok [5]"
  by (simp_all add: toy_pq_def toy_messages_def sample_server_hello_def)

abbreviation sample_client :: MutualClientBootstrapState where
  "sample_client \<equiv> \<lparr>mc_config = sample_client_config, mc_client_nonce = [1], mc_client_kem_seed = [2],
     mc_client_hello_frame = BOOTSTRAP_MAGIC @ [1], mc_client_kem_secret = [2],
     mc_transcript_hash_after_client_finish = None, mc_root = None, mc_server_nonce = None\<rparr>"

lemma sample_framed: "message_write toy_pq m = Ok [b] \<Longrightarrow> to_frame toy_pq bootstrap_config_default m = Ok (BOOTSTRAP_MAGIC @ [b])"
  by (simp add: to_frame_def bootstrap_config_default_def BOOTSTRAP_MAGIC_def ascii_bytes_def)

lemma sample_started:
  "mutual_client_start toy_pq sample_client_config [1] [2] = Ok (sample_client, BM_ClientHello sample_hello)"
  using sample_framed [OF sample_written(1)]
  by (simp add: mutual_client_start_def sample_client_config_def sample_hello_def [symmetric] Let_def)
    (simp add: sample_hello_def sample_credential_def)

abbreviation sample_server :: MutualServerBootstrapState where
  "sample_server \<equiv> \<lparr>ms_config = sample_server_config, ms_client_hello = sample_hello, ms_client_hello_frame = BOOTSTRAP_MAGIC @ [1],
     ms_server_hello = sample_server_hello [3], ms_server_hello_frame = BOOTSTRAP_MAGIC @ [2], ms_server_nonce = [3],
     ms_server_kem_secret = [4], ms_client_shared_secret = []\<rparr>"

abbreviation sample_key :: ReplayCacheKey where
  "sample_key \<equiv> \<lparr>rp_client_id = ''c'', rp_client_nonce = [1], rp_server_nonce = [3]\<rparr>"

lemma sample_valid:
  "validate_server_identity_bundle toy_pq sample_identity 100 120 = Ok ()"
  "validate_client_credential_bundle toy_pq (ic_bundle sample_credential) sample_identity 7 ClientToServer 100 120 = Ok ()"
proof -
  show "validate_server_identity_bundle toy_pq sample_identity 100 120 = Ok ()"
    using in_time by (simp add: validate_server_identity_bundle_def sample_identity_def decode_mldsa_verifying_key_def
        decode_mldsa_signature_def identity_signable_bytes_def)
  have "scope_allows sample_scope 7 ClientToServer" by (simp add: scope_allows_def sample_scope_def)
  then show "validate_client_credential_bundle toy_pq (ic_bundle sample_credential) sample_identity 7 ClientToServer 100 120 = Ok ()"
    using in_time by (simp add: validate_client_credential_bundle_def sample_identity_def sample_credential_def
        decode_mldsa_verifying_key_def decode_mldsa_signature_def client_credential_signable_bytes_def)
qed

lemma sample_answered:
  "mutual_respond toy_pq sample_server_config Map.empty (BM_ClientHello sample_hello) 100 [3] [4]
    = ([sample_key \<mapsto> 90], Ok (sample_server, BM_ServerHello (sample_server_hello [3])))"
proof -
  have hello: "ch_stream_id sample_hello = 7" "ch_client_id sample_hello = ''c''" "ch_client_nonce sample_hello = [1]"
    "ch_client_credential sample_hello = ic_bundle sample_credential" "cc_client_id (ic_bundle sample_credential) = ''c''"
    "cc_expires_at_unix_secs (ic_bundle sample_credential) = 90" "si_server_id sample_identity = ''s''"
    by (simp_all add: sample_hello_def sample_credential_def sample_identity_def)
  have skew: "bc_clock_skew_secs bootstrap_config_default = 120" by (simp add: bootstrap_config_default_def)
  show ?thesis
    using sample_framed [OF sample_written(1)] sample_framed [OF sample_written(2)]
    by (simp add: mutual_respond_def sample_server_config_def hello skew sample_valid check_and_insert_def prune_expired_def
        decode_kem_public_key_def kem_encapsulate_deterministic_def sample_server_hello_def Let_def)
qed

abbreviation sample_client' :: MutualClientBootstrapState where
  "sample_client' \<equiv> \<lparr>mc_config = sample_client_config, mc_client_nonce = [1], mc_client_kem_seed = [2],
     mc_client_hello_frame = BOOTSTRAP_MAGIC @ [1], mc_client_kem_secret = [2], mc_transcript_hash_after_client_finish = Some [],
     mc_root = Some (derive_pq_mutual_root toy_crypto 7 ClientToServer [] [] []), mc_server_nonce = Some [3]\<rparr>"

lemma sample_replied:
  "mutual_client_server_hello toy_crypto toy_pq sample_client (BM_ServerHello (sample_server_hello [3])) 100
    = (sample_client', Ok \<lparr>cbp_outbound = Some (BM_ClientFinish sample_finish), cbp_completed = None\<rparr>)"
proof -
  have hello: "sh_stream_id (sample_server_hello n) = 7" "sh_server_id (sample_server_hello n) = ''s''"
    "sh_server_nonce (sample_server_hello n) = n" "sh_server_identity (sample_server_hello n) = sample_identity" for n
    by (simp_all add: sample_server_hello_def)
  have skew: "bc_clock_skew_secs bootstrap_config_default = 120" by (simp add: bootstrap_config_default_def)
  have id: "si_server_id sample_identity = ''s''" by (simp add: sample_identity_def)
  show ?thesis
    using sample_framed [OF sample_written(2)] sample_framed [OF sample_written(4)]
    by (simp add: mutual_client_server_hello_def check_server_hello_def sample_client_config_def hello skew id sample_valid
        decode_kem_ciphertext_def decode_kem_public_key_def kem_encapsulate_deterministic_def sign_client_finish_def
        client_finish_signable_bytes_def sample_finish_def transcript_hash_def Let_def)
qed

abbreviation sample_completed :: BootstrapCompleted where
  "sample_completed \<equiv> \<lparr>bco_stream_id = 7, bco_direction = ClientToServer, bco_protection_profile = PqMutualV1,
     bco_root = derive_pq_mutual_root toy_crypto 7 ClientToServer [] [] [], bco_client_id = ''c'', bco_server_id = ''s'',
     bco_client_nonce = [1], bco_server_nonce = [3]\<rparr>"

lemma sample_finished:
  "mutual_client_finish toy_crypto toy_pq sample_server (BM_ClientFinish sample_finish) = Ok (sample_completed, BM_ServerFinish sample_server_finish)"
proof -
  have "ch_client_id sample_hello = ''c''" "ch_client_nonce sample_hello = [1]" "sh_server_id (sample_server_hello n) = ''s''"
    "sample_finish\<lparr>cf_transcript_signature := []\<rparr> = sample_finish" "cf_stream_id sample_finish = 7" for n
    by (simp_all add: sample_hello_def sample_server_hello_def sample_finish_def)
  then show ?thesis
    using sample_framed [OF sample_written(4)]
    by (simp add: mutual_client_finish_def sample_server_config_def decode_kem_ciphertext_def decode_mldsa_verifying_key_def
        decode_mldsa_signature_def client_finish_signable_bytes_def transcript_hash_def sample_server_finish_def Let_def)
qed

lemma sample_closed:
  "mutual_client_server_finish toy_pq sample_client' (BM_ServerFinish sample_server_finish) = Ok sample_completed"
  by (simp add: mutual_client_server_finish_def sample_client_config_def decode_mldsa_verifying_key_def
      decode_mldsa_signature_def Let_def) (simp add: sample_credential_def sample_identity_def)

lemma signed_transcript_agrees_witness:
  "BM_ClientHello sample_hello = BM_ClientHello sample_hello
    \<and> BM_ServerHello (sample_server_hello [3]) = BM_ServerHello (sample_server_hello [3])
    \<and> BM_ClientFinish sample_finish = BM_ClientFinish sample_finish \<and> sample_completed = sample_completed"
  by (rule signed_transcript_agrees [OF toy_pq_ok _ _ sample_started sample_replied sample_closed sample_answered sample_finished])
    (simp_all add: sample_client_config_def sample_server_config_def bootstrap_config_default_def)

lemma sample_carried:
  assumes "message_write toy_pq m = Ok [b]"
  shows "carried toy_pq bootstrap_config_default bootstrap_config_default m = Ok m"
proof -
  note framed = sample_framed [OF assms]
  have "length (BOOTSTRAP_MAGIC @ [b]) \<le> bc_max_bootstrap_frame_bytes bootstrap_config_default"
    by (simp add: BOOTSTRAP_MAGIC_def ascii_bytes_def bootstrap_config_default_def)
  with frame_round_trip [OF toy_pq_ok framed, of bootstrap_config_default] framed show ?thesis
    by (simp add: carried_def)
qed

lemma honest_handshake_agrees_witness:
  "\<exists>d. run_handshake toy_crypto toy_pq sample_client_config sample_server_config Map.empty (100, 100) ([1], [2]) ([3], [4])
    = Ok (d, d)"
proof -
  have config: "bcc_bootstrap sample_client_config = bootstrap_config_default" "bsc_bootstrap sample_server_config = bootstrap_config_default"
    "client_security_profile (bcc_security sample_client_config) = PqMutualV1"
    "server_security_profile (bsc_security sample_server_config) = PqMutualV1"
    by (simp_all add: sample_client_config_def sample_server_config_def)
  have "\<exists>x. run_handshake toy_crypto toy_pq sample_client_config sample_server_config Map.empty (100, 100) ([1], [2]) ([3], [4]) = Ok x"
    using sample_carried [OF sample_written(1)] sample_carried [OF sample_written(2)] sample_carried [OF sample_written(4)]
      sample_carried [OF sample_written(5)]
    by (simp add: run_handshake_def client_start_def respond_to_client_hello_def config sample_started sample_answered sample_replied
        sample_finished sample_closed Let_def)
  then show ?thesis
    using honest_handshake_agrees [OF toy_pq_ok sample_configured, of toy_crypto "[2]" "[4]"] by auto
qed

lemma sample_server_security: "bsc_security sample_server_config = SSC_PqMutual sample_identity [6] [''x'']"
  by (simp add: sample_server_config_def)

lemma answered_client_is_entitled_witness:
  "\<exists>e. snd (mutual_respond toy_pq sample_server_config [sample_key \<mapsto> 90] (BM_ClientHello sample_hello) 80 [3] [8]) = Err e"
proof -
  have "(80 :: u64) \<le> cc_expires_at_unix_secs (ch_client_credential sample_hello)"
    by (simp add: sample_hello_def sample_credential_def)
  then show ?thesis
    using answered_client_is_entitled [OF sample_answered sample_server_security refl, of 80 "[8]"] by blast
qed


end
