(* ===== verification/Pulzz_Assembly.thy ===== *)
theory Pulzz_Assembly
  imports Pulzz_Substrate Pulzz_Memory "HOL-Library.Sublist"
begin

text \<open>
  Assemblies (\<open>shared_protocol/src/chpmt.rs\<close> and the assembly payloads of \<open>state.rs\<close>): bodies and their lengths and
  hashes, reuse signatures, definition payloads and references, expansion, and the extraction of candidates from
  bytes.  Sums of lengths are computed in \<open>u32\<close> as in a release build.  The two properties say that a fingerprint
  is taken of bytes that determine the dependencies up to their order, and that the candidates of two extractors are
  pieces of the source.
\<close>

section \<open>Bodies\<close>

datatype AssemblyKind = AK_ContiguousMotif | AK_DiscontinuousFieldGroup | AK_DelimiterBounded | AK_SlotBearing

record RoleSignature =
  rs_role_bits :: u64
  rs_delimiter_role_bits :: u64
  rs_slot_role_bits :: u64

record SlotDescriptor =
  sd_slot_index :: u16
  sd_role_bits :: u64
  sd_min_len :: u32
  sd_max_len :: u32
  sd_required :: bool

datatype AssemblyComponentRef =
    CR_AtomFragment (ac_object_id: string) (ac_start: u32) (ac_len: u32)
  | CR_ExactBlock (ac_object_id: string) (ac_start: u32) (ac_len: u32)
  | CR_ExactBundle (ac_object_id: string) (ac_start: u32) (ac_len: u32)
  | CR_ExactRange (ac_object_id: string) (ac_start: u32) (ac_len: u32)
  | CR_ResidualBuffer (ac_object_id: string) (ac_start: u32) (ac_len: u32)

fun component_object_kind :: "AssemblyComponentRef \<Rightarrow> ObjectKind" where
  "component_object_kind (CR_AtomFragment _ _ _) = OK_AtomFragment"
| "component_object_kind (CR_ExactBlock _ _ _) = OK_ExactBlock"
| "component_object_kind (CR_ExactBundle _ _ _) = OK_ExactBundle"
| "component_object_kind (CR_ExactRange _ _ _) = OK_ExactRange"
| "component_object_kind (CR_ResidualBuffer _ _ _) = OK_ResidualBuffer"

record DependencyClosure =
  dc_version :: ObjectVersion
  dc_dependencies :: "ObjectDependency list"

definition closure_default :: DependencyClosure where
  "closure_default = \<lparr>dc_version = version_default, dc_dependencies = []\<rparr>"

datatype AssemblyBodyNode =
    DelimiterAnchor bytes
  | LiteralIsland bytes
  | SubstrateSpan AssemblyComponentRef
  | SlotPlaceholder u16 u64 bytes
  | MotifLink u64 bytes
  | TypedBoundary string bytes

type_synonym AssemblyBody = "AssemblyBodyNode list"

definition len_u32 :: "'a list \<Rightarrow> u32" where "len_u32 xs = of_nat (min (length xs) (2 ^ 32 - 1))"

text \<open>The bytes a node carries itself; a span of the substrate carries none.\<close>

fun inline_bytes :: "AssemblyBodyNode \<Rightarrow> bytes option" where
  "inline_bytes (DelimiterAnchor bs) = Some bs"
| "inline_bytes (LiteralIsland bs) = Some bs"
| "inline_bytes (SubstrateSpan r) = None"
| "inline_bytes (SlotPlaceholder _ _ bs) = Some bs"
| "inline_bytes (MotifLink _ bs) = Some bs"
| "inline_bytes (TypedBoundary _ bs) = Some bs"

fun node_output_len :: "AssemblyBodyNode \<Rightarrow> u32" where
  "node_output_len (SubstrateSpan r) = ac_len r"
| "node_output_len (DelimiterAnchor bs) = len_u32 bs"
| "node_output_len (LiteralIsland bs) = len_u32 bs"
| "node_output_len (SlotPlaceholder _ _ bs) = len_u32 bs"
| "node_output_len (MotifLink _ bs) = len_u32 bs"
| "node_output_len (TypedBoundary _ bs) = len_u32 bs"

fun is_span :: "AssemblyBodyNode \<Rightarrow> bool" where
  "is_span (SubstrateSpan _) = True" | "is_span _ = False"

fun is_literal_island :: "AssemblyBodyNode \<Rightarrow> bool" where
  "is_literal_island (LiteralIsland _) = True" | "is_literal_island _ = False"

fun is_anchor :: "AssemblyBodyNode \<Rightarrow> bool" where
  "is_anchor (DelimiterAnchor _) = True" | "is_anchor _ = False"

fun is_motif :: "AssemblyBodyNode \<Rightarrow> bool" where
  "is_motif (MotifLink _ _) = True" | "is_motif _ = False"

definition inline_bytes_len :: "AssemblyBodyNode \<Rightarrow> u32" where
  "inline_bytes_len node = (if is_span node then 0 else node_output_len node)"

fun support_weight :: "AssemblyBodyNode \<Rightarrow> u32" where
  "support_weight (LiteralIsland _) = 0"
| "support_weight (DelimiterAnchor bs) = max (len_u32 bs) 1"
| "support_weight (TypedBoundary _ bs) = max (len_u32 bs) 1"
| "support_weight (SlotPlaceholder _ _ bs) = max (len_u32 bs) 4"
| "support_weight (MotifLink _ bs) = max (len_u32 bs) 4"
| "support_weight (SubstrateSpan r) = max (ac_len r) 4"

definition body_from_literal :: "bytes \<Rightarrow> AssemblyBody" where
  "body_from_literal bs = (if bs = [] then [] else [LiteralIsland bs])"

definition body_output_len :: "AssemblyBody \<Rightarrow> u32" where
  "body_output_len body = sum_list (map node_output_len body)"

definition literal_len :: "AssemblyBody \<Rightarrow> u32" where
  "literal_len body = sum_list (map node_output_len (filter is_literal_island body))"

definition body_inline_len :: "AssemblyBody \<Rightarrow> u32" where
  "body_inline_len body = sum_list (map inline_bytes_len body)"

definition structural_component_count :: "AssemblyBody \<Rightarrow> nat" where
  "structural_component_count body = length (filter (\<lambda>n. \<not> is_literal_island n) body)"

definition dependency_component_count :: "AssemblyBody \<Rightarrow> nat" where
  "dependency_component_count body = length (filter is_span body)"

definition body_is_structural :: "AssemblyBody \<Rightarrow> bool" where
  "body_is_structural body \<longleftrightarrow> structural_component_count body > 0 \<and> literal_len body < body_output_len body"

definition rolling_assembly_hash :: "bytes \<Rightarrow> u64" where
  "rolling_assembly_hash bs = foldl (\<lambda>h b. (h XOR ucast b) * 0x100000001b3) 0xcbf29ce484222325 (take 256 bs)"

fun node_discriminant :: "AssemblyBodyNode \<Rightarrow> u64" where
  "node_discriminant (DelimiterAnchor _) = 1"
| "node_discriminant (LiteralIsland _) = 2"
| "node_discriminant (SubstrateSpan _) = 3"
| "node_discriminant (SlotPlaceholder _ _ _) = 4"
| "node_discriminant (MotifLink _ _) = 5"
| "node_discriminant (TypedBoundary _ _) = 6"

fun node_content_hash :: "u64 \<Rightarrow> AssemblyBodyNode \<Rightarrow> u64" where
  "node_content_hash h (DelimiterAnchor bs) = h XOR rolling_assembly_hash bs"
| "node_content_hash h (LiteralIsland bs) = h XOR rolling_assembly_hash bs"
| "node_content_hash h (TypedBoundary _ bs) = h XOR rolling_assembly_hash bs"
| "node_content_hash h (SubstrateSpan r) =
     h XOR word_rotl 7 (of_nat (ObjectKind_disc (component_object_kind r)))
       XOR rolling_assembly_hash (ascii_bytes (ac_object_id r))
       XOR word_rotl 17 (ucast (ac_start r)) XOR word_rotl 29 (ucast (ac_len r))"
| "node_content_hash h (SlotPlaceholder slot_index bits bs) =
     h XOR word_rotl 13 (ucast slot_index) XOR word_rotl 23 bits XOR rolling_assembly_hash bs"
| "node_content_hash h (MotifLink motif_hash bs) =
     h XOR word_rotl 19 motif_hash XOR rolling_assembly_hash bs"

definition body_shape_hash :: "AssemblyBody \<Rightarrow> u64" where
  "body_shape_hash body =
     foldl (\<lambda>h node. node_content_hash (word_rotl 11 (h XOR node_discriminant node * 0x100000001b3)) node)
       0x9e3779b97f4a7c15 body"

section \<open>Assemblies, signatures and payloads\<close>

record Assembly =
  as_assembly_id :: u64
  as_source_kind :: SourceKind
  as_assembly_kind :: AssemblyKind
  as_role_signature :: RoleSignature
  as_slots :: "SlotDescriptor list"
  as_body :: AssemblyBody
  as_dependency_closure :: DependencyClosure
  as_cue :: SparseCue
  as_lifecycle :: ObjectLifecycleMeta
  as_canonical_length_min :: u32
  as_canonical_length_max :: u32

record AssemblyReuseSignature =
  rus_version :: ObjectVersion
  rus_body_shape_hash :: u64
  rus_dependency_fingerprint :: u64
  rus_output_len :: u32

definition dependency_material :: "ObjectDependency \<Rightarrow> bytes" where
  "dependency_material d =
     of_nat (ObjectKind_disc (od_object_kind d)) # le32 (od_required_revision d) @ ascii_bytes (od_object_id d) @ [0xff]"

definition fingerprint_material :: "ObjectDependency list \<Rightarrow> bytes" where
  "fingerprint_material ds = concat (map dependency_material (sort_key dependency_rank ds))"

definition assembly_dependency_fingerprint :: "bool \<Rightarrow> ObjectDependency list \<Rightarrow> u64" where
  "assembly_dependency_fingerprint hw ds = gf2_fingerprint hw (fingerprint_material ds)"

definition assembly_reuse_signature_from_parts ::
  "bool \<Rightarrow> ObjectVersion \<Rightarrow> AssemblyBody \<Rightarrow> ObjectDependency list \<Rightarrow> AssemblyReuseSignature" where
  "assembly_reuse_signature_from_parts hw version body dependencies =
     \<lparr>rus_version = version, rus_body_shape_hash = body_shape_hash body,
      rus_dependency_fingerprint = assembly_dependency_fingerprint hw dependencies,
      rus_output_len = body_output_len body\<rparr>"

definition assembly_reuse_signature :: "bool \<Rightarrow> Assembly \<Rightarrow> AssemblyReuseSignature" where
  "assembly_reuse_signature hw a =
     assembly_reuse_signature_from_parts hw (dc_version (as_dependency_closure a)) (as_body a)
       (dc_dependencies (as_dependency_closure a))"

record AssemblyRef =
  ar_assembly_id :: u64
  ar_version :: ObjectVersion
  ar_dependency_closure :: "ObjectDependency list"
  ar_output_len :: u32
  ar_body_shape_hash :: u64
  ar_dependency_fingerprint :: u64

record AssemblyDefPayload =
  adp_version :: u8
  adp_assembly :: Assembly

definition ASSEMBLY_DEF_VERSION :: u8 where "ASSEMBLY_DEF_VERSION = 1"

definition assembly_def_new :: "bool \<Rightarrow> Assembly \<Rightarrow> AssemblyDefPayload" where
  "assembly_def_new hw a =
     (let closure = as_dependency_closure a;
          signature = assembly_reuse_signature hw a;
          a = (if dc_version closure = version_default
            then a\<lparr>as_dependency_closure := closure\<lparr>dc_version :=
              \<lparr>ov_schema_version = 1,
               ov_object_revision = ucast (rus_body_shape_hash signature XOR rus_dependency_fingerprint signature
                 XOR ucast (rus_output_len signature))\<rparr>\<rparr>\<rparr>
            else a) in
      \<lparr>adp_version = ASSEMBLY_DEF_VERSION, adp_assembly = a\<rparr>)"

record AssemblyInstallPlan =
  aip_assembly_id :: u64
  aip_dependency_closure :: "ObjectDependency list"
  aip_output_len :: u32

definition assembly_install_plan :: "AssemblyDefPayload \<Rightarrow> AssemblyInstallPlan" where
  "assembly_install_plan p =
     \<lparr>aip_assembly_id = as_assembly_id (adp_assembly p),
      aip_dependency_closure = dc_dependencies (as_dependency_closure (adp_assembly p)),
      aip_output_len = body_output_len (as_body (adp_assembly p))\<rparr>"

definition assembly_ref_from_payload :: "bool \<Rightarrow> AssemblyDefPayload \<Rightarrow> AssemblyRef" where
  "assembly_ref_from_payload hw p =
     (let a = adp_assembly p;
          closure = as_dependency_closure a;
          signature = assembly_reuse_signature_from_parts hw (dc_version closure) (as_body a) (dc_dependencies closure) in
      \<lparr>ar_assembly_id = as_assembly_id a, ar_version = dc_version closure,
       ar_dependency_closure = dc_dependencies closure, ar_output_len = body_output_len (as_body a),
       ar_body_shape_hash = rus_body_shape_hash signature,
       ar_dependency_fingerprint = rus_dependency_fingerprint signature\<rparr>)"

definition expand_node ::
  "(AssemblyComponentRef \<Rightarrow> bytes option) \<Rightarrow> AssemblyBodyNode \<Rightarrow> StateProgramError + bytes" where
  "expand_node resolve node =
     (case node of
        SubstrateSpan r \<Rightarrow>
          ok_or (SE_Payload (MissingAssemblyComponent (component_object_kind r) (ac_object_id r))) (resolve r)
      | DelimiterAnchor bs \<Rightarrow> Ok bs
      | LiteralIsland bs \<Rightarrow> Ok bs
      | SlotPlaceholder _ _ bs \<Rightarrow> Ok bs
      | MotifLink _ bs \<Rightarrow> Ok bs
      | TypedBoundary _ bs \<Rightarrow> Ok bs)"

definition expand_assembly_body ::
  "AssemblyBody \<Rightarrow> (AssemblyComponentRef \<Rightarrow> bytes option) \<Rightarrow> StateProgramError + bytes" where
  "expand_assembly_body body resolve =
     try_fold (\<lambda>out node. and_then (expand_node resolve node) (\<lambda>bs. Ok (out @ bs))) [] body"

section \<open>Admissibility\<close>

record AssemblyAdmissibilityPolicy =
  po_ambiguity_cap :: u32
  po_max_expansion_depth :: u8
  po_max_residual_dominance_percent :: u8

definition admissibility_policy_default :: AssemblyAdmissibilityPolicy where
  "admissibility_policy_default =
     \<lparr>po_ambiguity_cap = 32, po_max_expansion_depth = 4, po_max_residual_dominance_percent = 70\<rparr>"

record AssemblyAdmissibilityInput =
  ai_ambiguity_score :: u32
  ai_dependencies_available :: bool
  ai_expansion_depth :: u8
  ai_residual_bytes :: u32
  ai_predicted_bytes :: u32
  ai_contract_min_len :: u32
  ai_contract_max_len :: u32

datatype AssemblyAdmissibilityFailure =
  AF_AmbiguityCap | AF_DependencyUnavailable | AF_ExpansionDepthExceeded | AF_ResidualDominant
  | AF_LengthContractInvalid

definition assembly_route_eligibility ::
  "AssemblyAdmissibilityPolicy \<Rightarrow> AssemblyAdmissibilityInput \<Rightarrow> AssemblyAdmissibilityFailure + unit" where
  "assembly_route_eligibility policy inp =
     (if ai_ambiguity_score inp > po_ambiguity_cap policy then Err AF_AmbiguityCap
      else if \<not> ai_dependencies_available inp then Err AF_DependencyUnavailable
      else if ai_expansion_depth inp > po_max_expansion_depth policy then Err AF_ExpansionDepthExceeded
      else if ai_contract_min_len inp > ai_contract_max_len inp
        \<or> ai_predicted_bytes inp < ai_contract_min_len inp \<or> ai_predicted_bytes inp > ai_contract_max_len inp
      then Err AF_LengthContractInvalid
      else if saturating_mul (ai_residual_bytes inp) 100 div max (ai_predicted_bytes inp) 1
        > ucast (po_max_residual_dominance_percent policy)
      then Err AF_ResidualDominant
      else Ok ())"

section \<open>Support and agreement of a candidate\<close>

record AssemblySupportVote =
  vo_role_bits :: u64
  vo_delimiter_bits :: u64
  vo_slot_bits :: u64
  vo_overlap_bytes :: u32
  vo_support_bytes :: u32

record AssemblyAgreementSummary =
  ag_agreement_score :: u32
  ag_literal_burden :: u32
  ag_ambiguity :: u32
  ag_support :: u32
  ag_support_count :: u32
  ag_estimated_wire_cost :: u32
  ag_decode_burden :: u32
  ag_synchronization_cost :: u32

definition delimiter_bit :: "u8 \<Rightarrow> u64" where
  "delimiter_bit b =
     (if b = 0x0A then push_bit 0 1 else if b = 0x0D then push_bit 1 1 else if b = 0x09 then push_bit 2 1
      else if b = 0x2C then push_bit 3 1 else if b = 0x3B then push_bit 4 1 else if b = 0x3A then push_bit 5 1
      else if b = 0x7C then push_bit 6 1 else if b = 0x7B \<or> b = 0x7D then push_bit 7 1
      else if b = 0x5B \<or> b = 0x5D then push_bit 8 1 else if b = 0x28 \<or> b = 0x29 then push_bit 9 1
      else if b = 0x22 \<or> b = 0x27 then push_bit 10 1 else 0)"

definition is_delimiter :: "u8 \<Rightarrow> bool" where "is_delimiter b \<longleftrightarrow> delimiter_bit b \<noteq> 0"

definition matching_close :: "u8 \<Rightarrow> u8" where
  "matching_close open_byte =
     (if open_byte = 0x7B then 0x7D else if open_byte = 0x5B then 0x5D else if open_byte = 0x28 then 0x29
      else if open_byte = 0x3C then 0x3E else open_byte)"

definition delimiter_bits_for_bytes :: "bytes \<Rightarrow> u64" where
  "delimiter_bits_for_bytes bs = foldl (\<lambda>acc b. acc OR delimiter_bit b) 0 bs"

definition support_vote :: "u64 \<Rightarrow> u64 \<Rightarrow> u64 \<Rightarrow> u32 \<Rightarrow> AssemblySupportVote" where
  "support_vote role delimiter slot n =
     \<lparr>vo_role_bits = role, vo_delimiter_bits = delimiter, vo_slot_bits = slot, vo_overlap_bytes = n,
      vo_support_bytes = n\<rparr>"

fun node_votes :: "RoleSignature \<Rightarrow> SlotDescriptor list \<Rightarrow> AssemblyBodyNode \<Rightarrow> AssemblySupportVote list" where
  "node_votes s slots (LiteralIsland _) = []"
| "node_votes s slots (DelimiterAnchor bs) =
     [support_vote (rs_role_bits s) (delimiter_bits_for_bytes bs) 0 (len_u32 bs)]"
| "node_votes s slots (SubstrateSpan r) =
     [support_vote (rs_role_bits s) (rs_delimiter_role_bits s) (rs_slot_role_bits s) (ac_len r)]"
| "node_votes s slots (SlotPlaceholder slot_index bits bs) =
     [support_vote bits (rs_delimiter_role_bits s)
       (case find (\<lambda>slot. sd_slot_index slot = slot_index) slots of Some slot \<Rightarrow> sd_role_bits slot | None \<Rightarrow> bits)
       (len_u32 bs)]"
| "node_votes s slots (MotifLink _ bs) =
     [support_vote (rs_role_bits s) (rs_delimiter_role_bits s) (rs_slot_role_bits s) (len_u32 bs)]"
| "node_votes s slots (TypedBoundary _ bs) =
     [support_vote (rs_role_bits s) (delimiter_bits_for_bytes bs) (rs_slot_role_bits s) (len_u32 bs)]"

definition derive_assembly_support_votes where
  "derive_assembly_support_votes body s slots = concat (map (node_votes s slots) body)"

definition count_u32 :: "('a \<Rightarrow> bool) \<Rightarrow> 'a list \<Rightarrow> u32" where "count_u32 P xs = len_u32 (filter P xs)"

definition summarize_assembly_agreement ::
  "AssemblyBody \<Rightarrow> SlotDescriptor list \<Rightarrow> ObjectDependency list \<Rightarrow> AssemblySupportVote list \<Rightarrow> AssemblyAgreementSummary" where
  "summarize_assembly_agreement body slots dependencies votes =
     (let literal_burden = literal_len body;
          support_count = len_u32 votes;
          support_bytes = sum_list (map vo_support_bytes votes);
          overlap_bytes = sum_list (map vo_overlap_bytes votes);
          optional_slot_penalty = count_u32 (\<lambda>slot. \<not> sd_required slot) slots * 4;
          motif_penalty = len_u32 (tl (filter is_motif body)) * 3;
          residual_penalty = (if body_output_len body = 0 then 0
            else saturating_mul literal_burden 32 div max (body_output_len body) 1);
          ambiguity = saturating_add (saturating_add optional_slot_penalty motif_penalty) residual_penalty;
          decode_burden = count_u32 (\<lambda>node. \<not> (is_literal_island node \<or> is_anchor node)) body;
          synchronization_cost = saturating_add (saturating_mul (len_u32 dependencies) 6)
            (of_nat (min (dependency_component_count body) (2 ^ 32 - 1)) * 2);
          support = saturating_add support_bytes (saturating_mul support_count 4);
          estimated_wire_cost = saturating_add (saturating_add (saturating_add literal_burden decode_burden)
            synchronization_cost) (count_u32 is_anchor body);
          agreement_score = max (saturating_sub (saturating_sub (saturating_sub
            (saturating_add support (overlap_bytes div 2)) ambiguity) (literal_burden div 2))
            (synchronization_cost div 2)) 1 in
      \<lparr>ag_agreement_score = agreement_score, ag_literal_burden = literal_burden, ag_ambiguity = ambiguity,
       ag_support = support, ag_support_count = support_count, ag_estimated_wire_cost = estimated_wire_cost,
       ag_decode_burden = decode_burden, ag_synchronization_cost = synchronization_cost\<rparr>)"

record AssemblyExtractionCandidate =
  ec_assembly_kind :: AssemblyKind
  ec_role_signature :: RoleSignature
  ec_slots :: "SlotDescriptor list"
  ec_body :: AssemblyBody
  ec_dependency_closure :: DependencyClosure
  ec_cue :: SparseCue
  ec_canonical_length_min :: u32
  ec_canonical_length_max :: u32
  ec_structural_hash :: u64
  ec_support_votes :: "AssemblySupportVote list"
  ec_agreement :: AssemblyAgreementSummary

definition build_assembly_candidate ::
  "AssemblyKind \<Rightarrow> RoleSignature \<Rightarrow> SlotDescriptor list \<Rightarrow> AssemblyBody \<Rightarrow> DependencyClosure \<Rightarrow> SparseCue \<Rightarrow> u32 \<Rightarrow> u32
    \<Rightarrow> u64 \<Rightarrow> AssemblyExtractionCandidate option" where
  "build_assembly_candidate kind s slots body closure cue min_len max_len structural_hash =
     (let output_len = body_output_len body in
      if output_len < min_len \<or> output_len > max_len then None
      else
        let votes = derive_assembly_support_votes body s slots in
        Some \<lparr>ec_assembly_kind = kind, ec_role_signature = s, ec_slots = slots, ec_body = body,
          ec_dependency_closure = closure, ec_cue = cue, ec_canonical_length_min = min_len,
          ec_canonical_length_max = max_len, ec_structural_hash = structural_hash, ec_support_votes = votes,
          ec_agreement = summarize_assembly_agreement body slots (dc_dependencies closure) votes\<rparr>)"

definition expansion_depth :: "AssemblyExtractionCandidate \<Rightarrow> u8" where
  "expansion_depth c = ucast (min (ag_decode_burden (ec_agreement c)) 255)"

definition admissibility_input :: "u32 \<Rightarrow> bool \<Rightarrow> AssemblyExtractionCandidate \<Rightarrow> AssemblyAdmissibilityInput" where
  "admissibility_input ambiguity_score dependencies_available c =
     \<lparr>ai_ambiguity_score = ambiguity_score, ai_dependencies_available = dependencies_available,
      ai_expansion_depth = expansion_depth c, ai_residual_bytes = ag_literal_burden (ec_agreement c),
      ai_predicted_bytes = body_output_len (ec_body c), ai_contract_min_len = ec_canonical_length_min c,
      ai_contract_max_len = ec_canonical_length_max c\<rparr>"

section \<open>Extraction\<close>

record AssemblyExtractionConfig =
  xc_min_motif_len :: u16
  xc_max_motif_len :: u16
  xc_max_gap_bytes :: u16
  xc_max_slots :: u16

definition extraction_config_default :: AssemblyExtractionConfig where
  "extraction_config_default =
     \<lparr>xc_min_motif_len = 4, xc_max_motif_len = 32, xc_max_gap_bytes = 24, xc_max_slots = 4\<rparr>"

definition cue_role_bit :: "u8 \<Rightarrow> u64" where
  "cue_role_bit b =
     (if 0x41 \<le> b \<and> b \<le> 0x5A \<or> 0x61 \<le> b \<and> b \<le> 0x7A then push_bit 0 1 else 0)
     OR (if 0x30 \<le> b \<and> b \<le> 0x39 then push_bit 1 1 else 0)
     OR (if b \<in> {0x20, 0x09, 0x0A, 0x0C, 0x0D} then push_bit 2 1 else 0)
     OR (if b = 0x5F \<or> b = 0x2D then push_bit 3 1 else 0)"

definition length_bucket :: "nat \<Rightarrow> nat" where
  "length_bucket n = (if n = 0 then 0 else if n \<le> 8 then 1 else if n \<le> 16 then 2 else if n \<le> 32 then 3
     else if n \<le> 64 then 4 else if n \<le> 128 then 5 else 6)"

definition derive_sparse_cue_from_bytes :: "SourceKind \<Rightarrow> bytes \<Rightarrow> SparseCue" where
  "derive_sparse_cue_from_bytes kind bs =
     (let family = source_cue_family kind in
      \<lparr>cue_family_bits = of_nat (MemoryPlane_disc (cf_plane family)) OR of_nat (RouteFamily_disc (cf_route_family family)),
       cue_role_bits = foldl (\<lambda>acc b. acc OR cue_role_bit b) 0 (take 64 bs),
       cue_delimiter_bits = foldl (\<lambda>acc b. acc OR delimiter_bit b) 0 (take 64 bs),
       cue_length_bucket_bits = (if bs = [] then 0 else push_bit (length_bucket (length bs)) 1),
       cue_temporal_bits = rolling_assembly_hash bs AND 0xffff\<rparr>)"

fun split_on :: "('a \<Rightarrow> bool) \<Rightarrow> 'a list \<Rightarrow> 'a list list" where
  "split_on P [] = [[]]"
| "split_on P (x # xs) =
     (if P x then [] # split_on P xs
      else case split_on P xs of [] \<Rightarrow> [[x]] | part # parts \<Rightarrow> (x # part) # parts)"

text \<open>The position of the first window of \<open>xs\<close> that is \<open>part\<close>.\<close>

definition window_position :: "'a list \<Rightarrow> 'a list \<Rightarrow> nat option" where
  "window_position part xs =
     find (\<lambda>i. slice i (i + length part) xs = part) [0..<Suc (length xs) - length part]"

definition push_bytes_as_assembly_nodes :: "AssemblyBody \<Rightarrow> bytes \<Rightarrow> AssemblyBody" where
  "push_bytes_as_assembly_nodes nodes bs =
     (if bs = [] then nodes
      else if list_all is_delimiter bs then nodes @ [DelimiterAnchor bs] else nodes @ [LiteralIsland bs])"

definition push_candidate where
  "push_candidate c out = (case c of Some x \<Rightarrow> out @ [x] | None \<Rightarrow> out)"

definition motif_candidate :: "SourceKind \<Rightarrow> bytes \<Rightarrow> AssemblyExtractionCandidate option" where
  "motif_candidate kind motif =
     (let cue = derive_sparse_cue_from_bytes kind motif in
      build_assembly_candidate AK_ContiguousMotif
        \<lparr>rs_role_bits = cue_role_bits cue, rs_delimiter_role_bits = cue_delimiter_bits cue, rs_slot_role_bits = 0\<rparr> []
        [MotifLink (rolling_assembly_hash motif) motif] closure_default cue (of_nat (length motif))
        (of_nat (length motif)) (rolling_assembly_hash motif))"

fun contiguous_loop where
  "contiguous_loop kind bs min_len max_len [] out = out"
| "contiguous_loop kind bs min_len max_len (start # starts) out =
     (let remaining = length bs - start in
      if remaining < min_len then out
      else
        let motif = slice start (start + min remaining max_len) bs in
        if list_all (\<lambda>(a, b). a = b) (zip motif (tl motif)) then contiguous_loop kind bs min_len max_len starts out
        else
          let out = push_candidate (motif_candidate kind motif) out in
          if 8 \<le> length out then out else contiguous_loop kind bs min_len max_len starts out)"

definition extract_contiguous_motif_candidates where
  "extract_contiguous_motif_candidates kind bs config =
     contiguous_loop kind bs (unat (max (xc_min_motif_len config) 1))
       (unat (max (xc_max_motif_len config) (xc_min_motif_len config))) [0..<min (length bs) 256] []"

definition role_flag :: "nat \<Rightarrow> u64" where "role_flag idx = push_bit (min idx 31) 1"

definition is_field_separator :: "u8 \<Rightarrow> bool" where
  "is_field_separator b \<longleftrightarrow> b = 0x2C \<or> b = 0x3B \<or> b = 0x7C \<or> b = 0x0A"

definition field_slot :: "u16 \<Rightarrow> u64 \<Rightarrow> bytes \<Rightarrow> SlotDescriptor" where
  "field_slot slot_index bits part =
     \<lparr>sd_slot_index = slot_index, sd_role_bits = bits, sd_min_len = 1, sd_max_len = of_nat (length part),
      sd_required = True\<rparr>"

text \<open>The candidate of one field and the first field of the gap behind its first occurrence, if both are long enough.\<close>

definition field_group_candidate ::
  "SourceKind \<Rightarrow> bytes \<Rightarrow> AssemblyExtractionConfig \<Rightarrow> nat \<Rightarrow> bytes \<Rightarrow> AssemblyExtractionCandidate option" where
  "field_group_candidate kind bs config left_idx left =
     (let max_gap = unat (max (xc_max_gap_bytes config) 1);
          offset = (case window_position left bs of Some i \<Rightarrow> i | None \<Rightarrow> 0);
          gap_start = offset + length left;
          gap = slice gap_start (min (gap_start + max_gap) (length bs)) bs;
          right = (case find (\<lambda>part. part \<noteq> []) (split_on is_field_separator gap) of Some part \<Rightarrow> part | None \<Rightarrow> []) in
      if length right < unat (xc_min_motif_len config) then None
      else
        let combined_len = length left + length right;
            cue = derive_sparse_cue_from_bytes kind (left @ right);
            left_slot = field_slot 0 (cue_role_bits cue OR role_flag left_idx) left;
            right_slot = field_slot 1 (cue_role_bits cue OR role_flag (left_idx + 1)) right;
            gap_literal = take (length gap - length right) gap;
            nodes = push_bytes_as_assembly_nodes [SlotPlaceholder 0 (sd_role_bits left_slot) left] gap_literal
              @ [SlotPlaceholder 1 (sd_role_bits right_slot) right] in
        build_assembly_candidate AK_DiscontinuousFieldGroup
          \<lparr>rs_role_bits = cue_role_bits cue OR role_flag left_idx,
           rs_delimiter_role_bits = cue_delimiter_bits cue OR delimiter_bits_for_bytes gap_literal,
           rs_slot_role_bits = sd_role_bits left_slot OR sd_role_bits right_slot\<rparr>
          [left_slot, right_slot] nodes closure_default cue (of_nat combined_len) (of_nat (combined_len + max_gap))
          (rolling_assembly_hash left XOR rolling_assembly_hash right))"

text \<open>A pass over the fields leaves the loop early once eight candidates were found, but only after a field that got
  as far as a candidate.\<close>

fun field_group_loop where
  "field_group_loop kind bs config [] out = out"
| "field_group_loop kind bs config ((left_idx, left) # later) out =
     (if left = [] \<or> length left < unat (xc_min_motif_len config) then field_group_loop kind bs config later out
      else
        let out = push_candidate (field_group_candidate kind bs config left_idx left) out in
        if 8 \<le> length out then out else field_group_loop kind bs config later out)"

definition extract_discontinuous_field_group_candidates where
  "extract_discontinuous_field_group_candidates kind bs config =
     field_group_loop kind bs config (enumerate 0 (split_on is_field_separator bs)) []"

text \<open>The first position from \<open>i\<close> on whose byte satisfies \<open>P\<close>, or the end.\<close>

definition first_from :: "(u8 \<Rightarrow> bool) \<Rightarrow> bytes \<Rightarrow> nat \<Rightarrow> nat" where
  "first_from P bs i = (case find (\<lambda>j. P (bs ! j)) [i..<length bs] of Some j \<Rightarrow> j | None \<Rightarrow> max i (length bs))"

lemma first_from_ge: "i \<le> first_from P bs i"
  by (auto simp: first_from_def dest: find_SomeD split: option.split)

definition bounded_candidate ::
  "SourceKind \<Rightarrow> AssemblyExtractionConfig \<Rightarrow> u8 \<Rightarrow> bytes \<Rightarrow> AssemblyExtractionCandidate option" where
  "bounded_candidate kind config open_byte segment =
     (if length segment < unat (xc_min_motif_len config) then None
      else
        let cue = derive_sparse_cue_from_bytes kind segment in
        build_assembly_candidate AK_DelimiterBounded
          \<lparr>rs_role_bits = cue_role_bits cue, rs_delimiter_role_bits = cue_delimiter_bits cue OR delimiter_bit open_byte,
           rs_slot_role_bits = 0\<rparr> []
          [DelimiterAnchor [open_byte], MotifLink (rolling_assembly_hash segment) segment,
           DelimiterAnchor [matching_close open_byte]]
          closure_default cue (of_nat (length segment + 2)) (of_nat (length segment + 2))
          (rolling_assembly_hash segment XOR push_bit 48 (ucast open_byte)))"

function bounded_loop where
  "bounded_loop kind bs config start out =
     (let open_at = first_from is_delimiter bs start in
      if length bs \<le> open_at then out
      else
        let open_byte = bs ! open_at;
            close_at = first_from (\<lambda>b. b = matching_close open_byte) bs (open_at + 1);
            out = push_candidate (bounded_candidate kind config open_byte (slice (open_at + 1) close_at bs)) out in
        if 8 \<le> length out then out else bounded_loop kind bs config (close_at + 1) out)"
  by pat_completeness auto

termination
proof (relation "measure (\<lambda>(kind, bs, config, start, out). length bs - start)", goal_cases)
  case 1
  show ?case by simp
next
  case (2 kind bs config start out open_at open_byte close_at out')
  with first_from_ge [of start is_delimiter bs]
    first_from_ge [of "open_at + 1" "\<lambda>b. b = matching_close open_byte" bs]
  show ?case by simp
qed

declare bounded_loop.simps [simp del]

definition extract_delimiter_bounded_candidates where
  "extract_delimiter_bounded_candidates kind bs config =
     (if kind = Binary \<or> kind = Image then [] else bounded_loop kind bs config 0 [])"

definition is_slot_separator :: "u8 \<Rightarrow> bool" where
  "is_slot_separator b \<longleftrightarrow> b = 0x2C \<or> b = 0x3A \<or> b = 0x3B \<or> b = 0x7C \<or> b = 0x20"

definition part_step ::
  "bytes \<Rightarrow> AssemblyBody \<times> nat \<Rightarrow> SlotDescriptor \<times> bytes \<Rightarrow> AssemblyBody \<times> nat" where
  "part_step inner s p =
     (let (nodes, search_cursor) = s; (slot, part) = p in
      case window_position part (drop search_cursor inner) of
        None \<Rightarrow> (nodes, search_cursor)
      | Some relative_start \<Rightarrow>
          let part_start = search_cursor + relative_start in
          (push_bytes_as_assembly_nodes nodes (slice search_cursor part_start inner)
             @ [SlotPlaceholder (sd_slot_index slot) (sd_role_bits slot) part],
           part_start + length part))"

definition slot_candidate ::
  "SourceKind \<Rightarrow> u8 \<Rightarrow> bytes \<Rightarrow> bytes list \<Rightarrow> AssemblyExtractionCandidate option" where
  "slot_candidate kind open_byte inner parts =
     (let close_byte = matching_close open_byte;
          cue = derive_sparse_cue_from_bytes kind inner;
          slots = map (\<lambda>(idx, part). field_slot (of_nat idx) (cue_role_bits cue OR role_flag idx) part) (enumerate 0 parts);
          (nodes, search_cursor) = foldl (part_step inner)
            ([TypedBoundary (''open:'' @ [char_of (unat open_byte)]) [open_byte]], 0) (zip slots parts);
          nodes = push_bytes_as_assembly_nodes nodes (drop search_cursor inner)
            @ [TypedBoundary (''close:'' @ [char_of (unat close_byte)]) [close_byte]] in
      build_assembly_candidate AK_SlotBearing
        \<lparr>rs_role_bits = cue_role_bits cue,
         rs_delimiter_role_bits = cue_delimiter_bits cue OR delimiter_bit open_byte OR delimiter_bit close_byte,
         rs_slot_role_bits = foldl (\<lambda>acc slot. acc OR sd_role_bits slot) 0 slots\<rparr>
        slots nodes closure_default cue (of_nat (length inner) + 2) (of_nat (length inner) + 2)
        (rolling_assembly_hash inner XOR push_bit 56 (ucast open_byte)))"

function slot_loop where
  "slot_loop kind bs config open_byte cursor out =
     (let open_idx = first_from (\<lambda>b. b = open_byte) bs cursor in
      if length bs \<le> open_idx then out
      else
        let close_idx = first_from (\<lambda>b. b = matching_close open_byte) bs (open_idx + 1) in
        if length bs \<le> close_idx then out
        else
          let inner = slice (open_idx + 1) close_idx bs;
              parts = take (unat (max (xc_max_slots config) 1))
                (filter (\<lambda>part. part \<noteq> []) (split_on is_slot_separator inner)) in
          if length parts < 2 then slot_loop kind bs config open_byte (close_idx + 1) out
          else
            let out = push_candidate (slot_candidate kind open_byte inner parts) out in
            if 8 \<le> length out then out else slot_loop kind bs config open_byte (close_idx + 1) out)"
  by pat_completeness auto

termination
proof (relation "measure (\<lambda>(kind, bs, config, open_byte, cursor, out). length bs - cursor)", goal_cases)
  case 1
  show ?case by simp
next
  case (2 kind bs config open_byte cursor out open_idx close_idx inner parts)
  with first_from_ge [of cursor "\<lambda>b. b = open_byte" bs]
    first_from_ge [of "open_idx + 1" "\<lambda>b. b = matching_close open_byte" bs]
  show ?case by simp
next
  case (3 kind bs config open_byte cursor out open_idx close_idx inner parts out')
  with first_from_ge [of cursor "\<lambda>b. b = open_byte" bs]
    first_from_ge [of "open_idx + 1" "\<lambda>b. b = matching_close open_byte" bs]
  show ?case by simp
qed

declare slot_loop.simps [simp del]

fun slot_bearing_opens where
  "slot_bearing_opens kind bs config [] = []"
| "slot_bearing_opens kind bs config (open_byte # opens) =
     (let out = slot_loop kind bs config open_byte 0 [] in
      if out \<noteq> [] then out else slot_bearing_opens kind bs config opens)"

definition extract_slot_bearing_candidates where
  "extract_slot_bearing_candidates kind bs config = slot_bearing_opens kind bs config [0x7B, 0x5B, 0x28, 0x3C]"

section \<open>Fingerprints determine dependencies\<close>

lemma dependency_rank_inject: "dependency_rank d = dependency_rank e \<longleftrightarrow> d = e"
proof -
  have "inj (of_char :: char \<Rightarrow> nat)" by (auto intro: injI)
  then show ?thesis
    by (cases d; cases e) (auto simp: dependency_rank_def inj_map_eq_map word_unat_eq_iff)
qed

lemma sort_dependencies_iff:
  "sort_key dependency_rank ds = sort_key dependency_rank es \<longleftrightarrow> mset ds = mset es"
proof
  assume "sort_key dependency_rank ds = sort_key dependency_rank es"
  then show "mset ds = mset es" by (metis mset_sort)
next
  assume "mset ds = mset es"
  then show "sort_key dependency_rank ds = sort_key dependency_rank es"
    by (intro sort_key_inj_key_eq) (auto intro: inj_onI simp: dependency_rank_inject)
qed

definition id_is_text :: "ObjectDependency \<Rightarrow> bool" where
  "id_is_text d \<longleftrightarrow> 0xff \<notin> set (ascii_bytes (od_object_id d))"

lemma split_at_marker: "a @ m # x = b @ m # y \<Longrightarrow> m \<notin> set a \<Longrightarrow> m \<notin> set b \<Longrightarrow> a = b \<and> x = y"
proof (induction a arbitrary: b)
  case Nil
  then show ?case by (cases b) auto
next
  case (Cons c a)
  then show ?case by (cases b) auto
qed

lemma of_char_less: "(of_char c :: nat) < 2 ^ 8"
  by simp

lemma of_char_word: "(of_char c :: u8) = of_nat (of_char c)"
  by (cases c) (simp add: of_char_def)

lemma ascii_bytes_inject: "ascii_bytes a = ascii_bytes b \<longleftrightarrow> a = b"
proof -
  have "inj (of_char :: char \<Rightarrow> u8)"
  proof (rule injI)
    fix c d :: char
    assume "(of_char c :: u8) = of_char d"
    then have "of_nat (of_char c) = (of_nat (of_char d) :: u8)" unfolding of_char_word .
    from arg_cong [OF this, of unat] have "(of_char c :: nat) = of_char d"
      using of_char_less [of c] of_char_less [of d] by (simp only: unat_of_nat_u8)
    then show "c = d" by simp
  qed
  then show ?thesis by (simp add: ascii_bytes_def inj_map_eq_map)
qed

lemma dependency_material_prefix_free:
  assumes "dependency_material d @ x = dependency_material e @ y" "id_is_text d" "id_is_text e"
  shows "d = e \<and> x = y"
proof -
  have kinds: "(of_nat (ObjectKind_disc (od_object_kind d)) :: u8) = of_nat (ObjectKind_disc (od_object_kind e))"
    and tails: "le32 (od_required_revision d) @ ascii_bytes (od_object_id d) @ 0xff # x
      = le32 (od_required_revision e) @ ascii_bytes (od_object_id e) @ 0xff # y"
    using assms(1) by (simp_all add: dependency_material_def)
  have "ObjectKind_disc (od_object_kind d) = ObjectKind_disc (od_object_kind e)"
    using arg_cong [OF kinds, of unat] ObjectKind_disc_less [of "od_object_kind d"] ObjectKind_disc_less [of "od_object_kind e"]
    by (simp add: unat_of_nat_u8 del: unat_of_nat)
  moreover have "od_required_revision d = od_required_revision e"
    and ids: "ascii_bytes (od_object_id d) @ 0xff # x = ascii_bytes (od_object_id e) @ 0xff # y"
    using tails by simp_all
  moreover have "ascii_bytes (od_object_id d) = ascii_bytes (od_object_id e) \<and> x = y"
    using split_at_marker [OF ids] assms(2,3) by (simp add: id_is_text_def)
  ultimately show ?thesis by (cases d; cases e) (simp add: ascii_bytes_inject)
qed

lemma concat_material_inject:
  "concat (map dependency_material ds) = concat (map dependency_material es) \<Longrightarrow> list_all id_is_text ds \<Longrightarrow> list_all id_is_text es
    \<Longrightarrow> ds = es"
proof (induction ds arbitrary: es)
  case Nil
  then show ?case by (cases es) (auto simp: dependency_material_def)
next
  case (Cons d ds)
  then obtain e es' where es: "es = e # es'" by (cases es) (auto simp: dependency_material_def)
  from dependency_material_prefix_free [of d "concat (map dependency_material ds)" e "concat (map dependency_material es')"]
  have "d = e" "concat (map dependency_material ds) = concat (map dependency_material es')"
    using Cons.prems by (simp_all add: es)
  with Cons.IH [of es'] Cons.prems show ?case by (simp add: es)
qed

text \<open>The fingerprint of a dependency closure is taken of bytes that determine the closure up to the order of its
  entries: two closures give the same bytes exactly when they hold the same dependencies equally often.  Ids are
  UTF-8, in which the separator \<open>0xff\<close> does not occur.\<close>

theorem dependency_material_identifies:
  assumes "\<forall>d \<in> set ds \<union> set es. id_is_text d"
  shows "fingerprint_material ds = fingerprint_material es \<longleftrightarrow> mset ds = mset es"
proof
  assume "fingerprint_material ds = fingerprint_material es"
  then have "sort_key dependency_rank ds = sort_key dependency_rank es"
    unfolding fingerprint_material_def by (rule concat_material_inject) (use assms in \<open>auto simp: list_all_iff\<close>)
  then show "mset ds = mset es" by (simp add: sort_dependencies_iff)
next
  assume "mset ds = mset es"
  then show "fingerprint_material ds = fingerprint_material es"
    using sort_dependencies_iff [of ds es] by (simp add: fingerprint_material_def)
qed

lemma dependency_material_identifies_witness:
  "fingerprint_material [\<lparr>od_object_kind = OK_Schema, od_object_id = ''schema:5'', od_required_revision = 1\<rparr>,
      \<lparr>od_object_kind = OK_Assembly, od_object_id = ''assembly:2'', od_required_revision = 0\<rparr>]
    = fingerprint_material [\<lparr>od_object_kind = OK_Assembly, od_object_id = ''assembly:2'', od_required_revision = 0\<rparr>,
      \<lparr>od_object_kind = OK_Schema, od_object_id = ''schema:5'', od_required_revision = 1\<rparr>]"
  by (subst dependency_material_identifies) (simp_all add: id_is_text_def ascii_bytes_def)

section \<open>What candidates expand to\<close>

definition body_bytes :: "AssemblyBody \<Rightarrow> bytes" where
  "body_bytes body = concat (map (\<lambda>n. case inline_bytes n of Some bs \<Rightarrow> bs | None \<Rightarrow> []) body)"

abbreviation inline_body :: "AssemblyBody \<Rightarrow> bool" where
  "inline_body body \<equiv> list_all (\<lambda>n. \<not> is_span n) body"

lemma body_bytes_simps [simp]:
  "body_bytes [] = []"
  "body_bytes (n # body) = (case inline_bytes n of Some bs \<Rightarrow> bs | None \<Rightarrow> []) @ body_bytes body"
  "body_bytes (body @ body') = body_bytes body @ body_bytes body'"
  by (simp_all add: body_bytes_def)

lemma body_bytes_push [simp]: "body_bytes (push_bytes_as_assembly_nodes nodes bs) = body_bytes nodes @ bs"
  by (simp add: push_bytes_as_assembly_nodes_def)

lemma inline_body_push [simp]: "inline_body (push_bytes_as_assembly_nodes nodes bs) = inline_body nodes"
  by (simp add: push_bytes_as_assembly_nodes_def)

lemma expand_from: "inline_body body \<Longrightarrow>
  try_fold (\<lambda>out node. and_then (expand_node resolve node) (\<lambda>bs. Ok (out @ bs))) out body = Ok (out @ body_bytes body)"
proof (induction body arbitrary: out)
  case (Cons n body)
  then show ?case by (cases n) (simp_all add: expand_node_def)
qed simp

lemma expand_inline_body: "inline_body body \<Longrightarrow> expand_assembly_body body resolve = Ok (body_bytes body)"
  using expand_from [of body resolve "[]"] by (simp add: expand_assembly_body_def)

lemma body_output_len_inline:
  assumes "inline_body body" "length (body_bytes body) < 2 ^ 32"
  shows "unat (body_output_len body) = length (body_bytes body)"
proof -
  have "body_output_len body = of_nat (length (body_bytes body))"
    using assms
  proof (induction body)
    case (Cons n body)
    have "inline_bytes n = Some bs \<Longrightarrow> length bs < 2 ^ 32 \<Longrightarrow> node_output_len n = of_nat (length bs)" for bs
      by (cases n) (auto simp: len_u32_def)
    moreover obtain bs where "inline_bytes n = Some bs" using Cons.prems(1) by (cases n) auto
    ultimately show ?case using Cons by (simp add: body_output_len_def)
  qed (simp add: body_output_len_def)
  then show ?thesis using unat_of_nat_u32 [OF assms(2)] by simp
qed

lemma build_SomeD:
  assumes "build_assembly_candidate kind s slots body closure cue lo hi h = Some c"
  shows "ec_body c = body" "ec_canonical_length_min c = lo" "ec_canonical_length_max c = hi"
    "lo \<le> body_output_len body" "body_output_len body \<le> hi"
  using assms by (auto simp: build_assembly_candidate_def Let_def split: if_splits)

lemma set_push_candidate: "set (push_candidate c out) = set out \<union> set_option c"
  by (cases c) (auto simp: push_candidate_def)

lemma sublist_slice: "sublist (slice a b xs) xs"
proof (cases "a \<le> b")
  case True
  then have "xs = take a xs @ slice a b xs @ drop b xs"
    by (metis append_take_drop_id slice_append_drop)
  then show ?thesis by (metis sublist_def)
qed (simp add: slice_def)

lemma window_position_SomeD:
  assumes "window_position part xs = Some i"
  shows "i + length part \<le> length xs" "slice i (i + length part) xs = part"
  using assms by (auto simp: window_position_def dest: find_SomeD)

text \<open>A candidate that stands in the source: its body is inline and spells a piece of the source.\<close>

definition candidate_occurs :: "bytes \<Rightarrow> AssemblyExtractionCandidate \<Rightarrow> bool" where
  "candidate_occurs bs c \<longleftrightarrow> inline_body (ec_body c) \<and> sublist (body_bytes (ec_body c)) bs
     \<and> ec_canonical_length_min c \<le> body_output_len (ec_body c)
     \<and> body_output_len (ec_body c) \<le> ec_canonical_length_max c"

lemma build_occurs:
  "build_assembly_candidate kind s slots body closure cue lo hi h = Some c \<Longrightarrow> inline_body body \<Longrightarrow> sublist (body_bytes body) bs
    \<Longrightarrow> candidate_occurs bs c"
  using build_SomeD [of kind s slots body closure cue lo hi h c] by (simp add: candidate_occurs_def)

lemma motif_candidate_occurs: "motif_candidate kind motif = Some c \<Longrightarrow> sublist motif bs \<Longrightarrow> candidate_occurs bs c"
  unfolding motif_candidate_def Let_def by (erule build_occurs) simp_all

lemma contiguous_loop_occurs:
  "\<forall>c \<in> set out. candidate_occurs bs c \<Longrightarrow> c \<in> set (contiguous_loop kind bs min_len max_len starts out)
    \<Longrightarrow> candidate_occurs bs c"
proof (induction kind bs min_len max_len starts out arbitrary: c rule: contiguous_loop.induct)
  case (2 kind bs min_len max_len start starts out)
  define motif where "motif = slice start (start + min (length bs - start) max_len) bs"
  have next_out: "\<forall>c \<in> set (push_candidate (motif_candidate kind motif) out). candidate_occurs bs c"
    using 2(3) motif_candidate_occurs [of kind motif _ bs] sublist_slice [of start _ bs]
    by (auto simp: set_push_candidate motif_def)
  show ?case
    using 2 next_out
    by (simp add: Let_def flip: motif_def split: if_splits)
qed simp

lemma part_step_covers:
  assumes "part_step inner (nodes, at) p = (nodes', at')" "body_bytes nodes = head @ take at inner" "at \<le> length inner"
    "inline_body nodes"
  shows "body_bytes nodes' = head @ take at' inner \<and> at' \<le> length inner \<and> inline_body nodes'"
proof -
  obtain slot part where p: "p = (slot, part)" by (cases p)
  show ?thesis
  proof (cases "window_position part (drop at inner)")
    case None
    with assms p show ?thesis by (simp add: part_step_def)
  next
    case (Some i)
    have len: "at + i + length part \<le> length inner"
      and part: "slice (at + i) (at + i + length part) inner = part"
      using window_position_SomeD [OF Some] assms(3) by (simp_all add: slice_def add.commute)
    have "take at inner @ slice at (at + i) inner @ part = take (at + i + length part) inner"
      using slice_append_slice [of 0 at "at + i" inner] slice_append_slice [of 0 "at + i" "at + i + length part" inner]
        len part by (simp add: slice_0) (metis append.assoc)
    with assms p Some len show ?thesis
      by (auto simp: part_step_def Let_def)
  qed
qed

lemma parts_cover:
  assumes "foldl (part_step inner) (nodes, at) ps = (nodes', at')" "body_bytes nodes = head @ take at inner"
    "at \<le> length inner" "inline_body nodes"
  shows "body_bytes nodes' = head @ take at' inner \<and> at' \<le> length inner \<and> inline_body nodes'"
  using assms
proof (induction ps arbitrary: nodes at)
  case (Cons p ps)
  obtain nodes1 at1 where p: "part_step inner (nodes, at) p = (nodes1, at1)" by fastforce
  from Cons.IH [of nodes1 at1] part_step_covers [OF p Cons.prems(2-4)] Cons.prems(1) p show ?case by simp
qed auto

lemma slot_candidate_occurs:
  assumes "slot_candidate kind open_byte inner parts = Some c"
    "sublist (open_byte # inner @ [matching_close open_byte]) bs"
  shows "candidate_occurs bs c"
proof -
  define ps where "ps = zip (map (\<lambda>(idx, part). field_slot (of_nat idx)
    (cue_role_bits (derive_sparse_cue_from_bytes kind inner) OR role_flag idx) part) (enumerate 0 parts)) parts"
  obtain nodes at where run: "foldl (part_step inner)
      ([TypedBoundary (''open:'' @ [char_of (unat open_byte)]) [open_byte]], 0) ps = (nodes, at)" by fastforce
  from parts_cover [OF run, of "[open_byte]"]
  have "body_bytes nodes = open_byte # take at inner" "inline_body nodes" by simp_all
  with assms run show ?thesis
    unfolding slot_candidate_def Let_def ps_def [symmetric] by (auto intro!: build_occurs)
qed

lemma first_from_lessD:
  assumes "first_from P bs i < length bs"
  shows "i \<le> first_from P bs i" "P (bs ! first_from P bs i)"
  using assms by (auto simp: first_from_def dest: find_SomeD split: option.splits)

lemma delimited_sublist:
  assumes "a < b" "b < length bs"
  shows "sublist (bs ! a # slice (a + 1) b bs @ [bs ! b]) bs"
proof -
  have "slice a (b + 1) bs = slice a (a + 1) bs @ slice (a + 1) b bs @ slice b (b + 1) bs"
    using slice_append_slice [of "a + 1" b "b + 1" bs] slice_append_slice [of a "a + 1" "b + 1" bs] assms by simp
  then show ?thesis using sublist_slice [of a "b + 1" bs] assms slice_single [of a bs] slice_single [of b bs] by simp
qed

lemma slot_loop_occurs:
  "\<forall>c \<in> set out. candidate_occurs bs c \<Longrightarrow> c \<in> set (slot_loop kind bs config open_byte cursor out) \<Longrightarrow> candidate_occurs bs c"
proof (induction "length bs - cursor" arbitrary: cursor out rule: less_induct)
  case (less cursor out)
  define open_idx where "open_idx = first_from (\<lambda>b. b = open_byte) bs cursor"
  define close_idx where "close_idx = first_from (\<lambda>b. b = matching_close open_byte) bs (open_idx + 1)"
  define inner where "inner = slice (open_idx + 1) close_idx bs"
  define parts where "parts = take (unat (max (xc_max_slots config) 1)) (filter (\<lambda>part. part \<noteq> []) (split_on is_slot_separator inner))"
  define out' where "out' = push_candidate (slot_candidate kind open_byte inner parts) out"
  show ?case
  proof (cases "open_idx < length bs \<and> close_idx < length bs")
    case True
    then have "bs ! open_idx = open_byte" "bs ! close_idx = matching_close open_byte" and idx: "open_idx < close_idx"
      using first_from_lessD [of "\<lambda>b. b = open_byte" bs cursor]
        first_from_lessD [of "\<lambda>b. b = matching_close open_byte" bs "open_idx + 1"]
      by (simp_all add: open_idx_def close_idx_def)
    with delimited_sublist [of open_idx close_idx bs] True
    have "sublist (open_byte # inner @ [matching_close open_byte]) bs" by (simp add: inner_def)
    then have "\<forall>c \<in> set out'. candidate_occurs bs c"
      using less.prems(1) slot_candidate_occurs by (auto simp: out'_def set_push_candidate)
    moreover have step: "slot_loop kind bs config open_byte cursor out =
        (if length parts < 2 then slot_loop kind bs config open_byte (close_idx + 1) out
         else if 8 \<le> length out' then out' else slot_loop kind bs config open_byte (close_idx + 1) out')"
      using True unfolding open_idx_def close_idx_def inner_def parts_def out'_def
      by (subst slot_loop.simps) (simp add: Let_def)
    moreover have "cursor \<le> open_idx" unfolding open_idx_def by (rule first_from_ge)
    then have "length bs - (close_idx + 1) < length bs - cursor" using True idx by linarith
    note IH = less.hyps [OF this]
    ultimately show ?thesis using less.prems IH [of out] IH [of out'] by (simp split: if_splits)
  next
    case False
    then have "slot_loop kind bs config open_byte cursor out = out"
      unfolding open_idx_def close_idx_def by (subst slot_loop.simps) (auto simp: Let_def)
    with less.prems show ?thesis by simp
  qed
qed


lemma slot_bearing_occurs: "c \<in> set (slot_bearing_opens kind bs config opens) \<Longrightarrow> candidate_occurs bs c"
  using slot_loop_occurs [of "[]" bs c kind config _ 0]
  by (induction opens) (auto simp: Let_def split: if_splits)

text \<open>The candidates that the extractors of motifs and of slots propose are pieces of the source: their bodies
  expand without any resolver to bytes that stand in the source as one block, and whose number lies within the
  length contract of the candidate.\<close>

theorem extracted_candidates_occur:
  assumes "c \<in> set (extract_contiguous_motif_candidates kind bs config) \<union> set (extract_slot_bearing_candidates kind bs config)"
    "length bs < 2 ^ 32"
  shows "\<exists>out. expand_assembly_body (ec_body c) resolve = Ok out \<and> sublist out bs
    \<and> unat (ec_canonical_length_min c) \<le> length out \<and> length out \<le> unat (ec_canonical_length_max c)"
proof -
  have occurs: "candidate_occurs bs c"
    using assms(1) contiguous_loop_occurs [of "[]" bs c] slot_bearing_occurs [of c kind bs config]
    by (auto simp: extract_contiguous_motif_candidates_def extract_slot_bearing_candidates_def
        simp del: slot_bearing_opens.simps)
  then have "length (body_bytes (ec_body c)) < 2 ^ 32"
    using assms(2) sublist_length_le by (fastforce simp: candidate_occurs_def)
  with occurs show ?thesis
    using body_output_len_inline [of "ec_body c"]
    by (simp add: candidate_occurs_def expand_inline_body word_le_nat_alt)
qed

lemma motif_candidate_exists: "motif_candidate Text [1, 2] \<noteq> None"
  by (simp add: motif_candidate_def build_assembly_candidate_def Let_def body_output_len_def len_u32_def)

lemma sample_motif_found:
  "the (motif_candidate Text [1, 2]) \<in> set (extract_contiguous_motif_candidates Text [1, 2]
     \<lparr>xc_min_motif_len = 1, xc_max_motif_len = 2, xc_max_gap_bytes = 0, xc_max_slots = 0\<rparr>)"
  using motif_candidate_exists
  by (auto simp: extract_contiguous_motif_candidates_def slice_def push_candidate_def upt_rec)

lemma extracted_candidates_occur_witness:
  "\<exists>out. expand_assembly_body (ec_body (the (motif_candidate Text [1, 2]))) (\<lambda>_. None) = Ok out \<and> sublist out [1, 2]
    \<and> unat (ec_canonical_length_min (the (motif_candidate Text [1, 2]))) \<le> length out
    \<and> length out \<le> unat (ec_canonical_length_max (the (motif_candidate Text [1, 2])))"
  by (rule extracted_candidates_occur, rule UnI1, rule sample_motif_found) simp

end
