(* ===== verification/Pulzz_Transform.thy ===== *)
theory Pulzz_Transform
  imports Pulzz_Assembly
begin

text \<open>
  Transforms (\<open>shared_protocol/src/chpmt.rs\<close> and \<open>state.rs\<close>): classes, their success and failure, instances, definition
  and instance payloads with their plans, and the application of an instance to its bases.  The bincode encoder and
  decoder are parameters: functions to and from bytes that may fail with a message.  Parameters of instances are
  signed 32-bit words.
\<close>

section \<open>Classes and instances\<close>

record TransformParameterField =
  tf_name :: string
  tf_min_value :: u32
  tf_max_value :: u32
  tf_required :: bool

record TransformParameterSchema =
  ps_parameters :: "TransformParameterField list"
  ps_max_basis_count :: u8
  ps_residual_allowed :: bool

record TransformBasisMask =
  bm_allow_substrate :: bool
  bm_allow_assembly :: bool
  bm_allow_transform :: bool

definition basis_substrate_only :: TransformBasisMask where
  "basis_substrate_only = \<lparr>bm_allow_substrate = True, bm_allow_assembly = False, bm_allow_transform = False\<rparr>"

fun basis_admits :: "TransformBasisMask \<Rightarrow> ObjectKind \<Rightarrow> bool" where
  "basis_admits m OK_Assembly = bm_allow_assembly m"
| "basis_admits m OK_Transform = bm_allow_transform m"
| "basis_admits m OK_Schema = False"
| "basis_admits m OK_EpisodeHint = False"
| "basis_admits m OK_ReplayHint = False"
| "basis_admits m _ = bm_allow_substrate m"

record TransformOutputContract =
  to_min_output_len :: u32
  to_max_output_len :: u32
  to_preserves_delimiters :: bool
  to_deterministic :: bool

record TransformBasisRef =
  tb_object_kind :: ObjectKind
  tb_object_id :: string
  tb_start :: u32
  tb_len :: u32

record TransformDependencyClosure =
  td_substrate_object_ids :: "string list"
  td_assembly_ids :: "u64 list"
  td_transform_ids :: "u64 list"
  td_schema_ids :: "u64 list"
  td_max_decode_depth :: u8

record TransformRoutePrior =
  tp_planner_gain :: u32
  tp_route_win_count :: u32
  tp_route_loss_count :: u32
  tp_last_route_win_tick :: u64

record TransformSupportMetrics =
  tm_mean_residual_bytes :: u32
  tm_mean_decode_steps :: u32
  tm_last_residual_bytes :: u32
  tm_last_decode_steps :: u32

record TransformClass =
  tc_transform_id :: u64
  tc_source_kind :: SourceKind
  tc_transform_kind :: TransformKind
  tc_transducer_family :: TransformTransducerFamily
  tc_parameter_schema :: TransformParameterSchema
  tc_basis_mask :: TransformBasisMask
  tc_output_contract :: TransformOutputContract
  tc_invertible :: bool
  tc_dependency_closure :: TransformDependencyClosure
  tc_support_metrics :: TransformSupportMetrics
  tc_route_prior :: TransformRoutePrior
  tc_lifecycle :: ObjectLifecycleMeta
  tc_mean_residual_bytes :: u32
  tc_mean_decode_steps :: u32
  tc_reuse_savings :: u32
  tc_stability_score :: u32
  tc_failure_score :: u32
  tc_cue :: SparseCue

record TransformInstance =
  ti_class_id :: u64
  ti_basis_refs :: "TransformBasisRef list"
  ti_integer_parameters :: "u32 list"
  ti_residual_offsets :: "u32 list"
  ti_residual_bytes :: "bytes list"
  ti_dependency_closure :: TransformDependencyClosure
  ti_output_contract :: TransformOutputContract
  ti_invertibility_expected :: bool
  ti_output_len :: u32

fun default_family_for_kind :: "TransformKind \<Rightarrow> TransformTransducerFamily" where
  "default_family_for_kind TK_SlotSubstitution = TF_SlotBind"
| "default_family_for_kind TK_SchemaSlotFill = TF_SlotBind"
| "default_family_for_kind TK_BoundedSubstitution = TF_BoundedSubstitute"
| "default_family_for_kind TK_DelimiterPreservingRewrite = TF_DelimiterPreservingRewrite"
| "default_family_for_kind TK_RolePermutation = TF_RolePermutation"
| "default_family_for_kind TK_BoundedReorder = TF_BoundedReorder"
| "default_family_for_kind TK_MotifDuplicateCompress = TF_MotifDuplicateCompress"
| "default_family_for_kind TK_RepeatedMotifExpansion = TF_MotifDuplicateCompress"
| "default_family_for_kind TK_BoundedDuplication = TF_MotifDuplicateCompress"
| "default_family_for_kind TK_MirrorSymmetry = TF_MirrorSymmetry"
| "default_family_for_kind TK_LocalMirror = TF_MirrorSymmetry"
| "default_family_for_kind TK_SchemaConditionedExpansion = TF_SchemaConditionedExpansion"
| "default_family_for_kind TK_RecursiveMacroExpansion = TF_RecursiveMacroExpansion"
| "default_family_for_kind TK_TokenDictionarySubstitution = TF_TokenDictionary"
| "default_family_for_kind TK_PrefixInsert = TF_LegacyPatch"
| "default_family_for_kind TK_SuffixInsert = TF_LegacyPatch"
| "default_family_for_kind TK_Wrap = TF_LegacyPatch"
| "default_family_for_kind TK_BoundedInteriorInsert = TF_LegacyPatch"
| "default_family_for_kind TK_BoundedDelete = TF_LegacyPatch"
| "default_family_for_kind TK_CopyWithGap = TF_LegacyPatch"
| "default_family_for_kind TK_StridedSelection = TF_LegacyPatch"
| "default_family_for_kind TK_SpliceFromTwoBases = TF_LegacyPatch"

section \<open>Success and failure\<close>

definition transform_should_promote :: "TransformClass \<Rightarrow> u32 \<Rightarrow> u32 \<Rightarrow> u32 \<Rightarrow> u32 \<Rightarrow> bool" where
  "transform_should_promote c min_support min_stability_score min_reuse_savings max_failure_score \<longleftrightarrow>
     lm_support_count (tc_lifecycle c) \<ge> min_support \<and> tc_stability_score c \<ge> min_stability_score
     \<and> tc_reuse_savings c \<ge> min_reuse_savings \<and> tc_failure_score c \<le> max_failure_score"

fun demoted :: "PromotionLevel \<Rightarrow> PromotionLevel" where
  "demoted PL_Canonical = PL_Promoted"
| "demoted PL_Promoted = PL_Stable"
| "demoted PL_Stable = PL_Warm"
| "demoted PL_Warm = PL_Cold"
| "demoted PL_Cold = PL_Cold"

fun promoted_level :: "PromotionLevel \<Rightarrow> PromotionLevel" where
  "promoted_level PL_Cold = PL_Warm"
| "promoted_level PL_Warm = PL_Stable"
| "promoted_level PL_Stable = PL_Promoted"
| "promoted_level PL_Promoted = PL_Promoted"
| "promoted_level PL_Canonical = PL_Canonical"

definition transform_apply_failure_demotes :: "u64 \<Rightarrow> TransformClass \<Rightarrow> TransformClass" where
  "transform_apply_failure_demotes tick c =
     (let c = c\<lparr>tc_lifecycle := record_seen tick False (tc_lifecycle c),
            tc_failure_score := saturating_add (tc_failure_score c) 1,
            tc_stability_score := saturating_sub (tc_stability_score c) 1,
            tc_route_prior := (tc_route_prior c)\<lparr>
              tp_route_loss_count := saturating_add (tp_route_loss_count (tc_route_prior c)) 1,
              tp_planner_gain := saturating_sub (tp_planner_gain (tc_route_prior c)) 1\<rparr>\<rparr> in
      c\<lparr>tc_lifecycle := (tc_lifecycle c)\<lparr>lm_promotion_level := demoted (lm_promotion_level (tc_lifecycle c))\<rparr>\<rparr>)"

definition running_mean_u32 :: "u32 \<Rightarrow> u32 \<Rightarrow> u32 \<Rightarrow> u32" where
  "running_mean_u32 current samples observation =
     (if samples \<le> 1 then observation
      else saturating_add (saturating_mul current (saturating_sub samples 1)) observation div samples)"

definition route_prior_gain_delta :: "TransformClass \<Rightarrow> u32" where
  "route_prior_gain_delta c =
     (let stability = min (tc_stability_score c) 8;
          residual_bonus = min (saturating_sub (tc_mean_residual_bytes c)
            (tm_last_residual_bytes (tc_support_metrics c))) 8 in
      saturating_add (saturating_add 1 (stability div 2)) (residual_bonus div 4))"

definition transform_apply_success :: "u64 \<Rightarrow> u32 \<Rightarrow> u32 \<Rightarrow> u32 \<Rightarrow> TransformClass \<Rightarrow> TransformClass" where
  "transform_apply_success tick reuse_savings residual_bytes decode_steps c =
     (let c = c\<lparr>tc_lifecycle := record_seen tick True (tc_lifecycle c),
            tc_reuse_savings := saturating_add (tc_reuse_savings c) reuse_savings,
            tc_stability_score := saturating_add (tc_stability_score c) 1\<rparr>;
          samples = lm_success_count (tc_lifecycle c);
          c = c\<lparr>tc_mean_residual_bytes := running_mean_u32 (tc_mean_residual_bytes c) samples residual_bytes,
            tc_mean_decode_steps := running_mean_u32 (tc_mean_decode_steps c) samples decode_steps\<rparr>;
          c = c\<lparr>tc_support_metrics := \<lparr>tm_mean_residual_bytes = tc_mean_residual_bytes c,
              tm_mean_decode_steps = tc_mean_decode_steps c, tm_last_residual_bytes = residual_bytes,
              tm_last_decode_steps = decode_steps\<rparr>,
            tc_route_prior := (tc_route_prior c)\<lparr>
              tp_route_win_count := saturating_add (tp_route_win_count (tc_route_prior c)) 1,
              tp_last_route_win_tick := tick\<rparr>\<rparr>;
          c = c\<lparr>tc_route_prior := (tc_route_prior c)\<lparr>
              tp_planner_gain := saturating_add (tp_planner_gain (tc_route_prior c)) (route_prior_gain_delta c)\<rparr>\<rparr> in
      if transform_should_promote c 3 2 1 4
      then c\<lparr>tc_lifecycle := (tc_lifecycle c)\<lparr>lm_promotion_level := promoted_level (lm_promotion_level (tc_lifecycle c))\<rparr>\<rparr>
      else c)"

text \<open>The mean of observations that fit is between the old mean and the new observation.\<close>

lemma running_mean_between:
  assumes "unat current * (unat samples - 1) + unat observation < 2 ^ 32"
  shows "min (unat current) (unat observation) \<le> unat (running_mean_u32 current samples observation)
    \<and> unat (running_mean_u32 current samples observation) \<le> max (unat current) (unat observation)"
proof (cases "samples \<le> 1")
  case True
  then show ?thesis by (simp add: running_mean_u32_def)
next
  case False
  define k where "k = unat samples - 1"
  let ?c = "unat current" and ?o = "unat observation"
  have n: "unat samples = k + 1" using False by (auto simp: word_le_nat_alt k_def)
  have mean: "unat (running_mean_u32 current samples observation) = (?c * k + ?o) div (k + 1)"
    using False assms n by (simp add: running_mean_u32_def unat_div unat_saturating_add unat_saturating_mul unat_saturating_sub)
  have low: "min ?c ?o * (k + 1) \<le> ?c * k + ?o"
    using add_mono [of "min ?c ?o * k" "?c * k" "min ?c ?o" ?o] by simp
  have "?c * k + ?o \<le> max ?c ?o * (k + 1)"
    using add_mono [of "?c * k" "max ?c ?o * k" ?o "max ?c ?o"] by simp
  then have "(?c * k + ?o) div (k + 1) \<le> max ?c ?o * (k + 1) div (k + 1)" by (rule div_le_mono)
  also have "\<dots> = max ?c ?o" by (rule nonzero_mult_div_cancel_right) simp
  finally have "(?c * k + ?o) div (k + 1) \<le> max ?c ?o" .
  moreover have "min ?c ?o \<le> (?c * k + ?o) div (k + 1)" using low less_eq_div_iff_mult_less_eq [of "k + 1"] by simp
  ultimately show ?thesis by (simp only: mean)
qed


section \<open>Definition and instance payloads\<close>

type_synonym 'a bincode_read = "bytes \<Rightarrow> string + 'a \<times> nat"
type_synonym 'a bincode_write = "'a \<Rightarrow> string + bytes"

definition len_u16 :: "'a list \<Rightarrow> u16" where "len_u16 xs = of_nat (min (length xs) (2 ^ 16 - 1))"

abbreviation transform_error :: "TransformStateError \<Rightarrow> StateProgramError" where
  "transform_error e \<equiv> SE_Transform e"

record TransformInstallPlan =
  tip_class_id :: u64
  tip_transform_kind :: TransformKind
  tip_transducer_family :: TransformTransducerFamily
  tip_parameter_count :: u16
  tip_max_basis_count :: u8
  tip_basis_mask :: TransformBasisMask
  tip_output_contract :: TransformOutputContract
  tip_dependency_closure :: TransformDependencyClosure
  tip_invertible :: bool

definition install_plan_from_class :: "TransformClass \<Rightarrow> TransformInstallPlan" where
  "install_plan_from_class c =
     \<lparr>tip_class_id = tc_transform_id c, tip_transform_kind = tc_transform_kind c,
      tip_transducer_family = tc_transducer_family c, tip_parameter_count = len_u16 (ps_parameters (tc_parameter_schema c)),
      tip_max_basis_count = ps_max_basis_count (tc_parameter_schema c), tip_basis_mask = tc_basis_mask c,
      tip_output_contract = tc_output_contract c, tip_dependency_closure = tc_dependency_closure c,
      tip_invertible = tc_invertible c\<rparr>"

definition plan_matches_class :: "TransformInstallPlan \<Rightarrow> TransformClass \<Rightarrow> bool" where
  "plan_matches_class p c \<longleftrightarrow>
     tip_class_id p = tc_transform_id c \<and> tip_transform_kind p = tc_transform_kind c
     \<and> tip_transducer_family p = tc_transducer_family c
     \<and> tip_max_basis_count p = ps_max_basis_count (tc_parameter_schema c)
     \<and> unat (tip_parameter_count p) = length (ps_parameters (tc_parameter_schema c))
     \<and> tip_basis_mask p = tc_basis_mask c \<and> tip_output_contract p = tc_output_contract c
     \<and> tip_dependency_closure p = tc_dependency_closure c \<and> tip_invertible p = tc_invertible c"

record TransformDefPayload =
  tdp_version :: u8
  tdp_class :: TransformClass
  tdp_install_plan :: TransformInstallPlan

definition TRANSFORM_VERSION :: u8 where "TRANSFORM_VERSION = 1"

definition transform_def_new :: "TransformClass \<Rightarrow> TransformDefPayload" where
  "transform_def_new c = \<lparr>tdp_version = TRANSFORM_VERSION, tdp_class = c, tdp_install_plan = install_plan_from_class c\<rparr>"

definition transform_def_encode :: "TransformDefPayload bincode_write \<Rightarrow> TransformDefPayload \<Rightarrow> StateProgramError + bytes" where
  "transform_def_encode write p = map_err (\<lambda>m. transform_error (TransformPayloadSerialization m)) (write p)"

definition transform_def_decode :: "TransformDefPayload bincode_read \<Rightarrow> bytes \<Rightarrow> StateProgramError + TransformDefPayload" where
  "transform_def_decode read bs =
     and_then (map_err (\<lambda>m. transform_error (TransformPayloadSerialization m)) (read bs)) (\<lambda>(p, used).
       if tdp_version p \<noteq> TRANSFORM_VERSION then Err (transform_error (InvalidTransformPayloadVersion (tdp_version p)))
       else if \<not> plan_matches_class (tdp_install_plan p) (tdp_class p)
       then Err (dispatch_error ''transform install plan does not match class contract'')
       else Ok p)"

record TransformApplyPlan =
  tap_class_id :: u64
  tap_transform_kind :: TransformKind
  tap_transducer_family :: TransformTransducerFamily
  tap_basis_refs :: "TransformBasisRef list"
  tap_dependency_closure :: TransformDependencyClosure
  tap_output_contract :: TransformOutputContract
  tap_invertibility_expected :: bool
  tap_output_len :: u32
  tap_parameter_count :: u16
  tap_residual_count :: u16

definition apply_plan_from_parts :: "TransformClass \<Rightarrow> TransformInstance \<Rightarrow> TransformApplyPlan" where
  "apply_plan_from_parts c i =
     \<lparr>tap_class_id = ti_class_id i, tap_transform_kind = tc_transform_kind c,
      tap_transducer_family = tc_transducer_family c, tap_basis_refs = ti_basis_refs i,
      tap_dependency_closure = ti_dependency_closure i, tap_output_contract = ti_output_contract i,
      tap_invertibility_expected = ti_invertibility_expected i, tap_output_len = ti_output_len i,
      tap_parameter_count = len_u16 (ti_integer_parameters i), tap_residual_count = len_u16 (ti_residual_bytes i)\<rparr>"

text \<open>A payload is the version, what it takes from the class, the fields of the instance and the plan.\<close>

record TransformInstancePayload =
  tpl_version :: u8
  tpl_transform_kind :: TransformKind
  tpl_class_id :: u64
  tpl_transducer_family :: TransformTransducerFamily
  tpl_basis_refs :: "TransformBasisRef list"
  tpl_integer_parameters :: "u32 list"
  tpl_residual_offsets :: "u32 list"
  tpl_residual_bytes :: "bytes list"
  tpl_dependency_closure :: TransformDependencyClosure
  tpl_output_contract :: TransformOutputContract
  tpl_invertibility_expected :: bool
  tpl_output_len :: u32
  tpl_apply_plan :: TransformApplyPlan

definition payload_instance :: "TransformInstancePayload \<Rightarrow> TransformInstance" where
  "payload_instance p =
     \<lparr>ti_class_id = tpl_class_id p, ti_basis_refs = tpl_basis_refs p, ti_integer_parameters = tpl_integer_parameters p,
      ti_residual_offsets = tpl_residual_offsets p, ti_residual_bytes = tpl_residual_bytes p,
      ti_dependency_closure = tpl_dependency_closure p, ti_output_contract = tpl_output_contract p,
      ti_invertibility_expected = tpl_invertibility_expected p, ti_output_len = tpl_output_len p\<rparr>"

definition apply_plan_matches :: "TransformApplyPlan \<Rightarrow> TransformInstancePayload \<Rightarrow> bool" where
  "apply_plan_matches a p \<longleftrightarrow>
     tap_class_id a = tpl_class_id p \<and> tap_transform_kind a = tpl_transform_kind p
     \<and> tap_transducer_family a = tpl_transducer_family p \<and> tap_basis_refs a = tpl_basis_refs p
     \<and> tap_dependency_closure a = tpl_dependency_closure p \<and> tap_output_contract a = tpl_output_contract p
     \<and> tap_invertibility_expected a = tpl_invertibility_expected p \<and> tap_output_len a = tpl_output_len p
     \<and> unat (tap_parameter_count a) = length (tpl_integer_parameters p)
     \<and> unat (tap_residual_count a) = length (tpl_residual_bytes p)"

definition transform_payload_new :: "TransformClass \<Rightarrow> TransformInstance \<Rightarrow> TransformInstancePayload" where
  "transform_payload_new c i =
     \<lparr>tpl_version = TRANSFORM_VERSION, tpl_transform_kind = tc_transform_kind c, tpl_class_id = ti_class_id i,
      tpl_transducer_family = tc_transducer_family c, tpl_basis_refs = ti_basis_refs i,
      tpl_integer_parameters = ti_integer_parameters i, tpl_residual_offsets = ti_residual_offsets i,
      tpl_residual_bytes = ti_residual_bytes i, tpl_dependency_closure = ti_dependency_closure i,
      tpl_output_contract = ti_output_contract i, tpl_invertibility_expected = ti_invertibility_expected i,
      tpl_output_len = ti_output_len i, tpl_apply_plan = apply_plan_from_parts c i\<rparr>"

definition transform_payload_encode ::
  "TransformInstancePayload bincode_write \<Rightarrow> TransformInstancePayload \<Rightarrow> StateProgramError + bytes" where
  "transform_payload_encode write p = map_err (\<lambda>m. transform_error (TransformPayloadSerialization m)) (write p)"

definition transform_payload_decode ::
  "TransformInstancePayload bincode_read \<Rightarrow> bytes \<Rightarrow> StateProgramError + TransformInstancePayload" where
  "transform_payload_decode read bs =
     and_then (map_err (\<lambda>m. transform_error (TransformPayloadSerialization m)) (read bs)) (\<lambda>(p, used).
       if tpl_version p \<noteq> TRANSFORM_VERSION then Err (transform_error (InvalidTransformPayloadVersion (tpl_version p)))
       else if length (tpl_residual_offsets p) \<noteq> length (tpl_residual_bytes p)
       then Err (transform_error (TransformResidualContractMismatch (length (tpl_residual_offsets p))
              (length (tpl_residual_bytes p))))
       else if \<not> apply_plan_matches (tpl_apply_plan p) p
       then Err (dispatch_error ''transform apply plan does not match payload contract'')
       else Ok p)"

lemma unat_len_u16_iff: "unat (len_u16 xs) = length xs \<longleftrightarrow> length xs \<le> 65535"
  by (auto simp: len_u16_def unat_of_nat_u16 min_def split: if_splits)

lemma matches_new_iff:
  "apply_plan_matches (tpl_apply_plan (transform_payload_new c i)) (transform_payload_new c i)
    \<longleftrightarrow> length (ti_integer_parameters i) \<le> 65535 \<and> length (ti_residual_bytes i) \<le> 65535"
  by (simp add: apply_plan_matches_def apply_plan_from_parts_def transform_payload_new_def unat_len_u16_iff)

text \<open>The payload of an instance survives the wire: with a bincode reader that gives back what the writer wrote,
  the decoder accepts the encoded payload exactly when the instance has an offset for every residual and at most
  65535 parameters and residuals, and then returns the very instance.\<close>

theorem transform_instance_transported:
  assumes "write (transform_payload_new c i) = Ok bs" "read bs = Ok (transform_payload_new c i, used)"
  shows "((\<exists>p. transform_payload_decode read bs = Ok p) \<longleftrightarrow>
      length (ti_residual_offsets i) = length (ti_residual_bytes i)
      \<and> length (ti_integer_parameters i) \<le> 65535 \<and> length (ti_residual_bytes i) \<le> 65535)
    \<and> transform_payload_encode write (transform_payload_new c i) = Ok bs
    \<and> (\<forall>p. transform_payload_decode read bs = Ok p \<longrightarrow> payload_instance p = i)"
  using assms
  by (simp add: transform_payload_decode_def transform_payload_encode_def matches_new_iff)
    (auto simp: transform_payload_new_def payload_instance_def)

section \<open>Application\<close>

text \<open>The parameter at an index as \<open>usize\<close>, negative ones replaced by the given minimum.\<close>

definition param :: "TransformInstance \<Rightarrow> nat \<Rightarrow> nat \<Rightarrow> nat" where
  "param i minimum k = nat (max (sint (ti_integer_parameters i ! k)) (int minimum))"

definition kernel_slot_mask_check :: "nat \<Rightarrow> nat \<Rightarrow> nat \<Rightarrow> bool" where
  "kernel_slot_mask_check total_len start len =
     (if start > total_len \<or> start + len > total_len then False
      else if total_len \<le> 64 then
        let start = (of_nat (min start 63) :: u8); end = saturating_add start (of_nat (min len 64)) in
        list_all (\<lambda>slot. slot_mask_allows (- 1) (of_nat slot)) [unat start..<unat end]
      else True)"

definition transform_delimiter_inventory :: "bytes \<Rightarrow> bytes" where
  "transform_delimiter_inventory bs =
     sort (filter (\<lambda>b. b \<in> {0x2C, 0x3B, 0x3A, 0x7C, 0x2F, 0x20, 0x0A, 0x09}) bs)"

definition repeat_bytes :: "nat \<Rightarrow> bytes \<Rightarrow> bytes" where "repeat_bytes n bs = concat (replicate n bs)"

definition joined :: "bytes \<Rightarrow> nat \<Rightarrow> bytes \<Rightarrow> bytes" where
  "joined separator n bs = foldl (\<lambda>out idx. (if idx > 0 then out @ separator else out) @ bs) [] [0..<n]"

definition first_residual :: "bytes \<Rightarrow> TransformInstance \<Rightarrow> bytes" where
  "first_residual otherwise i = (case ti_residual_bytes i of [] \<Rightarrow> otherwise | r # _ \<Rightarrow> r)"

abbreviation arity_error :: "TransformKind \<Rightarrow> StateProgramError" where
  "arity_error k \<equiv> SE_Transform (InvalidTransformArity k)"

abbreviation parameter_error :: "TransformKind \<Rightarrow> StateProgramError" where
  "parameter_error k \<equiv> SE_Transform (InvalidTransformParameter k)"

text \<open>The slots are substituted from the last to the first.\<close>

definition substitute_slots :: "TransformKind \<Rightarrow> TransformInstance \<Rightarrow> bytes \<Rightarrow> StateProgramError + bytes" where
  "substitute_slots k i base =
     try_fold (\<lambda>out (idx, replacement).
         let start = param i 0 (idx * 2); len = param i 0 (idx * 2 + 1) in
         if \<not> kernel_slot_mask_check (length out) start len then Err (parameter_error k)
         else Ok (kernel_apply_patch out (start, start + len) replacement))
       base (rev (enumerate 0 (ti_residual_bytes i)))"

definition reorder_segments :: "TransformKind \<Rightarrow> TransformInstance \<Rightarrow> bytes \<Rightarrow> StateProgramError + bytes" where
  "reorder_segments k i base =
     (let start = param i 0 0; len = param i 0 1;
          delimiter = (of_int (min (max (sint (ti_integer_parameters i ! 2)) 0) 255) :: u8);
          replacement = ti_residual_bytes i ! 0 in
      if start > length base \<or> start + len > length base then Err (parameter_error k)
      else if length replacement \<noteq> len then Err (parameter_error k)
      else
        let base_segments = split_on (\<lambda>b. b = delimiter) (slice start (start + len) base);
            replacement_segments = split_on (\<lambda>b. b = delimiter) replacement in
        if length base_segments \<noteq> length replacement_segments then Err (parameter_error k)
        else if sort base_segments \<noteq> sort replacement_segments then Err (parameter_error k)
        else Ok (take start base @ replacement @ drop (start + len) base))"

text \<open>Cutting \<open>len\<close> bytes out at \<open>start\<close> and putting others in their place, as three of the kinds do.\<close>

definition replace_at :: "TransformKind \<Rightarrow> TransformInstance \<Rightarrow> bytes \<Rightarrow> bytes \<Rightarrow> StateProgramError + bytes" where
  "replace_at k i base replacement =
     (let start = param i 0 0; len = param i 0 1 in
      if start > length base \<or> start + len > length base then Err (parameter_error k)
      else Ok (take start base @ replacement @ drop (start + len) base))"

definition duplicate_motif :: "TransformKind \<Rightarrow> TransformInstance \<Rightarrow> bytes \<Rightarrow> StateProgramError + bytes" where
  "duplicate_motif k i base =
     (let start = param i 0 0; len = param i 0 1 in
      if start > length base \<or> start + len > length base then Err (parameter_error k)
      else Ok (base @ repeat_bytes (param i 0 2) (slice start (start + len) base)))"

text \<open>The number of bases, residuals and parameters that a kind asks for.\<close>

definition arity_ok :: "TransformKind \<Rightarrow> TransformInstance \<Rightarrow> nat \<Rightarrow> bool" where
  "arity_ok k i bases =
     (let residuals = length (ti_residual_bytes i); parameters = length (ti_integer_parameters i) in
      case k of
        TK_PrefixInsert \<Rightarrow> bases = 1 \<and> residuals = 1
      | TK_SuffixInsert \<Rightarrow> bases = 1 \<and> residuals = 1
      | TK_Wrap \<Rightarrow> bases = 1 \<and> residuals = 2
      | TK_BoundedInteriorInsert \<Rightarrow> bases = 1 \<and> residuals = 1 \<and> parameters \<ge> 1
      | TK_BoundedDelete \<Rightarrow> bases = 1 \<and> parameters \<ge> 2
      | TK_BoundedSubstitution \<Rightarrow> bases = 1 \<and> residuals = 1 \<and> parameters \<ge> 2
      | TK_RepeatedMotifExpansion \<Rightarrow> bases = 1 \<and> parameters \<ge> 1
      | TK_CopyWithGap \<Rightarrow> bases = 1 \<and> parameters \<ge> 2 \<and> residuals = 1
      | TK_SlotSubstitution \<Rightarrow> bases = 1 \<and> parameters > 0 \<and> parameters = residuals * 2
      | TK_SchemaSlotFill \<Rightarrow> bases = 1 \<and> parameters > 0 \<and> parameters = residuals * 2
      | TK_RolePermutation \<Rightarrow> bases = 1 \<and> parameters > 0
      | TK_DelimiterPreservingRewrite \<Rightarrow> bases = 1 \<and> residuals = 1
      | TK_LocalMirror \<Rightarrow> bases = 1
      | TK_BoundedDuplication \<Rightarrow> bases = 1 \<and> parameters \<ge> 3
      | TK_StridedSelection \<Rightarrow> bases = 1 \<and> parameters \<ge> 2
      | TK_SpliceFromTwoBases \<Rightarrow> bases = 2 \<and> parameters \<ge> 2
      | TK_BoundedReorder \<Rightarrow> bases = 1 \<and> parameters \<ge> 3 \<and> residuals = 1
      | TK_MotifDuplicateCompress \<Rightarrow> bases = 1 \<and> parameters \<ge> 3
      | TK_MirrorSymmetry \<Rightarrow> bases = 1
      | TK_SchemaConditionedExpansion \<Rightarrow> bases = 1 \<and> parameters \<ge> 1
      | TK_RecursiveMacroExpansion \<Rightarrow> bases = 1 \<and> parameters \<ge> 2
      | TK_TokenDictionarySubstitution \<Rightarrow> True)"

definition transform_output :: "TransformKind \<Rightarrow> TransformInstance \<Rightarrow> bytes list \<Rightarrow> StateProgramError + bytes" where
  "transform_output k i bases =
     (let base = bases ! 0; residual = (\<lambda>n. ti_residual_bytes i ! n) in
      if \<not> arity_ok k i (length bases) then Err (arity_error k)
      else case k of
        TK_PrefixInsert \<Rightarrow> Ok (residual 0 @ base)
      | TK_SuffixInsert \<Rightarrow> Ok (base @ residual 0)
      | TK_Wrap \<Rightarrow> Ok (residual 0 @ base @ residual 1)
      | TK_BoundedInteriorInsert \<Rightarrow>
          let offset = param i 0 0 in
          if offset > length base then Err (parameter_error k) else Ok (take offset base @ residual 0 @ drop offset base)
      | TK_BoundedDelete \<Rightarrow> replace_at k i base []
      | TK_BoundedSubstitution \<Rightarrow> replace_at k i base (residual 0)
      | TK_RepeatedMotifExpansion \<Rightarrow> Ok (repeat_bytes (param i 0 0) base)
      | TK_CopyWithGap \<Rightarrow> replace_at k i base (residual 0)
      | TK_SlotSubstitution \<Rightarrow> substitute_slots k i base
      | TK_SchemaSlotFill \<Rightarrow> substitute_slots k i base
      | TK_RolePermutation \<Rightarrow> Ok (concat (rev (chunks (param i 1 0) base)))
      | TK_DelimiterPreservingRewrite \<Rightarrow>
          if transform_delimiter_inventory base \<noteq> transform_delimiter_inventory (residual 0)
          then Err (parameter_error k) else Ok (residual 0)
      | TK_LocalMirror \<Rightarrow> Ok (base @ rev base)
      | TK_BoundedDuplication \<Rightarrow> duplicate_motif k i base
      | TK_StridedSelection \<Rightarrow>
          let offset = param i 0 0; stride = param i 1 1 in
          Ok (map (nth base) (filter (\<lambda>p. (p - offset) mod stride = 0) [offset..<length base]))
      | TK_SpliceFromTwoBases \<Rightarrow>
          let left_len = param i 0 0; right_start = param i 0 1 in
          if left_len > length (bases ! 0) \<or> right_start > length (bases ! 1) then Err (parameter_error k)
          else Ok (take left_len (bases ! 0) @ drop right_start (bases ! 1))
      | TK_BoundedReorder \<Rightarrow> reorder_segments k i base
      | TK_MotifDuplicateCompress \<Rightarrow> duplicate_motif k i base
      | TK_MirrorSymmetry \<Rightarrow> Ok (base @ rev base)
      | TK_SchemaConditionedExpansion \<Rightarrow> Ok (joined (first_residual [0x7C] i) (param i 1 0) base)
      | TK_RecursiveMacroExpansion \<Rightarrow>
          let depth = param i 0 0 in
          if depth > unat (td_max_decode_depth (ti_dependency_closure i)) then Err (parameter_error k)
          else Ok ((joined (first_residual [] i) (param i 1 1) ^^ depth) base)
      | TK_TokenDictionarySubstitution \<Rightarrow> Err (parameter_error k))"

definition apply_transform_instance ::
  "TransformClass \<Rightarrow> TransformInstance \<Rightarrow> (TransformBasisRef \<Rightarrow> bytes option) \<Rightarrow> StateProgramError + bytes" where
  "apply_transform_instance c i resolve_basis =
     (if tc_transform_id c \<noteq> ti_class_id i
      then Err (dispatch_error ''transform instance class id does not match installed class'')
      else if length (ti_residual_offsets i) \<noteq> length (ti_residual_bytes i)
      then Err (SE_Transform (TransformResidualContractMismatch (length (ti_residual_offsets i)) (length (ti_residual_bytes i))))
      else if ti_output_contract i \<noteq> tc_output_contract c
      then Err (dispatch_error ''transform instance output contract does not match class'')
      else if ti_dependency_closure i \<noteq> tc_dependency_closure c
      then Err (dispatch_error ''transform dependency closure does not match installed class'')
      else if ti_invertibility_expected i \<and> \<not> tc_invertible c
      then Err (dispatch_error ''transform instance requires invertible class semantics'')
      else if list_ex (\<lambda>basis. \<not> basis_admits (tc_basis_mask c) (tb_object_kind basis)) (ti_basis_refs i)
      then Err (SE_Transform (TransformBasisKindMismatch (tc_transform_kind c)))
      else and_then (try_map (\<lambda>basis. ok_or (SE_Transform (MissingTransformBasis (tb_object_kind basis) (tb_object_id basis)))
               (resolve_basis basis)) (ti_basis_refs i)) (\<lambda>bases.
        and_then (transform_output (tc_transform_kind c) i bases) (\<lambda>out.
          let output_len = (of_nat (length out) :: u32) in
          if output_len \<noteq> ti_output_len i then Err (SE_Transform (TransformOutputLenMismatch (ti_output_len i) output_len))
          else if output_len < to_min_output_len (tc_output_contract c) \<or> output_len > to_max_output_len (tc_output_contract c)
          then Err (SE_Transform (TransformOutputLenContract (to_min_output_len (tc_output_contract c))
                 (to_max_output_len (tc_output_contract c)) output_len))
          else Ok out)))"

lemma unat_min_u8: "n \<le> 64 \<Longrightarrow> unat (of_nat n :: u8) = n"
  by (simp add: unat_of_nat_u8)

text \<open>The mask test adds nothing to the test of the range.\<close>

lemma kernel_slot_mask_check_iff: "kernel_slot_mask_check total_len start len \<longleftrightarrow> start + len \<le> total_len"
proof (cases "start + len \<le> total_len \<and> total_len \<le> 64")
  case True
  then have "list_all (\<lambda>slot. slot_mask_allows (- 1) (of_nat slot)) [min start 63..<min start 63 + len]"
    by (auto simp: list_all_iff slot_mask_allows_def unat_of_nat_u8 simp del: unat_of_nat)
  with True show ?thesis
    by (simp add: kernel_slot_mask_check_def unat_saturating_add unat_min_u8 min_def Let_def del: unat_of_nat)
next
  case False
  then show ?thesis by (auto simp: kernel_slot_mask_check_def)
qed

section \<open>Slots are replaced where they stand\<close>

text \<open>A base cut into pieces: a gap, the bytes of a slot, and the bytes to put there.\<close>

type_synonym slot_piece = "bytes \<times> bytes \<times> bytes"

definition pieces_before :: "slot_piece list \<Rightarrow> bytes" where "pieces_before ps = concat (map (\<lambda>(gap, old, new). gap @ old) ps)"
definition pieces_after :: "slot_piece list \<Rightarrow> bytes" where "pieces_after ps = concat (map (\<lambda>(gap, old, new). gap @ new) ps)"

definition slot_start :: "slot_piece list \<Rightarrow> nat \<Rightarrow> nat" where
  "slot_start ps idx = length (pieces_before (take idx ps)) + length (fst (ps ! idx))"

definition slots_described :: "slot_piece list \<Rightarrow> TransformInstance \<Rightarrow> bool" where
  "slots_described ps i \<longleftrightarrow> list_all (\<lambda>idx. param i 0 (idx * 2) = slot_start ps idx
     \<and> param i 0 (idx * 2 + 1) = length (fst (snd (ps ! idx)))) [0..<length ps]"

lemma slots_described_snoc:
  "slots_described (ps @ [(gap, old, new)]) i \<longleftrightarrow> slots_described ps i
    \<and> param i 0 (length ps * 2) = length (pieces_before ps) + length gap \<and> param i 0 (length ps * 2 + 1) = length old"
proof -
  have "slot_start (ps @ [(gap, old, new)]) idx = slot_start ps idx" if "idx < length ps" for idx
    using that by (simp add: slot_start_def nth_append)
  then show ?thesis by (auto simp: slots_described_def list_all_iff nth_append slot_start_def)
qed

lemma substitute_slots_pieces:
  "slots_described ps i \<Longrightarrow>
    try_fold (\<lambda>out (idx, replacement).
         let start = param i 0 (idx * 2); len = param i 0 (idx * 2 + 1) in
         if \<not> kernel_slot_mask_check (length out) start len then Err (parameter_error k)
         else Ok (kernel_apply_patch out (start, start + len) replacement))
       (pieces_before ps @ rest) (rev (enumerate 0 (map (\<lambda>(gap, old, new). new) ps))) = Ok (pieces_after ps @ rest)"
proof (induction ps arbitrary: rest rule: rev_induct)
  case Nil
  then show ?case by (simp add: pieces_before_def pieces_after_def)
next
  case (snoc p ps)
  obtain gap old new where p: "p = (gap, old, new)" by (cases p)
  note described = iffD1 [OF slots_described_snoc snoc.prems [unfolded p]]
  have "kernel_apply_patch (pieces_before ps @ gap @ old @ rest)
      (length (pieces_before ps) + length gap, length (pieces_before ps) + length gap + length old) new
      = pieces_before ps @ gap @ new @ rest"
    by (simp add: kernel_apply_patch_def)
  with described snoc.IH [of "gap @ new @ rest"] show ?case
    by (simp add: p enumerate_append_eq Let_def kernel_slot_mask_check_iff pieces_before_def pieces_after_def)
qed

text \<open>C29: a slot substitution rewrites the slots and nothing else: when the parameters name where the slots stand in
  the base, the output is the base with the residuals in the places of the slots, although the slots are written one
  after the other into a buffer whose length changes.\<close>

theorem slot_substitution_rewrites_slots:
  assumes "slots_described ps i" "ps \<noteq> []" "length (ti_integer_parameters i) = 2 * length ps"
    "ti_residual_bytes i = map (\<lambda>(gap, old, new). new) ps" "k \<in> {TK_SlotSubstitution, TK_SchemaSlotFill}"
  shows "transform_output k i [pieces_before ps @ rest] = Ok (pieces_after ps @ rest)"
proof -
  have "arity_ok k i 1" using assms(2-5) by (auto simp: arity_ok_def)
  moreover have "substitute_slots k i (pieces_before ps @ rest) = Ok (pieces_after ps @ rest)"
    using substitute_slots_pieces [OF assms(1)] by (simp add: substitute_slots_def assms(4))
  ultimately show ?thesis using assms(5) by (auto simp: transform_output_def)
qed

definition sample_instance :: TransformInstance where
  "sample_instance = \<lparr>ti_class_id = 1, ti_basis_refs = [], ti_integer_parameters = [1, 2, 4, 1], ti_residual_offsets = [0, 0],
     ti_residual_bytes = [[10], [11, 12, 13]],
     ti_dependency_closure = \<lparr>td_substrate_object_ids = [], td_assembly_ids = [], td_transform_ids = [], td_schema_ids = [],
       td_max_decode_depth = 0\<rparr>,
     ti_output_contract = \<lparr>to_min_output_len = 0, to_max_output_len = 9, to_preserves_delimiters = False,
       to_deterministic = True\<rparr>,
     ti_invertibility_expected = False, ti_output_len = 7\<rparr>"

lemma slot_substitution_rewrites_slots_witness:
  "transform_output TK_SlotSubstitution sample_instance [[1, 2, 3, 4, 5, 6]] = Ok [1, 10, 4, 11, 12, 13, 6]"
proof -
  have described: "slots_described [([1], [2, 3], [10]), ([4], [5], [11, 12, 13])] sample_instance"
    by (simp add: slots_described_def param_def slot_start_def pieces_before_def sample_instance_def upt_rec numeral_2_eq_2)
  show ?thesis
    using slot_substitution_rewrites_slots [OF described, of TK_SlotSubstitution "[6]"]
    by (simp add: sample_instance_def pieces_before_def pieces_after_def)
qed

lemma transform_instance_transported_witness:
  "\<forall>c. \<exists>p. transform_payload_decode (\<lambda>bs. Ok (transform_payload_new c sample_instance, length bs)) [7] = Ok p
    \<and> payload_instance p = sample_instance"
proof
  fix c
  show "\<exists>p. transform_payload_decode (\<lambda>bs. Ok (transform_payload_new c sample_instance, length bs)) [7] = Ok p
      \<and> payload_instance p = sample_instance"
    using transform_instance_transported [of "\<lambda>p. Ok [7]" c sample_instance "[7]"
        "\<lambda>bs. Ok (transform_payload_new c sample_instance, length bs)" 1]
    by (auto simp: sample_instance_def)
qed

end
