(* ===== verification/Pulzz_Web_Cache.thy ===== *)
theory Pulzz_Web_Cache
  imports Pulzz_Transform "HOL-Library.AList"
begin

text \<open>
  The client's source cache on native targets (\<open>client/src/source_cache.rs\<close>): objects, assemblies and transform
  classes in memory with the sparse index over them.  The platform functions of these targets store nothing and find
  nothing.  A \<open>HashMap\<close> is an association list without repeated keys; which key its iterator yields first is not
  specified, so that choice is the parameter \<open>first_key\<close>.
\<close>

section \<open>The cache\<close>

record CachedPredictiveObject =
  cp_descriptor :: SourceDescriptor
  cp_object_key :: PredictiveObjectKey
  cp_cue :: SparseCue
  cp_object :: ChpmtObject

record WebSourceCache =
  wc_memory_cache_entries :: nat
  wc_dedup_enabled :: bool
  wc_memory_objects :: "(string \<times> CachedPredictiveObject) list"
  wc_memory_assemblies :: "string \<rightharpoonup> Assembly"
  wc_memory_transforms :: "string \<rightharpoonup> TransformClass"
  wc_sparse_index :: SparseIndexTable

definition web_cache_new :: "nat \<Rightarrow> bool \<Rightarrow> WebSourceCache" where
  "web_cache_new entries dedup =
     \<lparr>wc_memory_cache_entries = entries, wc_dedup_enabled = dedup, wc_memory_objects = [],
      wc_memory_assemblies = Map.empty, wc_memory_transforms = Map.empty, wc_sparse_index = []\<rparr>"

definition web_cache_default :: WebSourceCache where
  "web_cache_default = web_cache_new 256 True"

definition cached_chpmt_object :: "SourceDescriptor \<Rightarrow> PredictiveObjectKey \<Rightarrow> bytes \<Rightarrow> CachedPredictiveObject" where
  "cached_chpmt_object d key exact_bytes =
     (let cue = sc_cue (structural_cue_summary d exact_bytes) in
      \<lparr>cp_descriptor = d, cp_object_key = key, cp_cue = cue,
       cp_object = \<lparr>co_descriptor = d, co_object_key = key, co_source_kind = sd_kind d,
         co_object_kind = pk_object_kind key, co_cue = cue, co_exact_bytes = exact_bytes\<rparr>\<rparr>)"

definition default_lifecycle_meta :: "SparseCue \<Rightarrow> ObjectLifecycleMeta" where
  "default_lifecycle_meta cue =
     lifecycle_default\<lparr>lm_support_count := 1,
       lm_salience := of_nat (count_ones (cue_family_bits cue) + count_ones (cue_role_bits cue)
         + count_ones (cue_delimiter_bits cue) + count_ones (cue_length_bucket_bits cue)
         + count_ones (cue_temporal_bits cue)), lm_promotion_level := PL_Cold\<rparr>"

definition insert_sparse_index_entry :: "sha \<Rightarrow> CachedPredictiveObject \<Rightarrow> WebSourceCache \<Rightarrow> WebSourceCache" where
  "insert_sparse_index_entry sha cached c =
     (let kind = sd_kind (cp_descriptor cached) in
      c\<lparr>wc_sparse_index := index_insert
          \<lparr>ik_source_kind = kind, ik_family = source_cue_family kind, ik_cue = cp_cue cached\<rparr>
          \<lparr>ie_object_id = object_storage_key sha (cp_object_key cached), ie_source_kind = kind,
           ie_object_kind = pk_object_kind (cp_object_key cached), ie_cue = cp_cue cached,
           ie_lifecycle = default_lifecycle_meta (cp_cue cached)\<rparr> (wc_sparse_index c)\<rparr>)"

text \<open>At capacity some entry is removed first, even when the key is there already.\<close>

definition insert_object_memory ::
  "((string \<times> CachedPredictiveObject) list \<Rightarrow> string) \<Rightarrow> string \<Rightarrow> CachedPredictiveObject \<Rightarrow> WebSourceCache \<Rightarrow> WebSourceCache"
where
  "insert_object_memory first_key key cached c =
     (let objects = wc_memory_objects c;
          objects = (if wc_memory_cache_entries c \<le> length objects \<and> objects \<noteq> []
            then AList.delete (first_key objects) objects else objects) in
      c\<lparr>wc_memory_objects := AList.update key cached objects\<rparr>)"

definition store_chpmt_object ::
  "sha \<Rightarrow> ((string \<times> CachedPredictiveObject) list \<Rightarrow> string) \<Rightarrow> SourceDescriptor \<Rightarrow> PredictiveObjectKey \<Rightarrow> bytes
    \<Rightarrow> WebSourceCache \<Rightarrow> WebSourceCache" where
  "store_chpmt_object sha first_key d key exact_bytes c =
     (let cached = cached_chpmt_object d key exact_bytes in
      insert_object_memory first_key (object_storage_key sha key) cached (insert_sparse_index_entry sha cached c))"

definition lookup_object_material :: "sha \<Rightarrow> PredictiveObjectKey \<Rightarrow> WebSourceCache \<Rightarrow> CachedPredictiveObject option" where
  "lookup_object_material sha key c = map_of (wc_memory_objects c) (object_storage_key sha key)"

record WebSourceLookupResult =
  wl_cached :: CachedPredictiveObject
  wl_cache_hit :: bool

definition lookup_or_materialize ::
  "sha \<Rightarrow> ((string \<times> CachedPredictiveObject) list \<Rightarrow> string) \<Rightarrow> PreparedSource
    \<Rightarrow> (SourceDescriptor \<Rightarrow> bytes \<Rightarrow> 'e + bytes) \<Rightarrow> WebSourceCache \<Rightarrow> WebSourceCache \<times> ('e + WebSourceLookupResult)" where
  "lookup_or_materialize sha first_key prepared materialize c =
     (let d = ps_descriptor prepared; key = runtime_object_key_from_bytes d (ps_canonical_bytes prepared) in
      case (if wc_dedup_enabled c then lookup_object_material sha key c else None) of
        Some cached \<Rightarrow> (c, Ok \<lparr>wl_cached = cached, wl_cache_hit = True\<rparr>)
      | None \<Rightarrow>
          (case materialize d (ps_canonical_bytes prepared) of
             Inl e \<Rightarrow> (c, Err e)
           | Inr exact_bytes \<Rightarrow>
               (if wc_dedup_enabled c then store_chpmt_object sha first_key d key exact_bytes c else c,
                Ok \<lparr>wl_cached = cached_chpmt_object d key exact_bytes, wl_cache_hit = False\<rparr>)))"

section \<open>Assemblies and transform classes\<close>

definition assembly_object_id :: "u64 \<Rightarrow> string" where "assembly_object_id i = ''assembly:'' @ show_nat (unat i)"
definition transform_object_id :: "u64 \<Rightarrow> string" where "transform_object_id i = ''transform:'' @ show_nat (unat i)"

definition store_assembly :: "Assembly \<Rightarrow> WebSourceCache \<Rightarrow> WebSourceCache" where
  "store_assembly a c =
     (let key = assembly_object_id (as_assembly_id a) in
      c\<lparr>wc_memory_assemblies := (wc_memory_assemblies c)(key \<mapsto> a),
        wc_sparse_index := index_insert
          \<lparr>ik_source_kind = as_source_kind a, ik_family = source_cue_family (as_source_kind a), ik_cue = as_cue a\<rparr>
          \<lparr>ie_object_id = key, ie_source_kind = as_source_kind a, ie_object_kind = OK_Assembly, ie_cue = as_cue a,
           ie_lifecycle = as_lifecycle a\<rparr> (wc_sparse_index c)\<rparr>)"

definition lookup_assembly :: "u64 \<Rightarrow> WebSourceCache \<Rightarrow> Assembly option" where
  "lookup_assembly i c = wc_memory_assemblies c (assembly_object_id i)"

definition store_transform_class :: "TransformClass \<Rightarrow> WebSourceCache \<Rightarrow> WebSourceCache" where
  "store_transform_class t c =
     (let key = transform_object_id (tc_transform_id t) in
      c\<lparr>wc_memory_transforms := (wc_memory_transforms c)(key \<mapsto> t),
        wc_sparse_index := index_insert
          \<lparr>ik_source_kind = tc_source_kind t, ik_family = source_cue_family (tc_source_kind t), ik_cue = tc_cue t\<rparr>
          \<lparr>ie_object_id = key, ie_source_kind = tc_source_kind t, ie_object_kind = OK_Transform, ie_cue = tc_cue t,
           ie_lifecycle = tc_lifecycle t\<rparr> (wc_sparse_index c)\<rparr>)"

definition lookup_transform_class :: "u64 \<Rightarrow> WebSourceCache \<Rightarrow> TransformClass option" where
  "lookup_transform_class i c = wc_memory_transforms c (transform_object_id i)"

definition lookup_kind_candidates :: "ObjectKind \<Rightarrow> CompletionQuery \<Rightarrow> WebSourceCache \<Rightarrow> CompletionCandidate list" where
  "lookup_kind_candidates kind q c =
     index_query (wc_sparse_index c)
       (if kind \<in> set (cq_admissible_object_kinds q) then q
        else q\<lparr>cq_admissible_object_kinds := cq_admissible_object_kinds q @ [kind]\<rparr>)"

definition lookup_assembly_candidates :: "CompletionQuery \<Rightarrow> WebSourceCache \<Rightarrow> CompletionCandidate list" where
  "lookup_assembly_candidates = lookup_kind_candidates OK_Assembly"

definition lookup_transform_candidates :: "CompletionQuery \<Rightarrow> WebSourceCache \<Rightarrow> CompletionCandidate list" where
  "lookup_transform_candidates = lookup_kind_candidates OK_Transform"

section \<open>What the cache keeps\<close>

definition picks_a_key :: "((string \<times> 'v) list \<Rightarrow> string) \<Rightarrow> bool" where
  "picks_a_key first_key \<longleftrightarrow> (\<forall>xs. xs \<noteq> [] \<longrightarrow> first_key xs \<in> fst ` set xs)"

lemma length_delete_key:
  "k \<in> fst ` set xs \<Longrightarrow> length (AList.delete k xs) < length xs"
  by (induction xs) (auto simp: AList.delete_eq le_imp_less_Suc)

lemma length_update_le: "length (AList.update k v xs) \<le> Suc (length xs)"
  by (induction xs) auto

lemma update_keeps_length: "k \<in> fst ` set xs \<Longrightarrow> length (AList.update k v xs) = length xs"
  by (induction xs) auto

lemma insert_object_memory_bound:
  assumes "picks_a_key first_key" and "length (wc_memory_objects c) \<le> max 1 (wc_memory_cache_entries c)"
  shows "length (wc_memory_objects (insert_object_memory first_key key cached c)) \<le> max 1 (wc_memory_cache_entries c)"
proof (cases "wc_memory_cache_entries c \<le> length (wc_memory_objects c) \<and> wc_memory_objects c \<noteq> []")
  case True
  let ?xs = "AList.delete (first_key (wc_memory_objects c)) (wc_memory_objects c)"
  from True assms(1) have "length ?xs < length (wc_memory_objects c)"
    by (intro length_delete_key) (simp add: picks_a_key_def)
  with assms(2) length_update_le [of key cached ?xs] True show ?thesis
    by (simp add: insert_object_memory_def Let_def)
next
  case False
  with length_update_le [of key cached "wc_memory_objects c"] show ?thesis
    by (auto simp: insert_object_memory_def Let_def split: if_splits)
qed

lemma store_keeps_config [simp]:
  "wc_dedup_enabled (store_chpmt_object sha first_key d key exact_bytes c) = wc_dedup_enabled c"
  "wc_memory_cache_entries (store_chpmt_object sha first_key d key exact_bytes c) = wc_memory_cache_entries c"
  by (simp_all add: store_chpmt_object_def insert_object_memory_def insert_sparse_index_entry_def Let_def)

lemma store_bound:
  assumes "picks_a_key first_key" and "length (wc_memory_objects c) \<le> max 1 (wc_memory_cache_entries c)"
  shows "length (wc_memory_objects (store_chpmt_object sha first_key d key exact_bytes c)) \<le> max 1 (wc_memory_cache_entries c)"
  using insert_object_memory_bound [OF assms(1), of "insert_sparse_index_entry sha (cached_chpmt_object d key exact_bytes) c"]
    assms(2)
  by (simp add: store_chpmt_object_def insert_sparse_index_entry_def Let_def)

lemma store_then_lookup:
  "lookup_object_material sha key (store_chpmt_object sha first_key d key exact_bytes c)
    = Some (cached_chpmt_object d key exact_bytes)"
  by (simp add: lookup_object_material_def store_chpmt_object_def insert_object_memory_def insert_sparse_index_entry_def
      Let_def update_conv')

text \<open>Once a source was looked up or materialized, the cache answers the next lookup from memory with the same
  object, within its capacity: a successful call leaves no more objects than the configured number (or one), and after
  it every materializer is bypassed.\<close>

theorem materialized_source_is_kept:
  assumes "lookup_or_materialize sha first_key prepared materialize c = (c', Ok r)" "wc_dedup_enabled c"
    "picks_a_key first_key" "length (wc_memory_objects c) \<le> max 1 (wc_memory_cache_entries c)"
  shows "lookup_or_materialize sha first_key prepared other c' = (c', Ok (r\<lparr>wl_cache_hit := True\<rparr>))
    \<and> length (wc_memory_objects c') \<le> max 1 (wc_memory_cache_entries c)"
proof -
  let ?key = "runtime_object_key_from_bytes (ps_descriptor prepared) (ps_canonical_bytes prepared)"
  show ?thesis
  proof (cases "lookup_object_material sha ?key c")
    case (Some cached)
    with assms show ?thesis by (auto simp: lookup_or_materialize_def Let_def)
  next
    case None
    then obtain exact_bytes where run: "materialize (ps_descriptor prepared) (ps_canonical_bytes prepared) = Ok exact_bytes"
      and c': "c' = store_chpmt_object sha first_key (ps_descriptor prepared) ?key exact_bytes c"
      and r: "r = \<lparr>wl_cached = cached_chpmt_object (ps_descriptor prepared) ?key exact_bytes, wl_cache_hit = False\<rparr>"
      using assms(1,2) by (auto simp: lookup_or_materialize_def Let_def split: sum.splits)
    with assms(2) store_bound [OF assms(3,4)] show ?thesis
      by (simp add: lookup_or_materialize_def Let_def store_then_lookup)
  qed
qed

definition sample_prepared :: PreparedSource where
  "sample_prepared = \<lparr>ps_descriptor = \<lparr>sd_kind = Binary, sd_source_hash = [], sd_byte_len = 1, sd_mime = None, sd_label = None\<rparr>,
     ps_canonical_bytes = [7], ps_preprocess_steps = []\<rparr>"

lemma materialized_source_is_kept_witness:
  "\<exists>c' r. lookup_or_materialize id (\<lambda>xs. fst (hd xs)) sample_prepared (\<lambda>d bs. Inr bs :: string + bytes) (web_cache_new 0 True) = (c', Ok r)
    \<and> lookup_or_materialize id (\<lambda>xs. fst (hd xs)) sample_prepared (\<lambda>d bs. Err ()) c' = (c', Ok (r\<lparr>wl_cache_hit := True\<rparr>))"
proof -
  let ?c = "web_cache_new 0 True"
  obtain c' r where run: "lookup_or_materialize id (\<lambda>xs. fst (hd xs)) sample_prepared (\<lambda>d bs. Inr bs :: string + bytes) ?c = (c', Ok r)"
    by (auto simp: lookup_or_materialize_def lookup_object_material_def web_cache_new_def Let_def)
  moreover have "picks_a_key (\<lambda>xs. fst (hd xs))" by (auto simp: picks_a_key_def neq_Nil_conv)
  ultimately show ?thesis
    using materialized_source_is_kept [OF run, where other = "\<lambda>d bs. Err ()"] by (auto simp: web_cache_new_def)
qed

end
