(* ===== verification/Pulzz_Prg.thy ===== *)
theory Pulzz_Prg
  imports Pulzz_Transform Pulzz_Episode
begin

text \<open>
  Schemas and predictive reconstruction graphs (\<open>shared_protocol/src/chpmt.rs\<close> and \<open>state.rs\<close>): shared dictionaries,
  schemas and their candidates, graphs with their validation, payload formats and execution.  The resolvers that the
  execution receives are functions of a reference.  The property says that execution is evaluation: the stack of
  active nodes and the depth cap decide nothing but whether a value exists.
\<close>

section \<open>Shared dictionaries\<close>

record DictionaryEntry =
  de_token_id :: u16
  de_material :: bytes
  de_support_count :: u32

record SharedDictionary =
  di_dictionary_id :: u64
  di_source_kind :: SourceKind
  di_version :: ObjectVersion
  di_entries :: "DictionaryEntry list"
  di_keyed_permutation_seed :: u64
  di_max_token_len :: u16
  di_lifecycle :: ObjectLifecycleMeta

fun decode_tokens :: "SharedDictionary \<Rightarrow> u16 list \<Rightarrow> bytes option" where
  "decode_tokens d [] = Some []"
| "decode_tokens d (token_id # token_ids) =
     Option.bind (find (\<lambda>e. de_token_id e = token_id) (di_entries d)) (\<lambda>e.
       map_option (\<lambda>out. de_material e @ out) (decode_tokens d token_ids))"

section \<open>Schemas\<close>

datatype SchemaSlotType = ST_ExactBytes | ST_Atom | ST_Assembly | ST_Transform | ST_Episode | ST_Schema

record SchemaEntryCondition =
  sn_cue :: SparseCue
  sn_required_context_hashes :: "ContextHash list"
  sn_admissible_source_kinds :: "SourceKind list"
  sn_min_support_count :: u32

record SchemaSlotDescriptor =
  sl_slot_id :: u16
  sl_slot_type :: SchemaSlotType
  sl_required :: bool
  sl_min_len :: u32
  sl_max_len :: u32

record SchemaObjectRef =
  so_object_kind :: ObjectKind
  so_object_id :: string

record SchemaNode =
  sm_node_id :: u32
  sm_kind :: ObjectKind
  sm_object_ref :: "SchemaObjectRef option"
  sm_slot_binding :: "u16 option"
  sm_output_len :: u32

record SchemaEdge =
  sg_edge_id :: u32
  sg_from_node :: u32
  sg_to_node :: u32
  sg_guard_precision :: PrecisionBand
  sg_max_fanout :: u16

record SchemaDependencyClosure =
  sdc_version :: ObjectVersion
  sdc_dependencies :: "ObjectDependency list"

record SchemaGraph =
  sch_schema_id :: u64
  sch_source_kind :: SourceKind
  sch_schema_kind :: SchemaKind
  sch_entry_condition :: SchemaEntryCondition
  sch_slots :: "SchemaSlotDescriptor list"
  sch_nodes :: "SchemaNode list"
  sch_edges :: "SchemaEdge list"
  sch_dependency_closure :: SchemaDependencyClosure
  sch_decode_max_nodes :: u16
  sch_decode_max_depth :: u8
  sch_output_len :: u32
  sch_lifecycle :: ObjectLifecycleMeta
  sch_cue :: SparseCue
  sch_cross_episode_support :: u32
  sch_contradiction_burden :: u32
  sch_branch_consistency :: u32
  sch_mean_decode_burden :: u32
  sch_retire_after_failures :: u32

record SchemaRouteCandidate =
  src_schema_id :: u64
  src_source_kind :: SourceKind
  src_schema_kind :: SchemaKind
  src_entry_condition :: SchemaEntryCondition
  src_dependency_closure :: SchemaDependencyClosure
  src_precision_band :: PrecisionBand
  src_fanout_cap :: u16
  src_depth_cap :: u8
  src_output_len :: u32
  src_cue :: SparseCue
  src_cue_overlap :: u32
  src_cross_episode_support :: u32
  src_contradiction_burden :: u32
  src_branch_consistency :: u32
  src_decode_burden :: u32

record SchemaCandidatePolicy =
  scp_max_candidates :: u16
  scp_max_depth :: u8
  scp_max_fanout :: u16

definition schema_policy_default :: SchemaCandidatePolicy where
  "schema_policy_default = \<lparr>scp_max_candidates = 8, scp_max_depth = 8, scp_max_fanout = 8\<rparr>"

definition schema_admitted :: "SourceKind \<Rightarrow> ContextHash option \<Rightarrow> SchemaCandidatePolicy \<Rightarrow> SchemaGraph \<Rightarrow> bool" where
  "schema_admitted kind context_hash policy s \<longleftrightarrow>
     sch_source_kind s = kind
     \<and> sch_decode_max_depth s \<le> scp_max_depth policy \<and> sch_decode_max_nodes s \<le> scp_max_fanout policy
     \<and> (let kinds = sn_admissible_source_kinds (sch_entry_condition s) in kinds = [] \<or> kind \<in> set kinds)
     \<and> (let hashes = sn_required_context_hashes (sch_entry_condition s) in
         hashes = [] \<or> (case context_hash of Some h \<Rightarrow> h \<in> set hashes | None \<Rightarrow> False))"

definition schema_candidate :: "SparseCue \<Rightarrow> SchemaCandidatePolicy \<Rightarrow> SchemaGraph \<Rightarrow> SchemaRouteCandidate" where
  "schema_candidate cue policy s =
     \<lparr>src_schema_id = sch_schema_id s, src_source_kind = sch_source_kind s, src_schema_kind = sch_schema_kind s,
      src_entry_condition = sch_entry_condition s, src_dependency_closure = sch_dependency_closure s,
      src_precision_band = PB_Balanced, src_fanout_cap = min (sch_decode_max_nodes s) (scp_max_fanout policy),
      src_depth_cap = min (sch_decode_max_depth s) (scp_max_depth policy), src_output_len = sch_output_len s,
      src_cue = sch_cue s, src_cue_overlap = overlap_score cue (sch_cue s),
      src_cross_episode_support = max (sch_cross_episode_support s) (lm_support_count (sch_lifecycle s)),
      src_contradiction_burden = sch_contradiction_burden s,
      src_branch_consistency = max (sch_branch_consistency s) (len_u32 (sch_edges s)),
      src_decode_burden = max (sch_mean_decode_burden s) (ucast (sch_decode_max_depth s))\<rparr>"

definition schema_quality :: "SchemaRouteCandidate \<Rightarrow> u32" where
  "schema_quality c =
     saturating_sub (saturating_sub
       (saturating_add (saturating_add (src_cue_overlap c) (src_cross_episode_support c)) (src_branch_consistency c))
       (src_contradiction_burden c)) (src_decode_burden c div 2)"

definition schema_candidate_rank :: "SchemaRouteCandidate \<Rightarrow> int list" where
  "schema_candidate_rank c = [- uint (schema_quality c), - uint (src_cue_overlap c), uint (src_schema_id c)]"

definition generate_schema_route_candidates ::
  "SchemaGraph list \<Rightarrow> SparseCue \<Rightarrow> SourceKind \<Rightarrow> ContextHash option \<Rightarrow> SchemaCandidatePolicy \<Rightarrow> SchemaRouteCandidate list" where
  "generate_schema_route_candidates schemas cue kind context_hash policy =
     take (unat (scp_max_candidates policy)) (sort_key schema_candidate_rank
       (map (schema_candidate cue policy) (filter (schema_admitted kind context_hash policy) schemas)))"

section \<open>Graphs\<close>

record PrgDependencyContract =
  pdc_dependency_ids :: "u32 list"
  pdc_required_object_ids :: "string list"
  pdc_max_depth :: u8

definition prg_contract_default :: PrgDependencyContract where
  "prg_contract_default = \<lparr>pdc_dependency_ids = [], pdc_required_object_ids = [], pdc_max_depth = 0\<rparr>"

record PrgNode =
  pn_node_id :: u32
  pn_kind :: PrgNodeKind
  pn_output_len :: u32
  pn_dependency_contract :: PrgDependencyContract
  pn_literal_bytes :: bytes
  pn_substrate_ref :: "SubstrateRef option"
  pn_assembly_ref :: "AssemblyRef option"
  pn_transform_ref :: "u64 option"
  pn_episode_ref :: "EpisodeObjectRef option"
  pn_schema_ref :: "u64 option"
  pn_child_ids :: "u32 list"
  pn_select_index :: "u16 option"
  pn_repeat_count :: "u16 option"
  pn_permutation :: "u16 list"
  pn_slot_id :: "u16 option"
  pn_basis_node_id :: "u32 option"
  pn_patch_offset :: "u32 option"
  pn_patch_remove_len :: "u32 option"
  pn_guard_precision :: "PrecisionBand option"
  pn_branch_target :: "u32 option"

record PredictiveReconstructionGraph =
  prg_version :: u8
  prg_node_count :: u16
  prg_depth_cap :: u8
  prg_output_len :: u32
  prg_root_node_id :: u32
  prg_nodes :: "PrgNode list"
  prg_dependency_ids :: "string list"

definition PRG_VERSION :: u8 where "PRG_VERSION = 1"

definition prg_new :: "u32 \<Rightarrow> u8 \<Rightarrow> u32 \<Rightarrow> PrgNode list \<Rightarrow> string list \<Rightarrow> PredictiveReconstructionGraph" where
  "prg_new root_node_id depth_cap output_len nodes dependency_ids =
     \<lparr>prg_version = PRG_VERSION, prg_node_count = len_u16 nodes, prg_depth_cap = depth_cap, prg_output_len = output_len,
      prg_root_node_id = root_node_id, prg_nodes = nodes, prg_dependency_ids = dependency_ids\<rparr>"

definition prg_validate :: "PredictiveReconstructionGraph \<Rightarrow> StateProgramError + unit" where
  "prg_validate g =
     (if unat (prg_node_count g) \<noteq> length (prg_nodes g)
      then Err (SE_Prg (PrgNodeCountMismatch (unat (prg_node_count g)) (length (prg_nodes g))))
      else if prg_nodes g = [] then Err (SE_Prg (PrgMissingRoot (prg_root_node_id g)))
      else if \<not> list_ex (\<lambda>n. pn_node_id n = prg_root_node_id g) (prg_nodes g)
      then Err (SE_Prg (PrgMissingRoot (prg_root_node_id g)))
      else Ok ())"

definition prg_encode :: "PredictiveReconstructionGraph bincode_write \<Rightarrow> PredictiveReconstructionGraph \<Rightarrow> StateProgramError + bytes" where
  "prg_encode write g = map_err (\<lambda>m. SE_Prg (PrgSerialization m)) (write g)"

definition prg_decode :: "PredictiveReconstructionGraph bincode_read \<Rightarrow> bytes \<Rightarrow> StateProgramError + PredictiveReconstructionGraph" where
  "prg_decode read bs =
     and_then (map_err (\<lambda>m. SE_Prg (PrgSerialization m)) (read bs)) (\<lambda>(g, used).
       if prg_version g \<noteq> PRG_VERSION then Err (SE_Prg (InvalidPrgVersion (prg_version g)))
       else and_then (prg_validate g) (\<lambda>_. Ok g))"

section \<open>Execution\<close>

record PrgResolvers =
  rv_substrate :: "SubstrateRef \<Rightarrow> bytes option"
  rv_assembly :: "AssemblyRef \<Rightarrow> bytes option"
  rv_transform :: "u64 \<Rightarrow> bytes option"
  rv_dictionary :: "u64 \<Rightarrow> u16 list \<Rightarrow> bytes option"
  rv_episode :: "EpisodeObjectRef \<Rightarrow> bytes option"
  rv_schema :: "u64 \<Rightarrow> bytes option"

abbreviation missing_dependency :: "string \<Rightarrow> StateProgramError" where
  "missing_dependency i \<equiv> SE_Prg (PrgMissingDependency i)"

definition show_u64 :: "u64 \<Rightarrow> string" where "show_u64 w = show_nat (unat w)"

definition resolve_or :: "string \<Rightarrow> bytes option \<Rightarrow> StateProgramError + bytes" where
  "resolve_or i m = ok_or (missing_dependency i) m"

text \<open>The children that a node of each kind runs, in order.\<close>

definition prg_children :: "PrgNode \<Rightarrow> StateProgramError + u32 list" where
  "prg_children node =
     (let missing = SE_Prg (PrgMissingChild (pn_node_id node)); cs = pn_child_ids node in
      case pn_kind node of
        PN_Concat \<Rightarrow> Ok cs | PN_Commit \<Rightarrow> Ok cs | PN_Guard \<Rightarrow> Ok cs | PN_Branch \<Rightarrow> Ok cs | PN_Permute \<Rightarrow> Ok cs
      | PN_Repeat \<Rightarrow> (case cs of [] \<Rightarrow> Err missing | c # _ \<Rightarrow> Ok [c])
      | PN_Patch \<Rightarrow> (case cs of [] \<Rightarrow> Err missing | c # _ \<Rightarrow> Ok [c])
      | PN_Select \<Rightarrow>
          let ix = (case pn_select_index node of Some i \<Rightarrow> unat i | None \<Rightarrow> 0) in
          if ix < length cs then Ok [cs ! ix] else Err missing
      | _ \<Rightarrow> Ok [])"

text \<open>The bytes of a node from the bytes of its children.\<close>

definition prg_combine :: "PrgResolvers \<Rightarrow> PrgNode \<Rightarrow> bytes list \<Rightarrow> StateProgramError + bytes" where
  "prg_combine R node parts =
     (let missing_reference = SE_Prg (PrgMissingReference (pn_node_id node) (pn_kind node));
          substrate = and_then (ok_or missing_reference (pn_substrate_ref node)) (\<lambda>r.
            resolve_or (show_u64 (su_object_id r)) (rv_substrate R r));
          assembly = and_then (ok_or missing_reference (pn_assembly_ref node)) (\<lambda>r.
            resolve_or (show_u64 (ar_assembly_id r)) (rv_assembly R r)) in
      case pn_kind node of
        PN_Literal \<Rightarrow> Ok (pn_literal_bytes node)
      | PN_AtomRef \<Rightarrow> substrate | PN_RangeRef \<Rightarrow> substrate | PN_BundleRef \<Rightarrow> substrate
      | PN_AssemblyRef \<Rightarrow> assembly | PN_Expand \<Rightarrow> assembly
      | PN_TransformRef \<Rightarrow> and_then (ok_or missing_reference (pn_transform_ref node)) (\<lambda>i.
          resolve_or (show_u64 i) (rv_transform R i))
      | PN_EpisodeRef \<Rightarrow> and_then (ok_or missing_reference (pn_episode_ref node)) (\<lambda>r.
          resolve_or (eo_object_id r) (rv_episode R r))
      | PN_SchemaRef \<Rightarrow> and_then (ok_or missing_reference (pn_schema_ref node)) (\<lambda>i.
          resolve_or (show_u64 i) (rv_schema R i))
      | PN_Concat \<Rightarrow> Ok (concat parts) | PN_Commit \<Rightarrow> Ok (concat parts)
      | PN_Guard \<Rightarrow> Ok (concat parts) | PN_Branch \<Rightarrow> Ok (concat parts)
      | PN_Repeat \<Rightarrow> Ok (repeat_bytes (case pn_repeat_count node of Some n \<Rightarrow> unat n | None \<Rightarrow> 0) (parts ! 0))
      | PN_Select \<Rightarrow> Ok (parts ! 0)
      | PN_Permute \<Rightarrow>
          (try_fold (\<lambda>out ix. if unat ix < length parts then Ok (out @ parts ! unat ix)
            else Err (SE_Prg (PrgMissingChild (pn_node_id node)))) [] (pn_permutation node))
      | PN_SlotFill \<Rightarrow> Ok (pn_literal_bytes node)
      | PN_Patch \<Rightarrow>
          let offset = (case pn_patch_offset node of Some o' \<Rightarrow> o' | None \<Rightarrow> 0);
              remove_len = (case pn_patch_remove_len node of Some n \<Rightarrow> n | None \<Rightarrow> 0) in
          and_then (checked_patch_range (length (parts ! 0)) offset remove_len) (\<lambda>rng.
            Ok (kernel_apply_patch (parts ! 0) rng (pn_literal_bytes node)))
      | PN_Noop \<Rightarrow> Ok [])"

definition find_prg_node :: "PredictiveReconstructionGraph \<Rightarrow> u32 \<Rightarrow> PrgNode option" where
  "find_prg_node g node_id = find (\<lambda>n. pn_node_id n = node_id) (prg_nodes g)"

lemma find_prg_node_id: "find_prg_node g i = Some node \<Longrightarrow> i \<in> set (map pn_node_id (prg_nodes g))"
  unfolding find_prg_node_def by (auto dest: find_SomeD)

definition prg_check_len :: "u32 \<Rightarrow> PrgNode \<Rightarrow> bytes \<Rightarrow> StateProgramError + bytes" where
  "prg_check_len node_id node out =
     (if pn_output_len node \<noteq> 0 \<and> length out \<noteq> unat (pn_output_len node)
      then Err (SE_Prg (PrgNodeOutputLenMismatch node_id (pn_output_len node) (of_nat (length out))))
      else Ok out)"

function execute_prg_node ::
  "PredictiveReconstructionGraph \<Rightarrow> PrgResolvers \<Rightarrow> u32 set \<Rightarrow> u8 \<Rightarrow> u32 \<Rightarrow> StateProgramError + bytes" where
  "execute_prg_node g R stack depth node_id =
     (if depth > prg_depth_cap g then Err (SE_Prg (PrgDepthExceeded depth (prg_depth_cap g)))
      else case find_prg_node g node_id of
        None \<Rightarrow> Err (SE_Prg (PrgMissingNode node_id))
      | Some node \<Rightarrow>
          if node_id \<in> stack then Err (SE_Prg (PrgCycleDetected node_id))
          else
            and_then (prg_children node) (\<lambda>cs.
            and_then (try_map (execute_prg_node g R (insert node_id stack) (saturating_add depth 1)) cs) (\<lambda>parts.
            and_then (prg_combine R node parts) (prg_check_len node_id node))))"
  by pat_completeness auto

termination
proof (relation "measure (\<lambda>(g, R, stack, depth, node_id). card (set (map pn_node_id (prg_nodes g)) - stack))", goal_cases)
  case 1
  then show ?case by simp
next
  case (2 g R stack depth node_id node cs child)
  then have "node_id \<in> set (map pn_node_id (prg_nodes g)) - stack" using find_prg_node_id by blast
  then have "set (map pn_node_id (prg_nodes g)) - insert node_id stack \<subset> set (map pn_node_id (prg_nodes g)) - stack"
    by blast
  then show ?case by (auto intro: psubset_card_mono)
qed

declare execute_prg_node.simps [simp del]

definition execute_prg :: "PredictiveReconstructionGraph \<Rightarrow> PrgResolvers \<Rightarrow> StateProgramError + bytes" where
  "execute_prg g R =
     and_then (prg_validate g) (\<lambda>_.
     and_then (execute_prg_node g R {} 0 (prg_root_node_id g)) (\<lambda>out.
       if length out \<noteq> unat (prg_output_len g)
       then Err (SE_Prg (PrgOutputLenMismatch (prg_output_len g) (of_nat (length out))))
       else Ok out))"

section \<open>Execution is evaluation\<close>

text \<open>The value of a node within a number of levels, without a stack.\<close>

fun prg_value :: "PredictiveReconstructionGraph \<Rightarrow> PrgResolvers \<Rightarrow> nat \<Rightarrow> u32 \<Rightarrow> bytes option" where
  "prg_value g R 0 i = None"
| "prg_value g R (Suc n) i =
     (case find_prg_node g i of
        None \<Rightarrow> None
      | Some node \<Rightarrow>
          ok_option (and_then (prg_children node) (\<lambda>cs.
             and_then (try_map (\<lambda>c. ok_or (missing_dependency []) (prg_value g R n c)) cs) (\<lambda>parts.
             and_then (prg_combine R node parts) (prg_check_len i node)))))"

declare prg_value.simps [simp del]

lemma prg_value_0 [simp]: "prg_value g R 0 i = None" by (simp add: prg_value.simps)

lemma prg_value_Suc_iff:
  "prg_value g R (Suc n) i = Some out \<longleftrightarrow>
    (\<exists>node cs parts. find_prg_node g i = Some node \<and> prg_children node = Ok cs
      \<and> list_all2 (\<lambda>c p. prg_value g R n c = Some p) cs parts
      \<and> and_then (prg_combine R node parts) (prg_check_len i node) = Ok out)"
  by (cases "find_prg_node g i") (simp_all add: prg_value.simps(2) try_map_iff, blast?)

lemma execute_prg_node_iff:
  "execute_prg_node g R stack depth i = Ok out \<longleftrightarrow> depth \<le> prg_depth_cap g \<and> i \<notin> stack \<and>
    (\<exists>node cs parts. find_prg_node g i = Some node \<and> prg_children node = Ok cs
      \<and> list_all2 (\<lambda>c p. execute_prg_node g R (insert i stack) (saturating_add depth 1) c = Ok p) cs parts
      \<and> and_then (prg_combine R node parts) (prg_check_len i node) = Ok out)"
  by (subst execute_prg_node.simps, cases "find_prg_node g i"; cases "depth \<le> prg_depth_cap g")
    (simp_all add: try_map_iff not_less, (auto simp: not_le)?)

lemma prg_value_mono: "prg_value g R n i = Some out \<Longrightarrow> n \<le> m \<Longrightarrow> prg_value g R m i = Some out"
proof (induction n arbitrary: m i out)
  case (Suc n)
  obtain m' where m: "m = Suc m'" "n \<le> m'" using Suc.prems(2) by (cases m) auto
  have "list_all2 (\<lambda>c p. prg_value g R m' c = Some p) cs ps"
    if "list_all2 (\<lambda>c p. prg_value g R n c = Some p) cs ps" for cs ps
    using that by (elim list_all2_mono) (rule Suc.IH [OF _ m(2)])
  then show ?case using Suc.prems(1) unfolding m(1) prg_value_Suc_iff by blast
qed simp

lemma prg_values_common_bound:
  assumes "list_all2 (\<lambda>c p. \<exists>n. prg_value g R n c = Some p) cs ps"
  shows "\<exists>n. list_all2 (\<lambda>c p. prg_value g R n c = Some p) cs ps"
  using assms
proof (induction rule: list_all2_induct)
  case (Cons c cs p ps)
  then obtain n m where n: "prg_value g R n c = Some p"
    and m: "list_all2 (\<lambda>c p. prg_value g R m c = Some p) cs ps" by blast
  have "list_all2 (\<lambda>c p. prg_value g R (max n m) c = Some p) cs ps"
    using m by (elim list_all2_mono) (rule prg_value_mono, auto)
  moreover have "prg_value g R (max n m) c = Some p" using n by (rule prg_value_mono) simp
  ultimately show ?case by auto
qed simp

lemma saturating_depth: "unat (saturating_add depth (1 :: u8)) = min (unat depth + 1) 255"
  by (simp add: unat_saturating_add)

text \<open>The levels that the depth cap leaves below a depth; the depth saturates at 255, so that a cap of 255 leaves any
  number.\<close>

definition levels_left :: "u8 \<Rightarrow> u8 \<Rightarrow> nat \<Rightarrow> bool" where
  "levels_left cap depth n \<longleftrightarrow> depth \<le> cap \<and> (cap = 255 \<or> unat depth + n \<le> unat cap + 1)"

lemma levels_left_iff: "levels_left cap depth n \<longleftrightarrow> unat depth \<le> unat cap \<and> (unat cap = 255 \<or> unat depth + n \<le> unat cap + 1)"
  by (auto simp: levels_left_def word_le_nat_alt word_unat_eq_iff)

lemma levels_left_mono: "levels_left cap depth n \<Longrightarrow> m \<le> n \<Longrightarrow> levels_left cap depth m"
  by (auto simp: levels_left_iff)

lemma execute_prg_sound:
  "execute_prg_node g R stack depth i = Ok out \<Longrightarrow> \<exists>n. levels_left (prg_depth_cap g) depth n \<and> prg_value g R n i = Some out"
proof (induction g R stack depth i arbitrary: out rule: execute_prg_node.induct)
  case (1 g R stack depth i)
  let ?cap = "prg_depth_cap g" and ?next = "saturating_add depth 1"
  from iffD1 [OF execute_prg_node_iff "1.prems"] obtain node cs parts where deep: "depth \<le> ?cap" and free: "i \<notin> stack"
    and node: "find_prg_node g i = Some node" and cs: "prg_children node = Ok cs"
    and run: "list_all2 (\<lambda>c p. execute_prg_node g R (insert i stack) ?next c = Ok p) cs parts"
    and out: "and_then (prg_combine R node parts) (prg_check_len i node) = Ok out" by blast
  have ex: "list_all2 (\<lambda>c p. \<exists>n. levels_left ?cap ?next n \<and> prg_value g R n c = Some p) cs parts"
    using run by (rule list.rel_mono_strong) (use "1.IH" [OF _ node free] deep in \<open>simp add: not_less\<close>)
  have "\<exists>n. list_all2 (\<lambda>c p. prg_value g R n c = Some p) cs parts \<and> levels_left ?cap depth (Suc n)"
  proof (cases "?cap = 255")
    case True
    with ex have "list_all2 (\<lambda>c p. \<exists>n. prg_value g R n c = Some p) cs parts" by (elim list_all2_mono) blast
    with True deep prg_values_common_bound show ?thesis by (fastforce simp: levels_left_def)
  next
    case False
    then have small: "unat ?cap < 255"
    proof -
      have "unat ?cap < 2 ^ LENGTH(8)" by (rule unsigned_less)
      with False show ?thesis by (simp add: word_unat_eq_iff)
    qed
    have "list_all2 (\<lambda>c p. prg_value g R (unat ?cap - unat depth) c = Some p) cs parts"
      using ex
    proof (rule list_all2_mono)
      fix c p
      assume "\<exists>n. levels_left ?cap ?next n \<and> prg_value g R n c = Some p"
      then obtain n where left: "levels_left ?cap ?next n" and val: "prg_value g R n c = Some p" by blast
      have "n \<le> unat ?cap - unat depth" using left small by (auto simp: levels_left_iff saturating_depth min_def split: if_splits)
      with val show "prg_value g R (unat ?cap - unat depth) c = Some p" by (rule prg_value_mono)
    qed
    moreover have "levels_left ?cap depth (Suc (unat ?cap - unat depth))"
      using deep by (simp add: levels_left_iff word_le_nat_alt)
    ultimately show ?thesis by blast
  qed
  with node cs out show ?case using prg_value_Suc_iff by blast
qed

lemma execute_prg_complete:
  "prg_value g R n i = Some out \<Longrightarrow> levels_left (prg_depth_cap g) depth n \<Longrightarrow> \<forall>a \<in> stack. prg_value g R n a = None \<Longrightarrow>
    execute_prg_node g R stack depth i = Ok out"
proof (induction n arbitrary: i out stack depth)
  case (Suc n)
  have below: "prg_value g R n a = None" if "a \<in> stack" for a
    using Suc.prems(3) that prg_value_mono [of g R n a _ "Suc n"] by (cases "prg_value g R n a") auto
  show ?case
  proof (cases "prg_value g R n i")
    case (Some x)
    with Suc.prems(1) prg_value_mono [OF Some, of "Suc n"] have "x = out" by simp
    with Suc.IH [OF Some levels_left_mono [OF Suc.prems(2)]] below show ?thesis by simp
  next
    case None
    have "list_all2 (\<lambda>c p. execute_prg_node g R (insert i stack) (saturating_add depth 1) c = Ok p) cs ps"
      if "list_all2 (\<lambda>c p. prg_value g R n c = Some p) cs ps" for cs ps
      using that
    proof (rule list_all2_mono)
      fix c p
      assume val: "prg_value g R n c = Some p"
      then have "0 < n" by (cases n) auto
      then have "levels_left (prg_depth_cap g) (saturating_add depth 1) n"
        using Suc.prems(2) by (auto simp: levels_left_iff saturating_depth)
      with val show "execute_prg_node g R (insert i stack) (saturating_add depth 1) c = Ok p"
        by (rule Suc.IH) (use None below in auto)
    qed
    moreover have "i \<notin> stack" "depth \<le> prg_depth_cap g" using Suc.prems by (auto simp: levels_left_def)
    ultimately show ?thesis
      using iffD1 [OF prg_value_Suc_iff Suc.prems(1)] by (intro iffD2 [OF execute_prg_node_iff]) blast
  qed
qed simp

text \<open>C30: executing a reconstruction graph is evaluating it: execution always returns, and it succeeds exactly when the
  graph is valid and its root has a value of the announced length within the levels that the depth cap allows (any
  number of levels when the cap is 255, where the depth saturates), and returns that value.\<close>

theorem prg_execution_is_evaluation:
  "execute_prg g R = Ok out \<longleftrightarrow>
    prg_validate g = Ok () \<and> length out = unat (prg_output_len g)
    \<and> (\<exists>n. (prg_depth_cap g = 255 \<or> n \<le> unat (prg_depth_cap g) + 1) \<and> prg_value g R n (prg_root_node_id g) = Some out)"
proof -
  have "execute_prg_node g R {} 0 (prg_root_node_id g) = Ok out \<longleftrightarrow>
      (\<exists>n. levels_left (prg_depth_cap g) 0 n \<and> prg_value g R n (prg_root_node_id g) = Some out)"
    using execute_prg_sound execute_prg_complete [where stack = "{}"] by blast
  then show ?thesis by (auto simp: execute_prg_def levels_left_def)
qed

end
