(* ===== verification/Pulzz_Dispatch.thy ===== *)
theory Pulzz_Dispatch
  imports Pulzz_Prg
begin

text \<open>
  What a server dispatches to a client (\<open>shared_protocol/src/state.rs\<close>): schema, dictionary and hint payloads, graphs
  built from schemas, hybrid routes and their execution, contradiction masks, and dispatch payloads with the route
  graph contract they must carry.  The bincode reader and writer are parameters.
\<close>

section \<open>Schema, dictionary and hint payloads\<close>

definition PAYLOAD_VERSION :: u8 where "PAYLOAD_VERSION = 1"

record SchemaDefPayload =
  sp_version :: u8
  sp_schema :: SchemaGraph
  sp_node_table :: "PrgNode list"
  sp_edge_table :: "(u32 \<times> u32) list"
  sp_slot_table :: "SchemaSlotDescriptor list"
  sp_dependency_closure :: SchemaDependencyClosure
  sp_decode_max_nodes :: u16
  sp_decode_max_depth :: u8

definition schema_def_new :: "SchemaGraph \<Rightarrow> PredictiveReconstructionGraph \<Rightarrow> SchemaDefPayload" where
  "schema_def_new s g =
     \<lparr>sp_version = PAYLOAD_VERSION, sp_schema = s, sp_node_table = prg_nodes g,
      sp_edge_table = concat (map (\<lambda>n. map (Pair (pn_node_id n)) (pn_child_ids n)) (prg_nodes g)),
      sp_slot_table = sch_slots s, sp_dependency_closure = sch_dependency_closure s,
      sp_decode_max_nodes = sch_decode_max_nodes s, sp_decode_max_depth = sch_decode_max_depth s\<rparr>"

definition schema_def_encode :: "SchemaDefPayload bincode_write \<Rightarrow> SchemaDefPayload \<Rightarrow> StateProgramError + bytes" where
  "schema_def_encode write p = map_err (\<lambda>m. SE_Payload (SchemaPayloadSerialization m)) (write p)"

definition schema_def_decode :: "SchemaDefPayload bincode_read \<Rightarrow> bytes \<Rightarrow> StateProgramError + SchemaDefPayload" where
  "schema_def_decode read bs =
     and_then (map_err (\<lambda>m. SE_Payload (SchemaPayloadSerialization m)) (read bs)) (\<lambda>(p, used).
       if sp_version p \<noteq> PAYLOAD_VERSION then Err (SE_Payload (InvalidSchemaPayloadVersion (sp_version p))) else Ok p)"

record SchemaInstallPlan =
  sip_schema_id :: u64
  sip_dependency_closure :: "ObjectDependency list"
  sip_node_count :: u16
  sip_depth_cap :: u8
  sip_output_len :: u32

definition schema_install_plan :: "SchemaDefPayload \<Rightarrow> SchemaInstallPlan" where
  "schema_install_plan p =
     \<lparr>sip_schema_id = sch_schema_id (sp_schema p), sip_dependency_closure = sdc_dependencies (sp_dependency_closure p),
      sip_node_count = len_u16 (sp_node_table p), sip_depth_cap = sp_decode_max_depth p,
      sip_output_len = sch_output_len (sp_schema p)\<rparr>"

record SharedDictionaryDefPayload =
  dd_version :: u8
  dd_dictionary :: SharedDictionary

definition dictionary_def_new :: "SharedDictionary \<Rightarrow> SharedDictionaryDefPayload" where
  "dictionary_def_new d = \<lparr>dd_version = PAYLOAD_VERSION, dd_dictionary = d\<rparr>"

definition dictionary_def_encode ::
  "SharedDictionaryDefPayload bincode_write \<Rightarrow> SharedDictionaryDefPayload \<Rightarrow> StateProgramError + bytes" where
  "dictionary_def_encode write p = map_err (\<lambda>m. SE_Payload (PredictiveDispatchSerialization m)) (write p)"

definition dictionary_def_decode ::
  "SharedDictionaryDefPayload bincode_read \<Rightarrow> bytes \<Rightarrow> StateProgramError + SharedDictionaryDefPayload" where
  "dictionary_def_decode read bs =
     and_then (map_err (\<lambda>m. SE_Payload (PredictiveDispatchSerialization m)) (read bs)) (\<lambda>(p, used).
       if dd_version p \<noteq> PAYLOAD_VERSION then Err (SE_Payload (InvalidPredictiveDispatchVersion (dd_version p))) else Ok p)"

record EpisodeHintPayload =
  eh_version :: u8
  eh_context_hash :: ContextHash
  eh_lag_bucket :: LagBucket
  eh_precision_band :: PrecisionBand
  eh_dependencies :: "ObjectDependency list"
  eh_candidates :: "EpisodeCompletionCandidate list"

definition episode_hint_new ::
  "ContextHash \<Rightarrow> LagBucket \<Rightarrow> PrecisionBand \<Rightarrow> ObjectDependency list \<Rightarrow> EpisodeCompletionCandidate list \<Rightarrow> EpisodeHintPayload" where
  "episode_hint_new h lag band dependencies candidates =
     \<lparr>eh_version = PAYLOAD_VERSION, eh_context_hash = h, eh_lag_bucket = lag, eh_precision_band = band,
      eh_dependencies = dependencies, eh_candidates = candidates\<rparr>"

definition episode_hint_encode :: "EpisodeHintPayload bincode_write \<Rightarrow> EpisodeHintPayload \<Rightarrow> StateProgramError + bytes" where
  "episode_hint_encode write p = map_err (\<lambda>m. SE_Payload (EpisodePayloadSerialization m)) (write p)"

definition episode_hint_decode :: "EpisodeHintPayload bincode_read \<Rightarrow> bytes \<Rightarrow> StateProgramError + EpisodeHintPayload" where
  "episode_hint_decode read bs =
     and_then (map_err (\<lambda>m. SE_Payload (EpisodePayloadSerialization m)) (read bs)) (\<lambda>(p, used).
       if eh_version p \<noteq> PAYLOAD_VERSION then Err (SE_Payload (InvalidEpisodePayloadVersion (eh_version p))) else Ok p)"

definition hinted_object_refs :: "EpisodeHintPayload \<Rightarrow> EpisodeObjectRef list" where
  "hinted_object_refs p = map ep_object_ref (eh_candidates p)"

definition assembly_def_encode :: "AssemblyDefPayload bincode_write \<Rightarrow> AssemblyDefPayload \<Rightarrow> StateProgramError + bytes" where
  "assembly_def_encode write p = map_err (\<lambda>m. SE_Payload (AssemblyPayloadSerialization m)) (write p)"

definition assembly_def_decode :: "AssemblyDefPayload bincode_read \<Rightarrow> bytes \<Rightarrow> StateProgramError + AssemblyDefPayload" where
  "assembly_def_decode read bs =
     and_then (map_err (\<lambda>m. SE_Payload (AssemblyPayloadSerialization m)) (read bs)) (\<lambda>(p, used).
       if adp_version p \<noteq> ASSEMBLY_DEF_VERSION then Err (SE_Payload (InvalidAssemblyPayloadVersion (adp_version p))) else Ok p)"

section \<open>Graphs from schemas\<close>

text \<open>The number behind the last colon, 0 when there is none.\<close>

definition id_after_colon :: "string \<Rightarrow> u64" where
  "id_after_colon s = (case parse_u64 (last (split_on (\<lambda>c. c = CHR '':'') s)) of Some i \<Rightarrow> i | None \<Rightarrow> 0)"

definition plain_prg_node :: "SchemaNode \<Rightarrow> PrgNodeKind \<Rightarrow> PrgNode" where
  "plain_prg_node node kind =
     \<lparr>pn_node_id = sm_node_id node, pn_kind = kind, pn_output_len = sm_output_len node,
      pn_dependency_contract = prg_contract_default, pn_literal_bytes = [], pn_substrate_ref = None,
      pn_assembly_ref = None, pn_transform_ref = None, pn_episode_ref = None, pn_schema_ref = None, pn_child_ids = [],
      pn_select_index = None, pn_repeat_count = None, pn_permutation = [], pn_slot_id = sm_slot_binding node,
      pn_basis_node_id = None, pn_patch_offset = None, pn_patch_remove_len = None, pn_guard_precision = None,
      pn_branch_target = None\<rparr>"

definition prg_node_from_schema_node :: "SchemaNode \<Rightarrow> PrgNode" where
  "prg_node_from_schema_node node =
     (let object_ref = sm_object_ref node in
      case sm_kind node of
        OK_Assembly \<Rightarrow> (plain_prg_node node PN_AssemblyRef)\<lparr>pn_assembly_ref := map_option (\<lambda>r.
          \<lparr>ar_assembly_id = id_after_colon (so_object_id r), ar_version = version_default, ar_dependency_closure = [],
           ar_output_len = sm_output_len node, ar_body_shape_hash = 0, ar_dependency_fingerprint = 0\<rparr>) object_ref\<rparr>
      | OK_Transform \<Rightarrow> (plain_prg_node node PN_TransformRef)\<lparr>pn_transform_ref :=
          map_option (\<lambda>r. id_after_colon (so_object_id r)) object_ref\<rparr>
      | OK_Schema \<Rightarrow> (plain_prg_node node PN_SchemaRef)\<lparr>pn_schema_ref :=
          map_option (\<lambda>r. id_after_colon (so_object_id r)) object_ref\<rparr>
      | kind \<Rightarrow>
          if kind = OK_EpisodeHint \<or> kind = OK_ReplayHint then
            (plain_prg_node node PN_EpisodeRef)\<lparr>pn_episode_ref := map_option (\<lambda>r.
              \<lparr>eo_object_kind = so_object_kind r, eo_object_id = so_object_id r\<rparr>) object_ref\<rparr>
          else
            (plain_prg_node node (if kind = OK_ExactRange then PN_RangeRef
              else if kind = OK_ExactBundle then PN_BundleRef else PN_AtomRef))\<lparr>pn_substrate_ref :=
                map_option (\<lambda>r. substrate_opaque (so_object_kind r)
                  (case parse_u64 (so_object_id r) of Some i \<Rightarrow> i | None \<Rightarrow> 0)) object_ref\<rparr>)"

definition reconstruct_graph_from_schema :: "SchemaGraph \<Rightarrow> PredictiveReconstructionGraph" where
  "reconstruct_graph_from_schema s =
     prg_new (case sch_nodes s of [] \<Rightarrow> 0 | node # _ \<Rightarrow> sm_node_id node) (sch_decode_max_depth s) (sch_output_len s)
       (map prg_node_from_schema_node (sch_nodes s)) (map od_object_id (sdc_dependencies (sch_dependency_closure s)))"

section \<open>Hybrid routes\<close>

datatype AssemblyRouteMode = AM_ReuseReference | AM_DefineAndActivate | AM_StructuralHybrid

datatype HybridRouteComponent =
    HC_Literal bytes
  | HC_Substrate SubstrateRef
  | HC_SubstrateGraph SubstrateRouteGraph
  | HC_Assembly AssemblyRef
  | HC_Transform u64
  | HC_DictionaryTokens u64 "u16 list"
  | HC_Schema PredictiveReconstructionGraph
  | HC_ResidualPatch u32 u32 bytes

record HybridRoute =
  hr_route_family :: ControllerRouteFamily
  hr_precision_band :: PrecisionBand
  hr_assembly_mode :: "AssemblyRouteMode option"
  hr_output_len :: u32
  hr_dependency_closure :: "ObjectDependency list"
  hr_components :: "HybridRouteComponent list"

definition validate_dependencies :: "(ObjectKind \<Rightarrow> string \<Rightarrow> u32 \<Rightarrow> bool) \<Rightarrow> HybridRoute \<Rightarrow> bool" where
  "validate_dependencies available r =
     list_all (\<lambda>d. available (od_object_kind d) (od_object_id d) (od_required_revision d)) (hr_dependency_closure r)"

fun is_reuse_component :: "HybridRouteComponent \<Rightarrow> bool" where
  "is_reuse_component (HC_Literal _) = False"
| "is_reuse_component (HC_ResidualPatch _ _ _) = False"
| "is_reuse_component _ = True"

definition has_reuse_component :: "HybridRoute \<Rightarrow> bool" where
  "has_reuse_component r = list_ex is_reuse_component (hr_components r)"

definition run_component :: "PrgResolvers \<Rightarrow> bytes \<Rightarrow> HybridRouteComponent \<Rightarrow> StateProgramError + bytes" where
  "run_component R out c =
     (let extend = (\<lambda>m. and_then m (\<lambda>bs. Ok (out @ bs))) in
      case c of
        HC_Literal bs \<Rightarrow> Ok (out @ bs)
      | HC_Substrate r \<Rightarrow> extend (resolve_or (show_u64 (su_object_id r)) (rv_substrate R r))
      | HC_SubstrateGraph g \<Rightarrow> extend (execute_substrate_route_graph g (rv_substrate R))
      | HC_Assembly r \<Rightarrow> extend (resolve_or (show_u64 (ar_assembly_id r)) (rv_assembly R r))
      | HC_Transform i \<Rightarrow> extend (resolve_or (show_u64 i) (rv_transform R i))
      | HC_DictionaryTokens i token_ids \<Rightarrow> extend (resolve_or (show_u64 i) (rv_dictionary R i token_ids))
      | HC_Schema g \<Rightarrow> extend (execute_prg g R)
      | HC_ResidualPatch offset remove_len bs \<Rightarrow>
          and_then (checked_patch_range (length out) offset remove_len) (\<lambda>rng. Ok (kernel_apply_patch out rng bs)))"

definition execute_hybrid_route :: "HybridRoute \<Rightarrow> PrgResolvers \<Rightarrow> StateProgramError + bytes" where
  "execute_hybrid_route r R =
     and_then (try_fold (run_component R) [] (hr_components r)) (\<lambda>out.
       if length out \<noteq> unat (hr_output_len r)
       then Err (SE_Prg (PrgOutputLenMismatch (hr_output_len r) (of_nat (length out))))
       else Ok out)"

section \<open>Contradiction masks\<close>

definition exact_contradiction_mask :: "bytes \<Rightarrow> bytes \<Rightarrow> bytes" where
  "exact_contradiction_mask predicted actual =
     (if length predicted \<noteq> length actual then actual
      else
        let deltas = map (\<lambda>(p, a). p XOR a) (zip predicted actual) in
        if list_ex (\<lambda>delta. delta \<noteq> 0) deltas then deltas else [])"

definition apply_exact_contradiction_mask_to_bytes :: "bytes \<Rightarrow> bytes \<Rightarrow> StateProgramError + bytes" where
  "apply_exact_contradiction_mask_to_bytes predicted contradiction_bytes =
     (if contradiction_bytes = [] then Ok predicted
      else if length predicted \<noteq> length contradiction_bytes
      then Err (dispatch_error ''exact contradiction mask length does not match predicted output'')
      else Ok (map (\<lambda>(b, delta). b XOR delta) (zip predicted contradiction_bytes)))"

section \<open>Dispatch payloads and their contract\<close>

record RouteGraphSyncRequirements =
  rq_dependency_count :: u16
  rq_sync_risk :: u32
  rq_requires_synchronized_memory :: bool

record RouteGraphContradictionContract =
  rc_contradiction_bytes_len :: u32
  rc_exact_contradiction_only :: bool

record RouteGraphContract =
  rgc_route_graph_id :: u64
  rgc_node_count :: u16
  rgc_output_len :: u32
  rgc_sync_requirements :: RouteGraphSyncRequirements
  rgc_contradiction_contract :: RouteGraphContradictionContract

record PredictiveRouteDispatchPayload =
  dp_version :: u8
  dp_route_family :: ControllerRouteFamily
  dp_route_kind :: RouteFamily
  dp_route_source_kind :: "SourceKind option"
  dp_assembly_mode :: "AssemblyRouteMode option"
  dp_precision_band :: PrecisionBand
  dp_dependency_closure :: "ObjectDependency list"
  dp_sync_risk :: u32
  dp_literal_bytes :: bytes
  dp_assembly_ref :: "AssemblyRef option"
  dp_inline_assembly_defs :: "AssemblyDefPayload list"
  dp_inline_schema_defs :: "SchemaDefPayload list"
  dp_inline_dictionaries :: "SharedDictionaryDefPayload list"
  dp_inline_episode_hints :: "EpisodeHintPayload list"
  dp_route_graph :: RouteGraphContract
  dp_contradiction_bytes :: bytes
  dp_prg :: "PredictiveReconstructionGraph option"
  dp_hybrid_route :: "HybridRoute option"

definition installs_assembly_defs :: "PredictiveRouteDispatchPayload \<Rightarrow> bool" where
  "installs_assembly_defs p \<longleftrightarrow> dp_inline_assembly_defs p \<noteq> []"

definition reuses_synchronized_assembly :: "PredictiveRouteDispatchPayload \<Rightarrow> bool" where
  "reuses_synchronized_assembly p \<longleftrightarrow> dp_assembly_ref p \<noteq> None \<and> dp_inline_assembly_defs p = []"

fun is_assembly_component :: "HybridRouteComponent \<Rightarrow> bool" where
  "is_assembly_component (HC_Assembly _) = True" | "is_assembly_component _ = False"

definition derived_assembly_mode :: "PredictiveRouteDispatchPayload \<Rightarrow> AssemblyRouteMode option" where
  "derived_assembly_mode p =
     (let otherwise = (if reuses_synchronized_assembly p then Some AM_ReuseReference else None) in
      if dp_route_family p \<noteq> CRF_DirectState then None
      else if installs_assembly_defs p then Some AM_DefineAndActivate
      else case dp_hybrid_route p of
        None \<Rightarrow> otherwise
      | Some route \<Rightarrow>
          let has_assembly = list_ex is_assembly_component (hr_components route);
              has_non_assembly = list_ex (\<lambda>c. \<not> is_assembly_component c) (hr_components route) in
          if has_assembly \<and> \<not> has_non_assembly then Some AM_ReuseReference
          else if has_non_assembly then Some AM_StructuralHybrid
          else otherwise)"

definition derived_node_count_for where
  "derived_node_count_for literal_bytes assembly_ref prg hybrid_route =
     (case prg of Some g \<Rightarrow> len_u16 (prg_nodes g)
      | None \<Rightarrow> (case hybrid_route of Some route \<Rightarrow> len_u16 (hr_components route)
      | None \<Rightarrow> (case assembly_ref of Some r \<Rightarrow> 1 | None \<Rightarrow> if literal_bytes \<noteq> [] then 1 else 0)))"

definition derived_output_len_for ::
  "bytes \<Rightarrow> AssemblyRef option \<Rightarrow> PredictiveReconstructionGraph option \<Rightarrow> HybridRoute option \<Rightarrow> u32" where
  "derived_output_len_for literal_bytes assembly_ref prg hybrid_route =
     (case prg of Some g \<Rightarrow> prg_output_len g
      | None \<Rightarrow> (case hybrid_route of Some route \<Rightarrow> hr_output_len route
      | None \<Rightarrow> (case assembly_ref of Some r \<Rightarrow> ar_output_len r | None \<Rightarrow> len_u32 literal_bytes)))"

fun PrgNodeKind_disc :: "PrgNodeKind \<Rightarrow> nat" where
  "PrgNodeKind_disc PN_Literal = 1" | "PrgNodeKind_disc PN_AtomRef = 2" | "PrgNodeKind_disc PN_RangeRef = 3"
| "PrgNodeKind_disc PN_BundleRef = 4" | "PrgNodeKind_disc PN_AssemblyRef = 5" | "PrgNodeKind_disc PN_TransformRef = 6"
| "PrgNodeKind_disc PN_EpisodeRef = 7" | "PrgNodeKind_disc PN_SchemaRef = 8" | "PrgNodeKind_disc PN_Concat = 9"
| "PrgNodeKind_disc PN_Patch = 10" | "PrgNodeKind_disc PN_Repeat = 11" | "PrgNodeKind_disc PN_Select = 12"
| "PrgNodeKind_disc PN_Permute = 13" | "PrgNodeKind_disc PN_SlotFill = 14" | "PrgNodeKind_disc PN_Expand = 15"
| "PrgNodeKind_disc PN_Guard = 16" | "PrgNodeKind_disc PN_Branch = 17" | "PrgNodeKind_disc PN_Commit = 18"
| "PrgNodeKind_disc PN_Noop = 255"

fun component_tag :: "HybridRouteComponent \<Rightarrow> u64" where
  "component_tag (HC_Literal _) = 1" | "component_tag (HC_Substrate _) = 2" | "component_tag (HC_SubstrateGraph _) = 3"
| "component_tag (HC_Assembly _) = 4" | "component_tag (HC_Transform _) = 5"
| "component_tag (HC_DictionaryTokens _ _) = 6" | "component_tag (HC_Schema _) = 7"
| "component_tag (HC_ResidualPatch _ _ _) = 8"

definition hash_dependency :: "u64 \<Rightarrow> ObjectDependency \<Rightarrow> u64" where
  "hash_dependency h d =
     (let h = h XOR word_rotl 7 (of_nat (ObjectKind_disc (od_object_kind d)));
          h = foldl (\<lambda>h b. word_rotl 9 h XOR ucast b) h (take 24 (ascii_bytes (od_object_id d))) in
      h XOR word_rotl 19 (ucast (od_required_revision d)))"

definition hash_assembly :: "u64 \<Rightarrow> AssemblyRef \<Rightarrow> u64" where
  "hash_assembly h r =
     h XOR word_rotl 11 (ar_assembly_id r) XOR ucast (ar_output_len r) XOR word_rotl 17 (ar_body_shape_hash r)"

definition hash_graph :: "u64 \<Rightarrow> PredictiveReconstructionGraph \<Rightarrow> u64" where
  "hash_graph h g =
     foldl (\<lambda>h n. h XOR word_rotl 3 (ucast (pn_node_id n)) XOR word_rotl 37 (of_nat (PrgNodeKind_disc (pn_kind n)))
         XOR word_rotl 43 (ucast (pn_output_len n)))
       (h XOR word_rotl 29 (ucast (prg_root_node_id g))) (prg_nodes g)"

definition hash_route :: "u64 \<Rightarrow> HybridRoute \<Rightarrow> u64" where
  "hash_route h route =
     foldl (\<lambda>h c. word_rotl 11 (h XOR word_rotl 53 (component_tag c)) * 0x100000001b3)
       (h XOR word_rotl 47 (ucast (len_u16 (hr_components route)))) (hr_components route)"

definition opt_fold :: "('h \<Rightarrow> 'a \<Rightarrow> 'h) \<Rightarrow> 'h \<Rightarrow> 'a option \<Rightarrow> 'h" where
  "opt_fold f h m = (case m of Some x \<Rightarrow> f h x | None \<Rightarrow> h)"

definition derived_route_graph_id_for ::
  "ControllerRouteFamily \<Rightarrow> RouteFamily \<Rightarrow> ObjectDependency list \<Rightarrow> u32 \<Rightarrow> bytes \<Rightarrow> AssemblyRef option
    \<Rightarrow> PredictiveReconstructionGraph option \<Rightarrow> HybridRoute option \<Rightarrow> u64" where
  "derived_route_graph_id_for family kind dependencies sync_risk literal_bytes assembly_ref prg hybrid_route =
     (let h = 0x517cc1b727220a95
            XOR word_rotl 5 (of_nat (CRF_disc family)) XOR word_rotl 13 (of_nat (RouteFamily_disc kind))
            XOR word_rotl 23 (ucast (derived_output_len_for literal_bytes assembly_ref prg hybrid_route))
            XOR word_rotl 31 (ucast (derived_node_count_for literal_bytes assembly_ref prg hybrid_route))
            XOR word_rotl 41 (ucast sync_risk) in
      opt_fold hash_route (opt_fold hash_graph (opt_fold hash_assembly
        (foldl hash_dependency h dependencies) assembly_ref) prg) hybrid_route)"

definition derive_route_graph_contract_for where
  "derive_route_graph_contract_for family kind dependencies sync_risk contradiction_bytes literal_bytes assembly_ref
       prg hybrid_route =
     \<lparr>rgc_route_graph_id = derived_route_graph_id_for family kind dependencies sync_risk literal_bytes assembly_ref prg
        hybrid_route,
      rgc_node_count = derived_node_count_for literal_bytes assembly_ref prg hybrid_route,
      rgc_output_len = derived_output_len_for literal_bytes assembly_ref prg hybrid_route,
      rgc_sync_requirements = \<lparr>rq_dependency_count = len_u16 dependencies, rq_sync_risk = sync_risk,
        rq_requires_synchronized_memory = (sync_risk > 0 \<or> dependencies \<noteq> [])\<rparr>,
      rgc_contradiction_contract = \<lparr>rc_contradiction_bytes_len = len_u32 contradiction_bytes,
        rc_exact_contradiction_only = True\<rparr>\<rparr>"

definition derive_route_graph_contract :: "PredictiveRouteDispatchPayload \<Rightarrow> RouteGraphContract" where
  "derive_route_graph_contract p =
     derive_route_graph_contract_for (dp_route_family p) (dp_route_kind p) (dp_dependency_closure p) (dp_sync_risk p)
       (dp_contradiction_bytes p) (dp_literal_bytes p) (dp_assembly_ref p) (dp_prg p) (dp_hybrid_route p)"

definition with_derived_route_graph :: "PredictiveRouteDispatchPayload \<Rightarrow> PredictiveRouteDispatchPayload" where
  "with_derived_route_graph p = p\<lparr>dp_route_graph := derive_route_graph_contract p\<rparr>"

fun mode_debug :: "AssemblyRouteMode \<Rightarrow> string" where
  "mode_debug AM_DefineAndActivate = ''DefineAndActivate''"
| "mode_debug AM_ReuseReference = ''ReuseReference''"
| "mode_debug AM_StructuralHybrid = ''StructuralHybrid''"

definition mode_agrees :: "string \<Rightarrow> string \<Rightarrow> AssemblyRouteMode option \<Rightarrow> AssemblyRouteMode option \<Rightarrow> StateProgramError + unit" where
  "mode_agrees what other declared derived =
     (case (declared, derived) of
        (Some mode, Some mode') \<Rightarrow>
          if mode \<noteq> mode' then Err (dispatch_error (what @ '' mismatch: declared '' @ mode_debug mode @ other @ mode_debug mode'))
          else Ok ()
      | _ \<Rightarrow> Ok ())"

definition check_component :: "HybridRouteComponent \<Rightarrow> StateProgramError + unit" where
  "check_component c = (case c of HC_SubstrateGraph g \<Rightarrow> graph_validate g | _ \<Rightarrow> Ok ())"

definition validate_route_contract :: "PredictiveRouteDispatchPayload \<Rightarrow> StateProgramError + unit" where
  "validate_route_contract p =
     (let expected = route_family_of_controller (dp_route_family p); contract = dp_route_graph p;
          sync = rgc_sync_requirements contract; derived = derive_route_graph_contract p in
      if dp_route_kind p \<noteq> expected
      then Err (SE_Payload (InvalidPredictiveRouteContract (dp_route_family p) (dp_route_kind p) expected))
      else
        and_then (if dp_route_family p = CRF_DirectState then
            and_then (mode_agrees ''assembly mode'' '', derived '' (dp_assembly_mode p) (derived_assembly_mode p)) (\<lambda>_.
              mode_agrees ''hybrid assembly mode'' '', hybrid '' (dp_assembly_mode p)
                (Option.bind (dp_hybrid_route p) hr_assembly_mode))
          else Ok ()) (\<lambda>_.
        and_then (case dp_hybrid_route p of Some route \<Rightarrow> try_each check_component (hr_components route) | None \<Rightarrow> Ok ()) (\<lambda>_.
        if rgc_node_count contract \<noteq> rgc_node_count derived
        then Err (dispatch_error (''route graph node count mismatch: declared '' @ show_nat (unat (rgc_node_count contract))
               @ '', derived '' @ show_nat (unat (rgc_node_count derived))))
        else if rgc_output_len contract \<noteq> rgc_output_len derived
        then Err (dispatch_error (''route graph output length mismatch: declared '' @ show_nat (unat (rgc_output_len contract))
               @ '', derived '' @ show_nat (unat (rgc_output_len derived))))
        else if rq_dependency_count sync \<noteq> len_u16 (dp_dependency_closure p)
        then Err (dispatch_error ''route graph dependency count does not match dependency closure'')
        else if rq_sync_risk sync \<noteq> dp_sync_risk p
        then Err (dispatch_error ''route graph sync risk does not match payload sync risk'')
        else if rc_contradiction_bytes_len (rgc_contradiction_contract contract) \<noteq> len_u32 (dp_contradiction_bytes p)
        then Err (dispatch_error ''route graph contradiction length does not match contradiction payload'')
        else if rgc_route_graph_id contract \<noteq> rgc_route_graph_id derived
        then Err (dispatch_error ''route graph id does not match derived contract'')
        else Ok ())))"

definition dispatch_encode ::
  "PredictiveRouteDispatchPayload bincode_write \<Rightarrow> PredictiveRouteDispatchPayload \<Rightarrow> StateProgramError + bytes" where
  "dispatch_encode write p = map_err (\<lambda>m. SE_Payload (PredictiveDispatchSerialization m)) (write p)"

definition dispatch_decode ::
  "PredictiveRouteDispatchPayload bincode_read \<Rightarrow> bytes \<Rightarrow> StateProgramError + PredictiveRouteDispatchPayload" where
  "dispatch_decode read bs =
     and_then (map_err (\<lambda>m. SE_Payload (PredictiveDispatchSerialization m)) (read bs)) (\<lambda>(p, used).
       if dp_version p \<noteq> PAYLOAD_VERSION then Err (SE_Payload (InvalidPredictiveDispatchVersion (dp_version p)))
       else and_then (validate_route_contract p) (\<lambda>_. Ok p))"

section \<open>What the contract and the mask promise\<close>

text \<open>What a decoder checks of a payload that does not concern its contract.\<close>

definition dispatch_well_formed :: "PredictiveRouteDispatchPayload \<Rightarrow> bool" where
  "dispatch_well_formed p \<longleftrightarrow>
     dp_version p = PAYLOAD_VERSION \<and> dp_route_kind p = route_family_of_controller (dp_route_family p)
     \<and> (dp_route_family p = CRF_DirectState \<longrightarrow>
          mode_agrees ''assembly mode'' '', derived '' (dp_assembly_mode p) (derived_assembly_mode p) = Ok ()
          \<and> mode_agrees ''hybrid assembly mode'' '', hybrid '' (dp_assembly_mode p)
              (Option.bind (dp_hybrid_route p) hr_assembly_mode) = Ok ())
     \<and> (\<forall>route. dp_hybrid_route p = Some route \<longrightarrow>
          (\<forall>g. HC_SubstrateGraph g \<in> set (hr_components route) \<longrightarrow> graph_validate g = Ok ()))"

lemma derived_contract_stable [simp]:
  "derive_route_graph_contract (p\<lparr>dp_route_graph := c\<rparr>) = derive_route_graph_contract p"
  "derived_assembly_mode (p\<lparr>dp_route_graph := c\<rparr>) = derived_assembly_mode p"
  by (simp_all add: derive_route_graph_contract_def derived_assembly_mode_def installs_assembly_defs_def
      reuses_synchronized_assembly_def cong: option.case_cong)

lemma check_component_iff: "check_component c = Ok () \<longleftrightarrow> (\<forall>g. c = HC_SubstrateGraph g \<longrightarrow> graph_validate g = Ok ())"
  by (cases c) (auto simp: check_component_def)

text \<open>A dispatch payload that carries the contract derived from itself passes the decoder exactly when it is
  well-formed apart from the contract, and arrives unchanged; the bincode reader is one that gives back what was
  written.\<close>

theorem derived_contract_accepted:
  assumes "read bs = Ok (with_derived_route_graph p, used)"
  shows "dispatch_decode read bs = Ok (with_derived_route_graph p) \<longleftrightarrow> dispatch_well_formed p"
proof -
  have "rgc_sync_requirements (derive_route_graph_contract p) = \<lparr>rq_dependency_count = len_u16 (dp_dependency_closure p),
      rq_sync_risk = dp_sync_risk p, rq_requires_synchronized_memory = (dp_sync_risk p > 0 \<or> dp_dependency_closure p \<noteq> [])\<rparr>"
    and "rgc_contradiction_contract (derive_route_graph_contract p) =
      \<lparr>rc_contradiction_bytes_len = len_u32 (dp_contradiction_bytes p), rc_exact_contradiction_only = True\<rparr>"
    by (simp_all add: derive_route_graph_contract_def derive_route_graph_contract_for_def)
  then show ?thesis
    using assms
    by (cases "dp_hybrid_route p"; cases "dp_route_family p = CRF_DirectState")
      (auto simp: dispatch_decode_def validate_route_contract_def with_derived_route_graph_def dispatch_well_formed_def
        Let_def check_component_iff split: if_splits)
qed

lemma xor_mask_nth: "length p = length a \<Longrightarrow> map (\<lambda>(b, delta). b XOR delta) (zip p (map (\<lambda>(p, a). p XOR a) (zip p a))) = (a :: bytes)"
proof (induction p a rule: list_induct2)
  case (Cons x xs y ys)
  then show ?case by (simp flip: xor.assoc)
qed simp

lemma no_delta: "length p = length a \<Longrightarrow> \<not> list_ex (\<lambda>delta. delta \<noteq> 0) (map (\<lambda>(p, a). p XOR a) (zip p a)) \<Longrightarrow> p = (a :: bytes)"
proof (induction p a rule: list_induct2)
  case (Cons x xs y ys)
  then have "x XOR y = 0" by simp
  then have "x = y" by (metis xor.assoc xor.right_neutral xor_self_eq xor.commute)
  with Cons show ?case by simp
qed simp

text \<open>A contradiction mask repairs a prediction exactly when the prediction has the right length: applying the mask
  of the actual bytes to the prediction gives the actual bytes if and only if both are equally long.  For another
  length the mask is the actual bytes themselves, which no client can apply.\<close>

theorem contradiction_mask_repairs:
  "apply_exact_contradiction_mask_to_bytes predicted (exact_contradiction_mask predicted actual) = Ok actual
    \<longleftrightarrow> length predicted = length actual"
proof (cases "length predicted = length actual")
  case True
  then show ?thesis
    using xor_mask_nth [OF True] no_delta [OF True]
    by (auto simp: apply_exact_contradiction_mask_to_bytes_def exact_contradiction_mask_def Let_def)
next
  case False
  then show ?thesis by (auto simp: apply_exact_contradiction_mask_to_bytes_def exact_contradiction_mask_def)
qed

definition contract_default :: RouteGraphContract where
  "contract_default = \<lparr>rgc_route_graph_id = 0, rgc_node_count = 0, rgc_output_len = 0,
     rgc_sync_requirements = \<lparr>rq_dependency_count = 0, rq_sync_risk = 0, rq_requires_synchronized_memory = False\<rparr>,
     rgc_contradiction_contract = \<lparr>rc_contradiction_bytes_len = 0, rc_exact_contradiction_only = False\<rparr>\<rparr>"

definition literal_dispatch :: "bytes \<Rightarrow> PredictiveRouteDispatchPayload" where
  "literal_dispatch bs = \<lparr>dp_version = 1, dp_route_family = CRF_Hybrid, dp_route_kind = RF_PredictiveCorrect,
     dp_route_source_kind = None, dp_assembly_mode = None, dp_precision_band = PB_Exact, dp_dependency_closure = [],
     dp_sync_risk = 0, dp_literal_bytes = bs, dp_assembly_ref = None, dp_inline_assembly_defs = [],
     dp_inline_schema_defs = [], dp_inline_dictionaries = [], dp_inline_episode_hints = [],
     dp_route_graph = contract_default, dp_contradiction_bytes = [], dp_prg = None, dp_hybrid_route = None\<rparr>"

lemma derived_contract_accepted_witness:
  "dispatch_decode (\<lambda>bs. Ok (with_derived_route_graph (literal_dispatch [1, 2]), 9)) [0]
     = Ok (with_derived_route_graph (literal_dispatch [1, 2]))"
proof -
  have "dispatch_well_formed (literal_dispatch [1, 2])"
    by (simp add: dispatch_well_formed_def literal_dispatch_def PAYLOAD_VERSION_def)
  then show ?thesis
    using derived_contract_accepted [of "\<lambda>bs. Ok (with_derived_route_graph (literal_dispatch [1, 2]), 9)" "[0]"
        "literal_dispatch [1, 2]" 9] by simp
qed

end
