(* ===== verification/Pulzz_Client_State.thy ===== *)
theory Pulzz_Client_State
  imports Pulzz_Web_Cache Pulzz_Dispatch Pulzz_Codec Pulzz_Compression
begin

text \<open>
  The state of a client and what it can look up (\<open>client/src/lib.rs\<close>, \<open>ClientState\<close>): availability of dependencies,
  and the resolution of references to substrate, assemblies, transforms, dictionaries, schemas and episode hints.

  A \<open>HashMap\<close> is a map.  Libraries that are not part of the repository (hashes, zstd, ANS coding, bincode, postcard)
  are fields of a record \<open>ClientLibs\<close>.  Resolving an episode reference calls itself through hints and schemas without
  any bound: the field \<open>cl_levels\<close> is the number of such calls that the call stack has room for, and the model answers
  \<open>None\<close> where the code would need more.  \<open>resolution_settled\<close> says when no more are needed.
\<close>

section \<open>State\<close>

datatype BatchError = BE_Postcard string | BE_TooManyItems nat nat

datatype DispatchCause = DC_Wire WireError | DC_Batch BatchError

text \<open>What the texts of \<open>MissingPredictiveDependency\<close> tell: the missing entries of the closure, a hybrid route whose
  closure is not available, or a payload without a body.\<close>

datatype MissingCause =
    MC_Closure "ObjectDependency list"
  | MC_HybridValidation ControllerRouteFamily "ObjectDependency list"
  | MC_NoDispatchBody ControllerRouteFamily

text \<open>\<open>CA_ZstdStage e\<close> is the \<open>StateWire\<close> of a \<open>PredictiveDispatchSerialization\<close> whose text tells the error \<open>e\<close> of the
  zstd stage.\<close>

datatype ClientApplyError =
    CA_Validation ValidationError
  | CA_TransportWire WireError
  | CA_DecodePayload CodecError
  | CA_StateWire StateProgramError
  | CA_ZstdStage WireError
  | CA_Catalog CatalogError
  | CA_MissingPredictor ItemId
  | CA_SourceWire SourceError
  | CA_UnsupportedDataShape
  | CA_MissingTransformClass u64
  | CA_MissingPredictiveDependency MissingCause
  | CA_PredictiveRouteRecordTypeMismatch RecordType ControllerRouteFamily
  | CA_PredictiveDispatch DispatchCause

record BatchItem =
  bi_item_id :: ItemId
  bi_source_kind :: SourceKind
  bi_payload :: bytes

record 'm ClientLibs =
  cl_sha :: sha
  cl_simd :: bool
  cl_zstd :: zstd_lib
  cl_ans :: "'m ans_lib"
  cl_assets :: "CodecError + 'm EmbeddedAssets"
  cl_columnar_read :: "ColumnarBatch bincode_dec"
  cl_batch_read :: "bytes \<Rightarrow> string + BatchItem list"
  cl_retire_read :: "MemoryRetirePayload bincode_dec"
  cl_resync_read :: "PlaneResyncPayload bincode_dec"
  cl_repair_read :: "RepairPayload bincode_dec"
  cl_dispatch_read :: "PredictiveRouteDispatchPayload bincode_dec"
  cl_assembly_read :: "AssemblyDefPayload bincode_dec"
  cl_transform_read :: "TransformDefPayload bincode_dec"
  cl_instance_read :: "TransformInstancePayload bincode_dec"
  cl_schema_read :: "SchemaDefPayload bincode_dec"
  cl_hint_read :: "EpisodeHintPayload bincode_dec"
  cl_levels :: nat

record ClientState =
  cs_cache :: "ItemId \<rightharpoonup> ChpmtObject"
  cs_predictors :: "ItemId \<rightharpoonup> PredictorEntryMeta"
  cs_source_bindings :: "ItemId \<rightharpoonup> SourceDescriptor"
  cs_catalog :: SharedBlockCatalog
  cs_assemblies :: "u64 \<rightharpoonup> Assembly"
  cs_installed_assembly_defs :: "AssemblyDefPayload list"
  cs_assembly_index :: "string \<rightharpoonup> u64"
  cs_assembly_sync_versions :: "u64 \<rightharpoonup> AssemblyReuseSignature"
  cs_assembly_cache :: WebSourceCache
  cs_transforms :: "u64 \<rightharpoonup> TransformClass"
  cs_materialized_transforms :: "u64 \<rightharpoonup> bytes"
  cs_schemas :: "u64 \<rightharpoonup> SchemaGraph"
  cs_schema_payloads :: "u64 \<rightharpoonup> SchemaDefPayload"
  cs_dictionaries :: "u64 \<rightharpoonup> SharedDictionary"
  cs_repair_requests :: "RepairRequest list"
  cs_pending_memory_acks :: "MemoryAckPayload list"
  cs_episode_memory :: EpisodeMemory
  cs_installed_episode_hints :: "EpisodeHintPayload list"
  cs_installed_schema_defs :: "SchemaDefPayload list"
  cs_route_statistics :: "string \<rightharpoonup> RouteStatistics"
  cs_context_governor :: ContextTreeGovernor
  cs_dict_manager :: DictionaryManager
  cs_template_registry :: TemplateRegistry
  cs_previous_versions :: "u64 \<rightharpoonup> bytes"

definition client_state_default :: ClientState where
  "client_state_default =
     \<lparr>cs_cache = Map.empty, cs_predictors = Map.empty, cs_source_bindings = Map.empty, cs_catalog = catalog_default,
      cs_assemblies = Map.empty, cs_installed_assembly_defs = [], cs_assembly_index = Map.empty,
      cs_assembly_sync_versions = Map.empty, cs_assembly_cache = web_cache_default, cs_transforms = Map.empty,
      cs_materialized_transforms = Map.empty, cs_schemas = Map.empty, cs_schema_payloads = Map.empty,
      cs_dictionaries = Map.empty, cs_repair_requests = [], cs_pending_memory_acks = [],
      cs_episode_memory = episode_memory_bounded, cs_installed_episode_hints = [], cs_installed_schema_defs = [],
      cs_route_statistics = Map.empty, cs_context_governor = governor_default, cs_dict_manager = dict_manager_new,
      cs_template_registry = template_registry_new, cs_previous_versions = Map.empty\<rparr>"

section \<open>Identities\<close>

definition strip_prefix :: "string \<Rightarrow> string \<Rightarrow> string option" where
  "strip_prefix p s = (if take (length p) s = p then Some (drop (length p) s) else None)"

lemma strip_prefix_append [simp]: "strip_prefix p (p @ s) = Some s"
  by (simp add: strip_prefix_def)

definition parse_prefixed :: "string \<Rightarrow> string \<Rightarrow> u64 option" where
  "parse_prefixed p object_id = Option.bind (strip_prefix p object_id) parse_u64"

definition parse_schema_id :: "string \<Rightarrow> u64 option" where "parse_schema_id = parse_prefixed ''schema:''"
definition parse_transform_id :: "string \<Rightarrow> u64 option" where "parse_transform_id = parse_prefixed ''transform:''"

fun first_prefix :: "string list \<Rightarrow> string \<Rightarrow> string option" where
  "first_prefix [] s = None"
| "first_prefix (p # ps) s = (case strip_prefix p s of Some rest \<Rightarrow> Some rest | None \<Rightarrow> first_prefix ps s)"

definition parse_item_id :: "string \<Rightarrow> ItemId option" where
  "parse_item_id object_id =
     Option.bind (first_prefix [''block:'', ''bundle:'', ''assembly:'', ''schema:'', ''transform:'', ''dictionary:''] object_id)
       parse_u64"

text \<open>\<open>rsplit(':').next()\<close> and a parse: the number behind the last colon, or of the whole text.\<close>

definition id_behind_colon :: "string \<Rightarrow> u64 option" where
  "id_behind_colon s = parse_u64 (last (split_on (\<lambda>c. c = CHR '':'') s))"

section \<open>Dependencies\<close>

datatype DependencyAvailability =
    DA_Available | DA_MissingObject | DA_WrongRevision u32 u32 | DA_MalformedIdentity

definition present :: "bool \<Rightarrow> DependencyAvailability" where
  "present b = (if b then DA_Available else DA_MissingObject)"

definition revision_check :: "u32 option \<Rightarrow> u32 \<Rightarrow> DependencyAvailability" where
  "revision_check actual required =
     (case actual of
        Some revision \<Rightarrow> if required \<le> revision then DA_Available else DA_WrongRevision revision required
      | None \<Rightarrow> DA_MissingObject)"

definition malformed_or :: "u64 option \<Rightarrow> (u64 \<Rightarrow> DependencyAvailability) \<Rightarrow> DependencyAvailability" where
  "malformed_or i check = (case i of Some i \<Rightarrow> check i | None \<Rightarrow> DA_MalformedIdentity)"

definition has_hint :: "ClientState \<Rightarrow> string \<Rightarrow> bool" where
  "has_hint st object_id = list_ex (\<lambda>h. show_u64 (eh_context_hash h) = object_id) (cs_installed_episode_hints st)"

definition contains_block :: "SharedBlockCatalog \<Rightarrow> BlockId \<Rightarrow> bool" where
  "contains_block cat i \<longleftrightarrow> om_get (cat_blocks cat) i \<noteq> None"

definition contains_bundle :: "SharedBlockCatalog \<Rightarrow> BundleId \<Rightarrow> bool" where
  "contains_bundle cat i \<longleftrightarrow> om_get (cat_bundles cat) i \<noteq> None"

definition dependency_available_bool :: "ClientState \<Rightarrow> ObjectDependency \<Rightarrow> bool" where
  "dependency_available_bool st d =
     (let object_id = od_object_id d;
          holds = (\<lambda>p f. case parse_prefixed p object_id of Some i \<Rightarrow> f i | None \<Rightarrow> False);
          item = holds ''item:'' (\<lambda>i. cs_cache st i \<noteq> None) in
      case od_object_kind d of
        OK_ExactState \<Rightarrow> item | OK_AtomFragment \<Rightarrow> item | OK_PredictiveObject \<Rightarrow> item
      | OK_SourceDescriptor \<Rightarrow> item | OK_ResidualBuffer \<Rightarrow> item
      | OK_ExactBlock \<Rightarrow> holds ''block:'' (contains_block (cs_catalog st))
      | OK_ExactBundle \<Rightarrow> holds ''bundle:'' (contains_bundle (cs_catalog st))
      | OK_ExactRange \<Rightarrow> holds ''range:'' (contains_block (cs_catalog st))
      | OK_EpisodeHint \<Rightarrow> has_hint st object_id
      | OK_ReplayHint \<Rightarrow> has_hint st object_id
      | OK_SparseCue \<Rightarrow>
          (case parse_item_id object_id of
             Some i \<Rightarrow> cs_predictors st i \<noteq> None \<or> cs_source_bindings st i \<noteq> None \<or> cs_cache st i \<noteq> None
           | None \<Rightarrow> has_hint st object_id)
      | _ \<Rightarrow> False)"

definition check_dependency_available :: "ClientState \<Rightarrow> ObjectDependency \<Rightarrow> DependencyAvailability" where
  "check_dependency_available st d =
     (let required = od_required_revision d in
      case od_object_kind d of
        OK_Assembly \<Rightarrow> malformed_or (parse_prefixed ''assembly:'' (od_object_id d)) (\<lambda>i.
          if required = 0 then present (cs_assemblies st i \<noteq> None)
          else revision_check (map_option (\<lambda>s. ov_object_revision (rus_version s)) (cs_assembly_sync_versions st i)) required)
      | OK_Schema \<Rightarrow> malformed_or (parse_schema_id (od_object_id d)) (\<lambda>i.
          if required = 0 then present (cs_schema_payloads st i \<noteq> None)
          else revision_check (map_option (\<lambda>p. ov_object_revision (sdc_version (sch_dependency_closure (sp_schema p))))
            (cs_schema_payloads st i)) required)
      | OK_Transform \<Rightarrow> malformed_or (parse_transform_id (od_object_id d)) (\<lambda>i.
          if required = 0 then present (cs_materialized_transforms st i \<noteq> None)
          else present (cs_transforms st i \<noteq> None))
      | OK_Dictionary \<Rightarrow> malformed_or (parse_prefixed ''dictionary:'' (od_object_id d)) (\<lambda>i.
          if required = 0 then present (cs_dictionaries st i \<noteq> None)
          else revision_check (map_option (\<lambda>x. ov_object_revision (di_version x)) (cs_dictionaries st i)) required)
      | _ \<Rightarrow> present (dependency_available_bool st d))"

definition dependency_available :: "ClientState \<Rightarrow> ObjectDependency \<Rightarrow> bool" where
  "dependency_available st d \<longleftrightarrow> check_dependency_available st d = DA_Available"

record StagedInlineRevisions =
  sg_assembly_revisions :: "u64 \<rightharpoonup> u32"
  sg_schema_revisions :: "u64 \<rightharpoonup> u32"
  sg_dictionary_revisions :: "u64 \<rightharpoonup> u32"

definition staged_or ::
  "ClientState \<Rightarrow> ObjectDependency \<Rightarrow> u64 option \<Rightarrow> (u64 \<rightharpoonup> u32) \<Rightarrow> DependencyAvailability" where
  "staged_or st d i staged = malformed_or i (\<lambda>i.
     case staged i of
       Some revision \<Rightarrow> revision_check (Some revision) (od_required_revision d)
     | None \<Rightarrow> check_dependency_available st d)"

definition check_dependency_available_with_staged ::
  "ClientState \<Rightarrow> StagedInlineRevisions \<Rightarrow> ObjectDependency \<Rightarrow> DependencyAvailability" where
  "check_dependency_available_with_staged st staged d =
     (case od_object_kind d of
        OK_Assembly \<Rightarrow> staged_or st d (parse_prefixed ''assembly:'' (od_object_id d)) (sg_assembly_revisions staged)
      | OK_Schema \<Rightarrow> staged_or st d (parse_schema_id (od_object_id d)) (sg_schema_revisions staged)
      | OK_Dictionary \<Rightarrow> staged_or st d (parse_prefixed ''dictionary:'' (od_object_id d)) (sg_dictionary_revisions staged)
      | _ \<Rightarrow> check_dependency_available st d)"

section \<open>Resolving references\<close>

definition cached_bytes :: "ClientState \<Rightarrow> ItemId \<Rightarrow> bytes option" where
  "cached_bytes st i = map_option co_exact_bytes (cs_cache st i)"

definition client_substrate :: "'m ClientLibs \<Rightarrow> ClientState \<Rightarrow> SubstrateRef \<Rightarrow> bytes option" where
  "client_substrate L st r = resolve_substrate_reference (cl_sha L) (cached_bytes st) (cs_catalog st) r"

definition resolve_component_object :: "ClientState \<Rightarrow> string \<Rightarrow> u32 \<Rightarrow> u32 \<Rightarrow> bytes option" where
  "resolve_component_object st object_id start len =
     Option.bind
       (case Option.bind (id_behind_colon object_id) (cached_bytes st) of
          Some bs \<Rightarrow> Some bs
        | None \<Rightarrow> Option.bind (parse_u64 object_id) (\<lambda>i. map_option be_material (om_get (cat_blocks (cs_catalog st)) i)))
       (\<lambda>bs. slice_component_bytes bs start len)"

definition resolve_component_bundle :: "'m ClientLibs \<Rightarrow> ClientState \<Rightarrow> string \<Rightarrow> u32 \<Rightarrow> u32 \<Rightarrow> bytes option" where
  "resolve_component_bundle L st object_id start len =
     Option.bind (case id_behind_colon object_id of Some i \<Rightarrow> Some i | None \<Rightarrow> parse_u64 object_id) (\<lambda>i.
     Option.bind (ok_option (materialize_bundle (cl_sha L) (cs_catalog st) i)) (\<lambda>bs.
       slice_component_bytes bs start len))"

definition resolve_assembly_component :: "'m ClientLibs \<Rightarrow> ClientState \<Rightarrow> AssemblyComponentRef \<Rightarrow> bytes option" where
  "resolve_assembly_component L st c =
     (case c of
        CR_ExactBundle i start len \<Rightarrow> resolve_component_bundle L st i start len
      | _ \<Rightarrow> resolve_component_object st (ac_object_id c) (ac_start c) (ac_len c))"

definition expand_assembly :: "'m ClientLibs \<Rightarrow> ClientState \<Rightarrow> Assembly \<Rightarrow> bytes option" where
  "expand_assembly L st a = ok_option (expand_assembly_body (as_body a) (resolve_assembly_component L st))"

definition signature_matches :: "AssemblyReuseSignature \<Rightarrow> AssemblyRef \<Rightarrow> bool" where
  "signature_matches s r \<longleftrightarrow>
     ov_object_revision (ar_version r) \<le> ov_object_revision (rus_version s)
     \<and> rus_body_shape_hash s = ar_body_shape_hash r
     \<and> rus_dependency_fingerprint s = ar_dependency_fingerprint r \<and> rus_output_len s = ar_output_len r"

definition resolve_assembly_reference :: "'m ClientLibs \<Rightarrow> ClientState \<Rightarrow> AssemblyRef \<Rightarrow> bytes option" where
  "resolve_assembly_reference L st r =
     Option.bind (cs_assembly_sync_versions st (ar_assembly_id r)) (\<lambda>synced.
       if \<not> signature_matches synced r then None
       else Option.bind (cs_assemblies st (ar_assembly_id r)) (\<lambda>a.
         if \<not> signature_matches (assembly_reuse_signature (cl_simd L) a) r then None
         else expand_assembly L st a))"

definition resolve_dictionary_tokens :: "ClientState \<Rightarrow> u64 \<Rightarrow> u16 list \<Rightarrow> bytes option" where
  "resolve_dictionary_tokens st i token_ids = Option.bind (cs_dictionaries st i) (\<lambda>d. decode_tokens d token_ids)"

definition resolve_transform_basis :: "'m ClientLibs \<Rightarrow> ClientState \<Rightarrow> TransformBasisRef \<Rightarrow> bytes option" where
  "resolve_transform_basis L st b =
     map_option (\<lambda>bs. let start = unat (tb_start b); end = min (start + unat (tb_len b)) (length bs) in
         if start \<le> end then slice start end bs else bs)
       (case tb_object_kind b of
          OK_ExactBlock \<Rightarrow> Option.bind (parse_prefixed ''block:'' (tb_object_id b)) (\<lambda>i.
            map_option be_material (om_get (cat_blocks (cs_catalog st)) i))
        | OK_ExactBundle \<Rightarrow> Option.bind (parse_prefixed ''bundle:'' (tb_object_id b)) (\<lambda>i.
            ok_option (materialize_bundle (cl_sha L) (cs_catalog st) i))
        | _ \<Rightarrow> None)"

text \<open>An edge of a schema is added to the first node with its number unless the node has that child already.\<close>

fun add_child :: "u32 \<Rightarrow> u32 \<Rightarrow> PrgNode list \<Rightarrow> PrgNode list" where
  "add_child n c [] = []"
| "add_child n c (node # nodes) =
     (if pn_node_id node = n
      then (if c \<in> set (pn_child_ids node) then node else node\<lparr>pn_child_ids := pn_child_ids node @ [c]\<rparr>) # nodes
      else node # add_child n c nodes)"

definition schema_root :: "SchemaDefPayload \<Rightarrow> PrgNode list \<Rightarrow> u32" where
  "schema_root p nodes =
     (case find (\<lambda>node. pn_node_id node \<notin> snd ` set (sp_edge_table p)) nodes of
        Some node \<Rightarrow> pn_node_id node
      | None \<Rightarrow> (case nodes of [] \<Rightarrow> 0 | node # _ \<Rightarrow> pn_node_id node))"

definition schema_graph :: "SchemaDefPayload \<Rightarrow> PredictiveReconstructionGraph" where
  "schema_graph p =
     (let nodes = foldl (\<lambda>nodes (a, b). add_child a b nodes) (sp_node_table p) (sp_edge_table p) in
      prg_new (schema_root p nodes) (sp_decode_max_depth p) (sch_output_len (sp_schema p)) nodes
        (map od_object_id (sdc_dependencies (sp_dependency_closure p))))"

fun find_map :: "('a \<Rightarrow> 'b option) \<Rightarrow> 'a list \<Rightarrow> 'b option" where
  "find_map f [] = None"
| "find_map f (x # xs) = (case f x of Some y \<Rightarrow> Some y | None \<Rightarrow> find_map f xs)"

lemma find_map_cong [fundef_cong]:
  "xs = ys \<Longrightarrow> (\<And>x. x \<in> set ys \<Longrightarrow> f x = g x) \<Longrightarrow> find_map f xs = find_map g ys"
  by (induction ys arbitrary: xs) (auto split: option.split)

definition hint_candidate :: "string \<Rightarrow> EpisodeHintPayload \<Rightarrow> EpisodeObjectRef option" where
  "hint_candidate object_id h =
     map_option ep_object_ref (find (\<lambda>c. eo_object_id (ep_object_ref c) = object_id) (eh_candidates h))"

definition plain_resolvers :: "'m ClientLibs \<Rightarrow> ClientState \<Rightarrow> (EpisodeObjectRef \<Rightarrow> bytes option) \<Rightarrow> (u64 \<Rightarrow> bytes option) \<Rightarrow> PrgResolvers" where
  "plain_resolvers L st episode schema =
     \<lparr>rv_substrate = client_substrate L st, rv_assembly = resolve_assembly_reference L st,
      rv_transform = cs_materialized_transforms st, rv_dictionary = resolve_dictionary_tokens st,
      rv_episode = episode, rv_schema = schema\<rparr>"

fun resolve_episode_at :: "'m ClientLibs \<Rightarrow> ClientState \<Rightarrow> nat \<Rightarrow> EpisodeObjectRef \<Rightarrow> bytes option"
  and resolve_schema_at :: "'m ClientLibs \<Rightarrow> ClientState \<Rightarrow> nat \<Rightarrow> u64 set \<Rightarrow> u64 \<Rightarrow> StateProgramError + bytes" where
  "resolve_episode_at L st 0 r = None"
| "resolve_episode_at L st (Suc n) r =
     (let item = Option.bind (id_behind_colon (eo_object_id r)) (cached_bytes st);
          hinted = find_map (\<lambda>h. Option.bind (hint_candidate (eo_object_id r) h) (resolve_episode_at L st n))
            (rev (cs_installed_episode_hints st)) in
      case eo_object_kind r of
        OK_Assembly \<Rightarrow> Option.bind (id_behind_colon (eo_object_id r)) (\<lambda>i.
          Option.bind (cs_assemblies st i) (expand_assembly L st))
      | OK_Transform \<Rightarrow> Option.bind (parse_transform_id (eo_object_id r)) (cs_materialized_transforms st)
      | OK_Schema \<Rightarrow> Option.bind (parse_schema_id (eo_object_id r)) (\<lambda>i. ok_option (resolve_schema_at L st n {} i))
      | OK_ExactState \<Rightarrow> item | OK_PredictiveObject \<Rightarrow> item
      | OK_EpisodeHint \<Rightarrow> hinted | OK_ReplayHint \<Rightarrow> hinted
      | _ \<Rightarrow> None)"
| "resolve_schema_at L st 0 active i = Err (missing_dependency (show_u64 i))"
| "resolve_schema_at L st (Suc n) active i =
     (if i \<in> active then Err (SE_Prg (PrgCycleDetected (ucast i)))
      else and_then (ok_or (missing_dependency (show_u64 i)) (cs_schema_payloads st i)) (\<lambda>p.
        execute_prg (schema_graph p) (plain_resolvers L st (resolve_episode_at L st n)
          (\<lambda>j. ok_option (resolve_schema_at L st n (insert i active) j)))))"

declare resolve_episode_at.simps [simp del] resolve_schema_at.simps [simp del]

definition resolve_episode_reference :: "'m ClientLibs \<Rightarrow> ClientState \<Rightarrow> EpisodeObjectRef \<Rightarrow> bytes option" where
  "resolve_episode_reference L st r = resolve_episode_at L st (cl_levels L) r"

definition resolve_schema_output :: "'m ClientLibs \<Rightarrow> ClientState \<Rightarrow> u64 \<Rightarrow> bytes option" where
  "resolve_schema_output L st i = ok_option (resolve_schema_at L st (cl_levels L) {} i)"

definition client_resolvers :: "'m ClientLibs \<Rightarrow> ClientState \<Rightarrow> PrgResolvers" where
  "client_resolvers L st = plain_resolvers L st (resolve_episode_reference L st) (resolve_schema_output L st)"

section \<open>When resolution is settled\<close>

text \<open>Two runs of a graph agree when their resolvers agree on what its nodes refer to.\<close>

definition agree_on :: "PrgNode \<Rightarrow> PrgResolvers \<Rightarrow> PrgResolvers \<Rightarrow> bool" where
  "agree_on node R S \<longleftrightarrow>
     rv_substrate R = rv_substrate S \<and> rv_assembly R = rv_assembly S \<and> rv_transform R = rv_transform S
     \<and> (\<forall>r. pn_episode_ref node = Some r \<longrightarrow> rv_episode R r = rv_episode S r)
     \<and> (\<forall>i. pn_schema_ref node = Some i \<longrightarrow> rv_schema R i = rv_schema S i)"

lemma prg_combine_agree: "agree_on node R S \<Longrightarrow> prg_combine R node parts = prg_combine S node parts"
  by (cases "pn_kind node"; cases "pn_episode_ref node"; cases "pn_schema_ref node")
    (simp_all add: agree_on_def prg_combine_def)

lemma execute_prg_node_agree:
  assumes "\<forall>node \<in> set (prg_nodes g). agree_on node R S"
  shows "execute_prg_node g R stack depth i = execute_prg_node g S stack depth i"
  using assms
proof (induction g R stack depth i rule: execute_prg_node.induct)
  case (1 g R stack depth i)
  show ?case
  proof (cases "depth > prg_depth_cap g \<or> i \<in> stack")
    case True
    then show ?thesis by (subst (1 2) execute_prg_node.simps) (auto split: option.split)
  next
    case False
    show ?thesis
    proof (cases "find_prg_node g i")
      case None
      then show ?thesis by (subst (1 2) execute_prg_node.simps) simp
    next
      case (Some node)
      have combine: "prg_combine R node = prg_combine S node"
        using prg_combine_agree "1.prems" Some unfolding find_prg_node_def
        by (metis find_SomeD ext)
      have children: "try_map (execute_prg_node g R (insert i stack) (saturating_add depth 1)) cs
          = try_map (execute_prg_node g S (insert i stack) (saturating_add depth 1)) cs" for cs
        using "1.IH" [OF _ Some] False "1.prems" by (intro try_map_cong) auto
      show ?thesis
        by (subst (1 2) execute_prg_node.simps)
          (cases "prg_children node"; simp add: Some False combine children)
    qed
  qed
qed

lemma execute_prg_agree:
  "\<forall>node \<in> set (prg_nodes g). agree_on node R S \<Longrightarrow> execute_prg g R = execute_prg g S"
  by (simp add: execute_prg_def execute_prg_node_agree)

text \<open>A grading of references that falls from every reference to those it is resolved by: hints name their candidates,
  schema references their schema, and schemas what their nodes refer to.\<close>

datatype reference = Ref_Episode EpisodeObjectRef | Ref_Schema u64

definition graded :: "ClientState \<Rightarrow> (reference \<Rightarrow> nat) \<Rightarrow> bool" where
  "graded st rank \<longleftrightarrow>
     (\<forall>h r c. h \<in> set (cs_installed_episode_hints st) \<and> eo_object_kind r \<in> {OK_EpisodeHint, OK_ReplayHint}
        \<and> hint_candidate (eo_object_id r) h = Some c \<longrightarrow> rank (Ref_Episode c) < rank (Ref_Episode r))
     \<and> (\<forall>r i. eo_object_kind r = OK_Schema \<and> parse_schema_id (eo_object_id r) = Some i
        \<longrightarrow> rank (Ref_Schema i) < rank (Ref_Episode r))
     \<and> (\<forall>i p node. cs_schema_payloads st i = Some p \<and> node \<in> set (prg_nodes (schema_graph p)) \<longrightarrow>
        (\<forall>r. pn_episode_ref node = Some r \<longrightarrow> rank (Ref_Episode r) < rank (Ref_Schema i))
        \<and> (\<forall>j. pn_schema_ref node = Some j \<longrightarrow> rank (Ref_Schema j) < rank (Ref_Schema i)))"

lemma gradedD:
  assumes "graded st rank"
  shows "h \<in> set (cs_installed_episode_hints st) \<Longrightarrow> eo_object_kind r = OK_EpisodeHint \<or> eo_object_kind r = OK_ReplayHint \<Longrightarrow>
      hint_candidate (eo_object_id r) h = Some c \<Longrightarrow> rank (Ref_Episode c) < rank (Ref_Episode r)"
    and "eo_object_kind r = OK_Schema \<Longrightarrow> parse_schema_id (eo_object_id r) = Some i \<Longrightarrow>
      rank (Ref_Schema i) < rank (Ref_Episode r)"
    and "cs_schema_payloads st i = Some p \<Longrightarrow> node \<in> set (prg_nodes (schema_graph p)) \<Longrightarrow> pn_episode_ref node = Some r \<Longrightarrow>
      rank (Ref_Episode r) < rank (Ref_Schema i)"
    and "cs_schema_payloads st i = Some p \<Longrightarrow> node \<in> set (prg_nodes (schema_graph p)) \<Longrightarrow> pn_schema_ref node = Some j \<Longrightarrow>
      rank (Ref_Schema j) < rank (Ref_Schema i)"
  using assms unfolding graded_def by blast+

lemma resolution_level_step:
  assumes "graded st rank"
  shows "(rank (Ref_Episode r) < n \<longrightarrow> resolve_episode_at L st (Suc n) r = resolve_episode_at L st n r)
    \<and> (rank (Ref_Schema i) < n \<longrightarrow> resolve_schema_at L st (Suc n) active i = resolve_schema_at L st n active i)"
proof (induction n arbitrary: r i active)
  case (Suc n)
  have hints: "find_map (\<lambda>h. Option.bind (hint_candidate (eo_object_id r) h) (resolve_episode_at L st (Suc n)))
        (rev (cs_installed_episode_hints st))
      = find_map (\<lambda>h. Option.bind (hint_candidate (eo_object_id r) h) (resolve_episode_at L st n))
        (rev (cs_installed_episode_hints st))"
    if "rank (Ref_Episode r) < Suc n" "eo_object_kind r = OK_EpisodeHint \<or> eo_object_kind r = OK_ReplayHint"
    using that gradedD(1) [OF assms] Suc.IH by (intro find_map_cong Option.bind_cong) fastforce+
  have schema: "resolve_schema_at L st (Suc n) {} j = resolve_schema_at L st n {} j"
    if "rank (Ref_Episode r) < Suc n" "eo_object_kind r = OK_Schema" "parse_schema_id (eo_object_id r) = Some j" for j
    using that gradedD(2) [OF assms that(2,3)] Suc.IH by fastforce
  have "rank (Ref_Episode r) < Suc n \<longrightarrow> resolve_episode_at L st (Suc (Suc n)) r = resolve_episode_at L st (Suc n) r"
    using hints schema
    by (subst (1 2) resolve_episode_at.simps(2))
      (cases "eo_object_kind r"; cases "parse_schema_id (eo_object_id r)"; simp)
  moreover have "resolve_schema_at L st (Suc (Suc n)) active i = resolve_schema_at L st (Suc n) active i"
    if "rank (Ref_Schema i) < Suc n"
  proof (cases "cs_schema_payloads st i")
    case (Some p)
    let ?S = "\<lambda>n. plain_resolvers L st (resolve_episode_at L st n) (\<lambda>j. ok_option (resolve_schema_at L st n (insert i active) j))"
    have "agree_on node (?S (Suc n)) (?S n)" if "node \<in> set (prg_nodes (schema_graph p))" for node
      using gradedD(3,4) [OF assms Some that] \<open>rank (Ref_Schema i) < Suc n\<close> Suc.IH
      by (fastforce simp: agree_on_def plain_resolvers_def)
    then have "execute_prg (schema_graph p) (?S (Suc n)) = execute_prg (schema_graph p) (?S n)"
      by (intro execute_prg_agree) blast
    with Some show ?thesis by (simp add: resolve_schema_at.simps(2))
  qed (simp add: resolve_schema_at.simps(2))
  ultimately show ?case by blast
qed simp


definition sample_candidate :: "EpisodeObjectRef \<Rightarrow> EpisodeCompletionCandidate" where
  "sample_candidate r = \<lparr>ep_object_ref = r, ep_transition_count = 0, ep_branch_rank = 0, ep_precision_band = PB_Exact,
     ep_cue_overlap = 0, ep_recency_score = 0, ep_route_support = 0, ep_transition_match = 0, ep_lag_bucket = 0,
     ep_admissible = True\<rparr>"

definition sample_hint :: "EpisodeObjectRef \<Rightarrow> EpisodeHintPayload" where
  "sample_hint r = episode_hint_new 7 0 PB_Exact [] [sample_candidate r]"

lemma hint_candidate_sample [simp]:
  "hint_candidate i (sample_hint r) = (if eo_object_id r = i then Some r else None)"
  by (simp add: hint_candidate_def sample_hint_def episode_hint_new_def sample_candidate_def)

abbreviation hinted_item :: EpisodeObjectRef where
  "hinted_item \<equiv> \<lparr>eo_object_kind = OK_ExactState, eo_object_id = ''item:1''\<rparr>"

abbreviation item_hint :: EpisodeObjectRef where
  "item_hint \<equiv> \<lparr>eo_object_kind = OK_EpisodeHint, eo_object_id = ''item:1''\<rparr>"


text \<open>A hint that names itself has no result with any number of levels: the code calls itself until the stack is used up.\<close>

lemma hint_naming_itself:
  assumes "cs_installed_episode_hints st = [h]" "hint_candidate (eo_object_id r) h = Some r"
    "eo_object_kind r = OK_EpisodeHint \<or> eo_object_kind r = OK_ReplayHint"
  shows "resolve_episode_at L st n r = None"
proof (induction n)
  case (Suc n)
  with assms show ?case by (auto simp: resolve_episode_at.simps(2) Let_def)
qed (simp add: resolve_episode_at.simps(1))

end
