(* ===== verification/Pulzz_Client.thy ===== *)
theory Pulzz_Client
  imports Pulzz_Client_State
begin

text \<open>
  What a client does with the records it receives (\<open>client/src/lib.rs\<close>, \<open>ClientState::apply_record\<close>): exact states
  and batches, resynchronization and retirement with acknowledgements, predictive dispatches with their staged inline
  definitions, definitions of assemblies, transforms and schemas, hints, and repairs.  An operation that can fail
  returns the state it leaves together with its result, as the code keeps what it changed before an error.
\<close>

type_synonym applied = "ClientState \<times> (ClientApplyError + unit)"

section \<open>Small steps on the state\<close>

definition map_retain :: "('k \<Rightarrow> bool) \<Rightarrow> ('k \<rightharpoonup> 'v) \<Rightarrow> ('k \<rightharpoonup> 'v)" where
  "map_retain keep m = (\<lambda>k. if keep k then m k else None)"

lemma map_retain_apply [simp]: "map_retain keep m k = (if keep k then m k else None)"
  by (simp add: map_retain_def)

definition sparse_cue_default :: SparseCue where
  "sparse_cue_default = \<lparr>cue_family_bits = 0, cue_role_bits = 0, cue_delimiter_bits = 0, cue_length_bucket_bits = 0,
     cue_temporal_bits = 0\<rparr>"

definition promote_to_substrate_catalog :: "'m ClientLibs \<Rightarrow> SourceKind \<Rightarrow> bytes \<Rightarrow> ClientState \<Rightarrow> ClientState" where
  "promote_to_substrate_catalog L kind exact_bytes st =
     (if contains_block (cs_catalog st) (derive_catalog_block_id (cl_sha L) kind exact_bytes) then st
      else case insert_block (cl_sha L) kind exact_bytes (cs_catalog st) of
          Inr (catalog, _) \<Rightarrow> st\<lparr>cs_catalog := catalog\<rparr>
        | Inl _ \<Rightarrow> st)"

fun split_comma_space :: "string \<Rightarrow> string list" where
  "split_comma_space [] = [[]]"
| "split_comma_space [c] = [[c]]"
| "split_comma_space (a # b # s) =
     (if a = CHR '','' \<and> b = CHR '' '' then [] # split_comma_space s
      else case split_comma_space (b # s) of part # parts \<Rightarrow> (a # part) # parts | [] \<Rightarrow> [[a]])"

definition repair_request_is_resolved_against ::
  "SharedBlockCatalog \<Rightarrow> (ItemId \<rightharpoonup> ChpmtObject) \<Rightarrow> RepairRequest \<Rightarrow> bool" where
  "repair_request_is_resolved_against catalog cache request =
     (let basis = list_all (contains_block catalog) (rq_missing_blocks request)
            \<and> list_all (contains_bundle catalog) (rq_missing_bundles request) in
      case rq_cause request of
        MissingBasis \<Rightarrow> basis
      | CatalogVersionMismatch _ _ \<Rightarrow> basis
      | UnsupportedStateReference detail \<Rightarrow>
          \<not> list_ex (\<lambda>part. case parse_prefixed ''missing prior state '' part of
               Some item_id \<Rightarrow> cache item_id = None | None \<Rightarrow> False) (split_comma_space detail))"

definition prune_resolved_repair_requests :: "ClientState \<Rightarrow> ClientState" where
  "prune_resolved_repair_requests st =
     st\<lparr>cs_repair_requests := filter (\<lambda>r. \<not> repair_request_is_resolved_against (cs_catalog st) (cs_cache st) r)
          (cs_repair_requests st)\<rparr>"

definition enqueue_repair_request :: "RepairRequest \<Rightarrow> ClientState \<Rightarrow> ClientState" where
  "enqueue_repair_request request st =
     (if request \<in> set (cs_repair_requests st) then st
      else st\<lparr>cs_repair_requests := cs_repair_requests st @ [request]\<rparr>)"

definition same_ack :: "MemoryAckPayload \<Rightarrow> MemoryAckPayload \<Rightarrow> bool" where
  "same_ack a b \<longleftrightarrow>
     map_plane a = map_plane b \<and> map_object_kind a = map_object_kind b \<and> map_object_id a = map_object_id b
     \<and> map_acked_record_type a = map_acked_record_type b \<and> map_acked_seq_no a = map_acked_seq_no b"

definition enqueue_memory_ack :: "MemoryAckPayload \<Rightarrow> ClientState \<Rightarrow> ClientState" where
  "enqueue_memory_ack payload st =
     (if list_ex (\<lambda>existing. same_ack existing payload) (cs_pending_memory_acks st) then st
      else st\<lparr>cs_pending_memory_acks := cs_pending_memory_acks st @ [payload]\<rparr>)"

definition memory_ack :: "MemoryPlane \<Rightarrow> ObjectKind \<Rightarrow> string \<Rightarrow> RecordHeader \<Rightarrow> MemoryAckPayload" where
  "memory_ack plane kind object_id h =
     \<lparr>map_version = 1, map_plane = plane, map_object_kind = kind, map_object_id = object_id,
      map_acked_record_type = rh_record_type h, map_acked_seq_no = rh_seq_no h\<rparr>"

definition record_route_outcome_detail ::
  "ControllerRouteFamily \<Rightarrow> u64 \<Rightarrow> bool \<Rightarrow> ContextTreeSymbol option \<Rightarrow> ContextTreeOutcome \<Rightarrow> ClientState \<Rightarrow> ClientState" where
  "record_route_outcome_detail family tick success symbol out st =
     (let key = show_nat (CRF_disc family);
          stats = (case cs_route_statistics st key of Some s \<Rightarrow> s
            | None \<Rightarrow> \<lparr>rs_route_family = family, rs_source_kind = None, rs_context_hash = None, rs_success_count = 0,
                rs_failure_count = 0, rs_last_seen_tick = 0\<rparr>) in
      st\<lparr>cs_route_statistics := (cs_route_statistics st)(key \<mapsto> route_statistics_record tick success stats),
        cs_context_governor := (case symbol of Some s \<Rightarrow> governor_observe s out (cs_context_governor st)
          | None \<Rightarrow> cs_context_governor st),
        cs_episode_memory := episode_record_route_outcome family None None tick success (cs_episode_memory st)\<rparr>)"

definition record_route_outcome :: "ControllerRouteFamily \<Rightarrow> u64 \<Rightarrow> bool \<Rightarrow> ClientState \<Rightarrow> ClientState" where
  "record_route_outcome family tick success =
     record_route_outcome_detail family tick success None
       \<lparr>co_success = success, co_fallback = False, co_sync_failure = False, co_contradiction_mass = 0\<rparr>"

definition append_episode_activation :: "EpisodeActivationEvent \<Rightarrow> ClientState \<Rightarrow> ClientState" where
  "append_episode_activation event st = st\<lparr>cs_episode_memory := append_activation event (cs_episode_memory st)\<rparr>"

definition activation ::
  "'m ClientLibs \<Rightarrow> SourceKind \<Rightarrow> EpisodeObjectRef \<Rightarrow> SparseCue \<Rightarrow> u64 \<Rightarrow> EpisodeActivationEvent" where
  "activation L kind object_ref cue tick =
     \<lparr>ev_source_kind = kind, ev_object_ref = object_ref, ev_cue = cue,
      ev_context_hash = derive_context_hash (cl_simd L) cue object_ref, ev_tick = tick, ev_success = True\<rparr>"

definition bound_kind :: "ClientState \<Rightarrow> ItemId \<Rightarrow> SourceKind" where
  "bound_kind st item_id = (case cs_source_bindings st item_id of Some d \<Rightarrow> sd_kind d | None \<Rightarrow> Binary)"

definition unlabelled_descriptor :: "'m ClientLibs \<Rightarrow> SourceKind \<Rightarrow> bytes \<Rightarrow> SourceDescriptor" where
  "unlabelled_descriptor L kind exact_bytes =
     \<lparr>sd_kind = kind, sd_source_hash = compute_source_hash (cl_sha L) kind None exact_bytes,
      sd_byte_len = length exact_bytes, sd_mime = None, sd_label = None\<rparr>"

definition object_from_exact_bytes ::
  "SourceDescriptor \<Rightarrow> SourceKind \<Rightarrow> ObjectKind \<Rightarrow> SparseCue \<Rightarrow> bytes \<Rightarrow> ChpmtObject" where
  "object_from_exact_bytes d kind object_kind cue exact_bytes =
     \<lparr>co_descriptor = d, co_object_key = runtime_object_key_from_bytes d exact_bytes, co_source_kind = kind,
      co_object_kind = object_kind, co_cue = cue, co_exact_bytes = exact_bytes\<rparr>"

definition descriptor_for :: "'m ClientLibs \<Rightarrow> ClientState \<Rightarrow> ItemId \<Rightarrow> SourceKind \<Rightarrow> bytes \<Rightarrow> SourceDescriptor" where
  "descriptor_for L st item_id kind exact_bytes =
     (case cs_source_bindings st item_id of Some d \<Rightarrow> d | None \<Rightarrow> unlabelled_descriptor L kind exact_bytes)"

definition chpmt_object_for_item :: "'m ClientLibs \<Rightarrow> ClientState \<Rightarrow> ItemId \<Rightarrow> bytes \<Rightarrow> ObjectKind \<Rightarrow> ChpmtObject" where
  "chpmt_object_for_item L st item_id exact_bytes object_kind =
     (let d = descriptor_for L st item_id Binary exact_bytes in
      object_from_exact_bytes d (sd_kind d) object_kind (sc_cue (structural_cue_summary d exact_bytes)) exact_bytes)"

section \<open>Exact states and batches\<close>

text \<open>Every sample is learnt from: dictionaries, and templates for JSON.\<close>

definition learn :: "'m ClientLibs \<Rightarrow> SourceKind \<Rightarrow> bytes \<Rightarrow> ClientState \<Rightarrow> ClientState" where
  "learn L kind exact_bytes st =
     st\<lparr>cs_dict_manager := fst (maybe_train (cl_zstd L) kind (add_sample kind exact_bytes (cs_dict_manager st))),
        cs_template_registry := (if kind = Json then fst (try_register kind exact_bytes (cs_template_registry st))
          else cs_template_registry st)\<rparr>"

definition MAX_BATCH_ITEMS :: nat where "MAX_BATCH_ITEMS = 1024"

definition batch_decode :: "'m ClientLibs \<Rightarrow> bytes \<Rightarrow> BatchError + BatchItem list" where
  "batch_decode L bs =
     and_then (map_err BE_Postcard (cl_batch_read L bs)) (\<lambda>items.
       if length items > MAX_BATCH_ITEMS then Err (BE_TooManyItems (length items) MAX_BATCH_ITEMS) else Ok items)"

definition apply_batch_item :: "'m ClientLibs \<Rightarrow> ClientState \<Rightarrow> BatchItem \<Rightarrow> ClientState" where
  "apply_batch_item L st item =
     (let kind = bi_source_kind item; exact_bytes = bi_payload item; st = learn L kind exact_bytes st in
      st\<lparr>cs_cache := (cs_cache st)(bi_item_id item \<mapsto>
           object_from_exact_bytes (unlabelled_descriptor L kind exact_bytes) kind OK_ExactState
             (derive_sparse_cue_from_bytes kind exact_bytes) exact_bytes)\<rparr>)"

definition apply_batch_envelope :: "'m ClientLibs \<Rightarrow> bytes \<Rightarrow> ClientState \<Rightarrow> applied" where
  "apply_batch_envelope L payload st =
     (let envelope_bytes = (if length payload > 64 then
            (case zstd_decompress_raw (cl_zstd L) payload 2097152 of Inr d \<Rightarrow> d | Inl _ \<Rightarrow> payload) else payload) in
      case batch_decode L envelope_bytes of
        Inl e \<Rightarrow> (st, Err (CA_PredictiveDispatch (DC_Batch e)))
      | Inr items \<Rightarrow> (foldl (apply_batch_item L) st items, Ok ()))"

definition drop_items :: "(ItemId \<Rightarrow> bool) \<Rightarrow> ClientState \<Rightarrow> ClientState" where
  "drop_items P st =
     st\<lparr>cs_cache := map_retain (\<lambda>i. \<not> P i) (cs_cache st), cs_predictors := map_retain (\<lambda>i. \<not> P i) (cs_predictors st),
        cs_source_bindings := map_retain (\<lambda>i. \<not> P i) (cs_source_bindings st)\<rparr>"

definition predicted_bytes :: "ClientState \<Rightarrow> ItemId \<Rightarrow> bytes option" where
  "predicted_bytes st item_id =
     (case predictor_state_for item_id (cs_predictors st item_id) of PS_Ready _ \<Rightarrow> cached_bytes st item_id | PS_Empty \<Rightarrow> None)"

definition decode_error :: "ItemId \<Rightarrow> CodecError \<Rightarrow> ClientApplyError" where
  "decode_error item_id e = (if e = MissingPredictor then CA_MissingPredictor item_id else CA_DecodePayload e)"

text \<open>The object with its compression undone; a payload that cannot be decompressed is kept without its prefix.\<close>

definition decompressed_object :: "'m ClientLibs \<Rightarrow> ItemId \<Rightarrow> ChpmtObject \<Rightarrow> ClientState \<Rightarrow> ClientState \<times> ChpmtObject" where
  "decompressed_object L item_id obj st =
     (if starts_with_compression_tag (co_exact_bytes obj) then
        let payload = co_exact_bytes obj; kind = co_source_kind obj;
            decompressed = (case decode_compressed_payload (cl_zstd L) (cl_columnar_read L) payload (cs_dict_manager st)
                (cs_template_registry st) (cs_previous_versions st) kind of
              Inr d \<Rightarrow> d
            | Inl _ \<Rightarrow> if length payload > 2 then drop 2 payload else payload);
            st = learn L kind decompressed st;
            d = descriptor_for L st item_id kind decompressed in
        (st, object_from_exact_bytes d (sd_kind d) OK_ExactState (sc_cue (structural_cue_summary d decompressed)) decompressed)
      else (st, obj))"

definition store_exact_state :: "'m ClientLibs \<Rightarrow> RecordHeader \<Rightarrow> ChpmtObject \<Rightarrow> ClientState \<Rightarrow> ClientState" where
  "store_exact_state L h obj st =
     (let item_id = rh_item_id h; exact_bytes = co_exact_bytes obj; kind = co_source_kind obj;
          st = st\<lparr>cs_previous_versions := (cs_previous_versions st)(item_id \<mapsto> exact_bytes),
                 cs_cache := (cs_cache st)(item_id \<mapsto> obj)\<rparr>;
          st = promote_to_substrate_catalog L kind exact_bytes st;
          st = st\<lparr>cs_predictors := (cs_predictors st)(item_id \<mapsto> \<lparr>pem_item_id = item_id, pem_source_kind = kind,
                 pem_object_kind = OK_ExactState, pem_cue = co_cue obj\<rparr>)\<rparr>;
          st = append_episode_activation (activation L kind
                 \<lparr>eo_object_kind = OK_ExactState, eo_object_id = ''item:'' @ show_u64 item_id\<rparr> (co_cue obj) (rh_seq_no h)) st;
          st = (if rh_record_type h = ExactState then record_route_outcome CRF_DirectState (rh_seq_no h) True st else st) in
      prune_resolved_repair_requests st)"

definition apply_data_record :: "'m ClientLibs \<Rightarrow> Record \<Rightarrow> ClientState \<Rightarrow> applied" where
  "apply_data_record L r st =
     (let h = rec_header r; item_id = rh_item_id h in
      if flags_contains (rh_flags h) IS_EVICT \<or> flags_contains (rh_flags h) IS_INVALIDATE
      then (prune_resolved_repair_requests (drop_items ((=) item_id) st), Ok ())
      else if rh_record_type h = BatchEnvelope then apply_batch_envelope L (rec_payload r) st
      else case decode_data_payload_to_runtime_object (cl_sha L) (cl_ans L) (cl_assets L) (rec_payload r)
          (rh_codec_mode h) (predicted_bytes st item_id) (cs_source_bindings st item_id) Binary OK_ExactState of
        Inl e \<Rightarrow> (st, Err (decode_error item_id e))
      | Inr obj \<Rightarrow>
          if rh_codec_mode h = CM_None then (st, Err CA_UnsupportedDataShape)
          else let (st, obj) = decompressed_object L item_id obj st in (store_exact_state L h obj st, Ok ()))"

section \<open>Resynchronization and retirement\<close>

definition clear_assembly_plane :: "ClientState \<Rightarrow> ClientState" where
  "clear_assembly_plane st =
     st\<lparr>cs_assemblies := Map.empty, cs_assembly_index := Map.empty, cs_assembly_sync_versions := Map.empty,
        cs_installed_assembly_defs := [], cs_assembly_cache := web_cache_default\<rparr>"

text \<open>What both the empty resync and that of the substrate plane clear.\<close>

definition clear_substrate_dependents :: "ClientState \<Rightarrow> ClientState" where
  "clear_substrate_dependents st =
     (clear_assembly_plane (st\<lparr>cs_cache := Map.empty, cs_source_bindings := Map.empty, cs_catalog := catalog_default,
         cs_dictionaries := Map.empty\<rparr>))
       \<lparr>cs_transforms := Map.empty, cs_materialized_transforms := Map.empty, cs_schemas := Map.empty,
        cs_schema_payloads := Map.empty, cs_installed_schema_defs := [], cs_installed_episode_hints := []\<rparr>"

definition resync_plane :: "PlaneResyncPayload \<Rightarrow> ClientState \<Rightarrow> ClientState" where
  "resync_plane p st =
     (let st = (case prp_plane p of
          AtomSubstrate \<Rightarrow> clear_substrate_dependents st
        | AssemblyPlane \<Rightarrow> clear_assembly_plane st
        | TransformPlane \<Rightarrow> st\<lparr>cs_transforms := Map.empty, cs_materialized_transforms := Map.empty\<rparr>
        | Episode \<Rightarrow> st\<lparr>cs_episode_memory := episode_memory_bounded, cs_installed_episode_hints := []\<rparr>
        | SchemaPlane \<Rightarrow> st\<lparr>cs_schemas := Map.empty, cs_schema_payloads := Map.empty, cs_installed_schema_defs := []\<rparr>
        | Controller \<Rightarrow> st\<lparr>cs_route_statistics := Map.empty, cs_context_governor := governor_default\<rparr>);
          st = (if prp_reset_predictors p then st\<lparr>cs_predictors := Map.empty\<rparr> else st) in
      st\<lparr>cs_pending_memory_acks := []\<rparr>)"

definition apply_resync_record :: "'m ClientLibs \<Rightarrow> Record \<Rightarrow> ClientState \<Rightarrow> applied" where
  "apply_resync_record L r st =
     (if rec_payload r = []
      then ((clear_substrate_dependents st)\<lparr>cs_predictors := Map.empty, cs_pending_memory_acks := []\<rparr>, Ok ())
      else case PlaneResync_decode (cl_resync_read L) (rec_payload r) of
        Inl e \<Rightarrow> (st, Err (CA_PredictiveDispatch (DC_Wire e)))
      | Inr p \<Rightarrow> (resync_plane p st, Ok ()))"

definition retire_assembly_object :: "string \<Rightarrow> ClientState \<Rightarrow> ClientState" where
  "retire_assembly_object object_id st =
     (case id_behind_colon object_id of
        None \<Rightarrow> st
      | Some i \<Rightarrow> st\<lparr>cs_assemblies := (cs_assemblies st)(i := None),
          cs_assembly_index := (cs_assembly_index st)(assembly_object_id i := None),
          cs_assembly_sync_versions := (cs_assembly_sync_versions st)(i := None),
          cs_installed_assembly_defs := filter (\<lambda>d. as_assembly_id (adp_assembly d) \<noteq> i) (cs_installed_assembly_defs st)\<rparr>)"

definition retire_memory_object :: "MemoryPlane \<Rightarrow> string \<Rightarrow> ClientState \<Rightarrow> ClientState" where
  "retire_memory_object plane object_id st =
     (case plane of
        AtomSubstrate \<Rightarrow>
          prune_resolved_repair_requests (drop_items (case parse_item_id object_id of
              Some item_id \<Rightarrow> (=) item_id
            | None \<Rightarrow> (\<lambda>i. case cs_source_bindings st i of Some d \<Rightarrow> hex_encode (sd_source_hash d) = object_id | None \<Rightarrow> False)) st)
      | AssemblyPlane \<Rightarrow> retire_assembly_object object_id st
      | TransformPlane \<Rightarrow>
          st\<lparr>cs_transforms := map_retain (\<lambda>i. show_u64 i \<noteq> object_id) (cs_transforms st),
            cs_materialized_transforms := map_retain (\<lambda>i. show_u64 i \<noteq> object_id) (cs_materialized_transforms st)\<rparr>
      | Episode \<Rightarrow>
          st\<lparr>cs_installed_episode_hints :=
            filter (\<lambda>h. show_u64 (eh_context_hash h) \<noteq> object_id) (cs_installed_episode_hints st)\<rparr>
      | SchemaPlane \<Rightarrow>
          st\<lparr>cs_schemas := map_retain (\<lambda>i. show_u64 i \<noteq> object_id) (cs_schemas st),
            cs_schema_payloads := map_retain (\<lambda>i. show_u64 i \<noteq> object_id) (cs_schema_payloads st),
            cs_installed_schema_defs :=
              filter (\<lambda>d. show_u64 (sch_schema_id (sp_schema d)) \<noteq> object_id) (cs_installed_schema_defs st)\<rparr>
      | Controller \<Rightarrow>
          st\<lparr>cs_route_statistics := (cs_route_statistics st)(object_id := None), cs_context_governor := governor_default\<rparr>)"

definition apply_memory_retire_record :: "'m ClientLibs \<Rightarrow> Record \<Rightarrow> ClientState \<Rightarrow> applied" where
  "apply_memory_retire_record L r st =
     (case MemoryRetire_decode (cl_retire_read L) (rec_payload r) of
        Inl e \<Rightarrow> (st, Err (CA_PredictiveDispatch (DC_Wire e)))
      | Inr p \<Rightarrow>
          (retire_memory_object (mrp_plane p) (mrp_object_id p)
            (enqueue_memory_ack \<lparr>map_version = 1, map_plane = mrp_plane p, map_object_kind = mrp_object_kind p,
               map_object_id = mrp_object_id p, map_acked_record_type = MemoryRetire,
               map_acked_seq_no = rh_seq_no (rec_header r)\<rparr> st), Ok ()))"

section \<open>Definitions and hints\<close>

definition apply_source_meta_record :: "Record \<Rightarrow> ClientState \<Rightarrow> applied" where
  "apply_source_meta_record r st =
     (case source_meta_decode (rec_payload r) of
        Inl e \<Rightarrow> (st, Err (CA_SourceWire e))
      | Inr p \<Rightarrow> (st\<lparr>cs_source_bindings := (cs_source_bindings st)(rh_item_id (rec_header r) \<mapsto>
          \<lparr>sd_kind = sm_source_kind p, sd_source_hash = sm_source_hash p, sd_byte_len = unat (sm_source_len p),
           sd_mime = sm_mime p, sd_label = sm_label p\<rparr>)\<rparr>, Ok ()))"

definition install_assembly_payload :: "'m ClientLibs \<Rightarrow> AssemblyDefPayload \<Rightarrow> ClientState \<Rightarrow> applied" where
  "install_assembly_payload L p st =
     (let plan = assembly_install_plan p; a = adp_assembly p; i = as_assembly_id a in
      if aip_output_len plan \<noteq> body_output_len (as_body a)
      then (st, Err (CA_StateWire (SE_Prg (PrgNodeOutputLenMismatch 0 (aip_output_len plan) (body_output_len (as_body a))))))
      else (st\<lparr>cs_assembly_index := (cs_assembly_index st)(assembly_object_id i \<mapsto> i),
               cs_assembly_sync_versions := (cs_assembly_sync_versions st)(i \<mapsto> assembly_reuse_signature (cl_simd L) a),
               cs_assemblies := (cs_assemblies st)(i \<mapsto> a),
               cs_assembly_cache := store_assembly a (cs_assembly_cache st),
               cs_installed_assembly_defs := cs_installed_assembly_defs st @ [p]\<rparr>, Ok ()))"

definition apply_assembly_def_record :: "'m ClientLibs \<Rightarrow> Record \<Rightarrow> ClientState \<Rightarrow> applied" where
  "apply_assembly_def_record L r st =
     (case assembly_def_decode (cl_assembly_read L) (rec_payload r) of
        Inl e \<Rightarrow> (st, Err (CA_StateWire e))
      | Inr p \<Rightarrow> install_assembly_payload L p st)"

definition apply_transform_def_record :: "'m ClientLibs \<Rightarrow> Record \<Rightarrow> ClientState \<Rightarrow> applied" where
  "apply_transform_def_record L r st =
     (case transform_def_decode (cl_transform_read L) (rec_payload r) of
        Inl e \<Rightarrow> (st, Err (CA_StateWire e))
      | Inr p \<Rightarrow> (st\<lparr>cs_transforms := (cs_transforms st)(tc_transform_id (tdp_class p) \<mapsto> tdp_class p)\<rparr>, Ok ()))"

definition materialize_transform ::
  "'m ClientLibs \<Rightarrow> RecordHeader \<Rightarrow> TransformInstancePayload \<Rightarrow> ClientState \<Rightarrow> applied" where
  "materialize_transform L h p st =
     (case cs_transforms st (tpl_class_id p) of
        None \<Rightarrow> (st, Err (CA_MissingTransformClass (tpl_class_id p)))
      | Some c \<Rightarrow>
          (case apply_transform_instance c (payload_instance p) (resolve_transform_basis L st) of
             Inl e \<Rightarrow> (st, Err (CA_StateWire e))
           | Inr bs \<Rightarrow>
               let item_id = rh_item_id h;
                   st = st\<lparr>cs_materialized_transforms := (cs_materialized_transforms st)(tpl_class_id p \<mapsto> bs)\<rparr>;
                   st = st\<lparr>cs_cache := (cs_cache st)(item_id \<mapsto> chpmt_object_for_item L st item_id bs OK_PredictiveObject),
                     cs_predictors := (cs_predictors st)(item_id \<mapsto> \<lparr>pem_item_id = item_id,
                       pem_source_kind = bound_kind st item_id, pem_object_kind = OK_PredictiveObject,
                       pem_cue = (case cs_source_bindings st item_id of
                         Some d \<Rightarrow> sc_cue (structural_cue_summary d bs) | None \<Rightarrow> sparse_cue_default)\<rparr>)\<rparr> in
               (append_episode_activation (activation L (tc_source_kind c)
                  \<lparr>eo_object_kind = OK_Transform, eo_object_id = transform_object_id (tc_transform_id c)\<rparr> (tc_cue c)
                  (rh_seq_no h)) st, Ok ())))"

definition apply_transform_instance_record :: "'m ClientLibs \<Rightarrow> Record \<Rightarrow> ClientState \<Rightarrow> applied" where
  "apply_transform_instance_record L r st =
     (let h = rec_header r in
      case transform_payload_decode (cl_instance_read L) (rec_payload r) of
        Inl e \<Rightarrow> (record_route_outcome CRF_DirectState (rh_seq_no h) False st, Err (CA_StateWire e))
      | Inr p \<Rightarrow>
          (case materialize_transform L h p st of
             (st, out) \<Rightarrow> (record_route_outcome CRF_DirectState (rh_seq_no h) (out = Ok ()) st, out)))"

definition infer_episode_source_kind :: "ClientState \<Rightarrow> EpisodeObjectRef \<Rightarrow> SourceKind \<Rightarrow> SourceKind" where
  "infer_episode_source_kind st r fallback =
     (let or_fallback = (\<lambda>m. case m of Some k \<Rightarrow> k | None \<Rightarrow> fallback);
          item = or_fallback (Option.bind (id_behind_colon (eo_object_id r)) (\<lambda>i. map_option sd_kind (cs_source_bindings st i))) in
      case eo_object_kind r of
        OK_Assembly \<Rightarrow> or_fallback (Option.bind (id_behind_colon (eo_object_id r)) (\<lambda>i.
          map_option as_source_kind (cs_assemblies st i)))
      | OK_Transform \<Rightarrow> or_fallback (Option.bind (parse_transform_id (eo_object_id r)) (\<lambda>i.
          map_option tc_source_kind (cs_transforms st i)))
      | OK_Schema \<Rightarrow> or_fallback (Option.bind (parse_schema_id (eo_object_id r)) (\<lambda>i.
          map_option (\<lambda>p. sch_source_kind (sp_schema p)) (cs_schema_payloads st i)))
      | OK_ExactState \<Rightarrow> item | OK_PredictiveObject \<Rightarrow> item
      | _ \<Rightarrow> fallback)"

definition derive_episode_cue :: "'m ClientLibs \<Rightarrow> ClientState \<Rightarrow> EpisodeObjectRef \<Rightarrow> SourceKind \<Rightarrow> SparseCue" where
  "derive_episode_cue L st r kind =
     derive_sparse_cue kind
       (case resolve_episode_reference L st r of Some bs \<Rightarrow> bs | None \<Rightarrow> ascii_bytes (eo_object_id r))"

definition hint_activation ::
  "'m ClientLibs \<Rightarrow> SourceKind \<Rightarrow> u64 \<Rightarrow> ContextHash \<Rightarrow> bool \<Rightarrow> ClientState \<Rightarrow> EpisodeCompletionCandidate \<Rightarrow> ClientState" where
  "hint_activation L default_kind tick context_hash replay_hint st c =
     (let r = ep_object_ref c; kind = infer_episode_source_kind st r default_kind in
      append_episode_activation
        \<lparr>ev_source_kind = kind,
         ev_object_ref = (if replay_hint then \<lparr>eo_object_kind = OK_ReplayHint,
             eo_object_id = ''replay:'' @ show_u64 context_hash @ '':'' @ eo_object_id r\<rparr> else r),
         ev_cue = derive_episode_cue L st r kind, ev_context_hash = context_hash, ev_tick = tick, ev_success = True\<rparr> st)"

definition install_episode_hint_payload ::
  "'m ClientLibs \<Rightarrow> ItemId \<Rightarrow> u64 \<Rightarrow> EpisodeHintPayload \<Rightarrow> bool \<Rightarrow> ClientState \<Rightarrow> ClientState" where
  "install_episode_hint_payload L item_id tick p replay_hint st =
     (let st = st\<lparr>cs_installed_episode_hints := cs_installed_episode_hints st @ [p]\<rparr> in
      foldl (hint_activation L (bound_kind st item_id) tick (eh_context_hash p) replay_hint) st (eh_candidates p))"

definition apply_episode_hint_record :: "'m ClientLibs \<Rightarrow> Record \<Rightarrow> ClientState \<Rightarrow> applied" where
  "apply_episode_hint_record L r st =
     (case episode_hint_decode (cl_hint_read L) (rec_payload r) of
        Inl e \<Rightarrow> (st, Err (CA_StateWire e))
      | Inr p \<Rightarrow> (install_episode_hint_payload L (rh_item_id (rec_header r)) (rh_seq_no (rec_header r)) p False st, Ok ()))"

definition apply_replay_hint_record :: "'m ClientLibs \<Rightarrow> Record \<Rightarrow> ClientState \<Rightarrow> applied" where
  "apply_replay_hint_record L r st =
     (case episode_hint_decode (cl_hint_read L) (rec_payload r) of
        Inl e \<Rightarrow> (st, Err (CA_StateWire e))
      | Inr p \<Rightarrow>
          (install_episode_hint_payload L (rh_item_id (rec_header r)) (rh_seq_no (rec_header r)) p True
            (enqueue_memory_ack \<lparr>map_version = 1, map_plane = Episode, map_object_kind = OK_ReplayHint,
               map_object_id = ''replay:'' @ show_u64 (eh_context_hash p), map_acked_record_type = ReplayHint,
               map_acked_seq_no = rh_seq_no (rec_header r)\<rparr> st), Ok ()))"

definition install_schema :: "SchemaDefPayload \<Rightarrow> ClientState \<Rightarrow> ClientState" where
  "install_schema p st =
     (let i = sch_schema_id (sp_schema p) in
      st\<lparr>cs_schemas := (cs_schemas st)(i \<mapsto> sp_schema p), cs_schema_payloads := (cs_schema_payloads st)(i \<mapsto> p),
         cs_installed_schema_defs := cs_installed_schema_defs st @ [p]\<rparr>)"

definition apply_schema_def_record :: "'m ClientLibs \<Rightarrow> Record \<Rightarrow> ClientState \<Rightarrow> applied" where
  "apply_schema_def_record L r st =
     (case schema_def_decode (cl_schema_read L) (rec_payload r) of
        Inl e \<Rightarrow> (st, Err (CA_StateWire e))
      | Inr p \<Rightarrow>
          (append_episode_activation (activation L (sch_source_kind (sp_schema p))
             \<lparr>eo_object_kind = OK_Schema, eo_object_id = ''schema:'' @ show_u64 (sch_schema_id (sp_schema p))\<rparr>
             (sch_cue (sp_schema p)) (rh_seq_no (rec_header r))) (install_schema p st), Ok ()))"

definition apply_repair_record :: "'m ClientLibs \<Rightarrow> Record \<Rightarrow> ClientState \<Rightarrow> applied" where
  "apply_repair_record L r st =
     (case repair_decode (cl_sha L) (cl_repair_read L) (rec_payload r) of
        Inl e \<Rightarrow> (st, Err (CA_Catalog e))
      | Inr (RepairReq _ request) \<Rightarrow> (enqueue_repair_request request st, Ok ())
      | Inr (RepairResp _ sync) \<Rightarrow>
          (case apply_sync (cl_sha L) sync (cs_catalog st) of
             (catalog, Inl e) \<Rightarrow> (st\<lparr>cs_catalog := catalog\<rparr>, Err (CA_Catalog e))
           | (catalog, Inr _) \<Rightarrow> (prune_resolved_repair_requests (st\<lparr>cs_catalog := catalog\<rparr>), Ok ())))"

section \<open>Predictive dispatch\<close>

definition first_of :: "'a list \<Rightarrow> 'a option" where
  "first_of xs = (case xs of [] \<Rightarrow> None | x # _ \<Rightarrow> Some x)"

fun first_present :: "'a option list \<Rightarrow> 'a \<Rightarrow> 'a" where
  "first_present [] d = d"
| "first_present (Some x # ms) d = x"
| "first_present (None # ms) d = first_present ms d"

definition context_symbol_from_payload :: "PredictiveRouteDispatchPayload \<Rightarrow> SparseCue \<Rightarrow> ContextTreeSymbol" where
  "context_symbol_from_payload p cue =
     (let schema = first_of (dp_inline_schema_defs p); assembly = first_of (dp_inline_assembly_defs p) in
      \<lparr>cs_route_family = dp_route_family p, cs_delimiter_class = delimiter_class_from_cue cue,
       cs_slot_shape = first_present
         [map_option (\<lambda>d. slot_shape_from_slot_count (length (sch_slots (sp_schema d)))) schema,
          map_option (\<lambda>d. slot_shape_from_slot_count (length (as_slots (adp_assembly d)))) assembly] SS_None,
       cs_prior_schema_kind = map_option (\<lambda>d. sch_schema_kind (sp_schema d)) schema, cs_prior_transform_family = None,
       cs_lag_bucket = 0, cs_residual_bucket = residual_bucket_from_bytes (len_u32 (dp_contradiction_bytes p)),
       cs_sync_state = sync_state_from_sync_risk (dp_sync_risk p)\<rparr>)"

definition derive_predictive_source_kind :: "ClientState \<Rightarrow> ItemId \<Rightarrow> PredictiveRouteDispatchPayload \<Rightarrow> SourceKind" where
  "derive_predictive_source_kind st item_id p =
     first_present
       [map_option sd_kind (cs_source_bindings st item_id), dp_route_source_kind p,
        map_option (\<lambda>d. as_source_kind (adp_assembly d)) (first_of (dp_inline_assembly_defs p)),
        map_option (\<lambda>d. sch_source_kind (sp_schema d)) (first_of (dp_inline_schema_defs p)),
        (if dp_route_family p = CRF_DirectState then Option.bind (dp_assembly_ref p) (\<lambda>r.
           map_option as_source_kind (cs_assemblies st (ar_assembly_id r))) else None)] Binary"

definition missing_predictive_dependencies ::
  "ClientState \<Rightarrow> StagedInlineRevisions \<Rightarrow> PredictiveRouteDispatchPayload \<Rightarrow> ObjectDependency list" where
  "missing_predictive_dependencies st staged p =
     filter (\<lambda>d. check_dependency_available_with_staged st staged d \<noteq> DA_Available) (dp_dependency_closure p)"

text \<open>The body of a dispatch: a hybrid route, a graph, or literal bytes, with the contradiction mask applied.\<close>

definition dispatch_body ::
  "'m ClientLibs \<Rightarrow> ClientState \<Rightarrow> StagedInlineRevisions \<Rightarrow> PredictiveRouteDispatchPayload \<Rightarrow> ClientApplyError + bytes" where
  "dispatch_body L st staged p =
     (let masked = (\<lambda>m. map_err CA_StateWire (and_then m (\<lambda>bs.
            apply_exact_contradiction_mask_to_bytes bs (dp_contradiction_bytes p)))) in
      case dp_hybrid_route p of
        Some route \<Rightarrow>
          if \<not> validate_dependencies (\<lambda>kind object_id revision.
               check_dependency_available_with_staged st staged
                 \<lparr>od_object_kind = kind, od_object_id = object_id, od_required_revision = revision\<rparr> = DA_Available) route
          then Err (CA_MissingPredictiveDependency (MC_HybridValidation (dp_route_family p) (dp_dependency_closure p)))
          else masked (execute_hybrid_route route (client_resolvers L st))
      | None \<Rightarrow>
          (case dp_prg p of
             Some graph \<Rightarrow> masked (execute_prg graph (client_resolvers L st))
           | None \<Rightarrow>
               if dp_literal_bytes p \<noteq> [] then masked (Ok (dp_literal_bytes p))
               else Err (CA_MissingPredictiveDependency (MC_NoDispatchBody (dp_route_family p)))))"

definition dispatch_predictive_payload ::
  "'m ClientLibs \<Rightarrow> ClientState \<Rightarrow> StagedInlineRevisions \<Rightarrow> PredictiveRouteDispatchPayload \<Rightarrow> ClientApplyError + bytes" where
  "dispatch_predictive_payload L st staged p =
     (let mode = (case dp_assembly_mode p of Some m \<Rightarrow> Some m | None \<Rightarrow> derived_assembly_mode p);
          direct = (if dp_route_family p = CRF_DirectState \<and> mode \<in> {Some AM_DefineAndActivate, Some AM_ReuseReference}
            then Option.bind (dp_assembly_ref p) (resolve_assembly_reference L st) else None) in
      case direct of
        Some bs \<Rightarrow> Ok bs
      | None \<Rightarrow>
          (case missing_predictive_dependencies st staged p of
             [] \<Rightarrow> dispatch_body L st staged p
           | missing \<Rightarrow> Err (CA_MissingPredictiveDependency (MC_Closure missing))))"

definition primary_episode_object_ref :: "PredictiveRouteDispatchPayload \<Rightarrow> EpisodeObjectRef option" where
  "primary_episode_object_ref p =
     (let in_nodes = find_map pn_episode_ref;
          in_graph = Option.bind (dp_prg p) (\<lambda>g. in_nodes (prg_nodes g));
          in_route = Option.bind (dp_hybrid_route p) (\<lambda>route.
            find_map (\<lambda>c. case c of HC_Schema g \<Rightarrow> in_nodes (prg_nodes g) | _ \<Rightarrow> None) (hr_components route));
          in_hints = find_map (\<lambda>h. map_option ep_object_ref (first_of (eh_candidates h))) (dp_inline_episode_hints p) in
      case in_graph of Some r \<Rightarrow> Some r | None \<Rightarrow> (case in_route of Some r \<Rightarrow> Some r | None \<Rightarrow> in_hints))"

definition update_episode_memory_from_predictive_dispatch ::
  "'m ClientLibs \<Rightarrow> ItemId \<Rightarrow> u64 \<Rightarrow> PredictiveRouteDispatchPayload \<Rightarrow> SparseCue \<Rightarrow> ClientState \<Rightarrow> ClientState" where
  "update_episode_memory_from_predictive_dispatch L item_id tick p cue st =
     append_episode_activation (activation L (bound_kind st item_id)
       (case primary_episode_object_ref p of Some r \<Rightarrow> r
        | None \<Rightarrow> \<lparr>eo_object_kind = OK_PredictiveObject, eo_object_id = ''state:'' @ show_u64 item_id\<rparr>) cue tick) st"

definition stage_revisions :: "('a \<Rightarrow> u64) \<Rightarrow> ('a \<Rightarrow> u32) \<Rightarrow> 'a list \<Rightarrow> (u64 \<rightharpoonup> u32)" where
  "stage_revisions id_of revision_of ds = foldl (\<lambda>m d. m(id_of d \<mapsto> revision_of d)) Map.empty ds"

abbreviation assembly_def_id :: "AssemblyDefPayload \<Rightarrow> u64" where "assembly_def_id d \<equiv> as_assembly_id (adp_assembly d)"
abbreviation schema_def_id :: "SchemaDefPayload \<Rightarrow> u64" where "schema_def_id d \<equiv> sch_schema_id (sp_schema d)"
abbreviation dictionary_def_id :: "SharedDictionaryDefPayload \<Rightarrow> u64" where
  "dictionary_def_id d \<equiv> di_dictionary_id (dd_dictionary d)"

definition staged_revisions :: "PredictiveRouteDispatchPayload \<Rightarrow> StagedInlineRevisions" where
  "staged_revisions p =
     \<lparr>sg_assembly_revisions = stage_revisions assembly_def_id
        (\<lambda>d. ov_object_revision (dc_version (as_dependency_closure (adp_assembly d)))) (dp_inline_assembly_defs p),
      sg_schema_revisions = stage_revisions schema_def_id
        (\<lambda>d. ov_object_revision (sdc_version (sch_dependency_closure (sp_schema d)))) (dp_inline_schema_defs p),
      sg_dictionary_revisions = stage_revisions dictionary_def_id
        (\<lambda>d. ov_object_revision (di_version (dd_dictionary d))) (dp_inline_dictionaries p)\<rparr>"

text \<open>What was installed of the staged definitions, for a rollback or for the acknowledgements.\<close>

record Installed =
  in_assembly_ids :: "u64 list"
  in_schema_ids :: "u64 list"
  in_dictionary_ids :: "u64 list"
  in_episode_count :: nat

definition nothing_installed :: Installed where
  "nothing_installed = \<lparr>in_assembly_ids = [], in_schema_ids = [], in_dictionary_ids = [], in_episode_count = 0\<rparr>"

fun install_assemblies ::
  "'m ClientLibs \<Rightarrow> AssemblyDefPayload list \<Rightarrow> ClientState \<times> Installed \<Rightarrow> (ClientState \<times> Installed) \<times> (ClientApplyError + unit)"
where
  "install_assemblies L [] s = (s, Ok ())"
| "install_assemblies L (d # ds) (st, ins) =
     (case install_assembly_payload L d st of
        (st, Inl e) \<Rightarrow> ((st, ins), Err e)
      | (st, Inr _) \<Rightarrow> install_assemblies L ds (st, ins\<lparr>in_assembly_ids := in_assembly_ids ins @ [assembly_def_id d]\<rparr>))"

definition install_dictionary :: "SharedDictionaryDefPayload \<Rightarrow> ClientState \<Rightarrow> ClientState" where
  "install_dictionary d st = st\<lparr>cs_dictionaries := (cs_dictionaries st)(dictionary_def_id d \<mapsto> dd_dictionary d)\<rparr>"

definition install_inline_definitions ::
  "'m ClientLibs \<Rightarrow> RecordHeader \<Rightarrow> PredictiveRouteDispatchPayload \<Rightarrow> ClientState
    \<Rightarrow> (ClientState \<times> Installed) \<times> (ClientApplyError + unit)" where
  "install_inline_definitions L h p st =
     (case install_assemblies L (dp_inline_assembly_defs p) (st, nothing_installed) of
        (s, Inl e) \<Rightarrow> (s, Err e)
      | ((st, ins), Inr _) \<Rightarrow>
          let st = foldl (\<lambda>st d. install_schema d st) st (dp_inline_schema_defs p);
              st = foldl (\<lambda>st d. install_dictionary d st) st (dp_inline_dictionaries p);
              st = foldl (\<lambda>st hint. install_episode_hint_payload L (rh_item_id h) (rh_seq_no h) hint False st) st
                (dp_inline_episode_hints p) in
          ((st, ins\<lparr>in_schema_ids := map schema_def_id (dp_inline_schema_defs p),
              in_dictionary_ids := map dictionary_def_id (dp_inline_dictionaries p),
              in_episode_count := length (dp_inline_episode_hints p)\<rparr>), Ok ()))"

text \<open>Storing the bytes of a successful dispatch.\<close>

definition store_predicted ::
  "'m ClientLibs \<Rightarrow> RecordHeader \<Rightarrow> PredictiveRouteDispatchPayload \<Rightarrow> bytes \<Rightarrow> ClientState \<Rightarrow> ClientState \<times> SparseCue" where
  "store_predicted L h p bs st =
     (let item_id = rh_item_id h; kind = derive_predictive_source_kind st item_id p;
          cue = (case cs_source_bindings st item_id of Some d \<Rightarrow> sc_cue (structural_cue_summary d bs)
            | None \<Rightarrow> derive_sparse_cue kind bs);
          st = st\<lparr>cs_cache := (cs_cache st)(item_id \<mapsto> chpmt_object_for_item L st item_id bs OK_PredictiveObject)\<rparr>;
          st = promote_to_substrate_catalog L kind bs st;
          st = st\<lparr>cs_predictors := (cs_predictors st)(item_id \<mapsto> \<lparr>pem_item_id = item_id, pem_source_kind = kind,
                 pem_object_kind = OK_PredictiveObject, pem_cue = cue\<rparr>)\<rparr> in
      (update_episode_memory_from_predictive_dispatch L item_id (rh_seq_no h) p cue st, cue))"

definition roll_back_inline_definitions :: "Installed \<Rightarrow> ClientState \<Rightarrow> ClientState" where
  "roll_back_inline_definitions ins st =
     (let a = (\<lambda>i. i \<notin> set (in_assembly_ids ins)); s = (\<lambda>i. i \<notin> set (in_schema_ids ins));
          hints = cs_installed_episode_hints st; n = in_episode_count ins in
      st\<lparr>cs_assemblies := map_retain a (cs_assemblies st),
         cs_installed_assembly_defs := filter (\<lambda>d. a (assembly_def_id d)) (cs_installed_assembly_defs st),
         cs_assembly_index := (\<lambda>k. case cs_assembly_index st k of Some i \<Rightarrow> if a i then Some i else None | None \<Rightarrow> None),
         cs_assembly_sync_versions := map_retain a (cs_assembly_sync_versions st),
         cs_schemas := map_retain s (cs_schemas st), cs_schema_payloads := map_retain s (cs_schema_payloads st),
         cs_installed_schema_defs := filter (\<lambda>d. s (schema_def_id d)) (cs_installed_schema_defs st),
         cs_dictionaries := map_retain (\<lambda>i. i \<notin> set (in_dictionary_ids ins)) (cs_dictionaries st),
         cs_installed_episode_hints := (if n > 0 \<and> n \<le> length hints then take (length hints - n) hints else hints)\<rparr>)"

definition acknowledge_inline_definitions :: "RecordHeader \<Rightarrow> Installed \<Rightarrow> ClientState \<Rightarrow> ClientState" where
  "acknowledge_inline_definitions h ins st =
     fold enqueue_memory_ack
       (map (\<lambda>i. memory_ack AssemblyPlane OK_Assembly (assembly_object_id i) h) (in_assembly_ids ins)
        @ map (\<lambda>i. memory_ack SchemaPlane OK_Schema (''schema:'' @ show_u64 i) h) (in_schema_ids ins)
        @ map (\<lambda>i. memory_ack AtomSubstrate OK_Dictionary (''dictionary:'' @ show_u64 i) h) (in_dictionary_ids ins)) st"

definition is_missing_dependency :: "ClientApplyError + 'a \<Rightarrow> bool" where
  "is_missing_dependency out \<longleftrightarrow> (\<exists>c. out = Err (CA_MissingPredictiveDependency c))"

lemma is_missing_dependency_code [code]:
  "is_missing_dependency out = (case out of Inl (CA_MissingPredictiveDependency _) \<Rightarrow> True | _ \<Rightarrow> False)"
  by (auto simp: is_missing_dependency_def split: sum.splits ClientApplyError.splits)

definition run_dispatch ::
  "'m ClientLibs \<Rightarrow> RecordHeader \<Rightarrow> PredictiveRouteDispatchPayload \<Rightarrow> ClientState
    \<Rightarrow> ClientState \<times> SparseCue option \<times> (ClientApplyError + unit)" where
  "run_dispatch L h p st =
     (case install_inline_definitions L h p st of
        ((st, ins), Inl e) \<Rightarrow> (roll_back_inline_definitions ins st, None, Err e)
      | ((st, ins), Inr _) \<Rightarrow>
          (case dispatch_predictive_payload L st (staged_revisions p) p of
             Inl e \<Rightarrow> (roll_back_inline_definitions ins st, None, Err e)
           | Inr bs \<Rightarrow>
               (case store_predicted L h p bs st of
                  (st, cue) \<Rightarrow> (acknowledge_inline_definitions h ins st, Some cue, Ok ()))))"

definition dispatch_record_type :: "ControllerRouteFamily \<Rightarrow> RecordType" where
  "dispatch_record_type family =
     (case family of CRF_DirectState \<Rightarrow> ExactState | CRF_ExactAtom \<Rightarrow> PredictiveConfirm | CRF_Hybrid \<Rightarrow> PredictiveCorrect)"

definition apply_predictive_dispatch_record :: "'m ClientLibs \<Rightarrow> Record \<Rightarrow> ClientState \<Rightarrow> applied" where
  "apply_predictive_dispatch_record L r st =
     (case maybe_decompress_zstd (cl_zstd L) r of
        Inl e \<Rightarrow> (st, Err (CA_ZstdStage e))
      | Inr r \<Rightarrow>
          let h = rec_header r; tick = rh_seq_no h in
          (case dispatch_decode (cl_dispatch_read L) (rec_payload r) of
             Inl e \<Rightarrow> (record_route_outcome CRF_DirectState tick False st, Err (CA_StateWire e))
           | Inr p \<Rightarrow>
               if rh_record_type h \<noteq> dispatch_record_type (dp_route_family p)
               then (record_route_outcome CRF_DirectState tick False st,
                 Err (CA_PredictiveRouteRecordTypeMismatch (rh_record_type h) (dp_route_family p)))
               else case run_dispatch L h p st of
                 (st, cue, out) \<Rightarrow>
                   (record_route_outcome_detail (dp_route_family p) tick (out = Ok ())
                      (Some (context_symbol_from_payload p (case cue of Some c \<Rightarrow> c | None \<Rightarrow> sparse_cue_default)))
                      \<lparr>co_success = (out = Ok ()), co_fallback = False, co_sync_failure = is_missing_dependency out,
                       co_contradiction_mass = len_u32 (dp_contradiction_bytes p)\<rparr> st, out)))"

section \<open>Records\<close>

definition apply_record :: "'m ClientLibs \<Rightarrow> Record \<Rightarrow> ClientState \<Rightarrow> applied" where
  "apply_record L r st =
     (case record_validate r of
        Inl e \<Rightarrow> (st, Err (CA_Validation e))
      | Inr r \<Rightarrow>
          (case rh_record_type (rec_header r) of
             ExactState \<Rightarrow> apply_data_record L r st
           | BatchEnvelope \<Rightarrow> apply_data_record L r st
           | Rekey \<Rightarrow> (st, Ok ())
           | Close \<Rightarrow> (st, Ok ())
           | Resync \<Rightarrow> apply_resync_record L r st
           | SourceMeta \<Rightarrow> apply_source_meta_record r st
           | Repair \<Rightarrow> apply_repair_record L r st
           | PredictiveConfirm \<Rightarrow> apply_predictive_dispatch_record L r st
           | PredictiveCorrect \<Rightarrow> apply_predictive_dispatch_record L r st
           | TransformCorrect \<Rightarrow> apply_transform_instance_record L r st
           | AssemblyDef \<Rightarrow> apply_assembly_def_record L r st
           | TransformDef \<Rightarrow> apply_transform_def_record L r st
           | EpisodeHint \<Rightarrow> apply_episode_hint_record L r st
           | SchemaDef \<Rightarrow> apply_schema_def_record L r st
           | MemoryRetire \<Rightarrow> apply_memory_retire_record L r st
           | ReplayHint \<Rightarrow> apply_replay_hint_record L r st
           | MemoryAck \<Rightarrow> (st, Ok ())))"

fun apply_trace :: "'m ClientLibs \<Rightarrow> Record list \<Rightarrow> ClientState \<Rightarrow> applied" where
  "apply_trace L [] st = (st, Ok ())"
| "apply_trace L (r # rs) st =
     (case apply_record L r st of
        (st, Inl e) \<Rightarrow> (st, Err e)
      | (st, Inr _) \<Rightarrow> apply_trace L rs st)"

section \<open>Outgoing queues\<close>

definition pop_front :: "'a list \<Rightarrow> 'a list \<times> 'a option" where
  "pop_front xs = (case xs of [] \<Rightarrow> ([], None) | x # xs \<Rightarrow> (xs, Some x))"

definition pop_next_memory_ack :: "ClientState \<Rightarrow> ClientState \<times> MemoryAckPayload option" where
  "pop_next_memory_ack st =
     (case pop_front (cs_pending_memory_acks st) of (acks, a) \<Rightarrow> (st\<lparr>cs_pending_memory_acks := acks\<rparr>, a))"

definition take_pending_memory_acks :: "ClientState \<Rightarrow> ClientState \<times> MemoryAckPayload list" where
  "take_pending_memory_acks st = (st\<lparr>cs_pending_memory_acks := []\<rparr>, cs_pending_memory_acks st)"

definition pop_next_repair_request :: "ClientState \<Rightarrow> ClientState \<times> RepairRequest option" where
  "pop_next_repair_request st =
     (case pop_front (cs_repair_requests st) of (rs, r) \<Rightarrow> (st\<lparr>cs_repair_requests := rs\<rparr>, r))"

definition take_pending_repair_requests :: "ClientState \<Rightarrow> ClientState \<times> RepairRequest list" where
  "take_pending_repair_requests st = (st\<lparr>cs_repair_requests := []\<rparr>, cs_repair_requests st)"

end
