(* ===== verification/Pulzz_Client_Safety.thy ===== *)
theory Pulzz_Client_Safety
  imports Pulzz_Client
begin

text \<open>
  What holds of a client whatever it receives (\<open>client/src/lib.rs\<close>): stored states are retrievable, a failed
  dispatch leaves nothing of its definitions, acknowledgements are queued once, an empty resync leaves nothing that a
  reference could be resolved by, and which retirements have an effect.
\<close>

section \<open>Canonical identities\<close>

lemma is_digit_char_of: "n < (10 :: nat) \<Longrightarrow> is_digit (char_of (48 + n))"
  by (simp add: is_digit_def)

lemma show_nat_digits: "list_all is_digit (show_nat n)"
proof (induction n rule: show_nat.induct)
  case (1 n)
  then show ?case by (subst show_nat.simps) (simp add: is_digit_char_of)
qed

lemma show_nat_not_Nil: "show_nat n \<noteq> []"
  by (subst show_nat.simps) simp

lemma parse_digits_snoc: "parse_digits (s @ [c]) = 10 * parse_digits s + (of_char c - 48)"
  by (simp add: parse_digits_def)

lemma parse_show_nat: "parse_digits (show_nat n) = n"
proof (induction n rule: show_nat.induct)
  case (1 n)
  show ?case
  proof (cases "n < 10")
    case True
    then show ?thesis by (subst show_nat.simps) (simp add: parse_digits_def)
  next
    case False
    with 1 show ?thesis by (subst show_nat.simps) (simp add: parse_digits_snoc)
  qed
qed

lemma parse_u64_show_u64 [simp]: "parse_u64 (show_u64 i) = Some i"
proof -
  let ?s = "show_nat (unat i)"
  obtain c cs where s: "?s = c # cs" using show_nat_not_Nil [of "unat i"] by (cases ?s) auto
  have "is_digit c" using show_nat_digits [of "unat i"] s by simp
  then have "c \<noteq> CHR ''+''" by (auto simp: is_digit_def)
  moreover have "unat i < 2 ^ 64" using unsigned_less [of i, where 'a = nat] by simp
  ultimately show ?thesis
    using show_nat_digits [of "unat i"] parse_show_nat [of "unat i"] s
    by (simp add: parse_u64_def show_u64_def)
qed

lemma show_u64_no_colon: "CHR '':'' \<notin> set (show_u64 i)"
  using show_nat_digits [of "unat i"] by (auto simp: show_u64_def list_all_iff is_digit_def)

lemma split_on_none: "\<forall>x \<in> set xs. \<not> P x \<Longrightarrow> split_on P xs = [xs]"
  by (induction xs) auto

lemma split_on_not_Nil [simp]: "split_on P xs \<noteq> []"
  by (cases xs) (auto split: list.split)

lemma last_split_on: "\<forall>x \<in> set ys. \<not> P x \<Longrightarrow> P y \<Longrightarrow> last (split_on P (xs @ y # ys)) = ys"
proof (induction xs)
  case Nil
  then show ?case by (simp add: split_on_none)
next
  case (Cons x xs)
  obtain part parts where eq: "split_on P (xs @ y # ys) = part # parts" by (cases "split_on P (xs @ y # ys)") auto
  have "parts \<noteq> []"
  proof
    assume "parts = []"
    have "length (split_on P (xs @ y # ys)) \<ge> 2" using Cons.prems(2)
    proof (induction xs)
      case Nil
      then show ?case by (cases ys) (auto split: list.split)
    next
      case (Cons z zs)
      then show ?case by (auto split: list.split)
    qed
    with eq \<open>parts = []\<close> show False by simp
  qed
  with Cons eq show ?case by simp
qed

lemma id_behind_colon_show: "id_behind_colon (p @ CHR '':'' # show_u64 i) = Some i"
proof -
  have "last (split_on (\<lambda>c. c = CHR '':'') (p @ CHR '':'' # show_u64 i)) = show_u64 i"
    using show_u64_no_colon [of i] by (intro last_split_on) auto
  then show ?thesis by (simp add: id_behind_colon_def)
qed

lemma id_behind_colon_assembly [simp]: "id_behind_colon (assembly_object_id i) = Some i"
  using id_behind_colon_show [of "''assembly''" i] by (simp add: assembly_object_id_def show_u64_def)

lemma show_u64_not_prefixed: "\<exists>c \<in> set p. \<not> is_digit c \<Longrightarrow> show_u64 i \<noteq> p @ s"
  using show_nat_digits [of "unat i"] by (auto simp: show_u64_def list_all_iff)

lemma hex_char_cases: "b < 16 \<Longrightarrow> hex_char b \<in> set ''0123456789abcdef''"
proof -
  assume "b < 16"
  then have "unat b < 16" by (simp add: word_less_nat_alt)
  then show ?thesis unfolding hex_char_def by (intro nth_mem) simp
qed

lemma hex_encode_chars: "set (hex_encode bs) \<subseteq> set ''0123456789abcdef''"
proof -
  have "drop_bit 4 b < 16" "b AND 0x0F < 16" for b :: u8
  proof -
    have "unat b < 2 ^ LENGTH(8)" by (rule unsigned_less)
    then show "drop_bit 4 b < 16" by (simp add: word_less_nat_alt drop_bit_eq_div unat_div)
    show "b AND 0x0F < 16" using word_and_le1 [of b 15] by (simp add: and.commute word_le_nat_alt word_less_nat_alt)
  qed
  then show ?thesis unfolding hex_encode_def using hex_char_cases by fastforce
qed

section \<open>Retirement\<close>

lemma map_retain_True [simp]: "map_retain (\<lambda>_. True) m = m"
  by (simp add: map_retain_def)

lemma item_id_not_parsed: "parse_item_id (''item:'' @ s) = None"
  by (simp add: parse_item_id_def strip_prefix_def)

lemma hash_is_no_item: "hex_encode h \<noteq> ''item:'' @ s"
  using hex_encode_chars [of h] by (auto dest!: equalityD2 [of "set (hex_encode h)" "set (''item:'' @ s)"] arg_cong [where f = set])

lemma parse_assembly_object_id [simp]: "parse_prefixed ''assembly:'' (assembly_object_id i) = Some i"
  using strip_prefix_append [of "''assembly:''" "show_u64 i"]
  by (simp add: parse_prefixed_def assembly_object_id_def show_u64_def [symmetric])

lemma drop_no_items: "drop_items (\<lambda>_. False) st = st"
  by (simp add: drop_items_def)

text \<open>C32: which retirements have an effect.  The server names an object by its canonical id.  For an assembly the client
  then neither offers nor resolves it any more; for a transform, a schema or an item nothing is removed at all, since
  these are looked up by another spelling, while the retirement is acknowledged in every case.\<close>

theorem retirement_by_canonical_id:
  "\<not> dependency_available (retire_memory_object AssemblyPlane (assembly_object_id i) st)
       \<lparr>od_object_kind = OK_Assembly, od_object_id = assembly_object_id i, od_required_revision = n\<rparr>
    \<and> resolve_assembly_reference L (retire_memory_object AssemblyPlane (assembly_object_id i) st) (ref\<lparr>ar_assembly_id := i\<rparr>) = None
    \<and> retire_memory_object TransformPlane (transform_object_id i) st = st
    \<and> retire_memory_object SchemaPlane (''schema:'' @ show_u64 i) st = st
    \<and> retire_memory_object AtomSubstrate (''item:'' @ show_u64 i) st = prune_resolved_repair_requests st"
proof -
  have transform: "show_u64 j \<noteq> transform_object_id i" and schema: "show_u64 j \<noteq> ''schema:'' @ show_u64 i" for j
    unfolding transform_object_id_def by (rule show_u64_not_prefixed; simp add: is_digit_def)+
  have no_item: "(\<lambda>j. case cs_source_bindings st j of Some d \<Rightarrow> hex_encode (sd_source_hash d) = ''item:'' @ show_u64 i
      | None \<Rightarrow> False) = (\<lambda>_. False)"
    using hash_is_no_item by (auto split: option.split)
  have "retire_memory_object AtomSubstrate (''item:'' @ show_u64 i) st
      = prune_resolved_repair_requests (drop_items (\<lambda>_. False) st)"
    unfolding retire_memory_object_def item_id_not_parsed no_item by simp
  moreover have "retire_memory_object TransformPlane (transform_object_id i) st = st"
    using transform by (simp add: retire_memory_object_def)
  moreover have "retire_memory_object SchemaPlane (''schema:'' @ show_u64 i) st = st"
    using schema unfolding retire_memory_object_def by simp
  ultimately show ?thesis
    by (simp add: retire_memory_object_def retire_assembly_object_def dependency_available_def check_dependency_available_def
        resolve_assembly_reference_def drop_no_items malformed_or_def present_def revision_check_def)
qed

section \<open>Resynchronization\<close>

lemma find_map_Nil_iff [simp]: "find_map (\<lambda>_. None) xs = None"
  by (induction xs) auto

lemma empty_catalog [simp]: "om_get (cat_blocks catalog_default) i = None" "om_get (cat_bundles catalog_default) i = None"
  by (simp_all add: catalog_default_def om_get_def)

lemma cleared_resolves_nothing:
  assumes "st' = (clear_substrate_dependents st)\<lparr>cs_predictors := Map.empty, cs_pending_memory_acks := []\<rparr>"
  shows "client_substrate L st' s = None" and "resolve_assembly_reference L st' a = None"
    and "resolve_episode_at L st' n e = None" and "ok_option (resolve_schema_at L st' n active i) = None"
proof -
  have [simp]: "cs_cache st' = Map.empty" "cs_catalog st' = catalog_default" "cs_assemblies st' = Map.empty"
    "cs_assembly_sync_versions st' = Map.empty" "cs_materialized_transforms st' = Map.empty"
    "cs_schema_payloads st' = Map.empty" "cs_installed_episode_hints st' = []"
    using assms by (simp_all add: clear_substrate_dependents_def clear_assembly_plane_def)
  have [simp]: "cached_bytes st' = Map.empty" by (simp add: cached_bytes_def fun_eq_iff)
  show "client_substrate L st' s = None"
    by (simp add: client_substrate_def resolve_substrate_reference_def materialize_block_range_def materialize_bundle_def
        ok_option_def split: ObjectKind.split)
  show "resolve_assembly_reference L st' a = None" by (simp add: resolve_assembly_reference_def)
  show schema: "ok_option (resolve_schema_at L st' n active i) = None" for n active i
    by (cases n) (simp_all add: resolve_schema_at.simps ok_option_def)
  show "resolve_episode_at L st' n e = None"
    by (cases n; cases "eo_object_kind e")
      (simp_all add: resolve_episode_at.simps schema bind_eq_None_conv)
qed

text \<open>C33: an empty resync forgets everything that is shared: no dependency is available, no reference to substrate,
  assemblies, schemas or episodes resolves, and no acknowledgement is pending.  It keeps the bases of deltas, the
  dictionaries and templates of the compression, the repair requests, and the statistics.\<close>

theorem empty_resync_forgets:
  assumes "record_validate r = Ok r" "rh_record_type (rec_header r) = Resync" "rec_payload r = []"
  shows "\<exists>st'. apply_record L r st = (st', Ok ())
    \<and> (\<forall>d. \<not> dependency_available st' d) \<and> (\<forall>s. client_substrate L st' s = None)
    \<and> (\<forall>a. resolve_assembly_reference L st' a = None) \<and> (\<forall>e. resolve_episode_reference L st' e = None)
    \<and> (\<forall>i. resolve_schema_output L st' i = None) \<and> cs_pending_memory_acks st' = []
    \<and> cs_previous_versions st' = cs_previous_versions st \<and> cs_dict_manager st' = cs_dict_manager st
    \<and> cs_template_registry st' = cs_template_registry st \<and> cs_repair_requests st' = cs_repair_requests st
    \<and> cs_episode_memory st' = cs_episode_memory st \<and> cs_route_statistics st' = cs_route_statistics st"
proof -
  define st' where "st' = (clear_substrate_dependents st)\<lparr>cs_predictors := Map.empty, cs_pending_memory_acks := []\<rparr>"
  have fields: "cs_cache st' = Map.empty" "cs_predictors st' = Map.empty" "cs_source_bindings st' = Map.empty"
    "cs_catalog st' = catalog_default" "cs_assemblies st' = Map.empty" "cs_assembly_sync_versions st' = Map.empty"
    "cs_schema_payloads st' = Map.empty" "cs_transforms st' = Map.empty" "cs_materialized_transforms st' = Map.empty"
    "cs_dictionaries st' = Map.empty" "cs_installed_episode_hints st' = []"
    by (simp_all add: st'_def clear_substrate_dependents_def clear_assembly_plane_def)
  have "\<not> dependency_available_bool st' d" for d
    by (cases "od_object_kind d")
      (simp_all add: dependency_available_bool_def fields has_hint_def contains_block_def contains_bundle_def Let_def
        split: option.split)
  then have "\<not> dependency_available st' d" for d
    by (cases "od_object_kind d")
      (simp_all add: dependency_available_def check_dependency_available_def fields malformed_or_def present_def
        revision_check_def Let_def split: option.split)
  moreover have "apply_record L r st = (st', Ok ())" using assms by (simp add: st'_def apply_record_def apply_resync_record_def)
  ultimately show ?thesis
    using cleared_resolves_nothing [OF st'_def]
    by (auto simp: st'_def resolve_episode_reference_def resolve_schema_output_def clear_substrate_dependents_def
        clear_assembly_plane_def)
qed

section \<open>Failed dispatches\<close>

text \<open>Two states that agree on everything but the definitions that a dispatch carries, the episode memory and the
  statistics.\<close>

definition same_stores :: "ClientState \<Rightarrow> ClientState \<Rightarrow> bool" where
  "same_stores a b \<longleftrightarrow>
     cs_cache a = cs_cache b \<and> cs_predictors a = cs_predictors b \<and> cs_source_bindings a = cs_source_bindings b
     \<and> cs_catalog a = cs_catalog b \<and> cs_transforms a = cs_transforms b
     \<and> cs_materialized_transforms a = cs_materialized_transforms b \<and> cs_repair_requests a = cs_repair_requests b
     \<and> cs_pending_memory_acks a = cs_pending_memory_acks b \<and> cs_dict_manager a = cs_dict_manager b
     \<and> cs_template_registry a = cs_template_registry b \<and> cs_previous_versions a = cs_previous_versions b"

lemma same_stores_refl [simp]: "same_stores a a"
  by (simp add: same_stores_def)

lemma same_stores_trans: "same_stores a b \<Longrightarrow> same_stores b c \<Longrightarrow> same_stores a c"
  by (simp add: same_stores_def)

lemma same_stores_fold:
  "(\<And>d st. same_stores (f st d) st) \<Longrightarrow> same_stores (foldl f st ds) st"
  by (induction ds arbitrary: st) (auto intro: same_stores_trans)

lemma same_stores_install:
  "same_stores (install_schema d st) st" "same_stores (install_dictionary dd st) st"
  "same_stores (append_episode_activation event st) st"
  "same_stores (record_route_outcome_detail family tick success symbol out st) st"
  by (simp_all add: same_stores_def install_schema_def install_dictionary_def append_episode_activation_def
      record_route_outcome_detail_def Let_def)

lemma same_stores_hint: "same_stores (install_episode_hint_payload L item tick p replay st) st"
proof -
  have "same_stores (hint_activation L k tick h replay st c) st" for k h st c
    by (simp add: hint_activation_def same_stores_install Let_def)
  moreover have "same_stores (st\<lparr>cs_installed_episode_hints := hints\<rparr>) st" for hints by (simp add: same_stores_def)
  ultimately show ?thesis
    unfolding install_episode_hint_payload_def Let_def by (rule same_stores_trans [OF same_stores_fold])
qed

lemma same_stores_roll_back: "same_stores (roll_back_inline_definitions ins st) st"
  by (simp add: same_stores_def roll_back_inline_definitions_def Let_def)

text \<open>Installing an assembly never fails: the plan repeats the length of the body.\<close>

lemma install_assembly_Ok: "install_assembly_payload L d st = (fst (install_assembly_payload L d st), Ok ())"
  by (simp add: install_assembly_payload_def assembly_install_plan_def Let_def)

lemma same_stores_assembly: "same_stores (fst (install_assembly_payload L d st)) st"
  by (simp add: same_stores_def install_assembly_payload_def assembly_install_plan_def Let_def)

lemma install_assemblies_eq:
  "install_assemblies L ds (st, ins) =
    ((foldl (\<lambda>st d. fst (install_assembly_payload L d st)) st ds,
      ins\<lparr>in_assembly_ids := in_assembly_ids ins @ map assembly_def_id ds\<rparr>), Ok ())"
proof (induction ds arbitrary: st ins)
  case (Cons d ds)
  then show ?case by (subst install_assemblies.simps, subst install_assembly_Ok) simp
qed simp

text \<open>What the staged definitions are installed as, and everything of them.\<close>

definition staged_state :: "'m ClientLibs \<Rightarrow> RecordHeader \<Rightarrow> PredictiveRouteDispatchPayload \<Rightarrow> ClientState \<Rightarrow> ClientState" where
  "staged_state L h p st =
     foldl (\<lambda>st hint. install_episode_hint_payload L (rh_item_id h) (rh_seq_no h) hint False st)
       (foldl (\<lambda>st d. install_dictionary d st)
         (foldl (\<lambda>st d. install_schema d st)
           (foldl (\<lambda>st d. fst (install_assembly_payload L d st)) st (dp_inline_assembly_defs p))
           (dp_inline_schema_defs p)) (dp_inline_dictionaries p)) (dp_inline_episode_hints p)"

definition all_installed :: "PredictiveRouteDispatchPayload \<Rightarrow> Installed" where
  "all_installed p =
     \<lparr>in_assembly_ids = map assembly_def_id (dp_inline_assembly_defs p),
      in_schema_ids = map schema_def_id (dp_inline_schema_defs p),
      in_dictionary_ids = map dictionary_def_id (dp_inline_dictionaries p),
      in_episode_count = length (dp_inline_episode_hints p)\<rparr>"

lemma install_inline_definitions_eq:
  "install_inline_definitions L h p st = ((staged_state L h p st, all_installed p), Ok ())"
  by (simp add: install_inline_definitions_def install_assemblies_eq staged_state_def all_installed_def
      nothing_installed_def Let_def)

lemma same_stores_staged: "same_stores (staged_state L h p st) st"
  unfolding staged_state_def
  by (blast intro: same_stores_trans same_stores_fold same_stores_hint same_stores_install same_stores_assembly)

lemma run_dispatch_eq:
  "run_dispatch L h p st =
    (case dispatch_predictive_payload L (staged_state L h p st) (staged_revisions p) p of
       Inl e \<Rightarrow> (roll_back_inline_definitions (all_installed p) (staged_state L h p st), None, Err e)
     | Inr bs \<Rightarrow> (acknowledge_inline_definitions h (all_installed p) (fst (store_predicted L h p bs (staged_state L h p st))),
         Some (snd (store_predicted L h p bs (staged_state L h p st))), Ok ()))"
  by (simp add: run_dispatch_def install_inline_definitions_eq split: sum.split prod.split)

lemma foldl_unchanged: "(\<And>d st. d \<in> set ds \<Longrightarrow> g (f st d) = g st) \<Longrightarrow> g (foldl f st ds) = g st"
  by (induction ds arbitrary: st) auto

lemma map_retain_upd [simp]: "\<not> keep k \<Longrightarrow> map_retain keep (m(k \<mapsto> v)) = map_retain keep m"
  by (auto simp: map_retain_def)

text \<open>The definitions whose ids are not among the installed ones.\<close>

definition other_definitions where
  "other_definitions ins st =
     (map_retain (\<lambda>i. i \<notin> set (in_assembly_ids ins)) (cs_assemblies st),
      map_retain (\<lambda>i. i \<notin> set (in_assembly_ids ins)) (cs_assembly_sync_versions st),
      filter (\<lambda>d. assembly_def_id d \<notin> set (in_assembly_ids ins)) (cs_installed_assembly_defs st),
      map_retain (\<lambda>i. i \<notin> set (in_schema_ids ins)) (cs_schemas st),
      map_retain (\<lambda>i. i \<notin> set (in_schema_ids ins)) (cs_schema_payloads st),
      filter (\<lambda>d. schema_def_id d \<notin> set (in_schema_ids ins)) (cs_installed_schema_defs st),
      map_retain (\<lambda>i. i \<notin> set (in_dictionary_ids ins)) (cs_dictionaries st))"

lemma other_definitions_unchanged:
  "assembly_def_id d \<in> set (in_assembly_ids ins) \<Longrightarrow>
    other_definitions ins (fst (install_assembly_payload L d st)) = other_definitions ins st"
  "schema_def_id sd \<in> set (in_schema_ids ins) \<Longrightarrow> other_definitions ins (install_schema sd st) = other_definitions ins st"
  "dictionary_def_id dd \<in> set (in_dictionary_ids ins) \<Longrightarrow>
    other_definitions ins (install_dictionary dd st) = other_definitions ins st"
  by (simp_all add: other_definitions_def install_assembly_payload_def assembly_install_plan_def install_schema_def
      install_dictionary_def Let_def)

lemma hint_keeps_definitions:
  "other_definitions ins (install_episode_hint_payload L item tick hint replay st) = other_definitions ins st
    \<and> cs_installed_episode_hints (install_episode_hint_payload L item tick hint replay st) = cs_installed_episode_hints st @ [hint]"
proof -
  let ?g = "\<lambda>st. (other_definitions ins st, cs_installed_episode_hints st)"
  have step: "?g (hint_activation L k tick h replay st c) = ?g st" for k h st c
    by (simp add: other_definitions_def hint_activation_def append_episode_activation_def Let_def)
  have "?g (foldl (hint_activation L k tick h replay) st cs) = ?g st" for k h st cs
    by (rule foldl_unchanged) (rule step)
  then have "other_definitions ins (foldl (hint_activation L k tick h replay) st cs) = other_definitions ins st"
    "cs_installed_episode_hints (foldl (hint_activation L k tick h replay) st cs) = cs_installed_episode_hints st" for k h st cs
    by simp_all
  then show ?thesis unfolding install_episode_hint_payload_def Let_def by (simp add: other_definitions_def)
qed

lemma hints_installed:
  "other_definitions ins (foldl (\<lambda>st hint. install_episode_hint_payload L item tick hint False st) st hints) = other_definitions ins st
    \<and> cs_installed_episode_hints (foldl (\<lambda>st hint. install_episode_hint_payload L item tick hint False st) st hints)
      = cs_installed_episode_hints st @ hints"
  by (induction hints arbitrary: st) (simp_all add: hint_keeps_definitions)

lemma definitions_keep_hints:
  "cs_installed_episode_hints (fst (install_assembly_payload L d st)) = cs_installed_episode_hints st"
  "cs_installed_episode_hints (install_schema sd st) = cs_installed_episode_hints st"
  "cs_installed_episode_hints (install_dictionary dd st) = cs_installed_episode_hints st"
  by (simp_all add: install_assembly_payload_def assembly_install_plan_def install_schema_def install_dictionary_def Let_def)

lemma staged_state_keeps:
  "other_definitions (all_installed p) (staged_state L h p st) = other_definitions (all_installed p) st
    \<and> cs_installed_episode_hints (staged_state L h p st) = cs_installed_episode_hints st @ dp_inline_episode_hints p"
proof -
  let ?g = "\<lambda>st. (other_definitions (all_installed p) st, cs_installed_episode_hints st)"
  have "?g (foldl (\<lambda>st d. install_dictionary d st)
      (foldl (\<lambda>st d. install_schema d st)
        (foldl (\<lambda>st d. fst (install_assembly_payload L d st)) st (dp_inline_assembly_defs p))
        (dp_inline_schema_defs p)) (dp_inline_dictionaries p)) = ?g st"
  proof -
    have "?g (foldl (\<lambda>st d. fst (install_assembly_payload L d st)) st (dp_inline_assembly_defs p)) = ?g st" for st
      by (rule foldl_unchanged) (simp add: other_definitions_unchanged definitions_keep_hints all_installed_def)
    moreover have "?g (foldl (\<lambda>st d. install_schema d st) st (dp_inline_schema_defs p)) = ?g st" for st
      by (rule foldl_unchanged) (simp add: other_definitions_unchanged definitions_keep_hints all_installed_def)
    moreover have "?g (foldl (\<lambda>st d. install_dictionary d st) st (dp_inline_dictionaries p)) = ?g st" for st
      by (rule foldl_unchanged) (simp add: other_definitions_unchanged definitions_keep_hints all_installed_def)
    ultimately show ?thesis by simp
  qed
  then show ?thesis unfolding staged_state_def by (simp add: hints_installed)
qed

lemma map_retain_idem [simp]: "map_retain keep (map_retain keep m) = map_retain keep m"
  by (auto simp: map_retain_def)

lemma definitions_of_roll_back: "other_definitions ins (roll_back_inline_definitions ins st) = other_definitions ins st"
  by (simp add: other_definitions_def roll_back_inline_definitions_def Let_def)

lemma definitions_of_outcome:
  "other_definitions ins (record_route_outcome_detail family tick success symbol out st) = other_definitions ins st"
  by (simp add: other_definitions_def record_route_outcome_detail_def Let_def)

lemma hints_of_outcome:
  "cs_installed_episode_hints (record_route_outcome_detail family tick success symbol out st) = cs_installed_episode_hints st"
  by (simp add: record_route_outcome_detail_def Let_def)

text \<open>The rest of what installing assemblies changes: the index of object ids and the assembly cache.\<close>

definition roll_back_index :: "u64 set \<Rightarrow> (string \<rightharpoonup> u64) \<Rightarrow> (string \<rightharpoonup> u64)" where
  "roll_back_index A index k = (case index k of Some i \<Rightarrow> if i \<in> A then None else Some i | None \<Rightarrow> None)"

definition other_index :: "u64 set \<Rightarrow> (string \<rightharpoonup> u64) \<Rightarrow> (string \<rightharpoonup> u64)" where
  "other_index A index k = (if k \<in> assembly_object_id ` A then None else roll_back_index A index k)"

definition cached_assemblies :: "AssemblyDefPayload list \<Rightarrow> WebSourceCache \<Rightarrow> WebSourceCache" where
  "cached_assemblies ds cache = foldl (\<lambda>cache d. store_assembly (adp_assembly d) cache) cache ds"

lemma other_index_upd [simp]: "i \<in> A \<Longrightarrow> other_index A (index(assembly_object_id i \<mapsto> i)) = other_index A index"
  by (auto simp: other_index_def roll_back_index_def fun_eq_iff)

lemma assemblies_installed:
  fixes L :: "'m ClientLibs" and st :: ClientState
  assumes "assembly_def_id ` set ds \<subseteq> A"
  defines "s \<equiv> foldl (\<lambda>st d. fst (install_assembly_payload L d st)) st ds"
  shows "other_index A (cs_assembly_index s) = other_index A (cs_assembly_index st)"
    and "k \<in> assembly_object_id ` assembly_def_id ` set ds \<Longrightarrow> \<exists>i \<in> A. cs_assembly_index s k = Some i"
    and "cs_assembly_cache s = cached_assemblies ds (cs_assembly_cache st)"
  unfolding s_def using assms(1)
  by (induction ds rule: rev_induct)
    (auto simp: install_assembly_payload_def assembly_install_plan_def cached_assemblies_def Let_def)

lemma roll_back_installed:
  assumes "\<And>k. k \<in> assembly_object_id ` A \<Longrightarrow> \<exists>i \<in> A. index k = Some i"
  shows "roll_back_index A index = other_index A index"
  using assms by (fastforce simp: roll_back_index_def other_index_def fun_eq_iff)

lemma hint_keeps_assemblies:
  "cs_assembly_index (install_episode_hint_payload L item tick hint replay st) = cs_assembly_index st
    \<and> cs_assembly_cache (install_episode_hint_payload L item tick hint replay st) = cs_assembly_cache st"
proof -
  let ?g = "\<lambda>st. (cs_assembly_index st, cs_assembly_cache st)"
  have step: "?g (hint_activation L k tick h replay st c) = ?g st" for k h st c
    by (simp add: hint_activation_def append_episode_activation_def Let_def)
  have "?g (foldl (hint_activation L k tick h replay) st cs) = ?g st" for k h st cs
    by (rule foldl_unchanged) (rule step)
  then show ?thesis unfolding install_episode_hint_payload_def Let_def by simp
qed

lemma staged_assemblies:
  fixes p :: PredictiveRouteDispatchPayload
  defines "A \<equiv> set (in_assembly_ids (all_installed p))"
  shows "roll_back_index A (cs_assembly_index (staged_state L h p st)) = other_index A (cs_assembly_index st)"
    and "cs_assembly_cache (staged_state L h p st) = cached_assemblies (dp_inline_assembly_defs p) (cs_assembly_cache st)"
proof -
  let ?g = "\<lambda>st. (cs_assembly_index st, cs_assembly_cache st)"
  let ?s = "foldl (\<lambda>st d. fst (install_assembly_payload L d st)) st (dp_inline_assembly_defs p)"
  have "?g (foldl (\<lambda>st d. install_schema d st) st ds) = ?g st" for st ds
    by (rule foldl_unchanged) (simp add: install_schema_def Let_def)
  moreover have "?g (foldl (\<lambda>st d. install_dictionary d st) st ds) = ?g st" for st ds
    by (rule foldl_unchanged) (simp add: install_dictionary_def Let_def)
  moreover have "?g (foldl (\<lambda>st hint. install_episode_hint_payload L item tick hint False st) st ds) = ?g st" for st ds item tick
    by (rule foldl_unchanged) (simp add: hint_keeps_assemblies)
  ultimately have staged: "?g (staged_state L h p st) = ?g ?s" by (simp add: staged_state_def)
  have ids: "assembly_def_id ` set (dp_inline_assembly_defs p) = A" by (simp add: A_def all_installed_def)
  note installed = assemblies_installed [where ds = "dp_inline_assembly_defs p" and A = A and L = L and st = st]
  have "roll_back_index A (cs_assembly_index ?s) = other_index A (cs_assembly_index ?s)"
    using installed(2) ids by (intro roll_back_installed) auto
  then show "roll_back_index A (cs_assembly_index (staged_state L h p st)) = other_index A (cs_assembly_index st)"
    using staged installed(1) ids by simp
  show "cs_assembly_cache (staged_state L h p st) = cached_assemblies (dp_inline_assembly_defs p) (cs_assembly_cache st)"
    using staged installed(3) ids by simp
qed

lemma failed_dispatch_state:
  assumes "maybe_decompress_zstd (cl_zstd L) r = Ok r'" "dispatch_decode (cl_dispatch_read L) (rec_payload r') = Ok p"
    "rh_record_type (rec_header r') = dispatch_record_type (dp_route_family p)"
    "apply_predictive_dispatch_record L r st = (st', Err e)"
  obtains family tick success symbol out where
    "st' = record_route_outcome_detail family tick success symbol out
       (roll_back_inline_definitions (all_installed p) (staged_state L (rec_header r') p st))"
  using assms
  by (auto simp: apply_predictive_dispatch_record_def run_dispatch_eq Let_def split: sum.splits prod.splits if_splits)


section \<open>Acknowledgements\<close>

definition ack_key :: "MemoryAckPayload \<Rightarrow> MemoryPlane \<times> ObjectKind \<times> string \<times> RecordType \<times> SeqNo" where
  "ack_key a = (map_plane a, map_object_kind a, map_object_id a, map_acked_record_type a, map_acked_seq_no a)"

lemma same_ack_iff: "same_ack a b \<longleftrightarrow> ack_key a = ack_key b"
  by (auto simp: same_ack_def ack_key_def)

text \<open>From one state to another only acknowledgements of one record are queued, each key once.\<close>

definition acks_grow :: "RecordType \<Rightarrow> SeqNo \<Rightarrow> ClientState \<Rightarrow> ClientState \<Rightarrow> bool" where
  "acks_grow ty seq st st' \<longleftrightarrow>
     (distinct (map ack_key (cs_pending_memory_acks st)) \<longrightarrow> distinct (map ack_key (cs_pending_memory_acks st')))
     \<and> (\<forall>a \<in> set (cs_pending_memory_acks st'). a \<in> set (cs_pending_memory_acks st)
          \<or> map_acked_record_type a = ty \<and> map_acked_seq_no a = seq)"

lemma acks_grow_same: "cs_pending_memory_acks st' = cs_pending_memory_acks st \<Longrightarrow> acks_grow ty seq st st'"
  by (simp add: acks_grow_def)

lemma acks_grow_cleared: "cs_pending_memory_acks st' = [] \<Longrightarrow> acks_grow ty seq st st'"
  by (simp add: acks_grow_def)

lemma acks_grow_trans: "acks_grow ty seq a b \<Longrightarrow> acks_grow ty seq b c \<Longrightarrow> acks_grow ty seq a c"
  by (fastforce simp: acks_grow_def)

lemma acks_grow_enqueue:
  "map_acked_record_type a = ty \<Longrightarrow> map_acked_seq_no a = seq \<Longrightarrow> acks_grow ty seq st (enqueue_memory_ack a st)"
  by (auto simp: acks_grow_def enqueue_memory_ack_def same_ack_iff list_ex_iff)

lemma acks_grow_fold:
  "\<forall>a \<in> set as. map_acked_record_type a = ty \<and> map_acked_seq_no a = seq \<Longrightarrow> acks_grow ty seq st (fold enqueue_memory_ack as st)"
proof (induction as arbitrary: st)
  case (Cons a as)
  then show ?case using acks_grow_trans [OF acks_grow_enqueue [of a ty seq st]] by simp
qed (simp add: acks_grow_same)

lemma acks_of_steps [simp]:
  "cs_pending_memory_acks (promote_to_substrate_catalog L kind bs st) = cs_pending_memory_acks st"
  "cs_pending_memory_acks (prune_resolved_repair_requests st) = cs_pending_memory_acks st"
  "cs_pending_memory_acks (enqueue_repair_request request st) = cs_pending_memory_acks st"
  "cs_pending_memory_acks (record_route_outcome_detail family tick success symbol out st) = cs_pending_memory_acks st"
  "cs_pending_memory_acks (append_episode_activation event st) = cs_pending_memory_acks st"
  "cs_pending_memory_acks (learn L kind bs st) = cs_pending_memory_acks st"
  "cs_pending_memory_acks (drop_items P st) = cs_pending_memory_acks st"
  "cs_pending_memory_acks (install_schema d st) = cs_pending_memory_acks st"
  "cs_pending_memory_acks (retire_assembly_object i st) = cs_pending_memory_acks st"
  by (simp_all add: promote_to_substrate_catalog_def prune_resolved_repair_requests_def enqueue_repair_request_def
      record_route_outcome_detail_def append_episode_activation_def learn_def drop_items_def install_schema_def
      retire_assembly_object_def Let_def split: sum.split prod.split option.split)

lemma acks_of_outcome [simp]: "cs_pending_memory_acks (record_route_outcome family tick success st) = cs_pending_memory_acks st"
  by (simp add: record_route_outcome_def)

lemma acks_of_hint [simp]:
  "cs_pending_memory_acks (install_episode_hint_payload L item tick p replay st) = cs_pending_memory_acks st"
  using same_stores_hint [of L item tick p replay st] by (simp add: same_stores_def)

lemma acks_of_retire [simp]: "cs_pending_memory_acks (retire_memory_object plane i st) = cs_pending_memory_acks st"
  by (cases plane) (simp_all add: retire_memory_object_def)

lemma acks_of_data: "cs_pending_memory_acks (fst (apply_data_record L r st)) = cs_pending_memory_acks st"
proof -
  have "cs_pending_memory_acks (foldl (apply_batch_item L) st items) = cs_pending_memory_acks st" for items st
    by (rule foldl_unchanged) (simp add: apply_batch_item_def Let_def)
  then show ?thesis
    by (auto simp: apply_data_record_def apply_batch_envelope_def decompressed_object_def store_exact_state_def Let_def
        split: sum.split)
qed

lemma acks_of_predicted: "cs_pending_memory_acks (fst (store_predicted L h p bs st)) = cs_pending_memory_acks st"
  by (simp add: store_predicted_def update_episode_memory_from_predictive_dispatch_def Let_def)

lemma acks_of_run_dispatch:
  "acks_grow (rh_record_type h) (rh_seq_no h) st (fst (run_dispatch L h p st))"
proof -
  have staged: "cs_pending_memory_acks (staged_state L h p st) = cs_pending_memory_acks st"
    using same_stores_staged [of L h p st] by (simp add: same_stores_def)
  have "acks_grow (rh_record_type h) (rh_seq_no h) s (acknowledge_inline_definitions h ins s)" for s ins
    unfolding acknowledge_inline_definitions_def by (rule acks_grow_fold) (auto simp: memory_ack_def)
  moreover have "acks_grow (rh_record_type h) (rh_seq_no h) st (roll_back_inline_definitions ins (staged_state L h p st))" for ins
    by (rule acks_grow_same) (simp add: roll_back_inline_definitions_def staged Let_def)
  moreover have "acks_grow (rh_record_type h) (rh_seq_no h) st (fst (store_predicted L h p bs (staged_state L h p st)))" for bs
    by (rule acks_grow_same) (simp add: acks_of_predicted staged)
  ultimately show ?thesis
    by (cases "dispatch_predictive_payload L (staged_state L h p st) (staged_revisions p) p")
      (simp_all add: run_dispatch_eq, blast intro: acks_grow_trans)
qed

lemma decompressed_header:
  "maybe_decompress_zstd z r = Ok r' \<Longrightarrow> rh_record_type (rec_header r') = rh_record_type (rec_header r)
    \<and> rh_seq_no (rec_header r') = rh_seq_no (rec_header r) \<and> rh_item_id (rec_header r') = rh_item_id (rec_header r)"
  by (auto simp: maybe_decompress_zstd_def maybe_decompress_zstd_with_dict_provider_def with_payload_def Let_def
      split: if_splits)

lemma acks_of_record:
  "acks_grow (rh_record_type (rec_header r)) (rh_seq_no (rec_header r)) st (fst (apply_record L r st))"
proof (cases "record_validate r")
  case (Inl e)
  then show ?thesis by (simp add: apply_record_def acks_grow_same)
next
  case (Inr r')
  then have r': "r' = r" by (simp add: record_validate_Inr_iff)
  have data: "acks_grow ty seq st (fst (apply_data_record L r st))" for ty seq
    by (rule acks_grow_same) (rule acks_of_data)
  have dispatch: "acks_grow (rh_record_type (rec_header r)) (rh_seq_no (rec_header r)) st
      (fst (apply_predictive_dispatch_record L r st))"
  proof (cases "maybe_decompress_zstd (cl_zstd L) r")
    case (Inl e)
    then show ?thesis by (simp add: apply_predictive_dispatch_record_def acks_grow_same)
  next
    case (Inr r')
    note header = decompressed_header [OF this]
    show ?thesis
    proof (cases "dispatch_decode (cl_dispatch_read L) (rec_payload r')")
      case (Inl e)
      with Inr show ?thesis by (simp add: apply_predictive_dispatch_record_def acks_grow_same Let_def)
    next
      case (Inr p)
      obtain st' cue out where run: "run_dispatch L (rec_header r') p st = (st', cue, out)" by (cases "run_dispatch L (rec_header r') p st")
      have "acks_grow (rh_record_type (rec_header r)) (rh_seq_no (rec_header r)) st st'"
        using acks_of_run_dispatch [of "rec_header r'" st L p] run header by simp
      then have "acks_grow (rh_record_type (rec_header r)) (rh_seq_no (rec_header r)) st
          (record_route_outcome_detail family tick success symbol o' st')" for family tick success symbol o'
        by (rule acks_grow_trans) (simp add: acks_grow_same)
      with Inr \<open>maybe_decompress_zstd (cl_zstd L) r = Ok r'\<close> run show ?thesis
        by (simp add: apply_predictive_dispatch_record_def acks_grow_same Let_def)
    qed
  qed
  have resync: "acks_grow ty seq st (fst (apply_resync_record L r st))" for ty seq
    by (auto simp: apply_resync_record_def resync_plane_def acks_grow_same acks_grow_cleared Let_def split: sum.split)
  have retire: "acks_grow MemoryRetire (rh_seq_no (rec_header r)) st (fst (apply_memory_retire_record L r st))"
    by (cases "MemoryRetire_decode (cl_retire_read L) (rec_payload r)")
      (auto simp: apply_memory_retire_record_def acks_grow_same intro!: acks_grow_trans [OF acks_grow_enqueue acks_grow_same])
  have replay: "acks_grow ReplayHint (rh_seq_no (rec_header r)) st (fst (apply_replay_hint_record L r st))"
    by (cases "episode_hint_decode (cl_hint_read L) (rec_payload r)")
      (auto simp: apply_replay_hint_record_def acks_grow_same intro!: acks_grow_trans [OF acks_grow_enqueue acks_grow_same])
  have transform: "acks_grow ty seq st (fst (apply_transform_instance_record L r st))" for ty seq
    by (rule acks_grow_same)
      (simp add: apply_transform_instance_record_def materialize_transform_def Let_def split: sum.split option.split prod.split)
  have definitions: "acks_grow ty seq st (fst (apply_source_meta_record r st))"
    "acks_grow ty seq st (fst (apply_assembly_def_record L r st))" "acks_grow ty seq st (fst (apply_transform_def_record L r st))"
    "acks_grow ty seq st (fst (apply_episode_hint_record L r st))" "acks_grow ty seq st (fst (apply_schema_def_record L r st))"
    "acks_grow ty seq st (fst (apply_repair_record L r st))" for ty seq
    using same_stores_assembly [of L _ st]
    by (auto intro!: acks_grow_same simp: apply_source_meta_record_def apply_assembly_def_record_def
        apply_transform_def_record_def apply_episode_hint_record_def apply_schema_def_record_def apply_repair_record_def
        same_stores_def split: sum.split RepairPayload.split prod.split)
  show ?thesis
    using data dispatch resync retire replay transform definitions
    by (cases "rh_record_type (rec_header r)") (simp_all add: apply_record_def Inr r' acks_grow_same)
qed

text \<open>C35: the client acknowledges what it applied, once: whatever records a fresh client receives, until it hands
  its acknowledgements out, no two of them are for the same object and record, and each carries the type and number of a
  record that it received.\<close>

theorem acks_are_for_received_records:
  "distinct (map ack_key (cs_pending_memory_acks (fst (apply_trace L rs client_state_default))))
    \<and> (\<lambda>a. (map_acked_record_type a, map_acked_seq_no a)) ` set (cs_pending_memory_acks (fst (apply_trace L rs client_state_default)))
        \<subseteq> (\<lambda>r. (rh_record_type (rec_header r), rh_seq_no (rec_header r))) ` set rs"
proof -
  let ?of = "\<lambda>r. (rh_record_type (rec_header r), rh_seq_no (rec_header r))"
    and ?for = "\<lambda>a. (map_acked_record_type a, map_acked_seq_no a)"
  have "distinct (map ack_key (cs_pending_memory_acks (fst (apply_trace L rs st))))
      \<and> ?for ` set (cs_pending_memory_acks (fst (apply_trace L rs st))) \<subseteq> ?for ` set (cs_pending_memory_acks st) \<union> ?of ` set rs"
    if "distinct (map ack_key (cs_pending_memory_acks st))" for st
    using that
  proof (induction rs arbitrary: st)
    case (Cons r rs)
    obtain st' out where run: "apply_record L r st = (st', out)" by fastforce
    have grow: "acks_grow (rh_record_type (rec_header r)) (rh_seq_no (rec_header r)) st st'"
      using acks_of_record [of r st L] run by simp
    then have dist: "distinct (map ack_key (cs_pending_memory_acks st'))"
      and acks: "?for ` set (cs_pending_memory_acks st') \<subseteq> ?for ` set (cs_pending_memory_acks st) \<union> {?of r}"
      using Cons.prems by (auto simp: acks_grow_def)
    show ?case
    proof (cases out)
      case (Inl e)
      with run dist acks show ?thesis by auto
    next
      case (Inr u)
      have "?for ` set (cs_pending_memory_acks (fst (apply_trace L rs st')))
          \<subseteq> (?for ` set (cs_pending_memory_acks st) \<union> {?of r}) \<union> ?of ` set rs"
        by (rule order_trans [OF conjunct2 [OF Cons.IH [OF dist]] Un_mono [OF acks order_refl]])
      moreover have "apply_trace L (r # rs) st = apply_trace L rs st'" using run Inr by simp
      moreover have "?of ` set (r # rs) = {?of r} \<union> ?of ` set rs" by simp
      ultimately show ?thesis using conjunct1 [OF Cons.IH [OF dist]] by (simp only: Un_assoc simp_thms)
    qed
  qed simp
  from this [of client_state_default] show ?thesis by (simp add: client_state_default_def)
qed

section \<open>Exact states\<close>

lemma nonzero_block_id: "derive_block_id sha kind h \<noteq> 0"
  by (simp add: derive_block_id_def nonzero_u64_from_hash_def Let_def)

lemma insert_new_block:
  assumes "length bs < 2 ^ 32" "om_get (cat_blocks cat) (derive_catalog_block_id sha kind bs) = None"
  shows "\<exists>cat' i. insert_block sha kind bs cat = Ok (cat', i) \<and> om_get (cat_blocks cat') (derive_catalog_block_id sha kind bs) \<noteq> None"
  using assms nonzero_block_id [of sha kind "content_hash sha bs"]
  by (simp add: insert_block_def block_from_bytes_def checked_u32_len_def insert_block_entry_def block_validate_def
      derive_catalog_block_id_def Let_def unat_of_nat_u32 del: unat_of_nat)

lemma promoted_block_present:
  "length bs < 2 ^ 32 \<Longrightarrow>
    contains_block (cs_catalog (promote_to_substrate_catalog L kind bs st)) (derive_catalog_block_id (cl_sha L) kind bs)"
  using insert_new_block [of bs "cs_catalog st" "cl_sha L" kind]
  by (fastforce simp: promote_to_substrate_catalog_def contains_block_def)

lemma stores_of_promote [simp]:
  "cs_cache (promote_to_substrate_catalog L kind bs st) = cs_cache st"
  "cs_predictors (promote_to_substrate_catalog L kind bs st) = cs_predictors st"
  "cs_previous_versions (promote_to_substrate_catalog L kind bs st) = cs_previous_versions st"
  by (simp_all add: promote_to_substrate_catalog_def split: sum.split prod.split)

lemma stores_of_bookkeeping [simp]:
  "cs_cache (record_route_outcome family tick success st) = cs_cache st"
  "cs_predictors (record_route_outcome family tick success st) = cs_predictors st"
  "cs_previous_versions (record_route_outcome family tick success st) = cs_previous_versions st"
  "cs_catalog (record_route_outcome family tick success st) = cs_catalog st"
  "cs_cache (append_episode_activation event st) = cs_cache st"
  "cs_predictors (append_episode_activation event st) = cs_predictors st"
  "cs_previous_versions (append_episode_activation event st) = cs_previous_versions st"
  "cs_catalog (append_episode_activation event st) = cs_catalog st"
  "cs_cache (prune_resolved_repair_requests st) = cs_cache st"
  "cs_predictors (prune_resolved_repair_requests st) = cs_predictors st"
  "cs_previous_versions (prune_resolved_repair_requests st) = cs_previous_versions st"
  "cs_catalog (prune_resolved_repair_requests st) = cs_catalog st"
  by (simp_all add: record_route_outcome_def record_route_outcome_detail_def append_episode_activation_def
      prune_resolved_repair_requests_def Let_def)

lemma pruned_requests:
  "q \<in> set (cs_repair_requests (prune_resolved_repair_requests st)) \<Longrightarrow>
    \<not> repair_request_is_resolved_against (cs_catalog st) (cs_cache st) q"
  by (simp add: prune_resolved_repair_requests_def)

lemma stored_exact_state:
  assumes "st' = store_exact_state L h obj st"
  shows "cs_cache st' (rh_item_id h) = Some obj" "cs_previous_versions st' (rh_item_id h) = Some (co_exact_bytes obj)"
    "\<exists>m. cs_predictors st' (rh_item_id h) = Some m \<and> pem_item_id m = rh_item_id h"
    "length (co_exact_bytes obj) < 2 ^ 32 \<Longrightarrow>
      contains_block (cs_catalog st') (derive_catalog_block_id (cl_sha L) (co_source_kind obj) (co_exact_bytes obj))"
    "q \<in> set (cs_repair_requests st') \<Longrightarrow> \<not> repair_request_is_resolved_against (cs_catalog st') (cs_cache st') q"
proof -
  obtain s where "st' = prune_resolved_repair_requests s" using assms by (simp add: store_exact_state_def Let_def)
  then show "q \<in> set (cs_repair_requests st') \<Longrightarrow> \<not> repair_request_is_resolved_against (cs_catalog st') (cs_cache st') q"
    by (simp add: pruned_requests)
qed (use promoted_block_present [of "co_exact_bytes obj" L "co_source_kind obj"] in
    \<open>simp_all add: assms store_exact_state_def Let_def\<close>)

text \<open>The bytes of the object a client stores: those decoded, or what they decompress to.\<close>

lemma decompressed_object_bytes:
  assumes "decompressed_object L i obj0 st = (s, obj)"
  shows "if starts_with_compression_tag (co_exact_bytes obj0)
    then case decode_compressed_payload (cl_zstd L) (cl_columnar_read L) (co_exact_bytes obj0) (cs_dict_manager st)
        (cs_template_registry st) (cs_previous_versions st) (co_source_kind obj0) of
      Inr bs \<Rightarrow> co_exact_bytes obj = bs
    | Inl e \<Rightarrow> co_exact_bytes obj =
        (if length (co_exact_bytes obj0) > 2 then drop 2 (co_exact_bytes obj0) else co_exact_bytes obj0)
    else obj = obj0"
  using assms by (auto simp: decompressed_object_def object_from_exact_bytes_def Let_def split: sum.split)

text \<open>C36: an exact state that was applied can be used.  Its payload was decoded with the client's prediction and
  binding to an object; the client stores this object or, when its bytes start with a compression tag, the
  decompressed bytes (a payload that cannot be decompressed: its bytes behind the two bytes of the tag).  These bytes
  are in the cache, they are the base for the next delta and for the next prediction, a reference to the item yields
  them, a dependency on the item is available, the catalog offers them as a block (below 4 GiB), and no repair request
  is left that the client can answer by itself.\<close>

theorem exact_state_is_retrievable:
  assumes "apply_record L r st = (st', Ok ())" "rh_record_type (rec_header r) = ExactState"
    "\<not> flags_contains (rh_flags (rec_header r)) IS_EVICT" "\<not> flags_contains (rh_flags (rec_header r)) IS_INVALIDATE"
    "rh_item_id (rec_header r) = i"
  shows "\<exists>obj0 obj bs.
    decode_data_payload_to_runtime_object (cl_sha L) (cl_ans L) (cl_assets L) (rec_payload r) (rh_codec_mode (rec_header r))
      (predicted_bytes st i) (cs_source_bindings st i) Binary OK_ExactState = Ok obj0
    \<and> (if starts_with_compression_tag (co_exact_bytes obj0)
       then case decode_compressed_payload (cl_zstd L) (cl_columnar_read L) (co_exact_bytes obj0) (cs_dict_manager st)
           (cs_template_registry st) (cs_previous_versions st) (co_source_kind obj0) of
         Inr d \<Rightarrow> bs = d
       | Inl e \<Rightarrow> bs = (if length (co_exact_bytes obj0) > 2 then drop 2 (co_exact_bytes obj0) else co_exact_bytes obj0)
       else obj = obj0)
    \<and> cs_cache st' i = Some obj \<and> co_exact_bytes obj = bs
    \<and> cached_bytes st' i = Some bs \<and> cs_previous_versions st' i = Some bs \<and> predicted_bytes st' i = Some bs
    \<and> client_substrate L st' (substrate_opaque OK_ExactState i) = Some bs
    \<and> dependency_available st' \<lparr>od_object_kind = OK_ExactState, od_object_id = ''item:'' @ show_u64 i, od_required_revision = n\<rparr>
    \<and> (length bs < 2 ^ 32 \<longrightarrow>
        contains_block (cs_catalog st') (derive_catalog_block_id (cl_sha L) (co_source_kind obj) bs))
    \<and> (\<forall>q \<in> set (cs_repair_requests st'). \<not> repair_request_is_resolved_against (cs_catalog st') (cs_cache st') q)"
proof -
  obtain r' where valid: "record_validate r = Ok r'"
    using assms(1) by (cases "record_validate r") (auto simp: apply_record_def)
  then have "r' = r" by (simp add: record_validate_Inr_iff)
  with valid have "apply_data_record L r st = (st', Ok ())" using assms(1,2) by (simp add: apply_record_def)
  with assms(2,3,4) obtain obj0 obj s where
    decoded: "decode_data_payload_to_runtime_object (cl_sha L) (cl_ans L) (cl_assets L) (rec_payload r)
        (rh_codec_mode (rec_header r)) (predicted_bytes st i) (cs_source_bindings st i) Binary OK_ExactState = Ok obj0"
    and "decompressed_object L i obj0 st = (s, obj)"
    and st': "st' = store_exact_state L (rec_header r) obj s"
    by (auto simp: apply_data_record_def assms(5) Let_def split: sum.splits if_splits prod.splits)
  note bs = decompressed_object_bytes [OF this(2)]
  note stored = stored_exact_state [OF st', unfolded assms(5)]
  have bytes: "cached_bytes st' i = Some (co_exact_bytes obj)" by (simp add: cached_bytes_def stored(1))
  moreover have "predicted_bytes st' i = Some (co_exact_bytes obj)"
    using stored(3) bytes by (auto simp: predicted_bytes_def predictor_state_for_def)
  moreover have "client_substrate L st' (substrate_opaque OK_ExactState i) = Some (co_exact_bytes obj)"
    by (simp add: client_substrate_def resolve_substrate_reference_def bytes cached_or_slice_def substrate_opaque_def
        substrate_new_def)
  moreover have "dependency_available st'
      \<lparr>od_object_kind = OK_ExactState, od_object_id = ''item:'' @ show_u64 i, od_required_revision = n\<rparr>"
    using stored(1) strip_prefix_append [of "''item:''" "show_u64 i"]
    by (simp add: dependency_available_def check_dependency_available_def dependency_available_bool_def parse_prefixed_def
        present_def)
  ultimately show ?thesis using decoded bs stored(1,2,4,5) by blast
qed

section \<open>A sample client\<close>

text \<open>Libraries whose decoders know nothing but one dispatch, which carries a dictionary and has no body.\<close>

definition sample_dictionary :: SharedDictionary where
  "sample_dictionary =
     \<lparr>di_dictionary_id = 3, di_source_kind = Text, di_version = \<lparr>ov_schema_version = 1, ov_object_revision = 1\<rparr>, di_entries = [],
      di_keyed_permutation_seed = 0, di_max_token_len = 4, di_lifecycle = lifecycle_default\<rparr>"

definition sample_dispatch :: PredictiveRouteDispatchPayload where
  "sample_dispatch =
     with_derived_route_graph ((literal_dispatch [])\<lparr>dp_inline_dictionaries := [dictionary_def_new sample_dictionary]\<rparr>)"

definition toy_libs :: "unit ClientLibs" where
  "toy_libs =
     \<lparr>cl_sha = toy_sha, cl_simd = False, cl_zstd = toy_zstd, cl_ans = toy_ans, cl_assets = toy_assets,
      cl_columnar_read = (\<lambda>_. Err []), cl_batch_read = (\<lambda>_. Err []), cl_retire_read = (\<lambda>_. Err []),
      cl_resync_read = (\<lambda>_. Err []), cl_repair_read = (\<lambda>_. Err []), cl_dispatch_read = (\<lambda>_. Ok (sample_dispatch, 0)),
      cl_assembly_read = (\<lambda>_. Err []), cl_transform_read = (\<lambda>_. Err []), cl_instance_read = (\<lambda>_. Err []),
      cl_schema_read = (\<lambda>_. Err []), cl_hint_read = (\<lambda>_. Err []), cl_levels = 4\<rparr>"

definition client_record :: "RecordType \<Rightarrow> CodecMode \<Rightarrow> ItemId \<Rightarrow> bytes \<Rightarrow> Record" where
  "client_record ty mode item payload =
     \<lparr>rec_header = \<lparr>rh_version = 2, rh_stream_id = 7, rh_epoch_id = 0, rh_seq_no = 3, rh_record_type = ty,
        rh_codec_mode = mode, rh_flags = 0, rh_item_id = item, rh_payload_len = of_nat (length payload)\<rparr>,
      rec_payload = payload, rec_auth_tag = replicate 16 0\<rparr>"

lemma sample_dispatch_decoded: "dispatch_decode (\<lambda>_. Ok (sample_dispatch, 0)) bs = Ok sample_dispatch"
  by (simp add: sample_dispatch_def dispatch_decode_def validate_route_contract_def with_derived_route_graph_def
      literal_dispatch_def PAYLOAD_VERSION_def derive_route_graph_contract_def derive_route_graph_contract_for_def Let_def)

lemma empty_resync_forgets_witness:
  "\<exists>st'. apply_record toy_libs (client_record Resync CM_None 0 []) (client_state_default\<lparr>cs_previous_versions := [9 \<mapsto> [1]]\<rparr>)
      = (st', Ok ())
    \<and> cs_previous_versions st' = [9 \<mapsto> [1]] \<and> (\<forall>d. \<not> dependency_available st' d)"
proof -
  have "record_validate (client_record Resync CM_None 0 []) = Ok (client_record Resync CM_None 0 [])" by code_simp
  from empty_resync_forgets [OF this, of toy_libs "client_state_default\<lparr>cs_previous_versions := [9 \<mapsto> [1]]\<rparr>"]
  show ?thesis by (auto simp: client_record_def)
qed


lemma exact_state_is_retrievable_witness:
  "client_substrate toy_libs (fst (apply_record toy_libs (client_record ExactState CM_DirectExact 9 [1, 65]) client_state_default))
    (substrate_opaque OK_ExactState 9) = Some [65]"
proof -
  let ?r = "client_record ExactState CM_DirectExact 9 [1, 65]"
  have "record_validate ?r = Ok ?r" by code_simp
  moreover have data: "decode_data_payload toy_ans toy_assets [1, 65] CM_DirectExact None
      = Ok \<lparr>esm_source_kind = Text, esm_exact_bytes = [65]\<rparr>"
    by (simp add: decode_data_payload_def decode_direct_exact_payload_def DIRECT_EXACT_HEADER_LEN_def SourceKind_from_tag_def)
  ultimately have "snd (apply_record toy_libs ?r client_state_default) = Ok ()"
    by (simp add: apply_record_def apply_data_record_def client_record_def toy_libs_def flags_contains_def IS_EVICT_def IS_INVALIDATE_def
        decode_data_payload_to_runtime_object_def predicted_bytes_def client_state_default_def predictor_state_for_def
        Let_def split: prod.split)
  then have "apply_record toy_libs ?r client_state_default = (fst (apply_record toy_libs ?r client_state_default), Ok ())"
    by (metis prod.collapse)
  moreover have "co_exact_bytes obj0 = [65]"
    if "decode_data_payload_to_runtime_object (cl_sha toy_libs) (cl_ans toy_libs) (cl_assets toy_libs) (rec_payload ?r)
      (rh_codec_mode (rec_header ?r)) (predicted_bytes client_state_default 9) (cs_source_bindings client_state_default 9)
      Binary OK_ExactState = Ok obj0" for obj0
    using that data by (auto simp: decode_data_payload_to_runtime_object_def predicted_bytes_def predictor_state_for_def
        client_record_def toy_libs_def client_state_default_def object_from_exact_bytes_def Let_def)
  moreover have "\<not> starts_with_compression_tag [65]"
    by (simp add: starts_with_compression_tag_def)
  ultimately show ?thesis
    using exact_state_is_retrievable [of toy_libs ?r client_state_default _ 9]
    by (fastforce simp: client_record_def flags_contains_def IS_EVICT_def IS_INVALIDATE_def)
qed

end
